(* ===== verification/Prelude.thy ===== *)
theory Prelude
  imports Complex_Main "HOL-Library.AList"
begin

text \<open>
  Shared vocabulary of the development: the JavaScript values the code handles, errors as values,
  the pieces of the schema library that the source's schemas are built from, the insertion-ordered
  \<open>Map\<close>, and the pair of maps (records by id, id by idempotency key) that every in-memory
  repository of \<open>src/packages/db/src\<close> keeps. The locales at the end are the interfaces the
  components are checked against: idempotent commands, guarded lifecycles and append-only ledgers.

  Modelling conventions:
  \<^item> a JavaScript \<open>number\<close> is an exact rational; rounding, \<open>NaN\<close> and the infinities are outside the
    model, so a schema check such as \<open>.finite()\<close> is vacuous and \<open>.int()\<close> is a real test;
  \<^item> a \<open>Date\<close> is its epoch time in milliseconds, an integer;
  \<^item> strings are lists of 8-bit characters, JSON objects are association lists in key order;
  \<^item> a thrown exception is an \<open>Inl\<close> value, and a failed operation leaves the store as it was;
  \<^item> \<open>z.string().uuid()\<close> belongs to the schema library, so the test is a parameter \<open>is_uuid\<close>;
  \<^item> \<open>new Date()\<close> and \<open>crypto.randomUUID()\<close> are arguments (\<open>now\<close>, \<open>uuid\<close>) of the operation that
    calls them.
\<close>

section \<open>Values\<close>

type_synonym number = rat
type_synonym date = int

datatype json =
    JNull
  | JBool bool
  | JNum number
  | JStr string
  | JArr "json list"
  | JObj "(string \<times> json) list"

type_synonym json_record = "(string \<times> json) list"

datatype js_error =
    ZodError
  | JsError string
  | ExternalActionNotFoundError string
  | ExternalActionConflictError string
  | ExternalActionStateError string
  | ServiceUnavailableError string
  | UnauthorizedError string
  | ConflictError string
  | NotFoundError string

type_synonym 'a result = "js_error + 'a"

named_theorems repo_simps \<open>unfolding rules of repository operations\<close>
named_theorems schema_simps \<open>unfolding rules of schema checks\<close>

text \<open>Reading a property of a parsed JSON value; only objects have the properties the schemas name.\<close>

fun json_field :: "string \<Rightarrow> json \<Rightarrow> json option" where
  "json_field k (JObj fs) = map_of fs k"
| "json_field k _ = None"

section \<open>Sequencing of operations that may throw\<close>

fun and_then :: "'e + 'a \<Rightarrow> ('a \<Rightarrow> 'e + 'b) \<Rightarrow> 'e + 'b" where
  "and_then (Inl e) f = Inl e"
| "and_then (Inr a) f = f a"

lemma and_then_Inr [simp]:
  "and_then x f = Inr y \<longleftrightarrow> (\<exists>a. x = Inr a \<and> f a = Inr y)"
  by (cases x) auto

lemma and_then_Inl [simp]:
  "and_then x f = Inl e \<longleftrightarrow> x = Inl e \<or> (\<exists>a. x = Inr a \<and> f a = Inl e)"
  by (cases x) auto

text \<open>
  The same for a handler whose earlier effects stay when a later call throws: \<open>d\<close> is the state
  the handler leaves behind if \<open>x\<close> is an error.
\<close>

fun or_throw :: "'e + 'a \<Rightarrow> 'd \<Rightarrow> ('a \<Rightarrow> ('e + 'b) \<times> 'd) \<Rightarrow> ('e + 'b) \<times> 'd" where
  "or_throw (Inl e) d f = (Inl e, d)"
| "or_throw (Inr a) d f = f a"

lemma or_throw_Inr:
  "or_throw x d f = (Inr b, d') \<longleftrightarrow> (\<exists>a. x = Inr a \<and> f a = (Inr b, d'))"
  by (cases x) auto

text \<open>Two effectful steps in a row; an error of the first is final and keeps the state it left.\<close>

definition then_do :: "('s \<Rightarrow> ('e + 'a) \<times> 's) \<Rightarrow> ('a \<Rightarrow> 's \<Rightarrow> ('e + 'b) \<times> 's) \<Rightarrow> 's \<Rightarrow> ('e + 'b) \<times> 's" where
  "then_do m f s = (case m s of (Inl e, s') \<Rightarrow> (Inl e, s') | (Inr a, s') \<Rightarrow> f a s')"

text \<open>The result of such a step as a value with the new state, or its error.\<close>

definition committed :: "('e + 'a) \<times> 's \<Rightarrow> 'e + 'a \<times> 's" where
  "committed p = (case p of (Inl e, s) \<Rightarrow> Inl e | (Inr a, s) \<Rightarrow> Inr (a, s))"

lemma committed_Inr [simp]: "committed p = Inr (a, s) \<longleftrightarrow> p = (Inr a, s)"
  by (cases p; cases "fst p") (auto simp: committed_def)

lemma then_do_Inr: "m s = (Inr a, s') \<Longrightarrow> then_do m f s = f a s'"
  by (simp add: then_do_def)

lemma if_Inr_iff [simp]:
  "(if b then Inl e else x) = Inr y \<longleftrightarrow> \<not> b \<and> x = Inr y"
  "(if b then x else Inl e) = Inr y \<longleftrightarrow> b \<and> x = Inr y"
  by auto

text \<open>The state after a call that is known to succeed, for building examples step by step.\<close>

definition state_after :: "js_error + 'r \<times> 's \<Rightarrow> 's \<Rightarrow> 's" where
  "state_after res s = (case res of Inl _ \<Rightarrow> s | Inr (_, s') \<Rightarrow> s')"

definition value_of :: "js_error + 'r \<times> 's \<Rightarrow> 'r" where
  "value_of res = fst (projr res)"

lemma call_result: "\<not> isl res \<Longrightarrow> res = Inr (value_of res, state_after res s)"
  by (cases res) (auto simp: state_after_def value_of_def)

section \<open>Schema checks\<close>

definition is_integer :: "number \<Rightarrow> bool" where
  "is_integer x \<longleftrightarrow> of_int \<lfloor>x\<rfloor> = x"

definition is_positive_int :: "number \<Rightarrow> bool" where
  [schema_simps]: "is_positive_int x \<longleftrightarrow> is_integer x \<and> 0 < x"

definition is_nonnegative_int :: "number \<Rightarrow> bool" where
  [schema_simps]: "is_nonnegative_int x \<longleftrightarrow> is_integer x \<and> 0 \<le> x"

definition in_unit :: "number \<Rightarrow> bool" where
  [schema_simps]: "in_unit x \<longleftrightarrow> 0 \<le> x \<and> x \<le> 1"

lemma is_integer_of_int [simp]: "is_integer (of_int n)"
  by (simp add: is_integer_def)

lemma is_integer_numeral [simp]:
  "is_integer 0" "is_integer 1" "is_integer (numeral n)" "is_integer (- numeral n)"
  using is_integer_of_int [of 0] is_integer_of_int [of 1]
    is_integer_of_int [of "numeral n"] is_integer_of_int [of "- numeral n"]
  by simp_all

lemma is_integerE:
  assumes "is_integer x"
  obtains n where "x = of_int n"
  using assms by (metis is_integer_def)

lemma is_integer_add [simp]: "is_integer x \<Longrightarrow> is_integer y \<Longrightarrow> is_integer (x + y)"
  by (metis is_integerE is_integer_of_int of_int_add)

lemma is_integer_mult [simp]: "is_integer x \<Longrightarrow> is_integer y \<Longrightarrow> is_integer (x * y)"
  by (metis is_integerE is_integer_of_int of_int_mult)

lemma is_integer_power [simp]: "is_integer x \<Longrightarrow> is_integer (x ^ n)"
  by (induction n) simp_all

lemma is_integer_max [simp]: "is_integer x \<Longrightarrow> is_integer y \<Longrightarrow> is_integer (max x y)"
  by (simp add: max_def)

text \<open>The white space that \<open>String.prototype.trim\<close> strips, within the 8-bit range.\<close>

definition is_space :: "char \<Rightarrow> bool" where
  "is_space c \<longleftrightarrow>
     c \<in> {CHR '' '', CHR 0x09, CHR 0x0A, CHR 0x0B, CHR 0x0C, CHR 0x0D, CHR 0xA0}"

definition trim :: "string \<Rightarrow> string" where
  "trim s = rev (dropWhile is_space (rev (dropWhile is_space s)))"

lemma dropWhile_idem [simp]: "dropWhile P (dropWhile P xs) = dropWhile P xs"
  by (induction xs) auto

lemma dropWhile_no_prefix: "xs = [] \<or> \<not> P (hd xs) \<Longrightarrow> dropWhile P xs = xs"
  by (cases xs) auto

lemma dropWhile_eq_hd: "dropWhile P xs = [] \<or> \<not> P (hd (dropWhile P xs))"
  using hd_dropWhile by blast

lemma last_rev_dropWhile:
  "ys \<noteq> [] \<Longrightarrow> \<not> P (hd ys) \<Longrightarrow> dropWhile P ys = ys"
  by (cases ys) auto

lemma trim_idem [simp]: "trim (trim s) = trim s"
proof -
  define a where "a = dropWhile is_space s"
  define b where "b = dropWhile is_space (rev a)"
  have t: "trim s = rev b" by (simp add: trim_def a_def b_def)
  have suffix: "\<exists>zs. rev a = zs @ b"
    unfolding b_def by (metis takeWhile_dropWhile_id)
  then obtain zs where zs: "a = rev b @ rev zs" by (metis rev_append rev_rev_ident)
  have "rev b = [] \<or> \<not> is_space (hd (rev b))"
  proof (cases "rev b")
    case Nil
    then show ?thesis by simp
  next
    case (Cons c cs)
    then have "hd a = c" by (simp add: zs)
    moreover have "a \<noteq> []" by (simp add: zs Cons)
    ultimately show ?thesis
      using dropWhile_eq_hd [of is_space s] by (auto simp: a_def Cons)
  qed
  then have "dropWhile is_space (rev b) = rev b" by (rule dropWhile_no_prefix)
  moreover have "dropWhile is_space b = b" by (simp add: b_def)
  ultimately show ?thesis
    unfolding t by (simp add: trim_def)
qed

lemma trim_Nil [simp]: "trim [] = []"
  by (simp add: trim_def)

text \<open>\<open>z.string().trim().min(1)\<close>: the parsed value is the trimmed string.\<close>

definition nonEmptyText :: "string \<Rightarrow> string result" where
  "nonEmptyText s = (if trim s = [] then Inl ZodError else Inr (trim s))"

text \<open>A string that has been through \<^const>\<open>nonEmptyText\<close>.\<close>

definition is_text :: "string \<Rightarrow> bool" where
  "is_text s \<longleftrightarrow> s \<noteq> [] \<and> trim s = s"

lemma nonEmptyText_Inr [simp]: "nonEmptyText s = Inr t \<longleftrightarrow> trim s = t \<and> t \<noteq> []"
  by (auto simp: nonEmptyText_def)

lemma is_text_trim [simp]: "is_text (trim s) \<longleftrightarrow> trim s \<noteq> []"
  by (simp add: is_text_def)

lemma is_textD: "is_text s \<Longrightarrow> trim s = s" "is_text s \<Longrightarrow> s \<noteq> []"
  by (simp_all add: is_text_def)

text \<open>
  A schema's \<open>parse\<close>: apply its transformations (trimming, defaults), then check every
  constraint; one failed constraint throws.
\<close>

definition zod_parse :: "('a \<Rightarrow> 'a) \<Rightarrow> ('a \<Rightarrow> bool) \<Rightarrow> 'a \<Rightarrow> 'a result" where
  "zod_parse tr ok x = (if ok (tr x) then Inr (tr x) else Inl ZodError)"

lemma zod_parse_Inr [simp]: "zod_parse tr ok x = Inr y \<longleftrightarrow> y = tr x \<and> ok y"
  by (auto simp: zod_parse_def)

lemma zod_parse_Inl [simp]: "zod_parse tr ok x = Inl e \<longleftrightarrow> e = ZodError \<and> \<not> ok (tr x)"
  by (auto simp: zod_parse_def)

lemma zod_parse_id: "tr x = x \<Longrightarrow> ok x \<Longrightarrow> zod_parse tr ok x = Inr x"
  by simp

text \<open>\<open>pred_opt P\<close>: an \<open>.optional()\<close> or \<open>.nullable()\<close> field, absent or satisfying \<open>P\<close>.\<close>

fun pred_opt :: "('a \<Rightarrow> bool) \<Rightarrow> 'a option \<Rightarrow> bool" where
  "pred_opt P None = True"
| "pred_opt P (Some x) = P x"

lemma pred_opt_iff: "pred_opt P x \<longleftrightarrow> (\<forall>y. x = Some y \<longrightarrow> P y)"
  by (cases x) auto

text \<open>JavaScript's \<open>a ?? b\<close>.\<close>

fun nullish :: "'a option \<Rightarrow> 'a option \<Rightarrow> 'a option" where
  "nullish (Some a) b = Some a"
| "nullish None b = b"

fun nullish_or :: "'a option \<Rightarrow> 'a \<Rightarrow> 'a" where
  "nullish_or (Some a) b = a"
| "nullish_or None b = b"

lemma nullish_None [simp]: "nullish a b = None \<longleftrightarrow> a = None \<and> b = None"
  by (cases a) auto

lemma nullish_Some_right [simp]: "\<exists>y. nullish a (Some b) = Some y"
  by (cases a) auto

lemma nullish_right_None [simp]: "nullish a None = a"
  by (cases a) auto

lemma pred_opt_nullish: "pred_opt P a \<Longrightarrow> pred_opt P b \<Longrightarrow> pred_opt P (nullish a b)"
  by (cases a) auto

section \<open>Numbers as text\<close>

fun show_nat :: "nat \<Rightarrow> string" where
  "show_nat n =
     (if n < 10 then [''0123456789'' ! n] else show_nat (n div 10) @ [''0123456789'' ! (n mod 10)])"

declare show_nat.simps [simp del]

definition show_int :: "int \<Rightarrow> string" where
  "show_int i = (if i < 0 then CHR ''-'' # show_nat (nat (- i)) else show_nat (nat i))"

text \<open>Template-literal interpolation of a number that a schema has checked to be an integer.\<close>

definition show_integer :: "number \<Rightarrow> string" where
  "show_integer x = show_int \<lfloor>x\<rfloor>"

lemma show_nat_nonempty [simp]: "show_nat n \<noteq> []"
  by (subst show_nat.simps) simp

lemma digit_nth: "(n::nat) < 10 \<Longrightarrow> ''0123456789'' ! n \<in> set ''0123456789''"
  by (rule nth_mem) simp

lemma show_nat_digits: "set (show_nat n) \<subseteq> set ''0123456789''"
proof (induction n rule: show_nat.induct)
  case (1 n)
  show ?case
  proof (cases "n < 10")
    case True
    then show ?thesis using digit_nth [of n] by (subst show_nat.simps) auto
  next
    case False
    then show ?thesis using 1 digit_nth [of "n mod 10"] by (subst show_nat.simps) auto
  qed
qed

text \<open>\<open>String.prototype.padStart\<close> with a one-character filler.\<close>

definition padStart :: "nat \<Rightarrow> char \<Rightarrow> string \<Rightarrow> string" where
  "padStart n c s = replicate (n - length s) c @ s"

text \<open>
  \<open>Date.prototype.toISOString\<close>: the proleptic Gregorian date of an epoch time in milliseconds,
  four-digit years from 0 to 9999 and signed six-digit years outside.
\<close>

definition civil_from_days :: "int \<Rightarrow> int \<times> int \<times> int" where
  "civil_from_days days =
     (let z = days + 719468; era = z div 146097; doe = z mod 146097;
          yoe = (doe - doe div 1460 + doe div 36524 - doe div 146096) div 365;
          doy = doe - (365 * yoe + yoe div 4 - yoe div 100);
          mp = (5 * doy + 2) div 153;
          d = doy - (153 * mp + 2) div 5 + 1;
          m = (if mp < 10 then mp + 3 else mp - 9)
      in (yoe + era * 400 + (if m \<le> 2 then 1 else 0), m, d))"

definition show_year :: "int \<Rightarrow> string" where
  "show_year y =
     (if 0 \<le> y \<and> y \<le> 9999 then padStart 4 CHR ''0'' (show_int y)
      else (if y < 0 then ''-'' else ''+'') @ padStart 6 CHR ''0'' (show_int \<bar>y\<bar>))"

definition toISOString :: "date \<Rightarrow> string" where
  "toISOString t =
     (let days = t div 86400000; ms = t mod 86400000; pad = (\<lambda>n x. padStart n CHR ''0'' (show_int x))
      in case civil_from_days days of (y, m, d) \<Rightarrow>
           show_year y @ ''-'' @ pad 2 m @ ''-'' @ pad 2 d @ ''T'' @
           pad 2 (ms div 3600000) @ '':'' @ pad 2 (ms div 60000 mod 60) @ '':'' @
           pad 2 (ms div 1000 mod 60) @ ''.'' @ pad 3 (ms mod 1000) @ ''Z'')"

lemma toISOString_epoch: "toISOString 0 = ''1970-01-01T00:00:00.000Z''"
  by code_simp

lemma toISOString_leap_day: "toISOString 1709251199999 = ''2024-02-29T23:59:59.999Z''"
  by code_simp

section \<open>Identifiers\<close>

text \<open>
  What the code relies on from \<open>z.string().uuid()\<close>: a UUID is a non-empty string of hexadecimal
  digits and hyphens, so it holds no colon and no white space.
\<close>

definition uuid_format :: "(string \<Rightarrow> bool) \<Rightarrow> bool" where
  "uuid_format is_uuid \<longleftrightarrow>
     (\<forall>s. is_uuid s \<longrightarrow> s \<noteq> [] \<and> set s \<subseteq> set ''0123456789abcdefABCDEF-'')"

lemma uuid_format_nonempty: "uuid_format is_uuid \<Longrightarrow> is_uuid s \<Longrightarrow> s \<noteq> []"
  by (auto simp: uuid_format_def)

lemma uuid_format_no_colon: "uuid_format is_uuid \<Longrightarrow> is_uuid s \<Longrightarrow> CHR '':'' \<notin> set s"
proof -
  assume "uuid_format is_uuid" "is_uuid s"
  then have "set s \<subseteq> set ''0123456789abcdefABCDEF-''" unfolding uuid_format_def by blast
  moreover have "CHR '':'' \<notin> set ''0123456789abcdefABCDEF-''" by simp
  ultimately show ?thesis by (rule contra_subsetD)
qed

text \<open>A concrete test with that format, used where a witness needs one.\<close>

definition hex_id :: "string \<Rightarrow> bool" where
  "hex_id s \<longleftrightarrow> s \<noteq> [] \<and> list_all (\<lambda>c. c \<in> set ''0123456789abcdefABCDEF-'') s"

lemma uuid_format_hex_id: "uuid_format hex_id"
  unfolding uuid_format_def hex_id_def list_all_iff subset_iff by blast

text \<open>Keys made by joining parts with a colon, as the in-memory repositories build them.\<close>

definition colon_key :: "string \<Rightarrow> string \<Rightarrow> string" where
  "colon_key a b = a @ '':'' @ b"

lemma colon_key_inject:
  assumes "CHR '':'' \<notin> set a" and "CHR '':'' \<notin> set a'"
  shows "colon_key a b = colon_key a' b' \<longleftrightarrow> a = a' \<and> b = b'"
proof
  assume eq: "colon_key a b = colon_key a' b'"
  have tw: "takeWhile (\<lambda>c. c \<noteq> CHR '':'') (colon_key x y) = x" if "CHR '':'' \<notin> set x" for x y
    using that unfolding colon_key_def by (subst takeWhile_append2) auto
  from eq assms have "a = a'" using tw by metis
  with eq show "a = a' \<and> b = b'" by (simp add: colon_key_def)
qed simp

section \<open>Records by id with an idempotency index\<close>

text \<open>
  The two maps of an in-memory repository: the records by id and the id by key. A JavaScript
  \<open>Map\<close> iterates in insertion order and \<open>set\<close> on a present key keeps its place, which is
  what \<^const>\<open>AList.update\<close> does on an association list.
\<close>

record 'r store =
  byId :: "(string \<times> 'r) list"
  idByKey :: "(string \<times> string) list"

definition empty_store :: "'r store" where
  "empty_store = \<lparr>byId = [], idByKey = []\<rparr>"

abbreviation get_by_id :: "'r store \<Rightarrow> string \<Rightarrow> 'r option" where
  "get_by_id st i \<equiv> map_of (byId st) i"

definition store_values :: "'r store \<Rightarrow> 'r list" where
  "store_values st = map snd (byId st)"

text \<open>
  \<open>const existingId = idByKey.get(key); if (existingId) { const existing = byId.get(existingId);
  if (existing) return existing; }\<close>: an empty id counts as absent.
\<close>

definition find_existing :: "'r store \<Rightarrow> string \<Rightarrow> 'r option" where
  "find_existing st key =
     (case map_of (idByKey st) key of
        None \<Rightarrow> None
      | Some i \<Rightarrow> if i = [] then None else map_of (byId st) i)"

definition insert_new :: "string \<Rightarrow> string \<Rightarrow> 'r \<Rightarrow> 'r store \<Rightarrow> 'r store" where
  "insert_new key i r st =
     st\<lparr>byId := AList.update i r (byId st), idByKey := AList.update key i (idByKey st)\<rparr>"

definition put_record :: "string \<Rightarrow> 'r \<Rightarrow> 'r store \<Rightarrow> 'r store" where
  "put_record i r st = st\<lparr>byId := AList.update i r (byId st)\<rparr>"

text \<open>
  The invariant every repository keeps: ids are filed under themselves, no id occurs twice, every
  record satisfies its own predicate, and the index and the records agree both ways.
\<close>

definition ids_unique :: "'r store \<Rightarrow> bool" where
  "ids_unique st \<longleftrightarrow> distinct (map fst (byId st))"

definition store_ok :: "('r \<Rightarrow> string) \<Rightarrow> ('r \<Rightarrow> string) \<Rightarrow> ('r \<Rightarrow> bool) \<Rightarrow> 'r store \<Rightarrow> bool" where
  "store_ok rid rkey P st \<longleftrightarrow>
     ids_unique st \<and>
     (\<forall>i r. map_of (byId st) i = Some r \<longrightarrow>
        i \<noteq> [] \<and> rid r = i \<and> P r \<and> map_of (idByKey st) (rkey r) = Some i) \<and>
     (\<forall>k i. map_of (idByKey st) k = Some i \<longrightarrow> (\<exists>r. map_of (byId st) i = Some r \<and> rkey r = k))"

lemma ids_unique_update [simp]:
  "ids_unique st \<Longrightarrow> ids_unique (insert_new k i r st)"
  "ids_unique st \<Longrightarrow> ids_unique (put_record i r st)"
  by (simp_all add: ids_unique_def insert_new_def put_record_def distinct_update)

lemma store_ok_empty [simp]: "store_ok rid rkey P empty_store"
  by (simp add: store_ok_def ids_unique_def empty_store_def)

lemma get_by_id_insert [simp]:
  "get_by_id (insert_new key i r st) j = (if j = i then Some r else get_by_id st j)"
  by (simp add: insert_new_def update_conv)

lemma get_by_id_put [simp]:
  "get_by_id (put_record i r st) j = (if j = i then Some r else get_by_id st j)"
  by (simp add: put_record_def update_conv)

lemma idByKey_put [simp]: "idByKey (put_record i r st) = idByKey st"
  by (simp add: put_record_def)

lemma idByKey_insert [simp]:
  "map_of (idByKey (insert_new k i r st)) k' = (if k' = k then Some i else map_of (idByKey st) k')"
  by (simp add: insert_new_def update_conv)

lemma store_okD:
  assumes "store_ok rid rkey P st" and "get_by_id st i = Some r"
  shows "i \<noteq> []" "rid r = i" "P r" "map_of (idByKey st) (rkey r) = Some i"
  using assms by (auto simp: store_ok_def)

lemma store_ok_index:
  assumes "store_ok rid rkey P st" and "map_of (idByKey st) k = Some i"
  obtains r where "get_by_id st i = Some r" "rkey r = k"
  using assms unfolding store_ok_def by metis

lemma store_ok_index_ex:
  "store_ok rid rkey P st \<Longrightarrow> map_of (idByKey st) k = Some i \<Longrightarrow>
     \<exists>r. get_by_id st i = Some r \<and> rkey r = k"
  by (auto elim: store_ok_index)

lemma store_okI:
  assumes "ids_unique st"
    and "\<And>i r. get_by_id st i = Some r \<Longrightarrow>
           i \<noteq> [] \<and> rid r = i \<and> P r \<and> map_of (idByKey st) (rkey r) = Some i"
    and "\<And>k i. map_of (idByKey st) k = Some i \<Longrightarrow> \<exists>r. get_by_id st i = Some r \<and> rkey r = k"
  shows "store_ok rid rkey P st"
  using assms unfolding store_ok_def by blast

lemma store_ok_unique: "store_ok rid rkey P st \<Longrightarrow> ids_unique st"
  by (simp add: store_ok_def)

lemma find_existing_Some:
  assumes "store_ok rid rkey P st"
  shows "find_existing st k = Some r \<longleftrightarrow> get_by_id st (rid r) = Some r \<and> rkey r = k"
proof
  assume "find_existing st k = Some r"
  then obtain i where "map_of (idByKey st) k = Some i" and r: "get_by_id st i = Some r"
    by (auto simp: find_existing_def split: option.splits if_splits)
  with assms show "get_by_id st (rid r) = Some r \<and> rkey r = k"
    by (metis option.inject store_okD(2) store_ok_index)
next
  assume r: "get_by_id st (rid r) = Some r \<and> rkey r = k"
  with assms have "map_of (idByKey st) k = Some (rid r)" "rid r \<noteq> []"
    by (auto dest: store_okD)
  with r show "find_existing st k = Some r" by (simp add: find_existing_def)
qed

lemma find_existing_None:
  assumes "store_ok rid rkey P st"
  shows "find_existing st k = None \<longleftrightarrow> map_of (idByKey st) k = None"
proof (cases "map_of (idByKey st) k")
  case (Some i)
  from store_ok_index [OF assms Some] obtain r where "get_by_id st i = Some r" by metis
  with store_okD(1) [OF assms this] Some show ?thesis by (simp add: find_existing_def)
qed (simp add: find_existing_def)

lemma find_existing_insert [simp]:
  "i \<noteq> [] \<Longrightarrow> find_existing (insert_new k i r st) k = Some r"
  by (simp add: find_existing_def insert_new_def update_conv)

lemma store_ok_insert:
  assumes ok: "store_ok rid rkey P st" and new: "find_existing st (rkey r) = None"
    and fresh: "get_by_id st (rid r) = None" and r: "rid r \<noteq> []" "P r" "k = rkey r" "i = rid r"
  shows "store_ok rid rkey P (insert_new k i r st)"
proof -
  from new ok have none: "map_of (idByKey st) (rkey r) = None"
    using find_existing_None by blast
  have other: "j \<noteq> rid r" if "map_of (idByKey st) k' = Some j" for k' j
    using store_ok_index [OF ok that] fresh by force
  have keys: "rkey r' \<noteq> rkey r" if "get_by_id st j = Some r'" for j r'
    using store_okD(4) [OF ok that] none by auto
  show ?thesis
  proof (rule store_okI)
    show "ids_unique (insert_new k i r st)" using ok by (simp add: store_ok_unique)
  next
    fix j r' assume "get_by_id (insert_new k i r st) j = Some r'"
    then show "j \<noteq> [] \<and> rid r' = j \<and> P r' \<and> map_of (idByKey (insert_new k i r st)) (rkey r') = Some j"
      using r keys store_okD [OF ok, of j r'] by (auto split: if_splits)
  next
    fix k' j assume "map_of (idByKey (insert_new k i r st)) k' = Some j"
    then show "\<exists>r'. get_by_id (insert_new k i r st) j = Some r' \<and> rkey r' = k'"
      using r other store_ok_index_ex [OF ok, of k' j] by (auto split: if_splits)
  qed
qed

lemma store_ok_put:
  assumes ok: "store_ok rid rkey P st" and old: "get_by_id st i = Some r"
    and new: "rid r' = i" "rkey r' = rkey r" "P r'"
  shows "store_ok rid rkey P (put_record i r' st)"
proof (rule store_okI)
  show "ids_unique (put_record i r' st)" using ok by (simp add: store_ok_unique)
next
  fix j q assume "get_by_id (put_record i r' st) j = Some q"
  then show "j \<noteq> [] \<and> rid q = j \<and> P q \<and> map_of (idByKey (put_record i r' st)) (rkey q) = Some j"
    using new store_okD [OF ok old] store_okD [OF ok, of j q] by (auto split: if_splits)
next
  fix k j assume k: "map_of (idByKey (put_record i r' st)) k = Some j"
  then obtain q where "get_by_id st j = Some q" "rkey q = k"
    using store_ok_index [OF ok, of k j] by auto
  with old new show "\<exists>q. get_by_id (put_record i r' st) j = Some q \<and> rkey q = k"
    by (cases "j = i") auto
qed

lemma set_store_values:
  assumes "store_ok rid rkey P st"
  shows "r \<in> set (store_values st) \<longleftrightarrow> get_by_id st (rid r) = Some r"
proof -
  have d: "distinct (map fst (byId st))" using assms by (simp add: store_ok_def ids_unique_def)
  have "r \<in> set (store_values st) \<longleftrightarrow> (\<exists>i. (i, r) \<in> set (byId st))"
    by (force simp: store_values_def)
  also have "\<dots> \<longleftrightarrow> (\<exists>i. get_by_id st i = Some r)"
    using d by (metis map_of_SomeD map_of_is_SomeI)
  also have "\<dots> \<longleftrightarrow> get_by_id st (rid r) = Some r"
    using assms by (metis store_okD(2))
  finally show ?thesis .
qed

lemma distinct_store_values:
  assumes "store_ok rid rkey P st"
  shows "distinct (store_values st)"
proof -
  have d: "distinct (map fst (byId st))" using assms by (simp add: store_ok_def ids_unique_def)
  then have "rid r = i" if "(i, r) \<in> set (byId st)" for i r
    using assms that store_okD(2) map_of_is_SomeI by metis
  then have ids: "map rid (store_values st) = map fst (byId st)"
    unfolding store_values_def by auto
  have "distinct (map rid (store_values st))"
    unfolding ids by (rule d)
  then show ?thesis by (simp add: distinct_map)
qed

text \<open>\<open>.sort((a, b) => time(b) - time(a)).slice(0, limit)\<close>: stable, newest first.\<close>

definition newest_first :: "('r \<Rightarrow> date) \<Rightarrow> 'r list \<Rightarrow> 'r list" where
  "newest_first time rs = sort_key (\<lambda>r. - time r) rs"

lemma set_newest_first [simp]: "set (newest_first time rs) = set rs"
  by (simp add: newest_first_def)

lemma sorted_newest_first: "sorted_wrt (\<lambda>a b. time b \<le> time a) (newest_first time rs)"
proof -
  have "sorted (map (\<lambda>r. - time r) (newest_first time rs))"
    by (simp add: newest_first_def)
  then show ?thesis by (simp add: sorted_wrt_map)
qed

lemma distinct_newest_first [simp]: "distinct (newest_first time rs) = distinct rs"
  by (simp add: newest_first_def)

lemma length_newest_first [simp]: "length (newest_first time rs) = length rs"
  by (simp add: newest_first_def)

section \<open>Interfaces\<close>

text \<open>
  A command that is safe to deliver twice. \<open>run c e s\<close> executes the command \<open>c\<close> in the store \<open>s\<close>
  with the clock reading and fresh identifiers \<open>e\<close>; replaying a command that succeeded, at any
  later reading, returns the same value and changes nothing.
\<close>

locale idempotent_command =
  fixes run :: "'c \<Rightarrow> 'e \<Rightarrow> 's \<Rightarrow> js_error + 'r \<times> 's"
    and inv :: "'s \<Rightarrow> bool"
    and fresh :: "'e \<Rightarrow> 's \<Rightarrow> bool"
    and same :: "'r \<Rightarrow> 'r \<Rightarrow> bool"
  assumes run_inv: "inv s \<Longrightarrow> fresh e s \<Longrightarrow> run c e s = Inr (r, t) \<Longrightarrow> inv t"
    and run_replay: "inv s \<Longrightarrow> fresh e s \<Longrightarrow> run c e s = Inr (r, t) \<Longrightarrow>
           \<exists>r'. run c e' t = Inr (r', t) \<and> same r r'"
begin

lemma replay_many:
  assumes "inv s" and "fresh e s" and "run c e s = Inr (r, t)"
  shows "\<exists>r'. foldl (\<lambda>acc e'. and_then acc (\<lambda>(_, u). run c e' u)) (Inr (r, t)) es = Inr (r', t)"
proof (induction es rule: rev_induct)
  case Nil
  show ?case by simp
next
  case (snoc e' es)
  with run_replay [OF assms, of e'] show ?case by auto
qed

end

text \<open>
  A guarded lifecycle: a store of items, each with a status, and a step relation that moves an
  item's status only along the allowed transitions.
\<close>

locale lifecycle =
  fixes step :: "'s \<Rightarrow> 's \<Rightarrow> bool"
    and inv :: "'s \<Rightarrow> bool"
    and status_of :: "'s \<Rightarrow> 'i \<Rightarrow> 'q option"
    and allowed :: "'q \<Rightarrow> 'q \<Rightarrow> bool"
  assumes step_inv: "step s t \<Longrightarrow> inv s \<Longrightarrow> inv t"
    and step_status: "step s t \<Longrightarrow> inv s \<Longrightarrow> status_of s i = Some a \<Longrightarrow>
           \<exists>b. status_of t i = Some b \<and> (b = a \<or> allowed a b)"
begin

lemma steps_inv: "step\<^sup>*\<^sup>* s t \<Longrightarrow> inv s \<Longrightarrow> inv t"
  by (induction rule: rtranclp_induct) (auto intro: step_inv)

lemma steps_status:
  assumes "step\<^sup>*\<^sup>* s t" and "inv s" and "status_of s i = Some a"
  shows "\<exists>b. status_of t i = Some b \<and> allowed\<^sup>*\<^sup>* a b"
  using assms
proof (induction rule: rtranclp_induct)
  case base
  then show ?case by auto
next
  case (step t u)
  then obtain b where b: "status_of t i = Some b" "allowed\<^sup>*\<^sup>* a b" by auto
  with step_status [OF step.hyps(2) steps_inv [OF step.hyps(1)] b(1)] step.prems(1)
  show ?case by (auto intro: rtranclp.rtrancl_into_rtrancl)
qed

lemma terminal_stays:
  assumes "step\<^sup>*\<^sup>* s t" and "inv s" and "status_of s i = Some a" and "\<And>b. \<not> allowed a b"
  shows "status_of t i = Some a"
proof -
  from steps_status [OF assms(1-3)] obtain b where b: "status_of t i = Some b" "allowed\<^sup>*\<^sup>* a b"
    by auto
  from b(2) assms(4) have "b = a" by (auto elim: converse_rtranclpE)
  with b(1) show ?thesis by simp
qed

end

text \<open>An append-only ledger: what has been written under an id is there for good.\<close>

locale append_only =
  fixes step :: "'s \<Rightarrow> 's \<Rightarrow> bool"
    and inv :: "'s \<Rightarrow> bool"
    and entry :: "'s \<Rightarrow> 'i \<Rightarrow> 'r option"
  assumes ledger_inv: "step s t \<Longrightarrow> inv s \<Longrightarrow> inv t"
    and ledger_keeps: "step s t \<Longrightarrow> inv s \<Longrightarrow> entry s i = Some r \<Longrightarrow> entry t i = Some r"

sublocale append_only \<subseteq> ledger: lifecycle step inv entry "\<lambda>_ _. False"
  by unfold_locales (auto intro: ledger_inv ledger_keeps)

end
