(* ===== verification/Harness.thy ===== *)
theory Harness
  imports Prelude
begin

text \<open>
  The adaptive GTM harness of \<open>src/packages/core/src/adaptive-gtm-harness.ts\<close>: the promotion gate
  for learning proposals (\<open>evaluateLearningProposal\<close>) and the runtime health transition
  (\<open>decideHealingAction\<close>), each with the schemas it parses its inputs and its result with.
\<close>

section \<open>The learning gate\<close>

datatype changeRisk = RiskLow | RiskMedium | RiskHigh | RiskCritical

datatype metricDirection = Increase | Decrease

datatype learningVerdict = ContinueExperiment | Reject | RequiresApproval | Promote

record adaptiveLearningPolicy =
  pol_minEvidence :: number
  pol_minUniqueEntities :: number
  pol_minConfidence :: number
  pol_minRelativeLift :: number
  pol_maxGuardrailRegression :: number
  pol_humanApprovalFor :: "changeRisk list"

text \<open>\<open>Partial<AdaptiveLearningPolicy>\<close>: a missing field takes the schema's default.\<close>

record rawLearningPolicy =
  raw_minEvidence :: "number option"
  raw_minUniqueEntities :: "number option"
  raw_minConfidence :: "number option"
  raw_minRelativeLift :: "number option"
  raw_maxGuardrailRegression :: "number option"
  raw_humanApprovalFor :: "changeRisk list option"

definition default_rawLearningPolicy :: rawLearningPolicy where
  "default_rawLearningPolicy =
     \<lparr>raw_minEvidence = None, raw_minUniqueEntities = None, raw_minConfidence = None,
      raw_minRelativeLift = None, raw_maxGuardrailRegression = None, raw_humanApprovalFor = None\<rparr>"

definition adaptiveLearningPolicy_ok :: "adaptiveLearningPolicy \<Rightarrow> bool" where
  "adaptiveLearningPolicy_ok p \<longleftrightarrow>
     is_positive_int (pol_minEvidence p) \<and>
     is_positive_int (pol_minUniqueEntities p) \<and>
     in_unit (pol_minConfidence p) \<and>
     0 < pol_minRelativeLift p \<and>
     in_unit (pol_maxGuardrailRegression p)"

definition adaptiveLearningPolicySchema_parse ::
  "rawLearningPolicy \<Rightarrow> adaptiveLearningPolicy result" where
  "adaptiveLearningPolicySchema_parse raw =
     zod_parse id adaptiveLearningPolicy_ok
       \<lparr>pol_minEvidence = nullish_or (raw_minEvidence raw) 20,
        pol_minUniqueEntities = nullish_or (raw_minUniqueEntities raw) 5,
        pol_minConfidence = nullish_or (raw_minConfidence raw) (8 / 10),
        pol_minRelativeLift = nullish_or (raw_minRelativeLift raw) (5 / 100),
        pol_maxGuardrailRegression = nullish_or (raw_maxGuardrailRegression raw) (2 / 100),
        pol_humanApprovalFor = nullish_or (raw_humanApprovalFor raw) [RiskHigh, RiskCritical]\<rparr>"

record learningProposalEvaluation =
  ev_proposalId :: string
  ev_risk :: changeRisk
  ev_evidenceCount :: number
  ev_uniqueEntities :: number
  ev_confidence :: number
  ev_metricDirection :: metricDirection
  ev_baselineMetric :: number
  ev_candidateMetric :: number
  ev_worstGuardrailRegression :: number
  ev_humanApproved :: bool

definition learningProposalEvaluation_ok :: "learningProposalEvaluation \<Rightarrow> bool" where
  "learningProposalEvaluation_ok ev \<longleftrightarrow>
     ev_proposalId ev \<noteq> [] \<and>
     is_nonnegative_int (ev_evidenceCount ev) \<and>
     is_nonnegative_int (ev_uniqueEntities ev) \<and>
     in_unit (ev_confidence ev) \<and>
     in_unit (ev_worstGuardrailRegression ev)"

definition learningProposalEvaluationSchema_parse ::
  "learningProposalEvaluation \<Rightarrow> learningProposalEvaluation result" where
  "learningProposalEvaluationSchema_parse = zod_parse id learningProposalEvaluation_ok"

record learningDecision =
  ld_decision :: learningVerdict
  ld_relativeLift :: number
  ld_reasons :: "string list"

definition learningDecision_ok :: "learningDecision \<Rightarrow> bool" where
  "learningDecision_ok d \<longleftrightarrow> ld_reasons d \<noteq> [] \<and> list_all (\<lambda>r. r \<noteq> []) (ld_reasons d)"

definition learningDecisionSchema_parse :: "learningDecision \<Rightarrow> learningDecision result" where
  "learningDecisionSchema_parse = zod_parse id learningDecision_ok"

definition relative_lift :: "learningProposalEvaluation \<Rightarrow> number" where
  "relative_lift ev =
     (let denominator = max \<bar>ev_baselineMetric ev\<bar> (1 / 1000000000);
          improvement =
            (if ev_metricDirection ev = Increase
             then ev_candidateMetric ev - ev_baselineMetric ev
             else ev_baselineMetric ev - ev_candidateMetric ev)
      in improvement / denominator)"

definition missing_evidence ::
  "adaptiveLearningPolicy \<Rightarrow> learningProposalEvaluation \<Rightarrow> string list" where
  "missing_evidence policy ev =
     (if ev_evidenceCount ev < pol_minEvidence policy
      then [''Need '' @ show_integer (pol_minEvidence policy - ev_evidenceCount ev)
              @ '' more observations.''] else []) @
     (if ev_uniqueEntities ev < pol_minUniqueEntities policy
      then [''Need '' @ show_integer (pol_minUniqueEntities policy - ev_uniqueEntities ev)
              @ '' more unique entities.''] else []) @
     (if ev_confidence ev < pol_minConfidence policy
      then [''Confidence is below the promotion threshold.''] else [])"

definition evaluateLearningProposal ::
  "learningProposalEvaluation \<Rightarrow> rawLearningPolicy \<Rightarrow> learningDecision result" where
  "evaluateLearningProposal input rawPolicy =
     and_then (learningProposalEvaluationSchema_parse input) (\<lambda>evaluation.
     and_then (adaptiveLearningPolicySchema_parse rawPolicy) (\<lambda>policy.
       (let relativeLift = relative_lift evaluation;
            missingEvidence = missing_evidence policy evaluation
        in if pol_maxGuardrailRegression policy < ev_worstGuardrailRegression evaluation then
             learningDecisionSchema_parse
               \<lparr>ld_decision = Reject, ld_relativeLift = relativeLift,
                ld_reasons = [''Candidate breached a configured business guardrail.'']\<rparr>
           else if missingEvidence \<noteq> [] then
             learningDecisionSchema_parse
               \<lparr>ld_decision = ContinueExperiment, ld_relativeLift = relativeLift,
                ld_reasons = missingEvidence\<rparr>
           else if relativeLift < pol_minRelativeLift policy then
             learningDecisionSchema_parse
               \<lparr>ld_decision = Reject, ld_relativeLift = relativeLift,
                ld_reasons = [''Measured lift is below the promotion threshold.'']\<rparr>
           else if ev_risk evaluation \<in> set (pol_humanApprovalFor policy)
                   \<and> \<not> ev_humanApproved evaluation then
             learningDecisionSchema_parse
               \<lparr>ld_decision = RequiresApproval, ld_relativeLift = relativeLift,
                ld_reasons = [''The change passed evidence gates but its risk requires approval.'']\<rparr>
           else
             learningDecisionSchema_parse
               \<lparr>ld_decision = Promote, ld_relativeLift = relativeLift,
                ld_reasons = [''Candidate passed evidence, lift, confidence, and guardrail gates.'']\<rparr>)))"

section \<open>Runtime health\<close>

datatype runtimeHealthState = Healthy | Degraded | Recovering | Quarantined

datatype healingAction =
    NoAction | Resume | RetryWithBackoff | UseFallback | Rollback | QuarantineAndEscalate

record healingPolicy =
  hp_maxErrorRate :: number
  hp_maxConsecutiveFailures :: number
  hp_maxP95LatencyMs :: number
  hp_maxStalenessSeconds :: number
  hp_maxRecoveryAttempts :: number
  hp_baseBackoffSeconds :: number

record rawHealingPolicy =
  raw_maxErrorRate :: "number option"
  raw_maxConsecutiveFailures :: "number option"
  raw_maxP95LatencyMs :: "number option"
  raw_maxStalenessSeconds :: "number option"
  raw_maxRecoveryAttempts :: "number option"
  raw_baseBackoffSeconds :: "number option"

definition default_rawHealingPolicy :: rawHealingPolicy where
  "default_rawHealingPolicy =
     \<lparr>raw_maxErrorRate = None, raw_maxConsecutiveFailures = None, raw_maxP95LatencyMs = None,
      raw_maxStalenessSeconds = None, raw_maxRecoveryAttempts = None, raw_baseBackoffSeconds = None\<rparr>"

definition healingPolicy_ok :: "healingPolicy \<Rightarrow> bool" where
  "healingPolicy_ok p \<longleftrightarrow>
     in_unit (hp_maxErrorRate p) \<and>
     is_positive_int (hp_maxConsecutiveFailures p) \<and>
     0 < hp_maxP95LatencyMs p \<and>
     is_positive_int (hp_maxStalenessSeconds p) \<and>
     is_positive_int (hp_maxRecoveryAttempts p) \<and>
     is_positive_int (hp_baseBackoffSeconds p)"

definition healingPolicySchema_parse :: "rawHealingPolicy \<Rightarrow> healingPolicy result" where
  "healingPolicySchema_parse raw =
     zod_parse id healingPolicy_ok
       \<lparr>hp_maxErrorRate = nullish_or (raw_maxErrorRate raw) (5 / 100),
        hp_maxConsecutiveFailures = nullish_or (raw_maxConsecutiveFailures raw) 3,
        hp_maxP95LatencyMs = nullish_or (raw_maxP95LatencyMs raw) 10000,
        hp_maxStalenessSeconds = nullish_or (raw_maxStalenessSeconds raw) 900,
        hp_maxRecoveryAttempts = nullish_or (raw_maxRecoveryAttempts raw) 3,
        hp_baseBackoffSeconds = nullish_or (raw_baseBackoffSeconds raw) 30\<rparr>"

record runtimeHealthObservation =
  ho_componentId :: string
  ho_currentState :: runtimeHealthState
  ho_errorRate :: number
  ho_consecutiveFailures :: number
  ho_p95LatencyMs :: number
  ho_stalenessSeconds :: number
  ho_dependencyAvailable :: bool
  ho_fallbackAvailable :: bool
  ho_lastKnownGoodAvailable :: bool
  ho_recoveryAttempts :: number
  ho_guardrailBreached :: bool

definition runtimeHealthObservation_ok :: "runtimeHealthObservation \<Rightarrow> bool" where
  "runtimeHealthObservation_ok h \<longleftrightarrow>
     ho_componentId h \<noteq> [] \<and>
     in_unit (ho_errorRate h) \<and>
     is_nonnegative_int (ho_consecutiveFailures h) \<and>
     0 \<le> ho_p95LatencyMs h \<and>
     is_nonnegative_int (ho_stalenessSeconds h) \<and>
     is_nonnegative_int (ho_recoveryAttempts h)"

definition runtimeHealthObservationSchema_parse ::
  "runtimeHealthObservation \<Rightarrow> runtimeHealthObservation result" where
  "runtimeHealthObservationSchema_parse = zod_parse id runtimeHealthObservation_ok"

record healingDecision =
  hd_nextState :: runtimeHealthState
  hd_action :: healingAction
  hd_allowExternalActions :: bool
  hd_retryAfterSeconds :: "number option"
  hd_reasons :: "string list"

definition healingDecision_ok :: "healingDecision \<Rightarrow> bool" where
  "healingDecision_ok d \<longleftrightarrow>
     pred_opt is_positive_int (hd_retryAfterSeconds d) \<and>
     hd_reasons d \<noteq> [] \<and> list_all (\<lambda>r. r \<noteq> []) (hd_reasons d)"

definition healingDecisionSchema_parse :: "healingDecision \<Rightarrow> healingDecision result" where
  "healingDecisionSchema_parse = zod_parse id healingDecision_ok"

definition unhealthy_reasons :: "healingPolicy \<Rightarrow> runtimeHealthObservation \<Rightarrow> string list" where
  "unhealthy_reasons policy health =
     (if \<not> ho_dependencyAvailable health then [''Dependency is unavailable.''] else []) @
     (if hp_maxErrorRate policy < ho_errorRate health then [''Error rate exceeds policy.''] else []) @
     (if hp_maxConsecutiveFailures policy \<le> ho_consecutiveFailures health
      then [''Consecutive failure limit reached.''] else []) @
     (if hp_maxP95LatencyMs policy < ho_p95LatencyMs health then [''Latency exceeds policy.''] else []) @
     (if hp_maxStalenessSeconds policy < ho_stalenessSeconds health
      then [''Component data is stale.''] else [])"

definition decideHealingAction ::
  "runtimeHealthObservation \<Rightarrow> rawHealingPolicy \<Rightarrow> healingDecision result" where
  "decideHealingAction input rawPolicy =
     and_then (runtimeHealthObservationSchema_parse input) (\<lambda>health.
     and_then (healingPolicySchema_parse rawPolicy) (\<lambda>policy.
       (let unhealthyReasons = unhealthy_reasons policy health
        in if ho_guardrailBreached health then
             healingDecisionSchema_parse
               \<lparr>hd_nextState = Quarantined,
                hd_action = (if ho_lastKnownGoodAvailable health then Rollback
                             else QuarantineAndEscalate),
                hd_allowExternalActions = False,
                hd_retryAfterSeconds = None,
                hd_reasons = [''A business or safety guardrail was breached.'']\<rparr>
           else if unhealthyReasons = [] then
             healingDecisionSchema_parse
               \<lparr>hd_nextState = Healthy,
                hd_action = (if ho_currentState health = Healthy then NoAction else Resume),
                hd_allowExternalActions = True,
                hd_retryAfterSeconds = None,
                hd_reasons =
                  [if ho_currentState health = Healthy
                   then ''Component is within all health thresholds.''
                   else ''Recovery checks passed; normal execution can resume.'']\<rparr>
           else if hp_maxRecoveryAttempts policy \<le> ho_recoveryAttempts health then
             healingDecisionSchema_parse
               \<lparr>hd_nextState = Quarantined,
                hd_action = (if ho_lastKnownGoodAvailable health then Rollback
                             else QuarantineAndEscalate),
                hd_allowExternalActions = False,
                hd_retryAfterSeconds = None,
                hd_reasons = ''Automated recovery attempts were exhausted.'' # unhealthyReasons\<rparr>
           else if ho_fallbackAvailable health then
             healingDecisionSchema_parse
               \<lparr>hd_nextState = Degraded,
                hd_action = UseFallback,
                hd_allowExternalActions = True,
                hd_retryAfterSeconds = Some (hp_baseBackoffSeconds policy),
                hd_reasons = unhealthyReasons\<rparr>
           else
             healingDecisionSchema_parse
               \<lparr>hd_nextState = Recovering,
                hd_action = RetryWithBackoff,
                hd_allowExternalActions = False,
                hd_retryAfterSeconds =
                  Some (hp_baseBackoffSeconds policy
                          * 2 ^ nat \<lfloor>min (ho_recoveryAttempts health) 8\<rfloor>),
                hd_reasons = unhealthyReasons\<rparr>)))"

section \<open>Facts about the learning gate\<close>

lemmas learning_gate_defs =
  evaluateLearningProposal_def learningProposalEvaluationSchema_parse_def
  learningDecisionSchema_parse_def Let_def

lemma missing_evidence_Nil:
  "missing_evidence p ev = [] \<longleftrightarrow>
     pol_minEvidence p \<le> ev_evidenceCount ev \<and>
     pol_minUniqueEntities p \<le> ev_uniqueEntities ev \<and>
     pol_minConfidence p \<le> ev_confidence ev"
  by (auto simp: missing_evidence_def)

lemma missing_evidence_texts: "list_all (\<lambda>r. r \<noteq> []) (missing_evidence p ev)"
  by (auto simp: missing_evidence_def)

lemma relative_lift_le_iff:
  "c \<le> relative_lift ev \<longleftrightarrow>
     c * max \<bar>ev_baselineMetric ev\<bar> (1 / 1000000000) \<le>
       (if ev_metricDirection ev = Increase
        then ev_candidateMetric ev - ev_baselineMetric ev
        else ev_baselineMetric ev - ev_candidateMetric ev)"
proof -
  have "0 < max \<bar>ev_baselineMetric ev\<bar> (1 / 1000000000)" by (simp add: less_max_iff_disj)
  then show ?thesis by (simp add: relative_lift_def Let_def pos_le_divide_eq)
qed

text \<open>The verdict on parsed inputs, as one expression over the four gates.\<close>

lemma evaluate_on_valid:
  assumes "learningProposalEvaluation_ok ev" and "adaptiveLearningPolicySchema_parse raw = Inr p"
  shows "\<exists>d. evaluateLearningProposal ev raw = Inr d \<and> ld_relativeLift d = relative_lift ev \<and>
     ld_decision d =
       (if pol_maxGuardrailRegression p < ev_worstGuardrailRegression ev then Reject
        else if missing_evidence p ev \<noteq> [] then ContinueExperiment
        else if relative_lift ev < pol_minRelativeLift p then Reject
        else if ev_risk ev \<in> set (pol_humanApprovalFor p) \<and> \<not> ev_humanApproved ev
             then RequiresApproval
        else Promote)"
  using assms missing_evidence_texts [of p ev]
  by (simp add: learning_gate_defs zod_parse_def learningDecision_ok_def)

lemma evaluate_Inr_parsed:
  assumes "evaluateLearningProposal ev raw = Inr d"
  obtains p where "learningProposalEvaluation_ok ev" "adaptiveLearningPolicySchema_parse raw = Inr p"
  using assms by (auto simp: evaluateLearningProposal_def learningProposalEvaluationSchema_parse_def)

lemma promoted_evidence:
  assumes "\<exists>d. evaluateLearningProposal ev raw = Inr d \<and> ld_decision d = Promote"
    and "adaptiveLearningPolicySchema_parse raw = Inr p"
  shows "pol_minEvidence p \<le> ev_evidenceCount ev"
    "ev_risk ev \<notin> set (pol_humanApprovalFor p) \<or> ev_humanApproved ev"
proof -
  from assms obtain d where d: "evaluateLearningProposal ev raw = Inr d" "ld_decision d = Promote" by blast
  from d(1) have "learningProposalEvaluation_ok ev" by (rule evaluate_Inr_parsed)
  from evaluate_on_valid [OF this assms(2)] d
  show "pol_minEvidence p \<le> ev_evidenceCount ev" "ev_risk ev \<notin> set (pol_humanApprovalFor p) \<or> ev_humanApproved ev"
    by (auto simp: missing_evidence_Nil split: if_splits)
qed

definition example_evaluation :: learningProposalEvaluation where
  "example_evaluation =
     \<lparr>ev_proposalId = ''p1'', ev_risk = RiskHigh, ev_evidenceCount = 40, ev_uniqueEntities = 12,
      ev_confidence = 9 / 10, ev_metricDirection = Increase, ev_baselineMetric = 10,
      ev_candidateMetric = 12, ev_worstGuardrailRegression = 0, ev_humanApproved = True\<rparr>"

lemma example_evaluation_promoted:
  "evaluateLearningProposal example_evaluation default_rawLearningPolicy =
     Inr \<lparr>ld_decision = Promote, ld_relativeLift = 1 / 5,
          ld_reasons = [''Candidate passed evidence, lift, confidence, and guardrail gates.'']\<rparr>"
  by (simp add: learning_gate_defs zod_parse_def learningDecision_ok_def example_evaluation_def
      default_rawLearningPolicy_def adaptiveLearningPolicySchema_parse_def adaptiveLearningPolicy_ok_def
      learningProposalEvaluation_ok_def missing_evidence_def relative_lift_def schema_simps)

text \<open>
  C1. A learning proposal is promoted exactly when its evaluation and the policy are well-formed
  and it passes every gate: no guardrail regression beyond the policy, enough observations, enough
  distinct entities, enough confidence, enough lift relative to the baseline, and, for the risk
  levels the policy lists, a human approval.
\<close>

theorem evaluate_promotes_iff_all_gates:
  "(\<exists>d. evaluateLearningProposal ev raw = Inr d \<and> ld_decision d = Promote) \<longleftrightarrow>
     learningProposalEvaluation_ok ev \<and>
     (\<exists>p. adaptiveLearningPolicySchema_parse raw = Inr p \<and>
        ev_worstGuardrailRegression ev \<le> pol_maxGuardrailRegression p \<and>
        pol_minEvidence p \<le> ev_evidenceCount ev \<and>
        pol_minUniqueEntities p \<le> ev_uniqueEntities ev \<and>
        pol_minConfidence p \<le> ev_confidence ev \<and>
        pol_minRelativeLift p * max \<bar>ev_baselineMetric ev\<bar> (1 / 1000000000) \<le>
          (if ev_metricDirection ev = Increase
           then ev_candidateMetric ev - ev_baselineMetric ev
           else ev_baselineMetric ev - ev_candidateMetric ev) \<and>
        (ev_risk ev \<notin> set (pol_humanApprovalFor p) \<or> ev_humanApproved ev))"
proof (cases "learningProposalEvaluation_ok ev \<and> (\<exists>p. adaptiveLearningPolicySchema_parse raw = Inr p)")
  case True
  then obtain p where p: "learningProposalEvaluation_ok ev" "adaptiveLearningPolicySchema_parse raw = Inr p"
    by blast
  from evaluate_on_valid [OF p] p show ?thesis
    by (auto simp: missing_evidence_Nil relative_lift_le_iff [symmetric] split: if_splits)
next
  case False
  then show ?thesis by (auto elim: evaluate_Inr_parsed)
qed

theorem evaluate_promotes_iff_all_gates_witness:
  "learningProposalEvaluation_ok example_evaluation \<and>
   (\<exists>p. adaptiveLearningPolicySchema_parse default_rawLearningPolicy = Inr p \<and>
      pol_minEvidence p \<le> ev_evidenceCount example_evaluation \<and>
      pol_minUniqueEntities p \<le> ev_uniqueEntities example_evaluation)"
proof -
  have "\<exists>d. evaluateLearningProposal example_evaluation default_rawLearningPolicy = Inr d \<and>
      ld_decision d = Promote"
    unfolding example_evaluation_promoted by simp
  then show ?thesis unfolding evaluate_promotes_iff_all_gates by blast
qed

text \<open>
  The gate is total on well-formed inputs: the evaluation throws exactly when the evaluation or
  the policy is rejected by its schema; the schema check on the decision it builds never fails,
  and every decision carries at least one reason.
\<close>

theorem evaluate_throws_iff_malformed:
  "(case evaluateLearningProposal ev raw of
      Inl e \<Rightarrow> e = ZodError \<and>
        (\<not> learningProposalEvaluation_ok ev \<or> adaptiveLearningPolicySchema_parse raw = Inl ZodError)
    | Inr d \<Rightarrow> learningProposalEvaluation_ok ev \<and>
        adaptiveLearningPolicySchema_parse raw \<noteq> Inl ZodError \<and> learningDecision_ok d)"
proof (cases "adaptiveLearningPolicySchema_parse raw")
  case (Inl e)
  then show ?thesis
    by (auto simp: learning_gate_defs zod_parse_def adaptiveLearningPolicySchema_parse_def split: if_splits)
next
  case (Inr p)
  then show ?thesis using missing_evidence_texts [of p ev]
    by (simp add: learning_gate_defs zod_parse_def learningDecision_ok_def)
qed

theorem evaluate_throws_iff_malformed_witness:
  "\<exists>d. evaluateLearningProposal example_evaluation default_rawLearningPolicy = Inr d \<and>
     learningDecision_ok d"
  using evaluate_throws_iff_malformed [of example_evaluation default_rawLearningPolicy]
  unfolding example_evaluation_promoted by simp

text \<open>
  The gate is monotone: once a candidate qualifies for promotion, more observations, more
  entities, more confidence, a better candidate metric, a smaller guardrail regression or an added
  approval never take the promotion away.
\<close>

theorem evaluate_promote_monotone:
  assumes "evaluateLearningProposal ev raw = Inr d" and "ld_decision d = Promote"
    and "learningProposalEvaluation_ok ev'"
    and "ev_risk ev' = ev_risk ev" and "ev_metricDirection ev' = ev_metricDirection ev"
    and "ev_baselineMetric ev' = ev_baselineMetric ev"
    and "ev_evidenceCount ev \<le> ev_evidenceCount ev'"
    and "ev_uniqueEntities ev \<le> ev_uniqueEntities ev'"
    and "ev_confidence ev \<le> ev_confidence ev'"
    and "if ev_metricDirection ev = Increase then ev_candidateMetric ev \<le> ev_candidateMetric ev'
         else ev_candidateMetric ev' \<le> ev_candidateMetric ev"
    and "ev_worstGuardrailRegression ev' \<le> ev_worstGuardrailRegression ev"
    and "ev_humanApproved ev \<longrightarrow> ev_humanApproved ev'"
  shows "\<exists>d'. evaluateLearningProposal ev' raw = Inr d' \<and> ld_decision d' = Promote \<and>
           ld_relativeLift d \<le> ld_relativeLift d'"
proof -
  from assms(1) obtain p where ok: "learningProposalEvaluation_ok ev"
    and p: "adaptiveLearningPolicySchema_parse raw = Inr p" by (rule evaluate_Inr_parsed)
  have lift: "relative_lift ev \<le> relative_lift ev'"
    using assms(5,6,10) by (auto simp: relative_lift_def Let_def intro!: divide_right_mono)
  from evaluate_on_valid [OF ok p] assms(1,2)
  have gates: "ev_worstGuardrailRegression ev \<le> pol_maxGuardrailRegression p"
      "missing_evidence p ev = []" "pol_minRelativeLift p \<le> relative_lift ev"
      "ev_risk ev \<in> set (pol_humanApprovalFor p) \<longrightarrow> ev_humanApproved ev"
      "ld_relativeLift d = relative_lift ev"
    by (auto split: if_splits)
  then have "missing_evidence p ev' = []" using assms(7-9) by (auto simp: missing_evidence_Nil)
  with evaluate_on_valid [OF assms(3) p] gates lift assms(4,11,12) show ?thesis by auto
qed

theorem evaluate_promote_monotone_witness:
  "\<exists>d'. evaluateLearningProposal (example_evaluation\<lparr>ev_evidenceCount := 41, ev_candidateMetric := 13\<rparr>)
          default_rawLearningPolicy = Inr d' \<and> ld_decision d' = Promote \<and> 1 / 5 \<le> ld_relativeLift d'"
  using evaluate_promote_monotone
    [OF example_evaluation_promoted,
     of "example_evaluation\<lparr>ev_evidenceCount := 41, ev_candidateMetric := 13\<rparr>"]
  by (simp add: example_evaluation_def learningProposalEvaluation_ok_def schema_simps)

section \<open>Facts about runtime health\<close>

lemmas healing_defs =
  decideHealingAction_def runtimeHealthObservationSchema_parse_def healingDecisionSchema_parse_def
  Let_def

lemma unhealthy_reasons_texts: "list_all (\<lambda>r. r \<noteq> []) (unhealthy_reasons p h)"
  by (auto simp: unhealthy_reasons_def)

lemma healingPolicy_parse_ok: "healingPolicySchema_parse raw = Inr p \<Longrightarrow> healingPolicy_ok p"
  unfolding healingPolicySchema_parse_def zod_parse_Inr by blast

lemma backoff_positive_int:
  "is_positive_int b \<Longrightarrow> is_positive_int (b * 2 ^ n)"
  by (simp add: is_positive_int_def)

lemma decide_on_valid:
  assumes ok: "runtimeHealthObservation_ok h" and p: "healingPolicySchema_parse raw = Inr p"
  shows "decideHealingAction h raw = Inr
    (if ho_guardrailBreached h then
       \<lparr>hd_nextState = Quarantined,
        hd_action = (if ho_lastKnownGoodAvailable h then Rollback else QuarantineAndEscalate),
        hd_allowExternalActions = False, hd_retryAfterSeconds = None,
        hd_reasons = [''A business or safety guardrail was breached.'']\<rparr>
     else if unhealthy_reasons p h = [] then
       \<lparr>hd_nextState = Healthy,
        hd_action = (if ho_currentState h = Healthy then NoAction else Resume),
        hd_allowExternalActions = True, hd_retryAfterSeconds = None,
        hd_reasons = [if ho_currentState h = Healthy
          then ''Component is within all health thresholds.''
          else ''Recovery checks passed; normal execution can resume.'']\<rparr>
     else if hp_maxRecoveryAttempts p \<le> ho_recoveryAttempts h then
       \<lparr>hd_nextState = Quarantined,
        hd_action = (if ho_lastKnownGoodAvailable h then Rollback else QuarantineAndEscalate),
        hd_allowExternalActions = False, hd_retryAfterSeconds = None,
        hd_reasons = ''Automated recovery attempts were exhausted.'' # unhealthy_reasons p h\<rparr>
     else if ho_fallbackAvailable h then
       \<lparr>hd_nextState = Degraded, hd_action = UseFallback, hd_allowExternalActions = True,
        hd_retryAfterSeconds = Some (hp_baseBackoffSeconds p), hd_reasons = unhealthy_reasons p h\<rparr>
     else
       \<lparr>hd_nextState = Recovering, hd_action = RetryWithBackoff, hd_allowExternalActions = False,
        hd_retryAfterSeconds =
          Some (hp_baseBackoffSeconds p * 2 ^ nat \<lfloor>min (ho_recoveryAttempts h) 8\<rfloor>),
        hd_reasons = unhealthy_reasons p h\<rparr>)"
proof -
  have base: "is_positive_int (hp_baseBackoffSeconds p)"
    using healingPolicy_parse_ok [OF p] by (simp add: healingPolicy_ok_def)
  show ?thesis
    using ok p unhealthy_reasons_texts [of p h] base backoff_positive_int [OF base]
    by (simp add: healing_defs zod_parse_def healingDecision_ok_def)
qed

lemma decide_Inr_parsed:
  assumes "decideHealingAction h raw = Inr d"
  obtains p where "runtimeHealthObservation_ok h" "healingPolicySchema_parse raw = Inr p"
    "healingPolicy_ok p"
  using assms healingPolicy_parse_ok
  by (auto simp: decideHealingAction_def runtimeHealthObservationSchema_parse_def)

text \<open>
  C2. External actions stay allowed only when the component is safe to act: never after a guardrail
  breach, never in quarantine and never while it is merely retrying; and exactly when it is healthy
  by every threshold or it still has recovery attempts left and a fallback to act through.
\<close>

theorem healing_allows_external_iff_safe:
  assumes "decideHealingAction h raw = Inr d" and "healingPolicySchema_parse raw = Inr p"
  shows "(hd_allowExternalActions d \<longleftrightarrow>
      \<not> ho_guardrailBreached h \<and>
      (unhealthy_reasons p h = [] \<or>
       ho_recoveryAttempts h < hp_maxRecoveryAttempts p \<and> ho_fallbackAvailable h)) \<and>
    (hd_allowExternalActions d \<longleftrightarrow> hd_nextState d \<in> {Healthy, Degraded})"
proof -
  from assms(1) have ok: "runtimeHealthObservation_ok h" by (rule decide_Inr_parsed)
  from decide_on_valid [OF ok assms(2)] assms(1) have d: "d = (case decideHealingAction h raw of Inr x \<Rightarrow> x)"
    by simp
  show ?thesis
    unfolding d decide_on_valid [OF ok assms(2)] by simp
qed

definition example_observation :: runtimeHealthObservation where
  "example_observation =
     \<lparr>ho_componentId = ''worker'', ho_currentState = Healthy, ho_errorRate = 1 / 2,
      ho_consecutiveFailures = 4, ho_p95LatencyMs = 200, ho_stalenessSeconds = 10,
      ho_dependencyAvailable = True, ho_fallbackAvailable = False, ho_lastKnownGoodAvailable = True,
      ho_recoveryAttempts = 2, ho_guardrailBreached = False\<rparr>"

definition default_healingPolicy :: healingPolicy where
  "default_healingPolicy =
     \<lparr>hp_maxErrorRate = 5 / 100, hp_maxConsecutiveFailures = 3, hp_maxP95LatencyMs = 10000,
      hp_maxStalenessSeconds = 900, hp_maxRecoveryAttempts = 3, hp_baseBackoffSeconds = 30\<rparr>"

lemma default_healingPolicy_parse:
  "healingPolicySchema_parse default_rawHealingPolicy = Inr default_healingPolicy"
  by (simp add: healingPolicySchema_parse_def default_rawHealingPolicy_def default_healingPolicy_def
      healingPolicy_ok_def schema_simps)

lemma example_observation_decision:
  "decideHealingAction example_observation default_rawHealingPolicy =
     Inr \<lparr>hd_nextState = Recovering, hd_action = RetryWithBackoff, hd_allowExternalActions = False,
          hd_retryAfterSeconds = Some 120,
          hd_reasons = [''Error rate exceeds policy.'', ''Consecutive failure limit reached.'']\<rparr>"
proof -
  have "runtimeHealthObservation_ok example_observation"
    by (simp add: example_observation_def runtimeHealthObservation_ok_def schema_simps)
  from decide_on_valid [OF this default_healingPolicy_parse] show ?thesis
    by (simp add: example_observation_def default_healingPolicy_def unhealthy_reasons_def)
qed

theorem healing_allows_external_iff_safe_witness:
  "\<not> hd_allowExternalActions
      \<lparr>hd_nextState = Recovering, hd_action = RetryWithBackoff, hd_allowExternalActions = False,
       hd_retryAfterSeconds = Some 120,
       hd_reasons = [''Error rate exceeds policy.'', ''Consecutive failure limit reached.'']\<rparr> \<and>
   \<not> ho_fallbackAvailable example_observation"
  using healing_allows_external_iff_safe [OF example_observation_decision default_healingPolicy_parse]
  by (simp add: example_observation_def)

text \<open>
  C3. The delay before the next recovery attempt is bounded and doubles: a retry is planned exactly
  in the degraded and recovering states, it is a positive whole number of seconds, at most 256
  times the base delay, and in the recovering state it is the base delay times two to the number
  of attempts already made (capped at eight).
\<close>

theorem healing_backoff_bounds:
  assumes "decideHealingAction h raw = Inr d" and "healingPolicySchema_parse raw = Inr p"
  shows "(hd_retryAfterSeconds d \<noteq> None \<longleftrightarrow> hd_nextState d \<in> {Degraded, Recovering}) \<and>
    pred_opt (\<lambda>s. is_positive_int s \<and> hp_baseBackoffSeconds p \<le> s \<and> s \<le> 256 * hp_baseBackoffSeconds p)
      (hd_retryAfterSeconds d) \<and>
    (hd_nextState d = Recovering \<longrightarrow>
       hd_retryAfterSeconds d =
         Some (hp_baseBackoffSeconds p * 2 ^ nat \<lfloor>min (ho_recoveryAttempts h) 8\<rfloor>))"
proof -
  have ok: "runtimeHealthObservation_ok h" using assms(1) by (rule decide_Inr_parsed)
  have base: "is_positive_int (hp_baseBackoffSeconds p)"
    using healingPolicy_parse_ok [OF assms(2)] by (simp add: healingPolicy_ok_def)
  then have pos: "0 < hp_baseBackoffSeconds p" by (simp add: is_positive_int_def)
  define n where "n = nat \<lfloor>min (ho_recoveryAttempts h) 8\<rfloor>"
  have "\<lfloor>min (ho_recoveryAttempts h) 8\<rfloor> \<le> \<lfloor>8::rat\<rfloor>" by (rule floor_mono) simp
  then have "n \<le> 8" by (simp add: n_def nat_le_iff)
  then have "(2::rat) ^ n \<le> 2 ^ 8" by (rule power_increasing) simp
  then have up: "hp_baseBackoffSeconds p * 2 ^ n \<le> 256 * hp_baseBackoffSeconds p"
    using pos by simp
  have low: "hp_baseBackoffSeconds p \<le> hp_baseBackoffSeconds p * 2 ^ n"
    using pos by simp
  from decide_on_valid [OF ok assms(2)] assms(1) show ?thesis
    using base backoff_positive_int [OF base, of n] up low pos
    by (auto simp flip: n_def)
qed

theorem healing_backoff_bounds_witness:
  "pred_opt (\<lambda>s. is_positive_int s \<and> 30 \<le> s \<and> s \<le> 7680) (Some 120)"
  using healing_backoff_bounds [OF example_observation_decision default_healingPolicy_parse]
  by (simp add: default_healingPolicy_def)

text \<open>
  Recovery cannot go on for ever: whatever the observation, once the recovery attempts reach the
  policy's maximum, an unhealthy component is quarantined with external actions blocked, and it is
  rolled back exactly when a last known good version exists, escalated otherwise.
\<close>

theorem healing_exhaustion_quarantines:
  assumes "decideHealingAction h raw = Inr d" and "healingPolicySchema_parse raw = Inr p"
    and "hp_maxRecoveryAttempts p \<le> ho_recoveryAttempts h" and "unhealthy_reasons p h \<noteq> []"
  shows "hd_nextState d = Quarantined \<and> \<not> hd_allowExternalActions d \<and> hd_retryAfterSeconds d = None \<and>
    hd_action d = (if ho_lastKnownGoodAvailable h then Rollback else QuarantineAndEscalate)"
proof -
  from assms(1) have "runtimeHealthObservation_ok h" by (rule decide_Inr_parsed)
  from decide_on_valid [OF this assms(2)] assms show ?thesis by auto
qed

theorem healing_exhaustion_quarantines_witness:
  "\<exists>d. decideHealingAction (example_observation\<lparr>ho_recoveryAttempts := 3\<rparr>) default_rawHealingPolicy = Inr d
      \<and> hd_nextState d = Quarantined \<and> hd_action d = Rollback"
proof -
  let ?h = "example_observation\<lparr>ho_recoveryAttempts := 3\<rparr>"
  have "runtimeHealthObservation_ok ?h"
    by (simp add: example_observation_def runtimeHealthObservation_ok_def schema_simps)
  from decide_on_valid [OF this default_healingPolicy_parse]
  obtain d where d: "decideHealingAction ?h default_rawHealingPolicy = Inr d" by blast
  from healing_exhaustion_quarantines [OF d default_healingPolicy_parse] d show ?thesis
    by (simp add: example_observation_def default_healingPolicy_def unhealthy_reasons_def)
qed

end
