(* ===== verification/Outbox.thy ===== *)
theory Outbox
  imports Prelude
begin

text \<open>
  The transactional outbox: the command and event contracts of \<open>src/packages/db/src/contracts.ts\<close>,
  the tenant-scoped subject of \<open>tenant-context.ts\<close> and the in-memory repository of
  \<open>outbox-repository.ts\<close> (\<open>enqueue\<close>, \<open>markConsumed\<close>, \<open>listUnconsumed\<close>, \<open>listByEventType\<close>).
  The locale \<open>outbox_queue\<close> is the contract the publisher and the producers rely on; it is
  interpreted on the repository at the end.
\<close>

section \<open>Contracts\<close>

definition is_lower :: "char \<Rightarrow> bool" where
  "is_lower c \<longleftrightarrow> c \<in> set ''abcdefghijklmnopqrstuvwxyz''"

definition is_digit :: "char \<Rightarrow> bool" where
  "is_digit c \<longleftrightarrow> c \<in> set ''0123456789''"

text \<open>The character class \<open>[a-z0-9._-]\<close>.\<close>

definition is_event_char :: "char \<Rightarrow> bool" where
  "is_event_char c \<longleftrightarrow> is_lower c \<or> is_digit c \<or> c \<in> set ''._-''"

text \<open>\<open>/^[a-z][a-z0-9._-]+\.v[0-9]+$/\<close>, read from the end: the version digits, \<open>.v\<close>, the name.\<close>

definition outboxEventType_ok :: "string \<Rightarrow> bool" where
  "outboxEventType_ok s \<longleftrightarrow>
     takeWhile is_digit (rev s) \<noteq> [] \<and>
     (case dropWhile is_digit (rev s) of
        v # d # r \<Rightarrow> v = CHR ''v'' \<and> d = CHR ''.'' \<and> 2 \<le> length r \<and>
          is_lower (last r) \<and> list_all is_event_char (butlast r)
      | _ \<Rightarrow> False)"

record enqueueOutboxEvent =
  oc_tenantId :: string
  oc_eventType :: string
  oc_idempotencyKey :: string
  oc_payload :: json_record

definition enqueueOutboxEvent_ok :: "(string \<Rightarrow> bool) \<Rightarrow> enqueueOutboxEvent \<Rightarrow> bool" where
  "enqueueOutboxEvent_ok is_uuid c \<longleftrightarrow>
     is_uuid (oc_tenantId c) \<and> outboxEventType_ok (oc_eventType c) \<and> oc_idempotencyKey c \<noteq> []"

definition enqueueOutboxEventSchema_parse ::
  "(string \<Rightarrow> bool) \<Rightarrow> enqueueOutboxEvent \<Rightarrow> enqueueOutboxEvent result" where
  "enqueueOutboxEventSchema_parse is_uuid = zod_parse id (enqueueOutboxEvent_ok is_uuid)"

record storedOutboxEvent =
  oe_id :: string
  oe_tenantId :: string
  oe_eventType :: string
  oe_idempotencyKey :: string
  oe_payload :: json_record
  oe_createdAt :: date
  oe_consumedAt :: "date option"

definition storedOutboxEvent_ok :: "(string \<Rightarrow> bool) \<Rightarrow> storedOutboxEvent \<Rightarrow> bool" where
  "storedOutboxEvent_ok is_uuid e \<longleftrightarrow>
     is_uuid (oe_tenantId e) \<and> outboxEventType_ok (oe_eventType e) \<and> oe_idempotencyKey e \<noteq> [] \<and>
     oe_id e \<noteq> []"

definition storedOutboxEventSchema_parse ::
  "(string \<Rightarrow> bool) \<Rightarrow> storedOutboxEvent \<Rightarrow> storedOutboxEvent result" where
  "storedOutboxEventSchema_parse is_uuid = zod_parse id (storedOutboxEvent_ok is_uuid)"

section \<open>Tenant-scoped subjects\<close>

definition tenantScopedSubject :: "(string \<Rightarrow> bool) \<Rightarrow> string \<Rightarrow> string \<Rightarrow> string result" where
  "tenantScopedSubject is_uuid tenantId subject =
     (if \<not> is_uuid tenantId then Inl ZodError
      else if subject = [] \<or> hd subject = CHR ''.'' \<or> last subject = CHR ''.''
      then Inl (JsError ''Subject must be a non-empty dot-delimited suffix.'')
      else Inr (''t.'' @ tenantId @ ''.'' @ subject))"

section \<open>The in-memory repository\<close>

text \<open>\<open>eventsById\<close> with \<open>idsByIdempotencyKey\<close>, and the sequence the ids are drawn from.\<close>

record outbox =
  ob_events :: "storedOutboxEvent store"
  ob_sequence :: nat

definition empty_outbox :: outbox where
  "empty_outbox = \<lparr>ob_events = empty_store, ob_sequence = 0\<rparr>"

definition outboxIdempotencyKey :: "string \<Rightarrow> string \<Rightarrow> string \<Rightarrow> string" where
  "outboxIdempotencyKey tenantId eventType idempotencyKey =
     colon_key tenantId (colon_key eventType idempotencyKey)"

abbreviation command_key :: "enqueueOutboxEvent \<Rightarrow> string" where
  "command_key c \<equiv> outboxIdempotencyKey (oc_tenantId c) (oc_eventType c) (oc_idempotencyKey c)"

definition outbox_enqueue ::
  "(string \<Rightarrow> bool) \<Rightarrow> enqueueOutboxEvent \<Rightarrow> date \<Rightarrow> outbox \<Rightarrow> js_error + storedOutboxEvent \<times> outbox" where
  "outbox_enqueue is_uuid command now ob =
     and_then (enqueueOutboxEventSchema_parse is_uuid command) (\<lambda>parsed.
       (let key = command_key parsed;
            fresh =
              (let sequence = Suc (ob_sequence ob)
               in and_then (storedOutboxEventSchema_parse is_uuid
                    \<lparr>oe_id = show_nat sequence, oe_tenantId = oc_tenantId parsed,
                     oe_eventType = oc_eventType parsed,
                     oe_idempotencyKey = oc_idempotencyKey parsed, oe_payload = oc_payload parsed,
                     oe_createdAt = now, oe_consumedAt = None\<rparr>) (\<lambda>event.
                    Inr (event, \<lparr>ob_events = insert_new key (oe_id event) event (ob_events ob),
                                 ob_sequence = sequence\<rparr>)))
        in case map_of (idByKey (ob_events ob)) key of
             None \<Rightarrow> fresh
           | Some existingId \<Rightarrow>
               if existingId = [] then fresh
               else (case get_by_id (ob_events ob) existingId of
                       None \<Rightarrow> Inl (JsError (''Outbox idempotency index is corrupt for '' @ existingId))
                     | Some existing \<Rightarrow> Inr (existing, ob))))"

definition outbox_markConsumed ::
  "(string \<Rightarrow> bool) \<Rightarrow> string \<Rightarrow> string \<Rightarrow> date \<Rightarrow> outbox \<Rightarrow> js_error + storedOutboxEvent \<times> outbox" where
  "outbox_markConsumed is_uuid tenantId eventId consumedAt ob =
     (case get_by_id (ob_events ob) eventId of
        None \<Rightarrow> Inl (JsError (''Outbox event not found: '' @ eventId))
      | Some event \<Rightarrow>
          if oe_tenantId event \<noteq> tenantId
          then Inl (JsError (''Outbox event not found for tenant: '' @ eventId))
          else and_then (storedOutboxEventSchema_parse is_uuid (event\<lparr>oe_consumedAt := Some consumedAt\<rparr>))
                 (\<lambda>consumed. Inr (consumed, ob\<lparr>ob_events := put_record eventId consumed (ob_events ob)\<rparr>)))"

text \<open>\<open>Number(id)\<close> on a decimal numeral, and \<open>slice(0, limit)\<close> with JavaScript's negative limits.\<close>

definition digit_value :: "char \<Rightarrow> nat" where
  "digit_value c = length (takeWhile (\<lambda>d. d \<noteq> c) ''0123456789'')"

definition js_Number :: "string \<Rightarrow> nat" where
  "js_Number s = foldl (\<lambda>n c. 10 * n + digit_value c) 0 s"

definition js_slice0 :: "int \<Rightarrow> 'a list \<Rightarrow> 'a list" where
  "js_slice0 limit xs = take (nat (if limit < 0 then int (length xs) + limit else limit)) xs"

definition outbox_listUnconsumed :: "string \<Rightarrow> int \<Rightarrow> outbox \<Rightarrow> storedOutboxEvent list" where
  "outbox_listUnconsumed tenantId limit ob =
     js_slice0 limit
       (sort_key (\<lambda>e. js_Number (oe_id e))
          (filter (\<lambda>e. oe_tenantId e = tenantId \<and> oe_consumedAt e = None)
             (store_values (ob_events ob))))"

definition outbox_listByEventType :: "string \<Rightarrow> string \<Rightarrow> int \<Rightarrow> outbox \<Rightarrow> storedOutboxEvent list" where
  "outbox_listByEventType tenantId eventType limit ob =
     js_slice0 limit
       (sort_key (\<lambda>e. - int (js_Number (oe_id e)))
          (filter (\<lambda>e. oe_tenantId e = tenantId \<and> oe_eventType e = eventType)
             (store_values (ob_events ob))))"

section \<open>Event types and keys\<close>

text \<open>The executable test accepts exactly the strings the regular expression describes.\<close>

lemma not_digit [simp]: "\<not> is_digit CHR ''v''" "\<not> is_digit CHR ''.''" "\<not> is_digit CHR '':''"
  by (simp_all add: is_digit_def)

lemma outboxEventType_ok_iff:
  "outboxEventType_ok s \<longleftrightarrow>
     (\<exists>c mid ds. s = c # mid @ ''.v'' @ ds \<and> is_lower c \<and> mid \<noteq> [] \<and>
        list_all is_event_char mid \<and> ds \<noteq> [] \<and> list_all is_digit ds)"
proof
  assume ok: "outboxEventType_ok s"
  then obtain r where r: "dropWhile is_digit (rev s) = CHR ''v'' # CHR ''.'' # r" "2 \<le> length r"
      "is_lower (last r)" "list_all is_event_char (butlast r)"
    by (auto simp: outboxEventType_ok_def split: list.splits)
  define ds where "ds = takeWhile is_digit (rev s)"
  have "rev s = ds @ CHR ''v'' # CHR ''.'' # r"
    unfolding ds_def r(1) [symmetric] by simp
  then have "rev (rev s) = rev (ds @ CHR ''v'' # CHR ''.'' # r)" by (rule arg_cong)
  moreover have "r = butlast r @ [last r]" using r(2) by (cases r rule: rev_cases) auto
  ultimately have "s = last r # rev (butlast r) @ ''.v'' @ rev ds"
    by (metis append_Cons append_assoc rev.simps(2) rev_append rev_rev_ident self_append_conv2 rev.simps(1))
  moreover have "rev (butlast r) \<noteq> []" using r(2) by (cases r rule: rev_cases) auto
  moreover have "ds \<noteq> []" using ok by (simp add: outboxEventType_ok_def ds_def)
  moreover have "list_all is_digit ds" unfolding ds_def list_all_iff by (auto dest: set_takeWhileD)
  ultimately show "\<exists>c mid ds. s = c # mid @ ''.v'' @ ds \<and> is_lower c \<and> mid \<noteq> [] \<and>
        list_all is_event_char mid \<and> ds \<noteq> [] \<and> list_all is_digit ds"
    using r(3,4) by (metis list_all_rev rev_is_Nil_conv)
next
  assume "\<exists>c mid ds. s = c # mid @ ''.v'' @ ds \<and> is_lower c \<and> mid \<noteq> [] \<and>
        list_all is_event_char mid \<and> ds \<noteq> [] \<and> list_all is_digit ds"
  then obtain c mid ds where s: "s = c # mid @ ''.v'' @ ds" and p: "is_lower c" "mid \<noteq> []"
      "list_all is_event_char mid" "ds \<noteq> []" "list_all is_digit ds" by blast
  have rs: "rev s = rev ds @ CHR ''v'' # CHR ''.'' # rev mid @ [c]" by (simp add: s)
  have d: "\<forall>x \<in> set (rev ds). is_digit x" using p(5) by (simp add: list_all_iff)
  have "takeWhile is_digit (rev s) = rev ds" unfolding rs using d by (subst takeWhile_append2) auto
  moreover have "dropWhile is_digit (rev s) = CHR ''v'' # CHR ''.'' # rev mid @ [c]"
    unfolding rs using d by (subst dropWhile_append2) auto
  ultimately show "outboxEventType_ok s" using p
    by (cases mid) (auto simp: outboxEventType_ok_def butlast_append)
qed

lemma event_char_no_colon [simp]: "\<not> is_event_char CHR '':''" "\<not> is_lower CHR '':''"
  by (simp_all add: is_event_char_def is_digit_def is_lower_def)

lemma lower_no_dot [simp]: "\<not> is_lower CHR ''.''"
  by (simp add: is_lower_def)

lemma outboxEventType_no_colon: "outboxEventType_ok s \<Longrightarrow> CHR '':'' \<notin> set s"
proof
  assume "outboxEventType_ok s" and colon: "CHR '':'' \<in> set s"
  then obtain c mid ds where s: "s = c # mid @ ''.v'' @ ds" and "is_lower c"
      "list_all is_event_char mid" "list_all is_digit ds"
    unfolding outboxEventType_ok_iff by blast
  with colon show False by (auto simp: list_all_iff)
qed

lemma outboxEventType_ends: "outboxEventType_ok s \<Longrightarrow> s \<noteq> [] \<and> is_lower (hd s) \<and> is_digit (last s)"
  unfolding outboxEventType_ok_iff by (auto simp: list_all_iff)

text \<open>
  The concatenated key names its parts: the tenant id and the event type hold no colon, so two
  accepted commands share a key only if they agree on all three parts.
\<close>

lemma outboxIdempotencyKey_inject:
  assumes "uuid_format is_uuid"
    and "is_uuid t" "outboxEventType_ok e" "is_uuid t'" "outboxEventType_ok e'"
  shows "outboxIdempotencyKey t e k = outboxIdempotencyKey t' e' k' \<longleftrightarrow> t = t' \<and> e = e' \<and> k = k'"
  unfolding outboxIdempotencyKey_def
  using assms uuid_format_no_colon outboxEventType_no_colon by (simp add: colon_key_inject)

section \<open>Sequence numbers as ids\<close>

lemma digit_value_nth: "(n::nat) < 10 \<Longrightarrow> digit_value (''0123456789'' ! n) = n"
  by (simp add: digit_value_def less_Suc_eq numeral_eq_Suc) (elim disjE; simp)

lemma js_Number_append: "js_Number (xs @ [c]) = 10 * js_Number xs + digit_value c"
  by (simp add: js_Number_def)

lemma js_Number_show_nat [simp]: "js_Number (show_nat n) = n"
proof (induction n rule: show_nat.induct)
  case (1 n)
  show ?case
  proof (cases "n < 10")
    case True
    then show ?thesis by (subst show_nat.simps) (simp add: js_Number_def digit_value_nth)
  next
    case False
    then show ?thesis using 1
      by (subst show_nat.simps) (simp add: js_Number_append digit_value_nth)
  qed
qed

lemma show_nat_inject [simp]: "show_nat m = show_nat n \<longleftrightarrow> m = n"
  using js_Number_show_nat by metis

section \<open>The invariant\<close>

abbreviation event_key :: "storedOutboxEvent \<Rightarrow> string" where
  "event_key e \<equiv> outboxIdempotencyKey (oe_tenantId e) (oe_eventType e) (oe_idempotencyKey e)"

text \<open>
  The events lie in the map in the order they were enqueued, numbered from 1 without a gap.
\<close>

definition outbox_inv :: "(string \<Rightarrow> bool) \<Rightarrow> outbox \<Rightarrow> bool" where
  "outbox_inv is_uuid ob \<longleftrightarrow>
     store_ok oe_id event_key (storedOutboxEvent_ok is_uuid) (ob_events ob) \<and>
     map fst (byId (ob_events ob)) = map show_nat [1..<Suc (ob_sequence ob)]"

lemma outbox_inv_empty: "outbox_inv is_uuid empty_outbox"
  by (simp add: outbox_inv_def empty_outbox_def) (simp add: empty_store_def)

lemma outbox_inv_store:
  "outbox_inv is_uuid ob \<Longrightarrow> store_ok oe_id event_key (storedOutboxEvent_ok is_uuid) (ob_events ob)"
  by (simp add: outbox_inv_def)

lemma outbox_next_id_fresh:
  "outbox_inv is_uuid ob \<Longrightarrow> get_by_id (ob_events ob) (show_nat (Suc (ob_sequence ob))) = None"
  unfolding outbox_inv_def map_of_eq_None_iff set_map [symmetric]
  by (elim conjE, simp only: set_map) (auto simp del: upt_Suc)

lemma update_fresh: "k \<notin> fst ` set al \<Longrightarrow> AList.update k v al = al @ [(k, v)]"
  by (induction al) auto

lemma enqueue_on_valid:
  assumes inv: "outbox_inv is_uuid ob" and ok: "enqueueOutboxEvent_ok is_uuid c"
  shows "outbox_enqueue is_uuid c now ob =
    (case find_existing (ob_events ob) (command_key c) of
       Some e \<Rightarrow> Inr (e, ob)
     | None \<Rightarrow>
         (let e = \<lparr>oe_id = show_nat (Suc (ob_sequence ob)), oe_tenantId = oc_tenantId c,
                   oe_eventType = oc_eventType c, oe_idempotencyKey = oc_idempotencyKey c,
                   oe_payload = oc_payload c, oe_createdAt = now, oe_consumedAt = None\<rparr>
          in Inr (e, \<lparr>ob_events = insert_new (command_key c) (oe_id e) e (ob_events ob),
                      ob_sequence = Suc (ob_sequence ob)\<rparr>)))"
proof (cases "map_of (idByKey (ob_events ob)) (command_key c)")
  case None
  with ok show ?thesis
    by (simp add: outbox_enqueue_def find_existing_def enqueueOutboxEventSchema_parse_def
        storedOutboxEventSchema_parse_def zod_parse_def Let_def enqueueOutboxEvent_ok_def
        storedOutboxEvent_ok_def)
next
  case (Some i)
  from store_ok_index [OF outbox_inv_store [OF inv] Some] obtain e
    where e: "get_by_id (ob_events ob) i = Some e" by metis
  with store_okD(1) [OF outbox_inv_store [OF inv] e] Some ok show ?thesis
    by (simp add: outbox_enqueue_def find_existing_def enqueueOutboxEventSchema_parse_def
        zod_parse_def)
qed

lemma enqueue_Inr_ok: "outbox_enqueue is_uuid c now ob = Inr r \<Longrightarrow> enqueueOutboxEvent_ok is_uuid c"
  by (cases r) (auto simp: outbox_enqueue_def enqueueOutboxEventSchema_parse_def)

lemma outbox_enqueue_inv:
  assumes "outbox_inv is_uuid ob" and "outbox_enqueue is_uuid c now ob = Inr (e, ob')"
  shows "outbox_inv is_uuid ob'"
proof (cases "find_existing (ob_events ob) (command_key c)")
  case (Some e')
  then show ?thesis using assms enqueue_on_valid [OF assms(1) enqueue_Inr_ok [OF assms(2)]] by simp
next
  case None
  note ok = enqueue_Inr_ok [OF assms(2)]
  from None assms enqueue_on_valid [OF assms(1) ok]
  have e: "e = \<lparr>oe_id = show_nat (Suc (ob_sequence ob)), oe_tenantId = oc_tenantId c,
        oe_eventType = oc_eventType c, oe_idempotencyKey = oc_idempotencyKey c,
        oe_payload = oc_payload c, oe_createdAt = now, oe_consumedAt = None\<rparr>"
    and ob': "ob' = \<lparr>ob_events = insert_new (command_key c) (oe_id e) e (ob_events ob),
                ob_sequence = Suc (ob_sequence ob)\<rparr>"
    by (auto simp: Let_def)
  have "store_ok oe_id event_key (storedOutboxEvent_ok is_uuid) (ob_events ob')"
    unfolding ob' using None ok outbox_next_id_fresh [OF assms(1)]
    by (auto intro!: store_ok_insert [OF outbox_inv_store [OF assms(1)]]
        simp: e storedOutboxEvent_ok_def enqueueOutboxEvent_ok_def)
  moreover have "oe_id e \<notin> fst ` set (byId (ob_events ob))"
    using outbox_next_id_fresh [OF assms(1)] by (simp add: e map_of_eq_None_iff)
  then have "map fst (byId (ob_events ob')) = map show_nat [1..<Suc (ob_sequence ob')]"
    using assms(1) by (simp add: ob' insert_new_def update_fresh e outbox_inv_def)
  ultimately show ?thesis by (simp add: outbox_inv_def)
qed

lemma update_keys: "k \<in> fst ` set al \<Longrightarrow> map fst (AList.update k v al) = map fst al"
  by (induction al) auto

lemma markConsumed_Inr:
  assumes "outbox_markConsumed is_uuid t i tm ob = Inr (e', ob')"
  obtains e where "get_by_id (ob_events ob) i = Some e" "oe_tenantId e = t"
    "e' = e\<lparr>oe_consumedAt := Some tm\<rparr>" "storedOutboxEvent_ok is_uuid e'"
    "ob' = ob\<lparr>ob_events := put_record i e' (ob_events ob)\<rparr>"
  using assms
  by (auto simp: outbox_markConsumed_def storedOutboxEventSchema_parse_def split: option.splits if_splits)

lemma outbox_markConsumed_inv:
  assumes "outbox_inv is_uuid ob" and "outbox_markConsumed is_uuid t i tm ob = Inr (e', ob')"
  shows "outbox_inv is_uuid ob'"
  using assms(2)
proof (rule markConsumed_Inr)
  fix e assume e: "get_by_id (ob_events ob) i = Some e" "e' = e\<lparr>oe_consumedAt := Some tm\<rparr>"
      "storedOutboxEvent_ok is_uuid e'" "ob' = ob\<lparr>ob_events := put_record i e' (ob_events ob)\<rparr>"
  have "store_ok oe_id event_key (storedOutboxEvent_ok is_uuid) (put_record i e' (ob_events ob))"
    using e store_okD(2) [OF outbox_inv_store [OF assms(1)] e(1)]
    by (intro store_ok_put [OF outbox_inv_store [OF assms(1)] e(1)]) auto
  moreover have "i \<in> fst ` set (byId (ob_events ob))"
    using e(1) by (metis domI dom_map_of_conv_image_fst)
  ultimately show ?thesis
    using assms(1) update_keys [of i "byId (ob_events ob)" e']
    by (simp add: outbox_inv_def e(4) del: upt_Suc) (simp add: put_record_def del: upt_Suc)
qed

section \<open>Listing is in enqueue order\<close>

lemma ids_of_values:
  assumes "outbox_inv is_uuid ob"
  shows "map oe_id (store_values (ob_events ob)) = map show_nat [1..<Suc (ob_sequence ob)]"
proof -
  have ok: "store_ok oe_id event_key (storedOutboxEvent_ok is_uuid) (ob_events ob)"
    and ids: "map fst (byId (ob_events ob)) = map show_nat [1..<Suc (ob_sequence ob)]"
    using assms by (simp_all add: outbox_inv_def)
  have "oe_id e = i" if "(i, e) \<in> set (byId (ob_events ob))" for i e
    using that store_okD(2) [OF ok] store_ok_unique [OF ok]
    by (metis ids_unique_def map_of_is_SomeI)
  then show ?thesis unfolding ids [symmetric] store_values_def by auto
qed

lemma sorted_values:
  assumes "outbox_inv is_uuid ob"
  shows "sorted (map (\<lambda>e. js_Number (oe_id e)) (store_values (ob_events ob)))"
proof -
  have "map (\<lambda>e. js_Number (oe_id e)) (store_values (ob_events ob)) = [1..<Suc (ob_sequence ob)]"
    using ids_of_values [OF assms] by (metis (no_types, lifting) js_Number_show_nat list.map_comp
        list.map_ident map_eq_conv comp_apply)
  then show ?thesis by (simp del: upt_Suc)
qed

lemma listUnconsumed_eq:
  assumes "outbox_inv is_uuid ob"
  shows "outbox_listUnconsumed t limit ob =
    js_slice0 limit (filter (\<lambda>e. oe_tenantId e = t \<and> oe_consumedAt e = None) (store_values (ob_events ob)))"
proof -
  have "sorted (map (\<lambda>e. js_Number (oe_id e))
      (filter (\<lambda>e. oe_tenantId e = t \<and> oe_consumedAt e = None) (store_values (ob_events ob))))"
    using sorted_values [OF assms] by (rule sorted_filter)
  then show ?thesis by (simp add: outbox_listUnconsumed_def sort_key_id_if_sorted)
qed

section \<open>The queue contract\<close>

definition outbox_pending :: "string \<Rightarrow> outbox \<Rightarrow> storedOutboxEvent list" where
  "outbox_pending t ob =
     filter (\<lambda>e. oe_tenantId e = t \<and> oe_consumedAt e = None) (store_values (ob_events ob))"

lemma values_insert:
  "i \<notin> fst ` set (byId st) \<Longrightarrow> store_values (insert_new k i r st) = store_values st @ [r]"
  by (simp add: store_values_def insert_new_def update_fresh)

lemma map_snd_update:
  "distinct (map fst al) \<Longrightarrow> k \<in> fst ` set al \<Longrightarrow>
     map snd (AList.update k v al) = map (\<lambda>(k', x). if k' = k then v else x) al"
proof (induction al)
  case (Cons p al)
  obtain k' x where p: "p = (k', x)" by (cases p)
  show ?case
  proof (cases "k' = k")
    case True
    with Cons.prems(1) p have "\<forall>q \<in> set al. fst q \<noteq> k" by force
    with p True show ?thesis by auto
  next
    case False
    with Cons p show ?thesis by auto
  qed
qed simp

lemma values_put:
  assumes ok: "store_ok rid rkey P st" and r: "get_by_id st i = Some r"
  shows "store_values (put_record i r' st) = map (\<lambda>x. if rid x = i then r' else x) (store_values st)"
proof -
  have d: "distinct (map fst (byId st))" using store_ok_unique [OF ok] by (simp add: ids_unique_def)
  have "rid x = j" if "(j, x) \<in> set (byId st)" for j x
    using that store_okD(2) [OF ok] d by (metis map_of_is_SomeI)
  moreover have "i \<in> fst ` set (byId st)" using r by (metis domI dom_map_of_conv_image_fst)
  ultimately show ?thesis
    using d by (auto simp: store_values_def put_record_def map_snd_update)
qed

lemma pending_enqueue:
  assumes "outbox_inv is_uuid ob" and "outbox_enqueue is_uuid c now ob = Inr (e, ob')"
  shows "if ob' = ob then True else
    (\<forall>t. outbox_pending t ob' = outbox_pending t ob @ (if t = oc_tenantId c then [e] else []))"
proof (cases "find_existing (ob_events ob) (command_key c)")
  case (Some e')
  then show ?thesis using assms enqueue_on_valid [OF assms(1) enqueue_Inr_ok [OF assms(2)]] by simp
next
  case None
  then show ?thesis
    using assms enqueue_on_valid [OF assms(1) enqueue_Inr_ok [OF assms(2)]] outbox_next_id_fresh [OF assms(1)]
    by (auto simp: Let_def outbox_pending_def values_insert map_of_eq_None_iff)
qed

lemma pending_mark:
  assumes inv: "outbox_inv is_uuid ob" and m: "outbox_markConsumed is_uuid t i tm ob = Inr (e', ob')"
  shows "outbox_pending t' ob' = filter (\<lambda>x. oe_id x \<noteq> i) (outbox_pending t' ob)"
  using m
proof (rule markConsumed_Inr)
  fix e assume e: "get_by_id (ob_events ob) i = Some e" "e' = e\<lparr>oe_consumedAt := Some tm\<rparr>"
    "ob' = ob\<lparr>ob_events := put_record i e' (ob_events ob)\<rparr>"
  have "store_values (ob_events ob') =
      map (\<lambda>x. if oe_id x = i then e' else x) (store_values (ob_events ob))"
    using values_put [OF outbox_inv_store [OF inv] e(1)] by (simp add: e(3))
  moreover have "filter (\<lambda>x. oe_tenantId x = t' \<and> oe_consumedAt x = None)
        (map (\<lambda>x. if oe_id x = i then e' else x) xs) =
      filter (\<lambda>x. oe_id x \<noteq> i) (filter (\<lambda>x. oe_tenantId x = t' \<and> oe_consumedAt x = None) xs)" for xs
    by (induction xs) (auto simp: e(2))
  ultimately show ?thesis by (simp add: outbox_pending_def)
qed

lemma mark_pending_succeeds:
  assumes inv: "outbox_inv is_uuid ob" and e: "e \<in> set (outbox_pending t ob)"
  shows "\<exists>e' ob'. outbox_markConsumed is_uuid t (oe_id e) tm ob = Inr (e', ob')"
proof -
  note ok = outbox_inv_store [OF inv]
  from e have v: "e \<in> set (store_values (ob_events ob))" and t: "oe_tenantId e = t"
    by (auto simp: outbox_pending_def)
  from v have g: "get_by_id (ob_events ob) (oe_id e) = Some e"
    by (simp add: set_store_values [OF ok])
  from store_okD(3) [OF ok g] have "storedOutboxEvent_ok is_uuid (e\<lparr>oe_consumedAt := Some tm\<rparr>)"
    by (simp add: storedOutboxEvent_ok_def)
  with g t show ?thesis
    by (simp add: outbox_markConsumed_def storedOutboxEventSchema_parse_def zod_parse_def)
qed

lemma distinct_pending: "outbox_inv is_uuid ob \<Longrightarrow> distinct (map oe_id (outbox_pending t ob))"
proof -
  assume inv: "outbox_inv is_uuid ob"
  have "distinct (map show_nat [1..<Suc (ob_sequence ob)])"
    by (simp add: distinct_map inj_on_def del: upt_Suc)
  then have "distinct (map oe_id (store_values (ob_events ob)))"
    using ids_of_values [OF inv] by simp
  then show ?thesis unfolding outbox_pending_def by (rule distinct_map_filter)
qed

text \<open>
  The contract a producer and the publisher rely on. \<open>pending t q\<close> is the tenant's queue: listing
  returns a prefix of it, enqueueing appends at most one event at its end, consuming removes one.
\<close>

locale outbox_queue =
  fixes enqueue :: "enqueueOutboxEvent \<Rightarrow> date \<Rightarrow> 'q \<Rightarrow> js_error + storedOutboxEvent \<times> 'q"
    and mark :: "string \<Rightarrow> string \<Rightarrow> date \<Rightarrow> 'q \<Rightarrow> js_error + storedOutboxEvent \<times> 'q"
    and listing :: "string \<Rightarrow> int \<Rightarrow> 'q \<Rightarrow> storedOutboxEvent list"
    and pending :: "string \<Rightarrow> 'q \<Rightarrow> storedOutboxEvent list"
    and inv :: "'q \<Rightarrow> bool"
  assumes enqueue_inv: "inv q \<Longrightarrow> enqueue c now q = Inr (e, q') \<Longrightarrow> inv q'"
    and mark_inv: "inv q \<Longrightarrow> mark t i tm q = Inr (e, q') \<Longrightarrow> inv q'"
    and listing_prefix: "inv q \<Longrightarrow> 0 \<le> limit \<Longrightarrow> listing t limit q = take (nat limit) (pending t q)"
    and enqueue_appends: "inv q \<Longrightarrow> enqueue c now q = Inr (e, q') \<Longrightarrow>
          pending t q' = pending t q \<or> t = oc_tenantId c \<and> pending t q' = pending t q @ [e]"
    and mark_succeeds: "inv q \<Longrightarrow> e \<in> set (pending t q) \<Longrightarrow>
          \<exists>e' q'. mark t (oe_id e) tm q = Inr (e', q')"
    and mark_removes: "inv q \<Longrightarrow> mark t i tm q = Inr (e, q') \<Longrightarrow>
          pending t' q' = filter (\<lambda>x. oe_id x \<noteq> i) (pending t' q)"
    and pending_distinct: "inv q \<Longrightarrow> distinct (map oe_id (pending t q))"
begin

lemma mark_head:
  assumes "inv q" and "pending t q = e # es" and "mark t (oe_id e) tm q = Inr (e', q')"
  shows "pending t q' = es"
proof -
  from pending_distinct [OF assms(1), of t] assms(2)
  have "oe_id e \<notin> oe_id ` set es" by simp
  then have "\<forall>x \<in> set es. oe_id x \<noteq> oe_id e" by (metis imageI)
  with mark_removes [OF assms(1,3), of t] assms(2) show ?thesis by simp
qed

lemma fifo: "inv q \<Longrightarrow> pending t q = e # es \<Longrightarrow> 0 < limit \<Longrightarrow> \<exists>rest. listing t limit q = e # rest"
  by (cases "nat limit") (auto simp: listing_prefix)

text \<open>Consuming, in order, every event of one listing leaves exactly the rest of the queue.\<close>

lemma drain:
  assumes "inv q"
  shows "\<exists>q'. foldl (\<lambda>acc e. and_then acc (\<lambda>(n, s). and_then (mark t (oe_id e) tm s) (\<lambda>(_, s'). Inr (Suc n, s'))))
            (Inr (n, q)) (take k (pending t q)) = Inr (n + min k (length (pending t q)), q') \<and>
          inv q' \<and> pending t q' = drop k (pending t q)"
  using assms
proof (induction k arbitrary: q n)
  case 0
  then show ?case by auto
next
  case (Suc k)
  show ?case
  proof (cases "pending t q")
    case Nil
    with Suc.prems show ?thesis by auto
  next
    case (Cons e es)
    from mark_succeeds [OF Suc.prems, of e t tm] Cons obtain e' q1
      where m: "mark t (oe_id e) tm q = Inr (e', q1)" by auto
    from Suc.IH [OF mark_inv [OF Suc.prems m], of "Suc n"] mark_head [OF Suc.prems Cons m] Cons m
    show ?thesis by auto
  qed
qed

end

interpretation mem_outbox: outbox_queue
  "outbox_enqueue is_uuid" "outbox_markConsumed is_uuid" outbox_listUnconsumed outbox_pending
  "outbox_inv is_uuid" for is_uuid
proof (unfold_locales, goal_cases)
  case (1 q c now e q')
  then show ?case by (rule outbox_enqueue_inv)
next
  case (2 q t i tm e q')
  then show ?case by (rule outbox_markConsumed_inv)
next
  case (3 q limit t)
  then show ?case by (simp add: listUnconsumed_eq outbox_pending_def js_slice0_def)
next
  case (4 q c now e q' t)
  then show ?case using pending_enqueue [of is_uuid q c now e q'] by (auto split: if_splits)
next
  case (5 q e t tm)
  then show ?case by (rule mark_pending_succeeds)
next
  case (6 q t i tm e q' t')
  then show ?case by (rule pending_mark)
next
  case (7 q t)
  then show ?case by (rule distinct_pending)
qed

lemma enqueue_files:
  assumes "outbox_inv is_uuid ob" and "outbox_enqueue is_uuid c now ob = Inr (e, ob')"
  shows "find_existing (ob_events ob') (command_key c) = Some e"
proof (cases "find_existing (ob_events ob) (command_key c)")
  case None
  with assms(2) enqueue_on_valid [OF assms(1) enqueue_Inr_ok [OF assms(2)]] show ?thesis
    by (auto simp: Let_def)
next
  case (Some e')
  with assms(2) enqueue_on_valid [OF assms(1) enqueue_Inr_ok [OF assms(2)]] show ?thesis by auto
qed

lemma enqueue_replay:
  assumes "outbox_inv is_uuid ob" and "outbox_enqueue is_uuid c now ob = Inr (e, ob')"
    and "command_key c' = command_key c" and "enqueueOutboxEvent_ok is_uuid c'"
  shows "outbox_enqueue is_uuid c' now' ob' = Inr (e, ob')"
  using enqueue_on_valid [OF outbox_enqueue_inv [OF assms(1,2)] assms(4)]
    enqueue_files [OF assms(1,2)] assms(3) by simp

text \<open>A valid command is always accepted, and what was filed before stays filed.\<close>

lemma enqueue_valid_succeeds:
  assumes "outbox_inv is_uuid ob" and "enqueueOutboxEvent_ok is_uuid c"
  shows "\<exists>e ob'. outbox_enqueue is_uuid c now ob = Inr (e, ob') \<and> outbox_inv is_uuid ob' \<and>
    find_existing (ob_events ob') (command_key c) = Some e"
proof -
  obtain e ob' where "outbox_enqueue is_uuid c now ob = Inr (e, ob')"
    using enqueue_on_valid [OF assms, of now]
    by (cases "find_existing (ob_events ob) (command_key c)") (auto simp: Let_def)
  with outbox_enqueue_inv [OF assms(1)] enqueue_files [OF assms(1)] show ?thesis by blast
qed

lemma enqueue_keeps_filed:
  assumes inv: "outbox_inv is_uuid ob" and enq: "outbox_enqueue is_uuid c now ob = Inr (e, ob')"
    and filed: "find_existing (ob_events ob) k = Some x"
  shows "find_existing (ob_events ob') k = Some x"
proof (cases "find_existing (ob_events ob) (command_key c)")
  case None
  with filed have "k \<noteq> command_key c" by auto
  moreover have "get_by_id (ob_events ob) (oe_id x) = Some x"
    using filed find_existing_Some [OF outbox_inv_store [OF inv]] by simp
  moreover have "map_of (idByKey (ob_events ob)) k = Some (oe_id x)"
    using filed find_existing_Some [OF outbox_inv_store [OF inv]]
      store_okD(4) [OF outbox_inv_store [OF inv]] by metis
  moreover have "ob_events ob' = insert_new (command_key c) (show_nat (Suc (ob_sequence ob))) e (ob_events ob)"
    using None enq enqueue_on_valid [OF inv enqueue_Inr_ok [OF enq]] by (auto simp: Let_def)
  ultimately show ?thesis
    using outbox_next_id_fresh [OF inv] store_okD(1) [OF outbox_inv_store [OF inv]]
    by (auto simp: find_existing_def)
next
  case (Some y)
  then show ?thesis using filed enq enqueue_on_valid [OF inv enqueue_Inr_ok [OF enq]] by auto
qed

text \<open>The same event, consumed or not.\<close>

definition same_event :: "storedOutboxEvent \<Rightarrow> storedOutboxEvent \<Rightarrow> bool" where
  "same_event e e' \<longleftrightarrow> e' = e\<lparr>oe_consumedAt := oe_consumedAt e'\<rparr>"

lemma same_event_refl [simp]: "same_event e e"
  by (simp add: same_event_def)

lemma same_event_trans: "same_event e e' \<Longrightarrow> same_event e' e'' \<Longrightarrow> same_event e e''"
  unfolding same_event_def by (metis storedOutboxEvent.surjective storedOutboxEvent.update_convs(7))

lemma mark_keeps_filed:
  assumes inv: "outbox_inv is_uuid ob" and mark: "outbox_markConsumed is_uuid t i tm ob = Inr (e', ob')"
    and filed: "find_existing (ob_events ob) k = Some x"
  shows "\<exists>x'. find_existing (ob_events ob') k = Some x' \<and> same_event x x'"
proof -
  have x: "get_by_id (ob_events ob) (oe_id x) = Some x" "event_key x = k"
    using filed find_existing_Some [OF outbox_inv_store [OF inv]] by blast+
  note filed' = find_existing_Some [OF outbox_inv_store [OF outbox_markConsumed_inv [OF inv mark]]]
  from mark show ?thesis
  proof (rule markConsumed_Inr)
    fix e assume e: "get_by_id (ob_events ob) i = Some e" "e' = e\<lparr>oe_consumedAt := Some tm\<rparr>"
      "ob' = ob\<lparr>ob_events := put_record i e' (ob_events ob)\<rparr>"
    show ?thesis
    proof (cases "i = oe_id x")
      case True
      with e x have "find_existing (ob_events ob') k = Some e'" by (subst filed') simp
      with e x True show ?thesis by (simp add: same_event_def)
    next
      case False
      with e x have "find_existing (ob_events ob') k = Some x" by (subst filed') simp
      then show ?thesis by simp
    qed
  qed
qed

lemma filed_event_type:
  assumes "uuid_format is_uuid" and "outbox_inv is_uuid ob" and "enqueueOutboxEvent_ok is_uuid c"
    and "find_existing (ob_events ob) (command_key c) = Some e"
  shows "oe_tenantId e = oc_tenantId c" "oe_eventType e = oc_eventType c"
    "oe_idempotencyKey e = oc_idempotencyKey c"
proof -
  have e: "get_by_id (ob_events ob) (oe_id e) = Some e" "event_key e = command_key c"
    using assms(4) find_existing_Some [OF outbox_inv_store [OF assms(2)]] by simp_all
  then have "storedOutboxEvent_ok is_uuid e"
    using store_okD(3) [OF outbox_inv_store [OF assms(2)]] by blast
  with e(2) assms(1,3) show "oe_tenantId e = oc_tenantId c" "oe_eventType e = oc_eventType c"
      "oe_idempotencyKey e = oc_idempotencyKey c"
    by (simp_all add: storedOutboxEvent_ok_def enqueueOutboxEvent_ok_def outboxIdempotencyKey_inject)
qed

interpretation enqueue_once: idempotent_command
  "outbox_enqueue is_uuid" "outbox_inv is_uuid" "\<lambda>_ _. True" "(=)" for is_uuid
proof (unfold_locales, goal_cases)
  case (1 s e c r t)
  then show ?case by (auto intro: outbox_enqueue_inv)
next
  case (2 s e c r t e')
  then show ?case using enqueue_replay [OF 2(1,3) refl enqueue_Inr_ok [OF 2(3)]] by auto
qed

section \<open>Histories\<close>

inductive outbox_step :: "(string \<Rightarrow> bool) \<Rightarrow> outbox \<Rightarrow> outbox \<Rightarrow> bool" for is_uuid where
  step_enqueue: "outbox_enqueue is_uuid c now ob = Inr (e, ob') \<Longrightarrow> outbox_step is_uuid ob ob'"
| step_consume: "outbox_markConsumed is_uuid t i tm ob = Inr (e, ob') \<Longrightarrow> outbox_step is_uuid ob ob'"

lemma outbox_step_inv: "outbox_step is_uuid ob ob' \<Longrightarrow> outbox_inv is_uuid ob \<Longrightarrow> outbox_inv is_uuid ob'"
  by (induction rule: outbox_step.induct)
    (auto intro: mem_outbox.enqueue_inv mem_outbox.mark_inv)

lemma outbox_reachable_inv: "(outbox_step is_uuid)\<^sup>*\<^sup>* empty_outbox ob \<Longrightarrow> outbox_inv is_uuid ob"
  by (induction rule: rtranclp_induct) (auto intro: outbox_inv_empty outbox_step_inv)

lemma outbox_steps_inv: "(outbox_step is_uuid)\<^sup>*\<^sup>* ob ob' \<Longrightarrow> outbox_inv is_uuid ob \<Longrightarrow> outbox_inv is_uuid ob'"
  by (induction rule: rtranclp_induct) (auto intro: outbox_step_inv)

text \<open>An event stays filed under its key, whatever is enqueued or consumed.\<close>

lemma step_keeps_filed:
  assumes "outbox_step is_uuid ob ob'" and "outbox_inv is_uuid ob" and "find_existing (ob_events ob) k = Some x"
  shows "\<exists>x'. find_existing (ob_events ob') k = Some x' \<and> same_event x x'"
  using assms
proof (induction rule: outbox_step.induct)
  case (step_enqueue c now ob e ob')
  from enqueue_keeps_filed [OF step_enqueue.prems(1) step_enqueue.hyps step_enqueue.prems(2)] show ?case by auto
next
  case (step_consume t i tm ob e ob')
  from mark_keeps_filed [OF step_consume.prems(1) step_consume.hyps step_consume.prems(2)] show ?case .
qed

lemma steps_keep_filed:
  assumes "(outbox_step is_uuid)\<^sup>*\<^sup>* ob ob'" and "outbox_inv is_uuid ob" and "find_existing (ob_events ob) k = Some x"
  shows "\<exists>x'. find_existing (ob_events ob') k = Some x' \<and> same_event x x'"
  using assms
proof (induction rule: rtranclp_induct)
  case (step ob1 ob2)
  then obtain x1 where x1: "find_existing (ob_events ob1) k = Some x1" "same_event x x1" by blast
  from step_keeps_filed [OF step.hyps(2) outbox_steps_inv [OF step.hyps(1) step.prems(1)] x1(1)] x1(2)
  show ?case by (auto intro: same_event_trans)
qed auto

lemma same_event_id: "same_event e e' \<Longrightarrow> oe_id e' = oe_id e"
  unfolding same_event_def by (metis storedOutboxEvent.select_convs(1) storedOutboxEvent.surjective storedOutboxEvent.update_convs(7))

section \<open>Properties\<close>

text \<open>
  C4. Enqueueing is exactly-once per tenant, event type and idempotency key, for ever: whatever is enqueued and consumed after
  an event was enqueued, a later valid command with the same three returns that event again, consumed or not, and adds nothing, whatever its
  payload and time, while a valid command that differs in any of the three gets another event.
\<close>

theorem outbox_enqueue_exactly_once:
  assumes "uuid_format is_uuid" and "(outbox_step is_uuid)\<^sup>*\<^sup>* empty_outbox ob"
    and "outbox_enqueue is_uuid c now ob = Inr (e, ob1)" and "(outbox_step is_uuid)\<^sup>*\<^sup>* ob1 ob2"
    and "enqueueOutboxEvent_ok is_uuid c'"
  shows "oe_tenantId e = oc_tenantId c \<and> oe_eventType e = oc_eventType c \<and> oe_idempotencyKey e = oc_idempotencyKey c \<and>
    (if oc_tenantId c' = oc_tenantId c \<and> oc_eventType c' = oc_eventType c \<and>
        oc_idempotencyKey c' = oc_idempotencyKey c
     then \<exists>e2. outbox_enqueue is_uuid c' now' ob2 = Inr (e2, ob2) \<and> same_event e e2
     else \<exists>e' ob3. outbox_enqueue is_uuid c' now' ob2 = Inr (e', ob3) \<and> oe_id e' \<noteq> oe_id e)"
proof -
  note inv = outbox_reachable_inv [OF assms(2)]
  note inv1 = outbox_enqueue_inv [OF inv assms(3)]
  note inv2 = outbox_steps_inv [OF assms(4) inv1]
  have filed: "find_existing (ob_events ob1) (command_key c) = Some e" by (rule enqueue_files [OF inv assms(3)])
  note fields = filed_event_type [OF assms(1) inv1 enqueue_Inr_ok [OF assms(3)] filed]
  from steps_keep_filed [OF assms(4) inv1 filed]
  obtain e2 where e2: "find_existing (ob_events ob2) (command_key c) = Some e2" "same_event e e2" by blast
  obtain e' ob3 where enq: "outbox_enqueue is_uuid c' now' ob2 = Inr (e', ob3)" "outbox_inv is_uuid ob3"
      "find_existing (ob_events ob3) (command_key c') = Some e'"
    using enqueue_valid_succeeds [OF inv2 assms(5)] by blast
  show ?thesis
  proof (cases "command_key c' = command_key c")
    case True
    with enqueue_Inr_ok [OF assms(3)] assms(1,5)
    have "oc_tenantId c' = oc_tenantId c" "oc_eventType c' = oc_eventType c" "oc_idempotencyKey c' = oc_idempotencyKey c"
      by (simp_all add: enqueueOutboxEvent_ok_def outboxIdempotencyKey_inject)
    moreover have "outbox_enqueue is_uuid c' now' ob2 = Inr (e2, ob2)"
      using enqueue_on_valid [OF inv2 assms(5), of now'] e2(1) True by simp
    ultimately show ?thesis using e2(2) fields by simp
  next
    case False
    have filed3: "find_existing (ob_events ob3) (command_key c) = Some e2" by (rule enqueue_keeps_filed [OF inv2 enq(1) e2(1)])
    note found = find_existing_Some [OF outbox_inv_store [OF enq(2)], THEN iffD1]
    have here: "get_by_id (ob_events ob3) (oe_id e') = Some e'" "get_by_id (ob_events ob3) (oe_id e2) = Some e2"
      using found [OF enq(3)] found [OF filed3] by blast+
    have "event_key e' \<noteq> event_key e2" using found [OF enq(3)] found [OF filed3] False by metis
    then have "oe_id e' \<noteq> oe_id e2" using here by (metis option.inject)
    then have "oe_id e' \<noteq> oe_id e" using same_event_id [OF e2(2)] by simp
    moreover from False have "\<not> (oc_tenantId c' = oc_tenantId c \<and> oc_eventType c' = oc_eventType c \<and>
        oc_idempotencyKey c' = oc_idempotencyKey c)" by fastforce
    ultimately show ?thesis using enq(1) fields unfolding if_not_P [OF \<open>\<not> (oc_tenantId c' = oc_tenantId c \<and>
        oc_eventType c' = oc_eventType c \<and> oc_idempotencyKey c' = oc_idempotencyKey c)\<close>] by blast
  qed
qed

definition example_command :: enqueueOutboxEvent where
  "example_command =
     \<lparr>oc_tenantId = ''aa'', oc_eventType = ''a.b.v1'', oc_idempotencyKey = ''k'', oc_payload = []\<rparr>"

definition example_event :: storedOutboxEvent where
  "example_event =
     \<lparr>oe_id = ''1'', oe_tenantId = ''aa'', oe_eventType = ''a.b.v1'', oe_idempotencyKey = ''k'',
      oe_payload = [], oe_createdAt = 5, oe_consumedAt = None\<rparr>"

definition example_outbox :: outbox where
  "example_outbox =
     \<lparr>ob_events = insert_new (command_key example_command) ''1'' example_event empty_store,
      ob_sequence = 1\<rparr>"

lemma example_command_ok: "enqueueOutboxEvent_ok hex_id example_command"
  by (simp add: enqueueOutboxEvent_ok_def example_command_def hex_id_def outboxEventType_ok_def
      is_digit_def is_lower_def is_event_char_def)

lemma example_enqueue:
  "outbox_enqueue hex_id example_command 5 empty_outbox = Inr (example_event, example_outbox)"
proof -
  have "show_nat (Suc 0) = ''1''" by (simp add: show_nat.simps)
  then show ?thesis
    using enqueue_on_valid [OF outbox_inv_empty example_command_ok, of 5]
    by (simp add: empty_outbox_def find_existing_def empty_store_def example_event_def
        example_outbox_def example_command_def Let_def)
qed

definition example_consumed :: storedOutboxEvent where
  "example_consumed = example_event\<lparr>oe_consumedAt := Some 7\<rparr>"

definition example_drained :: outbox where
  "example_drained = example_outbox\<lparr>ob_events := put_record ''1'' example_consumed (ob_events example_outbox)\<rparr>"

lemma example_drain: "outbox_markConsumed hex_id ''aa'' ''1'' 7 example_outbox = Inr (example_consumed, example_drained)"
  by code_simp

theorem outbox_enqueue_exactly_once_witness:
  "\<exists>e. outbox_enqueue hex_id (example_command\<lparr>oc_payload := [(''a'', JNull)]\<rparr>) 9 example_drained = Inr (e, example_drained) \<and>
     oe_id e = ''1''"
proof -
  have step: "(outbox_step hex_id)\<^sup>*\<^sup>* example_outbox example_drained"
    using outbox_step.step_consume [OF example_drain] by blast
  have ok: "enqueueOutboxEvent_ok hex_id (example_command\<lparr>oc_payload := [(''a'', JNull)]\<rparr>)"
    using example_command_ok by (simp add: enqueueOutboxEvent_ok_def)
  from outbox_enqueue_exactly_once [OF uuid_format_hex_id rtranclp.rtrancl_refl example_enqueue step ok, of 9]
  obtain e where "outbox_enqueue hex_id (example_command\<lparr>oc_payload := [(''a'', JNull)]\<rparr>) 9 example_drained = Inr (e, example_drained)"
      "same_event example_event e" by auto
  with same_event_id [of example_event e] show ?thesis by (simp add: example_event_def)
qed

text \<open>
  C5. The outbox is a queue per tenant: in every state reached from the empty outbox by enqueueing and
  consuming, a listing with a non-negative limit returns the oldest unconsumed events of the tenant,
  in the order they were enqueued, as many as the limit asks for.
\<close>

theorem outbox_listing_is_fifo:
  assumes "(outbox_step is_uuid)\<^sup>*\<^sup>* empty_outbox ob" and "0 \<le> limit"
  shows "outbox_listUnconsumed t limit ob =
      take (nat limit) (filter (\<lambda>e. oe_tenantId e = t \<and> oe_consumedAt e = None) (map snd (byId (ob_events ob))))
    \<and> sorted_wrt (<) (map (\<lambda>e. js_Number (oe_id e)) (outbox_listUnconsumed t limit ob))"
proof -
  note inv = outbox_reachable_inv [OF assms(1)]
  have list: "outbox_listUnconsumed t limit ob = take (nat limit) (outbox_pending t ob)"
    by (rule mem_outbox.listing_prefix [OF inv assms(2)])
  have "map (\<lambda>e. js_Number (oe_id e)) (store_values (ob_events ob)) = [1..<Suc (ob_sequence ob)]"
    using ids_of_values [OF inv] by (metis (no_types, lifting) js_Number_show_nat list.map_comp
        list.map_ident map_eq_conv comp_apply)
  then have "sorted_wrt (<) (map (\<lambda>e. js_Number (oe_id e)) (store_values (ob_events ob)))"
    by (simp del: upt_Suc)
  then have "sorted_wrt (<) (map (\<lambda>e. js_Number (oe_id e)) (outbox_pending t ob))"
    by (simp add: outbox_pending_def sorted_wrt_map sorted_wrt_filter)
  then show ?thesis
    unfolding list
    by (simp add: outbox_pending_def store_values_def sorted_wrt_map sorted_wrt_take take_map)
qed

theorem outbox_listing_is_fifo_witness:
  "outbox_listUnconsumed ''aa'' 10 example_outbox = [example_event]"
proof -
  have "(outbox_step hex_id)\<^sup>*\<^sup>* empty_outbox example_outbox"
    using outbox_step.step_enqueue [OF example_enqueue] by blast
  from outbox_listing_is_fifo [OF this, of 10 "''aa''"] show ?thesis
    by (simp add: example_outbox_def insert_new_def empty_store_def example_event_def)
qed

lemma consumed_stays:
  assumes "outbox_step is_uuid ob ob'" and "outbox_inv is_uuid ob"
    and "get_by_id (ob_events ob) i = Some e" and "oe_consumedAt e \<noteq> None"
  shows "\<exists>e'. get_by_id (ob_events ob') i = Some e' \<and> oe_consumedAt e' \<noteq> None"
  using assms
proof (induction rule: outbox_step.induct)
  case (step_enqueue c now ob x ob')
  show ?case
  proof (cases "find_existing (ob_events ob) (command_key c)")
    case None
    then have "ob_events ob' = insert_new (command_key c) (show_nat (Suc (ob_sequence ob))) x (ob_events ob)"
      using step_enqueue enqueue_on_valid [OF step_enqueue.prems(1) enqueue_Inr_ok [OF step_enqueue.hyps]]
      by (auto simp: Let_def)
    with step_enqueue.prems outbox_next_id_fresh [OF step_enqueue.prems(1)] show ?thesis by auto
  next
    case (Some y)
    then show ?thesis
      using step_enqueue enqueue_on_valid [OF step_enqueue.prems(1) enqueue_Inr_ok [OF step_enqueue.hyps]]
      by auto
  qed
next
  case (step_consume t j tm ob x ob')
  from step_consume.hyps show ?case
    by (rule markConsumed_Inr) (use step_consume.prems in auto)
qed

text \<open>
  Consuming is tenant-safe and final: acknowledging an event takes exactly that event out of its
  tenant's queue and touches no other tenant's queue; another tenant's id is refused, and a consumed
  event never comes back whatever is enqueued or consumed later.
\<close>

theorem outbox_consume_final:
  assumes "outbox_inv is_uuid ob" and "outbox_markConsumed is_uuid t i tm ob = Inr (e, ob')"
  shows "oe_tenantId e = t \<and>
    (\<forall>t'. outbox_pending t' ob' = filter (\<lambda>x. oe_id x \<noteq> i) (outbox_pending t' ob)) \<and>
    (\<forall>t'. t' \<noteq> t \<longrightarrow> outbox_pending t' ob' = outbox_pending t' ob) \<and>
    (\<forall>ob'' t'. (outbox_step is_uuid)\<^sup>*\<^sup>* ob' ob'' \<longrightarrow> i \<notin> oe_id ` set (outbox_pending t' ob''))"
proof -
  from assms(2) obtain x where x: "get_by_id (ob_events ob) i = Some x" "oe_tenantId x = t"
      "e = x\<lparr>oe_consumedAt := Some tm\<rparr>" "ob' = ob\<lparr>ob_events := put_record i e (ob_events ob)\<rparr>"
    by (rule markConsumed_Inr)
  have other: "i \<notin> oe_id ` set (outbox_pending t' ob)" if "t' \<noteq> t" for t'
    using that x set_store_values [OF outbox_inv_store [OF assms(1)]]
    by (auto simp: outbox_pending_def)
  have never: "i \<notin> oe_id ` set (outbox_pending t' ob'')" if "(outbox_step is_uuid)\<^sup>*\<^sup>* ob' ob''" for ob'' t'
  proof -
    from that have "outbox_inv is_uuid ob'' \<and>
        (\<exists>y. get_by_id (ob_events ob'') i = Some y \<and> oe_consumedAt y \<noteq> None)"
    proof (induction rule: rtranclp_induct)
      case base
      then show ?case using mem_outbox.mark_inv [OF assms] x by auto
    next
      case (step y z)
      then show ?case using consumed_stays outbox_step_inv by metis
    qed
    then show ?thesis
      using set_store_values [OF outbox_inv_store] by (fastforce simp: outbox_pending_def)
  qed
  have "filter (\<lambda>y. oe_id y \<noteq> i) (outbox_pending t' ob) = outbox_pending t' ob" if "t' \<noteq> t" for t'
    using other [OF that] by (auto simp: filter_id_conv)
  with x mem_outbox.mark_removes [OF assms] never show ?thesis by auto
qed

lemma example_outbox_inv: "outbox_inv hex_id example_outbox"
  by (rule outbox_enqueue_inv [OF outbox_inv_empty example_enqueue])

theorem outbox_consume_final_witness:
  "\<exists>e ob'. outbox_markConsumed hex_id ''aa'' ''1'' 8 example_outbox = Inr (e, ob') \<and>
     outbox_pending ''aa'' ob' = []"
proof -
  have p: "outbox_pending ''aa'' example_outbox = [example_event]"
    by (simp add: outbox_pending_def example_outbox_def store_values_def insert_new_def empty_store_def
        example_event_def)
  then have "example_event \<in> set (outbox_pending ''aa'' example_outbox)" by simp
  from mark_pending_succeeds [OF example_outbox_inv this, of 8] obtain e ob'
    where m: "outbox_markConsumed hex_id ''aa'' ''1'' 8 example_outbox = Inr (e, ob')"
    by (auto simp: example_event_def)
  from outbox_consume_final [OF example_outbox_inv m] p m show ?thesis
    by (simp add: example_event_def)
qed

text \<open>
  Subjects separate tenants: every accepted event type gives a publishable subject, and two
  tenants, or two event types, never share one.
\<close>

theorem tenant_subjects_disjoint:
  assumes "uuid_format is_uuid" and "is_uuid t" and "is_uuid t'"
    and "outboxEventType_ok e" and "outboxEventType_ok e'"
  shows "\<exists>s s'. tenantScopedSubject is_uuid t e = Inr s \<and> tenantScopedSubject is_uuid t' e' = Inr s' \<and>
    (s = s' \<longleftrightarrow> t = t' \<and> e = e')"
proof -
  have nodot: "CHR ''.'' \<notin> set u" if "is_uuid u" for u
  proof -
    from assms(1) that have "set u \<subseteq> set ''0123456789abcdefABCDEF-''"
      unfolding uuid_format_def by blast
    moreover have "CHR ''.'' \<notin> set ''0123456789abcdefABCDEF-''" by simp
    ultimately show ?thesis by (rule contra_subsetD)
  qed
  have subject: "tenantScopedSubject is_uuid u x = Inr (''t.'' @ u @ ''.'' @ x)"
    if "is_uuid u" "outboxEventType_ok x" for u x
  proof -
    have "hd x \<noteq> CHR ''.''" "last x \<noteq> CHR ''.''" "x \<noteq> []"
      using outboxEventType_ends [OF that(2)] lower_no_dot not_digit(2) by metis+
    with that(1) show ?thesis by (simp add: tenantScopedSubject_def)
  qed
  have "takeWhile (\<lambda>c. c \<noteq> CHR ''.'') (u @ CHR ''.'' # x) = u" if "is_uuid u" for u x
    using nodot [OF that] by (subst takeWhile_append2) auto
  then have "t @ CHR ''.'' # e = t' @ CHR ''.'' # e' \<longleftrightarrow> t = t' \<and> e = e'"
    using assms(2,3) by (metis append_same_eq same_append_eq list.inject)
  then show ?thesis using subject assms(2-5) by simp
qed

theorem tenant_subjects_disjoint_witness:
  "\<exists>s s'. tenantScopedSubject hex_id ''aa'' ''a.b.v1'' = Inr s \<and>
     tenantScopedSubject hex_id ''ab'' ''a.b.v1'' = Inr s' \<and> s \<noteq> s'"
  using tenant_subjects_disjoint [OF uuid_format_hex_id, of "''aa''" "''ab''" "''a.b.v1''" "''a.b.v1''"]
    example_command_ok
  by (simp add: hex_id_def enqueueOutboxEvent_ok_def example_command_def)

end
