(* ===== verification/WorkflowRuns.thy ===== *)
theory WorkflowRuns
  imports Outbox
begin

text \<open>
  Workflow runs: the state machine of \<open>src/packages/core/src/workflow-state.ts\<close>, the workflow
  inputs and outbox commands of \<open>workflows.ts\<close>, the in-memory run repository of
  \<open>src/packages/db/src/workflow-run-repository.ts\<close> and the HTTP handlers of
  \<open>src/apps/api/src/routes/workflows.ts\<close>.

  A handler returns its response or the error it throws together with the dependencies as it left
  them, because an exception does not undo the effects that came before it. \<open>clock i\<close> is the
  \<open>i\<close>-th reading of \<open>new Date()\<close> in a handler. The callback handler awaits between reading a run
  and changing it, so the second half is an operation of its own that takes the state that was
  read, possibly stale by then.
\<close>

section \<open>The state machine\<close>

datatype workflowRunState = Requested | InProgress | Completed | Failed

datatype callbackType = Progress | CompletedCallback | FailedCallback

fun state_name :: "workflowRunState \<Rightarrow> string" where
  "state_name Requested = ''requested''"
| "state_name InProgress = ''in_progress''"
| "state_name Completed = ''completed''"
| "state_name Failed = ''failed''"

fun callback_name :: "callbackType \<Rightarrow> string" where
  "callback_name Progress = ''progress''"
| "callback_name CompletedCallback = ''completed''"
| "callback_name FailedCallback = ''failed''"

fun ALLOWED_TRANSITIONS :: "workflowRunState \<Rightarrow> workflowRunState list" where
  "ALLOWED_TRANSITIONS Requested = [InProgress, Completed, Failed]"
| "ALLOWED_TRANSITIONS InProgress = [InProgress, Completed, Failed]"
| "ALLOWED_TRANSITIONS Completed = []"
| "ALLOWED_TRANSITIONS Failed = []"

definition isTerminalState :: "workflowRunState \<Rightarrow> bool" where
  "isTerminalState s \<longleftrightarrow> s \<in> set [Completed, Failed]"

datatype workflowTransitionResult =
    TransitionOk workflowRunState
  | TransitionError (transition_reason: string) workflowRunState workflowRunState

text \<open>A value in single quotes, as the error messages show it.\<close>

definition in_quotes :: "string \<Rightarrow> string" where
  "in_quotes s = [CHR 0x27] @ s @ [CHR 0x27]"

definition transition_error_reason :: "workflowRunState \<Rightarrow> workflowRunState \<Rightarrow> string" where
  "transition_error_reason from to =
     ''Illegal workflow state transition: '' @ in_quotes (state_name from) @
     '' '' @ [CHR 0xE2, CHR 0x86, CHR 0x92] @ '' '' @ in_quotes (state_name to) @
     ''. Terminal states accept no further transitions.''"

definition validateWorkflowTransition ::
  "workflowRunState \<Rightarrow> workflowRunState \<Rightarrow> workflowTransitionResult" where
  "validateWorkflowTransition from to =
     (if to \<notin> set (ALLOWED_TRANSITIONS from)
      then TransitionError (transition_error_reason from to) from to
      else TransitionOk to)"

fun callbackTypeToState :: "callbackType \<Rightarrow> workflowRunState" where
  "callbackTypeToState Progress = InProgress"
| "callbackTypeToState CompletedCallback = Completed"
| "callbackTypeToState FailedCallback = Failed"

definition isCallbackLegalFromState :: "workflowRunState \<Rightarrow> callbackType \<Rightarrow> bool" where
  "isCallbackLegalFromState currentState callbackType =
     (case validateWorkflowTransition currentState (callbackTypeToState callbackType) of
        TransitionOk _ \<Rightarrow> True
      | TransitionError _ _ _ \<Rightarrow> False)"

section \<open>Workflow inputs and outbox commands\<close>

record helloInput =
  hi_tenantId :: string
  hi_workflowId :: string
  hi_dedupeKey :: string
  hi_initiatedBy :: string
  hi_message :: string

definition restateHelloWorkflowInput_ok :: "(string \<Rightarrow> bool) \<Rightarrow> helloInput \<Rightarrow> bool" where
  "restateHelloWorkflowInput_ok is_uuid i \<longleftrightarrow>
     is_uuid (hi_tenantId i) \<and> hi_workflowId i \<noteq> [] \<and> hi_dedupeKey i \<noteq> [] \<and>
     hi_initiatedBy i \<noteq> [] \<and> hi_message i \<noteq> []"

record helloResult =
  hr_tenantId :: string
  hr_workflowId :: string
  hr_status :: string
  hr_responseMessage :: string
  hr_completedAt :: date

definition restateHelloWorkflowResult_ok :: "(string \<Rightarrow> bool) \<Rightarrow> helloResult \<Rightarrow> bool" where
  "restateHelloWorkflowResult_ok is_uuid r \<longleftrightarrow>
     is_uuid (hr_tenantId r) \<and> hr_workflowId r \<noteq> [] \<and> hr_status r = ''completed'' \<and>
     hr_responseMessage r \<noteq> []"

definition createRestateHelloWorkflowOutboxCommand ::
  "(string \<Rightarrow> bool) \<Rightarrow> helloInput \<Rightarrow> date \<Rightarrow> enqueueOutboxEvent result" where
  "createRestateHelloWorkflowOutboxCommand is_uuid input now =
     and_then (zod_parse id (restateHelloWorkflowInput_ok is_uuid) input) (\<lambda>parsed.
       Inr \<lparr>oc_tenantId = hi_tenantId parsed, oc_eventType = ''workflow.hello.requested.v1'',
            oc_idempotencyKey = hi_dedupeKey parsed,
            oc_payload =
              [(''workflow_id'', JStr (hi_workflowId parsed)),
               (''initiated_by'', JStr (hi_initiatedBy parsed)),
               (''message'', JStr (hi_message parsed)),
               (''requested_at'', JStr (toISOString now))]\<rparr>)"

definition runHelloWorkflowDeterministic ::
  "(string \<Rightarrow> bool) \<Rightarrow> helloInput \<Rightarrow> date \<Rightarrow> helloResult result" where
  "runHelloWorkflowDeterministic is_uuid input now =
     and_then (zod_parse id (restateHelloWorkflowInput_ok is_uuid) input) (\<lambda>parsed.
       zod_parse id (restateHelloWorkflowResult_ok is_uuid)
         \<lparr>hr_tenantId = hi_tenantId parsed, hr_workflowId = hi_workflowId parsed,
          hr_status = ''completed'',
          hr_responseMessage =
            ''Hello '' @ hi_initiatedBy parsed @ '', workflow accepted: '' @ hi_message parsed,
          hr_completedAt = now\<rparr>)"

record tpInput =
  tp_tenantId :: string
  tp_workflowId :: string
  tp_dedupeKey :: string
  tp_tenantExternalId :: string
  tp_tenantName :: string
  tp_requestedBy :: string

definition tenantProvisioningWorkflowInput_ok :: "(string \<Rightarrow> bool) \<Rightarrow> 'a tpInput_scheme \<Rightarrow> bool" where
  "tenantProvisioningWorkflowInput_ok is_uuid i \<longleftrightarrow>
     is_uuid (tp_tenantId i) \<and> tp_workflowId i \<noteq> [] \<and> tp_dedupeKey i \<noteq> [] \<and>
     tp_tenantExternalId i \<noteq> [] \<and> tp_tenantName i \<noteq> [] \<and> tp_requestedBy i \<noteq> []"

definition tenantProvisioningWorkflowInputSchema_parse ::
  "(string \<Rightarrow> bool) \<Rightarrow> tpInput \<Rightarrow> tpInput result" where
  "tenantProvisioningWorkflowInputSchema_parse is_uuid =
     zod_parse id (tenantProvisioningWorkflowInput_ok is_uuid)"

record tpResult =
  tr_tenantId :: string
  tr_workflowId :: string
  tr_status :: string
  tr_provisioningKey :: string
  tr_acceptedAt :: date

definition tenantProvisioningWorkflowResult_ok :: "(string \<Rightarrow> bool) \<Rightarrow> tpResult \<Rightarrow> bool" where
  "tenantProvisioningWorkflowResult_ok is_uuid r \<longleftrightarrow>
     is_uuid (tr_tenantId r) \<and> tr_workflowId r \<noteq> [] \<and> tr_status r = ''accepted'' \<and>
     tr_provisioningKey r \<noteq> []"

definition createTenantProvisioningWorkflowOutboxCommand ::
  "(string \<Rightarrow> bool) \<Rightarrow> tpInput \<Rightarrow> date \<Rightarrow> enqueueOutboxEvent result" where
  "createTenantProvisioningWorkflowOutboxCommand is_uuid input now =
     and_then (tenantProvisioningWorkflowInputSchema_parse is_uuid input) (\<lambda>parsed.
       Inr \<lparr>oc_tenantId = tp_tenantId parsed,
            oc_eventType = ''workflow.tenant_provisioning.requested.v1'',
            oc_idempotencyKey = tp_dedupeKey parsed,
            oc_payload =
              [(''workflow_id'', JStr (tp_workflowId parsed)),
               (''tenant_external_id'', JStr (tp_tenantExternalId parsed)),
               (''tenant_name'', JStr (tp_tenantName parsed)),
               (''requested_by'', JStr (tp_requestedBy parsed)),
               (''requested_at'', JStr (toISOString now))]\<rparr>)"

definition acceptTenantProvisioningWorkflowDeterministic ::
  "(string \<Rightarrow> bool) \<Rightarrow> tpInput \<Rightarrow> date \<Rightarrow> tpResult result" where
  "acceptTenantProvisioningWorkflowDeterministic is_uuid input now =
     and_then (tenantProvisioningWorkflowInputSchema_parse is_uuid input) (\<lambda>parsed.
       zod_parse id (tenantProvisioningWorkflowResult_ok is_uuid)
         \<lparr>tr_tenantId = tp_tenantId parsed, tr_workflowId = tp_workflowId parsed,
          tr_status = ''accepted'',
          tr_provisioningKey = colon_key (tp_tenantExternalId parsed) (tp_dedupeKey parsed),
          tr_acceptedAt = now\<rparr>)"

text \<open>The callback as it arrives; an absent \<open>callbackType\<close> means \<open>completed\<close>.\<close>

record tpCallback = tpInput +
  cb_callbackId :: string
  cb_callbackType :: "callbackType option"
  cb_runtimeRunId :: "string option"
  cb_progressStep :: "string option"
  cb_progressMessage :: "string option"
  cb_progressPercent :: "number option"
  cb_failureCode :: "string option"
  cb_failureMessage :: "string option"

abbreviation cb_type :: "tpCallback \<Rightarrow> callbackType" where
  "cb_type c \<equiv> nullish_or (cb_callbackType c) CompletedCallback"

definition tenantProvisioningRuntimeCallback_ok :: "(string \<Rightarrow> bool) \<Rightarrow> tpCallback \<Rightarrow> bool" where
  "tenantProvisioningRuntimeCallback_ok is_uuid c \<longleftrightarrow>
     tenantProvisioningWorkflowInput_ok is_uuid c \<and> cb_callbackId c \<noteq> [] \<and>
     pred_opt (\<lambda>s. s \<noteq> []) (cb_runtimeRunId c) \<and> pred_opt (\<lambda>s. s \<noteq> []) (cb_progressStep c) \<and>
     pred_opt (\<lambda>s. s \<noteq> []) (cb_progressMessage c) \<and>
     pred_opt (\<lambda>x. 0 \<le> x \<and> x \<le> 100) (cb_progressPercent c) \<and>
     pred_opt (\<lambda>s. s \<noteq> []) (cb_failureCode c) \<and> pred_opt (\<lambda>s. s \<noteq> []) (cb_failureMessage c)"

definition tenantProvisioningRuntimeCallbackSchema_parse ::
  "(string \<Rightarrow> bool) \<Rightarrow> tpCallback \<Rightarrow> tpCallback result" where
  "tenantProvisioningRuntimeCallbackSchema_parse is_uuid =
     zod_parse (\<lambda>c. c\<lparr>cb_callbackType := Some (cb_type c)\<rparr>)
       (tenantProvisioningRuntimeCallback_ok is_uuid)"

fun json_str_opt :: "string option \<Rightarrow> json" where
  "json_str_opt None = JNull"
| "json_str_opt (Some s) = JStr s"

fun json_num_opt :: "number option \<Rightarrow> json" where
  "json_num_opt None = JNull"
| "json_num_opt (Some x) = JNum x"

definition createTenantProvisioningCompletedOutboxCommand ::
  "(string \<Rightarrow> bool) \<Rightarrow> tpCallback \<Rightarrow> date \<Rightarrow> date \<Rightarrow> enqueueOutboxEvent result" where
  "createTenantProvisioningCompletedOutboxCommand is_uuid input acceptedAt completedAt =
     and_then (tenantProvisioningRuntimeCallbackSchema_parse is_uuid input) (\<lambda>parsed.
     and_then (acceptTenantProvisioningWorkflowDeterministic is_uuid (tpInput.truncate parsed) acceptedAt)
       (\<lambda>accepted.
       Inr \<lparr>oc_tenantId = tp_tenantId parsed,
            oc_eventType = ''workflow.tenant_provisioning.completed.v1'',
            oc_idempotencyKey = tp_dedupeKey parsed @ '':completed:'' @ cb_callbackId parsed,
            oc_payload =
              [(''workflow_id'', JStr (tr_workflowId accepted)),
               (''tenant_id'', JStr (tr_tenantId accepted)),
               (''tenant_external_id'', JStr (tp_tenantExternalId parsed)),
               (''tenant_name'', JStr (tp_tenantName parsed)),
               (''provisioning_key'', JStr (tr_provisioningKey accepted)),
               (''status'', JStr (tr_status accepted)),
               (''callback_id'', JStr (cb_callbackId parsed)),
               (''runtime_run_id'', json_str_opt (cb_runtimeRunId parsed)),
               (''accepted_at'', JStr (toISOString (tr_acceptedAt accepted))),
               (''completed_at'', JStr (toISOString completedAt))]\<rparr>))"

definition createTenantProvisioningProgressOutboxCommand ::
  "(string \<Rightarrow> bool) \<Rightarrow> tpCallback \<Rightarrow> date \<Rightarrow> enqueueOutboxEvent result" where
  "createTenantProvisioningProgressOutboxCommand is_uuid input now =
     and_then (tenantProvisioningRuntimeCallbackSchema_parse is_uuid input) (\<lambda>parsed.
       Inr \<lparr>oc_tenantId = tp_tenantId parsed,
            oc_eventType = ''workflow.tenant_provisioning.progress.v1'',
            oc_idempotencyKey =
              tp_dedupeKey parsed @ '':progress:'' @ cb_callbackId parsed @ '':'' @
              nullish_or (cb_progressStep parsed) ''callback_received'',
            oc_payload =
              [(''workflow_id'', JStr (tp_workflowId parsed)),
               (''tenant_id'', JStr (tp_tenantId parsed)),
               (''tenant_external_id'', JStr (tp_tenantExternalId parsed)),
               (''tenant_name'', JStr (tp_tenantName parsed)),
               (''callback_id'', JStr (cb_callbackId parsed)),
               (''callback_type'', JStr (callback_name (cb_type parsed))),
               (''runtime_run_id'', json_str_opt (cb_runtimeRunId parsed)),
               (''progress_step'', JStr (nullish_or (cb_progressStep parsed) ''callback_received'')),
               (''progress_message'',
                  JStr (nullish_or (cb_progressMessage parsed) ''Runtime callback received'')),
               (''progress_percent'', json_num_opt (cb_progressPercent parsed)),
               (''occurred_at'', JStr (toISOString now))]\<rparr>)"

definition createTenantProvisioningFailedOutboxCommand ::
  "(string \<Rightarrow> bool) \<Rightarrow> tpCallback \<Rightarrow> date \<Rightarrow> enqueueOutboxEvent result" where
  "createTenantProvisioningFailedOutboxCommand is_uuid input now =
     and_then (tenantProvisioningRuntimeCallbackSchema_parse is_uuid input) (\<lambda>parsed.
       Inr \<lparr>oc_tenantId = tp_tenantId parsed,
            oc_eventType = ''workflow.tenant_provisioning.failed.v1'',
            oc_idempotencyKey = tp_dedupeKey parsed @ '':failed:'' @ cb_callbackId parsed,
            oc_payload =
              [(''workflow_id'', JStr (tp_workflowId parsed)),
               (''tenant_id'', JStr (tp_tenantId parsed)),
               (''tenant_external_id'', JStr (tp_tenantExternalId parsed)),
               (''tenant_name'', JStr (tp_tenantName parsed)),
               (''callback_id'', JStr (cb_callbackId parsed)),
               (''runtime_run_id'', json_str_opt (cb_runtimeRunId parsed)),
               (''failure_code'', JStr (nullish_or (cb_failureCode parsed) ''UNKNOWN'')),
               (''failure_message'',
                  JStr (nullish_or (cb_failureMessage parsed) ''Workflow failed without details'')),
               (''failed_at'', JStr (toISOString now))]\<rparr>)"

section \<open>The run repository\<close>

record workflowRun =
  wr_id :: string
  wr_tenantId :: string
  wr_workflowId :: string
  wr_dedupeKey :: string
  wr_state :: workflowRunState
  wr_failureCode :: "string option"
  wr_createdAt :: date
  wr_updatedAt :: date

type_synonym workflowRuns = "(string \<times> workflowRun) list"

definition workflowRun_ok :: "(string \<Rightarrow> bool) \<Rightarrow> workflowRun \<Rightarrow> bool" where
  "workflowRun_ok is_uuid r \<longleftrightarrow>
     is_uuid (wr_id r) \<and> is_uuid (wr_tenantId r) \<and> wr_workflowId r \<noteq> [] \<and> wr_dedupeKey r \<noteq> []"

definition workflowRunSchema_parse :: "(string \<Rightarrow> bool) \<Rightarrow> workflowRun \<Rightarrow> workflowRun result" where
  "workflowRunSchema_parse is_uuid = zod_parse id (workflowRun_ok is_uuid)"

definition run_key :: "string \<Rightarrow> string \<Rightarrow> string" where
  "run_key tenantId workflowId = colon_key tenantId workflowId"

definition runs_upsertRequested ::
  "(string \<Rightarrow> bool) \<Rightarrow> string \<Rightarrow> string \<Rightarrow> string \<Rightarrow> string \<Rightarrow> date \<Rightarrow> workflowRuns \<Rightarrow>
   js_error + workflowRun \<times> workflowRuns" where
  "runs_upsertRequested is_uuid tenantId workflowId dedupeKey uuid now runs =
     (let k = run_key tenantId workflowId
      in case map_of runs k of
           Some existing \<Rightarrow> Inr (existing, runs)
         | None \<Rightarrow>
             and_then (workflowRunSchema_parse is_uuid
               \<lparr>wr_id = uuid, wr_tenantId = tenantId, wr_workflowId = workflowId,
                wr_dedupeKey = dedupeKey, wr_state = Requested, wr_failureCode = None,
                wr_createdAt = now, wr_updatedAt = now\<rparr>)
               (\<lambda>run. Inr (run, AList.update k run runs)))"

definition runs_transitionState ::
  "(string \<Rightarrow> bool) \<Rightarrow> string \<Rightarrow> string \<Rightarrow> workflowRunState \<Rightarrow> workflowRunState \<Rightarrow> string option \<Rightarrow>
   date \<Rightarrow> workflowRuns \<Rightarrow> js_error + workflowRun option \<times> workflowRuns" where
  "runs_transitionState is_uuid tenantId workflowId fromState toState failureCode now runs =
     (let k = run_key tenantId workflowId
      in case map_of runs k of
           None \<Rightarrow> Inr (None, runs)
         | Some existing \<Rightarrow>
             if wr_state existing \<noteq> fromState \<or> wr_state existing = Completed \<or> wr_state existing = Failed
             then Inr (None, runs)
             else and_then (workflowRunSchema_parse is_uuid
                    (existing\<lparr>wr_state := toState,
                              wr_failureCode := nullish failureCode (wr_failureCode existing),
                              wr_updatedAt := now\<rparr>))
                    (\<lambda>updated. Inr (Some updated, AList.update k updated runs)))"

definition runs_getByWorkflowId :: "string \<Rightarrow> string \<Rightarrow> workflowRuns \<Rightarrow> workflowRun option" where
  "runs_getByWorkflowId tenantId workflowId runs = map_of runs (run_key tenantId workflowId)"

section \<open>HTTP handlers\<close>

record workflowDeps =
  wd_outbox :: "outbox option"
  wd_runs :: "workflowRuns option"
  wd_helloDispatched :: "helloInput list option"
  wd_tpDispatched :: "tpInput list option"
  wd_secret :: "string option"

text \<open>The response bodies; \<open>wf_callback\<close> holds what only the callback routes return.\<close>

record workflowResponse =
  wf_workflowId :: string
  wf_callback :: "(string \<times> callbackType \<times> workflowRunState) option"
  wf_trackingId :: string
  wf_eventId :: string
  wf_eventType :: string
  wf_enqueuedAt :: string

definition workflow_response ::
  "string \<Rightarrow> (string \<times> callbackType \<times> workflowRunState) option \<Rightarrow> storedOutboxEvent \<Rightarrow> workflowResponse" where
  "workflow_response workflowId cb event =
     \<lparr>wf_workflowId = workflowId, wf_callback = cb,
      wf_trackingId = colon_key (oe_tenantId event) (oe_idempotencyKey event),
      wf_eventId = oe_id event, wf_eventType = oe_eventType event,
      wf_enqueuedAt = toISOString (oe_createdAt event)\<rparr>"

definition outbox_not_configured :: js_error where
  "outbox_not_configured =
     ServiceUnavailableError ''Outbox repository is not configured. Set DATABASE_URL.''"

text \<open>
  The signature check. \<open>hmac secret payload\<close> stands for the hexadecimal HMAC-SHA-256 digest.
  \<open>timingSafeEqual\<close> compares the UTF-8 bytes and throws when their numbers differ, which a
  character outside ASCII causes even when both strings have the same length.
\<close>

definition utf8_length :: "string \<Rightarrow> nat" where
  "utf8_length s = length s + length (filter (\<lambda>c. 128 \<le> (of_char c :: nat)) s)"

definition isRuntimeCallbackSignatureValid ::
  "(string \<Rightarrow> string \<Rightarrow> string) \<Rightarrow> string \<Rightarrow> string \<Rightarrow> string option \<Rightarrow> bool result" where
  "isRuntimeCallbackSignatureValid hmac secret payload providedSignature =
     (case providedSignature of
        None \<Rightarrow> Inr False
      | Some signature \<Rightarrow>
          if signature = [] then Inr False
          else (let expected = hmac secret payload; provided = trim signature
                in if length provided \<noteq> length expected then Inr False
                   else if utf8_length expected \<noteq> utf8_length provided
                   then Inl (JsError ''Input buffers must have the same byte length'')
                   else Inr (expected = provided)))"

text \<open>\<open>if (deps.runtimeCallbackSecret)\<close>: an absent or empty secret turns the check off.\<close>

definition check_signature ::
  "(string \<Rightarrow> string \<Rightarrow> string) \<Rightarrow> string option \<Rightarrow> string \<Rightarrow> string option \<Rightarrow> unit result" where
  "check_signature hmac configured rawPayload signature =
     (case configured of
        None \<Rightarrow> Inr ()
      | Some secret \<Rightarrow>
          if secret = [] then Inr ()
          else and_then (isRuntimeCallbackSignatureValid hmac secret rawPayload signature)
                 (\<lambda>ok. if ok then Inr () else Inl (UnauthorizedError ''Invalid runtime callback signature'')))"

text \<open>
  The types that the object schemas demand of a JSON body: required and optional strings, an
  optional number, an optional member of the callback enumeration.
\<close>

fun json_str :: "json option \<Rightarrow> string option" where
  "json_str (Some (JStr s)) = Some s"
| "json_str _ = None"

fun json_opt_str :: "json option \<Rightarrow> string option option" where
  "json_opt_str None = Some None"
| "json_opt_str (Some (JStr s)) = Some (Some s)"
| "json_opt_str _ = None"

fun json_opt_num :: "json option \<Rightarrow> number option option" where
  "json_opt_num None = Some None"
| "json_opt_num (Some (JNum x)) = Some (Some x)"
| "json_opt_num _ = None"

definition callback_of_name :: "string \<Rightarrow> callbackType option" where
  "callback_of_name s =
     map_of (map (\<lambda>t. (callback_name t, t)) [Progress, CompletedCallback, FailedCallback]) s"

fun json_opt_callbackType :: "json option \<Rightarrow> callbackType option option" where
  "json_opt_callbackType None = Some None"
| "json_opt_callbackType (Some (JStr s)) = map_option Some (callback_of_name s)"
| "json_opt_callbackType _ = None"

definition helloInput_of_json :: "json \<Rightarrow> helloInput result" where
  "helloInput_of_json j =
     (case (json_str (json_field ''tenantId'' j), json_str (json_field ''workflowId'' j),
            json_str (json_field ''dedupeKey'' j), json_str (json_field ''initiatedBy'' j),
            json_str (json_field ''message'' j)) of
        (Some t, Some w, Some d, Some i, Some m) \<Rightarrow>
          Inr \<lparr>hi_tenantId = t, hi_workflowId = w, hi_dedupeKey = d, hi_initiatedBy = i, hi_message = m\<rparr>
      | _ \<Rightarrow> Inl ZodError)"

definition tpInput_of_json :: "json \<Rightarrow> tpInput result" where
  "tpInput_of_json j =
     (case (json_str (json_field ''tenantId'' j), json_str (json_field ''workflowId'' j),
            json_str (json_field ''dedupeKey'' j), json_str (json_field ''tenantExternalId'' j),
            json_str (json_field ''tenantName'' j), json_str (json_field ''requestedBy'' j)) of
        (Some t, Some w, Some d, Some x, Some n, Some r) \<Rightarrow>
          Inr \<lparr>tp_tenantId = t, tp_workflowId = w, tp_dedupeKey = d, tp_tenantExternalId = x,
               tp_tenantName = n, tp_requestedBy = r\<rparr>
      | _ \<Rightarrow> Inl ZodError)"

definition tpCallback_of_json :: "json \<Rightarrow> tpCallback result" where
  "tpCallback_of_json j =
     and_then (tpInput_of_json j) (\<lambda>i.
       (case (json_str (json_field ''callbackId'' j), json_opt_callbackType (json_field ''callbackType'' j),
              json_opt_str (json_field ''runtimeRunId'' j), json_opt_str (json_field ''progressStep'' j),
              json_opt_str (json_field ''progressMessage'' j), json_opt_num (json_field ''progressPercent'' j),
              json_opt_str (json_field ''failureCode'' j), json_opt_str (json_field ''failureMessage'' j)) of
          (Some c, Some ty, Some rr, Some ps, Some pm, Some pp, Some fc, Some fm) \<Rightarrow>
            Inr (tpInput.extend i
                   \<lparr>cb_callbackId = c, cb_callbackType = ty, cb_runtimeRunId = rr,
                    cb_progressStep = ps, cb_progressMessage = pm, cb_progressPercent = pp,
                    cb_failureCode = fc, cb_failureMessage = fm\<rparr>)
        | _ \<Rightarrow> Inl ZodError))"

text \<open>\<open>JSON_parse\<close> stands for \<open>JSON.parse\<close>, which throws on a malformed body.\<close>

definition post_hello ::
  "(string \<Rightarrow> bool) \<Rightarrow> (string \<Rightarrow> json result) \<Rightarrow> (nat \<Rightarrow> date) \<Rightarrow> string \<Rightarrow> workflowDeps \<Rightarrow>
   (js_error + workflowResponse) \<times> workflowDeps" where
  "post_hello is_uuid JSON_parse clock rawPayload deps =
     (case wd_outbox deps of
        None \<Rightarrow> (Inl outbox_not_configured, deps)
      | Some ob \<Rightarrow>
          or_throw (and_then (and_then (JSON_parse rawPayload) helloInput_of_json)
                     (zod_parse id (restateHelloWorkflowInput_ok is_uuid))) deps (\<lambda>payload.
          or_throw (and_then (createRestateHelloWorkflowOutboxCommand is_uuid payload (clock 0))
                     (\<lambda>command. outbox_enqueue is_uuid command (clock 1) ob)) deps (\<lambda>(event, ob').
            (Inr (workflow_response (hi_workflowId payload) None event),
             deps\<lparr>wd_outbox := Some ob',
                  wd_helloDispatched := map_option (\<lambda>ps. ps @ [payload]) (wd_helloDispatched deps)\<rparr>))))"

definition post_tenant_provisioning ::
  "(string \<Rightarrow> bool) \<Rightarrow> (string \<Rightarrow> json result) \<Rightarrow> (nat \<Rightarrow> date) \<Rightarrow> string \<Rightarrow> string \<Rightarrow> workflowDeps \<Rightarrow>
   (js_error + workflowResponse) \<times> workflowDeps" where
  "post_tenant_provisioning is_uuid JSON_parse clock uuid rawPayload deps =
     (case wd_outbox deps of
        None \<Rightarrow> (Inl outbox_not_configured, deps)
      | Some ob \<Rightarrow>
          or_throw (and_then (and_then (JSON_parse rawPayload) tpInput_of_json)
                     (tenantProvisioningWorkflowInputSchema_parse is_uuid)) deps (\<lambda>payload.
          or_throw (case wd_runs deps of
                      None \<Rightarrow> Inr None
                    | Some runs \<Rightarrow>
                        and_then (runs_upsertRequested is_uuid (tp_tenantId payload) (tp_workflowId payload)
                                    (tp_dedupeKey payload) uuid (clock 0) runs)
                          (\<lambda>(_, runs'). Inr (Some runs'))) deps (\<lambda>runs'.
          let deps' = deps\<lparr>wd_runs := runs'\<rparr>
          in or_throw (and_then (createTenantProvisioningWorkflowOutboxCommand is_uuid payload (clock 1))
                        (\<lambda>command. outbox_enqueue is_uuid command (clock 2) ob)) deps' (\<lambda>(event, ob').
               (Inr (workflow_response (tp_workflowId payload) None event),
                deps'\<lparr>wd_outbox := Some ob',
                      wd_tpDispatched := map_option (\<lambda>ps. ps @ [payload]) (wd_tpDispatched deps)\<rparr>)))))"

text \<open>
  The state change of a callback. \<open>run\<close> is what \<open>getByWorkflowId\<close> returned; \<open>deps\<close> is the
  store when \<open>transitionState\<close> runs, after any other handler that ran in between.
\<close>

definition callback_transition ::
  "(string \<Rightarrow> bool) \<Rightarrow> (nat \<Rightarrow> date) \<Rightarrow> tpCallback \<Rightarrow> workflowRun option \<Rightarrow> workflowDeps \<Rightarrow>
   (js_error + unit) \<times> workflowDeps" where
  "callback_transition is_uuid clock payload run deps =
     (let targetState = callbackTypeToState (cb_type payload)
      in case wd_runs deps of
           Some runs \<Rightarrow>
             (let priorState = (case run of None \<Rightarrow> Requested | Some r \<Rightarrow> wr_state r)
              in case validateWorkflowTransition priorState targetState of
                   TransitionError reason _ _ \<Rightarrow> (Inl (ConflictError reason), deps)
                 | TransitionOk _ \<Rightarrow>
                     or_throw (runs_transitionState is_uuid (tp_tenantId payload) (tp_workflowId payload)
                                 priorState targetState (cb_failureCode payload) (clock 0) runs) deps
                       (\<lambda>(updated, runs').
                          if updated = None \<and> priorState \<noteq> targetState
                          then (Inl (ConflictError
                                  (''Concurrent state transition detected for workflow '' @
                                   in_quotes (tp_workflowId payload) @ ''. Retry with latest state.'')),
                                deps\<lparr>wd_runs := Some runs'\<rparr>)
                          else (Inr (), deps\<lparr>wd_runs := Some runs'\<rparr>)))
         | None \<Rightarrow>
             (case validateWorkflowTransition InProgress targetState of
                TransitionError reason _ _ \<Rightarrow> (Inl (ConflictError reason), deps)
              | TransitionOk _ \<Rightarrow> (Inr (), deps)))"

text \<open>The events of an accepted callback: always a progress event, then the terminal one.\<close>

definition terminal_command ::
  "(string \<Rightarrow> bool) \<Rightarrow> (nat \<Rightarrow> date) \<Rightarrow> tpCallback \<Rightarrow> enqueueOutboxEvent result" where
  "terminal_command is_uuid clock payload =
     (if cb_type payload = FailedCallback
      then createTenantProvisioningFailedOutboxCommand is_uuid payload (clock 3)
      else createTenantProvisioningCompletedOutboxCommand is_uuid payload (clock 3) (clock 4))"

definition callback_emit ::
  "(string \<Rightarrow> bool) \<Rightarrow> (nat \<Rightarrow> date) \<Rightarrow> tpCallback \<Rightarrow> workflowDeps \<Rightarrow>
   (js_error + workflowResponse) \<times> workflowDeps" where
  "callback_emit is_uuid clock payload deps =
     (case wd_outbox deps of
        None \<Rightarrow> (Inl outbox_not_configured, deps)
      | Some ob \<Rightarrow>
          or_throw (and_then (createTenantProvisioningProgressOutboxCommand is_uuid payload (clock 1))
                     (\<lambda>command. outbox_enqueue is_uuid command (clock 2) ob)) deps (\<lambda>(_, ob1).
          or_throw (and_then (terminal_command is_uuid clock payload)
                     (\<lambda>command. outbox_enqueue is_uuid command (clock 5) ob1))
                   (deps\<lparr>wd_outbox := Some ob1\<rparr>) (\<lambda>(event, ob2).
            (Inr (workflow_response (tp_workflowId payload)
                    (Some (cb_callbackId payload, cb_type payload, callbackTypeToState (cb_type payload)))
                    event),
             deps\<lparr>wd_outbox := Some ob2\<rparr>))))"

text \<open>The request is checked before any effect: the signature on the raw body, then the schema.\<close>

definition callback_payload ::
  "(string \<Rightarrow> bool) \<Rightarrow> (string \<Rightarrow> json result) \<Rightarrow> (string \<Rightarrow> string \<Rightarrow> string) \<Rightarrow>
   (json \<Rightarrow> json) \<Rightarrow> string option \<Rightarrow> string \<Rightarrow> workflowDeps \<Rightarrow> tpCallback result" where
  "callback_payload is_uuid JSON_parse hmac override signature rawPayload deps =
     and_then (check_signature hmac (wd_secret deps) rawPayload signature) (\<lambda>_.
     and_then (JSON_parse rawPayload) (\<lambda>j.
     and_then (tpCallback_of_json (override j))
       (tenantProvisioningRuntimeCallbackSchema_parse is_uuid)))"

definition post_runtime_callback ::
  "(string \<Rightarrow> bool) \<Rightarrow> (string \<Rightarrow> json result) \<Rightarrow> (string \<Rightarrow> string \<Rightarrow> string) \<Rightarrow> (nat \<Rightarrow> date) \<Rightarrow>
   string option \<Rightarrow> string \<Rightarrow> workflowDeps \<Rightarrow> (js_error + workflowResponse) \<times> workflowDeps" where
  "post_runtime_callback is_uuid JSON_parse hmac clock signature rawPayload deps =
     (case wd_outbox deps of
        None \<Rightarrow> (Inl outbox_not_configured, deps)
      | Some _ \<Rightarrow>
          or_throw (callback_payload is_uuid JSON_parse hmac id signature rawPayload deps) deps (\<lambda>payload.
            (let run = (case wd_runs deps of
                          None \<Rightarrow> None
                        | Some runs \<Rightarrow> runs_getByWorkflowId (tp_tenantId payload) (tp_workflowId payload) runs)
             in case callback_transition is_uuid clock payload run deps of
                  (Inl e, deps') \<Rightarrow> (Inl e, deps')
                | (Inr _, deps') \<Rightarrow> callback_emit is_uuid clock payload deps')))"

text \<open>\<open>{ ...JSON.parse(rawPayload), callbackType: "progress" }\<close>: spreading a value that is not an
  object yields none of the properties the schema needs.\<close>

fun with_progress_type :: "json \<Rightarrow> json" where
  "with_progress_type (JObj fs) = JObj (AList.update ''callbackType'' (JStr ''progress'') fs)"
| "with_progress_type _ = JObj [(''callbackType'', JStr ''progress'')]"

definition post_runtime_progress ::
  "(string \<Rightarrow> bool) \<Rightarrow> (string \<Rightarrow> json result) \<Rightarrow> (string \<Rightarrow> string \<Rightarrow> string) \<Rightarrow> (nat \<Rightarrow> date) \<Rightarrow>
   string option \<Rightarrow> string \<Rightarrow> workflowDeps \<Rightarrow> (js_error + workflowResponse) \<times> workflowDeps" where
  "post_runtime_progress is_uuid JSON_parse hmac clock signature rawPayload deps =
     (case wd_outbox deps of
        None \<Rightarrow> (Inl outbox_not_configured, deps)
      | Some ob \<Rightarrow>
          or_throw (callback_payload is_uuid JSON_parse hmac with_progress_type signature rawPayload deps)
            deps (\<lambda>payload.
          or_throw (and_then (createTenantProvisioningProgressOutboxCommand is_uuid payload (clock 0))
                     (\<lambda>command. outbox_enqueue is_uuid command (clock 1) ob)) deps (\<lambda>(event, ob').
            (Inr (workflow_response (tp_workflowId payload)
                    (Some (cb_callbackId payload, Progress, InProgress)) event),
             deps\<lparr>wd_outbox := Some ob'\<rparr>))))"

section \<open>Facts about the state machine\<close>

lemma terminal_iff_no_transition: "isTerminalState s \<longleftrightarrow> ALLOWED_TRANSITIONS s = []"
  by (cases s) (simp_all add: isTerminalState_def)

lemma validate_TransitionOk [simp]:
  "validateWorkflowTransition a b = TransitionOk c \<longleftrightarrow> c = b \<and> b \<in> set (ALLOWED_TRANSITIONS a)"
  by (auto simp: validateWorkflowTransition_def)

lemma transition_not_terminal: "b \<in> set (ALLOWED_TRANSITIONS a) \<Longrightarrow> \<not> isTerminalState a"
  by (cases a) (auto simp: isTerminalState_def)

lemma callback_target_allowed:
  "\<not> isTerminalState a \<Longrightarrow> callbackTypeToState t \<in> set (ALLOWED_TRANSITIONS a)"
  by (cases a; cases t) (simp_all add: isTerminalState_def)

lemma callback_legal_iff: "isCallbackLegalFromState a t \<longleftrightarrow> \<not> isTerminalState a"
  using callback_target_allowed [of a t] transition_not_terminal
  by (auto simp: isCallbackLegalFromState_def validateWorkflowTransition_def split: if_splits)

section \<open>Runs change along the state machine\<close>

definition runs_inv :: "(string \<Rightarrow> bool) \<Rightarrow> workflowRuns \<Rightarrow> bool" where
  "runs_inv is_uuid runs \<longleftrightarrow>
     (\<forall>k r. map_of runs k = Some r \<longrightarrow>
        workflowRun_ok is_uuid r \<and> k = run_key (wr_tenantId r) (wr_workflowId r))"

lemma runs_inv_empty: "runs_inv is_uuid []"
  by (simp add: runs_inv_def)

lemma runs_inv_update:
  "runs_inv is_uuid runs \<Longrightarrow> workflowRun_ok is_uuid r \<Longrightarrow> k = run_key (wr_tenantId r) (wr_workflowId r) \<Longrightarrow>
   runs_inv is_uuid (AList.update k r runs)"
  by (simp add: runs_inv_def update_conv)

text \<open>What a successful compare-and-swap did, and when it is refused.\<close>

lemma transition_Some:
  assumes "runs_transitionState is_uuid t w a b fc now runs = Inr (Some u, runs')"
  obtains r where "map_of runs (run_key t w) = Some r" "wr_state r = a" "\<not> isTerminalState a"
    "u = r\<lparr>wr_state := b, wr_failureCode := nullish fc (wr_failureCode r), wr_updatedAt := now\<rparr>"
    "workflowRun_ok is_uuid u" "runs' = AList.update (run_key t w) u runs"
  using assms
  by (auto simp: runs_transitionState_def workflowRunSchema_parse_def Let_def isTerminalState_def
      split: option.splits if_splits)

lemma transition_None:
  assumes "runs_transitionState is_uuid t w a b fc now runs = Inr (None, runs')"
  shows "runs' = runs"
  using assms
  by (auto simp: runs_transitionState_def workflowRunSchema_parse_def Let_def
      split: option.splits if_splits)

lemma transition_terminal:
  assumes "map_of runs (run_key t w) = Some r" and "isTerminalState (wr_state r)"
  shows "runs_transitionState is_uuid t w a b fc now runs = Inr (None, runs)"
  using assms by (auto simp: runs_transitionState_def Let_def isTerminalState_def)

lemma callback_transition_effect:
  assumes "callback_transition is_uuid clock c run deps = (x, deps')" and "wd_runs deps = Some runs"
  obtains (unchanged) "wd_runs deps' = Some runs"
  | (moved) r a u where "map_of runs (run_key (tp_tenantId c) (tp_workflowId c)) = Some r"
      "wr_state r = a" "callbackTypeToState (cb_type c) \<in> set (ALLOWED_TRANSITIONS a)"
      "u = r\<lparr>wr_state := callbackTypeToState (cb_type c),
             wr_failureCode := nullish (cb_failureCode c) (wr_failureCode r), wr_updatedAt := clock 0\<rparr>"
      "workflowRun_ok is_uuid u" "x = Inr ()"
      "wd_runs deps' = Some (AList.update (run_key (tp_tenantId c) (tp_workflowId c)) u runs)"
proof -
  define prior where "prior = (case run of None \<Rightarrow> Requested | Some r \<Rightarrow> wr_state r)"
  define target where "target = callbackTypeToState (cb_type c)"
  show thesis
  proof (cases "target \<in> set (ALLOWED_TRANSITIONS prior)")
    case False
    then show ?thesis using assms unchanged
      by (auto simp: callback_transition_def prior_def [symmetric] target_def [symmetric]
          validateWorkflowTransition_def Let_def)
  next
    case True
    define res where "res = runs_transitionState is_uuid (tp_tenantId c) (tp_workflowId c) prior target
        (cb_failureCode c) (clock 0) runs"
    have eff: "(x, deps') = or_throw res deps (\<lambda>(updated, runs').
        if updated = None \<and> prior \<noteq> target
        then (Inl (ConflictError
                (''Concurrent state transition detected for workflow '' @
                 in_quotes (tp_workflowId c) @ ''. Retry with latest state.'')),
              deps\<lparr>wd_runs := Some runs'\<rparr>)
        else (Inr (), deps\<lparr>wd_runs := Some runs'\<rparr>))"
      using assms True
      by (simp add: callback_transition_def prior_def [symmetric] target_def [symmetric] res_def
          validateWorkflowTransition_def Let_def)
    show ?thesis
    proof (cases res)
      case (Inl e)
      with eff assms(2) unchanged show ?thesis by auto
    next
      case (Inr ur)
      then obtain updated runs' where ur: "res = Inr (updated, runs')" by (cases ur) auto
      show ?thesis
      proof (cases updated)
        case None
        with ur have "runs' = runs" unfolding res_def by (auto dest: transition_None)
        with eff ur unchanged show ?thesis by (auto split: if_splits)
      next
        case (Some u)
        with ur have "runs_transitionState is_uuid (tp_tenantId c) (tp_workflowId c) prior target
            (cb_failureCode c) (clock 0) runs = Inr (Some u, runs')" by (simp add: res_def)
        then obtain r where "map_of runs (run_key (tp_tenantId c) (tp_workflowId c)) = Some r"
            "wr_state r = prior" "workflowRun_ok is_uuid u"
            "u = r\<lparr>wr_state := target, wr_failureCode := nullish (cb_failureCode c) (wr_failureCode r),
                   wr_updatedAt := clock 0\<rparr>"
            "runs' = AList.update (run_key (tp_tenantId c) (tp_workflowId c)) u runs"
          by (rule transition_Some)
        with moved eff ur Some True show ?thesis by (simp add: target_def)
      qed
    qed
  qed
qed

text \<open>
  The steps that reach a run: a provisioning request, or the state change of a callback that read
  the run at any earlier time.
\<close>

inductive runs_step :: "(string \<Rightarrow> bool) \<Rightarrow> workflowRuns \<Rightarrow> workflowRuns \<Rightarrow> bool" for is_uuid where
  run_requested: "runs_upsertRequested is_uuid t w d uuid now runs = Inr (r, runs') \<Longrightarrow>
    runs_step is_uuid runs runs'"
| run_callback: "callback_transition is_uuid clock c run deps = (x, deps') \<Longrightarrow>
    wd_runs deps = Some runs \<Longrightarrow> wd_runs deps' = Some runs' \<Longrightarrow> runs_step is_uuid runs runs'"

lemma upsert_effect:
  assumes "runs_upsertRequested is_uuid t w d uuid now runs = Inr (r, runs')"
  obtains (existing) "map_of runs (run_key t w) = Some r" "runs' = runs"
  | (created) "map_of runs (run_key t w) = None" "workflowRun_ok is_uuid r"
      "wr_tenantId r = t" "wr_workflowId r = w" "wr_dedupeKey r = d" "wr_state r = Requested"
      "runs' = AList.update (run_key t w) r runs"
  using assms
  by (auto simp: runs_upsertRequested_def workflowRunSchema_parse_def Let_def split: option.splits)

text \<open>Every step either leaves the runs alone, adds one, or moves one along the state machine.\<close>

lemma runs_step_effect:
  assumes "runs_step is_uuid runs runs'" and "runs_inv is_uuid runs"
  obtains (same) "runs' = runs"
  | (new) k r where "map_of runs k = None" "runs' = AList.update k r runs" "workflowRun_ok is_uuid r"
      "k = run_key (wr_tenantId r) (wr_workflowId r)"
  | (move) k r u where "map_of runs k = Some r" "runs' = AList.update k u runs" "workflowRun_ok is_uuid u"
      "wr_state u \<in> set (ALLOWED_TRANSITIONS (wr_state r))" "wr_id u = wr_id r"
      "wr_tenantId u = wr_tenantId r" "wr_workflowId u = wr_workflowId r"
      "wr_dedupeKey u = wr_dedupeKey r" "wr_createdAt u = wr_createdAt r"
      "k = run_key (wr_tenantId u) (wr_workflowId u)"
  using assms
proof cases
  case (run_requested t w d uuid now r)
  then show ?thesis by (cases rule: upsert_effect) (use same new in auto)
next
  case (run_callback clock c run deps x deps')
  from run_callback(1,2) show ?thesis
  proof (cases rule: callback_transition_effect)
    case unchanged
    with run_callback(3) same show ?thesis by simp
  next
    case (moved r a u)
    with assms(2) have "run_key (tp_tenantId c) (tp_workflowId c) = run_key (wr_tenantId r) (wr_workflowId r)"
      by (simp add: runs_inv_def)
    with moved run_callback(3) move [OF moved(1), of u] show ?thesis by simp
  qed
qed

lemma runs_step_inv: "runs_step is_uuid runs runs' \<Longrightarrow> runs_inv is_uuid runs \<Longrightarrow> runs_inv is_uuid runs'"
  by (erule runs_step_effect) (auto intro: runs_inv_update)

definition run_state_at :: "workflowRuns \<Rightarrow> string \<Rightarrow> workflowRunState option" where
  "run_state_at runs k = map_option wr_state (map_of runs k)"

definition run_identity_at :: "workflowRuns \<Rightarrow> string \<Rightarrow> (string \<times> string \<times> date) option" where
  "run_identity_at runs k = map_option (\<lambda>r. (wr_id r, wr_dedupeKey r, wr_createdAt r)) (map_of runs k)"

definition finished_run_at :: "workflowRuns \<Rightarrow> string \<Rightarrow> workflowRun option" where
  "finished_run_at runs k =
     (case map_of runs k of
        Some r \<Rightarrow> if isTerminalState (wr_state r) then Some r else None
      | None \<Rightarrow> None)"

interpretation run_life: lifecycle
  "runs_step is_uuid" "runs_inv is_uuid" run_state_at "\<lambda>a b. b \<in> set (ALLOWED_TRANSITIONS a)" for is_uuid
proof (unfold_locales, goal_cases)
  case (1 s t)
  then show ?case by (rule runs_step_inv)
next
  case (2 s t k a)
  from 2(1,2) show ?case
    by (cases rule: runs_step_effect) (use 2(3) in \<open>auto simp: run_state_at_def update_conv\<close>)
qed

interpretation run_identity: append_only "runs_step is_uuid" "runs_inv is_uuid" run_identity_at for is_uuid
proof (unfold_locales, goal_cases)
  case (1 s t)
  then show ?case by (rule runs_step_inv)
next
  case (2 s t k a)
  from 2(1,2) show ?case
    by (cases rule: runs_step_effect) (use 2(3) in \<open>auto simp: run_identity_at_def update_conv\<close>)
qed

interpretation run_finished: append_only "runs_step is_uuid" "runs_inv is_uuid" finished_run_at for is_uuid
proof (unfold_locales, goal_cases)
  case (1 s t)
  then show ?case by (rule runs_step_inv)
next
  case (2 s t k a)
  from 2(1,2) show ?case
    by (cases rule: runs_step_effect)
      (use 2(3) in \<open>auto simp: finished_run_at_def update_conv dest: transition_not_terminal
         split: option.splits if_splits\<close>)
qed

section \<open>Properties\<close>

text \<open>
  C6. Runs follow the state machine under any interleaving of provisioning requests and callbacks,
  including callbacks that act on a stale read: a run is never lost, keeps its id, dedupe key and
  creation time, its state moves only along the allowed transitions, and a finished run is never
  written again.
\<close>

theorem workflow_runs_follow_state_machine:
  assumes "runs_inv is_uuid runs" and "(runs_step is_uuid)\<^sup>*\<^sup>* runs runs'" and "map_of runs k = Some r"
  shows "\<exists>r'. map_of runs' k = Some r' \<and>
    (\<lambda>a b. b \<in> set (ALLOWED_TRANSITIONS a))\<^sup>*\<^sup>* (wr_state r) (wr_state r') \<and>
    wr_id r' = wr_id r \<and> wr_dedupeKey r' = wr_dedupeKey r \<and> wr_createdAt r' = wr_createdAt r \<and>
    (isTerminalState (wr_state r) \<longrightarrow> r' = r)"
proof -
  from assms(3) have s: "run_state_at runs k = Some (wr_state r)"
    and i: "run_identity_at runs k = Some (wr_id r, wr_dedupeKey r, wr_createdAt r)"
    by (simp_all add: run_state_at_def run_identity_at_def)
  from run_life.steps_status [OF assms(2,1) s] obtain r' where r': "map_of runs' k = Some r'"
      "(\<lambda>a b. b \<in> set (ALLOWED_TRANSITIONS a))\<^sup>*\<^sup>* (wr_state r) (wr_state r')"
    by (auto simp: run_state_at_def)
  have "run_identity_at runs' k = Some (wr_id r, wr_dedupeKey r, wr_createdAt r)"
    by (rule run_identity.ledger.terminal_stays [OF assms(2,1) i]) simp
  moreover have "r' = r" if "isTerminalState (wr_state r)"
  proof -
    from that assms(3) have "finished_run_at runs k = Some r" by (simp add: finished_run_at_def)
    then have "finished_run_at runs' k = Some r"
      by (rule run_finished.ledger.terminal_stays [OF assms(2,1)]) simp
    with r'(1) show ?thesis by (simp add: finished_run_at_def split: if_splits)
  qed
  ultimately show ?thesis using r' by (auto simp: run_identity_at_def)
qed

definition example_run :: workflowRun where
  "example_run =
     \<lparr>wr_id = ''1a'', wr_tenantId = ''aa'', wr_workflowId = ''w'', wr_dedupeKey = ''d'',
      wr_state = Requested, wr_failureCode = None, wr_createdAt = 0, wr_updatedAt = 0\<rparr>"

definition example_callback :: tpCallback where
  "example_callback =
     \<lparr>tp_tenantId = ''aa'', tp_workflowId = ''w'', tp_dedupeKey = ''d'', tp_tenantExternalId = ''x'',
      tp_tenantName = ''n'', tp_requestedBy = ''u'', cb_callbackId = ''c'', cb_callbackType = Some Progress,
      cb_runtimeRunId = None, cb_progressStep = None, cb_progressMessage = None,
      cb_progressPercent = None, cb_failureCode = None, cb_failureMessage = None\<rparr>"

definition example_deps :: "workflowDeps" where
  "example_deps =
     \<lparr>wd_outbox = Some empty_outbox, wd_runs = Some [(''aa:w'', example_run)],
      wd_helloDispatched = None, wd_tpDispatched = None, wd_secret = Some ''s''\<rparr>"

lemmas example_workflow_defs = example_run_def example_callback_def example_deps_def run_key_def
  colon_key_def

lemma example_runs_inv: "runs_inv hex_id [(''aa:w'', example_run)]"
  by (simp add: runs_inv_def workflowRun_ok_def example_workflow_defs hex_id_def)

lemma example_transition:
  "callback_transition hex_id (\<lambda>_. 7) (example_callback\<lparr>cb_callbackType := Some FailedCallback\<rparr>)
     (Some example_run) example_deps =
   (Inr (), example_deps\<lparr>wd_runs := Some [(''aa:w'', example_run\<lparr>wr_state := Failed, wr_updatedAt := 7\<rparr>)]\<rparr>)"
  by (simp add: callback_transition_def runs_transitionState_def workflowRunSchema_parse_def zod_parse_def
      workflowRun_ok_def validateWorkflowTransition_def example_workflow_defs hex_id_def)

theorem workflow_runs_follow_state_machine_witness:
  "\<exists>runs r'. (runs_step hex_id)\<^sup>*\<^sup>* [(''aa:w'', example_run)] runs \<and> map_of runs ''aa:w'' = Some r' \<and>
     wr_state r' = Failed \<and> wr_id r' = ''1a''"
proof -
  have step: "runs_step hex_id [(''aa:w'', example_run)]
      [(''aa:w'', example_run\<lparr>wr_state := Failed, wr_updatedAt := 7\<rparr>)]"
    using runs_step.run_callback [OF example_transition] by (simp add: example_deps_def)
  from workflow_runs_follow_state_machine [OF example_runs_inv r_into_rtranclp [of "runs_step hex_id", OF step],
      of "''aa:w''" example_run]
  show ?thesis using step by (auto simp: example_run_def)
qed

lemma terminal_run_refuses:
  assumes "wd_runs deps = Some runs" and "map_of runs (run_key (tp_tenantId c) (tp_workflowId c)) = Some r"
    and "isTerminalState (wr_state r)" and "isTerminalState (callbackTypeToState (cb_type c))"
  shows "\<exists>m. callback_transition is_uuid clock c run deps = (Inl (ConflictError m), deps)"
proof -
  define prior where "prior = (case run of None \<Rightarrow> Requested | Some r \<Rightarrow> wr_state r)"
  define target where "target = callbackTypeToState (cb_type c)"
  show ?thesis
  proof (cases "target \<in> set (ALLOWED_TRANSITIONS prior)")
    case False
    with assms(1) show ?thesis
      by (simp add: callback_transition_def prior_def [symmetric] target_def [symmetric]
          validateWorkflowTransition_def Let_def)
  next
    case True
    then have "prior \<noteq> target" using assms(4) transition_not_terminal target_def by blast
    with True assms(1) transition_terminal [OF assms(2,3)] show ?thesis
      by (simp add: callback_transition_def prior_def [symmetric] target_def [symmetric]
          validateWorkflowTransition_def Let_def)
  qed
qed

text \<open>
  Only one terminal callback wins: once a callback that completes or fails a run has been
  accepted, every later terminal callback for that run is answered with a conflict and changes
  nothing, whatever happened in between and however old the state it read.
\<close>

theorem terminal_callback_wins_once:
  assumes "runs_inv is_uuid runs" and "wd_runs deps = Some runs"
    and "callback_transition is_uuid clock c run deps = (Inr (), deps1)"
    and "isTerminalState (callbackTypeToState (cb_type c))"
    and "wd_runs deps1 = Some runs1" and "(runs_step is_uuid)\<^sup>*\<^sup>* runs1 runs2" and "wd_runs deps2 = Some runs2"
    and "tp_tenantId c' = tp_tenantId c" and "tp_workflowId c' = tp_workflowId c"
    and "isTerminalState (callbackTypeToState (cb_type c'))"
  shows "\<exists>m. callback_transition is_uuid clock' c' run' deps2 = (Inl (ConflictError m), deps2)"
proof -
  define k where "k = run_key (tp_tenantId c) (tp_workflowId c)"
  have accepted: "\<exists>u. map_of runs1 k = Some u \<and> isTerminalState (wr_state u)"
    using assms(3,2)
  proof (cases rule: callback_transition_effect)
    case unchanged
    with assms(5) have same: "runs1 = runs" by simp
    show ?thesis
    proof (rule ccontr)
      assume no: "\<not> ?thesis"
      define prior where "prior = (case run of None \<Rightarrow> Requested | Some r \<Rightarrow> wr_state r)"
      have allowed: "callbackTypeToState (cb_type c) \<in> set (ALLOWED_TRANSITIONS prior)"
        using assms(2,3)
        by (auto simp: callback_transition_def prior_def [symmetric] validateWorkflowTransition_def Let_def
            split: if_splits)
      then have "prior \<noteq> callbackTypeToState (cb_type c)"
        using assms(4) transition_not_terminal by blast
      with assms(2,3) allowed obtain u where tr: "runs_transitionState is_uuid (tp_tenantId c) (tp_workflowId c)
          prior (callbackTypeToState (cb_type c)) (cb_failureCode c) (clock 0) runs = Inr (Some u, runs1)"
        using assms(5)
        by (auto simp: callback_transition_def prior_def [symmetric] validateWorkflowTransition_def
            or_throw_Inr Let_def split: if_splits)
      then show False
        by (rule transition_Some) (use no assms(4) in \<open>auto simp: k_def update_conv\<close>)
    qed
  next
    case (moved r a u)
    with assms(4,5) show ?thesis by (auto simp: k_def update_conv)
  qed
  then obtain u where u: "map_of runs1 k = Some u" "isTerminalState (wr_state u)" by blast
  have "runs_inv is_uuid runs1"
    using runs_step_inv [OF run_callback [OF assms(3,2,5)] assms(1)] .
  with u assms(6) have "finished_run_at runs2 k = Some u"
    using run_finished.ledger.terminal_stays [of is_uuid runs1 runs2 k u]
    by (simp add: finished_run_at_def)
  then have "map_of runs2 (run_key (tp_tenantId c') (tp_workflowId c')) = Some u"
    using assms(8,9) by (simp add: k_def finished_run_at_def split: option.splits if_splits)
  from terminal_run_refuses [OF assms(7) this u(2) assms(10)] show ?thesis .
qed

theorem terminal_callback_wins_once_witness:
  "\<exists>m. callback_transition hex_id (\<lambda>_. 9) (example_callback\<lparr>cb_callbackType := None\<rparr>) (Some example_run)
     (example_deps\<lparr>wd_runs := Some [(''aa:w'', example_run\<lparr>wr_state := Failed, wr_updatedAt := 7\<rparr>)]\<rparr>) =
   (Inl (ConflictError m),
    example_deps\<lparr>wd_runs := Some [(''aa:w'', example_run\<lparr>wr_state := Failed, wr_updatedAt := 7\<rparr>)]\<rparr>)"
  by (rule terminal_callback_wins_once [OF example_runs_inv _ example_transition])
    (auto simp: example_deps_def example_callback_def isTerminalState_def)

section \<open>Handlers\<close>

lemma workflow_event_types:
  "outboxEventType_ok ''workflow.tenant_provisioning.requested.v1''"
  "outboxEventType_ok ''workflow.tenant_provisioning.progress.v1''"
  "outboxEventType_ok ''workflow.tenant_provisioning.completed.v1''"
  "outboxEventType_ok ''workflow.tenant_provisioning.failed.v1''"
  by code_simp+

lemma callback_parse_stable:
  assumes "tenantProvisioningRuntimeCallbackSchema_parse is_uuid c = Inr p"
  shows "tenantProvisioningRuntimeCallbackSchema_parse is_uuid p = Inr p"
    "tenantProvisioningRuntimeCallback_ok is_uuid p" "cb_callbackType p \<noteq> None"
  using assms by (auto simp: tenantProvisioningRuntimeCallbackSchema_parse_def)

text \<open>On a parsed callback the command builders succeed and their commands are accepted.\<close>

lemma progress_command_valid:
  assumes "tenantProvisioningRuntimeCallbackSchema_parse is_uuid p = Inr p"
  shows "\<exists>cmd. createTenantProvisioningProgressOutboxCommand is_uuid p now = Inr cmd \<and>
    enqueueOutboxEvent_ok is_uuid cmd \<and> oc_tenantId cmd = tp_tenantId p \<and>
    oc_eventType cmd = ''workflow.tenant_provisioning.progress.v1''"
  using assms workflow_event_types(2)
  by (auto simp: createTenantProvisioningProgressOutboxCommand_def enqueueOutboxEvent_ok_def
      tenantProvisioningRuntimeCallbackSchema_parse_def tenantProvisioningRuntimeCallback_ok_def
      tenantProvisioningWorkflowInput_ok_def)

definition terminal_event_type :: "callbackType \<Rightarrow> string" where
  "terminal_event_type t =
     (if t = FailedCallback then ''workflow.tenant_provisioning.failed.v1''
      else ''workflow.tenant_provisioning.completed.v1'')"

lemma terminal_command_valid:
  assumes "tenantProvisioningRuntimeCallbackSchema_parse is_uuid p = Inr p"
  shows "\<exists>cmd. terminal_command is_uuid clock p = Inr cmd \<and>
    enqueueOutboxEvent_ok is_uuid cmd \<and> oc_tenantId cmd = tp_tenantId p \<and>
    oc_eventType cmd = terminal_event_type (cb_type p)"
  using assms workflow_event_types(3,4)
  by (auto simp: terminal_command_def createTenantProvisioningFailedOutboxCommand_def
      createTenantProvisioningCompletedOutboxCommand_def enqueueOutboxEvent_ok_def
      acceptTenantProvisioningWorkflowDeterministic_def tenantProvisioningWorkflowInputSchema_parse_def
      tenantProvisioningWorkflowResult_ok_def tenantProvisioningRuntimeCallbackSchema_parse_def
      tenantProvisioningRuntimeCallback_ok_def tenantProvisioningWorkflowInput_ok_def
      terminal_event_type_def tpInput.truncate_def zod_parse_def colon_key_def)

text \<open>An accepted callback files both events, for every outbox and every clock.\<close>

lemma callback_emit_spec:
  assumes "uuid_format is_uuid" and inv: "outbox_inv is_uuid ob" and ob: "wd_outbox deps = Some ob"
    and p: "tenantProvisioningRuntimeCallbackSchema_parse is_uuid p = Inr p"
  obtains resp ob2 pc tc e where
    "callback_emit is_uuid clock p deps = (Inr resp, deps\<lparr>wd_outbox := Some ob2\<rparr>)"
    "outbox_inv is_uuid ob2" "wf_eventType resp = terminal_event_type (cb_type p)"
    "createTenantProvisioningProgressOutboxCommand is_uuid p (clock 1) = Inr pc"
    "terminal_command is_uuid clock p = Inr tc"
    "find_existing (ob_events ob2) (command_key pc) \<noteq> None"
    "find_existing (ob_events ob2) (command_key tc) = Some e" "wf_eventId resp = oe_id e"
proof -
  obtain pc where pc: "createTenantProvisioningProgressOutboxCommand is_uuid p (clock 1) = Inr pc"
      "enqueueOutboxEvent_ok is_uuid pc"
    using progress_command_valid [OF p] by blast
  obtain tc where tc: "terminal_command is_uuid clock p = Inr tc" "enqueueOutboxEvent_ok is_uuid tc"
      "oc_eventType tc = terminal_event_type (cb_type p)"
    using terminal_command_valid [OF p] by blast
  obtain e1 ob1 where e1: "outbox_enqueue is_uuid pc (clock 2) ob = Inr (e1, ob1)" "outbox_inv is_uuid ob1"
      "find_existing (ob_events ob1) (command_key pc) = Some e1"
    using enqueue_valid_succeeds [OF inv pc(2)] by blast
  obtain e2 ob2 where e2: "outbox_enqueue is_uuid tc (clock 5) ob1 = Inr (e2, ob2)" "outbox_inv is_uuid ob2"
      "find_existing (ob_events ob2) (command_key tc) = Some e2"
    using enqueue_valid_succeeds [OF e1(2) tc(2)] by blast
  have "callback_emit is_uuid clock p deps =
      (Inr (workflow_response (tp_workflowId p)
         (Some (cb_callbackId p, cb_type p, callbackTypeToState (cb_type p))) e2), deps\<lparr>wd_outbox := Some ob2\<rparr>)"
    by (simp add: callback_emit_def ob pc(1) tc(1) e1(1) e2(1) del: One_nat_def)
  moreover have "oe_eventType e2 = terminal_event_type (cb_type p)"
    using filed_event_type(2) [OF assms(1) e2(2) tc(2) e2(3)] tc(3) by simp
  ultimately show thesis
    using that [of _ ob2 pc tc e2] e2 enqueue_keeps_filed [OF e1(2) e2(1) e1(3)] pc(1) tc(1)
    by (metis (no_types, lifting) option.distinct(1) workflow_response_def workflowResponse.select_convs(4,5))
qed

lemma fresh_transition:
  assumes "runs_inv is_uuid runs" and "wd_runs deps = Some runs"
    and "map_of runs (run_key (tp_tenantId c) (tp_workflowId c)) = Some r" and "\<not> isTerminalState (wr_state r)"
  shows "callback_transition is_uuid clock c (Some r) deps = (Inr (), deps\<lparr>wd_runs := Some (AList.update
    (run_key (tp_tenantId c) (tp_workflowId c))
    (r\<lparr>wr_state := callbackTypeToState (cb_type c),
       wr_failureCode := nullish (cb_failureCode c) (wr_failureCode r), wr_updatedAt := clock 0\<rparr>) runs)\<rparr>)"
  using assms callback_target_allowed [OF assms(4), of "cb_type c"]
  by (auto simp: callback_transition_def runs_transitionState_def workflowRunSchema_parse_def zod_parse_def
      validateWorkflowTransition_def runs_inv_def workflowRun_ok_def isTerminalState_def Let_def)

lemma absent_run_conflict:
  assumes "wd_runs deps = Some runs" and "map_of runs (run_key (tp_tenantId c) (tp_workflowId c)) = None"
  shows "\<exists>m. callback_transition is_uuid clock c None deps = (Inl (ConflictError m), deps)"
  using assms
  by (cases "cb_type c")
    (simp_all add: callback_transition_def runs_transitionState_def validateWorkflowTransition_def Let_def)

lemma terminal_run_conflict:
  assumes "wd_runs deps = Some runs" and "isTerminalState (wr_state r)"
  shows "\<exists>m. callback_transition is_uuid clock c (Some r) deps = (Inl (ConflictError m), deps)"
  using assms terminal_iff_no_transition
  by (simp add: callback_transition_def validateWorkflowTransition_def Let_def)

lemma callback_payload_parsed:
  assumes "callback_payload is_uuid J hmac f sig raw deps = Inr p"
  shows "tenantProvisioningRuntimeCallbackSchema_parse is_uuid p = Inr p"
  using assms callback_parse_stable(1) by (auto simp: callback_payload_def)

lemma callback_accepted:
  assumes "uuid_format is_uuid" and "outbox_inv is_uuid ob" and "runs_inv is_uuid runs"
    and "wd_outbox deps = Some ob" and "wd_runs deps = Some runs"
    and "callback_payload is_uuid JSON_parse hmac id signature rawPayload deps = Inr p"
    and "runs_getByWorkflowId (tp_tenantId p) (tp_workflowId p) runs = Some r" and "\<not> isTerminalState (wr_state r)"
  obtains resp ob2 runs2 r2 pc tc e where
    "post_runtime_callback is_uuid JSON_parse hmac clock signature rawPayload deps =
       (Inr resp, deps\<lparr>wd_outbox := Some ob2, wd_runs := Some runs2\<rparr>)"
    "runs_getByWorkflowId (tp_tenantId p) (tp_workflowId p) runs2 = Some r2"
    "wr_state r2 = callbackTypeToState (cb_type p)"
    "wr_failureCode r2 = nullish (cb_failureCode p) (wr_failureCode r)"
    "wf_eventType resp = terminal_event_type (cb_type p)"
    "createTenantProvisioningProgressOutboxCommand is_uuid p (clock 1) = Inr pc"
    "terminal_command is_uuid clock p = Inr tc"
    "find_existing (ob_events ob2) (command_key pc) \<noteq> None"
    "find_existing (ob_events ob2) (command_key tc) = Some e" "wf_eventId resp = oe_id e"
proof -
  define r2 where "r2 = r\<lparr>wr_state := callbackTypeToState (cb_type p),
       wr_failureCode := nullish (cb_failureCode p) (wr_failureCode r), wr_updatedAt := clock 0\<rparr>"
  define runs2 where "runs2 = AList.update (run_key (tp_tenantId p) (tp_workflowId p)) r2 runs"
  have tr: "callback_transition is_uuid clock p (Some r) deps = (Inr (), deps\<lparr>wd_runs := Some runs2\<rparr>)"
    unfolding runs2_def r2_def using fresh_transition [OF assms(3,5) _ assms(8)] assms(7)
    by (simp add: runs_getByWorkflowId_def)
  have ob: "wd_outbox (deps\<lparr>wd_runs := Some runs2\<rparr>) = Some ob" using assms(4) by simp
  obtain resp ob2 pc tc e where emit:
      "callback_emit is_uuid clock p (deps\<lparr>wd_runs := Some runs2\<rparr>) =
         (Inr resp, deps\<lparr>wd_runs := Some runs2, wd_outbox := Some ob2\<rparr>)"
      "outbox_inv is_uuid ob2" "wf_eventType resp = terminal_event_type (cb_type p)"
      "createTenantProvisioningProgressOutboxCommand is_uuid p (clock 1) = Inr pc"
      "terminal_command is_uuid clock p = Inr tc"
      "find_existing (ob_events ob2) (command_key pc) \<noteq> None"
      "find_existing (ob_events ob2) (command_key tc) = Some e" "wf_eventId resp = oe_id e"
    by (rule callback_emit_spec [OF assms(1,2) ob callback_payload_parsed [OF assms(6)], of clock])
  have "post_runtime_callback is_uuid JSON_parse hmac clock signature rawPayload deps =
      (Inr resp, deps\<lparr>wd_outbox := Some ob2, wd_runs := Some runs2\<rparr>)"
    using assms(4-7) tr emit(1) by (simp add: post_runtime_callback_def)
  moreover have "runs_getByWorkflowId (tp_tenantId p) (tp_workflowId p) runs2 = Some r2"
    by (simp add: runs_getByWorkflowId_def runs2_def update_conv)
  moreover have "wr_state r2 = callbackTypeToState (cb_type p)"
      "wr_failureCode r2 = nullish (cb_failureCode p) (wr_failureCode r)"
    by (simp_all add: r2_def)
  ultimately show thesis using emit(3-8) by (rule that)
qed

text \<open>
  C7. The outcome of a callback request with a valid signature and body is decided by the stored run:
  an unknown or finished run is a conflict that changes nothing; otherwise the run moves to the
  state the callback names, with the failure code it carries, and both the progress event and the
  terminal event are in the outbox, the response naming the latter.
\<close>

theorem runtime_callback_outcome:
  assumes "uuid_format is_uuid" and "outbox_inv is_uuid ob" and "runs_inv is_uuid runs"
    and "wd_outbox deps = Some ob" and "wd_runs deps = Some runs"
    and "callback_payload is_uuid JSON_parse hmac id signature rawPayload deps = Inr p"
  shows "case runs_getByWorkflowId (tp_tenantId p) (tp_workflowId p) runs of
      None \<Rightarrow> \<exists>m. post_runtime_callback is_uuid JSON_parse hmac clock signature rawPayload deps =
                (Inl (ConflictError m), deps)
    | Some r \<Rightarrow>
        if isTerminalState (wr_state r)
        then \<exists>m. post_runtime_callback is_uuid JSON_parse hmac clock signature rawPayload deps =
               (Inl (ConflictError m), deps)
        else \<exists>resp ob2 runs2 r2 pc tc e.
          post_runtime_callback is_uuid JSON_parse hmac clock signature rawPayload deps =
            (Inr resp, deps\<lparr>wd_outbox := Some ob2, wd_runs := Some runs2\<rparr>) \<and>
          runs_getByWorkflowId (tp_tenantId p) (tp_workflowId p) runs2 = Some r2 \<and>
          wr_state r2 = callbackTypeToState (cb_type p) \<and>
          wr_failureCode r2 = nullish (cb_failureCode p) (wr_failureCode r) \<and>
          createTenantProvisioningProgressOutboxCommand is_uuid p (clock 1) = Inr pc \<and>
          terminal_command is_uuid clock p = Inr tc \<and>
          find_existing (ob_events ob2) (command_key pc) \<noteq> None \<and>
          find_existing (ob_events ob2) (command_key tc) = Some e \<and> wf_eventId resp = oe_id e"
proof (cases "runs_getByWorkflowId (tp_tenantId p) (tp_workflowId p) runs")
  case None
  then have "map_of runs (run_key (tp_tenantId p) (tp_workflowId p)) = None"
    by (simp add: runs_getByWorkflowId_def)
  from absent_run_conflict [OF assms(5) this] obtain m
    where "callback_transition is_uuid clock p None deps = (Inl (ConflictError m), deps)" by blast
  with None assms show ?thesis by (simp add: post_runtime_callback_def)
next
  case (Some r)
  show ?thesis
  proof (cases "isTerminalState (wr_state r)")
    case True
    with terminal_run_conflict [OF assms(5)] obtain m
      where "callback_transition is_uuid clock p (Some r) deps = (Inl (ConflictError m), deps)" by blast
    with Some True assms show ?thesis by (simp add: post_runtime_callback_def)
  next
    case False
    show ?thesis
      by (rule callback_accepted [OF assms Some False, of clock]) (use Some False in \<open>simp only: option.case if_False, blast\<close>)
  qed
qed

text \<open>A request body for the examples, with the parser and the digest that fit it.\<close>

definition example_body :: json where
  "example_body =
     JObj [(''tenantId'', JStr ''aa''), (''workflowId'', JStr ''w''), (''dedupeKey'', JStr ''d''),
           (''tenantExternalId'', JStr ''x''), (''tenantName'', JStr ''n''), (''requestedBy'', JStr ''u''),
           (''callbackId'', JStr ''c''), (''callbackType'', JStr ''progress'')]"

lemma example_payload:
  "callback_payload hex_id (\<lambda>_. Inr example_body) (\<lambda>secret body. ''f0'') id (Some '' f0 '') ''{}'' example_deps =
     Inr example_callback"
  by (simp add: callback_payload_def check_signature_def isRuntimeCallbackSignatureValid_def
      trim_def is_space_def utf8_length_def tpCallback_of_json_def tpInput_of_json_def example_body_def
      callback_of_name_def tpInput.extend_def tenantProvisioningRuntimeCallback_ok_def
      tenantProvisioningWorkflowInput_ok_def tenantProvisioningRuntimeCallbackSchema_parse_def
      example_callback_def example_deps_def hex_id_def Let_def)

lemma example_run_found:
  "runs_getByWorkflowId (tp_tenantId example_callback) (tp_workflowId example_callback)
     [(''aa:w'', example_run)] = Some example_run"
  by (simp add: runs_getByWorkflowId_def example_workflow_defs)

theorem runtime_callback_outcome_witness:
  "\<exists>resp deps'. post_runtime_callback hex_id (\<lambda>_. Inr example_body) (\<lambda>secret body. ''f0'') (\<lambda>_. 7)
       (Some '' f0 '') ''{}'' example_deps = (Inr resp, deps')"
  using runtime_callback_outcome [OF uuid_format_hex_id outbox_inv_empty example_runs_inv _ _ example_payload,
      of "\<lambda>_. 7"] example_run_found
  by (auto simp: example_deps_def isTerminalState_def example_run_def)

text \<open>
  A progress callback on the runtime-callback route leaves its run in progress, yet the event it
  announces, and files in the outbox, is the completion of the workflow.
\<close>

theorem progress_callback_announces_completion:
  assumes "uuid_format is_uuid" and "outbox_inv is_uuid ob" and "runs_inv is_uuid runs"
    and "wd_outbox deps = Some ob" and "wd_runs deps = Some runs"
    and "callback_payload is_uuid JSON_parse hmac id signature rawPayload deps = Inr p"
    and "runs_getByWorkflowId (tp_tenantId p) (tp_workflowId p) runs = Some r"
    and "\<not> isTerminalState (wr_state r)" and "cb_type p = Progress"
  shows "\<exists>resp ob2 runs2 r2.
    post_runtime_callback is_uuid JSON_parse hmac clock signature rawPayload deps =
      (Inr resp, deps\<lparr>wd_outbox := Some ob2, wd_runs := Some runs2\<rparr>) \<and>
    runs_getByWorkflowId (tp_tenantId p) (tp_workflowId p) runs2 = Some r2 \<and> wr_state r2 = InProgress \<and>
    wf_eventType resp = ''workflow.tenant_provisioning.completed.v1''"
  by (rule callback_accepted [OF assms(1-8), of clock])
    (use assms(9) in \<open>simp add: terminal_event_type_def del: One_nat_def\<close>, blast)

theorem progress_callback_announces_completion_witness:
  "\<exists>resp deps'. post_runtime_callback hex_id (\<lambda>_. Inr example_body) (\<lambda>secret body. ''f0'') (\<lambda>_. 7)
       (Some '' f0 '') ''{}'' example_deps = (Inr resp, deps') \<and>
     wf_eventType resp = ''workflow.tenant_provisioning.completed.v1''"
  using progress_callback_announces_completion [OF uuid_format_hex_id outbox_inv_empty example_runs_inv _ _
      example_payload example_run_found, of "\<lambda>_. 7"]
  by (auto simp: example_deps_def isTerminalState_def example_run_def example_callback_def)

text \<open>
  C8. With a callback secret configured, a request whose signature is missing or is not the digest of
  the raw body is refused by both callback routes before it touches the runs or the outbox.
\<close>

theorem forged_callback_rejected:
  assumes "wd_secret deps = Some secret" and "secret \<noteq> []"
    and "\<And>s. signature = Some s \<Longrightarrow> trim s \<noteq> hmac secret rawPayload"
  shows "(\<exists>e. post_runtime_callback is_uuid JSON_parse hmac clock signature rawPayload deps = (Inl e, deps)) \<and>
    (\<exists>e. post_runtime_progress is_uuid JSON_parse hmac clock signature rawPayload deps = (Inl e, deps))"
proof -
  have "\<exists>e. check_signature hmac (Some secret) rawPayload signature = Inl e"
    using assms(2,3)
    by (auto simp: check_signature_def isRuntimeCallbackSignatureValid_def Let_def simp del: and_then_Inl
        split: option.splits)
  then have "\<exists>e. callback_payload is_uuid JSON_parse hmac f signature rawPayload deps = Inl e" for f
    using assms(1) by (auto simp: callback_payload_def)
  then obtain e e' where "callback_payload is_uuid JSON_parse hmac id signature rawPayload deps = Inl e"
      "callback_payload is_uuid JSON_parse hmac with_progress_type signature rawPayload deps = Inl e'"
    by metis
  then show ?thesis
    by (auto simp: post_runtime_callback_def post_runtime_progress_def split: option.splits)
qed

theorem forged_callback_rejected_witness:
  "\<exists>e. post_runtime_callback hex_id (\<lambda>_. Inr example_body) (\<lambda>secret body. ''f0'') (\<lambda>_. 7)
     (Some ''f1'') ''{}'' example_deps = (Inl e, example_deps)"
  using forged_callback_rejected [of example_deps "''s''" "Some ''f1''" "\<lambda>secret body. ''f0''" "''{}''"]
  by (simp add: example_deps_def trim_def is_space_def)

section \<open>Provisioning requests are idempotent\<close>

interpretation request_once: idempotent_command
  "\<lambda>(t, w, d) (uuid, now) runs. runs_upsertRequested is_uuid t w d uuid now runs"
  "runs_inv is_uuid" "\<lambda>_ _. True" "(=)" for is_uuid
proof (unfold_locales, goal_cases)
  case (1 s e c r t)
  then show ?case
    by (cases c; cases e) (auto intro: runs_step_inv [OF runs_step.run_requested])
next
  case (2 s e c r t e')
  obtain a w d uuid now where c: "c = (a, w, d)" "e = (uuid, now)" by (metis prod_cases3 surj_pair)
  with 2 have "runs_upsertRequested is_uuid a w d uuid now s = Inr (r, t)" by simp
  then have "map_of t (run_key a w) = Some r"
    by (cases rule: upsert_effect) (simp_all add: update_conv)
  with c show ?case by (cases e') (simp add: runs_upsertRequested_def)
qed

lemma request_command_valid:
  assumes "tenantProvisioningWorkflowInput_ok is_uuid p"
  shows "\<exists>cmd. createTenantProvisioningWorkflowOutboxCommand is_uuid p now = Inr cmd \<and>
    enqueueOutboxEvent_ok is_uuid cmd \<and>
    command_key cmd = outboxIdempotencyKey (tp_tenantId p) ''workflow.tenant_provisioning.requested.v1''
      (tp_dedupeKey p)"
  using assms workflow_event_types(1)
  by (auto simp: createTenantProvisioningWorkflowOutboxCommand_def enqueueOutboxEvent_ok_def
      tenantProvisioningWorkflowInputSchema_parse_def tenantProvisioningWorkflowInput_ok_def zod_parse_def)

text \<open>
  A provisioning request can be repeated: once it has been accepted, sending the same body again,
  at any later time, is accepted with the same event, and neither the outbox nor the runs change.
\<close>

theorem provisioning_request_replay:
  assumes "outbox_inv is_uuid ob" and "wd_outbox deps = Some ob" and "wd_runs deps = Some runs"
    and "runs_inv is_uuid runs"
    and "post_tenant_provisioning is_uuid JSON_parse clock uuid rawPayload deps = (Inr resp, deps1)"
  shows "\<exists>deps2. post_tenant_provisioning is_uuid JSON_parse clock' uuid' rawPayload deps1 = (Inr resp, deps2) \<and>
    wd_outbox deps2 = wd_outbox deps1 \<and> wd_runs deps2 = wd_runs deps1"
proof -
  from assms(2,3,5) obtain p r runs1 cmd e ob1 where
      p: "and_then (and_then (JSON_parse rawPayload) tpInput_of_json)
            (tenantProvisioningWorkflowInputSchema_parse is_uuid) = Inr p"
    and up: "runs_upsertRequested is_uuid (tp_tenantId p) (tp_workflowId p) (tp_dedupeKey p) uuid (clock 0) runs =
        Inr (r, runs1)"
    and cmd: "createTenantProvisioningWorkflowOutboxCommand is_uuid p (clock 1) = Inr cmd"
    and enq: "outbox_enqueue is_uuid cmd (clock 2) ob = Inr (e, ob1)"
    and out: "resp = workflow_response (tp_workflowId p) None e" "wd_outbox deps1 = Some ob1"
      "wd_runs deps1 = Some runs1"
    by (auto simp: post_tenant_provisioning_def or_throw_Inr Let_def split: prod.splits)
  have ok: "tenantProvisioningWorkflowInput_ok is_uuid p"
    using p by (auto simp: tenantProvisioningWorkflowInputSchema_parse_def)
  have up': "runs_upsertRequested is_uuid (tp_tenantId p) (tp_workflowId p) (tp_dedupeKey p) uuid' (clock' 0) runs1 =
      Inr (r, runs1)"
    using request_once.run_replay [where s = runs and e = "(uuid, clock 0)" and r = r and t = runs1 and
        c = "(tp_tenantId p, tp_workflowId p, tp_dedupeKey p)" and e' = "(uuid', clock' 0)"] assms(4) up
    by simp
  obtain cmd' where cmd': "createTenantProvisioningWorkflowOutboxCommand is_uuid p (clock' 1) = Inr cmd'"
      "enqueueOutboxEvent_ok is_uuid cmd'" "command_key cmd' = command_key cmd"
    using request_command_valid [OF ok, of "clock' 1"] request_command_valid [OF ok, of "clock 1"] cmd by auto
  have "outbox_enqueue is_uuid cmd' (clock' 2) ob1 = Inr (e, ob1)"
    by (rule enqueue_replay [OF assms(1) enq cmd'(3,2)])
  with p up' cmd'(1) out show ?thesis
    by (simp add: post_tenant_provisioning_def Let_def del: and_then_Inr One_nat_def)
qed

theorem provisioning_request_replay_witness:
  "\<exists>resp deps1 deps2.
     post_tenant_provisioning hex_id (\<lambda>_. Inr example_body) (\<lambda>_. 7) ''1b'' ''{}'' example_deps = (Inr resp, deps1) \<and>
     post_tenant_provisioning hex_id (\<lambda>_. Inr example_body) (\<lambda>_. 8) ''1c'' ''{}'' deps1 = (Inr resp, deps2)"
proof -
  define p where "p = tpInput.truncate example_callback"
  have ok: "tenantProvisioningWorkflowInput_ok hex_id p"
    by (simp add: p_def example_callback_def tpInput.truncate_def tenantProvisioningWorkflowInput_ok_def hex_id_def)
  obtain cmd where cmd: "createTenantProvisioningWorkflowOutboxCommand hex_id p 7 = Inr cmd"
      "enqueueOutboxEvent_ok hex_id cmd"
    using request_command_valid [OF ok] by blast
  obtain e ob where enq: "outbox_enqueue hex_id cmd 7 empty_outbox = Inr (e, ob)"
    using enqueue_valid_succeeds [OF outbox_inv_empty cmd(2)] by blast
  have parsed: "and_then (tpInput_of_json example_body) (tenantProvisioningWorkflowInputSchema_parse hex_id) = Inr p"
    using ok by (simp add: tpInput_of_json_def example_body_def p_def example_callback_def tpInput.truncate_def
        tenantProvisioningWorkflowInputSchema_parse_def)
  have up: "runs_upsertRequested hex_id (tp_tenantId p) (tp_workflowId p) (tp_dedupeKey p) ''1b'' 7
      [(''aa:w'', example_run)] = Inr (example_run, [(''aa:w'', example_run)])"
    by (simp add: runs_upsertRequested_def p_def example_workflow_defs tpInput.truncate_def)
  have "\<exists>resp deps1. post_tenant_provisioning hex_id (\<lambda>_. Inr example_body) (\<lambda>_. 7) ''1b'' ''{}'' example_deps =
      (Inr resp, deps1)"
    using up parsed cmd(1) enq
    by (simp add: post_tenant_provisioning_def example_deps_def Let_def del: and_then_Inr)
  with provisioning_request_replay [OF outbox_inv_empty _ _ example_runs_inv, of example_deps]
  show ?thesis by (fastforce simp: example_deps_def)
qed

end
