(* ===== verification/ControlPlane.thy ===== *)
theory ControlPlane
  imports Harness
begin

text \<open>
  What the repositories of \<open>src/packages/db/src/adaptive-control-plane-repository.ts\<close> share: list
  limits, optional texts, currency codes and error messages. The enumerations of risks, decisions,
  directions, health states and healing actions that \<open>schema.ts\<close> repeats are those of \<open>Harness\<close>.
\<close>

definition DEFAULT_LIMIT :: number where
  "DEFAULT_LIMIT = 50"

definition MAX_LIMIT :: number where
  "MAX_LIMIT = 250"

definition normalizeLimit :: "number option \<Rightarrow> nat result" where
  "normalizeLimit limit =
     (let l = nullish_or limit DEFAULT_LIMIT
      in if is_positive_int l \<and> l \<le> MAX_LIMIT then Inr (nat \<lfloor>l\<rfloor>) else Inl ZodError)"

lemma normalizeLimit_bounds:
  assumes "normalizeLimit limit = Inr n"
  shows "0 < n \<and> n \<le> 250"
proof -
  define l where "l = nullish_or limit DEFAULT_LIMIT"
  from assms have l: "is_integer l" "0 < l" "l \<le> 250" "n = nat \<lfloor>l\<rfloor>"
    by (auto simp: normalizeLimit_def l_def [symmetric] is_positive_int_def MAX_LIMIT_def Let_def
        split: if_splits)
  from l(1) obtain k where "l = of_int k" by (rule is_integerE)
  with l(2-4) show ?thesis by auto
qed

lemma normalizeLimit_default: "normalizeLimit None = Inr 50"
  by (simp add: normalizeLimit_def DEFAULT_LIMIT_def MAX_LIMIT_def is_positive_int_def)

text \<open>
  \<open>toUpperCase\<close> on the 8-bit range: the sharp s becomes two letters; the two letters whose upper
  case lies outside the range are left alone.
\<close>

definition upper_char :: "char \<Rightarrow> string" where
  "upper_char c =
     (let n = (of_char c :: nat)
      in if 97 \<le> n \<and> n \<le> 122 \<or> 224 \<le> n \<and> n \<le> 254 \<and> n \<noteq> 247 then [char_of (n - 32)]
         else if n = 223 then ''SS'' else [c])"

definition toUpperCase :: "string \<Rightarrow> string" where
  "toUpperCase s = concat (map upper_char s)"

text \<open>\<open>${from} -> ${to}\<close> in the messages about refused transitions.\<close>

definition arrow_message :: "string \<Rightarrow> string \<Rightarrow> string \<Rightarrow> string" where
  "arrow_message prefix from to = prefix @ from @ '' -> '' @ to"

text \<open>Every repository method starts with \<open>tenantIdSchema.parse(tenantId)\<close>.\<close>

definition tenantIdSchema_parse :: "(string \<Rightarrow> bool) \<Rightarrow> string \<Rightarrow> string result" where
  "tenantIdSchema_parse is_uuid = zod_parse id is_uuid"

abbreviation trim_opt :: "string option \<Rightarrow> string option" where
  "trim_opt \<equiv> map_option trim"

abbreviation text_opt :: "string option \<Rightarrow> bool" where
  "text_opt \<equiv> pred_opt is_text"

lemma text_opt_trim [simp]: "trim_opt (trim_opt x) = trim_opt x"
  by (cases x) simp_all

lemma tenantIdSchema_parse_Inr [simp]: "tenantIdSchema_parse is_uuid t = Inr u \<longleftrightarrow> u = t \<and> is_uuid t"
  by (auto simp: tenantIdSchema_parse_def)

lemma tenantIdSchema_parse_valid: "is_uuid t \<Longrightarrow> tenantIdSchema_parse is_uuid t = Inr t"
  by simp

end
