(* ===== verification/Experiments.thy ===== *)
theory Experiments
  imports ControlPlane
begin

text \<open>
  Experiments, their assignments and observations: the schemas and the in-memory repository of
  \<open>src/packages/db/src/adaptive-control-plane-repository.ts\<close> and the evidence summary that the
  promotion gate reads. Each of the three collections is a \<open>store\<close> of the prelude; a parsed value
  keeps the type of its input, with trimmed texts and defaults filled in.
\<close>

section \<open>Schemas\<close>

datatype experimentStatus =
  ExDraft | ExRunning | ExPaused | ExConcluded | ExAbandoned | ExPromoted | ExRolledBack

datatype experimentVariant = VariantA | VariantB

datatype experimentWinner = WinnerA | WinnerB | Inconclusive

fun experiment_status_name :: "experimentStatus \<Rightarrow> string" where
  "experiment_status_name ExDraft = ''draft''"
| "experiment_status_name ExRunning = ''running''"
| "experiment_status_name ExPaused = ''paused''"
| "experiment_status_name ExConcluded = ''concluded''"
| "experiment_status_name ExAbandoned = ''abandoned''"
| "experiment_status_name ExPromoted = ''promoted''"
| "experiment_status_name ExRolledBack = ''rolled_back''"

record experimentRecord =
  ex_id :: string
  ex_tenantId :: string
  ex_experimentKey :: string
  ex_motion :: string
  ex_experimentType :: string
  ex_unitType :: string
  ex_hypothesis :: string
  ex_variantA :: json_record
  ex_variantB :: json_record
  ex_metricName :: string
  ex_metricDirection :: metricDirection
  ex_minSampleSize :: number
  ex_status :: experimentStatus
  ex_winner :: "experimentWinner option"
  ex_confidence :: "number option"
  ex_inputSnapshot :: json_record
  ex_modelVersion :: "string option"
  ex_promptVersion :: "string option"
  ex_playbookVersion :: "string option"
  ex_policyVersion :: "string option"
  ex_createdBy :: string
  ex_startedAt :: "date option"
  ex_endedAt :: "date option"
  ex_createdAt :: date
  ex_updatedAt :: date

definition experimentRecord_ok :: "(string \<Rightarrow> bool) \<Rightarrow> experimentRecord \<Rightarrow> bool" where
  "experimentRecord_ok is_uuid r \<longleftrightarrow>
     is_uuid (ex_id r) \<and> is_uuid (ex_tenantId r) \<and> is_text (ex_experimentKey r) \<and>
     is_text (ex_motion r) \<and> is_text (ex_experimentType r) \<and> is_text (ex_unitType r) \<and>
     is_text (ex_hypothesis r) \<and> is_text (ex_metricName r) \<and> is_positive_int (ex_minSampleSize r) \<and>
     pred_opt in_unit (ex_confidence r) \<and> is_text (ex_createdBy r)"

definition experimentRecordSchema_parse ::
  "(string \<Rightarrow> bool) \<Rightarrow> experimentRecord \<Rightarrow> experimentRecord result" where
  "experimentRecordSchema_parse is_uuid =
     zod_parse (\<lambda>r. r\<lparr>ex_experimentKey := trim (ex_experimentKey r), ex_motion := trim (ex_motion r),
                     ex_experimentType := trim (ex_experimentType r), ex_unitType := trim (ex_unitType r),
                     ex_hypothesis := trim (ex_hypothesis r), ex_metricName := trim (ex_metricName r),
                     ex_createdBy := trim (ex_createdBy r)\<rparr>)
       (experimentRecord_ok is_uuid)"

record createExperimentParams =
  cx_experimentKey :: string
  cx_motion :: string
  cx_experimentType :: string
  cx_unitType :: string
  cx_hypothesis :: string
  cx_variantA :: json_record
  cx_variantB :: json_record
  cx_metricName :: string
  cx_metricDirection :: "metricDirection option"
  cx_minSampleSize :: number
  cx_initialStatus :: "experimentStatus option"
  cx_inputSnapshot :: "json_record option"
  cx_modelVersion :: "string option"
  cx_promptVersion :: "string option"
  cx_playbookVersion :: "string option"
  cx_policyVersion :: "string option"
  cx_createdBy :: string
  cx_startedAt :: "date option"

definition createExperimentParams_ok :: "createExperimentParams \<Rightarrow> bool" where
  "createExperimentParams_ok p \<longleftrightarrow>
     is_text (cx_experimentKey p) \<and> is_text (cx_motion p) \<and> is_text (cx_experimentType p) \<and>
     is_text (cx_unitType p) \<and> is_text (cx_hypothesis p) \<and> is_text (cx_metricName p) \<and>
     is_positive_int (cx_minSampleSize p) \<and>
     pred_opt (\<lambda>s. s = ExDraft \<or> s = ExRunning) (cx_initialStatus p) \<and>
     text_opt (cx_modelVersion p) \<and> text_opt (cx_promptVersion p) \<and>
     text_opt (cx_playbookVersion p) \<and> text_opt (cx_policyVersion p) \<and> is_text (cx_createdBy p)"

definition createExperimentParamsSchema_parse ::
  "createExperimentParams \<Rightarrow> createExperimentParams result" where
  "createExperimentParamsSchema_parse =
     zod_parse (\<lambda>p. p\<lparr>cx_experimentKey := trim (cx_experimentKey p), cx_motion := trim (cx_motion p),
                     cx_experimentType := trim (cx_experimentType p), cx_unitType := trim (cx_unitType p),
                     cx_hypothesis := trim (cx_hypothesis p), cx_metricName := trim (cx_metricName p),
                     cx_metricDirection := Some (nullish_or (cx_metricDirection p) Increase),
                     cx_initialStatus := Some (nullish_or (cx_initialStatus p) ExDraft),
                     cx_inputSnapshot := Some (nullish_or (cx_inputSnapshot p) []),
                     cx_modelVersion := trim_opt (cx_modelVersion p),
                     cx_promptVersion := trim_opt (cx_promptVersion p),
                     cx_playbookVersion := trim_opt (cx_playbookVersion p),
                     cx_policyVersion := trim_opt (cx_policyVersion p),
                     cx_createdBy := trim (cx_createdBy p)\<rparr>)
       createExperimentParams_ok"

record transitionExperimentParams =
  tx_winner :: "experimentWinner option"
  tx_confidence :: "number option"
  tx_endedAt :: "date option"

definition transitionExperimentParams_ok :: "transitionExperimentParams \<Rightarrow> bool" where
  "transitionExperimentParams_ok p \<longleftrightarrow> pred_opt in_unit (tx_confidence p)"

definition transitionExperimentParamsSchema_parse ::
  "transitionExperimentParams \<Rightarrow> transitionExperimentParams result" where
  "transitionExperimentParamsSchema_parse = zod_parse id transitionExperimentParams_ok"

fun experimentTransitions :: "experimentStatus \<Rightarrow> experimentStatus list" where
  "experimentTransitions ExDraft = [ExRunning, ExAbandoned]"
| "experimentTransitions ExRunning = [ExPaused, ExConcluded, ExAbandoned]"
| "experimentTransitions ExPaused = [ExRunning, ExAbandoned]"
| "experimentTransitions ExConcluded = [ExPromoted, ExAbandoned]"
| "experimentTransitions ExAbandoned = []"
| "experimentTransitions ExPromoted = [ExRolledBack]"
| "experimentTransitions ExRolledBack = []"

definition assertExperimentTransition :: "experimentStatus \<Rightarrow> experimentStatus \<Rightarrow> unit result" where
  "assertExperimentTransition from to =
     (if to \<notin> set (experimentTransitions from)
      then Inl (JsError (arrow_message ''Illegal experiment transition: ''
                  (experiment_status_name from) (experiment_status_name to)))
      else Inr ())"

record experimentAssignmentRecord =
  as_id :: string
  as_tenantId :: string
  as_experimentId :: string
  as_entityType :: string
  as_entityId :: string
  as_variant :: experimentVariant
  as_assignmentContext :: json_record
  as_assignedAt :: date
  as_exposedAt :: "date option"
  as_createdAt :: date

definition experimentAssignmentRecord_ok :: "(string \<Rightarrow> bool) \<Rightarrow> experimentAssignmentRecord \<Rightarrow> bool" where
  "experimentAssignmentRecord_ok is_uuid a \<longleftrightarrow>
     is_uuid (as_id a) \<and> is_uuid (as_tenantId a) \<and> is_uuid (as_experimentId a) \<and>
     is_text (as_entityType a) \<and> is_text (as_entityId a)"

definition experimentAssignmentRecordSchema_parse ::
  "(string \<Rightarrow> bool) \<Rightarrow> experimentAssignmentRecord \<Rightarrow> experimentAssignmentRecord result" where
  "experimentAssignmentRecordSchema_parse is_uuid =
     zod_parse (\<lambda>a. a\<lparr>as_entityType := trim (as_entityType a), as_entityId := trim (as_entityId a)\<rparr>)
       (experimentAssignmentRecord_ok is_uuid)"

record assignExperimentParams =
  ap_experimentId :: string
  ap_entityType :: string
  ap_entityId :: string
  ap_variant :: experimentVariant
  ap_assignmentContext :: "json_record option"
  ap_exposedAt :: "date option"

definition assignExperimentParams_ok :: "(string \<Rightarrow> bool) \<Rightarrow> assignExperimentParams \<Rightarrow> bool" where
  "assignExperimentParams_ok is_uuid p \<longleftrightarrow>
     is_uuid (ap_experimentId p) \<and> is_text (ap_entityType p) \<and> is_text (ap_entityId p)"

definition assignExperimentParamsSchema_parse ::
  "(string \<Rightarrow> bool) \<Rightarrow> assignExperimentParams \<Rightarrow> assignExperimentParams result" where
  "assignExperimentParamsSchema_parse is_uuid =
     zod_parse (\<lambda>p. p\<lparr>ap_entityType := trim (ap_entityType p), ap_entityId := trim (ap_entityId p),
                     ap_assignmentContext := Some (nullish_or (ap_assignmentContext p) [])\<rparr>)
       (assignExperimentParams_ok is_uuid)"

record experimentObservationRecord =
  ob_id :: string
  ob_tenantId :: string
  ob_experimentId :: string
  ob_assignmentId :: "string option"
  ob_idempotencyKey :: string
  ob_entityType :: string
  ob_entityId :: string
  ob_variant :: experimentVariant
  ob_metricName :: string
  ob_metricValue :: number
  ob_isGuardrail :: bool
  ob_attributionConfidence :: number
  ob_attributionModel :: string
  ob_source :: string
  ob_costAmount :: "number option"
  ob_costCurrency :: "string option"
  ob_observedOutcome :: json_record
  ob_evidence :: json_record
  ob_observedAt :: date
  ob_createdAt :: date

definition experimentObservationRecord_ok :: "(string \<Rightarrow> bool) \<Rightarrow> experimentObservationRecord \<Rightarrow> bool" where
  "experimentObservationRecord_ok is_uuid r \<longleftrightarrow>
     is_uuid (ob_id r) \<and> is_uuid (ob_tenantId r) \<and> is_uuid (ob_experimentId r) \<and>
     pred_opt is_uuid (ob_assignmentId r) \<and> is_text (ob_idempotencyKey r) \<and>
     is_text (ob_entityType r) \<and> is_text (ob_entityId r) \<and> is_text (ob_metricName r) \<and>
     in_unit (ob_attributionConfidence r) \<and> is_text (ob_attributionModel r) \<and> is_text (ob_source r) \<and>
     pred_opt (\<lambda>x. 0 \<le> x) (ob_costAmount r) \<and> pred_opt (\<lambda>s. length s = 3) (ob_costCurrency r)"

definition experimentObservationRecordSchema_parse ::
  "(string \<Rightarrow> bool) \<Rightarrow> experimentObservationRecord \<Rightarrow> experimentObservationRecord result" where
  "experimentObservationRecordSchema_parse is_uuid =
     zod_parse (\<lambda>r. r\<lparr>ob_idempotencyKey := trim (ob_idempotencyKey r),
                     ob_entityType := trim (ob_entityType r), ob_entityId := trim (ob_entityId r),
                     ob_metricName := trim (ob_metricName r),
                     ob_attributionModel := trim (ob_attributionModel r), ob_source := trim (ob_source r)\<rparr>)
       (experimentObservationRecord_ok is_uuid)"

record recordExperimentObservationParams =
  op_experimentId :: string
  op_assignmentId :: "string option"
  op_idempotencyKey :: string
  op_entityType :: string
  op_entityId :: string
  op_variant :: experimentVariant
  op_metricName :: string
  op_metricValue :: number
  op_isGuardrail :: "bool option"
  op_attributionConfidence :: number
  op_attributionModel :: string
  op_source :: string
  op_costAmount :: "number option"
  op_costCurrency :: "string option"
  op_observedOutcome :: "json_record option"
  op_evidence :: "json_record option"
  op_observedAt :: "date option"

text \<open>
  The currency is trimmed and must have three characters before it is put in upper case, so the
  check stands on the trimmed input and the transformation follows it.
\<close>

definition recordExperimentObservationParams_ok ::
  "(string \<Rightarrow> bool) \<Rightarrow> recordExperimentObservationParams \<Rightarrow> bool" where
  "recordExperimentObservationParams_ok is_uuid p \<longleftrightarrow>
     is_uuid (op_experimentId p) \<and> pred_opt is_uuid (op_assignmentId p) \<and>
     is_text (op_idempotencyKey p) \<and> is_text (op_entityType p) \<and> is_text (op_entityId p) \<and>
     is_text (op_metricName p) \<and> in_unit (op_attributionConfidence p) \<and>
     is_text (op_attributionModel p) \<and> is_text (op_source p) \<and>
     pred_opt (\<lambda>x. 0 \<le> x) (op_costAmount p) \<and> pred_opt (\<lambda>s. length s = 3) (op_costCurrency p)"

definition recordExperimentObservationParamsSchema_parse ::
  "(string \<Rightarrow> bool) \<Rightarrow> recordExperimentObservationParams \<Rightarrow> recordExperimentObservationParams result" where
  "recordExperimentObservationParamsSchema_parse is_uuid params =
     and_then (zod_parse
       (\<lambda>p. p\<lparr>op_idempotencyKey := trim (op_idempotencyKey p), op_entityType := trim (op_entityType p),
              op_entityId := trim (op_entityId p), op_metricName := trim (op_metricName p),
              op_isGuardrail := Some (nullish_or (op_isGuardrail p) False),
              op_attributionModel := trim (op_attributionModel p), op_source := trim (op_source p),
              op_costCurrency := trim_opt (op_costCurrency p),
              op_observedOutcome := Some (nullish_or (op_observedOutcome p) []),
              op_evidence := Some (nullish_or (op_evidence p) [])\<rparr>)
       (recordExperimentObservationParams_ok is_uuid) params)
       (\<lambda>p. Inr (p\<lparr>op_costCurrency := map_option toUpperCase (op_costCurrency p)\<rparr>))"

section \<open>The in-memory repository\<close>

record experiments =
  xs_experiments :: "experimentRecord store"
  xs_assignments :: "experimentAssignmentRecord store"
  xs_observations :: "experimentObservationRecord store"

definition empty_experiments :: experiments where
  "empty_experiments =
     \<lparr>xs_experiments = empty_store, xs_assignments = empty_store, xs_observations = empty_store\<rparr>"

definition experimentKey :: "string \<Rightarrow> string \<Rightarrow> string" where
  "experimentKey tenantId key = colon_key tenantId key"

definition assignmentKey :: "string \<Rightarrow> string \<Rightarrow> string \<Rightarrow> string \<Rightarrow> string" where
  "assignmentKey tenantId experimentId entityType entityId =
     colon_key tenantId (colon_key experimentId (colon_key entityType entityId))"

definition observationKey :: "string \<Rightarrow> string \<Rightarrow> string \<Rightarrow> string" where
  "observationKey tenantId experimentId idempotencyKey =
     colon_key tenantId (colon_key experimentId idempotencyKey)"

definition experiment_create ::
  "(string \<Rightarrow> bool) \<Rightarrow> string \<Rightarrow> createExperimentParams \<Rightarrow> string \<Rightarrow> date \<Rightarrow> experiments \<Rightarrow>
   js_error + experimentRecord \<times> experiments" where
  "experiment_create is_uuid tenantId params uuid now xs =
     and_then (tenantIdSchema_parse is_uuid tenantId) (\<lambda>tenant.
     and_then (createExperimentParamsSchema_parse params) (\<lambda>parsed.
       (let key = experimentKey tenant (cx_experimentKey parsed)
        in case find_existing (xs_experiments xs) key of
             Some existing \<Rightarrow> Inr (existing, xs)
           | None \<Rightarrow>
               and_then (experimentRecordSchema_parse is_uuid
                 \<lparr>ex_id = uuid, ex_tenantId = tenant, ex_experimentKey = cx_experimentKey parsed,
                  ex_motion = cx_motion parsed, ex_experimentType = cx_experimentType parsed,
                  ex_unitType = cx_unitType parsed, ex_hypothesis = cx_hypothesis parsed,
                  ex_variantA = cx_variantA parsed, ex_variantB = cx_variantB parsed,
                  ex_metricName = cx_metricName parsed,
                  ex_metricDirection = nullish_or (cx_metricDirection parsed) Increase,
                  ex_minSampleSize = cx_minSampleSize parsed,
                  ex_status = nullish_or (cx_initialStatus parsed) ExDraft,
                  ex_winner = None, ex_confidence = None,
                  ex_inputSnapshot = nullish_or (cx_inputSnapshot parsed) [],
                  ex_modelVersion = cx_modelVersion parsed, ex_promptVersion = cx_promptVersion parsed,
                  ex_playbookVersion = cx_playbookVersion parsed,
                  ex_policyVersion = cx_policyVersion parsed, ex_createdBy = cx_createdBy parsed,
                  ex_startedAt = nullish (cx_startedAt parsed)
                    (if nullish_or (cx_initialStatus parsed) ExDraft = ExRunning then Some now else None),
                  ex_endedAt = None, ex_createdAt = now, ex_updatedAt = now\<rparr>)
                 (\<lambda>record. Inr (record,
                    xs\<lparr>xs_experiments := insert_new key (ex_id record) record (xs_experiments xs)\<rparr>)))))"

definition experiment_getById ::
  "(string \<Rightarrow> bool) \<Rightarrow> string \<Rightarrow> string \<Rightarrow> experiments \<Rightarrow> experimentRecord option result" where
  "experiment_getById is_uuid tenantId i xs =
     and_then (tenantIdSchema_parse is_uuid tenantId) (\<lambda>tenant.
       Inr (case get_by_id (xs_experiments xs) i of
              None \<Rightarrow> None
            | Some r \<Rightarrow> if ex_tenantId r = tenant then Some r else None))"

definition experiment_listRecent ::
  "(string \<Rightarrow> bool) \<Rightarrow> string \<Rightarrow> number option \<Rightarrow> experiments \<Rightarrow> experimentRecord list result" where
  "experiment_listRecent is_uuid tenantId limit xs =
     and_then (tenantIdSchema_parse is_uuid tenantId) (\<lambda>tenant.
     and_then (normalizeLimit limit) (\<lambda>n.
       Inr (take n (newest_first ex_updatedAt
              (filter (\<lambda>r. ex_tenantId r = tenant) (store_values (xs_experiments xs)))))))"

record experimentStatusSummary =
  es_total :: nat
  es_byStatus :: "(experimentStatus \<times> nat) list"

definition emptyExperimentStatusSummary :: experimentStatusSummary where
  "emptyExperimentStatusSummary =
     \<lparr>es_total = 0,
      es_byStatus = map (\<lambda>s. (s, 0))
        [ExDraft, ExRunning, ExPaused, ExConcluded, ExAbandoned, ExPromoted, ExRolledBack]\<rparr>"

definition count_experiment :: "string \<Rightarrow> experimentStatusSummary \<Rightarrow> experimentRecord \<Rightarrow> experimentStatusSummary" where
  "count_experiment tenant result r =
     (if ex_tenantId r \<noteq> tenant then result
      else result\<lparr>es_total := es_total result + 1,
                  es_byStatus := AList.map_entry (ex_status r) Suc (es_byStatus result)\<rparr>)"

definition experiment_getSummary ::
  "(string \<Rightarrow> bool) \<Rightarrow> string \<Rightarrow> experiments \<Rightarrow> experimentStatusSummary result" where
  "experiment_getSummary is_uuid tenantId xs =
     and_then (tenantIdSchema_parse is_uuid tenantId) (\<lambda>tenant.
       Inr (foldl (count_experiment tenant) emptyExperimentStatusSummary
              (store_values (xs_experiments xs))))"

text \<open>The fields a transition overwrites.\<close>

definition experiment_moved ::
  "experimentStatus \<Rightarrow> transitionExperimentParams \<Rightarrow> date \<Rightarrow> experimentRecord \<Rightarrow> experimentRecord" where
  "experiment_moved toStatus parsed now existing =
     (let terminal = (toStatus = ExConcluded \<or> toStatus = ExAbandoned)
      in existing\<lparr>ex_status := toStatus,
                  ex_winner := nullish (tx_winner parsed) (ex_winner existing),
                  ex_confidence := nullish (tx_confidence parsed) (ex_confidence existing),
                  ex_startedAt :=
                    (if toStatus = ExRunning then nullish (ex_startedAt existing) (Some now)
                     else ex_startedAt existing),
                  ex_endedAt :=
                    (if terminal then nullish (nullish (tx_endedAt parsed) (ex_endedAt existing)) (Some now)
                     else ex_endedAt existing),
                  ex_updatedAt := now\<rparr>)"

definition experiment_transition ::
  "(string \<Rightarrow> bool) \<Rightarrow> string \<Rightarrow> string \<Rightarrow> experimentStatus \<Rightarrow> experimentStatus \<Rightarrow>
   transitionExperimentParams \<Rightarrow> date \<Rightarrow> experiments \<Rightarrow> js_error + experimentRecord option \<times> experiments" where
  "experiment_transition is_uuid tenantId i fromStatus toStatus params now xs =
     and_then (tenantIdSchema_parse is_uuid tenantId) (\<lambda>tenant.
     and_then (transitionExperimentParamsSchema_parse params) (\<lambda>parsed.
     and_then (assertExperimentTransition fromStatus toStatus) (\<lambda>_.
       (case get_by_id (xs_experiments xs) i of
          None \<Rightarrow> Inr (None, xs)
        | Some existing \<Rightarrow>
            if ex_tenantId existing \<noteq> tenant \<or> ex_status existing \<noteq> fromStatus then Inr (None, xs)
            else and_then (experimentRecordSchema_parse is_uuid
                   (experiment_moved toStatus parsed now existing))
                   (\<lambda>updated. Inr (Some updated,
                      xs\<lparr>xs_experiments := put_record i updated (xs_experiments xs)\<rparr>))))))"

text \<open>The result pairs the assignment with \<open>isExisting\<close>.\<close>

definition experiment_assign ::
  "(string \<Rightarrow> bool) \<Rightarrow> string \<Rightarrow> assignExperimentParams \<Rightarrow> string \<Rightarrow> date \<Rightarrow> experiments \<Rightarrow>
   js_error + (experimentAssignmentRecord \<times> bool) \<times> experiments" where
  "experiment_assign is_uuid tenantId params uuid now xs =
     and_then (tenantIdSchema_parse is_uuid tenantId) (\<lambda>tenant.
     and_then (assignExperimentParamsSchema_parse is_uuid params) (\<lambda>parsed.
     and_then (experiment_getById is_uuid tenant (ap_experimentId parsed) xs) (\<lambda>experiment.
       (case experiment of
          None \<Rightarrow> Inl (JsError ''Experiment does not exist for this tenant.'')
        | Some e \<Rightarrow>
            if ex_status e \<noteq> ExDraft \<and> ex_status e \<noteq> ExRunning
            then Inl (JsError ''Assignments are only allowed for draft or running experiments.'')
            else
              (let key = assignmentKey tenant (ap_experimentId parsed) (ap_entityType parsed) (ap_entityId parsed)
               in case find_existing (xs_assignments xs) key of
                    Some existing \<Rightarrow> Inr ((existing, True), xs)
                  | None \<Rightarrow>
                      and_then (experimentAssignmentRecordSchema_parse is_uuid
                        \<lparr>as_id = uuid, as_tenantId = tenant, as_experimentId = ap_experimentId parsed,
                         as_entityType = ap_entityType parsed, as_entityId = ap_entityId parsed,
                         as_variant = ap_variant parsed,
                         as_assignmentContext = nullish_or (ap_assignmentContext parsed) [],
                         as_assignedAt = now, as_exposedAt = ap_exposedAt parsed, as_createdAt = now\<rparr>)
                        (\<lambda>a. Inr ((a, False),
                           xs\<lparr>xs_assignments := insert_new key (as_id a) a (xs_assignments xs)\<rparr>)))))))"

text \<open>\<open>if (parsed.assignmentId)\<close>: an observation that names an assignment must match its unit.\<close>

definition assignment_matches ::
  "string \<Rightarrow> recordExperimentObservationParams \<Rightarrow> experimentAssignmentRecord \<Rightarrow> bool" where
  "assignment_matches tenant p a \<longleftrightarrow>
     as_tenantId a = tenant \<and> as_experimentId a = op_experimentId p \<and>
     as_entityType a = op_entityType p \<and> as_entityId a = op_entityId p \<and> as_variant a = op_variant p"

definition check_assignment ::
  "string \<Rightarrow> recordExperimentObservationParams \<Rightarrow> experiments \<Rightarrow> unit result" where
  "check_assignment tenant p xs =
     (case op_assignmentId p of
        None \<Rightarrow> Inr ()
      | Some i \<Rightarrow>
          if i = [] then Inr ()
          else (case get_by_id (xs_assignments xs) i of
                  None \<Rightarrow> Inl (JsError ''Observation assignment does not match the experiment unit.'')
                | Some a \<Rightarrow>
                    if assignment_matches tenant p a then Inr ()
                    else Inl (JsError ''Observation assignment does not match the experiment unit.'')))"

definition experiment_recordObservation ::
  "(string \<Rightarrow> bool) \<Rightarrow> string \<Rightarrow> recordExperimentObservationParams \<Rightarrow> string \<Rightarrow> date \<Rightarrow> experiments \<Rightarrow>
   js_error + experimentObservationRecord \<times> experiments" where
  "experiment_recordObservation is_uuid tenantId params uuid now xs =
     and_then (tenantIdSchema_parse is_uuid tenantId) (\<lambda>tenant.
     and_then (recordExperimentObservationParamsSchema_parse is_uuid params) (\<lambda>parsed.
     and_then (experiment_getById is_uuid tenant (op_experimentId parsed) xs) (\<lambda>experiment.
       (case experiment of
          None \<Rightarrow> Inl (JsError ''Experiment does not exist for this tenant.'')
        | Some e \<Rightarrow>
            if ex_status e \<noteq> ExRunning \<and> ex_status e \<noteq> ExConcluded \<and> ex_status e \<noteq> ExPromoted \<and>
               ex_status e \<noteq> ExRolledBack
            then Inl (JsError ''Observations require a running or completed experiment.'')
            else and_then (check_assignment tenant parsed xs) (\<lambda>_.
              (let key = observationKey tenant (op_experimentId parsed) (op_idempotencyKey parsed)
               in case find_existing (xs_observations xs) key of
                    Some existing \<Rightarrow> Inr (existing, xs)
                  | None \<Rightarrow>
                      and_then (experimentObservationRecordSchema_parse is_uuid
                        \<lparr>ob_id = uuid, ob_tenantId = tenant, ob_experimentId = op_experimentId parsed,
                         ob_assignmentId = op_assignmentId parsed,
                         ob_idempotencyKey = op_idempotencyKey parsed,
                         ob_entityType = op_entityType parsed, ob_entityId = op_entityId parsed,
                         ob_variant = op_variant parsed, ob_metricName = op_metricName parsed,
                         ob_metricValue = op_metricValue parsed,
                         ob_isGuardrail = nullish_or (op_isGuardrail parsed) False,
                         ob_attributionConfidence = op_attributionConfidence parsed,
                         ob_attributionModel = op_attributionModel parsed, ob_source = op_source parsed,
                         ob_costAmount = op_costAmount parsed, ob_costCurrency = op_costCurrency parsed,
                         ob_observedOutcome = nullish_or (op_observedOutcome parsed) [],
                         ob_evidence = nullish_or (op_evidence parsed) [],
                         ob_observedAt = nullish_or (op_observedAt parsed) now, ob_createdAt = now\<rparr>)
                        (\<lambda>r. Inr (r,
                           xs\<lparr>xs_observations := insert_new key (ob_id r) r (xs_observations xs)\<rparr>))))))))"

definition experiment_recordOutcome ::
  "(string \<Rightarrow> bool) \<Rightarrow> string \<Rightarrow> recordExperimentObservationParams \<Rightarrow> string \<Rightarrow> date \<Rightarrow> experiments \<Rightarrow>
   js_error + experimentObservationRecord \<times> experiments" where
  "experiment_recordOutcome is_uuid tenantId params uuid now xs =
     experiment_recordObservation is_uuid tenantId params uuid now xs"

definition experiment_listObservations ::
  "(string \<Rightarrow> bool) \<Rightarrow> string \<Rightarrow> string \<Rightarrow> string option \<Rightarrow> number option \<Rightarrow> experiments \<Rightarrow>
   experimentObservationRecord list result" where
  "experiment_listObservations is_uuid tenantId experimentId metricName limit xs =
     and_then (tenantIdSchema_parse is_uuid tenantId) (\<lambda>tenant.
     and_then (normalizeLimit limit) (\<lambda>n.
       Inr (take n (newest_first ob_observedAt
              (filter (\<lambda>r. ob_tenantId r = tenant \<and> ob_experimentId r = experimentId \<and>
                           (metricName = None \<or> Some (ob_metricName r) = metricName))
                 (store_values (xs_observations xs)))))))"

section \<open>The evidence summary\<close>

record experimentEvidenceSummary =
  ee_experimentId :: string
  ee_metricName :: string
  ee_evidenceCount :: number
  ee_uniqueEntities :: number
  ee_baselineMetric :: number
  ee_candidateMetric :: number
  ee_meanAttributionConfidence :: number
  ee_baselineGuardrailMetric :: "number option"
  ee_candidateGuardrailMetric :: "number option"
  ee_worstGuardrailRegression :: number

definition mean :: "number list \<Rightarrow> number option" where
  "mean values = (if values = [] then None else Some (foldl (+) 0 values / of_nat (length values)))"

definition summarizeEvidenceRecords ::
  "string \<Rightarrow> string \<Rightarrow> experimentObservationRecord list \<Rightarrow> string option \<Rightarrow> experimentEvidenceSummary option" where
  "summarizeEvidenceRecords experimentId metricName records guardrailMetricName =
     (let outcomeRows = filter (\<lambda>r. \<not> ob_isGuardrail r \<and> ob_metricName r = metricName) records;
          baselineMetric = mean (map ob_metricValue (filter (\<lambda>r. ob_variant r = VariantA) outcomeRows));
          candidateMetric = mean (map ob_metricValue (filter (\<lambda>r. ob_variant r = VariantB) outcomeRows))
      in case (baselineMetric, candidateMetric) of
           (Some baseline, Some candidate) \<Rightarrow>
             (let guardrailRows =
                    (case guardrailMetricName of
                       None \<Rightarrow> []
                     | Some g \<Rightarrow>
                         if g = [] then []
                         else filter (\<lambda>r. ob_isGuardrail r \<and> ob_metricName r = g) records);
                  baselineGuardrail =
                    mean (map ob_metricValue (filter (\<lambda>r. ob_variant r = VariantA) guardrailRows));
                  candidateGuardrail =
                    mean (map ob_metricValue (filter (\<lambda>r. ob_variant r = VariantB) guardrailRows));
                  rawRegression =
                    (case (baselineGuardrail, candidateGuardrail) of
                       (Some a, Some b) \<Rightarrow> b - a
                     | _ \<Rightarrow> 0)
              in Some \<lparr>ee_experimentId = experimentId, ee_metricName = metricName,
                       ee_evidenceCount = of_nat (length outcomeRows),
                       ee_uniqueEntities = of_nat (length (remdups
                         (map (\<lambda>r. colon_key (ob_entityType r) (ob_entityId r)) outcomeRows))),
                       ee_baselineMetric = baseline, ee_candidateMetric = candidate,
                       ee_meanAttributionConfidence =
                         nullish_or (mean (map ob_attributionConfidence outcomeRows)) 0,
                       ee_baselineGuardrailMetric = baselineGuardrail,
                       ee_candidateGuardrailMetric = candidateGuardrail,
                       ee_worstGuardrailRegression = max 0 rawRegression\<rparr>)
         | _ \<Rightarrow> None)"

definition experiment_summarizeEvidence ::
  "(string \<Rightarrow> bool) \<Rightarrow> string \<Rightarrow> string \<Rightarrow> string \<Rightarrow> string option \<Rightarrow> experiments \<Rightarrow>
   experimentEvidenceSummary option result" where
  "experiment_summarizeEvidence is_uuid tenantId experimentId metricName guardrailMetricName xs =
     and_then (tenantIdSchema_parse is_uuid tenantId) (\<lambda>tenant.
     and_then (experiment_getById is_uuid tenant experimentId xs) (\<lambda>experiment.
       (case experiment of
          None \<Rightarrow> Inr None
        | Some _ \<Rightarrow>
            Inr (summarizeEvidenceRecords experimentId metricName
                   (filter (\<lambda>r. ob_tenantId r = tenant \<and> ob_experimentId r = experimentId)
                      (store_values (xs_observations xs)))
                   guardrailMetricName))))"

section \<open>The repository invariant\<close>

abbreviation ex_key :: "experimentRecord \<Rightarrow> string" where
  "ex_key r \<equiv> experimentKey (ex_tenantId r) (ex_experimentKey r)"

abbreviation as_key :: "experimentAssignmentRecord \<Rightarrow> string" where
  "as_key a \<equiv> assignmentKey (as_tenantId a) (as_experimentId a) (as_entityType a) (as_entityId a)"

abbreviation ob_key :: "experimentObservationRecord \<Rightarrow> string" where
  "ob_key r \<equiv> observationKey (ob_tenantId r) (ob_experimentId r) (ob_idempotencyKey r)"

text \<open>
  The time stamps follow the status: an experiment that is or has been running has a start, one that
  is over has an end. An abandoned experiment may have been abandoned as a draft, without a start; that
  one abandoned later keeps the start it had is \<open>experiment_start\<close>.
\<close>

definition experiment_stamped :: "experimentRecord \<Rightarrow> bool" where
  "experiment_stamped r \<longleftrightarrow>
     (ex_status r \<notin> {ExDraft, ExAbandoned} \<longrightarrow> ex_startedAt r \<noteq> None) \<and>
     (ex_status r \<in> {ExConcluded, ExAbandoned, ExPromoted, ExRolledBack} \<longrightarrow> ex_endedAt r \<noteq> None)"

definition experiment_good :: "(string \<Rightarrow> bool) \<Rightarrow> experimentRecord \<Rightarrow> bool" where
  "experiment_good is_uuid r \<longleftrightarrow> experimentRecord_ok is_uuid r \<and> experiment_stamped r"

text \<open>Assignments and observations belong to an experiment of the same tenant.\<close>

definition assignments_linked :: "experiments \<Rightarrow> bool" where
  "assignments_linked xs \<longleftrightarrow>
     (\<forall>i a. get_by_id (xs_assignments xs) i = Some a \<longrightarrow>
        (\<exists>e. get_by_id (xs_experiments xs) (as_experimentId a) = Some e \<and> ex_tenantId e = as_tenantId a))"

definition observation_matches :: "experimentObservationRecord \<Rightarrow> experimentAssignmentRecord \<Rightarrow> bool" where
  "observation_matches r a \<longleftrightarrow>
     as_tenantId a = ob_tenantId r \<and> as_experimentId a = ob_experimentId r \<and>
     as_entityType a = ob_entityType r \<and> as_entityId a = ob_entityId r \<and> as_variant a = ob_variant r"

definition observations_linked :: "experiments \<Rightarrow> bool" where
  "observations_linked xs \<longleftrightarrow>
     (\<forall>i r. get_by_id (xs_observations xs) i = Some r \<longrightarrow>
        (\<exists>e. get_by_id (xs_experiments xs) (ob_experimentId r) = Some e \<and> ex_tenantId e = ob_tenantId r) \<and>
        (\<forall>j. ob_assignmentId r = Some j \<longrightarrow>
           (\<exists>a. get_by_id (xs_assignments xs) j = Some a \<and> observation_matches r a)))"

definition experiments_inv :: "(string \<Rightarrow> bool) \<Rightarrow> experiments \<Rightarrow> bool" where
  "experiments_inv is_uuid xs \<longleftrightarrow>
     store_ok ex_id ex_key (experiment_good is_uuid) (xs_experiments xs) \<and>
     store_ok as_id as_key (experimentAssignmentRecord_ok is_uuid) (xs_assignments xs) \<and>
     store_ok ob_id ob_key (experimentObservationRecord_ok is_uuid) (xs_observations xs) \<and>
     assignments_linked xs \<and> observations_linked xs"

lemma experiments_inv_empty: "experiments_inv is_uuid empty_experiments"
  by (simp add: experiments_inv_def empty_experiments_def assignments_linked_def observations_linked_def)
    (simp add: empty_store_def)

lemma experiments_invD:
  assumes "experiments_inv is_uuid xs"
  shows "store_ok ex_id ex_key (experiment_good is_uuid) (xs_experiments xs)"
    "store_ok as_id as_key (experimentAssignmentRecord_ok is_uuid) (xs_assignments xs)"
    "store_ok ob_id ob_key (experimentObservationRecord_ok is_uuid) (xs_observations xs)"
    "assignments_linked xs" "observations_linked xs"
  using assms by (simp_all add: experiments_inv_def)

section \<open>What each operation does\<close>

text \<open>What an experiment was set up with, and no transition may change.\<close>

definition experiment_config :: "experimentRecord \<Rightarrow> (string \<times> string \<times> string) \<times> string list \<times>
    json_record list \<times> (metricDirection \<times> number) \<times> string option list \<times> date" where
  "experiment_config r =
     ((ex_id r, ex_tenantId r, ex_experimentKey r),
      [ex_motion r, ex_experimentType r, ex_unitType r, ex_hypothesis r, ex_metricName r, ex_createdBy r],
      [ex_variantA r, ex_variantB r, ex_inputSnapshot r], (ex_metricDirection r, ex_minSampleSize r),
      [ex_modelVersion r, ex_promptVersion r, ex_playbookVersion r, ex_policyVersion r], ex_createdAt r)"

lemma getById_Inr:
  "experiment_getById is_uuid t i xs = Inr x \<longleftrightarrow>
     is_uuid t \<and> x = (case get_by_id (xs_experiments xs) i of
                        None \<Rightarrow> None | Some r \<Rightarrow> if ex_tenantId r = t then Some r else None)"
  by (auto simp: experiment_getById_def)

lemma getById_Some:
  "experiment_getById is_uuid t i xs = Inr (Some e) \<longleftrightarrow>
     is_uuid t \<and> get_by_id (xs_experiments xs) i = Some e \<and> ex_tenantId e = t"
  by (auto simp: getById_Inr split: option.splits if_splits)

lemma create_effect:
  assumes "experiment_create is_uuid t p uuid now xs = Inr (r, xs')"
  obtains (existing) k where "find_existing (xs_experiments xs) k = Some r" "xs' = xs" "is_uuid t"
      "k = experimentKey t (trim (cx_experimentKey p))"
  | (created) "find_existing (xs_experiments xs) (ex_key r) = None" "ex_id r = uuid"
      "experiment_good is_uuid r" "ex_status r = ExDraft \<or> ex_status r = ExRunning"
      "ex_key r = experimentKey t (trim (cx_experimentKey p))" "ex_tenantId r = t"
      "xs' = xs\<lparr>xs_experiments := insert_new (ex_key r) uuid r (xs_experiments xs)\<rparr>"
proof (cases "find_existing (xs_experiments xs) (experimentKey t (trim (cx_experimentKey p)))")
  case None
  with assms show thesis
    by (intro created)
      (auto simp: experiment_create_def createExperimentParamsSchema_parse_def experimentRecordSchema_parse_def
        experiment_good_def experiment_stamped_def createExperimentParams_ok_def Let_def)
next
  case (Some e)
  with assms show thesis
    by (intro existing)
      (auto simp: experiment_create_def createExperimentParamsSchema_parse_def Let_def)
qed

lemma transition_effect:
  assumes "experiment_transition is_uuid t i a b p now xs = Inr (res, xs')"
    and "experiments_inv is_uuid xs"
  obtains (refused) "res = None" "xs' = xs"
  | (moved) e u where "get_by_id (xs_experiments xs) i = Some e" "ex_tenantId e = t" "ex_status e = a"
      "b \<in> set (experimentTransitions a)" "res = Some u" "ex_status u = b" "experiment_good is_uuid u"
      "experiment_config u = experiment_config e" "ex_updatedAt u = now"
      "ex_startedAt e \<noteq> None \<Longrightarrow> ex_startedAt u = ex_startedAt e"
      "xs' = xs\<lparr>xs_experiments := put_record i u (xs_experiments xs)\<rparr>"
proof (cases res)
  case None
  with assms(1) refused show thesis
    by (auto simp: experiment_transition_def transitionExperimentParamsSchema_parse_def
        experimentRecordSchema_parse_def Let_def split: option.splits if_splits)
next
  case (Some u)
  with assms(1) obtain e q where e: "get_by_id (xs_experiments xs) i = Some e" "ex_tenantId e = t"
      "ex_status e = a" "b \<in> set (experimentTransitions a)"
      "xs' = xs\<lparr>xs_experiments := put_record i u (xs_experiments xs)\<rparr>"
    and u: "experimentRecordSchema_parse is_uuid (experiment_moved b q now e) = Inr u"
    by (auto simp: experiment_transition_def assertExperimentTransition_def split: option.splits if_splits)
  have good: "experiment_good is_uuid e" using store_okD(3) [OF experiments_invD(1) [OF assms(2)] e(1)] .
  then have texts: "trim (ex_experimentKey e) = ex_experimentKey e" "trim (ex_motion e) = ex_motion e"
      "trim (ex_experimentType e) = ex_experimentType e" "trim (ex_unitType e) = ex_unitType e"
      "trim (ex_hypothesis e) = ex_hypothesis e" "trim (ex_metricName e) = ex_metricName e"
      "trim (ex_createdBy e) = ex_createdBy e"
    by (simp_all add: experiment_good_def experimentRecord_ok_def is_textD)
  have stamped: "experiment_stamped u"
    using u good e(3,4)
    by (cases a; cases b) (auto simp: experimentRecordSchema_parse_def experiment_moved_def experiment_good_def
        experiment_stamped_def Let_def)
  show thesis
  proof (rule moved [OF e(1-4) Some])
    show "ex_status u = b" "experiment_good is_uuid u"
        "experiment_config u = experiment_config e" "ex_updatedAt u = now"
        "ex_startedAt e \<noteq> None \<Longrightarrow> ex_startedAt u = ex_startedAt e"
      using u stamped
      by (auto simp: experimentRecordSchema_parse_def experiment_moved_def experiment_good_def
          experiment_config_def texts Let_def)
    show "xs' = xs\<lparr>xs_experiments := put_record i u (xs_experiments xs)\<rparr>" by (rule e(5))
  qed
qed

lemma assign_effect:
  assumes "experiment_assign is_uuid t p uuid now xs = Inr ((a, old), xs')"
  obtains (existing) k where "find_existing (xs_assignments xs) k = Some a" "xs' = xs" "old"
      "k = assignmentKey t (ap_experimentId p) (trim (ap_entityType p)) (trim (ap_entityId p))"
  | (created) e where "find_existing (xs_assignments xs) (as_key a) = None" "as_id a = uuid" "\<not> old"
      "experimentAssignmentRecord_ok is_uuid a" "as_variant a = ap_variant p"
      "as_key a = assignmentKey t (ap_experimentId p) (trim (ap_entityType p)) (trim (ap_entityId p))"
      "get_by_id (xs_experiments xs) (as_experimentId a) = Some e" "ex_tenantId e = as_tenantId a"
      "ex_status e = ExDraft \<or> ex_status e = ExRunning"
      "xs' = xs\<lparr>xs_assignments := insert_new (as_key a) uuid a (xs_assignments xs)\<rparr>"
proof (cases "find_existing (xs_assignments xs)
    (assignmentKey t (ap_experimentId p) (trim (ap_entityType p)) (trim (ap_entityId p)))")
  case None
  with assms show thesis
    by (auto simp: experiment_assign_def assignExperimentParamsSchema_parse_def getById_Inr
        experimentAssignmentRecordSchema_parse_def Let_def intro!: created split: option.splits if_splits)
next
  case (Some x)
  with assms show thesis
    by (auto simp: experiment_assign_def assignExperimentParamsSchema_parse_def getById_Inr Let_def
        intro!: existing split: option.splits if_splits)
qed

lemma check_assignment_Inr:
  "check_assignment t p xs = Inr u \<longleftrightarrow>
     (\<forall>i. op_assignmentId p = Some i \<longrightarrow> i \<noteq> [] \<longrightarrow>
        (\<exists>a. get_by_id (xs_assignments xs) i = Some a \<and> assignment_matches t p a))"
  by (auto simp: check_assignment_def split: option.splits if_splits)

lemma record_effect:
  assumes "experiment_recordObservation is_uuid t p uuid now xs = Inr (r, xs')"
  obtains (existing) k where "find_existing (xs_observations xs) k = Some r" "xs' = xs"
      "k = observationKey t (op_experimentId p) (trim (op_idempotencyKey p))"
  | (created) e where "find_existing (xs_observations xs) (ob_key r) = None" "ob_id r = uuid"
      "experimentObservationRecord_ok is_uuid r"
      "ob_key r = observationKey t (op_experimentId p) (trim (op_idempotencyKey p))"
      "get_by_id (xs_experiments xs) (ob_experimentId r) = Some e" "ex_tenantId e = ob_tenantId r"
      "ex_status e \<in> {ExRunning, ExConcluded, ExPromoted, ExRolledBack}"
      "\<And>j. ob_assignmentId r = Some j \<Longrightarrow> j \<noteq> [] \<Longrightarrow>
         \<exists>a. get_by_id (xs_assignments xs) j = Some a \<and> observation_matches r a"
      "xs' = xs\<lparr>xs_observations := insert_new (ob_key r) uuid r (xs_observations xs)\<rparr>"
proof (cases "find_existing (xs_observations xs)
    (observationKey t (op_experimentId p) (trim (op_idempotencyKey p)))")
  case None
  with assms obtain q e where q: "recordExperimentObservationParamsSchema_parse is_uuid p = Inr q"
      "get_by_id (xs_experiments xs) (op_experimentId p) = Some e" "ex_tenantId e = t"
      "check_assignment t q xs = Inr ()" "ex_status e \<in> {ExRunning, ExConcluded, ExPromoted, ExRolledBack}"
    and r: "experimentObservationRecord_ok is_uuid r" "ob_id r = uuid" "ob_tenantId r = t"
      "ob_experimentId r = op_experimentId p" "op_experimentId q = op_experimentId p"
      "ob_idempotencyKey r = trim (op_idempotencyKey p)"
      "ob_assignmentId r = op_assignmentId q" "ob_entityType r = op_entityType q"
      "ob_entityId r = op_entityId q" "ob_variant r = op_variant q"
      "xs' = xs\<lparr>xs_observations := insert_new (ob_key r) uuid r (xs_observations xs)\<rparr>"
    by (auto simp: experiment_recordObservation_def recordExperimentObservationParamsSchema_parse_def
        experimentObservationRecordSchema_parse_def getById_Inr check_assignment_Inr Let_def
        split: option.splits if_splits)
  show thesis
  proof (rule created)
    fix j assume "ob_assignmentId r = Some j" "j \<noteq> []"
    with q(4) r show "\<exists>a. get_by_id (xs_assignments xs) j = Some a \<and> observation_matches r a"
      by (auto simp: check_assignment_Inr assignment_matches_def observation_matches_def)
  qed (use q r None in auto)
next
  case (Some x)
  with assms show thesis
    by (auto simp: experiment_recordObservation_def recordExperimentObservationParamsSchema_parse_def
        getById_Inr Let_def intro!: existing split: option.splits if_splits)
qed

section \<open>Every operation keeps the invariant\<close>

lemma linked_mono:
  assumes "\<And>i e. get_by_id (xs_experiments xs) i = Some e \<Longrightarrow>
      \<exists>e'. get_by_id (xs_experiments xs') i = Some e' \<and> ex_tenantId e' = ex_tenantId e"
    and "xs_assignments xs' = xs_assignments xs" and "xs_observations xs' = xs_observations xs"
  shows "assignments_linked xs \<Longrightarrow> assignments_linked xs'" "observations_linked xs \<Longrightarrow> observations_linked xs'"
proof -
  show "assignments_linked xs'" if "assignments_linked xs"
    using that assms unfolding assignments_linked_def by metis
  show "observations_linked xs'" if "observations_linked xs"
    using that assms unfolding observations_linked_def by (metis (no_types, lifting))
qed

lemma create_inv:
  assumes "uuid_format is_uuid" and "experiments_inv is_uuid xs"
    and "experiment_create is_uuid t p uuid now xs = Inr (r, xs')"
    and "get_by_id (xs_experiments xs) uuid = None"
  shows "experiments_inv is_uuid xs'"
  using assms(3)
proof (cases rule: create_effect)
  case existing
  with assms(2) show ?thesis by simp
next
  case created
  note inv = experiments_invD [OF assms(2)]
  have "uuid \<noteq> []" using created(2,3) assms(1)
    by (auto simp: experiment_good_def experimentRecord_ok_def dest: uuid_format_nonempty)
  with created inv(1) assms(4)
  have "store_ok ex_id ex_key (experiment_good is_uuid) (xs_experiments xs')"
    by (auto intro!: store_ok_insert)
  moreover have "\<exists>e'. get_by_id (xs_experiments xs') i = Some e' \<and> ex_tenantId e' = ex_tenantId e"
    if "get_by_id (xs_experiments xs) i = Some e" for i e
    using that created assms(4) by auto
  ultimately show ?thesis
    using inv created linked_mono [of xs xs'] unfolding experiments_inv_def by auto
qed

lemma transition_inv:
  assumes "experiments_inv is_uuid xs" and "experiment_transition is_uuid t i a b p now xs = Inr (res, xs')"
  shows "experiments_inv is_uuid xs'"
  using assms(2,1)
proof (cases rule: transition_effect)
  case refused
  with assms(1) show ?thesis by simp
next
  case (moved e u)
  note inv = experiments_invD [OF assms(1)]
  have same: "ex_id u = i" "ex_key u = ex_key e" "ex_tenantId u = ex_tenantId e"
    using moved(8) store_okD(2) [OF inv(1) moved(1)] by (simp_all add: experiment_config_def)
  then have "store_ok ex_id ex_key (experiment_good is_uuid) (xs_experiments xs')"
    using moved inv(1) by (auto intro!: store_ok_put)
  moreover have "\<exists>e'. get_by_id (xs_experiments xs') j = Some e' \<and> ex_tenantId e' = ex_tenantId f"
    if "get_by_id (xs_experiments xs) j = Some f" for j f
    using that moved same by auto
  ultimately show ?thesis
    using inv moved linked_mono [of xs xs'] unfolding experiments_inv_def by auto
qed

lemma assign_inv:
  assumes "uuid_format is_uuid" and "experiments_inv is_uuid xs"
    and "experiment_assign is_uuid t p uuid now xs = Inr ((a, old), xs')"
    and "get_by_id (xs_assignments xs) uuid = None"
  shows "experiments_inv is_uuid xs'"
  using assms(3)
proof (cases rule: assign_effect)
  case existing
  with assms(2) show ?thesis by simp
next
  case (created e)
  note inv = experiments_invD [OF assms(2)]
  have "uuid \<noteq> []" using created(2,4) assms(1)
    by (auto simp: experimentAssignmentRecord_ok_def dest: uuid_format_nonempty)
  with created inv(2) assms(4)
  have "store_ok as_id as_key (experimentAssignmentRecord_ok is_uuid) (xs_assignments xs')"
    by (auto intro!: store_ok_insert)
  moreover have "assignments_linked xs'"
    using inv(4) created by (auto simp: assignments_linked_def)
  moreover have "observations_linked xs'"
    using inv(5) created assms(4) by (fastforce simp: observations_linked_def)
  ultimately show ?thesis using inv created unfolding experiments_inv_def by simp
qed

lemma record_inv:
  assumes "uuid_format is_uuid" and "experiments_inv is_uuid xs"
    and "experiment_recordObservation is_uuid t p uuid now xs = Inr (r, xs')"
    and "get_by_id (xs_observations xs) uuid = None"
  shows "experiments_inv is_uuid xs'"
  using assms(3)
proof (cases rule: record_effect)
  case existing
  with assms(2) show ?thesis by simp
next
  case (created e)
  note inv = experiments_invD [OF assms(2)]
  have "uuid \<noteq> []" using created(2,3) assms(1)
    by (auto simp: experimentObservationRecord_ok_def dest: uuid_format_nonempty)
  with created inv(3) assms(4)
  have "store_ok ob_id ob_key (experimentObservationRecord_ok is_uuid) (xs_observations xs')"
    by (auto intro!: store_ok_insert)
  moreover have "assignments_linked xs'"
    using inv(4) created by (simp add: assignments_linked_def)
  moreover have "j \<noteq> []" if "ob_assignmentId r = Some j" for j
    using that created(3) assms(1)
    by (auto simp: experimentObservationRecord_ok_def dest: uuid_format_nonempty)
  then have "observations_linked xs'"
    using inv(5) created(5,6,8,9) by (auto simp: observations_linked_def)
  ultimately show ?thesis using inv created unfolding experiments_inv_def by simp
qed

section \<open>Histories\<close>

text \<open>
  A history of the repository is a sequence of its operations; \<open>crypto.randomUUID()\<close> returns an id
  that is not in use.
\<close>

inductive experiments_step :: "(string \<Rightarrow> bool) \<Rightarrow> experiments \<Rightarrow> experiments \<Rightarrow> bool" for is_uuid where
  step_create: "experiment_create is_uuid t cp uuid now xs = Inr (r, xs') \<Longrightarrow>
    get_by_id (xs_experiments xs) uuid = None \<Longrightarrow> experiments_step is_uuid xs xs'"
| step_transition: "experiment_transition is_uuid t i a b tp now xs = Inr (res, xs') \<Longrightarrow>
    experiments_step is_uuid xs xs'"
| step_assign: "experiment_assign is_uuid t ap uuid now xs = Inr (res, xs') \<Longrightarrow>
    get_by_id (xs_assignments xs) uuid = None \<Longrightarrow> experiments_step is_uuid xs xs'"
| step_observe: "experiment_recordObservation is_uuid t rp uuid now xs = Inr (r, xs') \<Longrightarrow>
    get_by_id (xs_observations xs) uuid = None \<Longrightarrow> experiments_step is_uuid xs xs'"

definition experiments_good :: "(string \<Rightarrow> bool) \<Rightarrow> experiments \<Rightarrow> bool" where
  "experiments_good is_uuid xs \<longleftrightarrow> uuid_format is_uuid \<and> experiments_inv is_uuid xs"

lemma experiments_step_good:
  "experiments_step is_uuid xs xs' \<Longrightarrow> experiments_good is_uuid xs \<Longrightarrow> experiments_good is_uuid xs'"
  unfolding experiments_good_def
proof (induction rule: experiments_step.induct)
  case (step_assign t ap uuid now xs res xs')
  then show ?case by (cases res) (auto intro: assign_inv)
qed (auto intro: create_inv transition_inv record_inv)

lemma experiments_step_keeps_experiment:
  assumes "experiments_step is_uuid xs xs'" and "experiments_good is_uuid xs"
    and "get_by_id (xs_experiments xs) j = Some e"
  shows "\<exists>e'. get_by_id (xs_experiments xs') j = Some e' \<and> experiment_config e' = experiment_config e \<and>
    (ex_status e' = ex_status e \<or> ex_status e' \<in> set (experimentTransitions (ex_status e)))"
  using assms
proof (induction rule: experiments_step.induct)
  case (step_create t cp uuid now xs r xs')
  then show ?case by (auto elim!: create_effect)
next
  case (step_transition t i a b tp now xs res xs')
  from step_transition.prems(1) have "experiments_inv is_uuid xs" by (simp add: experiments_good_def)
  with step_transition.hyps show ?case
  proof (cases rule: transition_effect)
    case refused
    with step_transition.prems show ?thesis by auto
  next
    case (moved f u)
    with step_transition.prems show ?thesis by (cases "j = i") auto
  qed
next
  case (step_assign t ap uuid now xs res xs')
  then show ?case by (cases res) (auto elim!: assign_effect)
next
  case (step_observe t rp uuid now xs r xs')
  then show ?case by (auto elim!: record_effect)
qed

lemma experiments_step_keeps_entries:
  assumes "experiments_step is_uuid xs xs'" and "experiments_good is_uuid xs"
  shows "get_by_id (xs_assignments xs) j = Some a \<Longrightarrow> get_by_id (xs_assignments xs') j = Some a"
    "get_by_id (xs_observations xs) j = Some r \<Longrightarrow> get_by_id (xs_observations xs') j = Some r"
proof -
  have "(\<forall>a. get_by_id (xs_assignments xs) j = Some a \<longrightarrow> get_by_id (xs_assignments xs') j = Some a) \<and>
      (\<forall>r. get_by_id (xs_observations xs) j = Some r \<longrightarrow> get_by_id (xs_observations xs') j = Some r)"
    using assms
  proof (induction rule: experiments_step.induct)
    case (step_create t cp uuid now xs r xs')
    then show ?case by (auto elim!: create_effect)
  next
    case (step_transition t i a b tp now xs res xs')
    then show ?case by (auto simp: experiments_good_def elim!: transition_effect)
  next
    case (step_assign t ap uuid now xs res xs')
    then show ?case by (cases res) (auto elim!: assign_effect)
  next
    case (step_observe t rp uuid now xs r xs')
    then show ?case by (auto elim!: record_effect)
  qed
  then show "get_by_id (xs_assignments xs) j = Some a \<Longrightarrow> get_by_id (xs_assignments xs') j = Some a"
    "get_by_id (xs_observations xs) j = Some r \<Longrightarrow> get_by_id (xs_observations xs') j = Some r" by blast+
qed

definition experiment_status_at :: "experiments \<Rightarrow> string \<Rightarrow> experimentStatus option" where
  "experiment_status_at xs i = map_option ex_status (get_by_id (xs_experiments xs) i)"

interpretation experiment_life: lifecycle "experiments_step is_uuid" "experiments_good is_uuid"
  experiment_status_at "\<lambda>a b. b \<in> set (experimentTransitions a)" for is_uuid
proof (unfold_locales, goal_cases)
  case (1 s t)
  then show ?case by (rule experiments_step_good)
next
  case (2 s t i a)
  then show ?case
    by (auto simp: experiment_status_at_def dest: experiments_step_keeps_experiment)
qed

interpretation experiment_setup: append_only "experiments_step is_uuid" "experiments_good is_uuid"
  "\<lambda>xs i. map_option experiment_config (get_by_id (xs_experiments xs) i)" for is_uuid
proof (unfold_locales, goal_cases)
  case (1 s t)
  then show ?case by (rule experiments_step_good)
next
  case (2 s t i a)
  then show ?case by (auto dest: experiments_step_keeps_experiment)
qed

text \<open>The time an experiment was started, once it was.\<close>

definition experiment_start :: "experiments \<Rightarrow> string \<Rightarrow> date option" where
  "experiment_start xs i =
     (case get_by_id (xs_experiments xs) i of None \<Rightarrow> None | Some e \<Rightarrow> ex_startedAt e)"

lemma experiments_step_keeps_start:
  assumes "experiments_step is_uuid xs xs'" and "experiments_good is_uuid xs"
    and "experiment_start xs j = Some s"
  shows "experiment_start xs' j = Some s"
  using assms
proof (induction rule: experiments_step.induct)
  case (step_create t cp uuid now xs r xs')
  from step_create.prems(2) obtain e where e: "get_by_id (xs_experiments xs) j = Some e" "ex_startedAt e = Some s"
    by (auto simp: experiment_start_def split: option.splits)
  with step_create.hyps(2) have "j \<noteq> uuid" by auto
  from step_create.hyps(1) have "get_by_id (xs_experiments xs') j = get_by_id (xs_experiments xs) j"
    by (cases rule: create_effect) (use \<open>j \<noteq> uuid\<close> in simp_all)
  with e show ?case by (simp add: experiment_start_def)
next
  case (step_transition t i a b tp now xs res xs')
  from step_transition.prems(1) have "experiments_inv is_uuid xs" by (simp add: experiments_good_def)
  with step_transition.hyps show ?case
  proof (cases rule: transition_effect)
    case refused
    with step_transition.prems show ?thesis by auto
  next
    case (moved f u)
    with step_transition.prems show ?thesis by (cases "j = i") (auto simp: experiment_start_def)
  qed
next
  case (step_assign t ap uuid now xs res xs')
  have "xs_experiments xs' = xs_experiments xs"
    using step_assign.hyps(1) by (cases res) (auto elim!: assign_effect)
  with step_assign.prems show ?case by (simp add: experiment_start_def)
next
  case (step_observe t rp uuid now xs r xs')
  have "xs_experiments xs' = xs_experiments xs"
    using step_observe.hyps(1) by (auto elim!: record_effect)
  with step_observe.prems show ?case by (simp add: experiment_start_def)
qed

interpretation experiment_starts: append_only "experiments_step is_uuid" "experiments_good is_uuid"
  experiment_start for is_uuid
  by unfold_locales (auto intro: experiments_step_good experiments_step_keeps_start)

interpretation assignment_ledger: append_only "experiments_step is_uuid" "experiments_good is_uuid"
  "\<lambda>xs i. get_by_id (xs_assignments xs) i" for is_uuid
  by unfold_locales (auto intro: experiments_step_good experiments_step_keeps_entries)

interpretation observation_ledger: append_only "experiments_step is_uuid" "experiments_good is_uuid"
  "\<lambda>xs i. get_by_id (xs_observations xs) i" for is_uuid
  by unfold_locales (auto intro: experiments_step_good experiments_step_keeps_entries)

lemma experiments_reachable_good:
  "uuid_format is_uuid \<Longrightarrow> (experiments_step is_uuid)\<^sup>*\<^sup>* empty_experiments xs \<Longrightarrow> experiments_good is_uuid xs"
  by (erule experiment_life.steps_inv) (simp add: experiments_good_def experiments_inv_empty)

section \<open>Replays\<close>

lemma create_files:
  assumes "experiments_good is_uuid xs" and "experiment_create is_uuid t p uuid now xs = Inr (r, xs')"
  shows "find_existing (xs_experiments xs') (experimentKey t (trim (cx_experimentKey p))) = Some r"
  using assms(2)
proof (cases rule: create_effect)
  case created
  have "uuid \<noteq> []" using created(2,3) assms(1)
    by (auto simp: experiments_good_def experiment_good_def experimentRecord_ok_def dest: uuid_format_nonempty)
  with created(5,7) show ?thesis by simp
qed simp

lemma create_replay:
  assumes "experiments_good is_uuid xs" and "experiment_create is_uuid t p uuid now xs = Inr (r, xs')"
  shows "experiment_create is_uuid t p uuid' now' xs' = Inr (r, xs')"
  using assms(2) create_files [OF assms]
  by (auto simp: experiment_create_def createExperimentParamsSchema_parse_def Let_def)

lemma assign_files:
  assumes "experiments_good is_uuid xs" and "experiment_assign is_uuid t p uuid now xs = Inr ((a, old), xs')"
  shows "find_existing (xs_assignments xs')
    (assignmentKey t (ap_experimentId p) (trim (ap_entityType p)) (trim (ap_entityId p))) = Some a"
  using assms(2)
proof (cases rule: assign_effect)
  case (created e)
  have "uuid \<noteq> []" using created(2,4) assms(1)
    by (auto simp: experiments_good_def experimentAssignmentRecord_ok_def dest: uuid_format_nonempty)
  with created(6,10) show ?thesis by simp
qed simp

text \<open>Once a unit has an assignment, assigning it again returns that assignment and writes nothing.\<close>

lemma assign_again:
  assumes "find_existing (xs_assignments xs)
      (assignmentKey t (ap_experimentId p) (trim (ap_entityType p)) (trim (ap_entityId p))) = Some a"
    and "experiment_assign is_uuid t p uuid now xs = Inr (res, xs')"
  shows "res = (a, True) \<and> xs' = xs"
proof -
  obtain b old where "res = (b, old)" by (cases res)
  with assms(2) have "experiment_assign is_uuid t p uuid now xs = Inr ((b, old), xs')" by simp
  then show ?thesis
    by (cases rule: assign_effect) (use assms(1) \<open>res = (b, old)\<close> in auto)
qed

text \<open>Whether an assignment is accepted depends on the parameters and the experiment only.\<close>

definition assign_allowed :: "(string \<Rightarrow> bool) \<Rightarrow> string \<Rightarrow> assignExperimentParams \<Rightarrow> experiments \<Rightarrow> bool" where
  "assign_allowed is_uuid t p xs \<longleftrightarrow>
     is_uuid t \<and> (\<exists>q. assignExperimentParamsSchema_parse is_uuid p = Inr q) \<and>
     (\<exists>e. get_by_id (xs_experiments xs) (ap_experimentId p) = Some e \<and> ex_tenantId e = t \<and>
        (ex_status e = ExDraft \<or> ex_status e = ExRunning))"

lemma assign_Inr_allowed:
  "experiment_assign is_uuid t p uuid now xs = Inr (res, xs') \<Longrightarrow> assign_allowed is_uuid t p xs"
  by (auto simp: experiment_assign_def assign_allowed_def assignExperimentParamsSchema_parse_def getById_Inr
      split: option.splits if_splits)

lemma assign_existing:
  assumes "assign_allowed is_uuid t p xs"
    and "find_existing (xs_assignments xs)
      (assignmentKey t (ap_experimentId p) (trim (ap_entityType p)) (trim (ap_entityId p))) = Some a"
  shows "experiment_assign is_uuid t p uuid now xs = Inr ((a, True), xs)"
  using assms
  by (auto simp: experiment_assign_def assign_allowed_def assignExperimentParamsSchema_parse_def
      experiment_getById_def Let_def)

lemma assign_replay:
  assumes "experiments_good is_uuid xs" and "experiment_assign is_uuid t p uuid now xs = Inr ((a, old), xs')"
  shows "experiment_assign is_uuid t p uuid' now' xs' = Inr ((a, True), xs')"
proof -
  have "xs_experiments xs' = xs_experiments xs"
    using assms(2) by (cases rule: assign_effect) simp_all
  then have "assign_allowed is_uuid t p xs'"
    using assign_Inr_allowed [OF assms(2)] by (simp add: assign_allowed_def)
  from assign_existing [OF this assign_files [OF assms]] show ?thesis .
qed

lemma record_files:
  assumes "experiments_good is_uuid xs" and "experiment_recordObservation is_uuid t p uuid now xs = Inr (r, xs')"
  shows "find_existing (xs_observations xs')
    (observationKey t (op_experimentId p) (trim (op_idempotencyKey p))) = Some r"
  using assms(2)
proof (cases rule: record_effect)
  case (created e)
  have "uuid \<noteq> []" using created(2,3) assms(1)
    by (auto simp: experiments_good_def experimentObservationRecord_ok_def dest: uuid_format_nonempty)
  with created(4,9) show ?thesis by simp
qed simp

lemma record_again:
  assumes "find_existing (xs_observations xs)
      (observationKey t (op_experimentId p) (trim (op_idempotencyKey p))) = Some r"
    and "experiment_recordObservation is_uuid t p uuid now xs = Inr (r', xs')"
  shows "r' = r \<and> xs' = xs"
  using assms(2) by (cases rule: record_effect) (use assms(1) in auto)

definition record_allowed ::
  "(string \<Rightarrow> bool) \<Rightarrow> string \<Rightarrow> recordExperimentObservationParams \<Rightarrow> experiments \<Rightarrow> bool" where
  "record_allowed is_uuid t p xs \<longleftrightarrow>
     is_uuid t \<and>
     (\<exists>q. recordExperimentObservationParamsSchema_parse is_uuid p = Inr q \<and> check_assignment t q xs = Inr ()) \<and>
     (\<exists>e. get_by_id (xs_experiments xs) (op_experimentId p) = Some e \<and> ex_tenantId e = t \<and>
        ex_status e \<in> {ExRunning, ExConcluded, ExPromoted, ExRolledBack})"

lemma observation_parse_keys:
  assumes "recordExperimentObservationParamsSchema_parse is_uuid p = Inr q"
  shows "op_experimentId q = op_experimentId p" "op_idempotencyKey q = trim (op_idempotencyKey p)"
  using assms by (auto simp: recordExperimentObservationParamsSchema_parse_def)

lemma record_Inr_allowed:
  "experiment_recordObservation is_uuid t p uuid now xs = Inr (r, xs') \<Longrightarrow> record_allowed is_uuid t p xs"
  by (auto simp: experiment_recordObservation_def record_allowed_def getById_Inr observation_parse_keys
      split: option.splits if_splits)

lemma record_existing:
  assumes "record_allowed is_uuid t p xs"
    and "find_existing (xs_observations xs)
      (observationKey t (op_experimentId p) (trim (op_idempotencyKey p))) = Some r"
  shows "experiment_recordObservation is_uuid t p uuid now xs = Inr (r, xs)"
proof -
  from assms(1) obtain q e where q: "is_uuid t" "recordExperimentObservationParamsSchema_parse is_uuid p = Inr q"
      "check_assignment t q xs = Inr ()" "get_by_id (xs_experiments xs) (op_experimentId p) = Some e"
      "ex_tenantId e = t" "ex_status e \<in> {ExRunning, ExConcluded, ExPromoted, ExRolledBack}"
    by (auto simp: record_allowed_def)
  have "experiment_getById is_uuid t (op_experimentId q) xs = Inr (Some e)"
    using q observation_parse_keys [OF q(2)] by (simp add: getById_Some)
  with q assms(2) observation_parse_keys [OF q(2)] tenantIdSchema_parse_valid [of is_uuid t] show ?thesis
    by (auto simp: experiment_recordObservation_def Let_def)
qed

lemma record_replay:
  assumes "experiments_good is_uuid xs" and "experiment_recordObservation is_uuid t p uuid now xs = Inr (r, xs')"
  shows "experiment_recordObservation is_uuid t p uuid' now' xs' = Inr (r, xs')"
proof -
  have same: "xs_experiments xs' = xs_experiments xs" "xs_assignments xs' = xs_assignments xs"
    using assms(2) by (cases rule: record_effect; simp)+
  have "check_assignment a q xs' = check_assignment a q xs" for a q
    unfolding check_assignment_def same ..
  then have "record_allowed is_uuid t p xs'"
    using record_Inr_allowed [OF assms(2)] same by (simp add: record_allowed_def)
  from record_existing [OF this record_files [OF assms]] show ?thesis .
qed

interpretation create_once: idempotent_command
  "\<lambda>(t, p) (uuid, now) xs. experiment_create is_uuid t p uuid now xs" "experiments_good is_uuid"
  "\<lambda>(uuid, now) xs. get_by_id (xs_experiments xs) uuid = None" "(=)" for is_uuid
  by unfold_locales
    (auto simp: split_paired_all intro: create_replay experiments_step_good step_create split: prod.splits)

interpretation assign_once: idempotent_command
  "\<lambda>(t, p) (uuid, now) xs. experiment_assign is_uuid t p uuid now xs" "experiments_good is_uuid"
  "\<lambda>(uuid, now) xs. get_by_id (xs_assignments xs) uuid = None" "\<lambda>x y. fst x = fst y" for is_uuid
  by unfold_locales
    (auto simp: split_paired_all intro: assign_replay experiments_step_good step_assign split: prod.splits)

interpretation observe_once: idempotent_command
  "\<lambda>(t, p) (uuid, now) xs. experiment_recordObservation is_uuid t p uuid now xs" "experiments_good is_uuid"
  "\<lambda>(uuid, now) xs. get_by_id (xs_observations xs) uuid = None" "(=)" for is_uuid
  by unfold_locales
    (auto simp: split_paired_all intro: record_replay experiments_step_good step_observe split: prod.splits)

text \<open>What is filed under a key stays filed under it.\<close>

lemma filed_assignment_stays:
  assumes "experiments_good is_uuid xs" and "(experiments_step is_uuid)\<^sup>*\<^sup>* xs xs'"
    and "find_existing (xs_assignments xs) k = Some a"
  shows "find_existing (xs_assignments xs') k = Some a"
proof -
  have inv: "experiments_inv is_uuid xs" "experiments_inv is_uuid xs'"
    using assms(1) experiment_life.steps_inv [OF assms(2,1)] by (simp_all add: experiments_good_def)
  have a: "get_by_id (xs_assignments xs) (as_id a) = Some a" "as_key a = k"
    using assms(3) by (simp_all add: find_existing_Some [OF experiments_invD(2) [OF inv(1)]])
  have "get_by_id (xs_assignments xs') (as_id a) = Some a"
    using assignment_ledger.ledger.terminal_stays [OF assms(2,1) a(1)] by simp
  with a(2) show ?thesis by (simp add: find_existing_Some [OF experiments_invD(2) [OF inv(2)]])
qed

lemma filed_observation_stays:
  assumes "experiments_good is_uuid xs" and "(experiments_step is_uuid)\<^sup>*\<^sup>* xs xs'"
    and "find_existing (xs_observations xs) k = Some r"
  shows "find_existing (xs_observations xs') k = Some r"
proof -
  have inv: "experiments_inv is_uuid xs" "experiments_inv is_uuid xs'"
    using assms(1) experiment_life.steps_inv [OF assms(2,1)] by (simp_all add: experiments_good_def)
  have r: "get_by_id (xs_observations xs) (ob_id r) = Some r" "ob_key r = k"
    using assms(3) by (simp_all add: find_existing_Some [OF experiments_invD(3) [OF inv(1)]])
  have "get_by_id (xs_observations xs') (ob_id r) = Some r"
    using observation_ledger.ledger.terminal_stays [OF assms(2,1) r(1)] by simp
  with r(2) show ?thesis by (simp add: find_existing_Some [OF experiments_invD(3) [OF inv(2)]])
qed

section \<open>Evidence\<close>

lemma mean_eq: "mean vs = (if vs = [] then None else Some (sum_list vs / of_nat (length vs)))"
proof -
  have "foldl (+) a vs = a + sum_list vs" for a :: number
    by (induction vs arbitrary: a) simp_all
  then show ?thesis by (simp add: mean_def)
qed

lemma mean_Some: "mean vs = Some m \<longleftrightarrow> vs \<noteq> [] \<and> m * of_nat (length vs) = sum_list vs"
  by (auto simp: mean_eq divide_eq_eq)

lemma mean_between:
  assumes "mean vs = Some m" and "\<And>v. v \<in> set vs \<Longrightarrow> lo \<le> v \<and> v \<le> hi"
  shows "lo \<le> m \<and> m \<le> hi"
proof -
  have "lo * of_nat (length vs) \<le> sum_list vs \<and> sum_list vs \<le> hi * of_nat (length vs)"
    using assms(2) by (induction vs) (force simp: algebra_simps)+
  moreover have "0 < (of_nat (length vs) :: number)" "m * of_nat (length vs) = sum_list vs"
    using assms(1) by (simp_all add: mean_Some)
  ultimately show ?thesis by (metis mult_le_cancel_right not_less)
qed

text \<open>The observations a summary is about, and those of one variant.\<close>

definition outcomes :: "experiments \<Rightarrow> string \<Rightarrow> string \<Rightarrow> string \<Rightarrow> experimentObservationRecord set" where
  "outcomes xs tenant experimentId metric =
     {r. get_by_id (xs_observations xs) (ob_id r) = Some r \<and> ob_tenantId r = tenant \<and>
         ob_experimentId r = experimentId \<and> \<not> ob_isGuardrail r \<and> ob_metricName r = metric}"

definition guardrails :: "experiments \<Rightarrow> string \<Rightarrow> string \<Rightarrow> string \<Rightarrow> experimentObservationRecord set" where
  "guardrails xs tenant experimentId metric =
     {r. get_by_id (xs_observations xs) (ob_id r) = Some r \<and> ob_tenantId r = tenant \<and>
         ob_experimentId r = experimentId \<and> ob_isGuardrail r \<and> ob_metricName r = metric}"

definition of_variant :: "experimentVariant \<Rightarrow> experimentObservationRecord set \<Rightarrow> experimentObservationRecord set" where
  "of_variant v R = {r \<in> R. ob_variant r = v}"

text \<open>
  What a guardrail metric lost: how much its average over variant B exceeds that over variant A, never
  negative, and zero when one of the variants has no such observation or no guardrail is named.
\<close>

definition average :: "experimentObservationRecord set \<Rightarrow> number" where
  "average S = sum ob_metricValue S / of_nat (card S)"

definition guardrail_regression :: "experimentObservationRecord set \<Rightarrow> number" where
  "guardrail_regression G =
     (if of_variant VariantA G = {} \<or> of_variant VariantB G = {} then 0
      else max 0 (average (of_variant VariantB G) - average (of_variant VariantA G)))"

definition named_guardrails ::
  "experiments \<Rightarrow> string \<Rightarrow> string \<Rightarrow> string option \<Rightarrow> experimentObservationRecord set" where
  "named_guardrails xs tenant experimentId g =
     (case g of None \<Rightarrow> {} | Some m \<Rightarrow> if m = [] then {} else guardrails xs tenant experimentId m)"

lemma mean_average:
  assumes "distinct rs"
  shows "mean (map ob_metricValue (filter (\<lambda>r. ob_variant r = v) rs)) =
    (if of_variant v (set rs) = {} then None else Some (average (of_variant v (set rs))))"
proof -
  have d: "distinct (filter (\<lambda>r. ob_variant r = v) rs)" using assms by simp
  have "set (filter (\<lambda>r. ob_variant r = v) rs) = of_variant v (set rs)" by (auto simp: of_variant_def)
  then show ?thesis
    using sum_list_distinct_conv_sum_set [OF d, of ob_metricValue] distinct_card [OF d]
    by (auto simp: mean_eq average_def filter_empty_conv of_variant_def)
qed

lemma mean_of_filter:
  assumes "distinct rs" and "mean (map f (filter P rs)) = Some m"
  shows "{r \<in> set rs. P r} \<noteq> {} \<and> m * of_nat (card {r \<in> set rs. P r}) = sum f {r \<in> set rs. P r}"
proof -
  have d: "distinct (filter P rs)" using assms(1) by simp
  have "sum_list (map f (filter P rs)) = sum f (set (filter P rs))"
    using d by (rule sum_list_distinct_conv_sum_set)
  moreover have "length (filter P rs) = card (set (filter P rs))"
    using distinct_card [OF d] by simp
  moreover have "filter P rs \<noteq> []" "m * of_nat (length (filter P rs)) = sum_list (map f (filter P rs))"
    using assms(2) by (simp_all add: mean_Some)
  ultimately show ?thesis by (auto simp: filter_empty_conv)
qed

lemma card_image_keys:
  "length (remdups (map f rs)) = card (f ` set rs)"
  by (simp add: length_remdups_card_conv)

definition guardrail_rows ::
  "string option \<Rightarrow> experimentObservationRecord list \<Rightarrow> experimentObservationRecord list" where
  "guardrail_rows g rs =
     (case g of None \<Rightarrow> []
      | Some m \<Rightarrow> if m = [] then [] else filter (\<lambda>r. ob_isGuardrail r \<and> ob_metricName r = m) rs)"

lemma regression_of_rows:
  assumes "distinct rows"
  shows "max 0 (case (mean (map ob_metricValue (filter (\<lambda>r. ob_variant r = VariantA) rows)),
                      mean (map ob_metricValue (filter (\<lambda>r. ob_variant r = VariantB) rows))) of
                  (Some a, Some b) \<Rightarrow> b - a | _ \<Rightarrow> 0) = guardrail_regression (set rows)"
  by (simp add: mean_average [OF assms] guardrail_regression_def)

lemma summarize_Some:
  assumes "summarizeEvidenceRecords x metric rs g = Some s"
  obtains a b where
    "mean (map ob_metricValue (filter (\<lambda>r. ob_variant r = VariantA)
       (filter (\<lambda>r. \<not> ob_isGuardrail r \<and> ob_metricName r = metric) rs))) = Some a"
    "mean (map ob_metricValue (filter (\<lambda>r. ob_variant r = VariantB)
       (filter (\<lambda>r. \<not> ob_isGuardrail r \<and> ob_metricName r = metric) rs))) = Some b"
    "ee_baselineMetric s = a" "ee_candidateMetric s = b" "0 \<le> ee_worstGuardrailRegression s"
    "ee_evidenceCount s = of_nat (length (filter (\<lambda>r. \<not> ob_isGuardrail r \<and> ob_metricName r = metric) rs))"
    "ee_uniqueEntities s = of_nat (length (remdups (map (\<lambda>r. colon_key (ob_entityType r) (ob_entityId r))
       (filter (\<lambda>r. \<not> ob_isGuardrail r \<and> ob_metricName r = metric) rs))))"
    "ee_meanAttributionConfidence s = nullish_or (mean (map ob_attributionConfidence
       (filter (\<lambda>r. \<not> ob_isGuardrail r \<and> ob_metricName r = metric) rs))) 0"
    "ee_experimentId s = x" "ee_metricName s = metric"
    "ee_worstGuardrailRegression s =
       max 0 (case (mean (map ob_metricValue (filter (\<lambda>r. ob_variant r = VariantA) (guardrail_rows g rs))),
                    mean (map ob_metricValue (filter (\<lambda>r. ob_variant r = VariantB) (guardrail_rows g rs)))) of
                (Some a, Some b) \<Rightarrow> b - a | _ \<Rightarrow> 0)"
proof -
  define rows where "rows = filter (\<lambda>r. \<not> ob_isGuardrail r \<and> ob_metricName r = metric) rs"
  from assms obtain a b where
    "mean (map ob_metricValue (filter (\<lambda>r. ob_variant r = VariantA) rows)) = Some a"
    "mean (map ob_metricValue (filter (\<lambda>r. ob_variant r = VariantB) rows)) = Some b"
    by (auto simp: summarizeEvidenceRecords_def rows_def [symmetric] Let_def split: option.splits)
  moreover from this assms show thesis
    by (intro that [of a b])
      (auto simp: summarizeEvidenceRecords_def rows_def [symmetric] guardrail_rows_def Let_def)
qed

lemma evidence_summary_facts:
  assumes "experiments_inv is_uuid xs"
    and "experiment_summarizeEvidence is_uuid t x metric g xs = Inr (Some s)"
  defines "O_all \<equiv> outcomes xs t x metric"
  shows "ee_evidenceCount s = of_nat (card O_all)"
    "ee_uniqueEntities s = of_nat (card ((\<lambda>r. colon_key (ob_entityType r) (ob_entityId r)) ` O_all))"
    "finite O_all" "of_variant VariantA O_all \<noteq> {}" "of_variant VariantB O_all \<noteq> {}"
    "ee_baselineMetric s * of_nat (card (of_variant VariantA O_all)) = sum ob_metricValue (of_variant VariantA O_all)"
    "ee_candidateMetric s * of_nat (card (of_variant VariantB O_all)) = sum ob_metricValue (of_variant VariantB O_all)"
    "in_unit (ee_meanAttributionConfidence s)" "0 \<le> ee_worstGuardrailRegression s"
    "ee_meanAttributionConfidence s * of_nat (card O_all) = sum ob_attributionConfidence O_all"
    "ee_worstGuardrailRegression s = guardrail_regression (named_guardrails xs t x g)"
proof -
  note ok = experiments_invD(3) [OF assms(1)]
  define rs where "rs = filter (\<lambda>r. ob_tenantId r = t \<and> ob_experimentId r = x) (store_values (xs_observations xs))"
  define rows where "rows = filter (\<lambda>r. \<not> ob_isGuardrail r \<and> ob_metricName r = metric) rs"
  have "summarizeEvidenceRecords x metric rs g = Some s"
    using assms(2) by (auto simp: experiment_summarizeEvidence_def rs_def split: option.splits)
  then obtain a b where sm:
      "mean (map ob_metricValue (filter (\<lambda>r. ob_variant r = VariantA) rows)) = Some a"
      "mean (map ob_metricValue (filter (\<lambda>r. ob_variant r = VariantB) rows)) = Some b"
      "ee_baselineMetric s = a" "ee_candidateMetric s = b" "0 \<le> ee_worstGuardrailRegression s"
      "ee_evidenceCount s = of_nat (length rows)"
      "ee_uniqueEntities s = of_nat (length (remdups (map (\<lambda>r. colon_key (ob_entityType r) (ob_entityId r)) rows)))"
      "ee_meanAttributionConfidence s = nullish_or (mean (map ob_attributionConfidence rows)) 0"
      "ee_worstGuardrailRegression s =
         max 0 (case (mean (map ob_metricValue (filter (\<lambda>r. ob_variant r = VariantA) (guardrail_rows g rs))),
                      mean (map ob_metricValue (filter (\<lambda>r. ob_variant r = VariantB) (guardrail_rows g rs)))) of
                  (Some a, Some b) \<Rightarrow> b - a | _ \<Rightarrow> 0)"
    unfolding rows_def by (rule summarize_Some)
  have drs: "distinct rs" using distinct_store_values [OF ok] by (simp add: rs_def)
  then have d: "distinct rows" "distinct (guardrail_rows g rs)"
    by (simp_all add: rows_def guardrail_rows_def split: option.split)
  have "set (guardrail_rows g rs) = named_guardrails xs t x g"
    using set_store_values [OF ok]
    by (auto simp: guardrail_rows_def named_guardrails_def guardrails_def rs_def split: option.splits)
  then show "ee_worstGuardrailRegression s = guardrail_regression (named_guardrails xs t x g)"
    using sm(9) regression_of_rows [OF d(2)] by simp
  have set_rows: "set rows = O_all"
    using set_store_values [OF ok] by (auto simp: rows_def rs_def assms(3) outcomes_def)
  have ne: "rows \<noteq> []" using sm(1) by (auto simp: mean_Some)
  have conf: "in_unit (ob_attributionConfidence r)" if "r \<in> set rows" for r
    using that store_okD(3) [OF ok] set_rows
    by (auto simp: assms(3) outcomes_def experimentObservationRecord_ok_def)
  obtain c where c: "mean (map ob_attributionConfidence rows) = Some c" using ne by (simp add: mean_eq)
  have "0 \<le> c \<and> c \<le> 1"
    by (rule mean_between [OF c]) (use conf in \<open>auto simp: in_unit_def\<close>)
  then show "in_unit (ee_meanAttributionConfidence s)" using sm c by (simp add: in_unit_def)
  have "c * of_nat (card (set rows)) = sum ob_attributionConfidence (set rows)"
    using c sum_list_distinct_conv_sum_set [OF d(1), of ob_attributionConfidence] distinct_card [OF d(1)]
    by (simp add: mean_Some)
  then show "ee_meanAttributionConfidence s * of_nat (card O_all) = sum ob_attributionConfidence O_all"
    using sm(8) c by (simp add: set_rows)
  show "finite O_all" using set_rows by (metis List.finite_set)
  show "ee_evidenceCount s = of_nat (card O_all)" using sm distinct_card [OF d(1)] by (simp add: set_rows)
  show "ee_uniqueEntities s = of_nat (card ((\<lambda>r. colon_key (ob_entityType r) (ob_entityId r)) ` O_all))"
    using sm by (simp add: card_image_keys set_rows)
  show "0 \<le> ee_worstGuardrailRegression s" by (rule sm(5))
  from mean_of_filter [OF d(1) sm(1)] sm(3)
  show "of_variant VariantA O_all \<noteq> {}"
    "ee_baselineMetric s * of_nat (card (of_variant VariantA O_all)) = sum ob_metricValue (of_variant VariantA O_all)"
    by (simp_all add: set_rows of_variant_def)
  from mean_of_filter [OF d(1) sm(2)] sm(4)
  show "of_variant VariantB O_all \<noteq> {}"
    "ee_candidateMetric s * of_nat (card (of_variant VariantB O_all)) = sum ob_metricValue (of_variant VariantB O_all)"
    by (simp_all add: set_rows of_variant_def)
qed


section \<open>A worked example\<close>

definition example_experiment_params :: createExperimentParams where
  "example_experiment_params =
     \<lparr>cx_experimentKey = ''e'', cx_motion = ''m'', cx_experimentType = ''ab'', cx_unitType = ''lead'',
      cx_hypothesis = ''h'', cx_variantA = [], cx_variantB = [], cx_metricName = ''r'',
      cx_metricDirection = None, cx_minSampleSize = 10, cx_initialStatus = Some ExRunning,
      cx_inputSnapshot = None, cx_modelVersion = None, cx_promptVersion = None,
      cx_playbookVersion = None, cx_policyVersion = None, cx_createdBy = ''u'', cx_startedAt = None\<rparr>"

definition example_observation_params ::
  "string \<Rightarrow> experimentVariant \<Rightarrow> number \<Rightarrow> bool \<Rightarrow> recordExperimentObservationParams" where
  "example_observation_params k v x guardrail =
     \<lparr>op_experimentId = ''1a'', op_assignmentId = None, op_idempotencyKey = k, op_entityType = ''lead'',
      op_entityId = k, op_variant = v, op_metricName = ''r'', op_metricValue = x,
      op_isGuardrail = Some guardrail, op_attributionConfidence = 1 / 2, op_attributionModel = ''m'',
      op_source = ''s'', op_costAmount = None, op_costCurrency = None, op_observedOutcome = None,
      op_evidence = None, op_observedAt = None\<rparr>"

definition example_assign_params :: "string \<Rightarrow> string \<Rightarrow> assignExperimentParams" where
  "example_assign_params et ei =
     \<lparr>ap_experimentId = ''1a'', ap_entityType = et, ap_entityId = ei, ap_variant = VariantA,
      ap_assignmentContext = None, ap_exposedAt = None\<rparr>"

definition example_xs1 :: experiments where
  "example_xs1 = state_after (experiment_create hex_id ''aa'' example_experiment_params ''1a'' 5 empty_experiments)
     empty_experiments"

definition example_xs2 :: experiments where
  "example_xs2 = state_after (experiment_recordObservation hex_id ''aa''
     (example_observation_params ''k1'' VariantA 2 False) ''b1'' 6 example_xs1) example_xs1"

definition example_xs3 :: experiments where
  "example_xs3 = state_after (experiment_recordObservation hex_id ''aa''
     (example_observation_params ''k2'' VariantB 3 False) ''b2'' 7 example_xs2) example_xs2"

lemma example_created:
  "experiment_create hex_id ''aa'' example_experiment_params ''1a'' 5 empty_experiments =
     Inr (value_of (experiment_create hex_id ''aa'' example_experiment_params ''1a'' 5 empty_experiments), example_xs1)"
  unfolding example_xs1_def by (rule call_result) code_simp

lemma example_observed:
  "experiment_recordObservation hex_id ''aa'' (example_observation_params ''k1'' VariantA 2 False) ''b1'' 6 example_xs1 =
     Inr (value_of (experiment_recordObservation hex_id ''aa'' (example_observation_params ''k1'' VariantA 2 False)
            ''b1'' 6 example_xs1), example_xs2)"
  "experiment_recordObservation hex_id ''aa'' (example_observation_params ''k2'' VariantB 3 False) ''b2'' 7 example_xs2 =
     Inr (value_of (experiment_recordObservation hex_id ''aa'' (example_observation_params ''k2'' VariantB 3 False)
            ''b2'' 7 example_xs2), example_xs3)"
   subgoal unfolding example_xs2_def by (rule call_result) code_simp
  subgoal unfolding example_xs3_def by (rule call_result) code_simp
  done

lemma example_steps:
  "experiments_step hex_id empty_experiments example_xs1"
  "experiments_step hex_id example_xs1 example_xs2"
  "experiments_step hex_id example_xs2 example_xs3"
    apply (rule step_create [OF example_created]) apply code_simp
   apply (rule step_observe [OF example_observed(1)]) apply code_simp
  apply (rule step_observe [OF example_observed(2)]) apply code_simp
  done

lemma example_reachable:
  "(experiments_step hex_id)\<^sup>*\<^sup>* empty_experiments example_xs1"
  "(experiments_step hex_id)\<^sup>*\<^sup>* empty_experiments example_xs3"
  using example_steps by (meson rtranclp.rtrancl_into_rtrancl rtranclp.rtrancl_refl)+

definition example_transition_params :: transitionExperimentParams where
  "example_transition_params = \<lparr>tx_winner = None, tx_confidence = None, tx_endedAt = None\<rparr>"

definition example_abandoned :: experiments where
  "example_abandoned = state_after (experiment_transition hex_id ''aa'' ''1a'' ExRunning ExAbandoned
     example_transition_params 8 example_xs3) example_xs3"

lemma example_abandoned_steps: "(experiments_step hex_id)\<^sup>*\<^sup>* example_xs1 example_abandoned"
proof -
  have "\<not> isl (experiment_transition hex_id ''aa'' ''1a'' ExRunning ExAbandoned example_transition_params 8 example_xs3)"
    by code_simp
  from call_result [OF this, of example_xs3] have "experiments_step hex_id example_xs3 example_abandoned"
    unfolding example_abandoned_def by (metis step_transition)
  then show ?thesis using example_steps(2,3) by (meson rtranclp.rtrancl_into_rtrancl rtranclp.rtrancl_refl)
qed

lemma example_xs1_good: "experiments_good hex_id example_xs1"
  by (rule experiments_reachable_good [OF uuid_format_hex_id example_reachable(1)])

section \<open>Properties\<close>

text \<open>
  C9. Experiments live by their state machine: in every history of the repository an experiment that
  exists is never lost, what it was set up with (owner, key, hypothesis, variants, metric, versions)
  never changes, its status moves only along the listed transitions, an experiment that is running,
  paused, concluded, promoted or rolled back has a start time and one that is over has an end time,
  and a start time is for good: whatever happens to an experiment that has one, being abandoned
  included, it keeps that very time; so an experiment that was once past its draft has a start time
  at every later moment.
\<close>

theorem experiment_history:
  assumes "uuid_format is_uuid" and "(experiments_step is_uuid)\<^sup>*\<^sup>* empty_experiments xs"
    and "(experiments_step is_uuid)\<^sup>*\<^sup>* xs xs'" and "get_by_id (xs_experiments xs) i = Some e"
  shows "\<exists>e'. get_by_id (xs_experiments xs') i = Some e' \<and> experiment_config e' = experiment_config e \<and>
    (\<lambda>a b. b \<in> set (experimentTransitions a))\<^sup>*\<^sup>* (ex_status e) (ex_status e') \<and> experiment_stamped e' \<and>
    (ex_startedAt e \<noteq> None \<longrightarrow> ex_startedAt e' = ex_startedAt e) \<and>
    (ex_status e \<notin> {ExDraft, ExAbandoned} \<longrightarrow> ex_startedAt e \<noteq> None \<and> ex_startedAt e' = ex_startedAt e)"
proof -
  note good = experiments_reachable_good [OF assms(1,2)]
  have "experiment_status_at xs i = Some (ex_status e)" using assms(4) by (simp add: experiment_status_at_def)
  from experiment_life.steps_status [OF assms(3) good this] obtain e' where
    e': "get_by_id (xs_experiments xs') i = Some e'"
      "(\<lambda>a b. b \<in> set (experimentTransitions a))\<^sup>*\<^sup>* (ex_status e) (ex_status e')"
    by (auto simp: experiment_status_at_def)
  have "map_option experiment_config (get_by_id (xs_experiments xs') i) = Some (experiment_config e)"
    by (rule experiment_setup.ledger.terminal_stays [OF assms(3) good]) (use assms(4) in auto)
  moreover have "experiments_inv is_uuid xs'"
    using experiment_life.steps_inv [OF assms(3) good] by (simp add: experiments_good_def)
  then have "experiment_stamped e'"
    using store_okD(3) [OF experiments_invD(1) e'(1)] by (simp add: experiment_good_def)
  moreover have "experiments_inv is_uuid xs" using good by (simp add: experiments_good_def)
  then have "experiment_stamped e"
    using store_okD(3) [OF experiments_invD(1) assms(4)] by (simp add: experiment_good_def)
  then have past: "ex_status e \<notin> {ExDraft, ExAbandoned} \<longrightarrow> ex_startedAt e \<noteq> None"
    by (simp add: experiment_stamped_def)
  have start: "ex_startedAt e \<noteq> None \<longrightarrow> ex_startedAt e' = ex_startedAt e"
  proof
    assume "ex_startedAt e \<noteq> None"
    then obtain x where x: "ex_startedAt e = Some x" by blast
    with assms(4) have "experiment_start xs i = Some x" by (simp add: experiment_start_def)
    with experiment_starts.ledger.terminal_stays [OF assms(3) good] have "experiment_start xs' i = Some x" by blast
    with e'(1) x show "ex_startedAt e' = ex_startedAt e" by (simp add: experiment_start_def)
  qed
  moreover have "ex_status e \<notin> {ExDraft, ExAbandoned} \<longrightarrow> ex_startedAt e \<noteq> None \<and> ex_startedAt e' = ex_startedAt e"
    using past start by blast
  ultimately show ?thesis using e' by (intro exI [of _ e'] conjI) simp_all
qed

theorem experiment_history_witness:
  "\<exists>e'. get_by_id (xs_experiments example_abandoned) ''1a'' = Some e' \<and> ex_status e' = ExAbandoned \<and>
     ex_startedAt e' = Some 5"
proof -
  have "ex_status (the (get_by_id (xs_experiments example_xs1) ''1a'')) = ExRunning"
    "ex_startedAt (the (get_by_id (xs_experiments example_xs1) ''1a'')) = Some 5"
    "get_by_id (xs_experiments example_xs1) ''1a'' \<noteq> None"
    "ex_status (the (get_by_id (xs_experiments example_abandoned) ''1a'')) = ExAbandoned"
    by code_simp+
  then obtain e where e: "get_by_id (xs_experiments example_xs1) ''1a'' = Some e" "ex_status e = ExRunning"
      "ex_startedAt e = Some 5" and e': "ex_status (the (get_by_id (xs_experiments example_abandoned) ''1a'')) = ExAbandoned"
    by auto
  from experiment_history [OF uuid_format_hex_id example_reachable(1) example_abandoned_steps e(1)] e(2,3) e'
  show ?thesis by auto
qed

text \<open>
  C10. Referential integrity of a reachable repository: every assignment and every observation belongs
  to an experiment of the same tenant, an observation that names an assignment agrees with it on
  tenant, experiment, entity and variant, and no unit of an experiment has two assignments.
\<close>

theorem experiment_references_intact:
  assumes "uuid_format is_uuid" and "(experiments_step is_uuid)\<^sup>*\<^sup>* empty_experiments xs"
  shows "assignments_linked xs \<and> observations_linked xs \<and>
    (\<forall>i j a b. get_by_id (xs_assignments xs) i = Some a \<longrightarrow> get_by_id (xs_assignments xs) j = Some b \<longrightarrow>
       as_key a = as_key b \<longrightarrow> i = j \<and> as_variant a = as_variant b)"
proof -
  have inv: "experiments_inv is_uuid xs"
    using experiments_reachable_good [OF assms] by (simp add: experiments_good_def)
  have "i = j \<and> a = b" if "get_by_id (xs_assignments xs) i = Some a" "get_by_id (xs_assignments xs) j = Some b"
      "as_key a = as_key b" for i j a b
    using that store_okD(4) [OF experiments_invD(2) [OF inv]] by (metis option.inject)
  with experiments_invD(4,5) [OF inv] show ?thesis by metis
qed

theorem experiment_references_intact_witness: "assignments_linked example_xs3 \<and> observations_linked example_xs3"
  using experiment_references_intact [OF uuid_format_hex_id example_reachable(2)] by simp

text \<open>
  Assignments are sticky: once a unit has been assigned, whatever happens later, a further
  assignment of the same unit that is accepted returns the original assignment, with its variant,
  says so, and writes nothing.
\<close>

theorem assignment_is_sticky:
  assumes "experiments_good is_uuid xs" and "get_by_id (xs_assignments xs) uuid = None"
    and "experiment_assign is_uuid t p uuid now xs = Inr ((a, old), xs1)"
    and "(experiments_step is_uuid)\<^sup>*\<^sup>* xs1 xs2"
    and "ap_experimentId p' = ap_experimentId p" and "trim (ap_entityType p') = trim (ap_entityType p)"
    and "trim (ap_entityId p') = trim (ap_entityId p)"
    and "experiment_assign is_uuid t p' uuid' now' xs2 = Inr (res, xs3)"
  shows "res = (a, True) \<and> xs3 = xs2"
proof -
  have "experiments_good is_uuid xs1"
    using assign_once.run_inv [where s = xs and e = "(uuid, now)" and c = "(t, p)"] assms(1-3) by auto
  from filed_assignment_stays [OF this assms(4) assign_files [OF assms(1,3)]]
  show ?thesis using assign_again [OF _ assms(8)] assms(5-7) by simp
qed

definition example_xs1_assigned :: experiments where
  "example_xs1_assigned = state_after (experiment_assign hex_id ''aa'' (example_assign_params ''a:b'' ''c'') ''c1'' 6
     example_xs1) example_xs1"

lemma example_assigned:
  "\<exists>a old. experiment_assign hex_id ''aa'' (example_assign_params ''a:b'' ''c'') ''c1'' 6 example_xs1 =
     Inr ((a, old), example_xs1_assigned)"
proof -
  have "\<not> isl (experiment_assign hex_id ''aa'' (example_assign_params ''a:b'' ''c'') ''c1'' 6 example_xs1)"
    by code_simp
  from call_result [OF this, of example_xs1] show ?thesis
    unfolding example_xs1_assigned_def by (metis surj_pair)
qed

lemma example_xs1_fresh: "get_by_id (xs_assignments example_xs1) i = None"
proof -
  have "byId (xs_assignments example_xs1) = []" by code_simp
  then show ?thesis by simp
qed

theorem assignment_is_sticky_witness:
  "\<exists>a res xs3. experiment_assign hex_id ''aa'' (example_assign_params '' a:b '' ''c'') ''d1'' 9 example_xs1_assigned =
     Inr (res, xs3) \<and> res = (a, True) \<and> xs3 = example_xs1_assigned"
proof -
  obtain a old where a: "experiment_assign hex_id ''aa'' (example_assign_params ''a:b'' ''c'') ''c1'' 6 example_xs1 =
      Inr ((a, old), example_xs1_assigned)"
    using example_assigned by blast
  have "\<not> isl (experiment_assign hex_id ''aa'' (example_assign_params '' a:b '' ''c'') ''d1'' 9 example_xs1_assigned)"
    by code_simp
  from call_result [OF this, of example_xs1_assigned] obtain res xs3 where
    r: "experiment_assign hex_id ''aa'' (example_assign_params '' a:b '' ''c'') ''d1'' 9 example_xs1_assigned = Inr (res, xs3)"
    by blast
  have "trim '' a:b '' = trim ''a:b''" by code_simp
  then show ?thesis
    using assignment_is_sticky [OF example_xs1_good example_xs1_fresh a rtranclp.rtrancl_refl _ _ _ r] r
    by (auto simp: example_assign_params_def)
qed

text \<open>
  Observations are recorded once and for all: whatever happens after an observation was accepted,
  a further one with the same tenant, experiment and idempotency key that is accepted returns the
  first record, whatever else it claims, and writes nothing; the record itself is never changed.
\<close>

theorem observation_recorded_once:
  assumes "experiments_good is_uuid xs" and "get_by_id (xs_observations xs) uuid = None"
    and "experiment_recordObservation is_uuid t p uuid now xs = Inr (r, xs1)"
    and "(experiments_step is_uuid)\<^sup>*\<^sup>* xs1 xs2"
  shows "get_by_id (xs_observations xs2) (ob_id r) = Some r \<and>
    (\<forall>p' uuid' now' r' xs3. op_experimentId p' = op_experimentId p \<longrightarrow>
       trim (op_idempotencyKey p') = trim (op_idempotencyKey p) \<longrightarrow>
       experiment_recordObservation is_uuid t p' uuid' now' xs2 = Inr (r', xs3) \<longrightarrow> r' = r \<and> xs3 = xs2)"
proof -
  have good: "experiments_good is_uuid xs1"
    using observe_once.run_inv [where s = xs and e = "(uuid, now)" and c = "(t, p)"] assms(1-3) by auto
  have filed: "find_existing (xs_observations xs2)
      (observationKey t (op_experimentId p) (trim (op_idempotencyKey p))) = Some r"
    by (rule filed_observation_stays [OF good assms(4) record_files [OF assms(1,3)]])
  have "experiments_inv is_uuid xs2"
    using experiment_life.steps_inv [OF assms(4) good] by (simp add: experiments_good_def)
  with filed have "get_by_id (xs_observations xs2) (ob_id r) = Some r"
    by (simp add: find_existing_Some [OF experiments_invD(3)])
  moreover have "r' = r \<and> xs3 = xs2" if "op_experimentId p' = op_experimentId p"
      "trim (op_idempotencyKey p') = trim (op_idempotencyKey p)"
      "experiment_recordObservation is_uuid t p' uuid' now' xs2 = Inr (r', xs3)" for p' uuid' now' r' xs3
    using record_again [OF _ that(3)] filed that(1,2) by simp
  ultimately show ?thesis by blast
qed

theorem observation_recorded_once_witness:
  "\<exists>r. get_by_id (xs_observations example_xs3) (ob_id r) = Some r \<and> ob_metricValue r = 2"
proof -
  have fresh: "get_by_id (xs_observations example_xs1) ''b1'' = None" by code_simp
  have steps: "(experiments_step hex_id)\<^sup>*\<^sup>* example_xs2 example_xs3"
    using example_steps(3) by blast
  have "ob_metricValue (value_of (experiment_recordObservation hex_id ''aa''
      (example_observation_params ''k1'' VariantA 2 False) ''b1'' 6 example_xs1)) = 2" by code_simp
  with observation_recorded_once [OF example_xs1_good fresh example_observed(1) steps] show ?thesis by blast
qed


text \<open>
  The in-memory key of a unit joins entity type and entity id with a colon, so two different units
  can collide: after the first has been assigned, assigning the second returns the first one's
  assignment and records nothing for the second. (The Postgres index is on the two columns.)
\<close>

theorem assignment_unit_collision:
  assumes "experiments_good is_uuid xs" and "get_by_id (xs_assignments xs) uuid = None"
    and "experiment_assign is_uuid t p uuid now xs = Inr ((a, old), xs1)"
    and "trim (ap_entityType p) = et @ '':'' @ mid" and "trim (ap_entityId p) = ei"
    and "ap_experimentId p' = ap_experimentId p" and "ap_entityType p' = et"
    and "ap_entityId p' = mid @ '':'' @ ei" and "is_text et" and "is_text (mid @ '':'' @ ei)"
  shows "trim (ap_entityType p') \<noteq> trim (ap_entityType p) \<and>
    experiment_assign is_uuid t p' uuid' now' xs1 = Inr ((a, True), xs1)"
proof
  show "trim (ap_entityType p') \<noteq> trim (ap_entityType p)"
    using assms(4,7,9) by (simp add: is_textD)
  have same: "xs_experiments xs1 = xs_experiments xs"
    using assms(3) by (cases rule: assign_effect) simp_all
  have "assign_allowed is_uuid t p' xs1"
    using assign_Inr_allowed [OF assms(3)] assms(6-10)
    by (auto simp: assign_allowed_def same assignExperimentParamsSchema_parse_def zod_parse_def
        assignExperimentParams_ok_def is_textD split: if_splits)
  moreover have "assignmentKey t (ap_experimentId p') (trim (ap_entityType p')) (trim (ap_entityId p')) =
      assignmentKey t (ap_experimentId p) (trim (ap_entityType p)) (trim (ap_entityId p))"
    using assms(4-10) by (simp add: is_textD assignmentKey_def colon_key_def)
  ultimately show "experiment_assign is_uuid t p' uuid' now' xs1 = Inr ((a, True), xs1)"
    using assign_existing assign_files [OF assms(1,3)] by simp
qed

theorem assignment_unit_collision_witness:
  "\<exists>a. experiment_assign hex_id ''aa'' (example_assign_params ''a'' ''b:c'') ''d1'' 9 example_xs1_assigned =
     Inr ((a, True), example_xs1_assigned)"
proof -
  obtain a old where a: "experiment_assign hex_id ''aa'' (example_assign_params ''a:b'' ''c'') ''c1'' 6 example_xs1 =
      Inr ((a, old), example_xs1_assigned)"
    using example_assigned by blast
  have "trim ''a:b'' = ''a'' @ '':'' @ ''b''" "trim ''c'' = ''c''" "is_text ''a''" "is_text (''b'' @ '':'' @ ''c'')"
    by code_simp+
  then show ?thesis
    using assignment_unit_collision [OF example_xs1_good example_xs1_fresh a, of "''a''" "''b''" "''c''"
        "example_assign_params ''a'' ''b:c''" "''d1''" 9]
    by (auto simp: example_assign_params_def)
qed

end
