(* ===== verification/Proposals.thy ===== *)
theory Proposals
  imports ControlPlane Outbox
begin

text \<open>
  Learning proposals: schemas, evaluation, human approval with its durable event, leased promotion
  claims with fencing tokens, promotion and rollback, from the in-memory repository of
  \<open>src/packages/db/src/adaptive-control-plane-repository.ts\<close>. The repository writes approval events
  to the outbox it is constructed with, so its state holds that outbox.
\<close>

section \<open>Schemas\<close>

datatype learningProposalStatus =
  LpAwaitingEvidence | LpEvaluating | LpRequiresApproval | LpApproved | LpRejected | LpPromoted | LpRolledBack

record learningProposalRecord =
  lp_id :: string
  lp_tenantId :: string
  lp_proposalKey :: string
  lp_experimentId :: "string option"
  lp_targetType :: string
  lp_targetId :: string
  lp_risk :: changeRisk
  lp_status :: learningProposalStatus
  lp_proposalPayload :: json_record
  lp_evidenceSnapshot :: json_record
  lp_evaluationSnapshot :: json_record
  lp_decision :: "learningVerdict option"
  lp_decisionReasons :: "string list"
  lp_baseVersionRef :: "string option"
  lp_candidateVersionRef :: "string option"
  lp_promotedVersionRef :: "string option"
  lp_rollbackVersionRef :: "string option"
  lp_humanApprovedBy :: "string option"
  lp_humanApprovedAt :: "date option"
  lp_promotionClaimToken :: "string option"
  lp_promotionClaimExpiresAt :: "date option"
  lp_createdBy :: string
  lp_evaluatedAt :: "date option"
  lp_promotedAt :: "date option"
  lp_rolledBackAt :: "date option"
  lp_createdAt :: date
  lp_updatedAt :: date

definition learningProposalRecord_ok :: "(string \<Rightarrow> bool) \<Rightarrow> learningProposalRecord \<Rightarrow> bool" where
  "learningProposalRecord_ok is_uuid r \<longleftrightarrow>
     is_uuid (lp_id r) \<and> is_uuid (lp_tenantId r) \<and> is_text (lp_proposalKey r) \<and>
     pred_opt is_uuid (lp_experimentId r) \<and> is_text (lp_targetType r) \<and> is_text (lp_targetId r) \<and>
     list_all is_text (lp_decisionReasons r) \<and> pred_opt is_uuid (lp_promotionClaimToken r) \<and>
     is_text (lp_createdBy r)"

definition learningProposalRecordSchema_parse ::
  "(string \<Rightarrow> bool) \<Rightarrow> learningProposalRecord \<Rightarrow> learningProposalRecord result" where
  "learningProposalRecordSchema_parse is_uuid =
     zod_parse (\<lambda>r. r\<lparr>lp_proposalKey := trim (lp_proposalKey r), lp_targetType := trim (lp_targetType r),
                     lp_targetId := trim (lp_targetId r),
                     lp_decisionReasons := map trim (lp_decisionReasons r),
                     lp_createdBy := trim (lp_createdBy r)\<rparr>)
       (learningProposalRecord_ok is_uuid)"

record createLearningProposalParams =
  cl_proposalKey :: string
  cl_experimentId :: "string option"
  cl_targetType :: string
  cl_targetId :: string
  cl_risk :: changeRisk
  cl_proposalPayload :: json_record
  cl_baseVersionRef :: "string option"
  cl_candidateVersionRef :: "string option"
  cl_createdBy :: string

definition createLearningProposalParams_ok ::
  "(string \<Rightarrow> bool) \<Rightarrow> createLearningProposalParams \<Rightarrow> bool" where
  "createLearningProposalParams_ok is_uuid p \<longleftrightarrow>
     is_text (cl_proposalKey p) \<and> pred_opt is_uuid (cl_experimentId p) \<and> is_text (cl_targetType p) \<and>
     is_text (cl_targetId p) \<and> text_opt (cl_baseVersionRef p) \<and> text_opt (cl_candidateVersionRef p) \<and>
     is_text (cl_createdBy p)"

definition createLearningProposalParamsSchema_parse ::
  "(string \<Rightarrow> bool) \<Rightarrow> createLearningProposalParams \<Rightarrow> createLearningProposalParams result" where
  "createLearningProposalParamsSchema_parse is_uuid =
     zod_parse (\<lambda>p. p\<lparr>cl_proposalKey := trim (cl_proposalKey p), cl_targetType := trim (cl_targetType p),
                     cl_targetId := trim (cl_targetId p), cl_baseVersionRef := trim_opt (cl_baseVersionRef p),
                     cl_candidateVersionRef := trim_opt (cl_candidateVersionRef p),
                     cl_createdBy := trim (cl_createdBy p)\<rparr>)
       (createLearningProposalParams_ok is_uuid)"

record recordEvaluationParams =
  re_decision :: learningVerdict
  re_evidenceSnapshot :: json_record
  re_evaluationSnapshot :: json_record
  re_decisionReasons :: "string list"

definition recordEvaluationParams_ok :: "recordEvaluationParams \<Rightarrow> bool" where
  "recordEvaluationParams_ok p \<longleftrightarrow> list_all is_text (re_decisionReasons p) \<and> re_decisionReasons p \<noteq> []"

definition recordEvaluationParamsSchema_parse :: "recordEvaluationParams \<Rightarrow> recordEvaluationParams result" where
  "recordEvaluationParamsSchema_parse =
     zod_parse (\<lambda>p. p\<lparr>re_decisionReasons := map trim (re_decisionReasons p)\<rparr>) recordEvaluationParams_ok"

section \<open>Claims and approval events\<close>

definition MIN_PROMOTION_CLAIM_LEASE_MS :: number where
  "MIN_PROMOTION_CLAIM_LEASE_MS = 1000"

definition MAX_PROMOTION_CLAIM_LEASE_MS :: number where
  "MAX_PROMOTION_CLAIM_LEASE_MS = 15 * 60000"

definition DEFAULT_PROMOTION_CLAIM_LEASE_MS :: number where
  "DEFAULT_PROMOTION_CLAIM_LEASE_MS = 60000"

record promotionClaimOptions =
  co_leaseMs :: "number option"
  co_now :: "date option"

definition promotionClaimOptions_ok :: "promotionClaimOptions \<Rightarrow> bool" where
  "promotionClaimOptions_ok opts \<longleftrightarrow>
     pred_opt (\<lambda>l. is_integer l \<and> MIN_PROMOTION_CLAIM_LEASE_MS \<le> l \<and> l \<le> MAX_PROMOTION_CLAIM_LEASE_MS)
       (co_leaseMs opts)"

definition promotionClaimOptionsSchema_parse :: "promotionClaimOptions \<Rightarrow> promotionClaimOptions result" where
  "promotionClaimOptionsSchema_parse =
     zod_parse (\<lambda>opts. opts\<lparr>co_leaseMs := Some (nullish_or (co_leaseMs opts) DEFAULT_PROMOTION_CLAIM_LEASE_MS)\<rparr>)
       promotionClaimOptions_ok"

record promotionClaim =
  pc_proposal :: learningProposalRecord
  pc_token :: string
  pc_expiresAt :: date

definition hasActivePromotionClaim :: "learningProposalRecord \<Rightarrow> date \<Rightarrow> bool" where
  "hasActivePromotionClaim p now \<longleftrightarrow>
     lp_promotionClaimToken p \<noteq> None \<and>
     (case lp_promotionClaimExpiresAt p of None \<Rightarrow> False | Some e \<Rightarrow> e > now)"

definition learningProposalApprovedEventType :: string where
  "learningProposalApprovedEventType = ''learning.proposal.approved.v1''"

definition learningProposalApprovalOutboxCommand :: "learningProposalRecord \<Rightarrow> enqueueOutboxEvent" where
  "learningProposalApprovalOutboxCommand p =
     \<lparr>oc_tenantId = lp_tenantId p, oc_eventType = learningProposalApprovedEventType,
      oc_idempotencyKey = ''learning-proposal-approved:'' @ lp_id p,
      oc_payload =
        [(''proposal_id'', JStr (lp_id p)), (''proposal_key'', JStr (lp_proposalKey p)),
         (''approved_by'', JStr (nullish_or (lp_humanApprovedBy p) [])),
         (''approved_at'', case lp_humanApprovedAt p of None \<Rightarrow> JNull | Some t \<Rightarrow> JStr (toISOString t))]\<rparr>"

fun proposalStatusForDecision :: "learningVerdict \<Rightarrow> learningProposalStatus" where
  "proposalStatusForDecision ContinueExperiment = LpAwaitingEvidence"
| "proposalStatusForDecision Reject = LpRejected"
| "proposalStatusForDecision RequiresApproval = LpRequiresApproval"
| "proposalStatusForDecision Promote = LpApproved"

section \<open>The in-memory repository\<close>

record proposals =
  ps_records :: "learningProposalRecord store"
  ps_outbox :: outbox

definition empty_proposals :: proposals where
  "empty_proposals = \<lparr>ps_records = empty_store, ps_outbox = empty_outbox\<rparr>"

definition proposal_key :: "string \<Rightarrow> string \<Rightarrow> string" where
  "proposal_key tenantId proposalKey = colon_key tenantId proposalKey"

definition findScopedRecord :: "string \<Rightarrow> string \<Rightarrow> proposals \<Rightarrow> learningProposalRecord option" where
  "findScopedRecord tenantId i st =
     (case get_by_id (ps_records st) i of
        None \<Rightarrow> None
      | Some r \<Rightarrow> if lp_tenantId r = tenantId then Some r else None)"

abbreviation save_proposal :: "string \<Rightarrow> learningProposalRecord \<Rightarrow> proposals \<Rightarrow> proposals" where
  "save_proposal i r st \<equiv> st\<lparr>ps_records := put_record i r (ps_records st)\<rparr>"

definition proposal_create ::
  "(string \<Rightarrow> bool) \<Rightarrow> string \<Rightarrow> createLearningProposalParams \<Rightarrow> string \<Rightarrow> date \<Rightarrow> proposals \<Rightarrow>
   js_error + learningProposalRecord \<times> proposals" where
  "proposal_create is_uuid tenantId params uuid now st =
     and_then (tenantIdSchema_parse is_uuid tenantId) (\<lambda>tenant.
     and_then (createLearningProposalParamsSchema_parse is_uuid params) (\<lambda>parsed.
       (let key = proposal_key tenant (cl_proposalKey parsed)
        in case find_existing (ps_records st) key of
             Some existing \<Rightarrow> Inr (existing, st)
           | None \<Rightarrow>
               and_then (learningProposalRecordSchema_parse is_uuid
                 \<lparr>lp_id = uuid, lp_tenantId = tenant, lp_proposalKey = cl_proposalKey parsed,
                  lp_experimentId = cl_experimentId parsed, lp_targetType = cl_targetType parsed,
                  lp_targetId = cl_targetId parsed, lp_risk = cl_risk parsed,
                  lp_status = LpAwaitingEvidence, lp_proposalPayload = cl_proposalPayload parsed,
                  lp_evidenceSnapshot = [], lp_evaluationSnapshot = [], lp_decision = None,
                  lp_decisionReasons = [], lp_baseVersionRef = cl_baseVersionRef parsed,
                  lp_candidateVersionRef = cl_candidateVersionRef parsed,
                  lp_promotedVersionRef = None, lp_rollbackVersionRef = None,
                  lp_humanApprovedBy = None, lp_humanApprovedAt = None,
                  lp_promotionClaimToken = None, lp_promotionClaimExpiresAt = None,
                  lp_createdBy = cl_createdBy parsed, lp_evaluatedAt = None, lp_promotedAt = None,
                  lp_rolledBackAt = None, lp_createdAt = now, lp_updatedAt = now\<rparr>)
                 (\<lambda>record. Inr (record,
                    st\<lparr>ps_records := insert_new key (lp_id record) record (ps_records st)\<rparr>)))))"

definition proposal_getById ::
  "(string \<Rightarrow> bool) \<Rightarrow> string \<Rightarrow> string \<Rightarrow> proposals \<Rightarrow> learningProposalRecord option result" where
  "proposal_getById is_uuid tenantId i st =
     and_then (tenantIdSchema_parse is_uuid tenantId) (\<lambda>tenant. Inr (findScopedRecord tenant i st))"

definition proposal_getByProposalKey ::
  "(string \<Rightarrow> bool) \<Rightarrow> string \<Rightarrow> string \<Rightarrow> proposals \<Rightarrow> learningProposalRecord option result" where
  "proposal_getByProposalKey is_uuid tenantId proposalKey st =
     and_then (tenantIdSchema_parse is_uuid tenantId) (\<lambda>tenant.
       (case map_of (idByKey (ps_records st)) (proposal_key tenant proposalKey) of
          None \<Rightarrow> Inr None
        | Some i \<Rightarrow> if i = [] then Inr None else proposal_getById is_uuid tenant i st))"

definition proposal_listRecent ::
  "(string \<Rightarrow> bool) \<Rightarrow> string \<Rightarrow> number option \<Rightarrow> learningProposalStatus option \<Rightarrow> proposals \<Rightarrow>
   learningProposalRecord list result" where
  "proposal_listRecent is_uuid tenantId limit status st =
     and_then (tenantIdSchema_parse is_uuid tenantId) (\<lambda>tenant.
     and_then (normalizeLimit limit) (\<lambda>n.
       Inr (take n (newest_first lp_updatedAt
              (filter (\<lambda>r. lp_tenantId r = tenant \<and> (status = None \<or> Some (lp_status r) = status))
                 (store_values (ps_records st)))))))"

record learningProposalStatusSummary =
  ls_total :: nat
  ls_byStatus :: "(learningProposalStatus \<times> nat) list"

definition emptyLearningProposalStatusSummary :: learningProposalStatusSummary where
  "emptyLearningProposalStatusSummary =
     \<lparr>ls_total = 0,
      ls_byStatus = map (\<lambda>s. (s, 0))
        [LpAwaitingEvidence, LpEvaluating, LpRequiresApproval, LpApproved, LpRejected, LpPromoted, LpRolledBack]\<rparr>"

definition count_proposal ::
  "string \<Rightarrow> learningProposalStatusSummary \<Rightarrow> learningProposalRecord \<Rightarrow> learningProposalStatusSummary" where
  "count_proposal tenant result r =
     (if lp_tenantId r \<noteq> tenant then result
      else result\<lparr>ls_total := ls_total result + 1,
                  ls_byStatus := AList.map_entry (lp_status r) Suc (ls_byStatus result)\<rparr>)"

definition proposal_getSummary ::
  "(string \<Rightarrow> bool) \<Rightarrow> string \<Rightarrow> proposals \<Rightarrow> learningProposalStatusSummary result" where
  "proposal_getSummary is_uuid tenantId st =
     and_then (tenantIdSchema_parse is_uuid tenantId) (\<lambda>tenant.
       Inr (foldl (count_proposal tenant) emptyLearningProposalStatusSummary
              (store_values (ps_records st))))"

definition proposal_recordEvaluation ::
  "(string \<Rightarrow> bool) \<Rightarrow> string \<Rightarrow> string \<Rightarrow> recordEvaluationParams \<Rightarrow> date \<Rightarrow> proposals \<Rightarrow>
   js_error + learningProposalRecord option \<times> proposals" where
  "proposal_recordEvaluation is_uuid tenantId i params now st =
     and_then (tenantIdSchema_parse is_uuid tenantId) (\<lambda>tenant.
     and_then (recordEvaluationParamsSchema_parse params) (\<lambda>parsed.
       (case findScopedRecord tenant i st of
          None \<Rightarrow> Inr (None, st)
        | Some existing \<Rightarrow>
            if lp_status existing \<noteq> LpAwaitingEvidence \<and> lp_status existing \<noteq> LpEvaluating \<and>
               lp_status existing \<noteq> LpRequiresApproval \<and> lp_status existing \<noteq> LpApproved \<or>
               hasActivePromotionClaim existing now
            then Inr (None, st)
            else and_then (learningProposalRecordSchema_parse is_uuid
                   (existing\<lparr>lp_status := proposalStatusForDecision (re_decision parsed),
                             lp_decision := Some (re_decision parsed),
                             lp_evidenceSnapshot := re_evidenceSnapshot parsed,
                             lp_evaluationSnapshot := re_evaluationSnapshot parsed,
                             lp_decisionReasons := re_decisionReasons parsed,
                             lp_promotionClaimToken := None, lp_promotionClaimExpiresAt := None,
                             lp_evaluatedAt := Some now, lp_updatedAt := now\<rparr>))
                   (\<lambda>updated. Inr (Some updated, save_proposal i updated st)))))"

text \<open>
  The record is saved before the event is enqueued; a rejected event restores it and the error is
  thrown again, so this operation returns its outcome and its state separately.
\<close>

definition proposal_approveAndEnqueue ::
  "(string \<Rightarrow> bool) \<Rightarrow> string \<Rightarrow> string \<Rightarrow> string \<Rightarrow> date \<Rightarrow> date \<Rightarrow> proposals \<Rightarrow>
   (js_error + (learningProposalRecord \<times> storedOutboxEvent) option) \<times> proposals" where
  "proposal_approveAndEnqueue is_uuid tenantId i approvedBy now enqueuedAt st =
     or_throw (tenantIdSchema_parse is_uuid tenantId) st (\<lambda>tenant.
     or_throw (nonEmptyText approvedBy) st (\<lambda>parsedApprovedBy.
       (case findScopedRecord tenant i st of
          None \<Rightarrow> (Inr None, st)
        | Some existing \<Rightarrow>
            if lp_status existing \<noteq> LpRequiresApproval then (Inr None, st)
            else or_throw (learningProposalRecordSchema_parse is_uuid
                   (existing\<lparr>lp_status := LpApproved, lp_humanApprovedBy := Some parsedApprovedBy,
                             lp_humanApprovedAt := Some now, lp_promotionClaimToken := None,
                             lp_promotionClaimExpiresAt := None, lp_updatedAt := now\<rparr>)) st (\<lambda>updated.
                   let st1 = save_proposal i updated st
                   in case outbox_enqueue is_uuid (learningProposalApprovalOutboxCommand updated) enqueuedAt
                             (ps_outbox st1) of
                        Inl e \<Rightarrow> (Inl e, save_proposal i existing st1)
                      | Inr (event, ob) \<Rightarrow> (Inr (Some (updated, event)), st1\<lparr>ps_outbox := ob\<rparr>)))))"

definition proposal_approve ::
  "(string \<Rightarrow> bool) \<Rightarrow> string \<Rightarrow> string \<Rightarrow> string \<Rightarrow> date \<Rightarrow> date \<Rightarrow> proposals \<Rightarrow>
   (js_error + learningProposalRecord option) \<times> proposals" where
  "proposal_approve is_uuid tenantId i approvedBy now enqueuedAt st =
     (case proposal_approveAndEnqueue is_uuid tenantId i approvedBy now enqueuedAt st of
        (Inl e, st') \<Rightarrow> (Inl e, st')
      | (Inr res, st') \<Rightarrow> (Inr (map_option fst res), st'))"

definition proposal_claimPromotion ::
  "(string \<Rightarrow> bool) \<Rightarrow> string \<Rightarrow> string \<Rightarrow> promotionClaimOptions \<Rightarrow> string \<Rightarrow> date \<Rightarrow> proposals \<Rightarrow>
   js_error + promotionClaim option \<times> proposals" where
  "proposal_claimPromotion is_uuid tenantId i options uuid clock st =
     and_then (tenantIdSchema_parse is_uuid tenantId) (\<lambda>tenant.
     and_then (promotionClaimOptionsSchema_parse options) (\<lambda>parsed.
       (let now = nullish_or (co_now parsed) clock
        in case findScopedRecord tenant i st of
             None \<Rightarrow> Inr (None, st)
           | Some existing \<Rightarrow>
               if lp_status existing \<noteq> LpApproved \<or> hasActivePromotionClaim existing now
               then Inr (None, st)
               else (let expiresAt = now + \<lfloor>nullish_or (co_leaseMs parsed) DEFAULT_PROMOTION_CLAIM_LEASE_MS\<rfloor>
                     in and_then (learningProposalRecordSchema_parse is_uuid
                          (existing\<lparr>lp_promotionClaimToken := Some uuid,
                                    lp_promotionClaimExpiresAt := Some expiresAt, lp_updatedAt := now\<rparr>))
                          (\<lambda>proposal. Inr (Some \<lparr>pc_proposal = proposal, pc_token = uuid, pc_expiresAt = expiresAt\<rparr>,
                             save_proposal i proposal st))))))"

definition proposal_markPromoted ::
  "(string \<Rightarrow> bool) \<Rightarrow> string \<Rightarrow> string \<Rightarrow> string \<Rightarrow> string \<Rightarrow> date \<Rightarrow> proposals \<Rightarrow>
   js_error + learningProposalRecord option \<times> proposals" where
  "proposal_markPromoted is_uuid tenantId i promotedVersionRef promotionClaimToken now st =
     and_then (tenantIdSchema_parse is_uuid tenantId) (\<lambda>tenant.
     and_then (nonEmptyText promotedVersionRef) (\<lambda>versionRef.
     and_then (zod_parse id is_uuid promotionClaimToken) (\<lambda>claimToken.
       (case findScopedRecord tenant i st of
          None \<Rightarrow> Inr (None, st)
        | Some existing \<Rightarrow>
            if lp_status existing \<noteq> LpApproved \<or> lp_promotionClaimToken existing \<noteq> Some claimToken \<or>
               \<not> hasActivePromotionClaim existing now
            then Inr (None, st)
            else and_then (learningProposalRecordSchema_parse is_uuid
                   (existing\<lparr>lp_status := LpPromoted, lp_promotedVersionRef := Some versionRef,
                             lp_promotionClaimToken := None, lp_promotionClaimExpiresAt := None,
                             lp_promotedAt := Some now, lp_updatedAt := now\<rparr>))
                   (\<lambda>updated. Inr (Some updated, save_proposal i updated st))))))"

definition proposal_markRolledBack ::
  "(string \<Rightarrow> bool) \<Rightarrow> string \<Rightarrow> string \<Rightarrow> string \<Rightarrow> date \<Rightarrow> proposals \<Rightarrow>
   js_error + learningProposalRecord option \<times> proposals" where
  "proposal_markRolledBack is_uuid tenantId i rollbackVersionRef now st =
     and_then (tenantIdSchema_parse is_uuid tenantId) (\<lambda>tenant.
     and_then (nonEmptyText rollbackVersionRef) (\<lambda>versionRef.
       (case findScopedRecord tenant i st of
          None \<Rightarrow> Inr (None, st)
        | Some existing \<Rightarrow>
            if lp_status existing \<noteq> LpPromoted then Inr (None, st)
            else and_then (learningProposalRecordSchema_parse is_uuid
                   (existing\<lparr>lp_status := LpRolledBack, lp_rollbackVersionRef := Some versionRef,
                             lp_rolledBackAt := Some now, lp_updatedAt := now\<rparr>))
                   (\<lambda>updated. Inr (Some updated, save_proposal i updated st)))))"

section \<open>A proposal on its own\<close>

text \<open>
  The life of one proposal, as the repository promises it: which change can happen at which time,
  and which change needs the token of the current claim. The label is the clock reading of the
  change and the token it presented.
\<close>

inductive proposal_change ::
  "date \<Rightarrow> string option \<Rightarrow> learningProposalRecord \<Rightarrow> learningProposalRecord \<Rightarrow> bool" where
  evaluated: "lp_status e \<in> {LpAwaitingEvidence, LpEvaluating, LpRequiresApproval, LpApproved} \<Longrightarrow>
    \<not> hasActivePromotionClaim e now \<Longrightarrow>
    proposal_change now None e
      (e\<lparr>lp_status := proposalStatusForDecision d, lp_decision := Some d, lp_evidenceSnapshot := ev,
         lp_evaluationSnapshot := es, lp_decisionReasons := rs, lp_promotionClaimToken := None,
         lp_promotionClaimExpiresAt := None, lp_evaluatedAt := Some now, lp_updatedAt := now\<rparr>)"
| approved: "lp_status e = LpRequiresApproval \<Longrightarrow>
    proposal_change now None e
      (e\<lparr>lp_status := LpApproved, lp_humanApprovedBy := Some by, lp_humanApprovedAt := Some now,
         lp_promotionClaimToken := None, lp_promotionClaimExpiresAt := None, lp_updatedAt := now\<rparr>)"
| claimed: "lp_status e = LpApproved \<Longrightarrow> \<not> hasActivePromotionClaim e now \<Longrightarrow> now < expires \<Longrightarrow>
    proposal_change now None e
      (e\<lparr>lp_promotionClaimToken := Some t, lp_promotionClaimExpiresAt := Some expires, lp_updatedAt := now\<rparr>)"
| promoted: "lp_status e = LpApproved \<Longrightarrow> lp_promotionClaimToken e = Some tok \<Longrightarrow>
    hasActivePromotionClaim e now \<Longrightarrow>
    proposal_change now (Some tok) e
      (e\<lparr>lp_status := LpPromoted, lp_promotedVersionRef := Some v, lp_promotionClaimToken := None,
         lp_promotionClaimExpiresAt := None, lp_promotedAt := Some now, lp_updatedAt := now\<rparr>)"
| rolled_back: "lp_status e = LpPromoted \<Longrightarrow>
    proposal_change now None e
      (e\<lparr>lp_status := LpRolledBack, lp_rollbackVersionRef := Some v, lp_rolledBackAt := Some now,
         lp_updatedAt := now\<rparr>)"

inductive_cases proposal_changeE: "proposal_change now tok e e'"

fun proposal_transitions :: "learningProposalStatus \<Rightarrow> learningProposalStatus list" where
  "proposal_transitions LpPromoted = [LpRolledBack]"
| "proposal_transitions LpRejected = []"
| "proposal_transitions LpRolledBack = []"
| "proposal_transitions LpApproved = [LpAwaitingEvidence, LpRejected, LpRequiresApproval, LpPromoted]"
| "proposal_transitions _ = [LpAwaitingEvidence, LpRejected, LpRequiresApproval, LpApproved]"

lemma decision_status [simp]:
  "proposalStatusForDecision d = LpApproved \<longleftrightarrow> d = Promote"
  "proposalStatusForDecision d \<noteq> LpPromoted" "proposalStatusForDecision d \<noteq> LpRolledBack"
  "proposalStatusForDecision d \<noteq> LpEvaluating"
  by (cases d; simp)+

lemma decision_statuses:
  "proposalStatusForDecision d \<in> {LpAwaitingEvidence, LpRejected, LpRequiresApproval, LpApproved}"
  by (cases d) simp_all

lemma proposal_change_status:
  assumes "proposal_change now tok e e'"
  shows "lp_status e' = lp_status e \<or> lp_status e' \<in> set (proposal_transitions (lp_status e))"
  using assms
proof cases
  case (evaluated d ev es rs)
  then show ?thesis using decision_statuses by (cases "lp_status e") auto
qed auto

text \<open>What never changes, and the consistency of the fields with the status.\<close>

definition proposal_identity ::
  "learningProposalRecord \<Rightarrow> (string \<times> string \<times> string) \<times> (string option \<times> string \<times> string \<times> changeRisk) \<times>
     json_record \<times> (string option \<times> string option \<times> string \<times> date)" where
  "proposal_identity r =
     ((lp_id r, lp_tenantId r, lp_proposalKey r),
      (lp_experimentId r, lp_targetType r, lp_targetId r, lp_risk r), lp_proposalPayload r,
      (lp_baseVersionRef r, lp_candidateVersionRef r, lp_createdBy r, lp_createdAt r))"

definition proposal_consistent :: "learningProposalRecord \<Rightarrow> bool" where
  "proposal_consistent r \<longleftrightarrow>
     (lp_promotionClaimToken r = None \<longleftrightarrow> lp_promotionClaimExpiresAt r = None) \<and>
     (lp_promotionClaimToken r \<noteq> None \<longrightarrow> lp_status r = LpApproved) \<and>
     (lp_humanApprovedBy r = None \<longleftrightarrow> lp_humanApprovedAt r = None) \<and>
     (lp_status r \<in> {LpApproved, LpPromoted, LpRolledBack} \<longrightarrow>
        lp_decision r = Some Promote \<or> lp_humanApprovedBy r \<noteq> None) \<and>
     (lp_status r \<in> {LpPromoted, LpRolledBack} \<longrightarrow>
        lp_promotedVersionRef r \<noteq> None \<and> lp_promotedAt r \<noteq> None) \<and>
     (lp_status r \<notin> {LpPromoted, LpRolledBack} \<longrightarrow> lp_promotedAt r = None) \<and>
     (lp_status r = LpRolledBack \<longrightarrow> lp_rollbackVersionRef r \<noteq> None \<and> lp_rolledBackAt r \<noteq> None)"

lemma proposal_change_identity:
  "proposal_change now tok e e' \<Longrightarrow> proposal_identity e' = proposal_identity e"
  by (induction rule: proposal_change.induct) (simp_all add: proposal_identity_def)

lemma consistent_unpromoted:
  "proposal_consistent r \<Longrightarrow> lp_status r \<notin> {LpPromoted, LpRolledBack} \<Longrightarrow> lp_promotedAt r = None"
  unfolding proposal_consistent_def by blast

lemma consistent_promoted:
  "proposal_consistent r \<Longrightarrow> lp_status r \<in> {LpPromoted, LpRolledBack} \<Longrightarrow> lp_promotedAt r \<noteq> None"
  unfolding proposal_consistent_def by blast

lemma proposal_change_consistent:
  "proposal_change now tok e e' \<Longrightarrow> proposal_consistent e \<Longrightarrow> proposal_consistent e'"
proof (induction rule: proposal_change.induct)
  case (evaluated e now d ev es rs)
  have "lp_status e \<notin> {LpPromoted, LpRolledBack}" using evaluated.hyps(1) by (cases "lp_status e") simp_all
  with evaluated.prems have "lp_promotedAt e = None" by (rule consistent_unpromoted)
  moreover have "lp_humanApprovedBy e = None \<longleftrightarrow> lp_humanApprovedAt e = None"
    using evaluated.prems unfolding proposal_consistent_def by blast
  ultimately show ?case by (simp add: proposal_consistent_def)
qed (auto simp: proposal_consistent_def)

text \<open>While a claim is active, only the bearer of its token can change the proposal.\<close>

lemma active_claim_locks:
  assumes "proposal_change now tok e e'" and "proposal_consistent e" and "hasActivePromotionClaim e now"
  shows "tok = lp_promotionClaimToken e"
  using assms by cases (auto simp: proposal_consistent_def hasActivePromotionClaim_def)

section \<open>The repository implements it\<close>

definition proposal_good :: "(string \<Rightarrow> bool) \<Rightarrow> learningProposalRecord \<Rightarrow> bool" where
  "proposal_good is_uuid r \<longleftrightarrow> learningProposalRecord_ok is_uuid r \<and> proposal_consistent r"

abbreviation lp_key :: "learningProposalRecord \<Rightarrow> string" where
  "lp_key r \<equiv> proposal_key (lp_tenantId r) (lp_proposalKey r)"

definition proposals_good :: "(string \<Rightarrow> bool) \<Rightarrow> proposals \<Rightarrow> bool" where
  "proposals_good is_uuid st \<longleftrightarrow> uuid_format is_uuid \<and>
     store_ok lp_id lp_key (proposal_good is_uuid) (ps_records st) \<and> outbox_inv is_uuid (ps_outbox st)"

lemma proposals_good_empty: "uuid_format is_uuid \<Longrightarrow> proposals_good is_uuid empty_proposals"
  by (simp add: proposals_good_def empty_proposals_def outbox_inv_empty)

lemma proposals_goodD:
  assumes "proposals_good is_uuid st"
  shows "uuid_format is_uuid" "store_ok lp_id lp_key (proposal_good is_uuid) (ps_records st)"
    "outbox_inv is_uuid (ps_outbox st)"
  using assms by (simp_all add: proposals_good_def)

lemma findScopedRecord_Some:
  "findScopedRecord t i st = Some r \<longleftrightarrow> get_by_id (ps_records st) i = Some r \<and> lp_tenantId r = t"
  by (auto simp: findScopedRecord_def split: option.splits if_splits)

lemma good_proposal:
  assumes "proposals_good is_uuid st" and "get_by_id (ps_records st) i = Some e"
  shows "learningProposalRecord_ok is_uuid e" "proposal_consistent e" "lp_id e = i"
  using store_okD [OF proposals_goodD(2) [OF assms(1)] assms(2)] by (simp_all add: proposal_good_def)

text \<open>Parsing a record whose texts are already trimmed only checks it.\<close>

lemma proposal_parse_trimmed:
  assumes "learningProposalRecord_ok is_uuid e"
    and "lp_proposalKey u = lp_proposalKey e" "lp_targetType u = lp_targetType e"
    and "lp_targetId u = lp_targetId e" "lp_createdBy u = lp_createdBy e"
    and "list_all is_text (lp_decisionReasons u)"
  shows "learningProposalRecordSchema_parse is_uuid u = Inr v \<longleftrightarrow> v = u \<and> learningProposalRecord_ok is_uuid u"
proof -
  have "map trim (lp_decisionReasons u) = lp_decisionReasons u"
    using assms(6) by (induction "lp_decisionReasons u") (auto simp: list_all_iff is_textD intro: map_idI)
  moreover have "trim (lp_proposalKey u) = lp_proposalKey u" "trim (lp_targetType u) = lp_targetType u"
      "trim (lp_targetId u) = lp_targetId u" "trim (lp_createdBy u) = lp_createdBy u"
    using assms(1-5) by (simp_all add: learningProposalRecord_ok_def is_textD)
  ultimately show ?thesis by (auto simp: learningProposalRecordSchema_parse_def)
qed

lemma ok_reasons: "learningProposalRecord_ok is_uuid e \<Longrightarrow> list_all is_text (lp_decisionReasons e)"
  by (simp add: learningProposalRecord_ok_def)

text \<open>Each operation either leaves the repository alone or makes one change to one proposal.\<close>

lemma evaluate_effect:
  assumes "proposals_good is_uuid st"
    and "proposal_recordEvaluation is_uuid t i p now st = Inr (res, st')"
  obtains (refused) "res = None" "st' = st"
  | (changed) e e' where "get_by_id (ps_records st) i = Some e" "lp_tenantId e = t"
      "proposal_change now None e e'" "learningProposalRecord_ok is_uuid e'" "res = Some e'"
      "lp_status e' = proposalStatusForDecision (re_decision p)" "st' = save_proposal i e' st"
proof (cases "findScopedRecord t i st")
  case None
  with assms(2) refused show thesis
    by (auto simp: proposal_recordEvaluation_def)
next
  case (Some e)
  then have e: "get_by_id (ps_records st) i = Some e" "lp_tenantId e = t"
    by (simp_all add: findScopedRecord_Some)
  note ok = good_proposal(1) [OF assms(1) e(1)]
  show thesis
  proof (cases "lp_status e \<in> {LpAwaitingEvidence, LpEvaluating, LpRequiresApproval, LpApproved} \<and>
      \<not> hasActivePromotionClaim e now")
    case False
    with assms(2) Some refused show thesis
      by (auto simp: proposal_recordEvaluation_def split: if_splits)
  next
    case True
    with assms(2) Some obtain q u where q: "recordEvaluationParamsSchema_parse p = Inr q" "res = Some u"
        "st' = save_proposal i u st"
      and u: "learningProposalRecordSchema_parse is_uuid
        (e\<lparr>lp_status := proposalStatusForDecision (re_decision q), lp_decision := Some (re_decision q),
           lp_evidenceSnapshot := re_evidenceSnapshot q, lp_evaluationSnapshot := re_evaluationSnapshot q,
           lp_decisionReasons := re_decisionReasons q, lp_promotionClaimToken := None,
           lp_promotionClaimExpiresAt := None, lp_evaluatedAt := Some now, lp_updatedAt := now\<rparr>) = Inr u"
      by (auto simp: proposal_recordEvaluation_def split: if_splits)
    have "list_all is_text (re_decisionReasons q)" "re_decision q = re_decision p"
      using q(1) by (auto simp: recordEvaluationParamsSchema_parse_def recordEvaluationParams_ok_def)
    with u ok have "u = e\<lparr>lp_status := proposalStatusForDecision (re_decision q), lp_decision := Some (re_decision q),
           lp_evidenceSnapshot := re_evidenceSnapshot q, lp_evaluationSnapshot := re_evaluationSnapshot q,
           lp_decisionReasons := re_decisionReasons q, lp_promotionClaimToken := None,
           lp_promotionClaimExpiresAt := None, lp_evaluatedAt := Some now, lp_updatedAt := now\<rparr>"
        "learningProposalRecord_ok is_uuid u" "re_decision q = re_decision p"
      by (simp_all add: proposal_parse_trimmed [OF ok])
    with changed [OF e, of u] q True show thesis by (auto intro: proposal_change.evaluated)
  qed
qed

lemma claim_effect:
  assumes "proposals_good is_uuid st"
    and "proposal_claimPromotion is_uuid t i opts uuid clock st = Inr (res, st')"
  defines "now \<equiv> nullish_or (co_now opts) clock"
  obtains (refused) "res = None" "st' = st"
  | (changed) e e' expires where "get_by_id (ps_records st) i = Some e" "lp_tenantId e = t"
      "proposal_change now None e e'" "learningProposalRecord_ok is_uuid e'"
      "lp_status e = LpApproved" "\<not> hasActivePromotionClaim e now"
      "e' = e\<lparr>lp_promotionClaimToken := Some uuid, lp_promotionClaimExpiresAt := Some expires, lp_updatedAt := now\<rparr>"
      "res = Some \<lparr>pc_proposal = e', pc_token = uuid, pc_expiresAt = expires\<rparr>"
      "now + 1000 \<le> expires" "expires \<le> now + 900000" "st' = save_proposal i e' st"
proof (cases "findScopedRecord t i st")
  case None
  with assms(2) refused show thesis
    by (auto simp: proposal_claimPromotion_def Let_def)
next
  case (Some e)
  then have e: "get_by_id (ps_records st) i = Some e" "lp_tenantId e = t"
    by (simp_all add: findScopedRecord_Some)
  note ok = good_proposal(1) [OF assms(1) e(1)]
  have same_now: "nullish_or (co_now q) clock = now" if "promotionClaimOptionsSchema_parse opts = Inr q" for q
    using that by (auto simp: promotionClaimOptionsSchema_parse_def assms(3))
  show thesis
  proof (cases "lp_status e = LpApproved \<and> \<not> hasActivePromotionClaim e now")
    case False
    with assms(2) Some refused show thesis
      by (auto simp: proposal_claimPromotion_def same_now Let_def split: if_splits)
  next
    case True
    define len where "len q = \<lfloor>nullish_or (co_leaseMs q) DEFAULT_PROMOTION_CLAIM_LEASE_MS\<rfloor>" for q :: promotionClaimOptions
    from True assms(2) Some obtain q u where q: "promotionClaimOptionsSchema_parse opts = Inr q"
        "res = Some \<lparr>pc_proposal = u, pc_token = uuid, pc_expiresAt = now + len q\<rparr>" "st' = save_proposal i u st"
      and u: "learningProposalRecordSchema_parse is_uuid (e\<lparr>lp_promotionClaimToken := Some uuid,
          lp_promotionClaimExpiresAt := Some (now + len q), lp_updatedAt := now\<rparr>) = Inr u"
      by (auto simp: proposal_claimPromotion_def same_now len_def Let_def split: if_splits)
    have u': "u = e\<lparr>lp_promotionClaimToken := Some uuid,
          lp_promotionClaimExpiresAt := Some (now + len q), lp_updatedAt := now\<rparr>" "learningProposalRecord_ok is_uuid u"
      using u by (simp_all add: proposal_parse_trimmed [OF ok] ok_reasons [OF ok])
    define l where "l = nullish_or (co_leaseMs q) DEFAULT_PROMOTION_CLAIM_LEASE_MS"
    have "1000 \<le> l \<and> l \<le> 900000"
      using q(1) by (auto simp: promotionClaimOptionsSchema_parse_def promotionClaimOptions_ok_def l_def
          MIN_PROMOTION_CLAIM_LEASE_MS_def MAX_PROMOTION_CLAIM_LEASE_MS_def)
    then have "1000 \<le> len q \<and> len q \<le> 900000"
      unfolding len_def l_def [symmetric] by linarith
    then have bounds: "now + 1000 \<le> now + len q" "now + len q \<le> now + 900000" "now < now + len q" by simp_all
    have "proposal_change now None e u"
      unfolding u'(1) by (rule proposal_change.claimed) (use True bounds(3) in auto)
    with changed [OF e _ u'(2) _ _ u'(1) q(2) bounds(1,2) q(3)] True show thesis by simp
  qed
qed

lemma promote_effect:
  assumes "proposals_good is_uuid st"
    and "proposal_markPromoted is_uuid t i v tok now st = Inr (res, st')"
  obtains (refused) "res = None" "st' = st"
  | (changed) e e' where "get_by_id (ps_records st) i = Some e" "lp_tenantId e = t"
      "proposal_change now (Some tok) e e'" "learningProposalRecord_ok is_uuid e'" "res = Some e'"
      "lp_status e' = LpPromoted" "lp_promotedVersionRef e' = Some (trim v)" "st' = save_proposal i e' st"
proof (cases "findScopedRecord t i st")
  case None
  with assms(2) refused show thesis
    by (auto simp: proposal_markPromoted_def)
next
  case (Some e)
  then have e: "get_by_id (ps_records st) i = Some e" "lp_tenantId e = t"
    by (simp_all add: findScopedRecord_Some)
  note ok = good_proposal(1) [OF assms(1) e(1)]
  show thesis
  proof (cases "lp_status e = LpApproved \<and> lp_promotionClaimToken e = Some tok \<and> hasActivePromotionClaim e now")
    case False
    with assms(2) Some refused show thesis
      by (auto simp: proposal_markPromoted_def split: if_splits)
  next
    case True
    with assms(2) Some obtain u where q: "res = Some u" "st' = save_proposal i u st"
      and u: "learningProposalRecordSchema_parse is_uuid
        (e\<lparr>lp_status := LpPromoted, lp_promotedVersionRef := Some (trim v), lp_promotionClaimToken := None,
           lp_promotionClaimExpiresAt := None, lp_promotedAt := Some now, lp_updatedAt := now\<rparr>) = Inr u"
      by (auto simp: proposal_markPromoted_def split: if_splits)
    have u': "u = e\<lparr>lp_status := LpPromoted, lp_promotedVersionRef := Some (trim v), lp_promotionClaimToken := None,
           lp_promotionClaimExpiresAt := None, lp_promotedAt := Some now, lp_updatedAt := now\<rparr>"
        "learningProposalRecord_ok is_uuid u"
      using u by (simp_all add: proposal_parse_trimmed [OF ok] ok_reasons [OF ok])
    with changed [OF e, of u] q True show thesis by (auto intro: proposal_change.promoted)
  qed
qed

lemma rollback_effect:
  assumes "proposals_good is_uuid st"
    and "proposal_markRolledBack is_uuid t i v now st = Inr (res, st')"
  obtains (refused) "res = None" "st' = st"
  | (changed) e e' where "get_by_id (ps_records st) i = Some e" "lp_tenantId e = t"
      "proposal_change now None e e'" "learningProposalRecord_ok is_uuid e'" "res = Some e'"
      "lp_status e' = LpRolledBack" "st' = save_proposal i e' st"
proof (cases "findScopedRecord t i st")
  case None
  with assms(2) refused show thesis
    by (auto simp: proposal_markRolledBack_def)
next
  case (Some e)
  then have e: "get_by_id (ps_records st) i = Some e" "lp_tenantId e = t"
    by (simp_all add: findScopedRecord_Some)
  note ok = good_proposal(1) [OF assms(1) e(1)]
  show thesis
  proof (cases "lp_status e = LpPromoted")
    case False
    with assms(2) Some refused show thesis
      by (auto simp: proposal_markRolledBack_def split: if_splits)
  next
    case True
    with assms(2) Some obtain u where q: "res = Some u" "st' = save_proposal i u st"
      and u: "learningProposalRecordSchema_parse is_uuid
        (e\<lparr>lp_status := LpRolledBack, lp_rollbackVersionRef := Some (trim v), lp_rolledBackAt := Some now,
           lp_updatedAt := now\<rparr>) = Inr u"
      by (auto simp: proposal_markRolledBack_def split: if_splits)
    have u': "u = e\<lparr>lp_status := LpRolledBack, lp_rollbackVersionRef := Some (trim v), lp_rolledBackAt := Some now,
           lp_updatedAt := now\<rparr>" "learningProposalRecord_ok is_uuid u"
      using u by (simp_all add: proposal_parse_trimmed [OF ok] ok_reasons [OF ok])
    with changed [OF e, of u] q True show thesis by (auto intro: proposal_change.rolled_back)
  qed
qed

lemma approval_command_ok:
  "is_uuid (lp_tenantId r) \<Longrightarrow> enqueueOutboxEvent_ok is_uuid (learningProposalApprovalOutboxCommand r)"
proof -
  have "outboxEventType_ok ''learning.proposal.approved.v1''" by code_simp
  then show "is_uuid (lp_tenantId r) \<Longrightarrow> enqueueOutboxEvent_ok is_uuid (learningProposalApprovalOutboxCommand r)"
    by (simp add: enqueueOutboxEvent_ok_def learningProposalApprovalOutboxCommand_def
        learningProposalApprovedEventType_def)
qed

lemma approve_effect:
  assumes "proposals_good is_uuid st"
    and "proposal_approveAndEnqueue is_uuid t i by now now' st = (res, st')"
  obtains (refused) "\<not> (\<exists>x. res = Inr (Some x))" "st' = st"
  | (changed) e e' event ob where "get_by_id (ps_records st) i = Some e" "lp_tenantId e = t"
      "proposal_change now None e e'" "learningProposalRecord_ok is_uuid e'"
      "lp_status e' = LpApproved" "lp_humanApprovedBy e' = Some (trim by)" "res = Inr (Some (e', event))"
      "outbox_inv is_uuid ob"
      "outbox_enqueue is_uuid (learningProposalApprovalOutboxCommand e') now' (ps_outbox st) = Inr (event, ob)"
      "find_existing (ob_events ob) (command_key (learningProposalApprovalOutboxCommand e')) = Some event"
      "st' = (save_proposal i e' st)\<lparr>ps_outbox := ob\<rparr>"
proof (cases "is_uuid t \<and> trim by \<noteq> []")
  case False
  with assms(2) refused show thesis
    by (auto simp: proposal_approveAndEnqueue_def tenantIdSchema_parse_def zod_parse_def nonEmptyText_def
        split: if_splits)
next
  case valid: True
  show thesis
  proof (cases "\<exists>e. findScopedRecord t i st = Some e \<and> lp_status e = LpRequiresApproval")
    case False
    with assms(2) valid refused show thesis
      by (auto simp: proposal_approveAndEnqueue_def tenantIdSchema_parse_valid nonEmptyText_def
          split: option.splits if_splits)
  next
    case True
    then obtain e where e: "findScopedRecord t i st = Some e" "lp_status e = LpRequiresApproval" by blast
    then have g: "get_by_id (ps_records st) i = Some e" "lp_tenantId e = t"
      by (simp_all add: findScopedRecord_Some)
    note ok = good_proposal(1) [OF assms(1) g(1)]
    define u where "u = e\<lparr>lp_status := LpApproved, lp_humanApprovedBy := Some (trim by), lp_humanApprovedAt := Some now,
         lp_promotionClaimToken := None, lp_promotionClaimExpiresAt := None, lp_updatedAt := now\<rparr>"
    have u_ok: "learningProposalRecord_ok is_uuid u"
      using ok by (simp add: u_def learningProposalRecord_ok_def)
    have u: "learningProposalRecordSchema_parse is_uuid u = Inr u"
      by (subst proposal_parse_trimmed [OF ok]) (use u_ok ok_reasons [OF ok] in \<open>simp_all add: u_def\<close>)
    have "is_uuid (lp_tenantId u)" using valid g(2) by (simp add: u_def)
    from enqueue_valid_succeeds [OF proposals_goodD(3) [OF assms(1)] approval_command_ok, OF this, of now']
    obtain event ob where enq:
        "outbox_enqueue is_uuid (learningProposalApprovalOutboxCommand u) now' (ps_outbox st) = Inr (event, ob)"
        "outbox_inv is_uuid ob"
        "find_existing (ob_events ob) (command_key (learningProposalApprovalOutboxCommand u)) = Some event"
      by blast
    have out: "res = Inr (Some (u, event))" "st' = (save_proposal i u st)\<lparr>ps_outbox := ob\<rparr>"
      using assms(2) valid e u enq(1)
      by (auto simp: proposal_approveAndEnqueue_def tenantIdSchema_parse_valid nonEmptyText_def u_def [symmetric]
          Let_def)
    have "proposal_change now None e u" unfolding u_def by (rule proposal_change.approved [OF e(2)])
    then show thesis
      by (rule changed [OF g _ u_ok _ _ out(1) enq(2,1,3) out(2)]) (simp_all add: u_def)
  qed
qed

lemma create_proposal_effect:
  assumes "proposal_create is_uuid t p uuid now st = Inr (r, st')"
  obtains (existing) "find_existing (ps_records st) (proposal_key t (trim (cl_proposalKey p))) = Some r" "st' = st"
  | (created) "find_existing (ps_records st) (lp_key r) = None" "lp_id r = uuid" "proposal_good is_uuid r"
      "lp_key r = proposal_key t (trim (cl_proposalKey p))" "lp_status r = LpAwaitingEvidence"
      "st' = st\<lparr>ps_records := insert_new (lp_key r) uuid r (ps_records st)\<rparr>"
proof (cases "find_existing (ps_records st) (proposal_key t (trim (cl_proposalKey p)))")
  case None
  with assms show thesis
    by (intro created)
      (auto simp: proposal_create_def createLearningProposalParamsSchema_parse_def
        learningProposalRecordSchema_parse_def proposal_good_def proposal_consistent_def Let_def)
next
  case (Some e)
  with assms show thesis
    by (intro existing)
      (auto simp: proposal_create_def createLearningProposalParamsSchema_parse_def Let_def)
qed

section \<open>Histories\<close>

text \<open>
  One operation on the repository, labelled with its clock reading and the claim token it
  presents, if any.
\<close>

inductive proposals_step ::
  "(string \<Rightarrow> bool) \<Rightarrow> date \<Rightarrow> string option \<Rightarrow> proposals \<Rightarrow> proposals \<Rightarrow> bool" for is_uuid where
  op_create: "proposal_create is_uuid t cp uuid now st = Inr (r, st') \<Longrightarrow>
    get_by_id (ps_records st) uuid = None \<Longrightarrow> proposals_step is_uuid now None st st'"
| op_evaluate: "proposal_recordEvaluation is_uuid t i ep now st = Inr (res, st') \<Longrightarrow>
    proposals_step is_uuid now None st st'"
| op_approve: "proposal_approveAndEnqueue is_uuid t i by now now' st = (ares, st') \<Longrightarrow>
    proposals_step is_uuid now None st st'"
| op_claim: "proposal_claimPromotion is_uuid t i opts uuid clock st = Inr (cres, st') \<Longrightarrow>
    proposals_step is_uuid (nullish_or (co_now opts) clock) None st st'"
| op_promote: "proposal_markPromoted is_uuid t i v tok now st = Inr (res, st') \<Longrightarrow>
    proposals_step is_uuid now (Some tok) st st'"
| op_roll_back: "proposal_markRolledBack is_uuid t i v now st = Inr (res, st') \<Longrightarrow>
    proposals_step is_uuid now None st st'"

text \<open>The simulation: a step changes at most one proposal, and by a change that is allowed to it.\<close>

lemma save_good:
  assumes "proposals_good is_uuid st" and "get_by_id (ps_records st) i = Some e"
    and "proposal_change now tok e e'" and "learningProposalRecord_ok is_uuid e'"
  shows "proposals_good is_uuid (save_proposal i e' st)"
proof -
  have "proposal_identity e' = proposal_identity e" by (rule proposal_change_identity [OF assms(3)])
  then have "lp_id e' = i" "lp_key e' = lp_key e"
    using good_proposal(3) [OF assms(1,2)] by (simp_all add: proposal_identity_def)
  moreover have "proposal_good is_uuid e'"
    using assms(4) proposal_change_consistent [OF assms(3) good_proposal(2) [OF assms(1,2)]]
    by (simp add: proposal_good_def)
  ultimately show ?thesis
    using store_ok_put [OF proposals_goodD(2) [OF assms(1)] assms(2)] assms(1) by (simp add: proposals_good_def)
qed

lemma proposals_step_effect:
  assumes "proposals_step is_uuid now tok st st'" and "proposals_good is_uuid st"
  shows "proposals_good is_uuid st' \<and>
    (\<forall>j e. get_by_id (ps_records st) j = Some e \<longrightarrow>
       (\<exists>e'. get_by_id (ps_records st') j = Some e' \<and> (e' = e \<or> proposal_change now tok e e')))"
  using assms
proof (induction rule: proposals_step.induct)
  case (op_create t cp uuid now st r st')
  from op_create.hyps(1) show ?case
  proof (cases rule: create_proposal_effect)
    case existing
    with op_create.prems show ?thesis by simp
  next
    case created
    have "uuid \<noteq> []" using created(2,3) proposals_goodD(1) [OF op_create.prems]
      by (auto simp: proposal_good_def learningProposalRecord_ok_def dest: uuid_format_nonempty)
    with created op_create show ?thesis by (auto simp: proposals_good_def intro!: store_ok_insert)
  qed
next
  case (op_evaluate t i ep now st res st')
  from op_evaluate.prems op_evaluate.hyps show ?case
  proof (cases rule: evaluate_effect)
    case (changed e e')
    with save_good [OF op_evaluate.prems changed(1,3,4)] show ?thesis by auto
  qed (use op_evaluate.prems in auto)
next
  case (op_approve t i "by" now now' st ares st')
  from op_approve.prems op_approve.hyps show ?case
  proof (cases rule: approve_effect)
    case (changed e e' event ob)
    with save_good [OF op_approve.prems changed(1,3,4)] show ?thesis by (auto simp: proposals_good_def)
  qed (use op_approve.prems in auto)
next
  case (op_claim t i opts uuid clock st cres st')
  from op_claim.prems op_claim.hyps show ?case
  proof (cases rule: claim_effect)
    case (changed e e' expires)
    with save_good [OF op_claim.prems changed(1,3,4)] show ?thesis by auto
  qed (use op_claim.prems in auto)
next
  case (op_promote t i v tok now st res st')
  from op_promote.prems op_promote.hyps show ?case
  proof (cases rule: promote_effect)
    case (changed e e')
    with save_good [OF op_promote.prems changed(1,3,4)] show ?thesis by auto
  qed (use op_promote.prems in auto)
next
  case (op_roll_back t i v now st res st')
  from op_roll_back.prems op_roll_back.hyps show ?case
  proof (cases rule: rollback_effect)
    case (changed e e')
    with save_good [OF op_roll_back.prems changed(1,3,4)] show ?thesis by auto
  qed (use op_roll_back.prems in auto)
qed

definition proposals_any :: "(string \<Rightarrow> bool) \<Rightarrow> proposals \<Rightarrow> proposals \<Rightarrow> bool" where
  "proposals_any is_uuid st st' \<longleftrightarrow> (\<exists>now tok. proposals_step is_uuid now tok st st')"

definition proposal_status_at :: "proposals \<Rightarrow> string \<Rightarrow> learningProposalStatus option" where
  "proposal_status_at st i = map_option lp_status (get_by_id (ps_records st) i)"

definition promotion_at :: "proposals \<Rightarrow> string \<Rightarrow> (string option \<times> date option) option" where
  "promotion_at st i =
     (case get_by_id (ps_records st) i of
        None \<Rightarrow> None
      | Some r \<Rightarrow> if lp_promotedAt r = None then None else Some (lp_promotedVersionRef r, lp_promotedAt r))"

lemma proposals_any_good: "proposals_any is_uuid st st' \<Longrightarrow> proposals_good is_uuid st \<Longrightarrow> proposals_good is_uuid st'"
  unfolding proposals_any_def using proposals_step_effect by blast

interpretation proposal_life: lifecycle "proposals_any is_uuid" "proposals_good is_uuid"
  proposal_status_at "\<lambda>a b. b \<in> set (proposal_transitions a)" for is_uuid
proof (unfold_locales, goal_cases)
  case (1 s t)
  then show ?case by (rule proposals_any_good)
next
  case (2 s t i a)
  then obtain now tok e where "proposals_step is_uuid now tok s t" "get_by_id (ps_records s) i = Some e" "lp_status e = a"
    by (auto simp: proposals_any_def proposal_status_at_def)
  with proposals_step_effect [OF this(1) 2(2)] proposal_change_status show ?case
    by (fastforce simp: proposal_status_at_def)
qed

interpretation proposal_ident: append_only "proposals_any is_uuid" "proposals_good is_uuid"
  "\<lambda>st i. map_option proposal_identity (get_by_id (ps_records st) i)" for is_uuid
proof (unfold_locales, goal_cases)
  case (1 s t)
  then show ?case by (rule proposals_any_good)
next
  case (2 s t i a)
  then obtain now tok e where "proposals_step is_uuid now tok s t" "get_by_id (ps_records s) i = Some e"
      "proposal_identity e = a"
    by (auto simp: proposals_any_def)
  with proposals_step_effect [OF this(1) 2(2)] proposal_change_identity show ?case by fastforce
qed

lemma promotion_kept:
  assumes "proposal_change now tok e e'" and "proposal_consistent e" and "lp_promotedAt e \<noteq> None"
  shows "lp_promotedAt e' = lp_promotedAt e \<and> lp_promotedVersionRef e' = lp_promotedVersionRef e"
  using assms by cases (auto simp: proposal_consistent_def)

interpretation promotion_ledger: append_only "proposals_any is_uuid" "proposals_good is_uuid" promotion_at for is_uuid
proof (unfold_locales, goal_cases)
  case (1 s t)
  then show ?case by (rule proposals_any_good)
next
  case (2 s t i a)
  then obtain now tok e where e: "proposals_step is_uuid now tok s t" "get_by_id (ps_records s) i = Some e"
      "lp_promotedAt e \<noteq> None" "a = (lp_promotedVersionRef e, lp_promotedAt e)"
    by (auto simp: proposals_any_def promotion_at_def split: option.splits if_splits)
  with proposals_step_effect [OF this(1) 2(2)] obtain e' where "get_by_id (ps_records t) i = Some e'"
      "e' = e \<or> proposal_change now tok e e'" by blast
  with e promotion_kept good_proposal(2) [OF 2(2) e(2)] show ?case by (auto simp: promotion_at_def)
qed

lemma create_proposal_replay:
  assumes "proposals_good is_uuid st" and "proposal_create is_uuid t p uuid now st = Inr (r, st')"
  shows "proposal_create is_uuid t p uuid' now' st' = Inr (r, st')"
proof -
  have "find_existing (ps_records st') (proposal_key t (trim (cl_proposalKey p))) = Some r"
    using assms(2)
  proof (cases rule: create_proposal_effect)
    case created
    have "uuid \<noteq> []" using created(2,3) proposals_goodD(1) [OF assms(1)]
      by (auto simp: proposal_good_def learningProposalRecord_ok_def dest: uuid_format_nonempty)
    with created(4,6) show ?thesis by simp
  qed simp
  with assms(2) show ?thesis
    by (auto simp: proposal_create_def createLearningProposalParamsSchema_parse_def Let_def)
qed

lemma create_proposal_good:
  "proposal_create is_uuid t p uuid now st = Inr (r, st') \<Longrightarrow> get_by_id (ps_records st) uuid = None \<Longrightarrow>
   proposals_good is_uuid st \<Longrightarrow> proposals_good is_uuid st'"
  using proposals_step_effect [OF op_create] by blast

interpretation proposal_once: idempotent_command
  "\<lambda>(t, p) (uuid, now) st. proposal_create is_uuid t p uuid now st" "proposals_good is_uuid"
  "\<lambda>(uuid, now) st. get_by_id (ps_records st) uuid = None" "(=)" for is_uuid
  by unfold_locales
    (auto simp: split_paired_all intro: create_proposal_replay create_proposal_good split: prod.splits)

text \<open>The token of an active claim guards the record through any steps of others.\<close>

definition lease_step :: "(string \<Rightarrow> bool) \<Rightarrow> date \<Rightarrow> string \<Rightarrow> proposals \<Rightarrow> proposals \<Rightarrow> bool" where
  "lease_step is_uuid expires token st st' \<longleftrightarrow>
     (\<exists>now tok. proposals_step is_uuid now tok st st' \<and> now < expires \<and> tok \<noteq> Some token)"

lemma lease_protects:
  assumes "(lease_step is_uuid expires token)\<^sup>*\<^sup>* st st'" and "proposals_good is_uuid st"
    and "get_by_id (ps_records st) i = Some e" and "lp_promotionClaimToken e = Some token"
    and "lp_promotionClaimExpiresAt e = Some expires"
  shows "proposals_good is_uuid st' \<and> get_by_id (ps_records st') i = Some e"
  using assms(1)
proof (induction rule: rtranclp_induct)
  case base
  with assms(2,3) show ?case by simp
next
  case (step s u)
  then obtain now tok where s: "proposals_step is_uuid now tok s u" "now < expires" "tok \<noteq> Some token"
    by (auto simp: lease_step_def)
  from step.IH have IH: "proposals_good is_uuid s" "get_by_id (ps_records s) i = Some e" by simp_all
  from proposals_step_effect [OF s(1) IH(1)] IH(2) obtain e' where e': "proposals_good is_uuid u"
      "get_by_id (ps_records u) i = Some e'" "e' = e \<or> proposal_change now tok e e'" by blast
  have "hasActivePromotionClaim e now"
    using assms(4,5) s(2) by (simp add: hasActivePromotionClaim_def)
  with active_claim_locks [OF _ good_proposal(2) [OF IH], of now tok e'] s(3) assms(4) e' show ?case by auto
qed

section \<open>A worked example\<close>

definition example_proposal_params :: createLearningProposalParams where
  "example_proposal_params =
     \<lparr>cl_proposalKey = ''p'', cl_experimentId = None, cl_targetType = ''prompt'', cl_targetId = ''x'',
      cl_risk = RiskHigh, cl_proposalPayload = [], cl_baseVersionRef = None,
      cl_candidateVersionRef = Some ''v2'', cl_createdBy = ''u''\<rparr>"

definition example_verdict :: "learningVerdict \<Rightarrow> recordEvaluationParams" where
  "example_verdict d =
     \<lparr>re_decision = d, re_evidenceSnapshot = [], re_evaluationSnapshot = [], re_decisionReasons = [''r'']\<rparr>"

definition default_claim :: promotionClaimOptions where
  "default_claim = \<lparr>co_leaseMs = None, co_now = None\<rparr>"

definition example_ps1 :: proposals where
  "example_ps1 = state_after (proposal_create hex_id ''aa'' example_proposal_params ''1a'' 5 empty_proposals)
     empty_proposals"

definition example_ps2 :: proposals where
  "example_ps2 = state_after (proposal_recordEvaluation hex_id ''aa'' ''1a'' (example_verdict RequiresApproval) 6
     example_ps1) example_ps1"

definition example_ps3 :: proposals where
  "example_ps3 = snd (proposal_approveAndEnqueue hex_id ''aa'' ''1a'' ''founder'' 7 7 example_ps2)"

definition example_ps4 :: proposals where
  "example_ps4 = state_after (proposal_claimPromotion hex_id ''aa'' ''1a'' default_claim ''c1'' 8 example_ps3)
     example_ps3"

definition example_ps5 :: proposals where
  "example_ps5 = state_after (proposal_markPromoted hex_id ''aa'' ''1a'' ''v2'' ''c1'' 9 example_ps4) example_ps4"

lemma example_proposal_calls:
  "proposal_create hex_id ''aa'' example_proposal_params ''1a'' 5 empty_proposals =
     Inr (value_of (proposal_create hex_id ''aa'' example_proposal_params ''1a'' 5 empty_proposals), example_ps1)"
  "proposal_recordEvaluation hex_id ''aa'' ''1a'' (example_verdict RequiresApproval) 6 example_ps1 =
     Inr (value_of (proposal_recordEvaluation hex_id ''aa'' ''1a'' (example_verdict RequiresApproval) 6 example_ps1),
          example_ps2)"
  "proposal_claimPromotion hex_id ''aa'' ''1a'' default_claim ''c1'' 8 example_ps3 =
     Inr (value_of (proposal_claimPromotion hex_id ''aa'' ''1a'' default_claim ''c1'' 8 example_ps3), example_ps4)"
  "proposal_markPromoted hex_id ''aa'' ''1a'' ''v2'' ''c1'' 9 example_ps4 =
     Inr (value_of (proposal_markPromoted hex_id ''aa'' ''1a'' ''v2'' ''c1'' 9 example_ps4), example_ps5)"
  subgoal unfolding example_ps1_def by (rule call_result) code_simp
  subgoal unfolding example_ps2_def by (rule call_result) code_simp
  subgoal unfolding example_ps4_def by (rule call_result) code_simp
  subgoal unfolding example_ps5_def by (rule call_result) code_simp
  done

lemma example_approval:
  "proposal_approveAndEnqueue hex_id ''aa'' ''1a'' ''founder'' 7 7 example_ps2 =
     (fst (proposal_approveAndEnqueue hex_id ''aa'' ''1a'' ''founder'' 7 7 example_ps2), example_ps3)"
  by (simp add: example_ps3_def)

lemma example_proposal_steps:
  "proposals_any hex_id empty_proposals example_ps1" "proposals_any hex_id example_ps1 example_ps2"
  "proposals_any hex_id example_ps2 example_ps3" "proposals_any hex_id example_ps3 example_ps4"
  "proposals_any hex_id example_ps4 example_ps5"
  unfolding proposals_any_def
  using op_create [OF example_proposal_calls(1)] op_evaluate [OF example_proposal_calls(2)]
    op_approve [OF example_approval] op_claim [OF example_proposal_calls(3)]
    op_promote [OF example_proposal_calls(4)]
  by (auto simp: empty_proposals_def empty_store_def)

lemma example_ps_reachable:
  "(proposals_any hex_id)\<^sup>*\<^sup>* empty_proposals example_ps3" "(proposals_any hex_id)\<^sup>*\<^sup>* empty_proposals example_ps5"
  using example_proposal_steps by (meson rtranclp.rtrancl_into_rtrancl rtranclp.rtrancl_refl)+

lemma example_ps_good:
  "proposals_good hex_id example_ps2" "proposals_good hex_id example_ps3" "proposals_good hex_id example_ps4"
  using example_proposal_steps proposals_any_good proposals_good_empty [OF uuid_format_hex_id] by metis+

section \<open>Properties\<close>

text \<open>
  C12. Proposals live by their state machine: in every history a proposal is never lost, its identity,
  target, risk and payload never change, its status moves only along the transitions of the
  lifecycle (rejection and rollback are final), and what was promoted, and when, is never rewritten.
\<close>

theorem proposal_history:
  assumes "uuid_format is_uuid" and "(proposals_any is_uuid)\<^sup>*\<^sup>* empty_proposals st"
    and "(proposals_any is_uuid)\<^sup>*\<^sup>* st st'" and "get_by_id (ps_records st) i = Some e"
  shows "\<exists>e'. get_by_id (ps_records st') i = Some e' \<and> proposal_identity e' = proposal_identity e \<and>
    (\<lambda>a b. b \<in> set (proposal_transitions a))\<^sup>*\<^sup>* (lp_status e) (lp_status e') \<and>
    (lp_promotedAt e \<noteq> None \<longrightarrow> lp_promotedAt e' = lp_promotedAt e \<and>
       lp_promotedVersionRef e' = lp_promotedVersionRef e)"
proof -
  have good: "proposals_good is_uuid st"
    by (rule proposal_life.steps_inv [OF assms(2) proposals_good_empty [OF assms(1)]])
  have "proposal_status_at st i = Some (lp_status e)" using assms(4) by (simp add: proposal_status_at_def)
  from proposal_life.steps_status [OF assms(3) good this] obtain e' where e':
      "get_by_id (ps_records st') i = Some e'"
      "(\<lambda>a b. b \<in> set (proposal_transitions a))\<^sup>*\<^sup>* (lp_status e) (lp_status e')"
    by (auto simp: proposal_status_at_def)
  have "map_option proposal_identity (get_by_id (ps_records st') i) = Some (proposal_identity e)"
    by (rule proposal_ident.ledger.terminal_stays [OF assms(3) good]) (use assms(4) in auto)
  moreover have "lp_promotedAt e' = lp_promotedAt e \<and> lp_promotedVersionRef e' = lp_promotedVersionRef e"
    if "lp_promotedAt e \<noteq> None"
  proof -
    from that assms(4) have "promotion_at st i = Some (lp_promotedVersionRef e, lp_promotedAt e)"
      by (auto simp: promotion_at_def)
    then have "promotion_at st' i = Some (lp_promotedVersionRef e, lp_promotedAt e)"
      by (rule promotion_ledger.ledger.terminal_stays [OF assms(3) good]) simp
    with e'(1) show ?thesis by (auto simp: promotion_at_def split: if_splits)
  qed
  ultimately show ?thesis using e' by auto
qed

theorem proposal_history_witness:
  "\<exists>e'. get_by_id (ps_records example_ps5) ''1a'' = Some e' \<and>
     (\<lambda>a b. b \<in> set (proposal_transitions a))\<^sup>*\<^sup>* LpApproved (lp_status e')"
proof -
  have "map_option lp_status (get_by_id (ps_records example_ps3) ''1a'') = Some LpApproved" by code_simp
  then obtain e where e: "get_by_id (ps_records example_ps3) ''1a'' = Some e" "lp_status e = LpApproved" by auto
  have "(proposals_any hex_id)\<^sup>*\<^sup>* example_ps3 example_ps5"
    using example_proposal_steps(4,5) by (meson rtranclp.rtrancl_into_rtrancl rtranclp.rtrancl_refl)
  from proposal_history [OF uuid_format_hex_id example_ps_reachable(1) this e(1)] e(2) show ?thesis by auto
qed

text \<open>
  C13. Nothing reaches production ungated: in every reachable state a proposal that is approved,
  promoted or rolled back has either a promote decision of the evidence gate or a named human
  approver, one that was promoted names the promoted version, and a claim token is only ever
  held by an approved proposal.
\<close>

theorem promotion_is_gated:
  assumes "uuid_format is_uuid" and "(proposals_any is_uuid)\<^sup>*\<^sup>* empty_proposals st"
    and "get_by_id (ps_records st) i = Some p"
  shows "(lp_status p \<in> {LpApproved, LpPromoted, LpRolledBack} \<longrightarrow>
      lp_decision p = Some Promote \<or> lp_humanApprovedBy p \<noteq> None) \<and>
    (lp_status p \<in> {LpPromoted, LpRolledBack} \<longrightarrow> lp_promotedVersionRef p \<noteq> None) \<and>
    (lp_promotionClaimToken p \<noteq> None \<longrightarrow> lp_status p = LpApproved)"
proof -
  have "proposals_good is_uuid st"
    by (rule proposal_life.steps_inv [OF assms(2) proposals_good_empty [OF assms(1)]])
  from good_proposal(2) [OF this assms(3)] show ?thesis unfolding proposal_consistent_def by blast
qed

theorem promotion_is_gated_witness:
  "\<exists>p. get_by_id (ps_records example_ps5) ''1a'' = Some p \<and> lp_status p = LpPromoted \<and>
     (lp_decision p = Some Promote \<or> lp_humanApprovedBy p \<noteq> None)"
proof -
  have "map_option lp_status (get_by_id (ps_records example_ps5) ''1a'') = Some LpPromoted" by code_simp
  then obtain p where "get_by_id (ps_records example_ps5) ''1a'' = Some p" "lp_status p = LpPromoted" by auto
  with promotion_is_gated [OF uuid_format_hex_id example_ps_reachable(2)] show ?thesis by blast
qed

lemma claim_granted:
  assumes "proposals_good is_uuid st"
    and "proposal_claimPromotion is_uuid t i opts uuid clock st = Inr (Some c, st1)"
  obtains e where "get_by_id (ps_records st) i = Some e" "lp_tenantId e = t" "lp_status e = LpApproved"
    "proposal_change (nullish_or (co_now opts) clock) None e (pc_proposal c)"
    "learningProposalRecord_ok is_uuid (pc_proposal c)"
    "pc_proposal c = e\<lparr>lp_promotionClaimToken := Some (pc_token c),
       lp_promotionClaimExpiresAt := Some (pc_expiresAt c), lp_updatedAt := nullish_or (co_now opts) clock\<rparr>"
    "nullish_or (co_now opts) clock + 1000 \<le> pc_expiresAt c"
    "pc_expiresAt c \<le> nullish_or (co_now opts) clock + 900000"
    "st1 = save_proposal i (pc_proposal c) st"
  using assms
proof (cases rule: claim_effect)
  case refused
  then show ?thesis by simp
next
  case (changed e e' expires)
  then have c: "c = \<lparr>pc_proposal = e', pc_token = uuid, pc_expiresAt = expires\<rparr>" by simp
  show ?thesis
    by (rule that [of e]) (insert changed, simp_all only: c promotionClaim.select_convs)
qed

text \<open>
  C14. A promotion claim is an exclusive lease of one second to fifteen minutes: until it expires no
  operation that does not present its token can change the proposal, no second claim succeeds, no
  other token can promote, and the holder's promotion goes through at any time before expiry.
\<close>

theorem promotion_claim_is_exclusive:
  assumes "proposals_good is_uuid st"
    and "proposal_claimPromotion is_uuid t i opts uuid clock st = Inr (Some c, st1)"
    and "(lease_step is_uuid (pc_expiresAt c) (pc_token c))\<^sup>*\<^sup>* st1 st2"
  shows "nullish_or (co_now opts) clock + 1000 \<le> pc_expiresAt c \<and>
    pc_expiresAt c \<le> nullish_or (co_now opts) clock + 900000 \<and>
    get_by_id (ps_records st2) i = Some (pc_proposal c) \<and>
    (\<forall>opts' uuid' clock' res st3. nullish_or (co_now opts') clock' < pc_expiresAt c \<longrightarrow>
       proposal_claimPromotion is_uuid t i opts' uuid' clock' st2 = Inr (res, st3) \<longrightarrow> res = None \<and> st3 = st2) \<and>
    (\<forall>v tok now res st3. tok \<noteq> pc_token c \<longrightarrow>
       proposal_markPromoted is_uuid t i v tok now st2 = Inr (res, st3) \<longrightarrow> res = None \<and> st3 = st2) \<and>
    (\<forall>v now. now < pc_expiresAt c \<longrightarrow> trim v \<noteq> [] \<longrightarrow>
       (\<exists>p st3. proposal_markPromoted is_uuid t i v (pc_token c) now st2 = Inr (Some p, st3) \<and>
          lp_status p = LpPromoted \<and> lp_promotedVersionRef p = Some (trim v)))"
proof -
  define e' uuid0 expires where defs: "e' = pc_proposal c" "uuid0 = pc_token c" "expires = pc_expiresAt c"
  obtain e where c: "get_by_id (ps_records st) i = Some e" "lp_tenantId e = t" "lp_status e = LpApproved"
      "proposal_change (nullish_or (co_now opts) clock) None e e'" "learningProposalRecord_ok is_uuid e'"
      "e' = e\<lparr>lp_promotionClaimToken := Some uuid0, lp_promotionClaimExpiresAt := Some expires,
              lp_updatedAt := nullish_or (co_now opts) clock\<rparr>"
      "nullish_or (co_now opts) clock + 1000 \<le> expires" "expires \<le> nullish_or (co_now opts) clock + 900000"
      "st1 = save_proposal i e' st"
    unfolding defs by (rule claim_granted [OF assms(1,2)])
  have good1: "proposals_good is_uuid st1" unfolding c(9) by (rule save_good [OF assms(1) c(1,4,5)])
  have get1: "get_by_id (ps_records st1) i = Some e'" unfolding c(9) by simp
  have tok: "lp_promotionClaimToken e' = Some uuid0" "lp_promotionClaimExpiresAt e' = Some expires"
      "lp_status e' = LpApproved" "lp_tenantId e' = t"
    using c(2,3) by (simp_all add: c(6))
  have uuids: "is_uuid uuid0" "is_uuid t"
    using c(5) tok by (simp_all add: learningProposalRecord_ok_def)
  have "proposals_good is_uuid st2 \<and> get_by_id (ps_records st2) i = Some e'"
    by (rule lease_protects [OF assms(3) good1 get1]) (simp_all add: tok defs [symmetric])
  then have good2: "proposals_good is_uuid st2" and get2: "get_by_id (ps_records st2) i = Some e'" by simp_all
  have found: "findScopedRecord t i st2 = Some e'" using get2 tok(4) by (simp add: findScopedRecord_Some)
  have active: "hasActivePromotionClaim e' now" if "now < expires" for now
    using that tok by (simp add: hasActivePromotionClaim_def)
  have no_claim: "res = None \<and> st3 = st2" if "nullish_or (co_now opts') clock' < expires"
      "proposal_claimPromotion is_uuid t i opts' uuid' clock' st2 = Inr (res, st3)" for opts' uuid' clock' res st3
    using good2 that(2) by (rule claim_effect) (use get2 active [OF that(1)] in auto)
  have no_promote: "res = None \<and> st3 = st2" if "tok \<noteq> uuid0"
      "proposal_markPromoted is_uuid t i v tok now st2 = Inr (res, st3)" for v tok now res st3
    using good2 that(2)
    by (rule promote_effect) (use get2 tok(1) that(1) in \<open>auto elim: proposal_changeE\<close>)
  have promote: "\<exists>p st3. proposal_markPromoted is_uuid t i v uuid0 now st2 = Inr (Some p, st3) \<and>
      lp_status p = LpPromoted \<and> lp_promotedVersionRef p = Some (trim v)"
    if "now < expires" "trim v \<noteq> []" for v now
  proof -
    define u where "u = e'\<lparr>lp_status := LpPromoted, lp_promotedVersionRef := Some (trim v),
        lp_promotionClaimToken := None, lp_promotionClaimExpiresAt := None, lp_promotedAt := Some now,
        lp_updatedAt := now\<rparr>"
    have "learningProposalRecord_ok is_uuid u" using c(5) by (simp add: u_def learningProposalRecord_ok_def)
    then have "learningProposalRecordSchema_parse is_uuid u = Inr u"
      by (subst proposal_parse_trimmed [OF c(5)]) (use ok_reasons [OF c(5)] in \<open>simp_all add: u_def\<close>)
    then have "proposal_markPromoted is_uuid t i v uuid0 now st2 = Inr (Some u, save_proposal i u st2)"
      using tok uuids found active [OF that(1)] that(2)
      by (simp add: proposal_markPromoted_def tenantIdSchema_parse_valid nonEmptyText_def zod_parse_def u_def)
    then show ?thesis by (simp add: u_def)
  qed
  show ?thesis unfolding defs [symmetric] using c(7,8) get2 no_claim no_promote promote by blast
qed

lemma example_claim:
  "\<exists>c. proposal_claimPromotion hex_id ''aa'' ''1a'' default_claim ''c1'' 8 example_ps3 = Inr (Some c, example_ps4) \<and>
     pc_token c = ''c1'' \<and> pc_expiresAt c = 60008"
proof -
  have "map_option (\<lambda>c. (pc_token c, pc_expiresAt c))
      (value_of (proposal_claimPromotion hex_id ''aa'' ''1a'' default_claim ''c1'' 8 example_ps3)) = Some (''c1'', 60008)"
    by code_simp
  with example_proposal_calls(3) show ?thesis by force
qed

theorem promotion_claim_is_exclusive_witness:
  "\<exists>p st3. proposal_markPromoted hex_id ''aa'' ''1a'' ''v2'' ''c1'' 60007 example_ps4 = Inr (Some p, st3) \<and>
     lp_status p = LpPromoted"
proof -
  obtain c where c: "proposal_claimPromotion hex_id ''aa'' ''1a'' default_claim ''c1'' 8 example_ps3 =
      Inr (Some c, example_ps4)" "pc_token c = ''c1''" "pc_expiresAt c = 60008"
    using example_claim by blast
  have "trim ''v2'' \<noteq> []" by code_simp
  moreover have "\<forall>v now. now < pc_expiresAt c \<longrightarrow> trim v \<noteq> [] \<longrightarrow>
      (\<exists>p st3. proposal_markPromoted hex_id ''aa'' ''1a'' v (pc_token c) now example_ps4 = Inr (Some p, st3) \<and>
         lp_status p = LpPromoted \<and> lp_promotedVersionRef p = Some (trim v))"
    using promotion_claim_is_exclusive [OF example_ps_good(2) c(1) rtranclp.rtrancl_refl] by blast
  ultimately show ?thesis unfolding c(2,3) by (auto dest!: spec [of _ "''v2''"] spec [of _ "60007::date"])
qed

text \<open>
  A crashed promoter does not block a proposal: an approved proposal whose claim has run out, or
  that has none, can be claimed by anyone with acceptable options, and the new token is not the old
  one's to use: promoting with any other token is refused.
\<close>

theorem expired_claim_can_be_retaken:
  assumes "proposals_good is_uuid st" and "get_by_id (ps_records st) i = Some e" and "lp_tenantId e = t"
    and "lp_status e = LpApproved"
    and "\<And>x. lp_promotionClaimExpiresAt e = Some x \<Longrightarrow> x \<le> nullish_or (co_now opts) clock"
    and "promotionClaimOptions_ok opts" and "is_uuid uuid"
  shows "\<exists>c st1. proposal_claimPromotion is_uuid t i opts uuid clock st = Inr (Some c, st1) \<and> pc_token c = uuid \<and>
    (\<forall>tok v now. tok \<noteq> uuid \<longrightarrow> (\<forall>p st2. proposal_markPromoted is_uuid t i v tok now st1 \<noteq> Inr (Some p, st2)))"
proof -
  note ok = good_proposal(1) [OF assms(1,2)]
  define q where "q = opts\<lparr>co_leaseMs := Some (nullish_or (co_leaseMs opts) DEFAULT_PROMOTION_CLAIM_LEASE_MS)\<rparr>"
  have q: "promotionClaimOptionsSchema_parse opts = Inr q"
    using assms(6) by (cases "co_leaseMs opts")
      (simp_all add: promotionClaimOptionsSchema_parse_def zod_parse_def promotionClaimOptions_ok_def q_def
        DEFAULT_PROMOTION_CLAIM_LEASE_MS_def MIN_PROMOTION_CLAIM_LEASE_MS_def MAX_PROMOTION_CLAIM_LEASE_MS_def)
  define now where "now = nullish_or (co_now opts) clock"
  define expires where "expires = now + \<lfloor>nullish_or (co_leaseMs q) DEFAULT_PROMOTION_CLAIM_LEASE_MS\<rfloor>"
  define u where "u = e\<lparr>lp_promotionClaimToken := Some uuid, lp_promotionClaimExpiresAt := Some expires,
      lp_updatedAt := now\<rparr>"
  have "learningProposalRecord_ok is_uuid u" using ok assms(7) by (simp add: u_def learningProposalRecord_ok_def)
  then have u: "learningProposalRecordSchema_parse is_uuid u = Inr u"
    by (subst proposal_parse_trimmed [OF ok]) (use ok_reasons [OF ok] in \<open>simp_all add: u_def\<close>)
  have "is_uuid t" using ok assms(3) by (simp add: learningProposalRecord_ok_def)
  moreover have "findScopedRecord t i st = Some e" using assms(2,3) by (simp add: findScopedRecord_Some)
  moreover have "\<not> hasActivePromotionClaim e now"
    using assms(5) by (auto simp: hasActivePromotionClaim_def now_def split: option.splits)
  moreover have "nullish_or (co_now q) clock = now" by (simp add: q_def now_def)
  ultimately have claim: "proposal_claimPromotion is_uuid t i opts uuid clock st =
      Inr (Some \<lparr>pc_proposal = u, pc_token = uuid, pc_expiresAt = expires\<rparr>, save_proposal i u st)"
    using assms(4) q u
    by (simp add: proposal_claimPromotion_def tenantIdSchema_parse_valid expires_def [symmetric] u_def [symmetric]
        Let_def)
  have good: "proposals_good is_uuid (save_proposal i u st)"
    using proposals_step_effect [OF op_claim [OF claim] assms(1)] by (rule conjunct1)
  have "proposal_markPromoted is_uuid t i v tok n (save_proposal i u st) \<noteq> Inr (Some p, st2)"
    if "tok \<noteq> uuid" for tok v n p st2
  proof
    assume "proposal_markPromoted is_uuid t i v tok n (save_proposal i u st) = Inr (Some p, st2)"
    with good show False
      by (cases rule: promote_effect) (use that in \<open>auto simp: u_def elim: proposal_changeE\<close>)
  qed
  with claim show ?thesis by auto
qed

theorem expired_claim_can_be_retaken_witness:
  "\<exists>c st1. proposal_claimPromotion hex_id ''aa'' ''1a'' default_claim ''c2'' 60008 example_ps4 = Inr (Some c, st1) \<and>
     pc_token c = ''c2'' \<and> (\<forall>v now p st2. proposal_markPromoted hex_id ''aa'' ''1a'' v ''c1'' now st1 \<noteq> Inr (Some p, st2))"
proof -
  have "map_option (\<lambda>e. (lp_tenantId e, lp_status e, lp_promotionClaimExpiresAt e))
      (get_by_id (ps_records example_ps4) ''1a'') = Some (''aa'', LpApproved, Some 60008)" by code_simp
  then obtain e where e: "get_by_id (ps_records example_ps4) ''1a'' = Some e" "lp_tenantId e = ''aa''"
      "lp_status e = LpApproved" "lp_promotionClaimExpiresAt e = Some 60008" by auto
  have o: "promotionClaimOptions_ok default_claim" "hex_id ''c2''" by code_simp+
  have "x \<le> nullish_or (co_now default_claim) 60008" if "lp_promotionClaimExpiresAt e = Some x" for x
    using that e(4) by (simp add: default_claim_def)
  from expired_claim_can_be_retaken [OF example_ps_good(3) e(1-3) this o] show ?thesis by fastforce
qed

text \<open>
  Promotion happens at most once and only under a live claim: a promotion that succeeds held the
  current, unexpired token of an approved proposal; afterwards, whatever happens, the proposal is
  promoted or rolled back with that version, every claim on it is refused and every further
  promotion is refused.
\<close>

theorem promotion_happens_once:
  assumes "proposals_good is_uuid st" and "proposal_markPromoted is_uuid t i v tok now st = Inr (Some p, st1)"
    and "(proposals_any is_uuid)\<^sup>*\<^sup>* st1 st2"
  shows "(\<exists>e x. get_by_id (ps_records st) i = Some e \<and> lp_status e = LpApproved \<and>
      lp_promotionClaimToken e = Some tok \<and> lp_promotionClaimExpiresAt e = Some x \<and> now < x) \<and>
    (\<exists>p2. get_by_id (ps_records st2) i = Some p2 \<and> lp_status p2 \<in> {LpPromoted, LpRolledBack} \<and>
       lp_promotedVersionRef p2 = Some (trim v)) \<and>
    (\<forall>t' opts uuid clock c st3. proposal_claimPromotion is_uuid t' i opts uuid clock st2 \<noteq> Inr (Some c, st3)) \<and>
    (\<forall>t' v' tok' now' q st3. proposal_markPromoted is_uuid t' i v' tok' now' st2 \<noteq> Inr (Some q, st3))"
proof -
  from assms(1,2) show ?thesis
  proof (cases rule: promote_effect)
    case refused
    then show ?thesis by simp
  next
    case (changed e e')
    have held: "lp_status e = LpApproved \<and> lp_promotionClaimToken e = Some tok \<and> hasActivePromotionClaim e now"
      using changed(3) by (auto elim: proposal_changeE)
    have good1: "proposals_good is_uuid st1"
      unfolding changed(8) by (rule save_good [OF assms(1) changed(1,3,4)])
    have good2: "proposals_good is_uuid st2" by (rule proposal_life.steps_inv [OF assms(3) good1])
    have "lp_promotedAt e' \<noteq> None"
      by (rule consistent_promoted [OF proposal_change_consistent [OF changed(3) good_proposal(2) [OF assms(1) changed(1)]]])
        (simp add: changed(6))
    then have "promotion_at st1 i = Some (Some (trim v), lp_promotedAt e')"
      using changed(7,8) by (simp add: promotion_at_def)
    then have "promotion_at st2 i = Some (Some (trim v), lp_promotedAt e')"
      by (rule promotion_ledger.ledger.terminal_stays [OF assms(3) good1]) simp
    then obtain p2 where p2: "get_by_id (ps_records st2) i = Some p2" "lp_promotedVersionRef p2 = Some (trim v)"
        "lp_promotedAt p2 \<noteq> None"
      by (auto simp: promotion_at_def split: option.splits if_splits)
    have over: "lp_status p2 \<in> {LpPromoted, LpRolledBack}"
    proof (rule ccontr)
      assume "lp_status p2 \<notin> {LpPromoted, LpRolledBack}"
      from consistent_unpromoted [OF good_proposal(2) [OF good2 p2(1)] this] p2(3) show False by simp
    qed
    have "proposal_claimPromotion is_uuid t' i opts uuid clock st2 \<noteq> Inr (Some c, st3)" for t' opts uuid clock c st3
    proof
      assume "proposal_claimPromotion is_uuid t' i opts uuid clock st2 = Inr (Some c, st3)"
      with good2 show False by (rule claim_granted) (use p2(1) over in auto)
    qed
    moreover have "proposal_markPromoted is_uuid t' i v' tok' now' st2 \<noteq> Inr (Some q, st3)" for t' v' tok' now' q st3
    proof
      assume "proposal_markPromoted is_uuid t' i v' tok' now' st2 = Inr (Some q, st3)"
      with good2 show False
        by (cases rule: promote_effect) (use p2(1) over in \<open>auto elim: proposal_changeE\<close>)
    qed
    moreover have "\<exists>x. lp_promotionClaimExpiresAt e = Some x \<and> now < x"
      using held by (auto simp: hasActivePromotionClaim_def split: option.splits)
    ultimately show ?thesis using changed(1) held p2 over by blast
  qed
qed

theorem promotion_happens_once_witness:
  "\<forall>opts uuid clock c st3. proposal_claimPromotion hex_id ''aa'' ''1a'' opts uuid clock example_ps5 \<noteq> Inr (Some c, st3)"
proof -
  have "value_of (proposal_markPromoted hex_id ''aa'' ''1a'' ''v2'' ''c1'' 9 example_ps4) \<noteq> None" by code_simp
  then obtain p where "proposal_markPromoted hex_id ''aa'' ''1a'' ''v2'' ''c1'' 9 example_ps4 = Inr (Some p, example_ps5)"
    using example_proposal_calls(4) by (metis not_None_eq)
  from promotion_happens_once [OF example_ps_good(3) this rtranclp.rtrancl_refl] show ?thesis by blast
qed

text \<open>
  An approval is never without its durable request: approving either does nothing at all, or
  leaves the proposal approved in the approver's name together with an event of the approval type,
  addressed to its tenant and keyed by its id, that is in the outbox.
\<close>

theorem approval_enqueues_event:
  assumes "proposals_good is_uuid st" and "proposal_approveAndEnqueue is_uuid t i by now now' st = (res, st1)"
  shows "case res of
      Inr (Some (p, event)) \<Rightarrow>
        get_by_id (ps_records st1) i = Some p \<and> lp_status p = LpApproved \<and> lp_tenantId p = t \<and>
        lp_humanApprovedBy p = Some (trim by) \<and> oe_tenantId event = t \<and>
        oe_eventType event = learningProposalApprovedEventType \<and>
        oe_idempotencyKey event = ''learning-proposal-approved:'' @ i \<and>
        get_by_id (ob_events (ps_outbox st1)) (oe_id event) = Some event
    | _ \<Rightarrow> st1 = st"
  using assms
proof (cases rule: approve_effect)
  case refused
  then show ?thesis by (auto split: sum.splits option.splits)
next
  case (changed e e' event ob)
  have ident: "proposal_identity e' = proposal_identity e" by (rule proposal_change_identity [OF changed(3)])
  with changed(2) good_proposal(3) [OF assms(1) changed(1)] have e': "lp_id e' = i" "lp_tenantId e' = t"
    by (simp_all add: proposal_identity_def)
  have cmd: "enqueueOutboxEvent_ok is_uuid (learningProposalApprovalOutboxCommand e')"
    using changed(4) by (intro approval_command_ok) (simp add: learningProposalRecord_ok_def)
  have "get_by_id (ob_events ob) (oe_id event) = Some event"
    using changed(10) by (simp add: find_existing_Some [OF outbox_inv_store [OF changed(8)]])
  with changed e' filed_event_type [OF proposals_goodD(1) [OF assms(1)] changed(8) cmd changed(10)]
  show ?thesis by (simp add: learningProposalApprovalOutboxCommand_def)
qed

theorem approval_enqueues_event_witness:
  "\<exists>p event. fst (proposal_approveAndEnqueue hex_id ''aa'' ''1a'' ''founder'' 7 7 example_ps2) = Inr (Some (p, event)) \<and>
     get_by_id (ob_events (ps_outbox example_ps3)) (oe_id event) = Some event"
proof -
  have "(case fst (proposal_approveAndEnqueue hex_id ''aa'' ''1a'' ''founder'' 7 7 example_ps2) of
      Inr (Some _) \<Rightarrow> True | _ \<Rightarrow> False)" by code_simp
  with approval_enqueues_event [OF example_ps_good(1) example_approval] show ?thesis
    by (auto split: sum.splits option.splits prod.splits)
qed

end
