(* ===== verification/Health.thy ===== *)
theory Health
  imports ControlPlane
begin

text \<open>
  Component health: the schemas and the in-memory repository of
  \<open>src/packages/db/src/adaptive-control-plane-repository.ts\<close>. Observations are appended; the latest
  observation of a component is what decides whether it may act.
\<close>

section \<open>Schemas\<close>

record componentHealthRecord =
  ch_id :: string
  ch_tenantId :: string
  ch_componentId :: string
  ch_idempotencyKey :: string
  ch_state :: runtimeHealthState
  ch_errorRate :: number
  ch_consecutiveFailures :: number
  ch_p95LatencyMs :: number
  ch_stalenessSeconds :: number
  ch_dependencyAvailable :: bool
  ch_fallbackAvailable :: bool
  ch_lastKnownGoodAvailable :: bool
  ch_lastKnownGoodVersionRef :: "string option"
  ch_recoveryAttempts :: number
  ch_guardrailBreached :: bool
  ch_action :: healingAction
  ch_allowExternalActions :: bool
  ch_retryAfterSeconds :: "number option"
  ch_reasons :: "string list"
  ch_observedAt :: date
  ch_createdAt :: date

definition componentHealthRecord_ok :: "(string \<Rightarrow> bool) \<Rightarrow> componentHealthRecord \<Rightarrow> bool" where
  "componentHealthRecord_ok is_uuid r \<longleftrightarrow>
     is_uuid (ch_id r) \<and> is_uuid (ch_tenantId r) \<and> is_text (ch_componentId r) \<and>
     is_text (ch_idempotencyKey r) \<and> in_unit (ch_errorRate r) \<and>
     is_nonnegative_int (ch_consecutiveFailures r) \<and> is_nonnegative_int (ch_p95LatencyMs r) \<and>
     is_nonnegative_int (ch_stalenessSeconds r) \<and> is_nonnegative_int (ch_recoveryAttempts r) \<and>
     pred_opt is_positive_int (ch_retryAfterSeconds r) \<and> list_all is_text (ch_reasons r)"

definition componentHealthRecordSchema_parse ::
  "(string \<Rightarrow> bool) \<Rightarrow> componentHealthRecord \<Rightarrow> componentHealthRecord result" where
  "componentHealthRecordSchema_parse is_uuid =
     zod_parse (\<lambda>r. r\<lparr>ch_componentId := trim (ch_componentId r),
                     ch_idempotencyKey := trim (ch_idempotencyKey r),
                     ch_reasons := map trim (ch_reasons r)\<rparr>)
       (componentHealthRecord_ok is_uuid)"

record recordComponentHealthParams =
  hp_componentId :: string
  hp_idempotencyKey :: string
  hp_state :: runtimeHealthState
  hp_errorRate :: number
  hp_consecutiveFailures :: number
  hp_p95LatencyMs :: number
  hp_stalenessSeconds :: number
  hp_dependencyAvailable :: bool
  hp_fallbackAvailable :: bool
  hp_lastKnownGoodAvailable :: bool
  hp_lastKnownGoodVersionRef :: "string option"
  hp_recoveryAttempts :: number
  hp_guardrailBreached :: bool
  hp_action :: healingAction
  hp_allowExternalActions :: bool
  hp_retryAfterSeconds :: "number option"
  hp_reasons :: "string list"
  hp_observedAt :: "date option"

definition recordComponentHealthParams_ok :: "recordComponentHealthParams \<Rightarrow> bool" where
  "recordComponentHealthParams_ok p \<longleftrightarrow>
     is_text (hp_componentId p) \<and> is_text (hp_idempotencyKey p) \<and> in_unit (hp_errorRate p) \<and>
     is_nonnegative_int (hp_consecutiveFailures p) \<and> is_nonnegative_int (hp_p95LatencyMs p) \<and>
     is_nonnegative_int (hp_stalenessSeconds p) \<and> text_opt (hp_lastKnownGoodVersionRef p) \<and>
     is_nonnegative_int (hp_recoveryAttempts p) \<and> pred_opt is_positive_int (hp_retryAfterSeconds p) \<and>
     list_all is_text (hp_reasons p)"

definition recordComponentHealthParamsSchema_parse ::
  "recordComponentHealthParams \<Rightarrow> recordComponentHealthParams result" where
  "recordComponentHealthParamsSchema_parse =
     zod_parse (\<lambda>p. p\<lparr>hp_componentId := trim (hp_componentId p),
                     hp_idempotencyKey := trim (hp_idempotencyKey p),
                     hp_lastKnownGoodVersionRef := trim_opt (hp_lastKnownGoodVersionRef p),
                     hp_reasons := map trim (hp_reasons p)\<rparr>)
       recordComponentHealthParams_ok"

section \<open>The in-memory repository\<close>

type_synonym healths = "componentHealthRecord store"

definition health_key :: "string \<Rightarrow> string \<Rightarrow> string \<Rightarrow> string" where
  "health_key tenantId componentId idempotencyKey =
     colon_key tenantId (colon_key componentId idempotencyKey)"

text \<open>The result pairs the record with \<open>isDuplicate\<close>.\<close>

definition health_record ::
  "(string \<Rightarrow> bool) \<Rightarrow> string \<Rightarrow> recordComponentHealthParams \<Rightarrow> string \<Rightarrow> date \<Rightarrow> healths \<Rightarrow>
   js_error + (componentHealthRecord \<times> bool) \<times> healths" where
  "health_record is_uuid tenantId params uuid now st =
     and_then (tenantIdSchema_parse is_uuid tenantId) (\<lambda>tenant.
     and_then (recordComponentHealthParamsSchema_parse params) (\<lambda>parsed.
       (let key = health_key tenant (hp_componentId parsed) (hp_idempotencyKey parsed)
        in case find_existing st key of
             Some existing \<Rightarrow> Inr ((existing, True), st)
           | None \<Rightarrow>
               and_then (componentHealthRecordSchema_parse is_uuid
                 \<lparr>ch_id = uuid, ch_tenantId = tenant, ch_componentId = hp_componentId parsed,
                  ch_idempotencyKey = hp_idempotencyKey parsed, ch_state = hp_state parsed,
                  ch_errorRate = hp_errorRate parsed,
                  ch_consecutiveFailures = hp_consecutiveFailures parsed,
                  ch_p95LatencyMs = hp_p95LatencyMs parsed,
                  ch_stalenessSeconds = hp_stalenessSeconds parsed,
                  ch_dependencyAvailable = hp_dependencyAvailable parsed,
                  ch_fallbackAvailable = hp_fallbackAvailable parsed,
                  ch_lastKnownGoodAvailable = hp_lastKnownGoodAvailable parsed,
                  ch_lastKnownGoodVersionRef = hp_lastKnownGoodVersionRef parsed,
                  ch_recoveryAttempts = hp_recoveryAttempts parsed,
                  ch_guardrailBreached = hp_guardrailBreached parsed, ch_action = hp_action parsed,
                  ch_allowExternalActions = hp_allowExternalActions parsed,
                  ch_retryAfterSeconds = hp_retryAfterSeconds parsed, ch_reasons = hp_reasons parsed,
                  ch_observedAt = nullish_or (hp_observedAt parsed) now, ch_createdAt = now\<rparr>)
                 (\<lambda>record. Inr ((record, False), insert_new key (ch_id record) record st)))))"

definition health_getByComponent ::
  "(string \<Rightarrow> bool) \<Rightarrow> string \<Rightarrow> string \<Rightarrow> healths \<Rightarrow> componentHealthRecord option result" where
  "health_getByComponent is_uuid tenantId componentId st =
     and_then (tenantIdSchema_parse is_uuid tenantId) (\<lambda>tenant.
       Inr (case newest_first ch_observedAt
                   (filter (\<lambda>r. ch_tenantId r = tenant \<and> ch_componentId r = componentId) (store_values st)) of
              [] \<Rightarrow> None
            | r # _ \<Rightarrow> Some r))"

text \<open>The loop of \<open>listLatest\<close>, over the map from component to its latest record so far.\<close>

definition keep_latest ::
  "string \<Rightarrow> (string \<times> componentHealthRecord) list \<Rightarrow> componentHealthRecord \<Rightarrow> (string \<times> componentHealthRecord) list" where
  "keep_latest tenant latest r =
     (if ch_tenantId r \<noteq> tenant then latest
      else (case map_of latest (ch_componentId r) of
              None \<Rightarrow> AList.update (ch_componentId r) r latest
            | Some prior \<Rightarrow>
                if ch_observedAt prior < ch_observedAt r then AList.update (ch_componentId r) r latest
                else latest))"

definition health_listLatest ::
  "(string \<Rightarrow> bool) \<Rightarrow> string \<Rightarrow> number option \<Rightarrow> healths \<Rightarrow> componentHealthRecord list result" where
  "health_listLatest is_uuid tenantId limit st =
     and_then (tenantIdSchema_parse is_uuid tenantId) (\<lambda>tenant.
     and_then (normalizeLimit limit) (\<lambda>n.
       Inr (take n (newest_first ch_observedAt
              (map snd (foldl (keep_latest tenant) [] (store_values st)))))))"

section \<open>The first of the newest\<close>

fun first_newest :: "('r \<Rightarrow> date) \<Rightarrow> 'r option \<Rightarrow> 'r list \<Rightarrow> 'r option" where
  "first_newest time best [] = best"
| "first_newest time None (r # rs) = first_newest time (Some r) rs"
| "first_newest time (Some b) (r # rs) = first_newest time (Some (if time b < time r then r else b)) rs"

lemma first_newest_snoc:
  "first_newest time best (rs @ [r]) =
     (case first_newest time best rs of
        None \<Rightarrow> Some r
      | Some b \<Rightarrow> Some (if time b < time r then r else b))"
  by (induction time best rs rule: first_newest.induct) (auto split: option.splits)

lemma newest_first_Cons:
  "newest_first time (r # rs) = insort_key (\<lambda>r. - time r) r (newest_first time rs)"
  by (simp add: newest_first_def)

lemma insort_key_nonempty: "insort_key f x xs \<noteq> []"
  by (cases xs) auto

lemma newest_first_nonempty [simp]: "newest_first time rs = [] \<longleftrightarrow> rs = []"
  by (cases rs) (auto simp: newest_first_def insort_key_nonempty)

lemma hd_insort_newest:
  "hd (insort_key (\<lambda>r. - time r) x ys) = (if ys = [] \<or> time (hd ys) \<le> time x then x else hd ys)"
  for time :: "'r \<Rightarrow> date"
  by (cases ys) auto

text \<open>The head of the stable descending sort is the first record with the greatest time.\<close>

lemma hd_newest_first_snoc:
  "hd (newest_first time (rs @ [x])) =
     (if rs = [] then x
      else if time (hd (newest_first time rs)) < time x then x else hd (newest_first time rs))"
proof (induction rs)
  case Nil
  then show ?case by (simp add: newest_first_def)
next
  case (Cons r rs)
  show ?case
  proof (cases "rs = []")
    case True
    then show ?thesis by (simp add: newest_first_def)
  next
    case False
    with Cons have "hd (newest_first time (rs @ [x])) =
        (if time (hd (newest_first time rs)) < time x then x else hd (newest_first time rs))" by simp
    then show ?thesis using False
      by (simp only: append_Cons newest_first_Cons hd_insort_newest newest_first_nonempty) auto
  qed
qed

lemma first_newest_eq: "first_newest time None rs = (if rs = [] then None else Some (hd (newest_first time rs)))"
proof (induction rs rule: rev_induct)
  case (snoc x xs)
  then show ?case by (simp add: first_newest_snoc hd_newest_first_snoc)
qed simp

lemma first_newest_mem:
  assumes "first_newest time None rs = Some r"
  shows "r \<in> set rs"
proof -
  from assms have "rs \<noteq> []" "r = hd (newest_first time rs)" by (auto simp: first_newest_eq split: if_splits)
  with hd_in_set [of "newest_first time rs"] show ?thesis by simp
qed

lemma getByComponent_eq:
  "health_getByComponent is_uuid t c st =
     (if is_uuid t
      then Inr (first_newest ch_observedAt None
                  (filter (\<lambda>r. ch_tenantId r = t \<and> ch_componentId r = c) (store_values st)))
      else Inl ZodError)"
proof (cases "is_uuid t")
  case True
  define rs where "rs = filter (\<lambda>r. ch_tenantId r = t \<and> ch_componentId r = c) (store_values st)"
  have "(case newest_first ch_observedAt rs of [] \<Rightarrow> None | r # _ \<Rightarrow> Some r) = first_newest ch_observedAt None rs"
  proof (cases "rs = []")
    case False
    then obtain a l where "newest_first ch_observedAt rs = a # l"
      by (metis newest_first_nonempty neq_Nil_conv)
    with False show ?thesis by (simp add: first_newest_eq)
  qed (simp add: newest_first_def)
  with True show ?thesis
    by (simp add: health_getByComponent_def tenantIdSchema_parse_valid rs_def)
next
  case False
  then show ?thesis by (simp add: health_getByComponent_def tenantIdSchema_parse_def zod_parse_def)
qed

text \<open>The loop computes the same for all components at once.\<close>

lemma keep_latest_map:
  "map_of (foldl (keep_latest t) [] rs) c =
     first_newest ch_observedAt None (filter (\<lambda>r. ch_tenantId r = t \<and> ch_componentId r = c) rs)"
proof (induction rs rule: rev_induct)
  case (snoc r rs)
  then show ?case
    by (auto simp: keep_latest_def first_newest_snoc update_conv split: option.splits)
qed simp

definition latest_ok :: "string \<Rightarrow> (string \<times> componentHealthRecord) list \<Rightarrow> bool" where
  "latest_ok t m \<longleftrightarrow> distinct (map fst m) \<and>
     (\<forall>c r. (c, r) \<in> set m \<longrightarrow> ch_componentId r = c \<and> ch_tenantId r = t)"

lemma latest_ok_update:
  assumes "latest_ok t m" and "ch_tenantId r = t"
  shows "latest_ok t (AList.update (ch_componentId r) r m)"
proof -
  have d: "distinct (map fst (AList.update (ch_componentId r) r m))"
    using assms(1) by (simp add: latest_ok_def distinct_update)
  have "ch_componentId q = c \<and> ch_tenantId q = t" if "(c, q) \<in> set (AList.update (ch_componentId r) r m)" for c q
  proof -
    have "map_of (AList.update (ch_componentId r) r m) c = Some q" by (rule map_of_is_SomeI [OF d that])
    then have "c = ch_componentId r \<and> q = r \<or> map_of m c = Some q"
      by (simp add: update_conv split: if_splits)
    with assms show ?thesis unfolding latest_ok_def by (metis map_of_SomeD)
  qed
  with d show ?thesis by (simp add: latest_ok_def)
qed

lemma keep_latest_ok: "latest_ok t m \<Longrightarrow> latest_ok t (keep_latest t m r)"
  by (simp add: keep_latest_def latest_ok_update split: option.split)

lemma latest_ok_loop: "latest_ok t (foldl (keep_latest t) [] rs)"
  by (induction rs rule: rev_induct) (simp_all add: keep_latest_ok, simp add: latest_ok_def)

section \<open>Recording\<close>

abbreviation ch_key :: "componentHealthRecord \<Rightarrow> string" where
  "ch_key r \<equiv> health_key (ch_tenantId r) (ch_componentId r) (ch_idempotencyKey r)"

definition healths_good :: "(string \<Rightarrow> bool) \<Rightarrow> healths \<Rightarrow> bool" where
  "healths_good is_uuid st \<longleftrightarrow> uuid_format is_uuid \<and> store_ok ch_id ch_key (componentHealthRecord_ok is_uuid) st"

lemma health_effect:
  assumes "health_record is_uuid t p uuid now st = Inr ((r, dup), st')"
  obtains (existing) "find_existing st (health_key t (trim (hp_componentId p)) (trim (hp_idempotencyKey p))) = Some r"
      "st' = st" "dup"
  | (created) "find_existing st (ch_key r) = None" "ch_id r = uuid" "componentHealthRecord_ok is_uuid r" "\<not> dup"
      "ch_key r = health_key t (trim (hp_componentId p)) (trim (hp_idempotencyKey p))"
      "st' = insert_new (ch_key r) uuid r st"
proof (cases "find_existing st (health_key t (trim (hp_componentId p)) (trim (hp_idempotencyKey p)))")
  case None
  with assms show thesis
    by (intro created)
      (auto simp: health_record_def recordComponentHealthParamsSchema_parse_def
        componentHealthRecordSchema_parse_def Let_def)
next
  case (Some e)
  with assms show thesis
    by (intro existing) (auto simp: health_record_def recordComponentHealthParamsSchema_parse_def Let_def)
qed

lemma health_good:
  assumes "health_record is_uuid t p uuid now st = Inr ((r, dup), st')" and "get_by_id st uuid = None"
    and "healths_good is_uuid st"
  shows "healths_good is_uuid st'"
  using assms(1)
proof (cases rule: health_effect)
  case created
  then have "uuid \<noteq> []" using assms(3)
    by (auto simp: healths_good_def componentHealthRecord_ok_def dest: uuid_format_nonempty)
  with created assms(2,3) show ?thesis by (auto simp: healths_good_def intro!: store_ok_insert)
qed (use assms(3) in simp)

lemma health_replay:
  assumes "healths_good is_uuid st" and "health_record is_uuid t p uuid now st = Inr ((r, dup), st')"
  shows "health_record is_uuid t p uuid' now' st' = Inr ((r, True), st')"
proof -
  have "find_existing st' (health_key t (trim (hp_componentId p)) (trim (hp_idempotencyKey p))) = Some r"
    using assms(2)
  proof (cases rule: health_effect)
    case created
    then have "uuid \<noteq> []" using assms(1)
      by (auto simp: healths_good_def componentHealthRecord_ok_def dest: uuid_format_nonempty)
    with created show ?thesis by simp
  qed simp
  with assms(2) show ?thesis
    by (auto simp: health_record_def recordComponentHealthParamsSchema_parse_def Let_def)
qed

interpretation health_once: idempotent_command
  "\<lambda>(t, p) (uuid, now) st. health_record is_uuid t p uuid now st" "healths_good is_uuid"
  "\<lambda>(uuid, now) st. get_by_id st uuid = None" "\<lambda>x y. fst x = fst y" for is_uuid
  by unfold_locales (auto simp: split_paired_all intro: health_replay health_good split: prod.splits)

section \<open>Properties\<close>

text \<open>
  The two views of the latest health agree: for a tenant with at most 250 components that have
  reported, the list of latest records holds, for each component exactly once, precisely the record
  that a lookup of that component returns, newest first; and that record is an observation of the
  component than which none is newer.
\<close>

theorem latest_health_views_agree:
  assumes "is_uuid t" and "card {ch_componentId r | r. r \<in> set (store_values st) \<and> ch_tenantId r = t} \<le> 250"
  shows "\<exists>rs. health_listLatest is_uuid t (Some 250) st = Inr rs \<and> distinct (map ch_componentId rs) \<and>
    sorted_wrt (\<lambda>a b. ch_observedAt b \<le> ch_observedAt a) rs \<and>
    (\<forall>r. r \<in> set rs \<longleftrightarrow> health_getByComponent is_uuid t (ch_componentId r) st = Inr (Some r)) \<and>
    (\<forall>r \<in> set rs. \<forall>q \<in> set (store_values st). ch_tenantId q = t \<and> ch_componentId q = ch_componentId r \<longrightarrow>
       ch_observedAt q \<le> ch_observedAt r)"
proof -
  define m where "m = foldl (keep_latest t) [] (store_values st)"
  define rs where "rs = newest_first ch_observedAt (map snd m)"
  have ok: "latest_ok t m" unfolding m_def by (rule latest_ok_loop)
  have look: "map_of m c = Some r \<longleftrightarrow> health_getByComponent is_uuid t c st = Inr (Some r)" for c r
    using assms(1) by (simp add: m_def keep_latest_map getByComponent_eq)
  have comps: "map ch_componentId (map snd m) = map fst m"
    using ok by (auto simp: latest_ok_def)
  then have dist: "distinct (map ch_componentId (map snd m))" using ok by (simp only: latest_ok_def)
  have mem: "r \<in> set rs \<longleftrightarrow> map_of m (ch_componentId r) = Some r" for r
  proof
    assume "r \<in> set rs"
    then obtain c where "(c, r) \<in> set m" by (auto simp: rs_def)
    with ok show "map_of m (ch_componentId r) = Some r" unfolding latest_ok_def by (metis map_of_is_SomeI)
  next
    assume "map_of m (ch_componentId r) = Some r"
    then show "r \<in> set rs" by (force simp: rs_def dest: map_of_SomeD)
  qed
  have newest: "ch_observedAt q \<le> ch_observedAt r" if "r \<in> set rs" "q \<in> set (store_values st)"
      "ch_tenantId q = t" "ch_componentId q = ch_componentId r" for q r
  proof -
    define qs where "qs = filter (\<lambda>x. ch_tenantId x = t \<and> ch_componentId x = ch_componentId r) (store_values st)"
    have "first_newest ch_observedAt None qs = Some r"
      using that(1) by (simp add: mem m_def keep_latest_map qs_def)
    moreover have "q \<in> set (newest_first ch_observedAt qs)" using that(2-4) by (simp add: qs_def)
    ultimately have "r = hd (newest_first ch_observedAt qs)" "newest_first ch_observedAt qs \<noteq> []"
      by (auto simp: first_newest_eq split: if_splits)
    with \<open>q \<in> set (newest_first ch_observedAt qs)\<close> sorted_newest_first [of ch_observedAt qs] show ?thesis
      by (cases "newest_first ch_observedAt qs") auto
  qed
  have "set (map fst m) \<subseteq> {ch_componentId r | r. r \<in> set (store_values st) \<and> ch_tenantId r = t}"
  proof
    fix c assume "c \<in> set (map fst m)"
    then obtain r where r: "map_of m c = Some r"
      by (metis map_of_eq_None_iff not_None_eq set_map)
    then have "first_newest ch_observedAt None
        (filter (\<lambda>r. ch_tenantId r = t \<and> ch_componentId r = c) (store_values st)) = Some r"
      by (simp add: m_def keep_latest_map)
    from first_newest_mem [OF this]
    have "r \<in> set (store_values st)" "ch_tenantId r = t" "ch_componentId r = c" by simp_all
    then show "c \<in> {ch_componentId r | r. r \<in> set (store_values st) \<and> ch_tenantId r = t}" by blast
  qed
  moreover have "finite {ch_componentId r | r. r \<in> set (store_values st) \<and> ch_tenantId r = t}" by simp
  ultimately have "card (set (map fst m)) \<le> 250"
    using assms(2) by (meson card_mono le_trans)
  moreover have "card (set (map fst m)) = length (map fst m)"
    by (rule distinct_card) (use ok in \<open>simp only: latest_ok_def\<close>)
  ultimately have len: "length m \<le> 250" by simp
  have "health_listLatest is_uuid t (Some 250) st = Inr rs"
    using assms(1) len
    by (simp add: health_listLatest_def tenantIdSchema_parse_valid normalizeLimit_def MAX_LIMIT_def
        is_positive_int_def rs_def m_def)
  moreover have "distinct (map ch_componentId rs)"
    using dist unfolding rs_def newest_first_def by (simp add: distinct_map inj_on_def) metis
  ultimately show ?thesis
    using mem look newest sorted_newest_first [of ch_observedAt "map snd m"] unfolding rs_def [symmetric] by auto
qed

definition example_health_params :: "string \<Rightarrow> date \<Rightarrow> recordComponentHealthParams" where
  "example_health_params k tm =
     \<lparr>hp_componentId = ''mail'', hp_idempotencyKey = k, hp_state = Healthy, hp_errorRate = 0,
      hp_consecutiveFailures = 0, hp_p95LatencyMs = 10, hp_stalenessSeconds = 0,
      hp_dependencyAvailable = True, hp_fallbackAvailable = False, hp_lastKnownGoodAvailable = True,
      hp_lastKnownGoodVersionRef = None, hp_recoveryAttempts = 0, hp_guardrailBreached = False,
      hp_action = NoAction, hp_allowExternalActions = True, hp_retryAfterSeconds = None,
      hp_reasons = [''ok''], hp_observedAt = Some tm\<rparr>"

definition example_healths :: healths where
  "example_healths =
     (let st = state_after (health_record hex_id ''aa'' (example_health_params ''k1'' 20) ''1a'' 5 empty_store) empty_store
      in state_after (health_record hex_id ''aa'' (example_health_params ''k2'' 10) ''1b'' 6 st) st)"

theorem latest_health_views_agree_witness:
  "\<exists>rs. health_listLatest hex_id ''aa'' (Some 250) example_healths = Inr rs \<and> distinct (map ch_componentId rs) \<and>
     (\<exists>r \<in> set rs. health_getByComponent hex_id ''aa'' ''mail'' example_healths = Inr (Some r) \<and> ch_observedAt r = 20)"
proof -
  have ids: "map ch_componentId (store_values example_healths) = [''mail'', ''mail'']" "hex_id ''aa''" by code_simp+
  have "{ch_componentId r | r. r \<in> set (store_values example_healths) \<and> ch_tenantId r = ''aa''} \<subseteq> {''mail''}"
  proof
    fix c assume "c \<in> {ch_componentId r | r. r \<in> set (store_values example_healths) \<and> ch_tenantId r = ''aa''}"
    then have "c \<in> set (map ch_componentId (store_values example_healths))" by auto
    then show "c \<in> {''mail''}" unfolding ids(1) by simp
  qed
  then have "card {ch_componentId r | r. r \<in> set (store_values example_healths) \<and> ch_tenantId r = ''aa''} \<le> card {''mail''}"
    by (intro card_mono) simp_all
  then have "card {ch_componentId r | r. r \<in> set (store_values example_healths) \<and> ch_tenantId r = ''aa''} \<le> 250"
    by simp
  from latest_health_views_agree [of hex_id "''aa''" example_healths, OF ids(2) this] obtain rs where
    rs: "health_listLatest hex_id ''aa'' (Some 250) example_healths = Inr rs" "distinct (map ch_componentId rs)"
      "\<And>r. r \<in> set rs \<longleftrightarrow> health_getByComponent hex_id ''aa'' (ch_componentId r) example_healths = Inr (Some r)"
    by blast
  have "map_option (\<lambda>r. (ch_componentId r, ch_observedAt r))
      (projr (health_getByComponent hex_id ''aa'' ''mail'' example_healths)) = Some (''mail'', 20)"
    "\<not> isl (health_getByComponent hex_id ''aa'' ''mail'' example_healths)" by code_simp+
  then obtain r where "health_getByComponent hex_id ''aa'' ''mail'' example_healths = Inr (Some r)"
      "ch_componentId r = ''mail''" "ch_observedAt r = 20"
    by (cases "health_getByComponent hex_id ''aa'' ''mail'' example_healths") auto
  with rs show ?thesis by metis
qed

end
