(* ===== verification/Incidents.thy ===== *)
theory Incidents
  imports ControlPlane
begin

text \<open>
  Incidents: the schemas, the lifecycle and the in-memory repository of
  \<open>src/packages/db/src/adaptive-control-plane-repository.ts\<close>. \<open>transition\<close> awaits between reading
  the incident and writing it, so it is modelled in two halves: the write takes the record that was
  read, which may be out of date by then.
\<close>

section \<open>Schemas\<close>

datatype incidentSeverity = SevLow | SevMedium | SevHigh | SevCritical

datatype incidentStatus = InOpen | InAcknowledged | InMitigated | InResolved

fun incident_status_name :: "incidentStatus \<Rightarrow> string" where
  "incident_status_name InOpen = ''open''"
| "incident_status_name InAcknowledged = ''acknowledged''"
| "incident_status_name InMitigated = ''mitigated''"
| "incident_status_name InResolved = ''resolved''"

record incidentSummary =
  in_id :: string
  in_tenantId :: string
  in_incidentKey :: string
  in_componentId :: string
  in_severity :: incidentSeverity
  in_status :: incidentStatus
  in_title :: string
  in_summary :: string
  in_action :: "healingAction option"
  in_rollbackVersionRef :: "string option"
  in_openedAt :: date
  in_acknowledgedAt :: "date option"
  in_resolvedAt :: "date option"
  in_createdAt :: date
  in_updatedAt :: date

record incidentRecord = incidentSummary +
  in_diagnosticMetadata :: json_record

definition incident_ok :: "(string \<Rightarrow> bool) \<Rightarrow> 'a incidentSummary_scheme \<Rightarrow> bool" where
  "incident_ok is_uuid r \<longleftrightarrow>
     is_uuid (in_id r) \<and> is_uuid (in_tenantId r) \<and> is_text (in_incidentKey r) \<and>
     is_text (in_componentId r) \<and> is_text (in_title r) \<and> is_text (in_summary r)"

definition incident_trim :: "'a incidentSummary_scheme \<Rightarrow> 'a incidentSummary_scheme" where
  "incident_trim r =
     r\<lparr>in_incidentKey := trim (in_incidentKey r), in_componentId := trim (in_componentId r),
       in_title := trim (in_title r), in_summary := trim (in_summary r)\<rparr>"

definition incidentRecordSchema_parse ::
  "(string \<Rightarrow> bool) \<Rightarrow> incidentRecord \<Rightarrow> incidentRecord result" where
  "incidentRecordSchema_parse is_uuid = zod_parse incident_trim (incident_ok is_uuid)"

text \<open>\<open>incidentSummarySchema\<close> picks every field but the diagnostic metadata.\<close>

definition toIncidentSummary :: "(string \<Rightarrow> bool) \<Rightarrow> incidentRecord \<Rightarrow> incidentSummary result" where
  "toIncidentSummary is_uuid r =
     zod_parse incident_trim (incident_ok is_uuid) (incidentSummary.truncate r)"

record createIncidentParams =
  ci_incidentKey :: string
  ci_componentId :: string
  ci_severity :: incidentSeverity
  ci_title :: string
  ci_summary :: string
  ci_action :: "healingAction option"
  ci_rollbackVersionRef :: "string option"
  ci_diagnosticMetadata :: "json_record option"
  ci_openedAt :: "date option"

definition createIncidentParams_ok :: "createIncidentParams \<Rightarrow> bool" where
  "createIncidentParams_ok p \<longleftrightarrow>
     is_text (ci_incidentKey p) \<and> is_text (ci_componentId p) \<and> is_text (ci_title p) \<and>
     is_text (ci_summary p) \<and> text_opt (ci_rollbackVersionRef p)"

definition createIncidentParamsSchema_parse :: "createIncidentParams \<Rightarrow> createIncidentParams result" where
  "createIncidentParamsSchema_parse =
     zod_parse (\<lambda>p. p\<lparr>ci_incidentKey := trim (ci_incidentKey p), ci_componentId := trim (ci_componentId p),
                     ci_title := trim (ci_title p), ci_summary := trim (ci_summary p),
                     ci_rollbackVersionRef := trim_opt (ci_rollbackVersionRef p),
                     ci_diagnosticMetadata := Some (nullish_or (ci_diagnosticMetadata p) [])\<rparr>)
       createIncidentParams_ok"

record transitionIncidentParams =
  ti_summary :: "string option"
  ti_action :: "healingAction option"
  ti_rollbackVersionRef :: "string option"

definition transitionIncidentParams_ok :: "transitionIncidentParams \<Rightarrow> bool" where
  "transitionIncidentParams_ok p \<longleftrightarrow> text_opt (ti_summary p) \<and> text_opt (ti_rollbackVersionRef p)"

definition transitionIncidentParamsSchema_parse ::
  "transitionIncidentParams \<Rightarrow> transitionIncidentParams result" where
  "transitionIncidentParamsSchema_parse =
     zod_parse (\<lambda>p. p\<lparr>ti_summary := trim_opt (ti_summary p),
                     ti_rollbackVersionRef := trim_opt (ti_rollbackVersionRef p)\<rparr>)
       transitionIncidentParams_ok"

fun incidentTransitions :: "incidentStatus \<Rightarrow> incidentStatus list" where
  "incidentTransitions InOpen = [InAcknowledged, InMitigated, InResolved]"
| "incidentTransitions InAcknowledged = [InMitigated, InResolved]"
| "incidentTransitions InMitigated = [InResolved]"
| "incidentTransitions InResolved = []"

definition assertIncidentTransition :: "incidentStatus \<Rightarrow> incidentStatus \<Rightarrow> unit result" where
  "assertIncidentTransition from to =
     (if to \<notin> set (incidentTransitions from)
      then Inl (JsError (arrow_message ''Illegal incident transition: ''
                  (incident_status_name from) (incident_status_name to)))
      else Inr ())"

section \<open>The in-memory repository\<close>

type_synonym incidents = "incidentRecord store"

definition incident_key :: "string \<Rightarrow> string \<Rightarrow> string" where
  "incident_key tenantId incidentKey = colon_key tenantId incidentKey"

definition incident_create ::
  "(string \<Rightarrow> bool) \<Rightarrow> string \<Rightarrow> createIncidentParams \<Rightarrow> string \<Rightarrow> date \<Rightarrow> incidents \<Rightarrow>
   js_error + incidentRecord \<times> incidents" where
  "incident_create is_uuid tenantId params uuid now st =
     and_then (tenantIdSchema_parse is_uuid tenantId) (\<lambda>tenant.
     and_then (createIncidentParamsSchema_parse params) (\<lambda>parsed.
       (let key = incident_key tenant (ci_incidentKey parsed)
        in case find_existing st key of
             Some existing \<Rightarrow> Inr (existing, st)
           | None \<Rightarrow>
               and_then (incidentRecordSchema_parse is_uuid
                 \<lparr>in_id = uuid, in_tenantId = tenant, in_incidentKey = ci_incidentKey parsed,
                  in_componentId = ci_componentId parsed, in_severity = ci_severity parsed,
                  in_status = InOpen, in_title = ci_title parsed, in_summary = ci_summary parsed,
                  in_action = ci_action parsed, in_rollbackVersionRef = ci_rollbackVersionRef parsed,
                  in_openedAt = nullish_or (ci_openedAt parsed) now, in_acknowledgedAt = None,
                  in_resolvedAt = None, in_createdAt = now, in_updatedAt = now,
                  in_diagnosticMetadata = nullish_or (ci_diagnosticMetadata parsed) []\<rparr>)
                 (\<lambda>record. Inr (record, insert_new key (in_id record) record st)))))"

definition incident_getById ::
  "(string \<Rightarrow> bool) \<Rightarrow> string \<Rightarrow> string \<Rightarrow> incidents \<Rightarrow> incidentRecord option result" where
  "incident_getById is_uuid tenantId i st =
     and_then (tenantIdSchema_parse is_uuid tenantId) (\<lambda>tenant.
       Inr (case get_by_id st i of
              None \<Rightarrow> None
            | Some r \<Rightarrow> if in_tenantId r = tenant then Some r else None))"

definition incident_listRecent ::
  "(string \<Rightarrow> bool) \<Rightarrow> string \<Rightarrow> number option \<Rightarrow> incidentStatus option \<Rightarrow> incidents \<Rightarrow> incidentRecord list result" where
  "incident_listRecent is_uuid tenantId limit status st =
     and_then (tenantIdSchema_parse is_uuid tenantId) (\<lambda>tenant.
     and_then (normalizeLimit limit) (\<lambda>n.
       Inr (take n (newest_first in_openedAt
              (filter (\<lambda>r. in_tenantId r = tenant \<and> (status = None \<or> Some (in_status r) = status))
                 (store_values st))))))"

definition incident_moved ::
  "incidentStatus \<Rightarrow> transitionIncidentParams \<Rightarrow> date \<Rightarrow> incidentRecord \<Rightarrow> incidentRecord" where
  "incident_moved toStatus parsed now existing =
     existing\<lparr>in_status := toStatus,
              in_summary := nullish_or (ti_summary parsed) (in_summary existing),
              in_action := nullish (ti_action parsed) (in_action existing),
              in_rollbackVersionRef := nullish (ti_rollbackVersionRef parsed) (in_rollbackVersionRef existing),
              in_acknowledgedAt :=
                (if toStatus = InAcknowledged then nullish (in_acknowledgedAt existing) (Some now)
                 else in_acknowledgedAt existing),
              in_resolvedAt := (if toStatus = InResolved then Some now else in_resolvedAt existing),
              in_updatedAt := now\<rparr>"

text \<open>What happens before \<open>await this.getById\<close>.\<close>

definition incident_transition_begin ::
  "(string \<Rightarrow> bool) \<Rightarrow> string \<Rightarrow> incidentStatus \<Rightarrow> incidentStatus \<Rightarrow> transitionIncidentParams \<Rightarrow>
   (string \<times> transitionIncidentParams) result" where
  "incident_transition_begin is_uuid tenantId fromStatus toStatus params =
     and_then (tenantIdSchema_parse is_uuid tenantId) (\<lambda>tenant.
     and_then (transitionIncidentParamsSchema_parse params) (\<lambda>parsed.
     and_then (assertIncidentTransition fromStatus toStatus) (\<lambda>_. Inr (tenant, parsed))))"

text \<open>What happens after it; \<open>read\<close> is what the lookup returned.\<close>

definition incident_transition_commit ::
  "(string \<Rightarrow> bool) \<Rightarrow> string \<Rightarrow> incidentStatus \<Rightarrow> incidentStatus \<Rightarrow> transitionIncidentParams \<Rightarrow>
   incidentRecord option \<Rightarrow> date \<Rightarrow> incidents \<Rightarrow> js_error + incidentRecord option \<times> incidents" where
  "incident_transition_commit is_uuid i fromStatus toStatus parsed read now st =
     (case read of
        None \<Rightarrow> Inr (None, st)
      | Some existing \<Rightarrow>
          if in_status existing \<noteq> fromStatus then Inr (None, st)
          else and_then (incidentRecordSchema_parse is_uuid (incident_moved toStatus parsed now existing))
                 (\<lambda>updated. Inr (Some updated, put_record i updated st)))"

definition incident_transition ::
  "(string \<Rightarrow> bool) \<Rightarrow> string \<Rightarrow> string \<Rightarrow> incidentStatus \<Rightarrow> incidentStatus \<Rightarrow> transitionIncidentParams \<Rightarrow>
   date \<Rightarrow> incidents \<Rightarrow> js_error + incidentRecord option \<times> incidents" where
  "incident_transition is_uuid tenantId i fromStatus toStatus params now st =
     and_then (incident_transition_begin is_uuid tenantId fromStatus toStatus params) (\<lambda>(tenant, parsed).
     and_then (incident_getById is_uuid tenant i st) (\<lambda>read.
       incident_transition_commit is_uuid i fromStatus toStatus parsed read now st))"

section \<open>The invariant\<close>

abbreviation in_key :: "incidentRecord \<Rightarrow> string" where
  "in_key r \<equiv> incident_key (in_tenantId r) (in_incidentKey r)"

definition incident_good :: "(string \<Rightarrow> bool) \<Rightarrow> incidentRecord \<Rightarrow> bool" where
  "incident_good is_uuid r \<longleftrightarrow> incident_ok is_uuid r \<and>
     (in_status r = InResolved \<longrightarrow> in_resolvedAt r \<noteq> None) \<and>
     (in_status r = InAcknowledged \<longrightarrow> in_acknowledgedAt r \<noteq> None)"

definition incidents_good :: "(string \<Rightarrow> bool) \<Rightarrow> incidents \<Rightarrow> bool" where
  "incidents_good is_uuid st \<longleftrightarrow> uuid_format is_uuid \<and> store_ok in_id in_key (incident_good is_uuid) st"

definition incident_identity ::
  "incidentRecord \<Rightarrow> (string \<times> string \<times> string) \<times> (string \<times> incidentSeverity \<times> string) \<times> json_record \<times> date \<times> date" where
  "incident_identity r =
     ((in_id r, in_tenantId r, in_incidentKey r), (in_componentId r, in_severity r, in_title r),
      in_diagnosticMetadata r, in_openedAt r, in_createdAt r)"

lemma incident_create_effect:
  assumes "incident_create is_uuid t p uuid now st = Inr (r, st')"
  obtains (existing) "find_existing st (incident_key t (trim (ci_incidentKey p))) = Some r" "st' = st"
  | (created) "find_existing st (in_key r) = None" "in_id r = uuid" "incident_good is_uuid r"
      "in_status r = InOpen" "in_key r = incident_key t (trim (ci_incidentKey p))"
      "st' = insert_new (in_key r) uuid r st"
proof (cases "find_existing st (incident_key t (trim (ci_incidentKey p)))")
  case None
  with assms show thesis
    by (intro created)
      (auto simp: incident_create_def createIncidentParamsSchema_parse_def incidentRecordSchema_parse_def
        incident_trim_def incident_good_def Let_def)
next
  case (Some e)
  with assms show thesis
    by (intro existing) (auto simp: incident_create_def createIncidentParamsSchema_parse_def Let_def)
qed

lemma incident_parse_trimmed:
  assumes "incident_ok is_uuid r"
  shows "incidentRecordSchema_parse is_uuid r = Inr r"
proof -
  have "incident_trim r = r"
    using assms by (simp add: incident_trim_def incident_ok_def is_textD)
  with assms show ?thesis by (simp add: incidentRecordSchema_parse_def)
qed

text \<open>Committing a transition on the record that was read, whatever the store holds by then.\<close>

lemma incident_commit_succeeds:
  assumes "incident_ok is_uuid e" and "in_status e = a" and "transitionIncidentParamsSchema_parse p = Inr q"
  shows "incident_transition_commit is_uuid i a b q (Some e) now st =
      Inr (Some (incident_moved b q now e), put_record i (incident_moved b q now e) st)"
    "incident_ok is_uuid (incident_moved b q now e)"
proof -
  have "pred_opt is_text (ti_summary q)"
    using assms(3) by (auto simp: transitionIncidentParamsSchema_parse_def transitionIncidentParams_ok_def)
  then have "is_text (nullish_or (ti_summary q) (in_summary e))"
    using assms(1) by (cases "ti_summary q") (simp_all add: incident_ok_def)
  then show ok: "incident_ok is_uuid (incident_moved b q now e)"
    using assms(1) by (simp add: incident_moved_def incident_ok_def)
  show "incident_transition_commit is_uuid i a b q (Some e) now st =
      Inr (Some (incident_moved b q now e), put_record i (incident_moved b q now e) st)"
    using assms(2) incident_parse_trimmed [OF ok] by (simp add: incident_transition_commit_def)
qed

lemma incident_begin:
  assumes "incident_transition_begin is_uuid t a b p = Inr (t', q)"
  shows "t' = t" "is_uuid t" "b \<in> set (incidentTransitions a)" "transitionIncidentParamsSchema_parse p = Inr q"
  using assms by (auto simp: incident_transition_begin_def assertIncidentTransition_def)

lemma incident_transition_effect:
  assumes "incident_transition is_uuid t i a b p now st = Inr (res, st')" and "incidents_good is_uuid st"
  obtains (refused) "res = None" "st' = st"
  | (moved) e u where "get_by_id st i = Some e" "in_tenantId e = t" "in_status e = a"
      "b \<in> set (incidentTransitions a)" "res = Some u" "in_status u = b" "incident_good is_uuid u"
      "incident_identity u = incident_identity e" "st' = put_record i u st"
proof -
  from assms(1) obtain q where q: "incident_transition_begin is_uuid t a b p = Inr (t, q)"
      "and_then (incident_getById is_uuid t i st)
         (\<lambda>read. incident_transition_commit is_uuid i a b q read now st) = Inr (res, st')"
    using incident_begin(1) by (fastforce simp: incident_transition_def)
  note facts = incident_begin [OF q(1)]
  show thesis
  proof (cases "\<exists>e. get_by_id st i = Some e \<and> in_tenantId e = t \<and> in_status e = a")
    case False
    with q(2) refused show thesis
      by (auto simp: incident_getById_def incident_transition_commit_def split: option.splits if_splits)
  next
    case True
    then obtain e where e: "get_by_id st i = Some e" "in_tenantId e = t" "in_status e = a" by blast
    have good: "incident_good is_uuid e"
      using store_okD(3) [of in_id in_key "incident_good is_uuid" st i e] assms(2) e(1)
      by (simp add: incidents_good_def)
    define u where "u = incident_moved b q now e"
    have "incident_ok is_uuid e" using good by (simp add: incident_good_def)
    note c = incident_commit_succeeds(1) [OF this e(3) facts(4), of i b now st, folded u_def]
      incident_commit_succeeds(2) [OF this e(3) facts(4), of b now, folded u_def]
    have "incident_getById is_uuid t i st = Inr (Some e)"
      using e facts(2) by (simp add: incident_getById_def tenantIdSchema_parse_valid)
    with q(2) c(1) have out: "res = Some u" "st' = put_record i u st" by simp_all
    have g: "incident_good is_uuid u"
      using c(2) good by (auto simp: incident_good_def u_def incident_moved_def)
    show thesis
      by (rule moved [OF e facts(3) out(1) _ g _ out(2)])
        (simp_all add: u_def incident_moved_def incident_identity_def)
  qed
qed

section \<open>Histories\<close>

inductive incidents_step :: "(string \<Rightarrow> bool) \<Rightarrow> incidents \<Rightarrow> incidents \<Rightarrow> bool" for is_uuid where
  in_step_create: "incident_create is_uuid t cp uuid now st = Inr (r, st') \<Longrightarrow> get_by_id st uuid = None \<Longrightarrow>
    incidents_step is_uuid st st'"
| in_step_transition: "incident_transition is_uuid t i a b p now st = Inr (res, st') \<Longrightarrow>
    incidents_step is_uuid st st'"

lemma incidents_step_effect:
  assumes "incidents_step is_uuid st st'" and "incidents_good is_uuid st"
  shows "incidents_good is_uuid st' \<and>
    (\<forall>j e. get_by_id st j = Some e \<longrightarrow>
       (\<exists>e'. get_by_id st' j = Some e' \<and> incident_identity e' = incident_identity e \<and>
          (e' = e \<or> in_status e' \<in> set (incidentTransitions (in_status e)))))"
  using assms
proof (induction rule: incidents_step.induct)
  case (in_step_create t cp uuid now st r st')
  from in_step_create.hyps(1) show ?case
  proof (cases rule: incident_create_effect)
    case created
    then have "uuid \<noteq> []" using in_step_create.prems
      by (auto simp: incidents_good_def incident_good_def incident_ok_def dest: uuid_format_nonempty)
    with created in_step_create show ?thesis by (auto simp: incidents_good_def intro!: store_ok_insert)
  qed (use in_step_create.prems in auto)
next
  case (in_step_transition t i a b p now st res st')
  from in_step_transition.hyps in_step_transition.prems show ?case
  proof (cases rule: incident_transition_effect)
    case (moved e u)
    have "in_id u = i" "in_key u = in_key e"
      using moved(8) store_okD(2) [of in_id in_key "incident_good is_uuid" st i e] moved(1) in_step_transition.prems
      by (simp_all add: incident_identity_def incidents_good_def)
    with moved in_step_transition.prems show ?thesis
      by (auto simp: incidents_good_def intro: store_ok_put)
  qed (use in_step_transition.prems in auto)
qed

definition incident_status_at :: "incidents \<Rightarrow> string \<Rightarrow> incidentStatus option" where
  "incident_status_at st i = map_option in_status (get_by_id st i)"

definition resolved_at :: "incidents \<Rightarrow> string \<Rightarrow> incidentRecord option" where
  "resolved_at st i =
     (case get_by_id st i of
        None \<Rightarrow> None
      | Some r \<Rightarrow> if in_status r = InResolved then Some r else None)"

interpretation incident_life: lifecycle "incidents_step is_uuid" "incidents_good is_uuid"
  incident_status_at "\<lambda>a b. b \<in> set (incidentTransitions a)" for is_uuid
proof (unfold_locales, goal_cases)
  case (1 s t)
  then show ?case using incidents_step_effect by blast
next
  case (2 s t i a)
  with incidents_step_effect [OF 2(1,2)] show ?case by (fastforce simp: incident_status_at_def)
qed

interpretation incident_ident: append_only "incidents_step is_uuid" "incidents_good is_uuid"
  "\<lambda>st i. map_option incident_identity (get_by_id st i)" for is_uuid
proof (unfold_locales, goal_cases)
  case (1 s t)
  then show ?case using incidents_step_effect by blast
next
  case (2 s t i a)
  with incidents_step_effect [OF 2(1,2)] show ?case by fastforce
qed

interpretation incident_closed: append_only "incidents_step is_uuid" "incidents_good is_uuid" resolved_at for is_uuid
proof (unfold_locales, goal_cases)
  case (1 s t)
  then show ?case using incidents_step_effect by blast
next
  case (2 s t i a)
  then have a: "get_by_id s i = Some a" "in_status a = InResolved"
    by (auto simp: resolved_at_def split: option.splits if_splits)
  with incidents_step_effect [OF 2(1,2)] show ?case by (fastforce simp: resolved_at_def)
qed

definition example_incident_params :: createIncidentParams where
  "example_incident_params =
     \<lparr>ci_incidentKey = ''k'', ci_componentId = ''mail'', ci_severity = SevHigh, ci_title = ''t'',
      ci_summary = ''s'', ci_action = None, ci_rollbackVersionRef = None, ci_diagnosticMetadata = None,
      ci_openedAt = None\<rparr>"

definition no_changes :: transitionIncidentParams where
  "no_changes = \<lparr>ti_summary = None, ti_action = None, ti_rollbackVersionRef = None\<rparr>"

definition example_incidents :: incidents where
  "example_incidents = state_after (incident_create hex_id ''aa'' example_incident_params ''1a'' 5 empty_store) empty_store"

definition example_resolved :: incidents where
  "example_resolved = state_after (incident_transition hex_id ''aa'' ''1a'' InOpen InResolved no_changes 6 example_incidents)
     example_incidents"

lemma example_incident_calls:
  "incident_create hex_id ''aa'' example_incident_params ''1a'' 5 empty_store =
     Inr (value_of (incident_create hex_id ''aa'' example_incident_params ''1a'' 5 empty_store), example_incidents)"
  "incident_transition hex_id ''aa'' ''1a'' InOpen InResolved no_changes 6 example_incidents =
     Inr (value_of (incident_transition hex_id ''aa'' ''1a'' InOpen InResolved no_changes 6 example_incidents), example_resolved)"
  subgoal unfolding example_incidents_def by (rule call_result) code_simp
  subgoal unfolding example_resolved_def by (rule call_result) code_simp
  done

lemma example_incident_steps:
  "incidents_step hex_id empty_store example_incidents" "incidents_step hex_id example_incidents example_resolved"
  using in_step_create [OF example_incident_calls(1)] in_step_transition [OF example_incident_calls(2)]
  by (auto simp: empty_store_def)

lemma incidents_good_empty: "uuid_format is_uuid \<Longrightarrow> incidents_good is_uuid empty_store"
  by (simp add: incidents_good_def)

lemma example_incidents_good: "incidents_good hex_id example_incidents"
  using incidents_step_effect [OF example_incident_steps(1) incidents_good_empty [OF uuid_format_hex_id]] by blast

lemma example_incident:
  "\<exists>e. get_by_id example_incidents ''1a'' = Some e \<and> in_status e = InOpen \<and> in_tenantId e = ''aa'' \<and>
     in_resolvedAt e = None"
proof -
  have "map_option (\<lambda>e. (in_status e, in_tenantId e, in_resolvedAt e)) (get_by_id example_incidents ''1a'') =
      Some (InOpen, ''aa'', None)" by code_simp
  then show ?thesis by auto
qed

section \<open>Properties\<close>

text \<open>
  C15. When transitions do not overlap, incidents live by their lifecycle: none is lost, its identity,
  severity and diagnostic metadata never change, its status moves only along the listed
  transitions, an acknowledged or resolved incident carries the time of it, and a resolved incident
  is never written again.
\<close>

theorem incident_history:
  assumes "uuid_format is_uuid" and "(incidents_step is_uuid)\<^sup>*\<^sup>* empty_store st"
    and "(incidents_step is_uuid)\<^sup>*\<^sup>* st st'" and "get_by_id st i = Some e"
  shows "\<exists>e'. get_by_id st' i = Some e' \<and> incident_identity e' = incident_identity e \<and>
    (\<lambda>a b. b \<in> set (incidentTransitions a))\<^sup>*\<^sup>* (in_status e) (in_status e') \<and>
    (in_status e' = InResolved \<longrightarrow> in_resolvedAt e' \<noteq> None) \<and>
    (in_status e' = InAcknowledged \<longrightarrow> in_acknowledgedAt e' \<noteq> None) \<and>
    (in_status e = InResolved \<longrightarrow> e' = e)"
proof -
  have good: "incidents_good is_uuid st"
    by (rule incident_life.steps_inv [OF assms(2) incidents_good_empty [OF assms(1)]])
  have "incident_status_at st i = Some (in_status e)" using assms(4) by (simp add: incident_status_at_def)
  from incident_life.steps_status [OF assms(3) good this] obtain e' where e': "get_by_id st' i = Some e'"
      "(\<lambda>a b. b \<in> set (incidentTransitions a))\<^sup>*\<^sup>* (in_status e) (in_status e')"
    by (auto simp: incident_status_at_def)
  have "map_option incident_identity (get_by_id st' i) = Some (incident_identity e)"
    by (rule incident_ident.ledger.terminal_stays [OF assms(3) good]) (use assms(4) in auto)
  moreover have "incident_good is_uuid e'"
    using store_okD(3) [of in_id in_key "incident_good is_uuid" st' i e'] e'(1)
      incident_life.steps_inv [OF assms(3) good] by (simp add: incidents_good_def)
  moreover have "e' = e" if "in_status e = InResolved"
  proof -
    from that assms(4) have "resolved_at st i = Some e" by (simp add: resolved_at_def)
    then have "resolved_at st' i = Some e"
      by (rule incident_closed.ledger.terminal_stays [OF assms(3) good]) simp
    with e'(1) show ?thesis by (simp add: resolved_at_def split: if_splits)
  qed
  ultimately show ?thesis using e' by (auto simp: incident_good_def)
qed

theorem incident_history_witness:
  "\<exists>e'. get_by_id example_resolved ''1a'' = Some e' \<and>
     (\<lambda>a b. b \<in> set (incidentTransitions a))\<^sup>*\<^sup>* InOpen (in_status e')"
proof -
  obtain e where e: "get_by_id example_incidents ''1a'' = Some e" "in_status e = InOpen"
    using example_incident by blast
  from incident_history [OF uuid_format_hex_id r_into_rtranclp [of "incidents_step hex_id", OF example_incident_steps(1)]
      r_into_rtranclp [of "incidents_step hex_id", OF example_incident_steps(2)] e(1)] e(2)
  show ?thesis by auto
qed

text \<open>
  C16. Overlapping transitions of the in-memory repository can reopen a resolved incident: both read it
  while it is open, the one that resolves it writes first, and the one that acknowledges it then
  writes back its old copy, so the incident ends acknowledged and the resolution time is gone.
\<close>

theorem overlapping_transitions_reopen:
  assumes "incidents_good is_uuid st" and "get_by_id st i = Some e" and "in_status e = InOpen"
    and "in_tenantId e = t" and "in_resolvedAt e = None"
    and "transitionIncidentParamsSchema_parse p = Inr q" and "transitionIncidentParamsSchema_parse p' = Inr q'"
  shows "incident_transition_begin is_uuid t InOpen InResolved p = Inr (t, q) \<and>
    incident_transition_begin is_uuid t InOpen InAcknowledged p' = Inr (t, q') \<and>
    incident_getById is_uuid t i st = Inr (Some e) \<and>
    (\<exists>r st1 a st2.
       incident_transition_commit is_uuid i InOpen InResolved q (Some e) now st = Inr (Some r, st1) \<and>
       in_status r = InResolved \<and>
       incident_transition_commit is_uuid i InOpen InAcknowledged q' (Some e) now' st1 = Inr (Some a, st2) \<and>
       get_by_id st2 i = Some a \<and> in_status a = InAcknowledged \<and> in_resolvedAt a = None)"
proof -
  have "incident_good is_uuid e"
    using store_okD(3) [of in_id in_key "incident_good is_uuid" st i e] assms(1,2) by (simp add: incidents_good_def)
  then have ok: "incident_ok is_uuid e" by (simp add: incident_good_def)
  then have "is_uuid t" using assms(4) by (simp add: incident_ok_def)
  moreover note incident_commit_succeeds(1) [OF ok assms(3) assms(6), of i InResolved now st]
    incident_commit_succeeds(1) [OF ok assms(3) assms(7), of i InAcknowledged now']
  ultimately show ?thesis
    using assms(2-7)
    by (auto simp: incident_transition_begin_def assertIncidentTransition_def incident_getById_def
        incident_moved_def)
qed

theorem overlapping_transitions_reopen_witness:
  "\<exists>e r st1 a st2. incident_transition_commit hex_id ''1a'' InOpen InResolved no_changes (Some e) 6 example_incidents =
       Inr (Some r, st1) \<and> in_status r = InResolved \<and>
     incident_transition_commit hex_id ''1a'' InOpen InAcknowledged no_changes (Some e) 7 st1 = Inr (Some a, st2) \<and>
     in_status a = InAcknowledged"
proof -
  obtain e where e: "get_by_id example_incidents ''1a'' = Some e" "in_status e = InOpen" "in_tenantId e = ''aa''"
      "in_resolvedAt e = None"
    using example_incident by blast
  have p: "transitionIncidentParamsSchema_parse no_changes = Inr no_changes"
    by (simp add: transitionIncidentParamsSchema_parse_def transitionIncidentParams_ok_def no_changes_def)
  from overlapping_transitions_reopen [OF example_incidents_good e p p, of 6 7] show ?thesis by blast
qed

end
