(* ===== verification/Evidence.thy ===== *)
theory Evidence
  imports Harness Experiments Proposals
begin

text \<open>
  The promotion evidence adapter at the end of
  \<open>src/packages/db/src/adaptive-control-plane-repository.ts\<close>: it looks up a proposal, its experiment
  and the evidence summary, and builds the evaluation that \<open>evaluateLearningProposal\<close> of
  \<open>src/packages/core/src/adaptive-gtm-harness.ts\<close> decides on. The adapter is given its repositories,
  so it takes their three methods as arguments; the locale states what it relies on from them and is
  interpreted on the in-memory repositories.
\<close>

record promotionEvidenceProposal =
  pe_tenantId :: string
  pe_proposalId :: string

text \<open>The result is the gate's input type, \<^typ>\<open>learningProposalEvaluation\<close>.\<close>

definition getEvaluation ::
  "(string \<Rightarrow> bool) \<Rightarrow> (string \<Rightarrow> string \<Rightarrow> learningProposalRecord option result) \<Rightarrow>
   (string \<Rightarrow> string \<Rightarrow> experimentRecord option result) \<Rightarrow>
   (string \<Rightarrow> string \<Rightarrow> string \<Rightarrow> string option \<Rightarrow> experimentEvidenceSummary option result) \<Rightarrow>
   string option \<Rightarrow> promotionEvidenceProposal \<Rightarrow> learningProposalEvaluation option result" where
  "getEvaluation is_uuid getByProposalKey getById summarizeEvidence guardrailMetricName proposal =
     and_then (tenantIdSchema_parse is_uuid (pe_tenantId proposal)) (\<lambda>tenantId.
     and_then (nonEmptyText (pe_proposalId proposal)) (\<lambda>proposalKey.
     and_then (getByProposalKey tenantId proposalKey) (\<lambda>found.
       (case found of
          None \<Rightarrow> Inr None
        | Some persisted \<Rightarrow>
            (case lp_experimentId persisted of
               None \<Rightarrow> Inr None
             | Some experimentId \<Rightarrow>
                 if experimentId = [] then Inr None
                 else and_then (getById tenantId experimentId) (\<lambda>e.
                   (case e of
                      None \<Rightarrow> Inr None
                    | Some experiment \<Rightarrow>
                        and_then (summarizeEvidence tenantId (ex_id experiment) (ex_metricName experiment)
                                    guardrailMetricName) (\<lambda>s.
                          (case s of
                             None \<Rightarrow> Inr None
                           | Some evidence \<Rightarrow>
                               Inr (Some
                                 \<lparr>ev_proposalId = proposalKey, ev_risk = lp_risk persisted,
                                  ev_evidenceCount = ee_evidenceCount evidence,
                                  ev_uniqueEntities = ee_uniqueEntities evidence,
                                  ev_confidence = ee_meanAttributionConfidence evidence,
                                  ev_metricDirection = ex_metricDirection experiment,
                                  ev_baselineMetric = ee_baselineMetric evidence,
                                  ev_candidateMetric = ee_candidateMetric evidence,
                                  ev_worstGuardrailRegression = ee_worstGuardrailRegression evidence,
                                  ev_humanApproved = (lp_humanApprovedAt persisted \<noteq> None)\<rparr>))))))))))"

section \<open>What the adapter relies on\<close>

text \<open>A look-up that answers \<open>null\<close> unless it finds something.\<close>

lemma found_iff:
  "(case x of None \<Rightarrow> Inr None | Some y \<Rightarrow> f y) = Inr (Some z) \<longleftrightarrow> (\<exists>y. x = Some y \<and> f y = Inr (Some z))"
  "(if b then Inr None else w) = Inr (Some z) \<longleftrightarrow> \<not> b \<and> w = Inr (Some z)"
  by (auto split: option.splits)

text \<open>
  A source of evidence: lookups return what was asked for, and a summary counts whole, non-negative
  numbers of observations and entities, with a mean confidence in range and a regression that is
  not negative.
\<close>

definition summary_sound :: "experimentEvidenceSummary \<Rightarrow> bool" where
  "summary_sound s \<longleftrightarrow>
     is_nonnegative_int (ee_evidenceCount s) \<and> is_nonnegative_int (ee_uniqueEntities s) \<and>
     in_unit (ee_meanAttributionConfidence s) \<and> 0 \<le> ee_worstGuardrailRegression s"

locale evidence_source =
  fixes getByProposalKey :: "string \<Rightarrow> string \<Rightarrow> learningProposalRecord option result"
    and getById :: "string \<Rightarrow> string \<Rightarrow> experimentRecord option result"
    and summarizeEvidence ::
      "string \<Rightarrow> string \<Rightarrow> string \<Rightarrow> string option \<Rightarrow> experimentEvidenceSummary option result"
  assumes proposal_found: "getByProposalKey t k = Inr (Some p) \<Longrightarrow> lp_tenantId p = t \<and> lp_proposalKey p = k"
    and experiment_found: "getById t i = Inr (Some e) \<Longrightarrow> ex_id e = i \<and> ex_tenantId e = t"
    and summary_bounds: "summarizeEvidence t i m g = Inr (Some s) \<Longrightarrow> summary_sound s"
begin

lemma evaluation_origin:
  assumes "getEvaluation is_uuid getByProposalKey getById summarizeEvidence g q = Inr (Some ev)"
  obtains p x e s where
    "getByProposalKey (pe_tenantId q) (trim (pe_proposalId q)) = Inr (Some p)" "lp_experimentId p = Some x"
    "getById (pe_tenantId q) x = Inr (Some e)" "ex_id e = x"
    "summarizeEvidence (pe_tenantId q) x (ex_metricName e) g = Inr (Some s)"
    "summary_sound s" "trim (pe_proposalId q) \<noteq> []"
    "ev = \<lparr>ev_proposalId = trim (pe_proposalId q), ev_risk = lp_risk p,
           ev_evidenceCount = ee_evidenceCount s, ev_uniqueEntities = ee_uniqueEntities s,
           ev_confidence = ee_meanAttributionConfidence s, ev_metricDirection = ex_metricDirection e,
           ev_baselineMetric = ee_baselineMetric s, ev_candidateMetric = ee_candidateMetric s,
           ev_worstGuardrailRegression = ee_worstGuardrailRegression s,
           ev_humanApproved = (lp_humanApprovedAt p \<noteq> None)\<rparr>"
proof -
  from assms obtain p x e s where
    f: "getByProposalKey (pe_tenantId q) (trim (pe_proposalId q)) = Inr (Some p)" "lp_experimentId p = Some x"
      "getById (pe_tenantId q) x = Inr (Some e)"
      "summarizeEvidence (pe_tenantId q) (ex_id e) (ex_metricName e) g = Inr (Some s)"
      "trim (pe_proposalId q) \<noteq> []"
    and ev: "ev = \<lparr>ev_proposalId = trim (pe_proposalId q), ev_risk = lp_risk p,
           ev_evidenceCount = ee_evidenceCount s, ev_uniqueEntities = ee_uniqueEntities s,
           ev_confidence = ee_meanAttributionConfidence s, ev_metricDirection = ex_metricDirection e,
           ev_baselineMetric = ee_baselineMetric s, ev_candidateMetric = ee_candidateMetric s,
           ev_worstGuardrailRegression = ee_worstGuardrailRegression s,
           ev_humanApproved = (lp_humanApprovedAt p \<noteq> None)\<rparr>"
    by (auto simp: getEvaluation_def found_iff)
  have "ex_id e = x" using experiment_found [OF f(3)] by simp
  with that [OF f(1-3)] f(4,5) summary_bounds [OF f(4)] ev show thesis by simp
qed

text \<open>Of everything the gate's schema asks, only the upper bound on the regression can fail.\<close>

lemma evaluation_schema:
  assumes "getEvaluation is_uuid getByProposalKey getById summarizeEvidence g q = Inr (Some ev)"
  shows "learningProposalEvaluation_ok ev \<longleftrightarrow> ev_worstGuardrailRegression ev \<le> 1"
proof (rule evaluation_origin [OF assms])
  fix p x e s
  assume "summary_sound s" "trim (pe_proposalId q) \<noteq> []"
    "ev = \<lparr>ev_proposalId = trim (pe_proposalId q), ev_risk = lp_risk p,
           ev_evidenceCount = ee_evidenceCount s, ev_uniqueEntities = ee_uniqueEntities s,
           ev_confidence = ee_meanAttributionConfidence s, ev_metricDirection = ex_metricDirection e,
           ev_baselineMetric = ee_baselineMetric s, ev_candidateMetric = ee_candidateMetric s,
           ev_worstGuardrailRegression = ee_worstGuardrailRegression s,
           ev_humanApproved = (lp_humanApprovedAt p \<noteq> None)\<rparr>"
  then show ?thesis
    by (auto simp: learningProposalEvaluation_ok_def summary_sound_def in_unit_def)
qed

end

section \<open>The in-memory repositories are a source of evidence\<close>

lemma getByProposalKey_found:
  assumes "proposals_good is_uuid ps" and "proposal_getByProposalKey is_uuid t k ps = Inr (Some p)"
  shows "lp_tenantId p = t \<and> lp_proposalKey p = k \<and> get_by_id (ps_records ps) (lp_id p) = Some p"
proof -
  from assms(2) obtain i where i: "map_of (idByKey (ps_records ps)) (proposal_key t k) = Some i"
      "get_by_id (ps_records ps) i = Some p" "lp_tenantId p = t"
    by (auto simp: proposal_getByProposalKey_def proposal_getById_def findScopedRecord_Some
        split: option.splits if_splits)
  from store_ok_index [OF proposals_goodD(2) [OF assms(1)] i(1)] i(2)
  have "lp_key p = proposal_key t k" by auto
  with i good_proposal(3) [OF assms(1) i(2)] show ?thesis
    by (simp add: proposal_key_def colon_key_def)
qed

lemma is_integer_of_nat: "is_integer (of_nat n)"
  using is_integer_of_int [of "int n"] by simp

lemma summarize_sound:
  assumes "experiments_good is_uuid xs"
    and "experiment_summarizeEvidence is_uuid t x metric g xs = Inr (Some s)"
  shows "summary_sound s"
proof -
  have "experiments_inv is_uuid xs" using assms(1) by (simp add: experiments_good_def)
  from evidence_summary_facts [OF this assms(2)] show ?thesis
    by (simp add: summary_sound_def is_nonnegative_int_def is_integer_of_nat)
qed

text \<open>
  A pair of repositories in a good state provides the contract. The states are part of the
  interpretation's premises, so it is stated for states that satisfy the invariant: any other state
  is replaced by the empty one.
\<close>

definition good_proposals :: "(string \<Rightarrow> bool) \<Rightarrow> proposals \<Rightarrow> proposals" where
  "good_proposals is_uuid ps =
     (if proposals_good is_uuid ps then ps else \<lparr>ps_records = empty_store, ps_outbox = empty_outbox\<rparr>)"

definition good_experiments :: "(string \<Rightarrow> bool) \<Rightarrow> experiments \<Rightarrow> experiments" where
  "good_experiments is_uuid xs = (if experiments_good is_uuid xs then xs else empty_experiments)"

lemma getByProposalKey_empty:
  "proposal_getByProposalKey is_uuid t k \<lparr>ps_records = empty_store, ps_outbox = ob\<rparr> \<noteq> Inr (Some p)"
  by (auto simp: proposal_getByProposalKey_def empty_store_def)

interpretation mem_source: evidence_source
  "\<lambda>t k. proposal_getByProposalKey is_uuid t k (good_proposals is_uuid ps)"
  "\<lambda>t i. experiment_getById is_uuid t i (good_experiments is_uuid xs)"
  "\<lambda>t i m g. experiment_summarizeEvidence is_uuid t i m g (good_experiments is_uuid xs)" for is_uuid ps xs
proof (unfold_locales, goal_cases)
  case (1 t k p)
  then show ?case
    using getByProposalKey_found getByProposalKey_empty
    by (metis good_proposals_def)
next
  case (2 t i e)
  then have "get_by_id (xs_experiments (good_experiments is_uuid xs)) i = Some e" "ex_tenantId e = t"
    by (auto simp: getById_Some)
  moreover have "experiments_good is_uuid xs"
    using calculation(1) by (auto simp: good_experiments_def empty_experiments_def empty_store_def split: if_splits)
  ultimately show ?case
    using store_okD(2) [OF experiments_invD(1) [of is_uuid xs]]
    by (auto simp: good_experiments_def experiments_good_def)
next
  case (3 t i m g s)
  show ?case
  proof (cases "experiments_good is_uuid xs")
    case True
    then show ?thesis using 3 summarize_sound by (simp add: good_experiments_def)
  next
    case False
    with 3 show ?thesis
      by (auto simp: good_experiments_def experiment_summarizeEvidence_def getById_Inr empty_experiments_def
          empty_store_def)
  qed
qed

section \<open>The adapter on the in-memory repositories\<close>

definition mem_getEvaluation ::
  "(string \<Rightarrow> bool) \<Rightarrow> proposals \<Rightarrow> experiments \<Rightarrow> string option \<Rightarrow> promotionEvidenceProposal \<Rightarrow>
   learningProposalEvaluation option result" where
  "mem_getEvaluation is_uuid ps xs =
     getEvaluation is_uuid (\<lambda>t k. proposal_getByProposalKey is_uuid t k ps)
       (\<lambda>t i. experiment_getById is_uuid t i xs) (\<lambda>t i m g. experiment_summarizeEvidence is_uuid t i m g xs)"

lemma mem_getEvaluation_good:
  assumes "proposals_good is_uuid ps" and "experiments_good is_uuid xs"
  shows "mem_getEvaluation is_uuid ps xs =
    getEvaluation is_uuid (\<lambda>t k. proposal_getByProposalKey is_uuid t k (good_proposals is_uuid ps))
      (\<lambda>t i. experiment_getById is_uuid t i (good_experiments is_uuid xs))
      (\<lambda>t i m g. experiment_summarizeEvidence is_uuid t i m g (good_experiments is_uuid xs))"
  using assms by (simp add: mem_getEvaluation_def good_proposals_def good_experiments_def)

lemma reachable_good:
  assumes "uuid_format is_uuid" and "(proposals_any is_uuid)\<^sup>*\<^sup>* empty_proposals ps"
    and "(experiments_step is_uuid)\<^sup>*\<^sup>* empty_experiments xs"
  shows "proposals_good is_uuid ps" "experiments_good is_uuid xs"
  using proposal_life.steps_inv [OF assms(2) proposals_good_empty [OF assms(1)]]
    experiments_reachable_good [OF assms(1,3)] by simp_all

section \<open>A worked example\<close>

text \<open>A low-risk proposal linked to the running experiment, with two observations per variant.\<close>

definition linked_params :: createLearningProposalParams where
  "linked_params = example_proposal_params\<lparr>cl_experimentId := Some ''1a'', cl_risk := RiskLow\<rparr>"

definition linked_ps :: proposals where
  "linked_ps = state_after (proposal_create hex_id ''aa'' linked_params ''2a'' 5 empty_proposals) empty_proposals"

definition guardrail_observation :: "string \<Rightarrow> experimentVariant \<Rightarrow> number \<Rightarrow> recordExperimentObservationParams" where
  "guardrail_observation k v x = example_observation_params k v x True"

definition breach_xs1 :: experiments where
  "breach_xs1 = state_after (experiment_recordObservation hex_id ''aa'' (guardrail_observation ''k3'' VariantA 1)
     ''b3'' 8 example_xs3) example_xs3"

definition breach_xs2 :: experiments where
  "breach_xs2 = state_after (experiment_recordObservation hex_id ''aa'' (guardrail_observation ''k4'' VariantB 3)
     ''b4'' 9 breach_xs1) breach_xs1"

definition small_policy :: rawLearningPolicy where
  "small_policy = default_rawLearningPolicy
     \<lparr>raw_minEvidence := Some 2, raw_minUniqueEntities := Some 2, raw_minConfidence := Some (1 / 2)\<rparr>"

definition example_query :: promotionEvidenceProposal where
  "example_query = \<lparr>pe_tenantId = ''aa'', pe_proposalId = ''p''\<rparr>"

lemma linked_created:
  "proposal_create hex_id ''aa'' linked_params ''2a'' 5 empty_proposals =
     Inr (value_of (proposal_create hex_id ''aa'' linked_params ''2a'' 5 empty_proposals), linked_ps)"
  unfolding linked_ps_def by (rule call_result) code_simp

lemma breach_observed:
  "experiment_recordObservation hex_id ''aa'' (guardrail_observation ''k3'' VariantA 1) ''b3'' 8 example_xs3 =
     Inr (value_of (experiment_recordObservation hex_id ''aa'' (guardrail_observation ''k3'' VariantA 1) ''b3'' 8
       example_xs3), breach_xs1)"
  "experiment_recordObservation hex_id ''aa'' (guardrail_observation ''k4'' VariantB 3) ''b4'' 9 breach_xs1 =
     Inr (value_of (experiment_recordObservation hex_id ''aa'' (guardrail_observation ''k4'' VariantB 3) ''b4'' 9
       breach_xs1), breach_xs2)"
  subgoal unfolding breach_xs1_def by (rule call_result) code_simp
  subgoal unfolding breach_xs2_def by (rule call_result) code_simp
  done

lemma linked_reachable: "(proposals_any hex_id)\<^sup>*\<^sup>* empty_proposals linked_ps"
proof -
  have "get_by_id (ps_records empty_proposals) ''2a'' = None" by code_simp
  then have "proposals_any hex_id empty_proposals linked_ps"
    unfolding proposals_any_def using op_create [OF linked_created] by blast
  then show ?thesis by blast
qed

lemma breach_reachable: "(experiments_step hex_id)\<^sup>*\<^sup>* empty_experiments breach_xs2"
proof -
  have "get_by_id (xs_observations example_xs3) ''b3'' = None" "get_by_id (xs_observations breach_xs1) ''b4'' = None"
    by code_simp+
  then have "experiments_step hex_id example_xs3 breach_xs1" "experiments_step hex_id breach_xs1 breach_xs2"
    using step_observe [OF breach_observed(1)] step_observe [OF breach_observed(2)] by simp_all
  with example_reachable(2) show ?thesis by (meson rtranclp.rtrancl_into_rtrancl)
qed

lemma linked_record:
  assumes "get_by_id (ps_records linked_ps) i = Some pr"
  shows "lp_experimentId pr = Some ''1a''"
proof -
  have "list_all (\<lambda>r. lp_experimentId r = Some ''1a'') (store_values (ps_records linked_ps))" by code_simp
  moreover have "pr \<in> set (store_values (ps_records linked_ps))"
    using map_of_SomeD [OF assms] by (force simp: store_values_def)
  ultimately show ?thesis by (simp add: list_all_iff)
qed

lemma example_metric:
  assumes "experiment_getById hex_id ''aa'' ''1a'' example_xs3 = Inr (Some e)"
  shows "ex_metricName e = ''r''"
proof -
  have "(case experiment_getById hex_id ''aa'' ''1a'' example_xs3 of Inr (Some e) \<Rightarrow> ex_metricName e = ''r'' | _ \<Rightarrow> False)"
    by code_simp
  with assms show ?thesis by simp
qed

section \<open>Properties\<close>

text \<open>
  The adapter's evaluation fits the gate, with one exception. In every reachable state of the
  repositories and for every valid policy the gate decides on the evaluation the adapter builds as
  long as the measured guardrail regression is at most 1; the regression is a difference of raw metric
  values, so it can be larger, and then the gate throws a validation error: the worst breaches are
  not rejected but fail.
\<close>

theorem evidence_evaluation_decided:
  assumes "uuid_format is_uuid" and "(proposals_any is_uuid)\<^sup>*\<^sup>* empty_proposals ps"
    and "(experiments_step is_uuid)\<^sup>*\<^sup>* empty_experiments xs"
    and "mem_getEvaluation is_uuid ps xs g q = Inr (Some ev)"
    and "adaptiveLearningPolicySchema_parse raw = Inr p"
  shows "if 1 < ev_worstGuardrailRegression ev then evaluateLearningProposal ev raw = Inl ZodError
    else \<exists>d. evaluateLearningProposal ev raw = Inr d \<and>
      (pol_maxGuardrailRegression p < ev_worstGuardrailRegression ev \<longrightarrow> ld_decision d = Reject)"
proof -
  note good = reachable_good [OF assms(1-3)]
  have ok: "learningProposalEvaluation_ok ev \<longleftrightarrow> ev_worstGuardrailRegression ev \<le> 1"
    using mem_source.evaluation_schema assms(4) unfolding mem_getEvaluation_good [OF good] by blast
  show ?thesis
  proof (cases "1 < ev_worstGuardrailRegression ev")
    case True
    with ok show ?thesis
      by (simp add: evaluateLearningProposal_def learningProposalEvaluationSchema_parse_def)
  next
    case False
    then have "learningProposalEvaluation_ok ev" using ok by simp
    from evaluate_on_valid [OF this assms(5)] False show ?thesis by auto
  qed
qed

theorem evidence_evaluation_decided_witness:
  "\<exists>ev. mem_getEvaluation hex_id linked_ps breach_xs2 (Some ''r'') example_query = Inr (Some ev) \<and>
     ev_worstGuardrailRegression ev = 2 \<and> evaluateLearningProposal ev small_policy = Inl ZodError"
proof -
  have "(case mem_getEvaluation hex_id linked_ps breach_xs2 (Some ''r'') example_query of
      Inr (Some ev) \<Rightarrow> ev_worstGuardrailRegression ev = 2 | _ \<Rightarrow> False)" by code_simp
  then obtain ev where ev: "mem_getEvaluation hex_id linked_ps breach_xs2 (Some ''r'') example_query = Inr (Some ev)"
      "ev_worstGuardrailRegression ev = 2"
    by (auto split: sum.splits option.splits)
  have "\<not> isl (adaptiveLearningPolicySchema_parse small_policy)" by code_simp
  then obtain p where "adaptiveLearningPolicySchema_parse small_policy = Inr p" by (cases "adaptiveLearningPolicySchema_parse small_policy") auto
  from evidence_evaluation_decided [OF uuid_format_hex_id linked_reachable breach_reachable ev(1) this] ev
  show ?thesis by simp
qed

text \<open>
  C17. No automatic promotion without evidence on file: if the gate promotes what the adapter reports,
  then the proposal is on file and names an experiment of the same tenant; the repository holds at
  least the policy's minimum of outcome observations of that experiment's metric, both variants are
  among them, and a proposal whose risk the policy lists carries a human approval.
\<close>

theorem automatic_promotion_needs_evidence:
  assumes "uuid_format is_uuid" and "(proposals_any is_uuid)\<^sup>*\<^sup>* empty_proposals ps"
    and "(experiments_step is_uuid)\<^sup>*\<^sup>* empty_experiments xs"
    and "mem_getEvaluation is_uuid ps xs g q = Inr (Some ev)"
    and "evaluateLearningProposal ev raw = Inr d" and "ld_decision d = Promote"
    and "adaptiveLearningPolicySchema_parse raw = Inr p"
  shows "\<exists>pr e. get_by_id (ps_records ps) (lp_id pr) = Some pr \<and> lp_tenantId pr = pe_tenantId q \<and>
    lp_proposalKey pr = trim (pe_proposalId q) \<and> lp_experimentId pr = Some (ex_id e) \<and>
    experiment_getById is_uuid (pe_tenantId q) (ex_id e) xs = Inr (Some e) \<and>
    pol_minEvidence p \<le> of_nat (card (outcomes xs (pe_tenantId q) (ex_id e) (ex_metricName e))) \<and>
    of_variant VariantA (outcomes xs (pe_tenantId q) (ex_id e) (ex_metricName e)) \<noteq> {} \<and>
    of_variant VariantB (outcomes xs (pe_tenantId q) (ex_id e) (ex_metricName e)) \<noteq> {} \<and>
    (lp_risk pr \<in> set (pol_humanApprovalFor p) \<longrightarrow> lp_humanApprovedAt pr \<noteq> None)"
proof -
  note good = reachable_good [OF assms(1-3)]
  have ids: "good_proposals is_uuid ps = ps" "good_experiments is_uuid xs = xs"
    using good by (simp_all add: good_proposals_def good_experiments_def)
  have "\<exists>d. evaluateLearningProposal ev raw = Inr d \<and> ld_decision d = Promote" using assms(5,6) by blast
  then have gate: "pol_minEvidence p \<le> ev_evidenceCount ev"
      "ev_risk ev \<notin> set (pol_humanApprovalFor p) \<or> ev_humanApproved ev"
    using promoted_evidence assms(7) by blast+
  note ge = assms(4) [unfolded mem_getEvaluation_good [OF good]]
  show ?thesis
  proof (rule mem_source.evaluation_origin [OF ge], unfold ids)
    fix pr x e s
    assume *: "proposal_getByProposalKey is_uuid (pe_tenantId q) (trim (pe_proposalId q)) ps = Inr (Some pr)"
      "lp_experimentId pr = Some x" "experiment_getById is_uuid (pe_tenantId q) x xs = Inr (Some e)"
      "ex_id e = x" "experiment_summarizeEvidence is_uuid (pe_tenantId q) x (ex_metricName e) g xs = Inr (Some s)"
      and ev: "ev = \<lparr>ev_proposalId = trim (pe_proposalId q), ev_risk = lp_risk pr,
           ev_evidenceCount = ee_evidenceCount s, ev_uniqueEntities = ee_uniqueEntities s,
           ev_confidence = ee_meanAttributionConfidence s, ev_metricDirection = ex_metricDirection e,
           ev_baselineMetric = ee_baselineMetric s, ev_candidateMetric = ee_candidateMetric s,
           ev_worstGuardrailRegression = ee_worstGuardrailRegression s,
           ev_humanApproved = (lp_humanApprovedAt pr \<noteq> None)\<rparr>"
    have "experiments_inv is_uuid xs" using good(2) by (simp add: experiments_good_def)
    from evidence_summary_facts [OF this *(5)] getByProposalKey_found [OF good(1) *(1)] * ev gate
    have "get_by_id (ps_records ps) (lp_id pr) = Some pr \<and> lp_tenantId pr = pe_tenantId q \<and>
      lp_proposalKey pr = trim (pe_proposalId q) \<and> lp_experimentId pr = Some (ex_id e) \<and>
      experiment_getById is_uuid (pe_tenantId q) (ex_id e) xs = Inr (Some e) \<and>
      pol_minEvidence p \<le> of_nat (card (outcomes xs (pe_tenantId q) (ex_id e) (ex_metricName e))) \<and>
      of_variant VariantA (outcomes xs (pe_tenantId q) (ex_id e) (ex_metricName e)) \<noteq> {} \<and>
      of_variant VariantB (outcomes xs (pe_tenantId q) (ex_id e) (ex_metricName e)) \<noteq> {} \<and>
      (lp_risk pr \<in> set (pol_humanApprovalFor p) \<longrightarrow> lp_humanApprovedAt pr \<noteq> None)" by simp
    then show ?thesis by blast
  qed
qed

theorem automatic_promotion_needs_evidence_witness:
  "2 \<le> card (outcomes example_xs3 ''aa'' ''1a'' ''r'')"
proof -
  have "(case mem_getEvaluation hex_id linked_ps example_xs3 None example_query of
      Inr (Some ev) \<Rightarrow> (case evaluateLearningProposal ev small_policy of
        Inr d \<Rightarrow> ld_decision d = Promote | _ \<Rightarrow> False) | _ \<Rightarrow> False)" by code_simp
  then obtain ev where ev: "mem_getEvaluation hex_id linked_ps example_xs3 None example_query = Inr (Some ev)"
      "(case evaluateLearningProposal ev small_policy of Inr d \<Rightarrow> ld_decision d = Promote | _ \<Rightarrow> False)"
    by (simp split: sum.splits option.splits)
  then obtain d where d: "evaluateLearningProposal ev small_policy = Inr d" "ld_decision d = Promote"
    by (cases "evaluateLearningProposal ev small_policy") simp_all
  have "(case adaptiveLearningPolicySchema_parse small_policy of Inr p \<Rightarrow> pol_minEvidence p = 2 | _ \<Rightarrow> False)"
    by code_simp
  then obtain p where p: "adaptiveLearningPolicySchema_parse small_policy = Inr p" "pol_minEvidence p = 2"
    by (auto split: sum.splits)
  have only: "get_by_id (ps_records linked_ps) i = Some pr \<Longrightarrow> lp_experimentId pr = Some ''1a''" for i pr
    using linked_record by blast
  have exp: "experiment_getById hex_id ''aa'' ''1a'' example_xs3 = Inr (Some e) \<Longrightarrow> ex_metricName e = ''r''" for e
    using example_metric by simp
  from automatic_promotion_needs_evidence [OF uuid_format_hex_id linked_reachable example_reachable(2) ev(1) d p(1)]
  obtain pr e where *: "get_by_id (ps_records linked_ps) (lp_id pr) = Some pr" "lp_experimentId pr = Some (ex_id e)"
      "experiment_getById hex_id ''aa'' (ex_id e) example_xs3 = Inr (Some e)"
      "pol_minEvidence p \<le> of_nat (card (outcomes example_xs3 ''aa'' (ex_id e) (ex_metricName e)))"
    by (auto simp: example_query_def)
  have id: "ex_id e = ''1a''" using only [OF *(1)] *(2) by simp
  from *(4) have "(2 :: number) \<le> of_nat (card (outcomes example_xs3 ''aa'' ''1a'' ''r''))"
    unfolding id exp [OF *(3) [unfolded id]] p(2) .
  then have "(of_nat 2 :: number) \<le> of_nat (card (outcomes example_xs3 ''aa'' ''1a'' ''r''))" by simp
  then show ?thesis by (simp only: of_nat_le_iff)
qed

end
