(* ===== verification/CanonicalText.thy ===== *)
theory CanonicalText
  imports Prelude "HOL-Library.Multiset" "HOL-Library.Char_ord" "HOL-Library.List_Lexorder"
begin

text \<open>
  The texts \<open>src/packages/db/src/external-actions-repository.ts\<close> derives from a request and from an
  error: the canonical JSON that is hashed into a request digest (\<open>stableJson\<close>,
  \<open>externalActionRequestDigest\<close>) and the error message with its credentials redacted
  (\<open>sanitizeErrorMessage\<close>; \<open>OutboxPublisher.sanitizeError\<close> is the same with a shorter limit).

  The decimal text of a number is a parameter \<open>number_text\<close>, because a number is an exact rational
  here; what the canonical form needs from it is \<open>number_format\<close>. SHA-256 is a parameter as well.
\<close>

section \<open>Canonical JSON\<close>

fun join :: "string \<Rightarrow> string list \<Rightarrow> string" where
  "join sep [] = []"
| "join sep [x] = x"
| "join sep (x # y # xs) = x @ sep @ join sep (y # xs)"

definition hex_digit :: "nat \<Rightarrow> char" where
  "hex_digit n = ''0123456789abcdef'' ! n"

text \<open>\<open>JSON.stringify\<close> of a string.\<close>

definition json_escape :: "char \<Rightarrow> string" where
  "json_escape c =
     (if c = CHR 0x22 then [CHR 0x5C, CHR 0x22] else if c = CHR 0x5C then [CHR 0x5C, CHR 0x5C]
      else if c = CHR 0x08 then [CHR 0x5C, CHR ''b''] else if c = CHR 0x0C then [CHR 0x5C, CHR ''f'']
      else if c = CHR 0x0A then [CHR 0x5C, CHR ''n''] else if c = CHR 0x0D then [CHR 0x5C, CHR ''r'']
      else if c = CHR 0x09 then [CHR 0x5C, CHR ''t'']
      else if (of_char c :: nat) < 32
      then [CHR 0x5C, CHR ''u'', CHR ''0'', CHR ''0'', hex_digit (of_char c div 16), hex_digit (of_char c mod 16)]
      else [c])"

definition json_quote :: "string \<Rightarrow> string" where
  "json_quote s = CHR 0x22 # concat (map json_escape s) @ [CHR 0x22]"

text \<open>
  \<open>Object.keys(object).sort()\<close> orders by code unit, which is the lexicographic order of the
  characters; sorting the rendered members by key gives the same text as rendering the sorted keys.
\<close>

fun stableJson :: "(number \<Rightarrow> string) \<Rightarrow> json \<Rightarrow> string" where
  "stableJson number_text JNull = ''null''"
| "stableJson number_text (JBool b) = (if b then ''true'' else ''false'')"
| "stableJson number_text (JNum n) = number_text n"
| "stableJson number_text (JStr s) = json_quote s"
| "stableJson number_text (JArr vs) = ''['' @ join '','' (map (stableJson number_text) vs) @ '']''"
| "stableJson number_text (JObj fs) =
     ''{'' @ join '','' (map (\<lambda>(k, t). json_quote k @ '':'' @ t)
       (sort_key fst (map (\<lambda>(k, v). (k, stableJson number_text v)) fs))) @ ''}''"

text \<open>What is relied on from the text of a number: it is JSON, and different numbers differ.\<close>

definition is_number_char :: "char \<Rightarrow> bool" where
  "is_number_char c \<longleftrightarrow> c \<in> set ''0123456789+-.e''"

definition number_format :: "(number \<Rightarrow> string) \<Rightarrow> bool" where
  "number_format number_text \<longleftrightarrow>
     inj number_text \<and>
     (\<forall>n. number_text n \<noteq> [] \<and> list_all is_number_char (number_text n) \<and> hd (number_text n) \<noteq> CHR ''e'')"

section \<open>The same value up to the order of members\<close>

inductive same_json :: "json \<Rightarrow> json \<Rightarrow> bool" where
  same_refl: "same_json v v"
| same_sym: "same_json v w \<Longrightarrow> same_json w v"
| same_trans: "same_json u v \<Longrightarrow> same_json v w \<Longrightarrow> same_json u w"
| same_arr: "list_all2 same_json vs ws \<Longrightarrow> same_json (JArr vs) (JArr ws)"
| same_members: "list_all2 (\<lambda>p q. fst p = fst q \<and> same_json (snd p) (snd q)) fs gs \<Longrightarrow>
    same_json (JObj fs) (JObj gs)"
| same_order: "mset fs = mset gs \<Longrightarrow> distinct (map fst fs) \<Longrightarrow> same_json (JObj fs) (JObj gs)"

text \<open>No object names a key twice; a JavaScript object never does.\<close>

fun keys_distinct :: "json \<Rightarrow> bool" where
  "keys_distinct (JArr vs) = list_all keys_distinct vs"
| "keys_distinct (JObj fs) = (distinct (map fst fs) \<and> list_all (\<lambda>p. keys_distinct (snd p)) fs)"
| "keys_distinct _ = True"

fun canonical :: "json \<Rightarrow> json" where
  "canonical (JArr vs) = JArr (map canonical vs)"
| "canonical (JObj fs) = JObj (sort_key fst (map (\<lambda>(k, v). (k, canonical v)) fs))"
| "canonical v = v"

text \<open>The text of a value in the order it is in.\<close>

fun plain :: "(number \<Rightarrow> string) \<Rightarrow> json \<Rightarrow> string" where
  "plain nt JNull = ''null''"
| "plain nt (JBool b) = (if b then ''true'' else ''false'')"
| "plain nt (JNum n) = nt n"
| "plain nt (JStr s) = json_quote s"
| "plain nt (JArr vs) = ''['' @ join '','' (map (plain nt) vs) @ '']''"
| "plain nt (JObj fs) = ''{'' @ join '','' (map (\<lambda>(k, v). json_quote k @ '':'' @ plain nt v) fs) @ ''}''"

lemma insort_key_map_snd:
  "insort_key fst (k, f v) (map (\<lambda>(k, v). (k, f v)) xs) = map (\<lambda>(k, v). (k, f v)) (insort_key fst (k, v) xs)"
  by (induction xs) auto

lemma sort_key_map_snd:
  "sort_key fst (map (\<lambda>(k, v). (k, f v)) xs) = map (\<lambda>(k, v). (k, f v)) (sort_key fst xs)"
  by (induction xs) (auto simp: insort_key_map_snd)

lemma stableJson_plain: "stableJson nt v = plain nt (canonical v)"
proof (induction v)
  case (JArr vs)
  then have "map (stableJson nt) vs = map (plain nt) (map canonical vs)" by simp
  then show ?case by (simp only: stableJson.simps plain.simps canonical.simps)
next
  case (JObj fs)
  then have "map (\<lambda>(k, v). (k, stableJson nt v)) fs = map (\<lambda>(k, v). (k, plain nt v)) (map (\<lambda>(k, v). (k, canonical v)) fs)"
    by fastforce
  then have "sort_key fst (map (\<lambda>(k, v). (k, stableJson nt v)) fs) =
      map (\<lambda>(k, v). (k, plain nt v)) (sort_key fst (map (\<lambda>(k, v). (k, canonical v)) fs))"
    by (simp only: sort_key_map_snd)
  moreover have "(\<lambda>(k, t). json_quote k @ '':'' @ t) \<circ> (\<lambda>(k, v). (k, plain nt v)) =
      (\<lambda>(k, v). json_quote k @ '':'' @ plain nt v)"
    by (simp add: fun_eq_iff)
  ultimately show ?case by (simp only: stableJson.simps plain.simps canonical.simps map_map)
qed simp_all

section \<open>Reading a text back\<close>

text \<open>
  The texts are prefix codes: what follows a quoted string, a number or a whole value never changes
  what has been read. \<open>unescape\<close> inverts \<^const>\<open>json_escape\<close> on the front of a text.
\<close>

definition unhex :: "char \<Rightarrow> nat" where
  "unhex c = length (takeWhile (\<lambda>d. d \<noteq> c) ''0123456789abcdef'')"

fun unescape :: "string \<Rightarrow> (char \<times> string) option" where
  "unescape [] = None"
| "unescape [c] = (if c = CHR 0x5C then None else Some (c, []))"
| "unescape (c # d # r) =
     (if c \<noteq> CHR 0x5C then Some (c, d # r)
      else if d = CHR ''b'' then Some (CHR 0x08, r) else if d = CHR ''f'' then Some (CHR 0x0C, r)
      else if d = CHR ''n'' then Some (CHR 0x0A, r) else if d = CHR ''r'' then Some (CHR 0x0D, r)
      else if d = CHR ''t'' then Some (CHR 0x09, r)
      else if d = CHR ''u'' then Some (char_of (16 * unhex (r ! 2) + unhex (r ! 3)), drop 4 r)
      else Some (d, r))"

lemma unhex_digit: "n < 16 \<Longrightarrow> unhex (hex_digit n) = n"
proof -
  assume "n < 16"
  moreover have "\<forall>n \<in> set [0..<16]. unhex (hex_digit n) = n" by code_simp
  ultimately show ?thesis by simp
qed

lemma unescape_escape [simp]: "unescape (json_escape c @ r) = Some (c, r)"
proof (cases "(of_char c :: nat) < 32")
  case True
  then have "unhex (hex_digit (of_char c div 16)) = of_char c div 16"
    "unhex (hex_digit (of_char c mod 16)) = of_char c mod 16"
    by (simp_all add: unhex_digit less_mult_imp_div_less)
  with True show ?thesis by (simp add: json_escape_def mult.commute)
next
  case False
  then show ?thesis by (cases r) (auto simp: json_escape_def)
qed

lemma escape_not_quote: "json_escape c @ r \<noteq> CHR 0x22 # r'"
  by (simp add: json_escape_def)

lemma quote_prefix_code:
  "json_quote s @ r = json_quote s' @ r' \<longleftrightarrow> s = s' \<and> r = r'"
proof -
  have "concat (map json_escape s) @ CHR 0x22 # r = concat (map json_escape s') @ CHR 0x22 # r' \<Longrightarrow> s = s' \<and> r = r'"
  proof (induction s arbitrary: s')
    case Nil
    then show ?case using escape_not_quote [symmetric] by (cases s') auto
  next
    case (Cons c s)
    then obtain d t where s': "s' = d # t" using escape_not_quote by (cases s') auto
    with Cons.prems have "unescape (json_escape c @ concat (map json_escape s) @ CHR 0x22 # r) =
        unescape (json_escape d @ concat (map json_escape t) @ CHR 0x22 # r')" by simp
    with Cons.IH s' show ?case by simp
  qed
  then show ?thesis by (auto simp: json_quote_def)
qed

text \<open>What can come after a value: nothing, or a separator.\<close>

definition delimited :: "string \<Rightarrow> bool" where
  "delimited r \<longleftrightarrow> r = [] \<or> hd r \<in> set '',]}''"

lemma number_prefix_code:
  assumes "number_format nt" and "delimited r" and "delimited r'" and "nt n @ r = nt m @ r'"
  shows "n = m \<and> r = r'"
proof -
  have tw: "takeWhile is_number_char (nt k @ q) = nt k" if "delimited q" for k q
  proof -
    have "\<forall>c \<in> set (nt k). is_number_char c" using assms(1) by (simp add: number_format_def list_all_iff)
    moreover have "q = [] \<or> \<not> is_number_char (hd q)"
      using that by (auto simp: delimited_def is_number_char_def)
    ultimately show ?thesis by (cases q) (simp_all add: takeWhile_append2)
  qed
  from tw [OF assms(2), of n] tw [OF assms(3), of m] assms(4) have "nt n = nt m" by simp
  with assms(1,4) show ?thesis by (auto simp: number_format_def inj_eq)
qed

lemma number_head:
  assumes "number_format nt"
  obtains c cs where "nt n = c # cs" "is_number_char c"
proof -
  from assms have "nt n \<noteq> []" "list_all is_number_char (nt n)" unfolding number_format_def by blast+
  with that show thesis by (cases "nt n") simp_all
qed

text \<open>The first character tells the kind of a value.\<close>

fun kind_char :: "json \<Rightarrow> char" where
  "kind_char JNull = CHR ''n''"
| "kind_char (JBool b) = (if b then CHR ''t'' else CHR ''f'')"
| "kind_char (JNum n) = CHR ''0''"
| "kind_char (JStr s) = CHR 0x22"
| "kind_char (JArr vs) = CHR ''[''"
| "kind_char (JObj fs) = CHR ''{''"

definition to_kind :: "char \<Rightarrow> char" where
  "to_kind c = (if is_number_char c then CHR ''0'' else c)"

lemma to_kind_plain:
  assumes "number_format nt"
  shows "to_kind (hd (plain nt v @ r)) = kind_char v"
proof (cases v)
  case (JNum n)
  obtain c cs where "nt n = c # cs" "is_number_char c" by (rule number_head [OF assms])
  with JNum show ?thesis by (simp add: to_kind_def)
qed (auto simp: to_kind_def is_number_char_def json_quote_def)

lemma plain_start:
  assumes "number_format nt"
  shows "plain nt v @ r \<noteq> CHR '']'' # r'"
proof
  assume "plain nt v @ r = CHR '']'' # r'"
  then have "kind_char v = CHR '']''"
    using to_kind_plain [OF assms, of v r] by (simp add: to_kind_def is_number_char_def)
  then show False by (cases v) (simp_all split: if_splits)
qed

lemma same_kind:
  "number_format nt \<Longrightarrow> plain nt v @ r = plain nt w @ r' \<Longrightarrow> kind_char w = kind_char v"
  using to_kind_plain by metis

lemma join_prefix_code:
  assumes code: "\<And>x y r r'. x \<in> set xs \<Longrightarrow> y \<in> set ys \<Longrightarrow> delimited r \<Longrightarrow> delimited r' \<Longrightarrow> f x @ r = f y @ r' \<Longrightarrow> x = y \<and> r = r'"
    and start: "\<And>x r r'. x \<in> set xs \<union> set ys \<Longrightarrow> f x @ r \<noteq> e # r'" and e: "e = CHR '']'' \<or> e = CHR ''}''"
    and eq: "join '','' (map f xs) @ e # r = join '','' (map f ys) @ e # r'"
  shows "xs = ys \<and> r = r'"
  using code start eq
proof (induction xs arbitrary: ys)
  case Nil
  show ?case
  proof (cases ys)
    case (Cons y zs)
    with Nil.prems(3) obtain q where "e # r = f y @ q" by (cases zs) auto
    with Nil.prems(2) [of y q r] Cons show ?thesis by simp
  qed (use Nil.prems in simp)
next
  case (Cons x xs)
  have tail: "\<exists>q. join '','' (map f (a # as)) @ e # s = f a @ q \<and> delimited q \<and>
      (q = e # s \<and> as = [] \<or> as \<noteq> [] \<and> q = CHR '','' # join '','' (map f as) @ e # s)" for a as s
    using e by (cases as) (auto simp: delimited_def)
  obtain q where q: "join '','' (map f (x # xs)) @ e # r = f x @ q" "delimited q"
      "q = e # r \<and> xs = [] \<or> xs \<noteq> [] \<and> q = CHR '','' # join '','' (map f xs) @ e # r"
    using tail by blast
  show ?case
  proof (cases ys)
    case Nil
    with Cons.prems(3) q(1) Cons.prems(2) [of x q r'] show ?thesis by simp
  next
    case (Cons y zs)
    obtain q' where q': "join '','' (map f (y # zs)) @ e # r' = f y @ q'" "delimited q'"
        "q' = e # r' \<and> zs = [] \<or> zs \<noteq> [] \<and> q' = CHR '','' # join '','' (map f zs) @ e # r'"
      using tail by blast
    have "x = y \<and> q = q'"
      using Cons.prems(1) [of x y q q'] Cons.prems(3) q q' Cons by simp
    moreover have "xs = zs \<and> r = r'" if "q = q'"
    proof (cases "xs = []")
      case True
      with that q(3) q'(3) e show ?thesis by auto
    next
      case False
      with that q(3) q'(3) e have "join '','' (map f xs) @ e # r = join '','' (map f zs) @ e # r'" by auto
      then show ?thesis
        by (intro Cons.IH) (use Cons.prems(1,2) Cons in auto)
    qed
    ultimately show ?thesis using Cons by simp
  qed
qed

lemma plain_prefix_code:
  assumes "number_format nt"
  shows "plain nt v @ r = plain nt w @ r' \<Longrightarrow> delimited r \<Longrightarrow> delimited r' \<Longrightarrow> v = w \<and> r = r'"
proof (induction v arbitrary: w r r')
  case JNull
  have "kind_char w = CHR ''n''" using same_kind [OF assms JNull.prems(1)] by simp
  with JNull show ?case by (cases w) (auto split: if_splits)
next
  case (JBool b)
  have "kind_char w = (if b then CHR ''t'' else CHR ''f'')" using same_kind [OF assms JBool.prems(1)] by simp
  with JBool show ?case by (cases w) (auto split: if_splits)
next
  case (JNum n)
  have "kind_char w = CHR ''0''" using same_kind [OF assms JNum.prems(1)] by simp
  then obtain m where "w = JNum m" by (cases w) (auto split: if_splits)
  with JNum number_prefix_code [OF assms] show ?case by simp
next
  case (JStr s)
  have "kind_char w = CHR 0x22" using same_kind [OF assms JStr.prems(1)] by simp
  then obtain t where "w = JStr t" by (cases w) (auto split: if_splits)
  with JStr show ?case by (simp add: quote_prefix_code)
next
  case (JArr vs)
  have "kind_char w = CHR ''[''" using same_kind [OF assms JArr.prems(1)] by simp
  then obtain ws where w: "w = JArr ws" by (cases w) (auto split: if_splits)
  have "vs = ws \<and> r = r'"
  proof (rule join_prefix_code [where e = "CHR '']''" and f = "plain nt"])
    show "x = y \<and> q = q'" if "x \<in> set vs" "delimited q" "delimited q'" "plain nt x @ q = plain nt y @ q'" for x y q q'
      using JArr.IH that by blast
    show "plain nt x @ q \<noteq> CHR '']'' # q'" for x q q' by (rule plain_start [OF assms])
  qed (use JArr.prems w in simp_all)
  with w show ?case by simp
next
  case (JObj fs)
  have "kind_char w = CHR ''{''" using same_kind [OF assms JObj.prems(1)] by simp
  then obtain gs where w: "w = JObj gs" by (cases w) (auto split: if_splits)
  have "fs = gs \<and> r = r'"
  proof (rule join_prefix_code [where e = "CHR ''}''" and f = "\<lambda>(k, v). json_quote k @ '':'' @ plain nt v"])
    show "x = y \<and> q = q'" if "x \<in> set fs" "delimited q" "delimited q'"
      "(case x of (k, v) \<Rightarrow> json_quote k @ '':'' @ plain nt v) @ q = (case y of (k, v) \<Rightarrow> json_quote k @ '':'' @ plain nt v) @ q'"
      for x y q q'
    proof -
      obtain k v k' v' where xy: "x = (k, v)" "y = (k', v')" by (metis surj_pair)
      with that(4) have "k = k' \<and> plain nt v @ q = plain nt v' @ q'" by (simp add: quote_prefix_code)
      with JObj.IH [OF that(1), of v q v' q'] that(2,3) xy show ?thesis by simp
    qed
    show "(case x of (k, v) \<Rightarrow> json_quote k @ '':'' @ plain nt v) @ q \<noteq> CHR ''}'' # q'" for x q q'
      by (cases x) (simp add: json_quote_def)
  qed (use JObj.prems w in simp_all)
  with w show ?case by simp
qed

lemma stableJson_inject:
  "number_format nt \<Longrightarrow> stableJson nt v = stableJson nt w \<longleftrightarrow> canonical v = canonical w"
  using plain_prefix_code [of nt "canonical v" "[]" "canonical w" "[]"]
  by (auto simp: stableJson_plain delimited_def)

section \<open>Canonical values are the same value\<close>

lemma sort_members:
  assumes "mset fs = mset gs" and "distinct (map fst fs)"
  shows "sort_key fst fs = sort_key fst gs"
proof (rule sort_key_inj_key_eq)
  show "mset fs = mset (sort_key fst gs)" using assms(1) by simp
  show "inj_on fst (set fs)" using assms(2) by (simp add: distinct_map)
qed simp

lemma same_json_canonical: "keys_distinct v \<Longrightarrow> same_json v (canonical v)"
proof (induction v)
  case (JArr vs)
  then have "list_all2 same_json vs (map canonical vs)"
    by (auto simp: list_all2_conv_all_nth list_all_iff)
  then show ?case by (auto intro: same_arr)
next
  case (JObj fs)
  define gs where "gs = map (\<lambda>(k, v). (k, canonical v)) fs"
  have "same_json (snd p) (canonical (snd p))" if "p \<in> set fs" for p
    using JObj that by (cases p) (force simp: list_all_iff)
  then have "list_all2 (\<lambda>p q. fst p = fst q \<and> same_json (snd p) (snd q)) fs gs"
    by (auto simp: gs_def list_all2_conv_all_nth case_prod_unfold)
  moreover have "distinct (map fst gs)"
    using JObj.prems by (simp add: gs_def comp_def case_prod_unfold)
  then have "same_json (JObj gs) (JObj (sort_key fst gs))" by (intro same_order) simp_all
  ultimately show ?case by (auto simp: gs_def intro: same_members same_trans)
qed (auto intro: same_refl)

lemma canonical_same_json: "same_json v w \<Longrightarrow> canonical v = canonical w"
proof (induction rule: same_json.induct)
  case (same_arr vs ws)
  then have "map canonical vs = map canonical ws" by (induction rule: list_all2_induct) auto
  then show ?case by simp
next
  case (same_members fs gs)
  then have "map (\<lambda>(k, v). (k, canonical v)) fs = map (\<lambda>(k, v). (k, canonical v)) gs"
    by (induction rule: list_all2_induct) (auto simp: case_prod_unfold)
  then show ?case by simp
next
  case (same_order fs gs)
  define c where "c = map (\<lambda>(k :: string, v). (k, canonical v))"
  have "mset (c fs) = mset (c gs)" using same_order by (simp add: c_def)
  moreover have "distinct (map fst (c fs))" using same_order by (simp add: c_def comp_def case_prod_unfold)
  ultimately have "sort_key fst (c fs) = sort_key fst (c gs)" by (rule sort_members)
  then show ?case by (simp add: c_def)
qed simp_all

text \<open>Two values have one canonical text exactly when they are the same up to the order of members.\<close>

lemma stableJson_same:
  assumes "number_format nt" and "keys_distinct v" and "keys_distinct w"
  shows "stableJson nt v = stableJson nt w \<longleftrightarrow> same_json v w"
  using stableJson_inject [OF assms(1)] same_json_canonical [OF assms(2)] same_json_canonical [OF assms(3)]
    canonical_same_json same_trans same_sym by metis

end
