(* ===== verification/Redaction.thy ===== *)
theory Redaction
  imports Prelude
begin

text \<open>
  The redaction of credentials in error messages: \<open>sanitizeErrorMessage\<close> of
  \<open>src/packages/db/src/external-actions-repository.ts\<close> and \<open>OutboxPublisher.sanitizeError\<close> of
  \<open>src/apps/worker-outbox-publisher/src/outbox-publisher.ts\<close>, which replace with the two regular
  expressions \<open>(bearer\s+)[^\s,;]+\<close> and \<open>(api[_-]?key|token|secret)=[^\s,;]+\<close> (global, ignoring case)
  and then cut the text. The expressions have one way to match at a position, so a match is computed;
  the replacement loop is a recursion whose termination is proved from the length of the match.
\<close>

section \<open>The two patterns\<close>

text \<open>Case is folded on the letters the patterns name, which are all ASCII.\<close>

definition fold_case :: "char \<Rightarrow> char" where
  "fold_case c =
     (let n = (of_char c :: nat) in if 65 \<le> n \<and> n \<le> 90 then char_of (n + 32) else c)"

definition starts_with :: "string \<Rightarrow> string \<Rightarrow> bool" where
  "starts_with p s \<longleftrightarrow> map fold_case (take (length p) s) = p"

definition secret_char :: "char \<Rightarrow> bool" where
  "secret_char c \<longleftrightarrow> \<not> is_space c \<and> c \<noteq> CHR '','' \<and> c \<noteq> CHR '';''"

definition redacted :: string where
  "redacted = ''[redacted]''"

definition key_names :: "string list" where
  "key_names = [''apikey='', ''api_key='', ''api-key='', ''token='', ''secret='']"

datatype secret_pattern = BearerToken | KeyValue

text \<open>The introduction of a secret at the front of the text: what is kept, and what follows it.\<close>

fun secret_intro :: "secret_pattern \<Rightarrow> string \<Rightarrow> (string \<times> string) option" where
  "secret_intro BearerToken s =
     (if starts_with ''bearer'' s \<and> takeWhile is_space (drop 6 s) \<noteq> []
      then Some (take 6 s @ takeWhile is_space (drop 6 s), dropWhile is_space (drop 6 s)) else None)"
| "secret_intro KeyValue s =
     (case find (\<lambda>p. starts_with p s) key_names of
        None \<Rightarrow> None
      | Some p \<Rightarrow> Some (take (length p) s, drop (length p) s))"

text \<open>A match: the kept group, and the text after the secret.\<close>

definition secret_match :: "secret_pattern \<Rightarrow> string \<Rightarrow> (string \<times> string) option" where
  "secret_match p s =
     (case secret_intro p s of
        Some (g, c # r) \<Rightarrow> if secret_char c then Some (g, dropWhile secret_char r) else None
      | _ \<Rightarrow> None)"

lemma secret_match_Some:
  "secret_match p s = Some (g, rest) \<longleftrightarrow>
     (\<exists>c r. secret_intro p s = Some (g, c # r) \<and> secret_char c \<and> rest = dropWhile secret_char r)"
  by (auto simp: secret_match_def split: option.splits list.splits)

lemma secret_intro_split: "secret_intro p s = Some (g, r) \<Longrightarrow> s = g @ r \<and> g \<noteq> []"
proof (induction p s rule: secret_intro.induct)
  case (1 s)
  then have g: "g = take 6 s @ takeWhile is_space (drop 6 s)" "r = dropWhile is_space (drop 6 s)"
      "takeWhile is_space (drop 6 s) \<noteq> []"
    by (auto split: if_splits)
  then have "s = take 6 s @ drop 6 s" by (simp only: append_take_drop_id)
  with g show ?case by (metis append.assoc append_is_Nil_conv takeWhile_dropWhile_id)
next
  case (2 s)
  then obtain p where p: "find (\<lambda>p. starts_with p s) key_names = Some p" "g = take (length p) s" "r = drop (length p) s"
    by (auto split: option.splits)
  then have "p \<in> set key_names" "starts_with p s" by (auto simp: find_Some_iff)
  then have "p \<noteq> []" "g \<noteq> []" by (auto simp: key_names_def starts_with_def p(2))
  with p show ?case by simp
qed

lemma secret_match_shorter: "secret_match p s = Some (g, rest) \<Longrightarrow> length rest < length s"
proof -
  assume "secret_match p s = Some (g, rest)"
  then obtain c r where "secret_intro p s = Some (g, c # r)" "rest = dropWhile secret_char r"
    by (auto simp: secret_match_Some)
  then show ?thesis
    using secret_intro_split [of p s g "c # r"] length_dropWhile_le [of secret_char r] by auto
qed

section \<open>The replacement\<close>

function redact :: "secret_pattern \<Rightarrow> string \<Rightarrow> string" where
  "redact p s =
     (case secret_match p s of
        Some (g, rest) \<Rightarrow> g @ redacted @ redact p rest
      | None \<Rightarrow> (case s of [] \<Rightarrow> [] | c # cs \<Rightarrow> c # redact p cs))"
  by pat_completeness auto
termination
  by (relation "measure (\<lambda>(p, s). length s)") (auto dest: secret_match_shorter)

declare redact.simps [simp del]

lemma redact_match: "secret_match p s = Some (g, rest) \<Longrightarrow> redact p s = g @ redacted @ redact p rest"
  by (simp add: redact.simps [of p s])

lemma redact_copy: "secret_match p (c # cs) = None \<Longrightarrow> redact p (c # cs) = c # redact p cs"
  by (simp add: redact.simps [of p "c # cs"])

definition sanitize_error :: "nat \<Rightarrow> string \<Rightarrow> string" where
  "sanitize_error limit value = take limit (redact KeyValue (redact BearerToken value))"

definition sanitizeErrorMessage :: "string \<Rightarrow> string" where
  "sanitizeErrorMessage = sanitize_error 2000"

lemma sanitize_example:
  "sanitizeErrorMessage ''Bearer a.b, Token=y;'' =
     ''Bearer [redacted], Token=[redacted];''"
  by code_simp

section \<open>Where a match can start\<close>

lemma fold_case_idem [simp]: "fold_case (fold_case c) = fold_case c"
proof (cases "65 \<le> (of_char c :: nat) \<and> (of_char c :: nat) \<le> 90")
  case True
  then have "(of_char (fold_case c) :: nat) = of_char c + 32" by (simp add: fold_case_def Let_def)
  then show ?thesis using True by (simp add: fold_case_def [of "fold_case c"])
qed (auto simp: fold_case_def Let_def)

lemma starts_with_bearer: "starts_with ''bearer'' s \<longleftrightarrow> map fold_case (take 6 s) = ''bearer''"
  by (simp add: starts_with_def eval_nat_numeral)

lemma bearer_intro:
  assumes "secret_intro BearerToken s = Some (g, r)"
  shows "map fold_case (take 6 s) = ''bearer''" "takeWhile is_space (drop 6 s) \<noteq> []"
    "g = take 6 s @ takeWhile is_space (drop 6 s)"
  using assms unfolding secret_intro.simps starts_with_bearer by (simp_all split: if_splits)

lemma starts_with_take: "starts_with p s \<longleftrightarrow> take (length p) (map fold_case s) = p"
  by (simp add: starts_with_def take_map)

fun first_char :: "secret_pattern \<Rightarrow> char \<Rightarrow> bool" where
  "first_char BearerToken c = (fold_case c = CHR ''b'')"
| "first_char KeyValue c = (fold_case c \<in> {CHR ''a'', CHR ''t'', CHR ''s''})"

fun may_start :: "secret_pattern \<Rightarrow> char \<Rightarrow> char \<Rightarrow> bool" where
  "may_start BearerToken c d = (fold_case c = CHR ''b'')"
| "may_start KeyValue c d =
     ((fold_case c, fold_case d) \<in> {(CHR ''a'', CHR ''p''), (CHR ''t'', CHR ''o''), (CHR ''s'', CHR ''e'')})"

text \<open>A text in which no match starts, whatever follows it.\<close>

fun quiet :: "secret_pattern \<Rightarrow> string \<Rightarrow> bool" where
  "quiet p [] = True"
| "quiet p [c] = (\<not> first_char p c)"
| "quiet p (c # d # u) = (\<not> may_start p c d \<and> quiet p (d # u))"

lemma may_start_first: "may_start p c d \<Longrightarrow> first_char p c"
  by (cases p) auto

lemma quiet_Cons: "quiet p (c # u) \<Longrightarrow> quiet p u"
  by (cases u) simp_all

lemma quiet_fold: "quiet p (map fold_case u) = quiet p u"
  by (induction p u rule: quiet.induct) (case_tac p; simp)+

lemma key_name_cases:
  assumes "find (\<lambda>p. starts_with p s) key_names = Some n"
  obtains "n = ''apikey=''" "starts_with n s" | "n = ''api_key=''" "starts_with n s"
    | "n = ''api-key=''" "starts_with n s" | "n = ''token=''" "starts_with n s" | "n = ''secret=''" "starts_with n s"
  using assms by (auto simp: key_names_def split: if_splits)

lemma intro_start:
  assumes "secret_intro p s = Some (g, r)"
  obtains c d u where "g = c # d # u" "may_start p c d"
proof (cases p)
  case BearerToken
  note s = bearer_intro [OF assms [unfolded BearerToken]]
  from s(1) obtain c d u where "take 6 s = c # d # u" "fold_case c = CHR ''b''"
    by (auto simp: map_eq_Cons_conv)
  with BearerToken s(3) that show ?thesis by simp
next
  case KeyValue
  with assms obtain n where n: "find (\<lambda>p. starts_with p s) key_names = Some n" "g = take (length n) s"
    by (auto split: option.splits)
  from n(1) show ?thesis
    by (cases rule: key_name_cases) (use KeyValue n(2) that in \<open>auto simp: starts_with_def\<close>)
qed

lemma quiet_no_intro: "quiet p (c # u) \<Longrightarrow> secret_intro p (c # u @ t) = None"
proof (rule ccontr)
  assume q: "quiet p (c # u)" and "secret_intro p (c # u @ t) \<noteq> None"
  then obtain g r where i: "secret_intro p (c # u @ t) = Some (g, r)" by auto
  from i obtain a d v where g: "g = a # d # v" "may_start p a d" by (rule intro_start)
  with secret_intro_split [OF i] q may_start_first [OF g(2)] show False by (cases u) auto
qed

lemma redact_Nil [simp]: "redact p [] = []"
proof -
  have "secret_intro p [] = None" by (cases p) (simp_all add: starts_with_def key_names_def)
  then show ?thesis by (simp add: redact.simps secret_match_def)
qed

lemma redact_quiet: "quiet p u \<Longrightarrow> redact p (u @ t) = u @ redact p t"
proof (induction u)
  case (Cons c u)
  have "secret_match p (c # u @ t) = None"
    using quiet_no_intro [OF Cons.prems] by (simp add: secret_match_def)
  with Cons quiet_Cons show ?case by (simp add: redact_copy)
qed simp

text \<open>Conversely, quiet text in the result was there in the input.\<close>

lemma redact_first: "redact p s = x # w \<Longrightarrow> \<exists>t. s = x # t"
proof (cases "secret_match p s")
  case (Some m)
  assume r: "redact p s = x # w"
  obtain g rest where m: "m = (g, rest)" by (cases m)
  with Some obtain c t where i: "secret_intro p s = Some (g, c # t)" by (auto simp: secret_match_Some)
  from Some m have "redact p s = g @ redacted @ redact p rest" by (simp add: redact_match)
  with r secret_intro_split [OF i] show ?thesis by (cases g) auto
next
  case None
  then show "redact p s = x # w \<Longrightarrow> \<exists>t. s = x # t" by (cases s) (simp_all add: redact_copy)
qed

lemma quiet_redact:
  "quiet p u \<Longrightarrow> redact p s = u @ w \<Longrightarrow> \<exists>s'. s = u @ s' \<and> redact p s' = w"
proof (induction u arbitrary: s)
  case (Cons c u)
  have "secret_match p s = None"
  proof (rule ccontr)
    assume "secret_match p s \<noteq> None"
    then obtain g rest where m: "secret_match p s = Some (g, rest)" by auto
    then obtain x t where i: "secret_intro p s = Some (g, x # t)" by (auto simp: secret_match_Some)
    from i obtain a d v where g: "g = a # d # v" "may_start p a d" by (rule intro_start)
    with Cons.prems redact_match [OF m] may_start_first [OF g(2)] show False by (cases u) auto
  qed
  with Cons.prems(2) obtain t where t: "s = c # t" "redact p t = u @ w"
    by (cases s) (simp_all add: redact_copy)
  with Cons.IH [OF quiet_Cons [OF Cons.prems(1)] t(2)] show ?case by auto
qed simp

section \<open>No secret survives\<close>

text \<open>The value after the introduction of a secret is the marker, all of it and nothing else.\<close>

definition head_clean :: "secret_pattern \<Rightarrow> string \<Rightarrow> bool" where
  "head_clean p s =
     (case secret_intro p s of
        Some (g, c # r) \<Rightarrow> secret_char c \<longrightarrow> takeWhile secret_char (c # r) = redacted
      | _ \<Rightarrow> True)"

fun clean :: "secret_pattern \<Rightarrow> string \<Rightarrow> bool" where
  "clean p [] = True"
| "clean p (c # cs) = (head_clean p (c # cs) \<and> clean p cs)"

lemma clean_suffix: "clean p (u @ t) \<Longrightarrow> clean p t"
  by (induction u) simp_all

lemma clean_quiet: "quiet p u \<Longrightarrow> clean p t \<Longrightarrow> clean p (u @ t)"
proof (induction u)
  case (Cons c u)
  with quiet_no_intro [OF Cons.prems(1)] quiet_Cons show ?case by (simp add: head_clean_def)
qed simp

lemma key_intro:
  assumes "secret_intro KeyValue s = Some (g, r)"
  shows "map fold_case g \<in> set key_names"
proof -
  from assms obtain n where n: "find (\<lambda>p. starts_with p s) key_names = Some n" "g = take (length n) s"
    by (auto split: option.splits)
  then have "n \<in> set key_names" "starts_with n s" by (auto simp: find_Some_iff)
  with n(2) show ?thesis by (simp add: starts_with_def)
qed

lemma key_intro_read:
  assumes "map fold_case g \<in> set key_names"
  shows "secret_intro KeyValue (g @ t) = Some (g, t)"
proof -
  define n where "n = map fold_case g"
  have start: "starts_with q (g @ t) \<longleftrightarrow> take (length q) (n @ map fold_case t) = q" for q
    by (simp add: starts_with_take n_def del: take_append)
  have "n = ''apikey='' \<or> n = ''api_key='' \<or> n = ''api-key='' \<or> n = ''token='' \<or> n = ''secret=''"
    using assms by (simp add: n_def [symmetric] key_names_def)
  then have "find (\<lambda>p. starts_with p (g @ t)) key_names = Some n"
    unfolding start by (elim disjE) (simp_all add: key_names_def)
  moreover have "length n = length g" by (simp add: n_def)
  ultimately show ?thesis by simp
qed

text \<open>The introduction is read again when something else follows it.\<close>

lemma intro_again:
  assumes "secret_intro p (g @ r) = Some (g, r)" and "\<not> is_space x"
  shows "secret_intro p (g @ x # t) = Some (g, x # t)"
proof (cases p)
  case BearerToken
  define u where "u = g @ r"
  have i: "secret_intro BearerToken u = Some (g, r)" using assms(1) BearerToken by (simp add: u_def)
  note s = bearer_intro [OF this]
  define ws where "ws = takeWhile is_space (drop 6 u)"
  have len: "length (take 6 u) = 6" using s(2) by (cases "length u \<le> 6") simp_all
  have ws: "\<forall>c \<in> set ws. is_space c" by (auto simp: ws_def dest: set_takeWhileD)
  have tw: "takeWhile is_space (ws @ x # t) = ws" "dropWhile is_space (ws @ x # t) = x # t"
    using ws assms(2) by (simp_all add: takeWhile_append2 dropWhile_append2)
  have d: "take 6 (g @ x # t) = take 6 u" "drop 6 (g @ x # t) = ws @ x # t"
    using len s(3) by (simp_all add: ws_def)
  have "starts_with ''bearer'' (g @ x # t)" using s(1) unfolding starts_with_bearer d(1) .
  with s(2,3) d tw show ?thesis unfolding BearerToken by (simp add: ws_def [symmetric])
next
  case KeyValue
  with assms(1) have "map fold_case g \<in> set key_names" by (simp add: key_intro)
  then show ?thesis unfolding KeyValue by (rule key_intro_read)
qed

lemma quiet_intro:
  assumes "secret_intro p s = Some (g, r)"
  shows "quiet p (tl g)" "quiet p (tl g @ redacted)"
proof -
  have "quiet p (tl g) \<and> quiet p (tl g @ redacted)"
  proof (cases p)
    case BearerToken
    have all: "quiet BearerToken u \<longleftrightarrow> (\<forall>c \<in> set u. fold_case c \<noteq> CHR ''b'')" for u
      by (induction "BearerToken" u rule: quiet.induct) simp_all
    note s = bearer_intro [OF assms [unfolded BearerToken]]
    from s(1) have six: "map fold_case (tl (take 6 s)) = ''earer''" "take 6 s \<noteq> []" by (auto simp: map_tl)
    have letters: "fold_case ` set (tl (take 6 s)) = set ''earer''" unfolding set_map [symmetric] six(1) ..
    have "fold_case c \<noteq> CHR ''b''" if "c \<in> set (tl (take 6 s))" for c
    proof -
      from imageI [OF that, of fold_case] have "fold_case c \<in> set ''earer''" unfolding letters .
      then show ?thesis by auto
    qed
    moreover have "fold_case c \<noteq> CHR ''b''" if "is_space c" for c
      using that by (auto simp: is_space_def fold_case_def)
    moreover have "\<forall>c \<in> set redacted. fold_case c \<noteq> CHR ''b''" by code_simp
    ultimately show ?thesis using s(3) six(2) BearerToken
      by (auto simp: all dest: set_takeWhileD)
  next
    case KeyValue
    define n where "n = map fold_case g"
    have "n \<in> set key_names" using key_intro assms KeyValue by (simp add: n_def)
    moreover have "map fold_case (tl g) = tl n" by (simp add: n_def map_tl)
    moreover have "\<forall>n \<in> set key_names. quiet KeyValue (tl n) \<and> quiet KeyValue (tl n @ map fold_case redacted)"
      by code_simp
    ultimately show ?thesis
      using quiet_fold [of KeyValue "tl g"] quiet_fold [of KeyValue "tl g @ redacted"] KeyValue by simp
  qed
  then show "quiet p (tl g)" "quiet p (tl g @ redacted)" by simp_all
qed

text \<open>What follows a redacted value is what followed the value, and that does not continue it.\<close>

lemma redacted_chars: "\<forall>c \<in> set redacted. secret_char c"
  by code_simp

lemma redacted_value:
  assumes "t = [] \<or> \<not> secret_char (hd t)"
  shows "takeWhile secret_char (redacted @ redact p t) = redacted"
proof (cases "redact p t")
  case Nil
  then show ?thesis using redacted_chars by (simp add: takeWhile_eq_all_conv)
next
  case (Cons x w)
  with redact_first [OF Cons] assms have "\<not> secret_char x" by auto
  with Cons redacted_chars show ?thesis by (simp add: takeWhile_append2)
qed

lemma after_secret: "dropWhile secret_char r = [] \<or> \<not> secret_char (hd (dropWhile secret_char r))"
  by (metis hd_dropWhile)

lemma clean_redact: "clean p (redact p s)"
proof (induction p s rule: redact.induct)
  case (1 p s)
  show ?case
  proof (cases "secret_match p s")
    case (Some m)
    obtain g rest where m: "m = (g, rest)" by (cases m)
    with Some obtain x r where i: "secret_intro p s = Some (g, x # r)" and rest: "rest = dropWhile secret_char r"
      by (auto simp: secret_match_Some)
    obtain c d v where g: "g = c # d # v" using i by (rule intro_start)
    have hd: "redacted = CHR ''['' # tl redacted" "\<not> is_space CHR ''[''" by (simp_all add: redacted_def is_space_def)
    have "secret_intro p (g @ redacted @ redact p rest) = Some (g, redacted @ redact p rest)"
      using intro_again [of p g "x # r", OF _ hd(2), of "tl redacted @ redact p rest"] i secret_intro_split [OF i]
      unfolding append_Cons [symmetric] hd(1) [symmetric] by simp
    moreover have "takeWhile secret_char (redacted @ redact p rest) = redacted"
      unfolding rest by (rule redacted_value [OF after_secret])
    ultimately have "head_clean p (g @ redacted @ redact p rest)"
      by (auto simp: head_clean_def split: list.split)
    moreover have "clean p ((tl g @ redacted) @ redact p rest)"
      using clean_quiet [OF quiet_intro(2) [OF i]] 1(2) Some m by simp
    ultimately show ?thesis using Some m g by (simp add: redact_match)
  next
    case None
    show ?thesis
    proof (cases s)
      case (Cons c cs)
      have "head_clean p (c # redact p cs)"
      proof (rule ccontr)
        assume "\<not> head_clean p (c # redact p cs)"
        then obtain g x r where i: "secret_intro p (c # redact p cs) = Some (g, x # r)" and x: "secret_char x"
          by (auto simp: head_clean_def split: option.splits list.splits)
        from secret_intro_split [OF i] obtain g' where g': "g = c # g'" "redact p cs = g' @ x # r"
          by (cases g) auto
        from quiet_redact [of p g'] quiet_intro(1) [OF i] g' obtain s' where s': "cs = g' @ s'" "redact p s' = x # r"
          by auto
        from redact_first [OF s'(2)] obtain t where t: "s' = x # t" by blast
        have "secret_intro p (g @ x # t) = Some (g, x # t)"
          by (rule intro_again [of p g "x # r"]) (use i g' x in \<open>simp_all add: secret_char_def\<close>)
        then have "secret_match p s \<noteq> None" using x Cons g' s' t by (simp add: secret_match_def)
        with None show False by simp
      qed
      with None Cons 1(1) show ?thesis by (simp add: redact_copy)
    qed simp
  qed
qed

text \<open>Redacting keys and values leaves the redacted bearer tokens redacted.\<close>

lemma quiet_redacted: "quiet KeyValue redacted"
  by code_simp

lemma no_bearer_in_keys:
  assumes "secret_intro KeyValue s = Some (g, r)"
  shows "quiet BearerToken (g @ redacted)"
proof -
  have "\<forall>n \<in> set key_names. quiet BearerToken (n @ map fold_case redacted)" by code_simp
  with key_intro [OF assms] have "quiet BearerToken (map fold_case (g @ redacted))" by simp
  then show ?thesis by (simp only: quiet_fold)
qed

lemma bearer_intro_quiet:
  assumes "secret_intro BearerToken s = Some (g, r)"
  shows "quiet KeyValue (tl g)"
proof -
  note s = bearer_intro [OF assms]
  define ws where "ws = takeWhile is_space (drop 6 s)"
  have ws: "ws \<noteq> []" "\<forall>c \<in> set ws. is_space c" using s(2) by (auto simp: ws_def dest: set_takeWhileD)
  have space: "\<not> first_char KeyValue c" if "is_space c" for c
    using that by (auto simp: is_space_def fold_case_def)
  have q: "quiet KeyValue ws" using ws(2) space
    by (induction "KeyValue" ws rule: quiet.induct) (auto dest: may_start_first)
  from s(1) obtain a1 a2 a3 a4 a5 a6 where t: "take 6 s = [a1, a2, a3, a4, a5, a6]" and
    f: "fold_case a2 = CHR ''e''" "fold_case a3 = CHR ''a''" "fold_case a4 = CHR ''r''" "fold_case a5 = CHR ''e''"
      "fold_case a6 = CHR ''r''"
    by (auto simp: map_eq_Cons_conv)
  obtain w ws' where "ws = w # ws'" using ws(1) by (cases ws) auto
  with q f show ?thesis unfolding s(3) t ws_def [symmetric] by simp
qed

lemma clean_bearer_redact_keys: "clean BearerToken s \<Longrightarrow> clean BearerToken (redact KeyValue s)"
proof (induction "KeyValue" s rule: redact.induct)
  case (1 s)
  show ?case
  proof (cases "secret_match KeyValue s")
    case (Some m)
    obtain g rest where m: "m = (g, rest)" by (cases m)
    with Some obtain x r where i: "secret_intro KeyValue s = Some (g, x # r)" "rest = dropWhile secret_char r"
      by (auto simp: secret_match_Some)
    have "s = (g @ x # takeWhile secret_char r) @ rest"
      using secret_intro_split [OF i(1)] i(2) by simp
    then have "clean BearerToken rest" using clean_suffix 1(3) by metis
    then have "clean BearerToken (redact KeyValue rest)" using 1(2) [OF Some m [symmetric]] by simp
    with clean_quiet [OF no_bearer_in_keys [OF i(1)]] Some m show ?thesis by (simp add: redact_match)
  next
    case None
    show ?thesis
    proof (cases s)
      case (Cons c cs)
      have "head_clean BearerToken (c # redact KeyValue cs)"
      proof (rule ccontr)
        assume "\<not> head_clean BearerToken (c # redact KeyValue cs)"
        then obtain g x r where i: "secret_intro BearerToken (c # redact KeyValue cs) = Some (g, x # r)"
            and x: "secret_char x" "takeWhile secret_char (x # r) \<noteq> redacted"
          by (auto simp: head_clean_def split: option.splits list.splits)
        from secret_intro_split [OF i] obtain g' where g': "g = c # g'" "redact KeyValue cs = g' @ x # r"
          by (cases g) auto
        from quiet_redact [of KeyValue g'] bearer_intro_quiet [OF i] g'
        obtain s' where s': "cs = g' @ s'" "redact KeyValue s' = x # r" by auto
        from redact_first [OF s'(2)] obtain t where t: "s' = x # t" by blast
        have "secret_intro BearerToken (g @ x # t) = Some (g, x # t)"
          by (rule intro_again [of _ g "x # r"]) (use i g' x in \<open>simp_all add: secret_char_def\<close>)
        moreover have "head_clean BearerToken (g @ x # t)" using 1(3) Cons g' s' t by simp
        ultimately have "takeWhile secret_char s' = redacted" using x t by (simp add: head_clean_def)
        then have "s' = redacted @ dropWhile secret_char s'" by (metis takeWhile_dropWhile_id)
        then have "redact KeyValue s' = redacted @ redact KeyValue (dropWhile secret_char s')"
          using redact_quiet [OF quiet_redacted] by metis
        with s'(2) x(2) redacted_value [OF after_secret] show False by metis
      qed
      with None Cons 1(1,3) show ?thesis by (simp add: redact_copy)
    qed simp
  qed
qed

lemma sanitized_clean: "clean p (redact KeyValue (redact BearerToken s))"
  using clean_redact clean_bearer_redact_keys by (cases p) auto

text \<open>Cutting the text can only cut the marker.\<close>

lemma takeWhile_take: "takeWhile P (take n xs) = take n (takeWhile P xs)"
  by (induction xs arbitrary: n) (auto simp: take_Cons split: nat.split)

lemma clean_cut:
  assumes "clean p t" and "take n t = pre @ suf" and "secret_intro p suf = Some (g, c # r)" and "secret_char c"
  shows "takeWhile secret_char (c # r) = take (length (c # r)) redacted"
proof -
  define d where "d = drop n t"
  have t: "t = pre @ suf @ d" using assms(2) by (metis append_assoc append_take_drop_id d_def)
  have suf: "suf = g @ c # r" using secret_intro_split [OF assms(3)] by simp
  have "secret_intro p (g @ c # r @ d) = Some (g, c # r @ d)"
    by (rule intro_again [of p g "c # r"]) (use assms(3,4) suf in \<open>simp_all add: secret_char_def\<close>)
  moreover have "head_clean p (g @ c # r @ d)"
  proof -
    have "clean p (g @ c # r @ d)" using clean_suffix [of p pre] assms(1) by (simp add: t suf)
    moreover obtain a g' where "g = a # g'" using secret_intro_split [OF assms(3)] by (cases g) auto
    ultimately show ?thesis by simp
  qed
  ultimately have "takeWhile secret_char ((c # r) @ d) = redacted" using assms(4) by (simp add: head_clean_def)
  with takeWhile_take [of secret_char "length (c # r)" "(c # r) @ d"] show ?thesis by simp
qed

section \<open>Nothing else is touched\<close>

text \<open>
  A text and the text with some of its secrets replaced: the pieces are what is kept, up to and with the introduction of a secret, and
  the whole secret, a non-empty run of characters that ends where white space, a comma, a semicolon or nothing follows.
\<close>

definition secrets_replaced :: "secret_pattern \<Rightarrow> string \<Rightarrow> string \<Rightarrow> bool" where
  "secrets_replaced p s t \<longleftrightarrow>
     (\<exists>ps rest. s = concat (map (\<lambda>(k, v). k @ v) ps) @ rest \<and> t = concat (map (\<lambda>(k, v). k @ redacted) ps) @ rest \<and>
        (\<forall>(k, v) \<in> set ps. v \<noteq> [] \<and> list_all secret_char v \<and> (\<exists>a g. k = a @ g \<and> secret_intro p (g @ v) = Some (g, v))))"

lemma secrets_replaced_Nil: "secrets_replaced p s s"
  unfolding secrets_replaced_def by (rule exI [of _ "[]"], rule exI [of _ s]) simp

lemma secrets_replaced_Cons:
  assumes "secrets_replaced p s t"
  shows "secrets_replaced p (c # s) (c # t)"
proof -
  obtain ps rest where ps: "s = concat (map (\<lambda>(k, v). k @ v) ps) @ rest" "t = concat (map (\<lambda>(k, v). k @ redacted) ps) @ rest"
      "\<forall>(k, v) \<in> set ps. v \<noteq> [] \<and> list_all secret_char v \<and> (\<exists>a g. k = a @ g \<and> secret_intro p (g @ v) = Some (g, v))"
    using assms unfolding secrets_replaced_def by blast
  show ?thesis
  proof (cases ps)
    case Nil
    with ps have "s = t" by simp
    then show ?thesis by (simp add: secrets_replaced_Nil)
  next
    case (Cons kv qs)
    obtain k v where kv: "kv = (k, v)" by (cases kv)
    from ps(3) obtain a g where "k = a @ g" "secret_intro p (g @ v) = Some (g, v)" "v \<noteq> []" "list_all secret_char v"
      by (auto simp: Cons kv)
    then have "v \<noteq> [] \<and> list_all secret_char v \<and> (\<exists>a' g. c # k = a' @ g \<and> secret_intro p (g @ v) = Some (g, v))"
      by (metis append_Cons)
    with ps show ?thesis unfolding secrets_replaced_def
      by (intro exI [of _ "(c # k, v) # qs"] exI [of _ rest]) (auto simp: Cons kv)
  qed
qed

lemma secrets_replaced_secret:
  assumes "secrets_replaced p s t" and "secret_intro p (g @ v) = Some (g, v)" and "v \<noteq> []" and "list_all secret_char v"
  shows "secrets_replaced p (g @ v @ s) (g @ redacted @ t)"
proof -
  obtain ps rest where ps: "s = concat (map (\<lambda>(k, v). k @ v) ps) @ rest" "t = concat (map (\<lambda>(k, v). k @ redacted) ps) @ rest"
      "\<forall>(k, v) \<in> set ps. v \<noteq> [] \<and> list_all secret_char v \<and> (\<exists>a g. k = a @ g \<and> secret_intro p (g @ v) = Some (g, v))"
    using assms(1) unfolding secrets_replaced_def by blast
  moreover have "\<exists>a g'. g = a @ g' \<and> secret_intro p (g' @ v) = Some (g', v)" using assms(2) by (metis append_Nil)
  ultimately show ?thesis unfolding secrets_replaced_def
    by (intro exI [of _ "(g, v) # ps"] exI [of _ rest]) (use assms(3,4) in auto)
qed

lemma redact_replaces: "secrets_replaced p s (redact p s)"
proof (induction p s rule: redact.induct)
  case (1 p s)
  show ?case
  proof (cases "secret_match p s")
    case (Some m)
    obtain g rest where m: "m = (g, rest)" by (cases m)
    with Some obtain c r where i: "secret_intro p s = Some (g, c # r)" "secret_char c" "rest = dropWhile secret_char r"
      by (auto simp: secret_match_Some)
    define v where "v = takeWhile secret_char (c # r)"
    have v: "v \<noteq> []" "list_all secret_char v" "s = g @ v @ rest" "v = c # takeWhile secret_char r"
      using i(2,3) secret_intro_split [OF i(1)] by (auto simp: v_def list_all_iff dest: set_takeWhileD)
    have "secret_intro p (g @ v) = Some (g, v)" unfolding v(4)
      by (rule intro_again [of p g "c # r"]) (use i secret_intro_split [OF i(1)] in \<open>simp_all add: secret_char_def\<close>)
    from secrets_replaced_secret [OF 1(2) [OF Some m [symmetric]] this v(1,2)] Some m v(3)
    show ?thesis by (simp add: redact_match)
  next
    case None
    with 1(1) show ?thesis by (cases s) (auto simp: redact_copy secrets_replaced_Nil secrets_replaced_Cons)
  qed
qed

section \<open>Property\<close>

text \<open>
  C18. No credential survives in a sanitised error message, and nothing but credentials is lost. The message is no longer than the limit;
  wherever it has \<open>bearer\<close> and white space, or one of the key names and an equals sign, in front of a value, the whole value, up to the
  next white space, comma or semicolon, is the marker \<open>[redacted]\<close> (or the part of it left by the cut); and the message is the given one
  with values replaced, first of bearer tokens and then of keys, and cut, but otherwise character by character the same.
\<close>

theorem error_messages_are_redacted:
  "length (sanitize_error limit s) \<le> limit \<and>
   (\<forall>pre suf p g c r. sanitize_error limit s = pre @ suf \<and> secret_intro p suf = Some (g, c # r) \<and> secret_char c \<longrightarrow>
      takeWhile secret_char (c # r) = take (length (c # r)) redacted) \<and>
   (\<exists>t u. secrets_replaced BearerToken s t \<and> secrets_replaced KeyValue t u \<and> sanitize_error limit s = take limit u)"
proof (intro conjI allI impI)
  show "length (sanitize_error limit s) \<le> limit" by (simp add: sanitize_error_def)
  show "\<exists>t u. secrets_replaced BearerToken s t \<and> secrets_replaced KeyValue t u \<and> sanitize_error limit s = take limit u"
    unfolding sanitize_error_def using redact_replaces by blast
  fix pre suf p g c r
  assume *: "sanitize_error limit s = pre @ suf \<and> secret_intro p suf = Some (g, c # r) \<and> secret_char c"
  from * have "take limit (redact KeyValue (redact BearerToken s)) = pre @ suf" by (simp add: sanitize_error_def)
  from clean_cut [OF sanitized_clean this] * show "takeWhile secret_char (c # r) = take (length (c # r)) redacted" by blast
qed

theorem error_messages_are_redacted_witness:
  "secret_intro KeyValue (drop 19 (sanitize_error 2000 ''Bearer a.b, Token=y;'')) = Some (''Token='', ''[redacted];'') \<and>
   takeWhile secret_char ''[redacted];'' = redacted"
proof -
  have i: "secret_intro KeyValue ''Token=[redacted];'' = Some (''Token='', CHR ''['' # ''redacted];'')" by code_simp
  have s: "sanitize_error 2000 ''Bearer a.b, Token=y;'' = ''Bearer [redacted], '' @ ''Token=[redacted];''"
    using sanitize_example by (simp add: sanitizeErrorMessage_def)
  have "secret_char CHR ''[''" by code_simp
  with error_messages_are_redacted [of 2000 "''Bearer a.b, Token=y;''"] s i
  have "takeWhile secret_char (CHR ''['' # ''redacted];'') = take (length (CHR ''['' # ''redacted];'')) redacted" by blast
  moreover have "drop 19 (sanitize_error 2000 ''Bearer a.b, Token=y;'') = ''Token=[redacted];''" unfolding s by simp
  ultimately show ?thesis using i by (simp add: redacted_def)
qed

end
