(* ===== verification/ExternalActions.thy ===== *)
theory ExternalActions
  imports Outbox CanonicalText Redaction
begin

text \<open>
  The lifecycle of external actions: schemas and helpers of
  \<open>src/packages/db/src/external-actions-repository.ts\<close> and its in-memory repository. An action is
  requested together with its dispatch event, claimed under a lease by a publisher, dispatched, retried or
  failed, and finished by a callback; every change is written to an append-only ledger of events and
  announced on the outbox.

  The record field prefixes are \<open>rq_\<close> (request), \<open>ac_\<close> (action), \<open>av_\<close> (ledger event), \<open>ro_\<close>
  (outcome) and \<open>dr_\<close> (dispatch receipt). An operation that writes to the repository returns its result
  with the state it leaves behind, because an exception does not undo the effects that came before it.
  \<open>clock i\<close> is the value \<open>this.now()\<close> or the outbox's clock has at the \<open>i\<close>-th place the operation reads it.
\<close>

section \<open>Schemas\<close>

definition short_text :: "nat \<Rightarrow> string \<Rightarrow> bool" where
  "short_text n s \<longleftrightarrow> s \<noteq> [] \<and> length s \<le> n"

definition actionIdSchema_ok :: "string \<Rightarrow> bool" where
  "actionIdSchema_ok = short_text 255"

definition idempotencyKeySchema_ok :: "string \<Rightarrow> bool" where
  "idempotencyKeySchema_ok = short_text 255"

text \<open>\<open>/^[a-z][a-z0-9._-]*$/\<close>.\<close>

definition actionTypeSchema_ok :: "string \<Rightarrow> bool" where
  "actionTypeSchema_ok s \<longleftrightarrow>
     short_text 100 s \<and> is_lower (hd s) \<and> list_all is_event_char (tl s)"

record externalActionRequest =
  rq_tenantId :: string
  rq_actionId :: string
  rq_actionType :: string
  rq_approvedBy :: string
  rq_idempotencyKey :: string
  rq_requestPayload :: json_record

definition externalActionRequest_ok :: "(string \<Rightarrow> bool) \<Rightarrow> externalActionRequest \<Rightarrow> bool" where
  "externalActionRequest_ok is_uuid r \<longleftrightarrow>
     is_uuid (rq_tenantId r) \<and> actionIdSchema_ok (rq_actionId r) \<and> actionTypeSchema_ok (rq_actionType r) \<and>
     short_text 255 (rq_approvedBy r) \<and> idempotencyKeySchema_ok (rq_idempotencyKey r)"

definition externalActionRequestSchema_parse ::
  "(string \<Rightarrow> bool) \<Rightarrow> externalActionRequest \<Rightarrow> externalActionRequest result" where
  "externalActionRequestSchema_parse is_uuid = zod_parse id (externalActionRequest_ok is_uuid)"

datatype externalActionState =
    EaRequested | EaDispatching | EaRetryScheduled | EaDispatched | EaCompleted | EaFailed

fun external_state_name :: "externalActionState \<Rightarrow> string" where
  "external_state_name EaRequested = ''requested''"
| "external_state_name EaDispatching = ''dispatching''"
| "external_state_name EaRetryScheduled = ''retry_scheduled''"
| "external_state_name EaDispatched = ''dispatched''"
| "external_state_name EaCompleted = ''completed''"
| "external_state_name EaFailed = ''failed''"

record externalActionRecord =
  ac_id :: string
  ac_tenantId :: string
  ac_actionId :: string
  ac_idempotencyKey :: string
  ac_requestDigest :: string
  ac_actionType :: string
  ac_approvedBy :: string
  ac_requestPayload :: json_record
  ac_state :: externalActionState
  ac_dispatchAttempts :: number
  ac_dispatchLeaseOwner :: "string option"
  ac_dispatchLeaseExpiresAt :: "date option"
  ac_lastDispatchAt :: "date option"
  ac_nextRetryAt :: "date option"
  ac_lastErrorCode :: "string option"
  ac_lastErrorMessage :: "string option"
  ac_dispatchReceipt :: json_record
  ac_outcome :: json_record
  ac_workflowId :: "string option"
  ac_executionId :: "string option"
  ac_providerReference :: "string option"
  ac_outcomeReceivedAt :: "date option"
  ac_createdAt :: date
  ac_updatedAt :: date

definition externalActionRecord_ok :: "(string \<Rightarrow> bool) \<Rightarrow> externalActionRecord \<Rightarrow> bool" where
  "externalActionRecord_ok is_uuid a \<longleftrightarrow>
     is_uuid (ac_id a) \<and> is_uuid (ac_tenantId a) \<and> actionIdSchema_ok (ac_actionId a) \<and>
     idempotencyKeySchema_ok (ac_idempotencyKey a) \<and> length (ac_requestDigest a) = 64 \<and>
     actionTypeSchema_ok (ac_actionType a) \<and> short_text 255 (ac_approvedBy a) \<and>
     is_nonnegative_int (ac_dispatchAttempts a)"

definition externalActionRecordSchema_parse ::
  "(string \<Rightarrow> bool) \<Rightarrow> externalActionRecord \<Rightarrow> externalActionRecord result" where
  "externalActionRecordSchema_parse is_uuid = zod_parse id (externalActionRecord_ok is_uuid)"

record externalActionEventRecord =
  av_id :: string
  av_tenantId :: string
  av_externalActionId :: string
  av_eventKey :: string
  av_eventType :: string
  av_payload :: json_record
  av_createdAt :: date

definition externalActionEventRecord_ok :: "(string \<Rightarrow> bool) \<Rightarrow> externalActionEventRecord \<Rightarrow> bool" where
  "externalActionEventRecord_ok is_uuid e \<longleftrightarrow>
     is_uuid (av_id e) \<and> is_uuid (av_tenantId e) \<and> is_uuid (av_externalActionId e) \<and>
     av_eventKey e \<noteq> [] \<and> av_eventType e \<noteq> []"

definition externalActionEventRecordSchema_parse ::
  "(string \<Rightarrow> bool) \<Rightarrow> externalActionEventRecord \<Rightarrow> externalActionEventRecord result" where
  "externalActionEventRecordSchema_parse is_uuid = zod_parse id (externalActionEventRecord_ok is_uuid)"

datatype externalActionOutcomeStatus = OutcomeCompleted | OutcomeFailed

record recordExternalActionOutcome =
  ro_tenantId :: string
  ro_actionId :: string
  ro_idempotencyKey :: string
  ro_callbackId :: string
  ro_status :: externalActionOutcomeStatus
  ro_workflowId :: "string option"
  ro_executionId :: "string option"
  ro_providerReference :: "string option"
  ro_outcome :: "json_record option"
  ro_errorCode :: "string option"
  ro_errorMessage :: "string option"
  ro_occurredAt :: "date option"

definition recordExternalActionOutcome_ok :: "(string \<Rightarrow> bool) \<Rightarrow> recordExternalActionOutcome \<Rightarrow> bool" where
  "recordExternalActionOutcome_ok is_uuid r \<longleftrightarrow>
     is_uuid (ro_tenantId r) \<and> actionIdSchema_ok (ro_actionId r) \<and>
     idempotencyKeySchema_ok (ro_idempotencyKey r) \<and> short_text 255 (ro_callbackId r) \<and>
     pred_opt (short_text 255) (ro_workflowId r) \<and> pred_opt (short_text 255) (ro_executionId r) \<and>
     pred_opt (short_text 255) (ro_providerReference r) \<and> pred_opt (short_text 255) (ro_errorCode r) \<and>
     pred_opt (short_text 2000) (ro_errorMessage r)"

definition recordExternalActionOutcomeSchema_parse ::
  "(string \<Rightarrow> bool) \<Rightarrow> recordExternalActionOutcome \<Rightarrow> recordExternalActionOutcome result" where
  "recordExternalActionOutcomeSchema_parse is_uuid =
     zod_parse (\<lambda>r. r\<lparr>ro_outcome := Some (nullish_or (ro_outcome r) [])\<rparr>) (recordExternalActionOutcome_ok is_uuid)"

section \<open>Inputs and results of the operations\<close>

record dispatchReceipt =
  dr_httpStatus :: number
  dr_body :: json
  dr_workflowId :: "string option"
  dr_executionId :: "string option"
  dr_providerReference :: "string option"

text \<open>The fields the dispatch inputs share, and the four interfaces that extend them.\<close>

record dispatchIdentity =
  di_tenantId :: string
  di_actionId :: string
  di_idempotencyKey :: string
  di_leaseOwner :: string
  di_now :: "date option"

record claimExternalActionDispatch = dispatchIdentity +
  cd_leaseDurationMs :: number

record recordDispatchAcceptedInput = dispatchIdentity +
  da_receipt :: dispatchReceipt

record scheduleDispatchRetryInput = dispatchIdentity +
  sr_retryAfterMs :: number
  sr_errorCode :: "string option"
  sr_errorMessage :: string

record failExternalActionDispatchInput = dispatchIdentity +
  fd_errorCode :: "string option"
  fd_errorMessage :: string

datatype externalActionDispatchClaim =
    Claimed externalActionRecord
  | Deferred externalActionRecord
  | InFlight externalActionRecord
  | Settled externalActionRecord

record enqueueExternalActionResult =
  er_action :: externalActionRecord
  er_event :: storedOutboxEvent
  er_isDuplicate :: bool

record recordExternalActionOutcomeResult =
  or_action :: externalActionRecord
  or_isDuplicate :: bool

section \<open>Helpers\<close>

definition externalActionOutboxEventType :: string where
  "externalActionOutboxEventType = ''n8n.dispatch.requested.v1''"

text \<open>What is hashed: everything of the request but the tenant.\<close>

definition request_json :: "externalActionRequest \<Rightarrow> json" where
  "request_json request =
     JObj [(''actionId'', JStr (rq_actionId request)), (''actionType'', JStr (rq_actionType request)),
           (''approvedBy'', JStr (rq_approvedBy request)),
           (''idempotencyKey'', JStr (rq_idempotencyKey request)),
           (''payload'', JObj (rq_requestPayload request))]"

definition externalActionRequestDigest ::
  "(string \<Rightarrow> string) \<Rightarrow> (number \<Rightarrow> string) \<Rightarrow> externalActionRequest \<Rightarrow> string" where
  "externalActionRequestDigest sha256 number_text request = sha256 (stableJson number_text (request_json request))"

definition isSettled :: "externalActionState \<Rightarrow> bool" where
  "isSettled s \<longleftrightarrow> s \<in> {EaDispatched, EaCompleted, EaFailed}"

definition validateDispatchIdentity :: "(string \<Rightarrow> bool) \<Rightarrow> 'a dispatchIdentity_scheme \<Rightarrow> unit result" where
  "validateDispatchIdentity is_uuid input =
     (if is_uuid (di_tenantId input) \<and> actionIdSchema_ok (di_actionId input) \<and>
         idempotencyKeySchema_ok (di_idempotencyKey input)
      then Inr () else Inl ZodError)"

text \<open>Nullable and conditional members of an object, and object spread \<open>{...a, ...b}\<close>.\<close>

definition json_opt :: "string option \<Rightarrow> json" where
  "json_opt s = (case s of None \<Rightarrow> JNull | Some x \<Rightarrow> JStr x)"

text \<open>\<open>...(s ? { key: s } : {})\<close>: an empty string counts as absent.\<close>

definition truthy_member :: "string \<Rightarrow> string option \<Rightarrow> json_record" where
  "truthy_member k s = (case s of None \<Rightarrow> [] | Some x \<Rightarrow> if x = [] then [] else [(k, JStr x)])"

definition json_spread :: "json_record \<Rightarrow> json_record \<Rightarrow> json_record" where
  "json_spread a b = foldl (\<lambda>fs (k, v). AList.update k v fs) a b"

definition lifecyclePayload :: "externalActionRecord \<Rightarrow> json_record \<Rightarrow> json_record" where
  "lifecyclePayload action extra =
     json_spread
       ([(''external_action_id'', JStr (ac_id action)), (''action_id'', JStr (ac_actionId action)),
         (''action_type'', JStr (ac_actionType action)),
         (''state'', JStr (external_state_name (ac_state action))),
         (''dispatch_attempts'', JNum (ac_dispatchAttempts action))] @
        truthy_member ''workflow_id'' (ac_workflowId action) @
        truthy_member ''execution_id'' (ac_executionId action) @
        truthy_member ''provider_reference'' (ac_providerReference action))
       extra"

datatype failurePhase = DispatchPhase | OutcomePhase

fun phase_name :: "failurePhase \<Rightarrow> string" where
  "phase_name DispatchPhase = ''dispatch''"
| "phase_name OutcomePhase = ''outcome''"

definition failureIncidentPayload :: "externalActionRecord \<Rightarrow> failurePhase \<Rightarrow> json_record" where
  "failureIncidentPayload action phase =
     [(''incident_key'', JStr (''external-action:'' @ ac_id action @ '':failed'')),
      (''component_id'', JStr ''n8n-dispatch''), (''severity'', JStr ''high''),
      (''title'', JStr (''External action '' @ ac_actionId action @ '' failed'')),
      (''summary'', JStr (''n8n '' @ phase_name phase @ '' failed for '' @ ac_actionType action @
         ''; founder review is required before retrying or replacing the action.'')),
      (''diagnostic_metadata'', JObj
         [(''external_action_id'', JStr (ac_id action)), (''action_id'', JStr (ac_actionId action)),
          (''action_type'', JStr (ac_actionType action)), (''phase'', JStr (phase_name phase)),
          (''dispatch_attempts'', JNum (ac_dispatchAttempts action)),
          (''error_code'', json_opt (ac_lastErrorCode action))])]"

definition transitionEventPayload :: "externalActionRecord \<Rightarrow> string \<Rightarrow> json_record \<Rightarrow> json_record" where
  "transitionEventPayload action eventType details =
     json_spread
       [(''state'', JStr (external_state_name (ac_state action))), (''action_id'', JStr (ac_actionId action)),
        (''action_type'', JStr (ac_actionType action)),
        (''dispatch_attempts'', JNum (ac_dispatchAttempts action)), (''event_type'', JStr eventType)]
       details"

text \<open>\<open>new Date(t.getTime() + ms)\<close>: the sum is truncated to a whole number of milliseconds.\<close>

definition date_plus :: "date \<Rightarrow> number \<Rightarrow> date" where
  "date_plus t ms = (let x = of_int t + ms in if 0 \<le> x then \<lfloor>x\<rfloor> else \<lceil>x\<rceil>)"

section \<open>The in-memory repository\<close>

text \<open>
  \<open>actionsById\<close> with \<open>actionIndex\<close> is a store; \<open>idempotencyIndex\<close> and \<open>eventsByActionId\<close> are maps of
  their own. The outbox is the repository the constructor is given.
\<close>

record external_actions =
  ea_actions :: "externalActionRecord store"
  ea_idempotencyIndex :: "(string \<times> string) list"
  ea_events :: "(string \<times> externalActionEventRecord list) list"
  ea_sequence :: nat
  ea_outbox :: outbox

definition empty_external_actions :: external_actions where
  "empty_external_actions =
     \<lparr>ea_actions = empty_store, ea_idempotencyIndex = [], ea_events = [], ea_sequence = 0,
      ea_outbox = empty_outbox\<rparr>"

type_synonym 'a action_result = "(js_error + 'a) \<times> external_actions"

abbreviation action_by_id :: "external_actions \<Rightarrow> string \<Rightarrow> externalActionRecord option" where
  "action_by_id st i \<equiv> get_by_id (ea_actions st) i"

definition action_newId :: "nat \<Rightarrow> string" where
  "action_newId sequence = ''00000000-0000-4000-8000-'' @ padStart 12 CHR ''0'' (show_nat sequence)"

definition action_save :: "externalActionRecord \<Rightarrow> external_actions \<Rightarrow> external_actions" where
  "action_save action st = st\<lparr>ea_actions := put_record (ac_id action) action (ea_actions st)\<rparr>"

definition action_find ::
  "string \<Rightarrow> string \<Rightarrow> string option \<Rightarrow> external_actions \<Rightarrow> externalActionRecord result" where
  "action_find tenantId actionId idempotencyKey st =
     (case find_existing (ea_actions st) (colon_key tenantId actionId) of
        None \<Rightarrow> Inl (ExternalActionNotFoundError actionId)
      | Some action \<Rightarrow>
          if idempotencyKey \<noteq> None \<and> idempotencyKey \<noteq> Some [] \<and> idempotencyKey \<noteq> Some (ac_idempotencyKey action)
          then Inl (ExternalActionNotFoundError actionId)
          else Inr action)"

definition events_of :: "external_actions \<Rightarrow> string \<Rightarrow> externalActionEventRecord list" where
  "events_of st i = nullish_or (map_of (ea_events st) i) []"

definition has_event :: "external_actions \<Rightarrow> string \<Rightarrow> string \<Rightarrow> bool" where
  "has_event st i eventKey \<longleftrightarrow> list_ex (\<lambda>e. av_eventKey e = eventKey) (events_of st i)"

definition action_appendEvent ::
  "(string \<Rightarrow> bool) \<Rightarrow> externalActionRecord \<Rightarrow> string \<Rightarrow> string \<Rightarrow> json_record \<Rightarrow> date \<Rightarrow>
   external_actions \<Rightarrow> unit action_result" where
  "action_appendEvent is_uuid action eventKey eventType payload now st =
     (if has_event st (ac_id action) eventKey then (Inr (), st)
      else
        (let sequence = Suc (ea_sequence st); st1 = st\<lparr>ea_sequence := sequence\<rparr>
         in or_throw (externalActionEventRecordSchema_parse is_uuid
               \<lparr>av_id = action_newId sequence, av_tenantId = ac_tenantId action,
                av_externalActionId = ac_id action, av_eventKey = eventKey, av_eventType = eventType,
                av_payload = payload, av_createdAt = now\<rparr>) st1 (\<lambda>event.
              (Inr (), st1\<lparr>ea_events :=
                 AList.update (ac_id action) (events_of st (ac_id action) @ [event]) (ea_events st)\<rparr>))))"

definition action_enqueue ::
  "(string \<Rightarrow> bool) \<Rightarrow> enqueueOutboxEvent \<Rightarrow> date \<Rightarrow> external_actions \<Rightarrow> storedOutboxEvent action_result" where
  "action_enqueue is_uuid command now st =
     or_throw (outbox_enqueue is_uuid command now (ea_outbox st)) st (\<lambda>(event, ob).
       (Inr event, st\<lparr>ea_outbox := ob\<rparr>))"

definition emitLifecycle ::
  "(string \<Rightarrow> bool) \<Rightarrow> externalActionRecord \<Rightarrow> string \<Rightarrow> string \<Rightarrow> json_record \<Rightarrow> date \<Rightarrow>
   external_actions \<Rightarrow> unit action_result" where
  "emitLifecycle is_uuid action eventType idempotencyKey extra now =
     then_do (action_enqueue is_uuid
       \<lparr>oc_tenantId = ac_tenantId action, oc_eventType = eventType, oc_idempotencyKey = idempotencyKey,
        oc_payload = lifecyclePayload action extra\<rparr> now) (\<lambda>_ st. (Inr (), st))"

definition emitFailureIncident ::
  "(string \<Rightarrow> bool) \<Rightarrow> externalActionRecord \<Rightarrow> failurePhase \<Rightarrow> date \<Rightarrow> external_actions \<Rightarrow> unit action_result" where
  "emitFailureIncident is_uuid action phase now =
     then_do (action_enqueue is_uuid
       \<lparr>oc_tenantId = ac_tenantId action, oc_eventType = ''incident.opened.v1'',
        oc_idempotencyKey = ''external-action-failure:'' @ ac_id action,
        oc_payload = failureIncidentPayload action phase\<rparr> now) (\<lambda>_ st. (Inr (), st))"

text \<open>
  What every change of an action does: save it, append an event whose payload is the transition payload
  with some details, and go on with \<open>rest\<close>.
\<close>

definition write_action ::
  "(string \<Rightarrow> bool) \<Rightarrow> externalActionRecord \<Rightarrow> string \<Rightarrow> string \<Rightarrow> json_record \<Rightarrow> date \<Rightarrow>
   (external_actions \<Rightarrow> 'a action_result) \<Rightarrow> external_actions \<Rightarrow> 'a action_result" where
  "write_action is_uuid action eventKey eventType details now rest st =
     then_do (action_appendEvent is_uuid action eventKey eventType
                (transitionEventPayload action eventType details) now) (\<lambda>_. rest) (action_save action st)"

text \<open>The dispatch event of a request, enqueued when the action is created and on every replay.\<close>

definition dispatch_command :: "externalActionRequest \<Rightarrow> enqueueOutboxEvent" where
  "dispatch_command request =
     \<lparr>oc_tenantId = rq_tenantId request, oc_eventType = externalActionOutboxEventType,
      oc_idempotencyKey = rq_idempotencyKey request,
      oc_payload =
        [(''tenantId'', JStr (rq_tenantId request)), (''actionId'', JStr (rq_actionId request)),
         (''actionType'', JStr (rq_actionType request)), (''approvedBy'', JStr (rq_approvedBy request)),
         (''idempotencyKey'', JStr (rq_idempotencyKey request)),
         (''payload'', JObj (rq_requestPayload request))]\<rparr>"

text \<open>A requested action, before anything has happened to it.\<close>

definition requested_action :: "string \<Rightarrow> string \<Rightarrow> externalActionRequest \<Rightarrow> date \<Rightarrow> externalActionRecord" where
  "requested_action i digest request now =
     \<lparr>ac_id = i, ac_tenantId = rq_tenantId request, ac_actionId = rq_actionId request,
      ac_idempotencyKey = rq_idempotencyKey request, ac_requestDigest = digest,
      ac_actionType = rq_actionType request, ac_approvedBy = rq_approvedBy request,
      ac_requestPayload = rq_requestPayload request, ac_state = EaRequested, ac_dispatchAttempts = 0,
      ac_dispatchLeaseOwner = None, ac_dispatchLeaseExpiresAt = None, ac_lastDispatchAt = None,
      ac_nextRetryAt = None, ac_lastErrorCode = None, ac_lastErrorMessage = None, ac_dispatchReceipt = [],
      ac_outcome = [], ac_workflowId = None, ac_executionId = None, ac_providerReference = None,
      ac_outcomeReceivedAt = None, ac_createdAt = now, ac_updatedAt = now\<rparr>"

text \<open>\<open>const existingId = byAction ?? byIdempotency\<close>, an empty id counting as absent afterwards.\<close>

definition existing_action_id :: "external_actions \<Rightarrow> externalActionRequest \<Rightarrow> string option" where
  "existing_action_id st request =
     (case nullish (map_of (idByKey (ea_actions st)) (colon_key (rq_tenantId request) (rq_actionId request)))
                   (map_of (ea_idempotencyIndex st) (colon_key (rq_tenantId request) (rq_idempotencyKey request))) of
        None \<Rightarrow> None
      | Some i \<Rightarrow> if i = [] then None else Some i)"

definition enqueueRequested ::
  "(string \<Rightarrow> bool) \<Rightarrow> (string \<Rightarrow> string) \<Rightarrow> (number \<Rightarrow> string) \<Rightarrow> (nat \<Rightarrow> date) \<Rightarrow>
   externalActionRequest \<Rightarrow> external_actions \<Rightarrow> enqueueExternalActionResult action_result" where
  "enqueueRequested is_uuid sha256 number_text clock requestInput st =
     or_throw (externalActionRequestSchema_parse is_uuid requestInput) st (\<lambda>request.
       (let digest = externalActionRequestDigest sha256 number_text request
        in case existing_action_id st request of
             Some existingId \<Rightarrow>
               (case action_by_id st existingId of
                  None \<Rightarrow> (Inl (JsError ''External action idempotency index is corrupt''), st)
                | Some existing \<Rightarrow>
                    if ac_actionId existing \<noteq> rq_actionId request \<or>
                       ac_idempotencyKey existing \<noteq> rq_idempotencyKey request \<or>
                       ac_requestDigest existing \<noteq> digest
                    then (Inl (ExternalActionConflictError
                      ''actionId or idempotencyKey was reused with a different external action request''), st)
                    else then_do (action_enqueue is_uuid (dispatch_command request) (clock 0)) (\<lambda>event st'.
                      (Inr \<lparr>er_action = existing, er_event = event, er_isDuplicate = True\<rparr>, st')) st)
           | None \<Rightarrow>
               (let sequence = Suc (ea_sequence st); st1 = st\<lparr>ea_sequence := sequence\<rparr>
                in or_throw (externalActionRecordSchema_parse is_uuid
                     (requested_action (action_newId sequence) digest request (clock 0))) st1 (\<lambda>action.
                   then_do (action_appendEvent is_uuid action (''requested:'' @ rq_idempotencyKey request)
                       ''requested'' (transitionEventPayload action ''requested'' []) (clock 1)) (\<lambda>_.
                   then_do (action_enqueue is_uuid (dispatch_command request) (clock 2)) (\<lambda>event st'.
                      (Inr \<lparr>er_action = action, er_event = event, er_isDuplicate = False\<rparr>, st')))
                     (st1\<lparr>ea_actions :=
                            insert_new (colon_key (rq_tenantId request) (rq_actionId request)) (ac_id action)
                              action (ea_actions st1),
                          ea_idempotencyIndex :=
                            AList.update (colon_key (rq_tenantId request) (rq_idempotencyKey request))
                              (ac_id action) (ea_idempotencyIndex st1)\<rparr>)))))"

text \<open>An optional time that lies after \<open>now\<close>.\<close>

definition later_than :: "date option \<Rightarrow> date \<Rightarrow> bool" where
  "later_than t now = (case t of None \<Rightarrow> False | Some d \<Rightarrow> now < d)"

definition claimed_action :: "claimExternalActionDispatch \<Rightarrow> date \<Rightarrow> externalActionRecord \<Rightarrow> externalActionRecord" where
  "claimed_action input now action =
     action\<lparr>ac_state := EaDispatching, ac_dispatchAttempts := ac_dispatchAttempts action + 1,
       ac_dispatchLeaseOwner := Some (di_leaseOwner input),
       ac_dispatchLeaseExpiresAt := Some (date_plus now (cd_leaseDurationMs input)),
       ac_lastDispatchAt := Some now, ac_nextRetryAt := None, ac_lastErrorCode := None,
       ac_lastErrorMessage := None, ac_updatedAt := now\<rparr>"

definition claimDispatch ::
  "(string \<Rightarrow> bool) \<Rightarrow> (nat \<Rightarrow> date) \<Rightarrow> claimExternalActionDispatch \<Rightarrow> external_actions \<Rightarrow>
   externalActionDispatchClaim action_result" where
  "claimDispatch is_uuid clock input st =
     or_throw (validateDispatchIdentity is_uuid input) st (\<lambda>_.
       if di_leaseOwner input = [] \<or> cd_leaseDurationMs input \<le> 0
       then (Inl (ExternalActionStateError ''A positive dispatch lease is required''), st)
       else or_throw (action_find (di_tenantId input) (di_actionId input) (Some (di_idempotencyKey input)) st) st
         (\<lambda>action.
           (let now = nullish_or (di_now input) (clock 0)
            in if isSettled (ac_state action) then (Inr (Settled action), st)
               else if ac_state action = EaRetryScheduled \<and> later_than (ac_nextRetryAt action) now
               then (Inr (Deferred action), st)
               else if ac_state action = EaDispatching \<and> later_than (ac_dispatchLeaseExpiresAt action) now
               then (Inr (InFlight action), st)
               else
                 (let claimed = claimed_action input now action
                  in write_action is_uuid claimed
                       (''dispatch_started:'' @ show_integer (ac_dispatchAttempts claimed)) ''dispatch_started'' []
                       (clock 1) (\<lambda>st'. (Inr (Claimed claimed), st')) st))))"

text \<open>The check the three dispatch reports start with: a settled action is returned as it is.\<close>

definition not_dispatching :: "string \<Rightarrow> externalActionRecord \<Rightarrow> js_error" where
  "not_dispatching what action =
     ExternalActionStateError (''Cannot '' @ what @ '' while external action is '' @
       external_state_name (ac_state action))"

definition report_dispatch ::
  "(string \<Rightarrow> bool) \<Rightarrow> string \<Rightarrow> 'a dispatchIdentity_scheme \<Rightarrow>
   (externalActionRecord \<Rightarrow> external_actions \<Rightarrow> externalActionRecord action_result) \<Rightarrow>
   external_actions \<Rightarrow> externalActionRecord action_result" where
  "report_dispatch is_uuid what input report st =
     or_throw (action_find (di_tenantId input) (di_actionId input) (Some (di_idempotencyKey input)) st) st
       (\<lambda>action.
         if isSettled (ac_state action) then (Inr action, st)
         else if ac_state action \<noteq> EaDispatching \<or> ac_dispatchLeaseOwner action \<noteq> Some (di_leaseOwner input)
         then (Inl (not_dispatching what action), st)
         else report action st)"

definition accepted_action :: "dispatchReceipt \<Rightarrow> date \<Rightarrow> externalActionRecord \<Rightarrow> externalActionRecord" where
  "accepted_action receipt now action =
     action\<lparr>ac_state := EaDispatched, ac_dispatchLeaseOwner := None, ac_dispatchLeaseExpiresAt := None,
       ac_nextRetryAt := None, ac_lastErrorCode := None, ac_lastErrorMessage := None,
       ac_dispatchReceipt := [(''http_status'', JNum (dr_httpStatus receipt)), (''body'', dr_body receipt)],
       ac_workflowId := nullish (dr_workflowId receipt) (ac_workflowId action),
       ac_executionId := nullish (dr_executionId receipt) (ac_executionId action),
       ac_providerReference := nullish (dr_providerReference receipt) (ac_providerReference action),
       ac_updatedAt := now\<rparr>"

definition recordDispatchAccepted ::
  "(string \<Rightarrow> bool) \<Rightarrow> (nat \<Rightarrow> date) \<Rightarrow> recordDispatchAcceptedInput \<Rightarrow> external_actions \<Rightarrow>
   externalActionRecord action_result" where
  "recordDispatchAccepted is_uuid clock input st =
     or_throw (validateDispatchIdentity is_uuid input) st (\<lambda>_.
       report_dispatch is_uuid ''record dispatch receipt'' input (\<lambda>action st.
         (let now = nullish_or (di_now input) (clock 0);
              accepted = accepted_action (da_receipt input) now action
          in write_action is_uuid accepted
               (''dispatch_accepted:'' @ show_integer (ac_dispatchAttempts accepted)) ''dispatch_accepted''
               [(''http_status'', JNum (dr_httpStatus (da_receipt input)))] (clock 1)
               (then_do (emitLifecycle is_uuid accepted ''external_action.dispatched.v1''
                  (''external-action:'' @ ac_id accepted @ '':dispatched:'' @ show_integer (ac_dispatchAttempts accepted))
                  [(''dispatch_receipt'', JObj (ac_dispatchReceipt accepted))] (clock 2))
                  (\<lambda>_ st'. (Inr accepted, st'))) st)) st)"

definition retry_action ::
  "number \<Rightarrow> string option \<Rightarrow> string \<Rightarrow> date \<Rightarrow> externalActionRecord \<Rightarrow> externalActionRecord" where
  "retry_action retryAfterMs errorCode errorMessage now action =
     action\<lparr>ac_state := EaRetryScheduled, ac_dispatchLeaseOwner := None, ac_dispatchLeaseExpiresAt := None,
       ac_nextRetryAt := Some (date_plus now retryAfterMs),
       ac_lastErrorCode := nullish errorCode (Some ''N8N_RETRYABLE_DISPATCH_FAILURE''),
       ac_lastErrorMessage := Some (sanitizeErrorMessage errorMessage), ac_updatedAt := now\<rparr>"

text \<open>\<open>date?.toISOString()\<close> as an object member; \<open>undefined\<close> leaves the member out.\<close>

definition iso_member :: "string \<Rightarrow> date option \<Rightarrow> json_record" where
  "iso_member k t = (case t of None \<Rightarrow> [] | Some d \<Rightarrow> [(k, JStr (toISOString d))])"

definition scheduleDispatchRetry ::
  "(string \<Rightarrow> bool) \<Rightarrow> (nat \<Rightarrow> date) \<Rightarrow> scheduleDispatchRetryInput \<Rightarrow> external_actions \<Rightarrow>
   externalActionRecord action_result" where
  "scheduleDispatchRetry is_uuid clock input st =
     or_throw (validateDispatchIdentity is_uuid input) st (\<lambda>_.
       if sr_retryAfterMs input \<le> 0
       then (Inl (ExternalActionStateError ''retryAfterMs must be positive''), st)
       else report_dispatch is_uuid ''schedule retry'' input (\<lambda>action st.
         (let now = nullish_or (di_now input) (clock 0);
              retry = retry_action (sr_retryAfterMs input) (sr_errorCode input) (sr_errorMessage input) now action
          in write_action is_uuid retry
               (''dispatch_retry_scheduled:'' @ show_integer (ac_dispatchAttempts retry)) ''dispatch_retry_scheduled''
               (iso_member ''retry_after'' (ac_nextRetryAt retry) @
                [(''error_code'', json_opt (ac_lastErrorCode retry))]) (clock 1)
               (then_do (emitLifecycle is_uuid retry ''external_action.retry_scheduled.v1''
                  (''external-action:'' @ ac_id retry @ '':retry:'' @ show_integer (ac_dispatchAttempts retry))
                  (iso_member ''retry_at'' (ac_nextRetryAt retry) @
                   [(''error_code'', json_opt (ac_lastErrorCode retry))]) (clock 2))
                  (\<lambda>_ st'. (Inr retry, st'))) st)) st)"

definition failed_action ::
  "string option \<Rightarrow> string \<Rightarrow> date \<Rightarrow> externalActionRecord \<Rightarrow> externalActionRecord" where
  "failed_action errorCode errorMessage now action =
     action\<lparr>ac_state := EaFailed, ac_dispatchLeaseOwner := None, ac_dispatchLeaseExpiresAt := None,
       ac_nextRetryAt := None, ac_lastErrorCode := nullish errorCode (Some ''N8N_PERMANENT_DISPATCH_FAILURE''),
       ac_lastErrorMessage := Some (sanitizeErrorMessage errorMessage), ac_updatedAt := now\<rparr>"

definition failDispatch ::
  "(string \<Rightarrow> bool) \<Rightarrow> (nat \<Rightarrow> date) \<Rightarrow> failExternalActionDispatchInput \<Rightarrow> external_actions \<Rightarrow>
   externalActionRecord action_result" where
  "failDispatch is_uuid clock input st =
     or_throw (validateDispatchIdentity is_uuid input) st (\<lambda>_.
       report_dispatch is_uuid ''fail dispatch'' input (\<lambda>action st.
         (let now = nullish_or (di_now input) (clock 0);
              failed = failed_action (fd_errorCode input) (fd_errorMessage input) now action
          in write_action is_uuid failed
               (''dispatch_failed:'' @ show_integer (ac_dispatchAttempts failed)) ''dispatch_failed''
               [(''error_code'', json_opt (ac_lastErrorCode failed))] (clock 1)
               (then_do (emitLifecycle is_uuid failed ''external_action.failed.v1''
                  (''external-action:'' @ ac_id failed @ '':failed'')
                  [(''phase'', JStr ''dispatch''), (''error_code'', json_opt (ac_lastErrorCode failed))]
                  (clock 2)) (\<lambda>_.
                then_do (emitFailureIncident is_uuid failed DispatchPhase (clock 3))
                  (\<lambda>_ st'. (Inr failed, st')))) st)) st)"

definition outcome_action :: "recordExternalActionOutcome \<Rightarrow> date \<Rightarrow> externalActionRecord \<Rightarrow> externalActionRecord" where
  "outcome_action input now action =
     (let completed = (ro_status input = OutcomeCompleted)
      in action\<lparr>ac_state := (if completed then EaCompleted else EaFailed),
           ac_dispatchLeaseOwner := None, ac_dispatchLeaseExpiresAt := None, ac_nextRetryAt := None,
           ac_workflowId := nullish (ro_workflowId input) (ac_workflowId action),
           ac_executionId := nullish (ro_executionId input) (ac_executionId action),
           ac_providerReference := nullish (ro_providerReference input) (ac_providerReference action),
           ac_outcome := nullish_or (ro_outcome input) [], ac_outcomeReceivedAt := Some now,
           ac_lastErrorCode :=
             (if completed then None else nullish (ro_errorCode input) (Some ''N8N_EXECUTION_FAILED'')),
           ac_lastErrorMessage :=
             (if completed then None
              else Some (sanitizeErrorMessage
                     (nullish_or (ro_errorMessage input) ''n8n reported a failed action outcome''))),
           ac_updatedAt := now\<rparr>)"

definition callback_key :: "string \<Rightarrow> string" where
  "callback_key callbackId = ''callback:'' @ callbackId"

text \<open>The outbox events of an outcome: the lifecycle event and, for a failure, the incident.\<close>

definition announce_outcome ::
  "(string \<Rightarrow> bool) \<Rightarrow> (nat \<Rightarrow> date) \<Rightarrow> recordExternalActionOutcome \<Rightarrow> externalActionRecord \<Rightarrow>
   external_actions \<Rightarrow> unit action_result" where
  "announce_outcome is_uuid clock input transitioned =
     (let completed = (ro_status input = OutcomeCompleted)
      in then_do (emitLifecycle is_uuid transitioned
            (if completed then ''external_action.completed.v1'' else ''external_action.failed.v1'')
            (''external-action:'' @ ac_id transitioned @ '':'' @
               (if completed then ''completed'' else ''failed'') @ '':'' @ ro_callbackId input)
            ([(''phase'', JStr ''outcome''), (''callback_id'', JStr (ro_callbackId input)),
              (''outcome'', JObj (ac_outcome transitioned))] @
             truthy_member ''error_code'' (ac_lastErrorCode transitioned)) (clock 2))
           (\<lambda>_ st. if completed then (Inr (), st)
                   else emitFailureIncident is_uuid transitioned OutcomePhase (clock 3) st))"

definition recordOutcome ::
  "(string \<Rightarrow> bool) \<Rightarrow> (nat \<Rightarrow> date) \<Rightarrow> recordExternalActionOutcome \<Rightarrow> external_actions \<Rightarrow>
   recordExternalActionOutcomeResult action_result" where
  "recordOutcome is_uuid clock inputValue st =
     or_throw (recordExternalActionOutcomeSchema_parse is_uuid inputValue) st (\<lambda>input.
     or_throw (action_find (ro_tenantId input) (ro_actionId input) (Some (ro_idempotencyKey input)) st) st
       (\<lambda>action.
         (let eventKey = callback_key (ro_callbackId input)
          in if has_event st (ac_id action) eventKey
             then (Inr \<lparr>or_action = action, or_isDuplicate = True\<rparr>, st)
             else if ac_state action = EaCompleted \<or> ac_state action = EaFailed
             then (Inl (ExternalActionStateError
                    (''Cannot apply a new callback to terminal external action '' @ ac_actionId action)), st)
             else
               (let now = nullish_or (ro_occurredAt input) (clock 0);
                    completed = (ro_status input = OutcomeCompleted);
                    transitioned = outcome_action input now action;
                    what = (if completed then ''outcome_completed'' else ''outcome_failed'')
                in write_action is_uuid transitioned eventKey what
                     [(''callback_id'', JStr (ro_callbackId input)),
                      (''error_code'', json_opt (ac_lastErrorCode transitioned))] (clock 1)
                     (then_do (announce_outcome is_uuid clock input transitioned)
                        (\<lambda>_ st'. (Inr \<lparr>or_action = transitioned, or_isDuplicate = False\<rparr>, st'))) st))))"

definition getByActionId ::
  "(string \<Rightarrow> bool) \<Rightarrow> string \<Rightarrow> string \<Rightarrow> external_actions \<Rightarrow> externalActionRecord option result" where
  "getByActionId is_uuid tenantId actionId st =
     (if is_uuid tenantId \<and> actionIdSchema_ok actionId
      then Inr (find_existing (ea_actions st) (colon_key tenantId actionId)) else Inl ZodError)"

definition listEvents ::
  "string \<Rightarrow> string \<Rightarrow> external_actions \<Rightarrow> externalActionEventRecord list result" where
  "listEvents tenantId actionId st =
     and_then (action_find tenantId actionId None st) (\<lambda>action. Inr (events_of st (ac_id action)))"

end
