(* ===== verification/ActionHistory.thy ===== *)
theory ActionHistory
  imports ExternalActions
begin

text \<open>
  What the external-action repository keeps: the consistency of an action's fields with its state, the
  completeness of its ledger, exclusive dispatch leases, callbacks that apply once, and requests that are
  safe to repeat. Histories are steps of \<open>ea_step\<close>, labelled with the time an operation works at and the
  lease owner it acts for (none for requests and callbacks).

  The publisher may consume events of the outbox between any two operations (\<open>by_consumption\<close>).
  Identifiers come from a sequence that is printed with twelve digits, so histories are considered up to
  that many identifiers (\<open>room\<close>); \<open>sequence_uuids\<close> says that the printed identifiers are UUIDs.
\<close>

section \<open>Identifiers\<close>

definition sequence_uuids :: "(string \<Rightarrow> bool) \<Rightarrow> bool" where
  "sequence_uuids is_uuid \<longleftrightarrow> (\<forall>n < 1000000000000. is_uuid (action_newId n))"

definition room :: "external_actions \<Rightarrow> bool" where
  "room st \<longleftrightarrow> ea_sequence st + 2 < 1000000000000"

lemma sequence_uuids_room:
  assumes "sequence_uuids is_uuid" and "room st"
  shows "is_uuid (action_newId (Suc (ea_sequence st)))" "is_uuid (action_newId (Suc (Suc (ea_sequence st))))"
  using assms by (simp_all add: sequence_uuids_def room_def)

lemma js_Number_zeros: "js_Number (replicate k CHR ''0'' @ s) = js_Number s"
proof -
  have "digit_value CHR ''0'' = 0" by (simp add: digit_value_def)
  then have "foldl (\<lambda>n c. 10 * n + digit_value c) 0 (replicate k CHR ''0'') = 0" by (induction k) simp_all
  then show ?thesis by (simp add: js_Number_def)
qed

lemma action_newId_inject [simp]: "action_newId m = action_newId n \<longleftrightarrow> m = n"
proof
  assume "action_newId m = action_newId n"
  then have "js_Number (padStart 12 CHR ''0'' (show_nat m)) = js_Number (padStart 12 CHR ''0'' (show_nat n))"
    by (simp add: action_newId_def)
  then show "m = n" by (simp add: padStart_def js_Number_zeros)
qed simp

lemma action_newId_nonempty [simp]: "action_newId n \<noteq> []"
  by (simp add: action_newId_def)

lemma sequence_uuids_hex_id: "sequence_uuids hex_id"
proof -
  define hex where "hex c \<longleftrightarrow> c \<in> set ''0123456789abcdefABCDEF-''" for c
  have zero: "hex CHR ''0''" "list_all hex ''00000000-0000-4000-8000-''" by (simp_all add: hex_def)
  have "set ''0123456789'' \<subseteq> Collect hex" by (simp add: hex_def)
  then have "list_all hex (show_nat n)" for n
    using show_nat_digits [of n] by (auto simp only: list_all_iff mem_Collect_eq dest!: subsetD)
  then have "list_all hex (action_newId n)" for n
    using zero unfolding action_newId_def padStart_def by (simp only: list_all_append) (simp add: list_all_iff)
  then have "list_all (\<lambda>c. c \<in> set ''0123456789abcdefABCDEF-'') (action_newId n)" for n
    unfolding hex_def .
  then show ?thesis by (simp add: sequence_uuids_def hex_id_def)
qed

section \<open>Consistency of an action and completeness of its ledger\<close>

abbreviation action_key :: "externalActionRecord \<Rightarrow> string" where
  "action_key a \<equiv> colon_key (ac_tenantId a) (ac_actionId a)"

abbreviation replay_key :: "externalActionRecord \<Rightarrow> string" where
  "replay_key a \<equiv> colon_key (ac_tenantId a) (ac_idempotencyKey a)"

definition action_consistent :: "externalActionRecord \<Rightarrow> bool" where
  "action_consistent a \<longleftrightarrow>
     (ac_dispatchLeaseOwner a \<noteq> None \<longleftrightarrow> ac_state a = EaDispatching) \<and>
     (ac_dispatchLeaseExpiresAt a \<noteq> None \<longleftrightarrow> ac_state a = EaDispatching) \<and>
     (ac_nextRetryAt a \<noteq> None \<longleftrightarrow> ac_state a = EaRetryScheduled) \<and>
     (ac_state a = EaRequested \<longrightarrow> ac_dispatchAttempts a = 0) \<and>
     (ac_state a \<in> {EaDispatching, EaRetryScheduled, EaDispatched} \<longrightarrow> 1 \<le> ac_dispatchAttempts a) \<and>
     (ac_outcomeReceivedAt a \<noteq> None \<longrightarrow> ac_state a \<in> {EaCompleted, EaFailed}) \<and>
     (ac_state a = EaCompleted \<longrightarrow> ac_outcomeReceivedAt a \<noteq> None \<and> ac_lastErrorCode a = None) \<and>
     (ac_state a = EaFailed \<longrightarrow> ac_lastErrorCode a \<noteq> None \<and> ac_lastErrorMessage a \<noteq> None)"

definition action_good :: "(string \<Rightarrow> bool) \<Rightarrow> externalActionRecord \<Rightarrow> bool" where
  "action_good is_uuid a \<longleftrightarrow> externalActionRecord_ok is_uuid a \<and> action_consistent a"

definition event_keys :: "external_actions \<Rightarrow> string \<Rightarrow> string set" where
  "event_keys st i = av_eventKey ` set (events_of st i)"

lemma has_event_keys: "has_event st i k \<longleftrightarrow> k \<in> event_keys st i"
  by (auto simp: has_event_def event_keys_def list_ex_iff)

definition attempt_key :: "nat \<Rightarrow> string" where
  "attempt_key n = ''dispatch_started:'' @ show_integer (of_nat n)"

definition ledger_ok :: "externalActionRecord \<Rightarrow> externalActionEventRecord list \<Rightarrow> bool" where
  "ledger_ok a es \<longleftrightarrow>
     distinct (map av_eventKey es) \<and>
     (\<forall>e \<in> set es. av_externalActionId e = ac_id a \<and> av_tenantId e = ac_tenantId a) \<and>
     ''requested:'' @ ac_idempotencyKey a \<in> av_eventKey ` set es \<and>
     (\<forall>n. 1 \<le> n \<and> of_nat n \<le> ac_dispatchAttempts a \<longrightarrow> attempt_key n \<in> av_eventKey ` set es) \<and>
     (ac_outcomeReceivedAt a \<noteq> None \<longleftrightarrow> (\<exists>c. callback_key c \<in> av_eventKey ` set es)) \<and>
     (\<forall>c c'. callback_key c \<in> av_eventKey ` set es \<longrightarrow> callback_key c' \<in> av_eventKey ` set es \<longrightarrow> c = c')"

definition ea_inv :: "(string \<Rightarrow> bool) \<Rightarrow> external_actions \<Rightarrow> bool" where
  "ea_inv is_uuid st \<longleftrightarrow>
     store_ok ac_id action_key (action_good is_uuid) (ea_actions st) \<and>
     outbox_inv is_uuid (ea_outbox st) \<and>
     (\<forall>i a. action_by_id st i = Some a \<longrightarrow>
        (\<exists>n \<le> ea_sequence st. i = action_newId n) \<and> map_of (ea_idempotencyIndex st) (replay_key a) = Some i \<and>
        ledger_ok a (events_of st i)) \<and>
     (\<forall>k i. map_of (ea_idempotencyIndex st) k = Some i \<longrightarrow> (\<exists>a. action_by_id st i = Some a \<and> replay_key a = k)) \<and>
     (\<forall>i. action_by_id st i = None \<longrightarrow> events_of st i = [])"

lemma ea_inv_empty: "ea_inv is_uuid empty_external_actions"
  by (simp add: ea_inv_def empty_external_actions_def outbox_inv_empty events_of_def)
    (simp add: empty_store_def)

lemma ea_invD:
  assumes "ea_inv is_uuid st"
  shows "store_ok ac_id action_key (action_good is_uuid) (ea_actions st)" "outbox_inv is_uuid (ea_outbox st)"
  using assms by (simp_all add: ea_inv_def)

lemma ea_inv_action:
  assumes "ea_inv is_uuid st" and "action_by_id st i = Some a"
  shows "ac_id a = i" "action_good is_uuid a" "i \<noteq> []" "ledger_ok a (events_of st i)"
    "map_of (ea_idempotencyIndex st) (replay_key a) = Some i" "\<exists>n \<le> ea_sequence st. i = action_newId n"
  using store_okD [OF ea_invD(1) [OF assms(1)] assms(2)] assms by (simp_all add: ea_inv_def)

lemma ea_inv_replay:
  "ea_inv is_uuid st \<Longrightarrow> map_of (ea_idempotencyIndex st) k = Some i \<Longrightarrow>
     \<exists>a. action_by_id st i = Some a \<and> replay_key a = k"
  unfolding ea_inv_def by blast

lemma ea_inv_fresh:
  assumes "ea_inv is_uuid st"
  shows "action_by_id st (action_newId (Suc (ea_sequence st))) = None"
    "events_of st (action_newId (Suc (ea_sequence st))) = []"
proof -
  show "action_by_id st (action_newId (Suc (ea_sequence st))) = None"
    using ea_inv_action(6) [OF assms] by (metis Suc_n_not_le_n action_newId_inject not_Some_eq)
  with assms show "events_of st (action_newId (Suc (ea_sequence st))) = []" by (simp add: ea_inv_def)
qed

section \<open>What an operation writes\<close>

lemma append_succeeds:
  assumes "is_uuid (action_newId (Suc (ea_sequence st)))" and "is_uuid (ac_id a)" and "is_uuid (ac_tenantId a)"
    and "key \<noteq> []" and "ty \<noteq> []"
  shows "\<exists>st'. action_appendEvent is_uuid a key ty p now st = (Inr (), st') \<and>
    ea_actions st' = ea_actions st \<and> ea_idempotencyIndex st' = ea_idempotencyIndex st \<and>
    ea_outbox st' = ea_outbox st \<and> ea_sequence st \<le> ea_sequence st' \<and> ea_sequence st' \<le> Suc (ea_sequence st) \<and>
    (\<forall>j. j \<noteq> ac_id a \<longrightarrow> events_of st' j = events_of st j) \<and>
    (if has_event st (ac_id a) key then events_of st' (ac_id a) = events_of st (ac_id a)
     else \<exists>e. events_of st' (ac_id a) = events_of st (ac_id a) @ [e] \<and> av_eventKey e = key \<and>
        av_externalActionId e = ac_id a \<and> av_tenantId e = ac_tenantId a)"
proof (cases "has_event st (ac_id a) key")
  case True
  then show ?thesis by (simp add: action_appendEvent_def)
next
  case False
  with assms show ?thesis
    by (simp add: action_appendEvent_def externalActionEventRecordSchema_parse_def zod_parse_def
        externalActionEventRecord_ok_def Let_def events_of_def update_conv)
qed

lemma enqueue_succeeds:
  assumes "outbox_inv is_uuid (ea_outbox st)" and "enqueueOutboxEvent_ok is_uuid c"
  shows "\<exists>e ob. action_enqueue is_uuid c now st = (Inr e, st\<lparr>ea_outbox := ob\<rparr>) \<and> outbox_inv is_uuid ob \<and>
    find_existing (ob_events ob) (command_key c) = Some e \<and>
    (\<forall>k x. find_existing (ob_events (ea_outbox st)) k = Some x \<longrightarrow> find_existing (ob_events ob) k = Some x)"
proof -
  obtain e ob where e: "outbox_enqueue is_uuid c now (ea_outbox st) = Inr (e, ob)" "outbox_inv is_uuid ob"
      "find_existing (ob_events ob) (command_key c) = Some e"
    using enqueue_valid_succeeds [OF assms] by blast
  with enqueue_keeps_filed [OF assms(1) e(1)] show ?thesis
    by (intro exI [of _ e] exI [of _ ob]) (simp add: action_enqueue_def)
qed

text \<open>The outbox after an operation: sound, with everything filed before and the given commands.\<close>

definition announced ::
  "(string \<Rightarrow> bool) \<Rightarrow> enqueueOutboxEvent list \<Rightarrow> external_actions \<Rightarrow> external_actions \<Rightarrow> bool" where
  "announced is_uuid cs st st' \<longleftrightarrow>
     st' = st\<lparr>ea_outbox := ea_outbox st'\<rparr> \<and> outbox_inv is_uuid (ea_outbox st') \<and>
     (\<forall>k x. find_existing (ob_events (ea_outbox st)) k = Some x \<longrightarrow>
        find_existing (ob_events (ea_outbox st')) k = Some x) \<and>
     list_all (\<lambda>c. find_existing (ob_events (ea_outbox st')) (command_key c) \<noteq> None) cs"

lemma announced_Nil: "outbox_inv is_uuid (ea_outbox st) \<Longrightarrow> announced is_uuid [] st st"
  by (simp add: announced_def)

lemma announced_append:
  assumes "announced is_uuid cs st st1" and "announced is_uuid cs' st1 st2"
  shows "announced is_uuid (cs @ cs') st st2"
proof -
  have "st2 = (st\<lparr>ea_outbox := ea_outbox st1\<rparr>)\<lparr>ea_outbox := ea_outbox st2\<rparr>"
    using assms unfolding announced_def by metis
  then have "st2 = st\<lparr>ea_outbox := ea_outbox st2\<rparr>" by simp
  moreover have "list_all (\<lambda>c. find_existing (ob_events (ea_outbox st2)) (command_key c) \<noteq> None) cs"
    using assms unfolding announced_def list_all_iff by blast
  ultimately show ?thesis using assms unfolding announced_def list_all_append by blast
qed

lemma announce_command:
  assumes "outbox_inv is_uuid (ea_outbox st)" and "enqueueOutboxEvent_ok is_uuid c"
  obtains e st' where "action_enqueue is_uuid c now st = (Inr e, st')" "announced is_uuid [c] st st'"
    "find_existing (ob_events (ea_outbox st')) (command_key c) = Some e"
proof -
  from enqueue_succeeds [OF assms, of now] obtain e ob where
    "action_enqueue is_uuid c now st = (Inr e, st\<lparr>ea_outbox := ob\<rparr>)" "outbox_inv is_uuid ob"
    "find_existing (ob_events ob) (command_key c) = Some e"
    "\<forall>k x. find_existing (ob_events (ea_outbox st)) k = Some x \<longrightarrow> find_existing (ob_events ob) k = Some x"
    by blast
  then show thesis by (intro that [of e "st\<lparr>ea_outbox := ob\<rparr>"]) (simp_all add: announced_def)
qed

text \<open>A computation that only announces: it cannot fail on a sound outbox and touches nothing else.\<close>

definition announces ::
  "(string \<Rightarrow> bool) \<Rightarrow> enqueueOutboxEvent list \<Rightarrow> (external_actions \<Rightarrow> 'a action_result) \<Rightarrow> 'a \<Rightarrow> bool" where
  "announces is_uuid cs m r \<longleftrightarrow>
     (\<forall>u :: external_actions. outbox_inv is_uuid (ea_outbox u) \<longrightarrow> (\<exists>u'. m u = (Inr r, u') \<and> announced is_uuid cs u u'))"

lemma announces_return: "announces is_uuid [] (\<lambda>st. (Inr r, st)) r"
  by (simp add: announces_def announced_Nil)

lemma announces_then:
  assumes "announces is_uuid cs m v" and "announces is_uuid cs' (f v) r"
  shows "announces is_uuid (cs @ cs') (then_do m f) r"
  unfolding announces_def
proof (intro allI impI)
  fix u :: external_actions
  assume "outbox_inv is_uuid (ea_outbox u)"
  with assms(1) obtain u1 where u1: "m u = (Inr v, u1)" "announced is_uuid cs u u1"
    by (auto simp: announces_def)
  from u1(2) have "outbox_inv is_uuid (ea_outbox u1)" unfolding announced_def by blast
  with assms(2) obtain u2 where u2: "f v u1 = (Inr r, u2)" "announced is_uuid cs' u1 u2"
    by (auto simp: announces_def)
  from announced_append [OF u1(2) u2(2)] u1(1) u2(1)
  show "\<exists>u'. then_do m f u = (Inr r, u') \<and> announced is_uuid (cs @ cs') u u'" by (auto simp: then_do_Inr)
qed

lemma announces_enqueue:
  assumes "enqueueOutboxEvent_ok is_uuid c"
  shows "announces is_uuid [c] (then_do (action_enqueue is_uuid c now) (\<lambda>_ st. (Inr (), st))) ()"
  unfolding announces_def
proof (intro allI impI)
  fix u :: external_actions
  assume "outbox_inv is_uuid (ea_outbox u)"
  from announce_command [OF this assms, of now] obtain e u' where
    "action_enqueue is_uuid c now u = (Inr e, u')" "announced is_uuid [c] u u'" by metis
  then show "\<exists>u'. then_do (action_enqueue is_uuid c now) (\<lambda>_ st. (Inr (), st)) u = (Inr (), u') \<and>
      announced is_uuid [c] u u'" by (auto simp: then_do_Inr)
qed

definition lifecycle_command :: "externalActionRecord \<Rightarrow> string \<Rightarrow> string \<Rightarrow> json_record \<Rightarrow> enqueueOutboxEvent" where
  "lifecycle_command a ty key extra =
     \<lparr>oc_tenantId = ac_tenantId a, oc_eventType = ty, oc_idempotencyKey = key,
      oc_payload = lifecyclePayload a extra\<rparr>"

definition incident_command :: "externalActionRecord \<Rightarrow> failurePhase \<Rightarrow> enqueueOutboxEvent" where
  "incident_command a phase =
     \<lparr>oc_tenantId = ac_tenantId a, oc_eventType = ''incident.opened.v1'',
      oc_idempotencyKey = ''external-action-failure:'' @ ac_id a, oc_payload = failureIncidentPayload a phase\<rparr>"

lemma announces_lifecycle:
  assumes "is_uuid (ac_tenantId a)" and "outboxEventType_ok ty" and "key \<noteq> []"
  shows "announces is_uuid [lifecycle_command a ty key extra] (emitLifecycle is_uuid a ty key extra now) ()"
  unfolding emitLifecycle_def lifecycle_command_def
  by (rule announces_enqueue) (use assms in \<open>simp add: enqueueOutboxEvent_ok_def\<close>)

lemma action_event_types [simp]:
  "outboxEventType_ok ''incident.opened.v1''" "outboxEventType_ok ''external_action.dispatched.v1''"
  "outboxEventType_ok ''external_action.retry_scheduled.v1''" "outboxEventType_ok ''external_action.failed.v1''"
  "outboxEventType_ok ''external_action.completed.v1''" "outboxEventType_ok externalActionOutboxEventType"
  by code_simp+

lemma announces_incident:
  assumes "is_uuid (ac_tenantId a)"
  shows "announces is_uuid [incident_command a phase] (emitFailureIncident is_uuid a phase now) ()"
  unfolding emitFailureIncident_def incident_command_def
  by (rule announces_enqueue) (use assms in \<open>simp add: enqueueOutboxEvent_ok_def\<close>)

text \<open>
  A change of one action: the record is replaced, one event is appended to its ledger unless an event
  with that key is there, and the commands are on the outbox.
\<close>

definition changed ::
  "(string \<Rightarrow> bool) \<Rightarrow> enqueueOutboxEvent list \<Rightarrow> string \<Rightarrow> externalActionRecord \<Rightarrow>
   external_actions \<Rightarrow> external_actions \<Rightarrow> bool" where
  "changed is_uuid cs key a st st' \<longleftrightarrow>
     ea_actions st' = put_record (ac_id a) a (ea_actions st) \<and>
     ea_idempotencyIndex st' = ea_idempotencyIndex st \<and> ea_sequence st \<le> ea_sequence st' \<and>
     ea_sequence st' \<le> Suc (ea_sequence st) \<and> outbox_inv is_uuid (ea_outbox st') \<and>
     (\<forall>k x. find_existing (ob_events (ea_outbox st)) k = Some x \<longrightarrow>
        find_existing (ob_events (ea_outbox st')) k = Some x) \<and>
     list_all (\<lambda>c. find_existing (ob_events (ea_outbox st')) (command_key c) \<noteq> None) cs \<and>
     (\<forall>j. j \<noteq> ac_id a \<longrightarrow> events_of st' j = events_of st j) \<and>
     (if has_event st (ac_id a) key then events_of st' (ac_id a) = events_of st (ac_id a)
      else \<exists>e. events_of st' (ac_id a) = events_of st (ac_id a) @ [e] \<and> av_eventKey e = key \<and>
         av_externalActionId e = ac_id a \<and> av_tenantId e = ac_tenantId a)"

lemma change_succeeds:
  assumes "outbox_inv is_uuid (ea_outbox st)" and "sequence_uuids is_uuid" and "room st"
    and "is_uuid (ac_id a)" and "is_uuid (ac_tenantId a)" and "key \<noteq> []" and "ty \<noteq> []"
    and "announces is_uuid cs rest r"
  shows "\<exists>st'. write_action is_uuid a key ty details now rest st = (Inr r, st') \<and>
    changed is_uuid cs key a st st'"
proof -
  have save: "ea_sequence (action_save a st) = ea_sequence st" "events_of (action_save a st) = events_of st"
    "ea_outbox (action_save a st) = ea_outbox st" "has_event (action_save a st) = has_event st"
    by (auto simp: action_save_def events_of_def has_event_def fun_eq_iff)
  obtain st1 where st1: "action_appendEvent is_uuid a key ty (transitionEventPayload a ty details) now
        (action_save a st) = (Inr (), st1)"
      "ea_actions st1 = ea_actions (action_save a st)" "ea_idempotencyIndex st1 = ea_idempotencyIndex (action_save a st)"
      "ea_outbox st1 = ea_outbox st" "ea_sequence st \<le> ea_sequence st1 \<and> ea_sequence st1 \<le> Suc (ea_sequence st)"
      "\<forall>j. j \<noteq> ac_id a \<longrightarrow> events_of st1 j = events_of st j"
      "if has_event st (ac_id a) key then events_of st1 (ac_id a) = events_of st (ac_id a)
       else \<exists>e. events_of st1 (ac_id a) = events_of st (ac_id a) @ [e] \<and> av_eventKey e = key \<and>
         av_externalActionId e = ac_id a \<and> av_tenantId e = ac_tenantId a"
    using append_succeeds [of is_uuid "action_save a st" a key ty "transitionEventPayload a ty details" now] sequence_uuids_room [OF assms(2,3)]
      assms(4-7) unfolding save by blast
  have "outbox_inv is_uuid (ea_outbox st1)" using assms(1) st1(4) by simp
  with assms(8) obtain st2 where st2: "rest st1 = (Inr r, st2)" "announced is_uuid cs st1 st2"
    by (auto simp: announces_def)
  define ob where "ob = ea_outbox st2"
  from st2(2) have eq: "st2 = st1\<lparr>ea_outbox := ob\<rparr>" unfolding announced_def ob_def by blast
  then have "events_of st2 = events_of st1" by (simp add: events_of_def fun_eq_iff)
  moreover have "ea_actions st1 = put_record (ac_id a) a (ea_actions st)"
    "ea_idempotencyIndex st1 = ea_idempotencyIndex st" using st1(2,3) by (simp_all add: action_save_def)
  moreover have "outbox_inv is_uuid ob"
    "\<forall>k x. find_existing (ob_events (ea_outbox st)) k = Some x \<longrightarrow> find_existing (ob_events ob) k = Some x"
    "list_all (\<lambda>c. find_existing (ob_events ob) (command_key c) \<noteq> None) cs"
    using st2(2) st1(4) unfolding announced_def ob_def by simp_all
  ultimately have "changed is_uuid cs key a st st2"
    using st1(5-7) unfolding changed_def by (simp add: eq)
  with st1(1) st2(1) show ?thesis by (auto simp: write_action_def then_do_Inr)
qed

section \<open>Looking an action up\<close>

lemma action_find_Inr:
  assumes "ea_inv is_uuid st"
  shows "action_find t i (Some k) st = Inr a \<longleftrightarrow>
    action_by_id st (ac_id a) = Some a \<and> action_key a = colon_key t i \<and> (k = [] \<or> k = ac_idempotencyKey a)"
proof -
  have "action_find t i (Some k) st = Inr a \<longleftrightarrow>
      find_existing (ea_actions st) (colon_key t i) = Some a \<and> (k = [] \<or> k = ac_idempotencyKey a)"
    by (auto simp: action_find_def split: option.splits)
  then show ?thesis by (simp add: find_existing_Some [OF ea_invD(1) [OF assms]])
qed

lemma action_find_cases:
  "action_find t i k st = Inl (ExternalActionNotFoundError i) \<or> (\<exists>a. action_find t i k st = Inr a)"
  by (auto simp: action_find_def split: option.splits)

lemma good_uuids:
  assumes "ea_inv is_uuid st" and "action_by_id st i = Some a"
  shows "is_uuid (ac_id a)" "is_uuid (ac_tenantId a)"
  using ea_inv_action(2) [OF assms] by (simp_all add: action_good_def externalActionRecord_ok_def)

section \<open>The lifecycle of one action\<close>

text \<open>
  \<open>action_change now actor key a a'\<close>: the changes an action can go through, at a time, on behalf of a
  lease owner or, with no actor, of a callback; \<open>key\<close> is the ledger key of the change.
\<close>

inductive action_change ::
  "date \<Rightarrow> string option \<Rightarrow> string \<Rightarrow> externalActionRecord \<Rightarrow> externalActionRecord \<Rightarrow> bool" for now where
  was_claimed: "\<not> isSettled (ac_state a) \<Longrightarrow>
    \<not> (ac_state a = EaRetryScheduled \<and> later_than (ac_nextRetryAt a) now) \<Longrightarrow>
    \<not> (ac_state a = EaDispatching \<and> later_than (ac_dispatchLeaseExpiresAt a) now) \<Longrightarrow>
    action_change now (Some (di_leaseOwner input))
      (''dispatch_started:'' @ show_integer (ac_dispatchAttempts a + 1)) a (claimed_action input now a)"
| was_accepted: "ac_state a = EaDispatching \<Longrightarrow> ac_dispatchLeaseOwner a = Some w \<Longrightarrow>
    action_change now (Some w) (''dispatch_accepted:'' @ show_integer (ac_dispatchAttempts a)) a
      (accepted_action receipt now a)"
| was_retried: "ac_state a = EaDispatching \<Longrightarrow> ac_dispatchLeaseOwner a = Some w \<Longrightarrow>
    action_change now (Some w) (''dispatch_retry_scheduled:'' @ show_integer (ac_dispatchAttempts a)) a
      (retry_action ms code msg now a)"
| was_failed: "ac_state a = EaDispatching \<Longrightarrow> ac_dispatchLeaseOwner a = Some w \<Longrightarrow>
    action_change now (Some w) (''dispatch_failed:'' @ show_integer (ac_dispatchAttempts a)) a
      (failed_action code msg now a)"
| was_finished: "ac_state a \<noteq> EaCompleted \<Longrightarrow> ac_state a \<noteq> EaFailed \<Longrightarrow>
    action_change now None (callback_key (ro_callbackId input)) a (outcome_action input now a)"

lemmas moved_defs = claimed_action_def accepted_action_def retry_action_def failed_action_def
  outcome_action_def Let_def

definition action_identity ::
  "externalActionRecord \<Rightarrow> (string \<times> string \<times> string \<times> string) \<times> (string \<times> string \<times> string) \<times> json_record \<times> date" where
  "action_identity a =
     ((ac_id a, ac_tenantId a, ac_actionId a, ac_idempotencyKey a),
      (ac_requestDigest a, ac_actionType a, ac_approvedBy a), ac_requestPayload a, ac_createdAt a)"

definition action_transitions :: "externalActionState \<Rightarrow> externalActionState list" where
  "action_transitions s =
     (case s of
        EaRequested \<Rightarrow> [EaDispatching, EaCompleted, EaFailed]
      | EaDispatching \<Rightarrow> [EaDispatching, EaDispatched, EaRetryScheduled, EaCompleted, EaFailed]
      | EaRetryScheduled \<Rightarrow> [EaDispatching, EaCompleted, EaFailed]
      | EaDispatched \<Rightarrow> [EaCompleted, EaFailed]
      | _ \<Rightarrow> [])"

lemma change_facts:
  assumes "action_change now actor key a a'"
  shows "ac_id a' = ac_id a" "ac_tenantId a' = ac_tenantId a" "action_key a' = action_key a"
    "replay_key a' = replay_key a" "action_identity a' = action_identity a" "key \<noteq> []"
    "ac_state a' \<in> set (action_transitions (ac_state a))"
    "ac_dispatchAttempts a' = ac_dispatchAttempts a \<or>
       ac_dispatchAttempts a' = ac_dispatchAttempts a + 1 \<and> key = ''dispatch_started:'' @ show_integer (ac_dispatchAttempts a')"
  using assms
  by (induction rule: action_change.induct)
    (auto simp: moved_defs action_identity_def callback_key_def action_transitions_def isSettled_def
      split: externalActionState.splits)

lemma change_good:
  assumes "action_change now actor key a a'" and "action_good is_uuid a"
  shows "action_good is_uuid a'"
proof -
  have ok: "externalActionRecord_ok is_uuid a" "action_consistent a"
    using assms(2) by (simp_all add: action_good_def)
  have attempts: "is_nonnegative_int (ac_dispatchAttempts a)"
    using ok(1) by (simp add: externalActionRecord_ok_def)
  then have "is_nonnegative_int (ac_dispatchAttempts a + 1)" by (simp add: is_nonnegative_int_def)
  with assms(1) ok(1) have "externalActionRecord_ok is_uuid a'"
    by (induction rule: action_change.induct) (simp_all add: externalActionRecord_ok_def moved_defs)
  moreover have "0 \<le> ac_dispatchAttempts a" using attempts by (simp add: is_nonnegative_int_def)
  with assms(1) ok(2) have "action_consistent a'"
    by (induction rule: action_change.induct)
      (auto simp: action_consistent_def moved_defs isSettled_def)
  ultimately show ?thesis by (simp add: action_good_def)
qed

text \<open>Only a claim, by anybody, once the lease is over, or the owner, or a callback moves a leased action.\<close>

lemma lease_locks:
  assumes "action_change now actor key a a'" and "ac_state a = EaDispatching"
    and "later_than (ac_dispatchLeaseExpiresAt a) now"
  shows "actor = None \<or> actor = ac_dispatchLeaseOwner a"
  using assms by cases auto

section \<open>What each operation does\<close>

lemma validateDispatchIdentity_Inr:
  "validateDispatchIdentity is_uuid input = Inr u \<longleftrightarrow>
     is_uuid (di_tenantId input) \<and> actionIdSchema_ok (di_actionId input) \<and>
     idempotencyKeySchema_ok (di_idempotencyKey input)"
  by (simp add: validateDispatchIdentity_def)

lemma show_integer_attempts: "show_integer (ac_dispatchAttempts (claimed_action input now a)) =
    show_integer (ac_dispatchAttempts a + 1)"
  by (simp add: claimed_action_def)

lemma dispatch_claim_effect:
  assumes "ea_inv is_uuid st" and "sequence_uuids is_uuid" and "room st"
    and "claimDispatch is_uuid clock input st = (x, st')"
  obtains (same) "st' = st" "\<And>c. x \<noteq> Inr (Claimed c)"
  | (moved) a a' key where "action_by_id st (ac_id a) = Some a"
      "action_key a = colon_key (di_tenantId input) (di_actionId input)"
      "a' = claimed_action input (nullish_or (di_now input) (clock 0)) a"
      "x = Inr (Claimed a')"
      "action_change (nullish_or (di_now input) (clock 0)) (Some (di_leaseOwner input)) key a a'"
      "changed is_uuid [] key a' st st'"
proof (cases "validateDispatchIdentity is_uuid input")
  case (Inl e)
  with assms(4) same show ?thesis by (auto simp: claimDispatch_def)
next
  case valid: (Inr u)
  show ?thesis
  proof (cases "action_find (di_tenantId input) (di_actionId input) (Some (di_idempotencyKey input)) st")
    case (Inl e)
    with valid assms(4) same show ?thesis by (auto simp: claimDispatch_def split: if_splits)
  next
    case (Inr a)
    define now where "now = nullish_or (di_now input) (clock 0)"
    define a' where "a' = claimed_action input now a"
    have a: "action_by_id st (ac_id a) = Some a" "action_key a = colon_key (di_tenantId input) (di_actionId input)"
      using Inr action_find_Inr [OF assms(1)] by blast+
    show ?thesis
    proof (cases "di_leaseOwner input = [] \<or> cd_leaseDurationMs input \<le> 0 \<or> isSettled (ac_state a) \<or>
        ac_state a = EaRetryScheduled \<and> later_than (ac_nextRetryAt a) now \<or>
        ac_state a = EaDispatching \<and> later_than (ac_dispatchLeaseExpiresAt a) now")
      case True
      with Inr valid assms(4) same show ?thesis by (auto simp: claimDispatch_def now_def Let_def split: if_splits)
    next
      case False
      define key where "key = ''dispatch_started:'' @ show_integer (ac_dispatchAttempts a + 1)"
      have ch: "action_change now (Some (di_leaseOwner input)) key a a'"
        unfolding key_def a'_def by (rule was_claimed) (use False in auto)
      have uu: "is_uuid (ac_id a')" "is_uuid (ac_tenantId a')"
        using good_uuids [OF assms(1) a(1)] change_facts(1,2) [OF ch] by simp_all
      have "\<exists>st2. write_action is_uuid a' key ''dispatch_started'' [] (clock 1) (\<lambda>st'. (Inr (Claimed a'), st')) st =
            (Inr (Claimed a'), st2) \<and> changed is_uuid [] key a' st st2"
        by (rule change_succeeds [OF ea_invD(2) [OF assms(1)] assms(2,3) uu])
          (simp_all add: key_def announces_return)
      moreover have "claimDispatch is_uuid clock input st =
          write_action is_uuid a' key ''dispatch_started'' [] (clock 1) (\<lambda>st'. (Inr (Claimed a'), st')) st"
        using Inr valid False unfolding a'_def key_def now_def
        by (auto simp: claimDispatch_def Let_def show_integer_attempts)
      ultimately have "x = Inr (Claimed a')" "changed is_uuid [] key a' st st'" using assms(4) by auto
      then show ?thesis using moved [of a a' key] a ch by (simp add: a'_def now_def)
    qed
  qed
qed

text \<open>The three reports differ in the record they write, the event and the commands.\<close>

lemma report_cases:
  assumes "ea_inv is_uuid st" and "report_dispatch is_uuid what input report st = (x, st')"
  obtains (same) "st' = st" "\<And>r. x = Inr r \<Longrightarrow> isSettled (ac_state r) \<and> action_by_id st (ac_id r) = Some r \<and>
      action_key r = colon_key (di_tenantId input) (di_actionId input)"
  | (moved) a where "action_by_id st (ac_id a) = Some a"
      "action_key a = colon_key (di_tenantId input) (di_actionId input)" "ac_state a = EaDispatching"
      "ac_dispatchLeaseOwner a = Some (di_leaseOwner input)" "report a st = (x, st')"
proof (cases "action_find (di_tenantId input) (di_actionId input) (Some (di_idempotencyKey input)) st")
  case (Inl e)
  with assms(2) have "st' = st" "x = Inl e" by (simp_all add: report_dispatch_def)
  with same show ?thesis by simp
next
  case (Inr a)
  have a: "action_by_id st (ac_id a) = Some a" "action_key a = colon_key (di_tenantId input) (di_actionId input)"
    using Inr action_find_Inr [OF assms(1)] by blast+
  consider (settled) "isSettled (ac_state a)"
    | (refused) "\<not> isSettled (ac_state a)"
        "ac_state a \<noteq> EaDispatching \<or> ac_dispatchLeaseOwner a \<noteq> Some (di_leaseOwner input)"
    | (owned) "\<not> isSettled (ac_state a)" "ac_state a = EaDispatching"
        "ac_dispatchLeaseOwner a = Some (di_leaseOwner input)" by blast
  then show ?thesis
  proof cases
    case settled
    with Inr assms(2) have "st' = st" "x = Inr a" by (simp_all add: report_dispatch_def)
    with same a settled show ?thesis by simp
  next
    case refused
    with Inr assms(2) have "st' = st" "x = Inl (not_dispatching what a)" by (simp_all add: report_dispatch_def)
    with same show ?thesis by simp
  next
    case owned
    with Inr assms(2) have "report a st = (x, st')" by (simp add: report_dispatch_def)
    with moved a owned show ?thesis by blast
  qed
qed

text \<open>
  What a report has done: nothing, as when the action is settled already, or one allowed change of one
  action, with its commands announced.
\<close>

definition reported ::
  "(string \<Rightarrow> bool) \<Rightarrow> date \<Rightarrow> 'a dispatchIdentity_scheme \<Rightarrow> (externalActionRecord \<Rightarrow> externalActionRecord) \<Rightarrow>
   (externalActionRecord \<Rightarrow> enqueueOutboxEvent list) \<Rightarrow> external_actions \<Rightarrow>
   js_error + externalActionRecord \<Rightarrow> external_actions \<Rightarrow> bool" where
  "reported is_uuid now input move commands st x st' \<longleftrightarrow>
     st' = st \<and> (\<forall>r. x = Inr r \<longrightarrow> isSettled (ac_state r) \<and> action_by_id st (ac_id r) = Some r \<and>
        action_key r = colon_key (di_tenantId input) (di_actionId input)) \<or>
     (\<exists>a key. action_by_id st (ac_id a) = Some a \<and>
        action_key a = colon_key (di_tenantId input) (di_actionId input) \<and> x = Inr (move a) \<and>
        action_change now (Some (di_leaseOwner input)) key a (move a) \<and>
        changed is_uuid (commands (move a)) key (move a) st st')"

lemma reported_refused: "reported is_uuid now input move commands st (Inl e) st"
  by (simp add: reported_def)

lemma report_effect:
  assumes "ea_inv is_uuid st" and "sequence_uuids is_uuid" and "room st"
    and "report_dispatch is_uuid what input (\<lambda>action.
       write_action is_uuid (move action) (key (move action)) ty (details (move action)) tm (rest (move action))) st =
         (x, st')"
    and change: "\<And>a. ac_state a = EaDispatching \<Longrightarrow> ac_dispatchLeaseOwner a = Some (di_leaseOwner input) \<Longrightarrow>
       action_change now (Some (di_leaseOwner input)) (key (move a)) a (move a)"
    and rest: "\<And>a. is_uuid (ac_tenantId a) \<Longrightarrow> announces is_uuid (commands a) (rest a) a" and "ty \<noteq> []"
  shows "reported is_uuid now input move commands st x st'"
  using assms(1,4)
proof (cases rule: report_cases)
  case same
  then show ?thesis by (auto simp: reported_def)
next
  case (moved a)
  note ch = change [OF moved(3,4)]
  have uu: "is_uuid (ac_id (move a))" "is_uuid (ac_tenantId (move a))"
    using good_uuids [OF assms(1) moved(1)] change_facts(1,2) [OF ch] by simp_all
  from change_succeeds [OF ea_invD(2) [OF assms(1)] assms(2,3) uu change_facts(6) [OF ch] assms(7) rest [OF uu(2)]]
  obtain st2 where "write_action is_uuid (move a) (key (move a)) ty (details (move a)) tm (rest (move a)) st =
        (Inr (move a), st2)"
      "changed is_uuid (commands (move a)) (key (move a)) (move a) st st2"
    by blast
  with moved ch show ?thesis unfolding reported_def by auto
qed

lemma announces_lifecycle_then:
  assumes "is_uuid (ac_tenantId a)" and "outboxEventType_ok ty" and "key \<noteq> []" and "announces is_uuid cs (f ()) r"
  shows "announces is_uuid (lifecycle_command a ty key extra # cs) (then_do (emitLifecycle is_uuid a ty key extra now) f) r"
  using announces_then [of is_uuid "[lifecycle_command a ty key extra]" "emitLifecycle is_uuid a ty key extra now"
      "()" cs f r] announces_lifecycle [of is_uuid a ty key extra now] assms by simp

lemma announces_incident_then:
  assumes "is_uuid (ac_tenantId a)" and "announces is_uuid cs (f ()) r"
  shows "announces is_uuid (incident_command a phase # cs) (then_do (emitFailureIncident is_uuid a phase now) f) r"
  using announces_then [of is_uuid "[incident_command a phase]" "emitFailureIncident is_uuid a phase now" "()" cs f r]
    announces_incident [of is_uuid a phase now] assms by simp

definition dispatched_commands :: "externalActionRecord \<Rightarrow> enqueueOutboxEvent list" where
  "dispatched_commands a =
     [lifecycle_command a ''external_action.dispatched.v1''
        (''external-action:'' @ ac_id a @ '':dispatched:'' @ show_integer (ac_dispatchAttempts a))
        [(''dispatch_receipt'', JObj (ac_dispatchReceipt a))]]"

definition retry_commands :: "externalActionRecord \<Rightarrow> enqueueOutboxEvent list" where
  "retry_commands a =
     [lifecycle_command a ''external_action.retry_scheduled.v1''
        (''external-action:'' @ ac_id a @ '':retry:'' @ show_integer (ac_dispatchAttempts a))
        (iso_member ''retry_at'' (ac_nextRetryAt a) @ [(''error_code'', json_opt (ac_lastErrorCode a))])]"

definition failed_commands :: "externalActionRecord \<Rightarrow> enqueueOutboxEvent list" where
  "failed_commands a =
     [lifecycle_command a ''external_action.failed.v1'' (''external-action:'' @ ac_id a @ '':failed'')
        [(''phase'', JStr ''dispatch''), (''error_code'', json_opt (ac_lastErrorCode a))],
      incident_command a DispatchPhase]"

lemma accepted_effect:
  assumes "ea_inv is_uuid st" and "sequence_uuids is_uuid" and "room st"
    and "recordDispatchAccepted is_uuid clock input st = (x, st')"
  shows "reported is_uuid (nullish_or (di_now input) (clock 0)) input
    (accepted_action (da_receipt input) (nullish_or (di_now input) (clock 0))) dispatched_commands st x st'"
proof (cases "validateDispatchIdentity is_uuid input")
  case (Inl e)
  with assms(4) have "st' = st" "x = Inl e" by (simp_all add: recordDispatchAccepted_def)
  then show ?thesis by (simp add: reported_refused)
next
  case (Inr u)
  show ?thesis
  proof (rule report_effect [OF assms(1-3), where
        key = "\<lambda>a. ''dispatch_accepted:'' @ show_integer (ac_dispatchAttempts a)" and ty = "''dispatch_accepted''"
        and details = "\<lambda>a. [(''http_status'', JNum (dr_httpStatus (da_receipt input)))]" and tm = "clock 1"
        and what = "''record dispatch receipt''" and
        rest = "\<lambda>a. then_do (emitLifecycle is_uuid a ''external_action.dispatched.v1''
          (''external-action:'' @ ac_id a @ '':dispatched:'' @ show_integer (ac_dispatchAttempts a))
          [(''dispatch_receipt'', JObj (ac_dispatchReceipt a))] (clock 2)) (\<lambda>_ st'. (Inr a, st'))"])
    fix a :: externalActionRecord
    assume *: "ac_state a = EaDispatching" "ac_dispatchLeaseOwner a = Some (di_leaseOwner input)"
    show "action_change (nullish_or (di_now input) (clock 0)) (Some (di_leaseOwner input))
        (''dispatch_accepted:'' @ show_integer (ac_dispatchAttempts
           (accepted_action (da_receipt input) (nullish_or (di_now input) (clock 0)) a))) a
        (accepted_action (da_receipt input) (nullish_or (di_now input) (clock 0)) a)"
      using was_accepted [OF *, of "nullish_or (di_now input) (clock 0)" "da_receipt input"]
      by (simp add: accepted_action_def)
  qed (use assms(4) Inr in \<open>auto simp: recordDispatchAccepted_def Let_def dispatched_commands_def
      intro!: announces_lifecycle_then announces_return\<close>)
qed

lemma retry_effect:
  assumes "ea_inv is_uuid st" and "sequence_uuids is_uuid" and "room st"
    and "scheduleDispatchRetry is_uuid clock input st = (x, st')"
  shows "reported is_uuid (nullish_or (di_now input) (clock 0)) input
    (retry_action (sr_retryAfterMs input) (sr_errorCode input) (sr_errorMessage input)
       (nullish_or (di_now input) (clock 0))) retry_commands st x st'"
proof (cases "isl (validateDispatchIdentity is_uuid input) \<or> sr_retryAfterMs input \<le> 0")
  case True
  with assms(4) have "st' = st \<and> (\<exists>e. x = Inl e)"
    by (cases "validateDispatchIdentity is_uuid input") (auto simp: scheduleDispatchRetry_def)
  then show ?thesis by (auto simp: reported_refused)
next
  case False
  then have Inr: "validateDispatchIdentity is_uuid input = Inr ()" "\<not> sr_retryAfterMs input \<le> 0"
    by (cases "validateDispatchIdentity is_uuid input"; simp)+
  show ?thesis
  proof (rule report_effect [OF assms(1-3), where
        key = "\<lambda>a. ''dispatch_retry_scheduled:'' @ show_integer (ac_dispatchAttempts a)"
        and ty = "''dispatch_retry_scheduled''" and
        details = "\<lambda>a. iso_member ''retry_after'' (ac_nextRetryAt a) @ [(''error_code'', json_opt (ac_lastErrorCode a))]"
        and tm = "clock 1" and what = "''schedule retry''" and
        rest = "\<lambda>a. then_do (emitLifecycle is_uuid a ''external_action.retry_scheduled.v1''
          (''external-action:'' @ ac_id a @ '':retry:'' @ show_integer (ac_dispatchAttempts a))
          (iso_member ''retry_at'' (ac_nextRetryAt a) @ [(''error_code'', json_opt (ac_lastErrorCode a))])
          (clock 2)) (\<lambda>_ st'. (Inr a, st'))"])
    fix a :: externalActionRecord
    assume *: "ac_state a = EaDispatching" "ac_dispatchLeaseOwner a = Some (di_leaseOwner input)"
    show "action_change (nullish_or (di_now input) (clock 0)) (Some (di_leaseOwner input))
        (''dispatch_retry_scheduled:'' @ show_integer (ac_dispatchAttempts (retry_action (sr_retryAfterMs input)
           (sr_errorCode input) (sr_errorMessage input) (nullish_or (di_now input) (clock 0)) a))) a
        (retry_action (sr_retryAfterMs input) (sr_errorCode input) (sr_errorMessage input)
           (nullish_or (di_now input) (clock 0)) a)"
      using was_retried [OF *, of "nullish_or (di_now input) (clock 0)"] by (simp add: retry_action_def)
  qed (use assms(4) Inr in \<open>auto simp: scheduleDispatchRetry_def Let_def retry_commands_def
      intro!: announces_lifecycle_then announces_return\<close>)
qed

lemma failed_effect:
  assumes "ea_inv is_uuid st" and "sequence_uuids is_uuid" and "room st"
    and "failDispatch is_uuid clock input st = (x, st')"
  shows "reported is_uuid (nullish_or (di_now input) (clock 0)) input
    (failed_action (fd_errorCode input) (fd_errorMessage input) (nullish_or (di_now input) (clock 0)))
    failed_commands st x st'"
proof (cases "validateDispatchIdentity is_uuid input")
  case (Inl e)
  with assms(4) have "st' = st" "x = Inl e" by (simp_all add: failDispatch_def)
  then show ?thesis by (simp add: reported_refused)
next
  case (Inr u)
  show ?thesis
  proof (rule report_effect [OF assms(1-3), where
        key = "\<lambda>a. ''dispatch_failed:'' @ show_integer (ac_dispatchAttempts a)" and ty = "''dispatch_failed''"
        and details = "\<lambda>a. [(''error_code'', json_opt (ac_lastErrorCode a))]"
        and tm = "clock 1" and what = "''fail dispatch''" and
        rest = "\<lambda>a. then_do (emitLifecycle is_uuid a ''external_action.failed.v1''
          (''external-action:'' @ ac_id a @ '':failed'')
          [(''phase'', JStr ''dispatch''), (''error_code'', json_opt (ac_lastErrorCode a))] (clock 2)) (\<lambda>_.
          then_do (emitFailureIncident is_uuid a DispatchPhase (clock 3)) (\<lambda>_ st'. (Inr a, st')))"])
    fix a :: externalActionRecord
    assume *: "ac_state a = EaDispatching" "ac_dispatchLeaseOwner a = Some (di_leaseOwner input)"
    show "action_change (nullish_or (di_now input) (clock 0)) (Some (di_leaseOwner input))
        (''dispatch_failed:'' @ show_integer (ac_dispatchAttempts (failed_action (fd_errorCode input)
           (fd_errorMessage input) (nullish_or (di_now input) (clock 0)) a))) a
        (failed_action (fd_errorCode input) (fd_errorMessage input) (nullish_or (di_now input) (clock 0)) a)"
      using was_failed [OF *, of "nullish_or (di_now input) (clock 0)"] by (simp add: failed_action_def)
  qed (use assms(4) Inr in \<open>auto simp: failDispatch_def Let_def failed_commands_def
      intro!: announces_lifecycle_then announces_incident_then announces_return\<close>)
qed

definition outcome_commands :: "recordExternalActionOutcome \<Rightarrow> externalActionRecord \<Rightarrow> enqueueOutboxEvent list" where
  "outcome_commands input a =
     (let completed = (ro_status input = OutcomeCompleted)
      in lifecycle_command a (if completed then ''external_action.completed.v1'' else ''external_action.failed.v1'')
           (''external-action:'' @ ac_id a @ '':'' @ (if completed then ''completed'' else ''failed'') @ '':'' @
              ro_callbackId input)
           ([(''phase'', JStr ''outcome''), (''callback_id'', JStr (ro_callbackId input)),
             (''outcome'', JObj (ac_outcome a))] @ truthy_member ''error_code'' (ac_lastErrorCode a)) #
         (if completed then [] else [incident_command a OutcomePhase]))"

definition with_default_outcome :: "recordExternalActionOutcome \<Rightarrow> recordExternalActionOutcome" where
  "with_default_outcome r = r\<lparr>ro_outcome := Some (nullish_or (ro_outcome r) [])\<rparr>"

lemma with_default_outcome [simp]:
  "outcome_action (with_default_outcome r) = outcome_action r" "ro_callbackId (with_default_outcome r) = ro_callbackId r"
  "ro_tenantId (with_default_outcome r) = ro_tenantId r" "ro_actionId (with_default_outcome r) = ro_actionId r"
  "ro_idempotencyKey (with_default_outcome r) = ro_idempotencyKey r" "ro_status (with_default_outcome r) = ro_status r"
  "ro_occurredAt (with_default_outcome r) = ro_occurredAt r"
  by (simp_all add: with_default_outcome_def outcome_action_def Let_def fun_eq_iff)

lemma outcome_parse_Inr:
  "recordExternalActionOutcomeSchema_parse is_uuid r = Inr q \<longleftrightarrow>
     q = with_default_outcome r \<and> recordExternalActionOutcome_ok is_uuid r"
  by (auto simp: recordExternalActionOutcomeSchema_parse_def with_default_outcome_def recordExternalActionOutcome_ok_def)

lemma outcome_announces:
  assumes "is_uuid (ac_tenantId a)"
  shows "announces is_uuid (outcome_commands input a) (announce_outcome is_uuid clock input a) ()"
proof (cases "ro_status input = OutcomeCompleted")
  case True
  then show ?thesis unfolding outcome_commands_def announce_outcome_def Let_def
    by (intro announces_lifecycle_then) (use assms in \<open>simp_all add: announces_return\<close>)
next
  case False
  with announces_incident [of is_uuid a OutcomePhase "clock 3", OF assms] show ?thesis
    unfolding outcome_commands_def announce_outcome_def Let_def
    by (intro announces_lifecycle_then) (use assms in simp_all)
qed

lemma announces_and_return:
  assumes "announces is_uuid cs m v"
  shows "announces is_uuid cs (then_do m (\<lambda>_ st'. (Inr r, st'))) r"
proof -
  have "announces is_uuid (cs @ []) (then_do m (\<lambda>_ st'. (Inr r, st'))) r"
    by (rule announces_then [where f = "\<lambda>_ st'. (Inr r, st')", OF assms announces_return])
  then show ?thesis by simp
qed

lemma announce_default_outcome [simp]:
  "announce_outcome is_uuid clock (with_default_outcome r) = announce_outcome is_uuid clock r"
  by (simp add: announce_outcome_def fun_eq_iff)

text \<open>The callback is in the ledger of the action it is about.\<close>

definition outcome_known ::
  "(string \<Rightarrow> bool) \<Rightarrow> recordExternalActionOutcome \<Rightarrow> externalActionRecord \<Rightarrow> external_actions \<Rightarrow> bool" where
  "outcome_known is_uuid input a st \<longleftrightarrow>
     recordExternalActionOutcome_ok is_uuid input \<and> action_by_id st (ac_id a) = Some a \<and>
     action_key a = colon_key (ro_tenantId input) (ro_actionId input) \<and>
     ac_idempotencyKey a = ro_idempotencyKey input \<and> has_event st (ac_id a) (callback_key (ro_callbackId input))"

text \<open>A callback for an action that is not finished is applied, and announced.\<close>

lemma outcome_moves:
  assumes "ea_inv is_uuid st" and "sequence_uuids is_uuid" and "room st" and "recordExternalActionOutcome_ok is_uuid input"
    and "action_find (ro_tenantId input) (ro_actionId input) (Some (ro_idempotencyKey input)) st = Inr a"
    and "\<not> has_event st (ac_id a) (callback_key (ro_callbackId input))"
    and "ac_state a \<noteq> EaCompleted" and "ac_state a \<noteq> EaFailed"
    and "a' = outcome_action input (nullish_or (ro_occurredAt input) (clock 0)) a"
  shows "action_change (nullish_or (ro_occurredAt input) (clock 0)) None (callback_key (ro_callbackId input)) a a' \<and>
    (\<exists>st'. recordOutcome is_uuid clock input st = (Inr \<lparr>or_action = a', or_isDuplicate = False\<rparr>, st') \<and>
       changed is_uuid (outcome_commands input a') (callback_key (ro_callbackId input)) a' st st')"
proof -
  define k where "k = callback_key (ro_callbackId input)"
  have ch: "action_change (nullish_or (ro_occurredAt input) (clock 0)) None k a a'"
    unfolding k_def assms(9) by (rule was_finished) (use assms(7,8) in auto)
  have a: "action_by_id st (ac_id a) = Some a" using assms(5) action_find_Inr [OF assms(1)] by blast
  have uu: "is_uuid (ac_id a')" "is_uuid (ac_tenantId a')"
    using good_uuids [OF assms(1) a] change_facts(1,2) [OF ch] by simp_all
  define what where "what = (if ro_status input = OutcomeCompleted then ''outcome_completed'' else ''outcome_failed'')"
  have w: "what \<noteq> []" by (simp add: what_def)
  have "announces is_uuid (outcome_commands input a') (then_do (announce_outcome is_uuid clock input a')
      (\<lambda>_ st'. (Inr \<lparr>or_action = a', or_isDuplicate = False\<rparr>, st'))) \<lparr>or_action = a', or_isDuplicate = False\<rparr>"
    by (rule announces_and_return [OF outcome_announces [of is_uuid a' input clock, OF uu(2)]])
  from change_succeeds [OF ea_invD(2) [OF assms(1)] assms(2,3) uu change_facts(6) [OF ch] w this]
  have "\<exists>st2. recordOutcome is_uuid clock input st = (Inr \<lparr>or_action = a', or_isDuplicate = False\<rparr>, st2) \<and>
      changed is_uuid (outcome_commands input a') k a' st st2"
    using assms(4-8) unfolding recordOutcome_def Let_def
    by (simp add: outcome_parse_Inr [of is_uuid input "with_default_outcome input", THEN iffD2] k_def [symmetric]
        assms(9) [symmetric] what_def [symmetric])
  with ch show ?thesis unfolding k_def by blast
qed

text \<open>Otherwise nothing changes: the callback is a repetition, or comes too late.\<close>

lemma outcome_settled:
  assumes "recordExternalActionOutcome_ok is_uuid input"
    and "action_find (ro_tenantId input) (ro_actionId input) (Some (ro_idempotencyKey input)) st = Inr a"
  shows "has_event st (ac_id a) (callback_key (ro_callbackId input)) \<Longrightarrow>
      recordOutcome is_uuid clock input st = (Inr \<lparr>or_action = a, or_isDuplicate = True\<rparr>, st)"
    "\<not> has_event st (ac_id a) (callback_key (ro_callbackId input)) \<Longrightarrow> ac_state a = EaCompleted \<or> ac_state a = EaFailed \<Longrightarrow>
      recordOutcome is_uuid clock input st = (Inl (ExternalActionStateError
        (''Cannot apply a new callback to terminal external action '' @ ac_actionId a)), st)"
  using assms outcome_parse_Inr [of is_uuid input "with_default_outcome input"] by (simp_all add: recordOutcome_def)

lemma outcome_effect:
  assumes "ea_inv is_uuid st" and "sequence_uuids is_uuid" and "room st"
    and "recordOutcome is_uuid clock input st = (x, st')"
  obtains (same) "st' = st" "\<And>r. x = Inr r \<Longrightarrow> or_isDuplicate r \<and> outcome_known is_uuid input (or_action r) st"
  | (moved) a a' where "action_by_id st (ac_id a) = Some a"
      "action_key a = colon_key (ro_tenantId input) (ro_actionId input)"
      "ac_idempotencyKey a = ro_idempotencyKey input" "recordExternalActionOutcome_ok is_uuid input"
      "a' = outcome_action input (nullish_or (ro_occurredAt input) (clock 0)) a"
      "x = Inr \<lparr>or_action = a', or_isDuplicate = False\<rparr>" "\<not> has_event st (ac_id a) (callback_key (ro_callbackId input))"
      "action_change (nullish_or (ro_occurredAt input) (clock 0)) None (callback_key (ro_callbackId input)) a a'"
      "changed is_uuid (outcome_commands input a') (callback_key (ro_callbackId input)) a' st st'"
proof (cases "recordExternalActionOutcomeSchema_parse is_uuid input")
  case (Inl e)
  with assms(4) same show ?thesis by (auto simp: recordOutcome_def)
next
  case (Inr q)
  then have q: "q = with_default_outcome input" and ok: "recordExternalActionOutcome_ok is_uuid input"
    by (simp_all add: outcome_parse_Inr)
  show ?thesis
  proof (cases "action_find (ro_tenantId input) (ro_actionId input) (Some (ro_idempotencyKey input)) st")
    case (Inl e)
    with Inr q assms(4) same show ?thesis by (auto simp: recordOutcome_def)
  next
    case found: (Inr a)
    define k where "k = callback_key (ro_callbackId input)"
    define a' where "a' = outcome_action input (nullish_or (ro_occurredAt input) (clock 0)) a"
    have "ro_idempotencyKey input \<noteq> []"
      using ok by (simp add: recordExternalActionOutcome_ok_def idempotencyKeySchema_ok_def short_text_def)
    then have a: "action_by_id st (ac_id a) = Some a" "action_key a = colon_key (ro_tenantId input) (ro_actionId input)"
        "ac_idempotencyKey a = ro_idempotencyKey input"
      using found action_find_Inr [OF assms(1)] by auto
    show ?thesis
    proof (cases "has_event st (ac_id a) k \<or> ac_state a = EaCompleted \<or> ac_state a = EaFailed")
      case True
      with outcome_settled [OF ok found] assms(4)
      have "st' = st \<and> (\<forall>r. x = Inr r \<longrightarrow> or_isDuplicate r \<and> or_action r = a \<and> has_event st (ac_id a) k)"
        unfolding k_def by (cases "has_event st (ac_id a) (callback_key (ro_callbackId input))") auto
      then have "st' = st" "x = Inr r \<Longrightarrow> or_isDuplicate r \<and> outcome_known is_uuid input (or_action r) st" for r
        using a ok by (simp_all add: outcome_known_def k_def)
      then show ?thesis by (rule same)
    next
      case False
      then have "\<not> has_event st (ac_id a) (callback_key (ro_callbackId input))" "ac_state a \<noteq> EaCompleted" "ac_state a \<noteq> EaFailed"
        by (simp_all add: k_def)
      from outcome_moves [where clock = clock, OF assms(1-3) ok found this a'_def] assms(4)
      have "action_change (nullish_or (ro_occurredAt input) (clock 0)) None k a a'"
          "x = Inr \<lparr>or_action = a', or_isDuplicate = False\<rparr>" "changed is_uuid (outcome_commands input a') k a' st st'"
        by (simp_all add: k_def)
      then show ?thesis by (intro moved [where a' = a', OF a ok a'_def]) (use False in \<open>simp_all add: k_def\<close>)
    qed
  qed
qed

text \<open>A request either finds its action again or creates it.\<close>

definition created ::
  "(string \<Rightarrow> bool) \<Rightarrow> externalActionRequest \<Rightarrow> externalActionRecord \<Rightarrow> external_actions \<Rightarrow> external_actions \<Rightarrow> bool" where
  "created is_uuid request a st st' \<longleftrightarrow>
     ac_id a = action_newId (Suc (ea_sequence st)) \<and>
     ea_actions st' = insert_new (action_key a) (ac_id a) a (ea_actions st) \<and>
     ea_idempotencyIndex st' = AList.update (replay_key a) (ac_id a) (ea_idempotencyIndex st) \<and>
     Suc (ea_sequence st) \<le> ea_sequence st' \<and> outbox_inv is_uuid (ea_outbox st') \<and>
     (\<forall>k x. find_existing (ob_events (ea_outbox st)) k = Some x \<longrightarrow>
        find_existing (ob_events (ea_outbox st')) k = Some x) \<and>
     find_existing (ob_events (ea_outbox st')) (command_key (dispatch_command request)) \<noteq> None \<and>
     (\<forall>j. j \<noteq> ac_id a \<longrightarrow> events_of st' j = events_of st j) \<and>
     (\<exists>e. events_of st' (ac_id a) = [e] \<and> av_eventKey e = ''requested:'' @ rq_idempotencyKey request \<and>
        av_externalActionId e = ac_id a \<and> av_tenantId e = ac_tenantId a)"

section \<open>The invariant is kept\<close>

lemma change_key:
  assumes "action_change now actor key a a'" and "action_consistent a"
  shows "(\<exists>c. key = callback_key c \<and> ac_outcomeReceivedAt a = None \<and> ac_outcomeReceivedAt a' \<noteq> None \<and> actor = None) \<or>
    (\<forall>c. key \<noteq> callback_key c) \<and> ac_outcomeReceivedAt a' = ac_outcomeReceivedAt a \<and> actor \<noteq> None"
  using assms
proof (induction rule: action_change.induct)
  case (was_finished a input)
  then have "ac_outcomeReceivedAt a = None" unfolding action_consistent_def by (metis insertE singletonD)
  then show ?case by (auto simp: moved_defs)
qed (auto simp: callback_key_def moved_defs)

lemma callback_key_inject [simp]: "callback_key c = callback_key c' \<longleftrightarrow> c = c'"
  by (simp add: callback_key_def)

lemma attempts_step:
  assumes "is_integer x" and "of_nat n \<le> x + 1" and "\<not> of_nat n \<le> x"
  shows "of_nat n = x + 1"
proof -
  from assms(1) obtain k where "x = of_int k" by (rule is_integerE)
  with assms(2,3) have "int n \<le> k + 1" "\<not> int n \<le> k"
    by (metis of_int_1 of_int_add of_int_le_iff of_int_of_nat_eq)+
  then have "int n = k + 1" by simp
  with \<open>x = of_int k\<close> show ?thesis by (metis of_int_1 of_int_add of_int_of_nat_eq)
qed

lemma ledger_change:
  assumes ch: "action_change now actor key a a'" and good: "action_good is_uuid a" and ok: "ledger_ok a es"
    and es': "if key \<in> av_eventKey ` set es then es' = es
      else \<exists>e. es' = es @ [e] \<and> av_eventKey e = key \<and> av_externalActionId e = ac_id a' \<and> av_tenantId e = ac_tenantId a'"
  shows "ledger_ok a' es'"
proof -
  define K where "K = av_eventKey ` set es"
  have K': "av_eventKey ` set es' = insert key K"
    using es' by (auto simp: K_def split: if_splits)
  have "distinct (map av_eventKey es')" "\<forall>e \<in> set es'. av_externalActionId e = ac_id a' \<and> av_tenantId e = ac_tenantId a'"
    using ok es' change_facts(1,2) [OF ch] by (auto simp: ledger_ok_def split: if_splits)
  moreover have "''requested:'' @ ac_idempotencyKey a' \<in> insert key K"
    using ok change_facts(5) [OF ch] by (simp add: ledger_ok_def K_def action_identity_def)
  moreover have "attempt_key n \<in> insert key K" if n: "1 \<le> n" "of_nat n \<le> ac_dispatchAttempts a'" for n
  proof (cases "of_nat n \<le> ac_dispatchAttempts a")
    case True
    with ok n show ?thesis by (simp add: ledger_ok_def K_def)
  next
    case False
    then have new: "ac_dispatchAttempts a' = ac_dispatchAttempts a + 1"
        "key = ''dispatch_started:'' @ show_integer (ac_dispatchAttempts a')"
      using n(2) change_facts(8) [OF ch] by auto
    have "is_integer (ac_dispatchAttempts a)"
      using good by (simp add: action_good_def externalActionRecord_ok_def is_nonnegative_int_def)
    with n(2) False new have "of_nat n = ac_dispatchAttempts a'" using attempts_step by simp
    then show ?thesis by (simp add: attempt_key_def new(2))
  qed
  moreover have "action_consistent a" using good by (simp add: action_good_def)
  then have "(ac_outcomeReceivedAt a' \<noteq> None \<longleftrightarrow> (\<exists>c. callback_key c \<in> insert key K)) \<and>
      (\<forall>c c'. callback_key c \<in> insert key K \<longrightarrow> callback_key c' \<in> insert key K \<longrightarrow> c = c')"
    using change_key [OF ch] ok unfolding ledger_ok_def K_def [symmetric] by auto
  ultimately show ?thesis unfolding ledger_ok_def K' by blast
qed

lemma changed_inv:
  assumes inv: "ea_inv is_uuid st" and a: "action_by_id st (ac_id a) = Some a"
    and ch: "action_change now actor key a a'" and st': "changed is_uuid cs key a' st st'"
  shows "ea_inv is_uuid st'"
proof -
  note id = change_facts(1) [OF ch]
  have acts: "ea_actions st' = put_record (ac_id a) a' (ea_actions st)" "ea_idempotencyIndex st' = ea_idempotencyIndex st"
      "ea_sequence st \<le> ea_sequence st'" "outbox_inv is_uuid (ea_outbox st')"
    using st' unfolding changed_def id by blast+
  have others: "events_of st' j = events_of st j" if "j \<noteq> ac_id a" for j
    using st' that unfolding changed_def id by blast
  have "if key \<in> av_eventKey ` set (events_of st (ac_id a)) then events_of st' (ac_id a) = events_of st (ac_id a)
      else \<exists>e. events_of st' (ac_id a) = events_of st (ac_id a) @ [e] \<and> av_eventKey e = key \<and>
        av_externalActionId e = ac_id a' \<and> av_tenantId e = ac_tenantId a'"
    using st' unfolding changed_def id has_event_keys event_keys_def by blast
  then have ledger: "ledger_ok a' (events_of st' (ac_id a))"
    by (rule ledger_change [OF ch ea_inv_action(2,4) [OF inv a]])
  have "store_ok ac_id action_key (action_good is_uuid) (ea_actions st')"
    unfolding acts(1) by (rule store_ok_put [OF ea_invD(1) [OF inv] a])
      (simp_all add: id change_facts(3) [OF ch] change_good [OF ch ea_inv_action(2) [OF inv a]])
  moreover have by_id: "action_by_id st' j = (if j = ac_id a then Some a' else action_by_id st j)" for j
    by (simp add: acts(1))
  have "(\<exists>n \<le> ea_sequence st'. j = action_newId n) \<and> map_of (ea_idempotencyIndex st') (replay_key b) = Some j \<and>
      ledger_ok b (events_of st' j)" if b: "action_by_id st' j = Some b" for j b
  proof (cases "j = ac_id a")
    case True
    with b by_id have "b = a'" by simp
    with True ledger ea_inv_action(5,6) [OF inv a] acts(2,3) change_facts(4) [OF ch] show ?thesis
      by (auto intro: le_trans)
  next
    case False
    with b by_id have "action_by_id st j = Some b" by simp
    with False ea_inv_action(4,5,6) [OF inv this] acts(2,3) others [OF False] show ?thesis by (auto intro: le_trans)
  qed
  moreover have "\<exists>b. action_by_id st' i = Some b \<and> replay_key b = k"
    if "map_of (ea_idempotencyIndex st') k = Some i" for k i
  proof -
    from ea_inv_replay [OF inv] that acts(2) obtain b where "action_by_id st i = Some b" "replay_key b = k"
      by metis
    with a by_id change_facts(4) [OF ch] show ?thesis by (cases "i = ac_id a") auto
  qed
  moreover have "events_of st' i = []" if "action_by_id st' i = None" for i
    using that by_id others inv by (auto simp: ea_inv_def split: if_splits)
  ultimately show ?thesis using acts(4) unfolding ea_inv_def by blast
qed

lemma announced_inv:
  assumes "ea_inv is_uuid st" and "announced is_uuid cs st st'"
  shows "ea_inv is_uuid st'"
proof -
  define ob where "ob = ea_outbox st'"
  have "st' = st\<lparr>ea_outbox := ob\<rparr>" "outbox_inv is_uuid ob"
    using assms(2) unfolding announced_def ob_def by blast+
  with assms(1) show ?thesis by (simp add: ea_inv_def events_of_def)
qed

text \<open>A request.\<close>

definition digest_format :: "(string \<Rightarrow> string) \<Rightarrow> bool" where
  "digest_format sha256 \<longleftrightarrow> (\<forall>s. length (sha256 s) = 64)"

lemma dispatch_command_ok:
  "externalActionRequest_ok is_uuid r \<Longrightarrow> enqueueOutboxEvent_ok is_uuid (dispatch_command r)"
  by (simp add: enqueueOutboxEvent_ok_def dispatch_command_def externalActionRequest_ok_def
      idempotencyKeySchema_ok_def short_text_def)

lemma requested_good:
  assumes "externalActionRequest_ok is_uuid r" and "is_uuid i" and "length d = 64"
  shows "action_good is_uuid (requested_action i d r now)"
  using assms by (simp add: action_good_def externalActionRecord_ok_def action_consistent_def requested_action_def
      externalActionRequest_ok_def is_nonnegative_int_def)

text \<open>An action of the tenant under the request's action id or key that was made by another request.\<close>

definition request_conflicts ::
  "(string \<Rightarrow> string) \<Rightarrow> (number \<Rightarrow> string) \<Rightarrow> externalActionRequest \<Rightarrow> externalActionRecord \<Rightarrow> external_actions \<Rightarrow> bool" where
  "request_conflicts sha256 number_text q a st \<longleftrightarrow>
     action_by_id st (ac_id a) = Some a \<and> ac_tenantId a = rq_tenantId q \<and>
     (ac_actionId a = rq_actionId q \<or> ac_idempotencyKey a = rq_idempotencyKey q) \<and>
     \<not> (ac_actionId a = rq_actionId q \<and> ac_idempotencyKey a = rq_idempotencyKey q \<and>
        ac_requestDigest a = externalActionRequestDigest sha256 number_text q)"

lemma existing_action:
  assumes inv: "ea_inv is_uuid st" and uuid: "uuid_format is_uuid" and ok: "externalActionRequest_ok is_uuid r"
    and ex: "existing_action_id st r = Some i"
  obtains a where "action_by_id st i = Some a" "ac_tenantId a = rq_tenantId r"
    "ac_actionId a = rq_actionId r \<or> ac_idempotencyKey a = rq_idempotencyKey r"
proof -
  have t: "is_uuid (rq_tenantId r)" using ok by (simp add: externalActionRequest_ok_def)
  consider "map_of (idByKey (ea_actions st)) (colon_key (rq_tenantId r) (rq_actionId r)) = Some i"
    | "map_of (ea_idempotencyIndex st) (colon_key (rq_tenantId r) (rq_idempotencyKey r)) = Some i"
    using ex unfolding existing_action_id_def
    by (cases "map_of (idByKey (ea_actions st)) (colon_key (rq_tenantId r) (rq_actionId r))")
      (auto split: option.splits if_splits)
  then obtain a where a: "action_by_id st i = Some a"
      "action_key a = colon_key (rq_tenantId r) (rq_actionId r) \<or> replay_key a = colon_key (rq_tenantId r) (rq_idempotencyKey r)"
  proof cases
    case 1
    with store_ok_index_ex [OF ea_invD(1) [OF inv]] that show ?thesis by blast
  next
    case 2
    with ea_inv_replay [OF inv] that show ?thesis by blast
  qed
  have "ac_tenantId a = rq_tenantId r" "ac_actionId a = rq_actionId r \<or> ac_idempotencyKey a = rq_idempotencyKey r"
    using a(2) colon_key_inject [OF uuid_format_no_colon [OF uuid good_uuids(2) [OF inv a(1)]]
        uuid_format_no_colon [OF uuid t]] by blast+
  with a(1) that show thesis by blast
qed

lemma no_existing_action:
  assumes inv: "ea_inv is_uuid st" and ex: "existing_action_id st r = None"
  shows "find_existing (ea_actions st) (colon_key (rq_tenantId r) (rq_actionId r)) = None"
    "map_of (ea_idempotencyIndex st) (colon_key (rq_tenantId r) (rq_idempotencyKey r)) = None"
proof -
  have ne: "i \<noteq> []" if "map_of (idByKey (ea_actions st)) k = Some i \<or> map_of (ea_idempotencyIndex st) k = Some i" for k i
    using that store_ok_index_ex [OF ea_invD(1) [OF inv]] ea_inv_replay [OF inv] ea_inv_action(3) [OF inv] by metis
  have "nullish (map_of (idByKey (ea_actions st)) (colon_key (rq_tenantId r) (rq_actionId r)))
      (map_of (ea_idempotencyIndex st) (colon_key (rq_tenantId r) (rq_idempotencyKey r))) = None"
  proof (rule ccontr)
    assume "\<not> ?thesis"
    then obtain i where i: "nullish (map_of (idByKey (ea_actions st)) (colon_key (rq_tenantId r) (rq_actionId r)))
        (map_of (ea_idempotencyIndex st) (colon_key (rq_tenantId r) (rq_idempotencyKey r))) = Some i"
      using not_None_eq by blast
    then have "i \<noteq> []"
      using ne by (cases "map_of (idByKey (ea_actions st)) (colon_key (rq_tenantId r) (rq_actionId r))") auto
    with i ex show False by (simp add: existing_action_id_def)
  qed
  then show "find_existing (ea_actions st) (colon_key (rq_tenantId r) (rq_actionId r)) = None"
    "map_of (ea_idempotencyIndex st) (colon_key (rq_tenantId r) (rq_idempotencyKey r)) = None"
    by (simp_all add: find_existing_def)
qed

lemma request_effect:
  assumes "ea_inv is_uuid st" and "uuid_format is_uuid" and "sequence_uuids is_uuid" and "digest_format sha256"
    and "room st" and "enqueueRequested is_uuid sha256 number_text clock request st = (x, st')"
  obtains (failed) e where "x = Inl e" "st' = st" "externalActionRequest_ok is_uuid request \<Longrightarrow>
      e = ExternalActionConflictError ''actionId or idempotencyKey was reused with a different external action request'' \<and>
      (\<exists>a. request_conflicts sha256 number_text request a st)"
  | (replayed) a e where "action_by_id st (ac_id a) = Some a"
      "x = Inr \<lparr>er_action = a, er_event = e, er_isDuplicate = True\<rparr>" "externalActionRequest_ok is_uuid request"
      "ac_tenantId a = rq_tenantId request" "ac_actionId a = rq_actionId request"
      "ac_idempotencyKey a = rq_idempotencyKey request"
      "ac_requestDigest a = externalActionRequestDigest sha256 number_text request"
      "announced is_uuid [dispatch_command request] st st'"
      "find_existing (ob_events (ea_outbox st')) (command_key (dispatch_command request)) = Some e"
  | (fresh) a e where
      "a = requested_action (action_newId (Suc (ea_sequence st)))
             (externalActionRequestDigest sha256 number_text request) request (clock 0)"
      "x = Inr \<lparr>er_action = a, er_event = e, er_isDuplicate = False\<rparr>" "externalActionRequest_ok is_uuid request"
      "existing_action_id st request = None" "created is_uuid request a st st'"
      "find_existing (ob_events (ea_outbox st')) (command_key (dispatch_command request)) = Some e"
proof (cases "externalActionRequest_ok is_uuid request")
  case False
  with assms(6) failed show ?thesis
    by (auto simp: enqueueRequested_def externalActionRequestSchema_parse_def zod_parse_def)
next
  case ok: True
  define digest where "digest = externalActionRequestDigest sha256 number_text request"
  have parse: "externalActionRequestSchema_parse is_uuid request = Inr request"
    using ok by (simp add: externalActionRequestSchema_parse_def)
  show ?thesis
  proof (cases "existing_action_id st request")
    case (Some i)
    from existing_action [OF assms(1,2) ok Some] obtain a where a: "action_by_id st i = Some a"
        "ac_tenantId a = rq_tenantId request"
        "ac_actionId a = rq_actionId request \<or> ac_idempotencyKey a = rq_idempotencyKey request" by blast
    have id: "ac_id a = i" by (rule ea_inv_action(1) [OF assms(1) a(1)])
    obtain e st1 where e: "action_enqueue is_uuid (dispatch_command request) (clock 0) st = (Inr e, st1)"
        "announced is_uuid [dispatch_command request] st st1"
        "find_existing (ob_events (ea_outbox st1)) (command_key (dispatch_command request)) = Some e"
      by (rule announce_command [OF ea_invD(2) [OF assms(1)] dispatch_command_ok [OF ok]])
    show ?thesis
    proof (cases "ac_actionId a = rq_actionId request \<and> ac_idempotencyKey a = rq_idempotencyKey request \<and>
        ac_requestDigest a = digest")
      case True
      then have "x = Inr \<lparr>er_action = a, er_event = e, er_isDuplicate = True\<rparr>" "st' = st1"
        using assms(6) parse Some a(1) e(1) by (simp_all add: enqueueRequested_def digest_def then_do_Inr)
      with replayed [of a e] a id e True ok show ?thesis by (simp add: digest_def)
    next
      case False
      then have "request_conflicts sha256 number_text request a st"
        using a id by (simp add: request_conflicts_def digest_def)
      moreover have "x = Inl (ExternalActionConflictError
          ''actionId or idempotencyKey was reused with a different external action request'') \<and> st' = st"
        using False assms(6) parse Some a(1) by (auto simp: enqueueRequested_def digest_def Let_def)
      ultimately show ?thesis using failed by blast
    qed
  next
    case None
    define n where "n = Suc (ea_sequence st)"
    define a where "a = requested_action (action_newId n) digest request (clock 0)"
    note new = sequence_uuids_room [OF assms(3,5)]
    have good: "action_good is_uuid a" unfolding a_def
      by (rule requested_good [OF ok]) (use new assms(4) in \<open>simp_all add: n_def digest_def digest_format_def
            externalActionRequestDigest_def\<close>)
    have aid: "ac_id a = action_newId n" "ac_tenantId a = rq_tenantId request" "ac_actionId a = rq_actionId request"
        "ac_idempotencyKey a = rq_idempotencyKey request"
      by (simp_all add: a_def requested_action_def)
    have uu: "is_uuid (ac_id a)" "is_uuid (ac_tenantId a)"
      using good by (simp_all add: action_good_def externalActionRecord_ok_def)
    define st1 where "st1 = (st\<lparr>ea_sequence := n\<rparr>)\<lparr>ea_actions := insert_new (action_key a) (ac_id a) a (ea_actions st),
        ea_idempotencyIndex := AList.update (replay_key a) (ac_id a) (ea_idempotencyIndex st)\<rparr>"
    have ev1: "events_of st1 = events_of st" by (simp add: st1_def events_of_def fun_eq_iff)
    have none: "events_of st (ac_id a) = []" using ea_inv_fresh(2) [OF assms(1)] by (simp add: aid n_def)
    then have nohas: "\<not> has_event st1 (ac_id a) k" for k by (simp add: has_event_def ev1)
    have seq1: "ea_sequence st1 = n" "ea_outbox st1 = ea_outbox st" by (simp_all add: st1_def)
    obtain st2 where st2: "action_appendEvent is_uuid a (''requested:'' @ rq_idempotencyKey request) ''requested''
          (transitionEventPayload a ''requested'' []) (clock 1) st1 = (Inr (), st2)"
        "ea_actions st2 = ea_actions st1" "ea_idempotencyIndex st2 = ea_idempotencyIndex st1"
        "ea_outbox st2 = ea_outbox st" "n \<le> ea_sequence st2" "\<forall>j. j \<noteq> ac_id a \<longrightarrow> events_of st2 j = events_of st j"
        "\<exists>e. events_of st2 (ac_id a) = [e] \<and> av_eventKey e = ''requested:'' @ rq_idempotencyKey request \<and>
           av_externalActionId e = ac_id a \<and> av_tenantId e = ac_tenantId a"
      using append_succeeds [of is_uuid st1 a "''requested:'' @ rq_idempotencyKey request" "''requested''"
          "transitionEventPayload a ''requested'' []" "clock 1"] new(2) uu nohas none
      unfolding ev1 seq1 by (auto simp: n_def)
    have "outbox_inv is_uuid (ea_outbox st2)" using ea_invD(2) [OF assms(1)] by (simp add: st2(4))
    then obtain e st3 where e: "action_enqueue is_uuid (dispatch_command request) (clock 2) st2 = (Inr e, st3)"
        "announced is_uuid [dispatch_command request] st2 st3"
        "find_existing (ob_events (ea_outbox st3)) (command_key (dispatch_command request)) = Some e"
      by (rule announce_command [OF _ dispatch_command_ok [OF ok]])
    have "externalActionRecordSchema_parse is_uuid a = Inr a"
      using good by (simp add: externalActionRecordSchema_parse_def action_good_def)
    then have res: "x = Inr \<lparr>er_action = a, er_event = e, er_isDuplicate = False\<rparr>" "st' = st3"
      using assms(6) parse None st2(1) e(1) unfolding enqueueRequested_def st1_def aid
      by (simp_all add: digest_def [symmetric] n_def [symmetric] a_def [symmetric] then_do_Inr aid)
    define ob where "ob = ea_outbox st3"
    have st3: "st3 = st2\<lparr>ea_outbox := ob\<rparr>" "outbox_inv is_uuid ob"
        "\<forall>k x. find_existing (ob_events (ea_outbox st)) k = Some x \<longrightarrow> find_existing (ob_events ob) k = Some x"
      using e(2) st2(4) unfolding announced_def ob_def by simp_all
    then have "events_of st3 = events_of st2" by (simp add: events_of_def fun_eq_iff)
    with st2 st3 e(3) have "created is_uuid request a st st3"
      unfolding created_def by (simp add: aid n_def st1_def)
    with fresh [of a e] res ok None e(3) show ?thesis by (simp add: a_def n_def digest_def)
  qed
qed

lemma created_inv:
  assumes inv: "ea_inv is_uuid st" and none: "existing_action_id st request = None"
    and good: "action_good is_uuid a" and st': "created is_uuid request a st st'"
    and a: "ac_tenantId a = rq_tenantId request" "ac_actionId a = rq_actionId request"
      "ac_idempotencyKey a = rq_idempotencyKey request" "ac_dispatchAttempts a = 0" "ac_outcomeReceivedAt a = None"
  shows "ea_inv is_uuid st'"
proof -
  note c = st' [unfolded created_def]
  have id: "ac_id a = action_newId (Suc (ea_sequence st))" using c by blast
  have fresh: "action_by_id st (ac_id a) = None" using ea_inv_fresh(1) [OF inv] by (simp add: id)
  have acts: "ea_actions st' = insert_new (action_key a) (ac_id a) a (ea_actions st)"
    "ea_idempotencyIndex st' = AList.update (replay_key a) (ac_id a) (ea_idempotencyIndex st)"
    "Suc (ea_sequence st) \<le> ea_sequence st'" using c by blast+
  have idx: "map_of (ea_idempotencyIndex st') k = (if k = replay_key a then Some (ac_id a) else map_of (ea_idempotencyIndex st) k)" for k
    by (simp add: acts(2) update_conv)
  have "store_ok ac_id action_key (action_good is_uuid) (ea_actions st')"
    unfolding acts(1) using no_existing_action(1) [OF inv none] fresh good
    by (intro store_ok_insert [OF ea_invD(1) [OF inv]]) (simp_all add: a id)
  moreover have by_id: "action_by_id st' j = (if j = ac_id a then Some a else action_by_id st j)" for j
    by (simp add: acts(1))
  obtain e where e: "events_of st' (ac_id a) = [e]" "av_eventKey e = ''requested:'' @ rq_idempotencyKey request"
      "av_externalActionId e = ac_id a" "av_tenantId e = ac_tenantId a" using c by blast
  have ledger: "ledger_ok a (events_of st' (ac_id a))"
    by (auto simp: ledger_ok_def e a callback_key_def)
  have "(\<exists>n \<le> ea_sequence st'. j = action_newId n) \<and> map_of (ea_idempotencyIndex st') (replay_key b) = Some j \<and>
      ledger_ok b (events_of st' j)" if b: "action_by_id st' j = Some b" for j b
  proof (cases "j = ac_id a")
    case True
    with b by_id have "b = a" by simp
    with True ledger idx id acts(3) show ?thesis by auto
  next
    case False
    with b by_id have g: "action_by_id st j = Some b" by simp
    have "replay_key b \<noteq> replay_key a"
      using no_existing_action(2) [OF inv none] ea_inv_action(5) [OF inv g] by (auto simp: a)
    moreover have "events_of st' j = events_of st j" using c False by blast
    ultimately show ?thesis using ea_inv_action(4,5,6) [OF inv g] idx acts(3) by (auto intro: le_trans Suc_leD)
  qed
  moreover have "\<exists>b. action_by_id st' i = Some b \<and> replay_key b = k"
    if k: "map_of (ea_idempotencyIndex st') k = Some i" for k i
  proof (cases "k = replay_key a")
    case True
    with k idx by_id show ?thesis by simp
  next
    case False
    with k idx ea_inv_replay [OF inv] obtain b where "action_by_id st i = Some b" "replay_key b = k" by metis
    with by_id fresh show ?thesis by auto
  qed
  moreover have "events_of st' i = []" if "action_by_id st' i = None" for i
    using that by_id c inv by (auto simp: ea_inv_def split: if_splits)
  ultimately show ?thesis using c unfolding ea_inv_def by blast
qed

section \<open>Histories\<close>

inductive ea_step ::
  "(string \<Rightarrow> bool) \<Rightarrow> (string \<Rightarrow> string) \<Rightarrow> (number \<Rightarrow> string) \<Rightarrow> date \<Rightarrow> string option \<Rightarrow>
   external_actions \<Rightarrow> external_actions \<Rightarrow> bool" for is_uuid sha256 number_text where
  by_request: "enqueueRequested is_uuid sha256 number_text clock request st = (xq, st') \<Longrightarrow> room st \<Longrightarrow>
    ea_step is_uuid sha256 number_text (clock 0) None st st'"
| by_claim: "claimDispatch is_uuid clock ci st = (xc, st') \<Longrightarrow> room st \<Longrightarrow>
    ea_step is_uuid sha256 number_text (nullish_or (di_now ci) (clock 0)) (Some (di_leaseOwner ci)) st st'"
| by_acceptance: "recordDispatchAccepted is_uuid clock ai st = (xa, st') \<Longrightarrow> room st \<Longrightarrow>
    ea_step is_uuid sha256 number_text (nullish_or (di_now ai) (clock 0)) (Some (di_leaseOwner ai)) st st'"
| by_retry: "scheduleDispatchRetry is_uuid clock ri st = (xa, st') \<Longrightarrow> room st \<Longrightarrow>
    ea_step is_uuid sha256 number_text (nullish_or (di_now ri) (clock 0)) (Some (di_leaseOwner ri)) st st'"
| by_failure: "failDispatch is_uuid clock fi st = (xa, st') \<Longrightarrow> room st \<Longrightarrow>
    ea_step is_uuid sha256 number_text (nullish_or (di_now fi) (clock 0)) (Some (di_leaseOwner fi)) st st'"
| by_callback: "recordOutcome is_uuid clock oi st = (xo, st') \<Longrightarrow> room st \<Longrightarrow>
    ea_step is_uuid sha256 number_text (nullish_or (ro_occurredAt oi) (clock 0)) None st st'"
| by_consumption: "outbox_markConsumed is_uuid t i tm (ea_outbox st) = Inr (e, ob) \<Longrightarrow>
    ea_step is_uuid sha256 number_text tm None st (st\<lparr>ea_outbox := ob\<rparr>)"

definition ea_good :: "(string \<Rightarrow> bool) \<Rightarrow> (string \<Rightarrow> string) \<Rightarrow> external_actions \<Rightarrow> bool" where
  "ea_good is_uuid sha256 st \<longleftrightarrow>
     uuid_format is_uuid \<and> sequence_uuids is_uuid \<and> digest_format sha256 \<and> ea_inv is_uuid st"

lemma ea_goodD:
  assumes "ea_good is_uuid sha256 st"
  shows "uuid_format is_uuid" "sequence_uuids is_uuid" "digest_format sha256" "ea_inv is_uuid st"
  using assms by (simp_all add: ea_good_def)

text \<open>The simulation: one step leaves an action alone or moves it by an allowed change.\<close>

definition evolves :: "date \<Rightarrow> string option \<Rightarrow> external_actions \<Rightarrow> external_actions \<Rightarrow> bool" where
  "evolves now actor st st' \<longleftrightarrow>
     (\<forall>i a. action_by_id st i = Some a \<longrightarrow>
        (\<exists>a' es. action_by_id st' i = Some a' \<and> events_of st' i = events_of st i @ es \<and>
           (a' = a \<or> (\<exists>key. action_change now actor key a a')))) \<and>
     (\<forall>k x. find_existing (ob_events (ea_outbox st)) k = Some x \<longrightarrow>
        (\<exists>x'. find_existing (ob_events (ea_outbox st')) k = Some x' \<and> same_event x x'))"

lemma evolves_refl: "evolves now actor st st"
  by (simp add: evolves_def)

lemma evolves_announced: "announced is_uuid cs st st' \<Longrightarrow> evolves now actor st st'"
proof -
  assume "announced is_uuid cs st st'"
  then obtain ob where "st' = st\<lparr>ea_outbox := ob\<rparr>"
      "\<forall>k x. find_existing (ob_events (ea_outbox st)) k = Some x \<longrightarrow> find_existing (ob_events (ea_outbox st')) k = Some x"
    unfolding announced_def by blast
  then show ?thesis by (simp add: evolves_def events_of_def)
qed

lemma evolves_changed:
  assumes "action_by_id st (ac_id a) = Some a" and "action_change now actor key a a'"
    and "changed is_uuid cs key a' st st'"
  shows "evolves now actor st st'"
proof -
  note id = change_facts(1) [OF assms(2)]
  have by_id: "action_by_id st' j = (if j = ac_id a then Some a' else action_by_id st j)" for j
    using assms(3) by (simp add: changed_def id)
  have "\<exists>es. events_of st' j = events_of st j @ es" for j
    using assms(3) unfolding changed_def id by (cases "j = ac_id a") (auto split: if_splits)
  moreover have "\<forall>k x. find_existing (ob_events (ea_outbox st)) k = Some x \<longrightarrow>
      (\<exists>x'. find_existing (ob_events (ea_outbox st')) k = Some x' \<and> same_event x x')"
    using assms(3) same_event_refl unfolding changed_def by metis
  ultimately show ?thesis using by_id assms(1,2) unfolding evolves_def by (metis option.inject)
qed

lemma evolves_created:
  assumes "ea_inv is_uuid st" and "created is_uuid request a st st'"
  shows "evolves now actor st st'"
proof -
  have id: "ac_id a = action_newId (Suc (ea_sequence st))" using assms(2) unfolding created_def by blast
  have by_id: "action_by_id st' j = (if j = ac_id a then Some a else action_by_id st j)" for j
    using assms(2) by (simp add: created_def)
  have others: "events_of st' j = events_of st j" if "j \<noteq> ac_id a" for j
    using assms(2) that unfolding created_def by blast
  have "action_by_id st (ac_id a) = None" using ea_inv_fresh(1) [OF assms(1)] by (simp add: id)
  moreover have "\<forall>k x. find_existing (ob_events (ea_outbox st)) k = Some x \<longrightarrow>
      (\<exists>x'. find_existing (ob_events (ea_outbox st')) k = Some x' \<and> same_event x x')"
    using assms(2) same_event_refl unfolding created_def by metis
  ultimately show ?thesis using by_id others by (auto simp: evolves_def)
qed

text \<open>Consuming an outbox event leaves the actions alone.\<close>

lemma consumption_step:
  assumes "ea_inv is_uuid st" and "outbox_markConsumed is_uuid t i tm (ea_outbox st) = Inr (e, ob)"
  shows "ea_inv is_uuid (st\<lparr>ea_outbox := ob\<rparr>) \<and> evolves now actor st (st\<lparr>ea_outbox := ob\<rparr>)"
  using assms(1) outbox_markConsumed_inv [OF ea_invD(2) [OF assms(1)] assms(2)]
    mark_keeps_filed [OF ea_invD(2) [OF assms(1)] assms(2)]
  by (simp add: ea_inv_def evolves_def events_of_def)

lemma reported_step:
  assumes "ea_inv is_uuid st" and "reported is_uuid now input move commands st x st'"
  shows "ea_inv is_uuid st' \<and> evolves now (Some (di_leaseOwner input)) st st'"
proof (cases "st' = st")
  case True
  with assms(1) show ?thesis by (simp add: evolves_refl)
next
  case False
  with assms(2) obtain a key where *: "action_by_id st (ac_id a) = Some a"
      "action_change now (Some (di_leaseOwner input)) key a (move a)"
      "changed is_uuid (commands (move a)) key (move a) st st'"
    unfolding reported_def by blast
  from changed_inv [OF assms(1) *] evolves_changed [OF *] show ?thesis by blast
qed

lemma ea_step_effect:
  assumes "ea_step is_uuid sha256 number_text now actor st st'" and "ea_good is_uuid sha256 st"
  shows "ea_good is_uuid sha256 st' \<and> evolves now actor st st'"
proof -
  note g = ea_goodD [OF assms(2)]
  have "ea_inv is_uuid st' \<and> evolves now actor st st'"
    using assms(1) g(4)
  proof (induction rule: ea_step.induct)
    case (by_request clock request st x st')
    from by_request.prems g(1-3) by_request.hyps(2,1) show ?case
    proof (cases rule: request_effect)
      case failed
      with by_request.prems show ?thesis by (simp add: evolves_refl)
    next
      case (replayed a e)
      then show ?thesis using announced_inv [OF by_request.prems] evolves_announced by blast
    next
      case (fresh a e)
      have "action_good is_uuid a" unfolding fresh(1)
        using sequence_uuids_room(1) [OF g(2) by_request.hyps(2)] g(3)
        by (intro requested_good [OF fresh(3)]) (simp_all add: digest_format_def externalActionRequestDigest_def)
      then have "ea_inv is_uuid st'"
        by (rule created_inv [OF by_request.prems fresh(4) _ fresh(5)]) (simp_all add: fresh(1) requested_action_def)
      with evolves_created [OF by_request.prems fresh(5)] show ?thesis by blast
    qed
  next
    case (by_claim clock input st x st')
    from by_claim.prems g(2) by_claim.hyps(2,1) show ?case
    proof (cases rule: dispatch_claim_effect)
      case same
      with by_claim.prems show ?thesis by (simp add: evolves_refl)
    next
      case (moved a a' key)
      with changed_inv [OF by_claim.prems] evolves_changed show ?thesis by blast
    qed
  next
    case (by_acceptance clock input st x st')
    from reported_step [OF by_acceptance.prems accepted_effect [OF by_acceptance.prems g(2) by_acceptance.hyps(2,1)]]
    show ?case .
  next
    case (by_retry clock input st x st')
    from reported_step [OF by_retry.prems retry_effect [OF by_retry.prems g(2) by_retry.hyps(2,1)]]
    show ?case .
  next
    case (by_failure clock input st x st')
    from reported_step [OF by_failure.prems failed_effect [OF by_failure.prems g(2) by_failure.hyps(2,1)]]
    show ?case .
  next
    case (by_callback clock input st x st')
    from by_callback.prems g(2) by_callback.hyps(2,1) show ?case
    proof (cases rule: outcome_effect)
      case same
      with by_callback.prems show ?thesis by (simp add: evolves_refl)
    next
      case (moved a a')
      with changed_inv [OF by_callback.prems moved(1,8,9)] evolves_changed [OF moved(1,8,9)] show ?thesis by blast
    qed
  next
    case (by_consumption t i tm st e ob)
    from consumption_step [OF by_consumption.prems by_consumption.hyps] show ?case .
  qed
  with g show ?thesis by (simp add: ea_good_def)
qed

definition ea_any ::
  "(string \<Rightarrow> bool) \<Rightarrow> (string \<Rightarrow> string) \<Rightarrow> (number \<Rightarrow> string) \<Rightarrow> external_actions \<Rightarrow> external_actions \<Rightarrow> bool" where
  "ea_any is_uuid sha256 number_text st st' \<longleftrightarrow> (\<exists>now actor. ea_step is_uuid sha256 number_text now actor st st')"

lemma ea_any_effect:
  assumes "ea_any is_uuid sha256 number_text st st'" and "ea_good is_uuid sha256 st"
  obtains now actor where "ea_good is_uuid sha256 st'" "evolves now actor st st'"
  using assms ea_step_effect unfolding ea_any_def by metis

definition action_state_at :: "external_actions \<Rightarrow> string \<Rightarrow> externalActionState option" where
  "action_state_at st i = map_option ac_state (action_by_id st i)"

interpretation action_life: lifecycle "ea_any is_uuid sha256 number_text" "ea_good is_uuid sha256"
  action_state_at "\<lambda>s t. t \<in> set (action_transitions s)" for is_uuid sha256 number_text
proof (unfold_locales, goal_cases)
  case (1 s t)
  then show ?case by (rule ea_any_effect)
next
  case (2 s t i q)
  from 2(1,2) obtain now actor where e: "evolves now actor s t" by (rule ea_any_effect)
  from 2(3) obtain a where a: "action_by_id s i = Some a" "q = ac_state a" by (auto simp: action_state_at_def)
  with e obtain a' where "action_by_id t i = Some a'" "a' = a \<or> (\<exists>key. action_change now actor key a a')"
    unfolding evolves_def by blast
  then show ?case using a change_facts(7) by (auto simp: action_state_at_def)
qed

text \<open>The ledger is append-only: the \<open>n\<close>-th event of an action stays what it is.\<close>

definition ledger_entry :: "external_actions \<Rightarrow> string \<times> nat \<Rightarrow> externalActionEventRecord option" where
  "ledger_entry st p =
     (if action_by_id st (fst p) \<noteq> None \<and> snd p < length (events_of st (fst p))
      then Some (events_of st (fst p) ! snd p) else None)"

interpretation action_ledger: append_only "ea_any is_uuid sha256 number_text" "ea_good is_uuid sha256" ledger_entry
  for is_uuid sha256 number_text
proof (unfold_locales, goal_cases)
  case (1 s t)
  then show ?case by (rule ea_any_effect)
next
  case (2 s t p r)
  from 2(1,2) obtain now actor where e: "evolves now actor s t" by (rule ea_any_effect)
  from 2(3) obtain a where a: "action_by_id s (fst p) = Some a" "snd p < length (events_of s (fst p))"
      "r = events_of s (fst p) ! snd p" by (auto simp: ledger_entry_def split: if_splits)
  with e obtain a' es where "action_by_id t (fst p) = Some a'" "events_of t (fst p) = events_of s (fst p) @ es"
    unfolding evolves_def by blast
  with a show ?case by (simp add: ledger_entry_def nth_append)
qed

interpretation action_request: append_only "ea_any is_uuid sha256 number_text" "ea_good is_uuid sha256"
  "\<lambda>st i. map_option action_identity (action_by_id st i)" for is_uuid sha256 number_text
proof (unfold_locales, goal_cases)
  case (1 s t)
  then show ?case by (rule ea_any_effect)
next
  case (2 s t i r)
  from 2(1,2) obtain now actor where e: "evolves now actor s t" by (rule ea_any_effect)
  from 2(3) obtain a where a: "action_by_id s i = Some a" "r = action_identity a" by auto
  with e obtain a' where "action_by_id t i = Some a'" "a' = a \<or> (\<exists>key. action_change now actor key a a')"
    unfolding evolves_def by blast
  then show ?case using a change_facts(5) by auto
qed

lemma ea_good_empty:
  "uuid_format is_uuid \<Longrightarrow> sequence_uuids is_uuid \<Longrightarrow> digest_format sha256 \<Longrightarrow> ea_good is_uuid sha256 empty_external_actions"
  by (simp add: ea_good_def ea_inv_empty)

text \<open>Along a history: an action stays, its events stay in front, its attempts only grow.\<close>

lemma history_keeps:
  assumes "(ea_any is_uuid sha256 number_text)\<^sup>*\<^sup>* st st'" and "ea_good is_uuid sha256 st"
    and "action_by_id st i = Some a"
  shows "\<exists>a' es. action_by_id st' i = Some a' \<and> events_of st' i = events_of st i @ es \<and>
    ac_dispatchAttempts a \<le> ac_dispatchAttempts a' \<and>
    (ac_state a \<in> {EaCompleted, EaFailed} \<longrightarrow> a' = a)"
  using assms
proof (induction rule: rtranclp_induct)
  case base
  then show ?case by simp
next
  case (step t u)
  then obtain b es where b: "action_by_id t i = Some b" "events_of t i = events_of st i @ es"
      "ac_dispatchAttempts a \<le> ac_dispatchAttempts b" "ac_state a \<in> {EaCompleted, EaFailed} \<longrightarrow> b = a" by blast
  have "ea_good is_uuid sha256 t" by (rule action_life.steps_inv [OF step.hyps(1) step.prems(1)])
  with step.hyps(2) obtain now actor where "evolves now actor t u" by (rule ea_any_effect)
  with b(1) obtain c es' where c: "action_by_id u i = Some c" "events_of u i = events_of t i @ es'"
      "c = b \<or> (\<exists>key. action_change now actor key b c)" unfolding evolves_def by blast
  have "ac_dispatchAttempts b \<le> ac_dispatchAttempts c" using c(3) change_facts(8) by force
  moreover have "c = b" if "ac_state b \<in> {EaCompleted, EaFailed}"
    using c(3) that change_facts(7) by (force simp: action_transitions_def)
  ultimately show ?case using b c by auto
qed

lemma history_keeps_outbox:
  assumes "(ea_any is_uuid sha256 number_text)\<^sup>*\<^sup>* st st'" and "ea_good is_uuid sha256 st"
    and "find_existing (ob_events (ea_outbox st)) k = Some x"
  shows "\<exists>x'. find_existing (ob_events (ea_outbox st')) k = Some x' \<and> same_event x x'"
  using assms
proof (induction rule: rtranclp_induct)
  case base
  then show ?case by auto
next
  case (step t u)
  have "ea_good is_uuid sha256 t" by (rule action_life.steps_inv [OF step.hyps(1) step.prems(1)])
  with step.hyps(2) obtain now actor where "evolves now actor t u" by (rule ea_any_effect)
  with step show ?case unfolding evolves_def using same_event_trans by blast
qed

end
