(* ===== verification/ActionProperties.thy ===== *)
theory ActionProperties
  imports ActionHistory
begin

text \<open>
  The properties of the external-action repository: the two commands that are safe to deliver twice
  (requests and callbacks), and the claims about histories, leases, callbacks, requests and digests.
\<close>

section \<open>Requests and callbacks can be repeated\<close>

lemma outcome_filed:
  assumes "ea_good is_uuid sha256 st" and "room st" and "recordOutcome is_uuid clock c st = (Inr r, st1)"
  shows "outcome_known is_uuid c (or_action r) st1"
  using ea_goodD(4) [OF assms(1)] ea_goodD(2) [OF assms(1)] assms(2,3)
proof (cases rule: outcome_effect)
  case same
  then show ?thesis by simp
next
  case (moved a a')
  note ch = change_facts [OF moved(8)]
  have "has_event st1 (ac_id a') (callback_key (ro_callbackId c))"
    using moved(7,9) ch(1) unfolding changed_def has_event_keys event_keys_def by auto
  moreover have "action_by_id st1 (ac_id a') = Some a'" using moved(9) by (simp add: changed_def)
  ultimately show ?thesis using moved ch by (simp add: outcome_known_def action_identity_def)
qed

lemma outcome_again:
  assumes "ea_inv is_uuid st" and "outcome_known is_uuid c a st"
  shows "recordOutcome is_uuid clock c st = (Inr \<lparr>or_action = a, or_isDuplicate = True\<rparr>, st)"
proof -
  note k = assms(2) [unfolded outcome_known_def]
  have "action_find (ro_tenantId c) (ro_actionId c) (Some (ro_idempotencyKey c)) st = Inr a"
    using k by (simp add: action_find_Inr [OF assms(1)])
  moreover have "recordExternalActionOutcomeSchema_parse is_uuid c = Inr (with_default_outcome c)"
    using k by (simp add: outcome_parse_Inr)
  ultimately show ?thesis using k by (simp add: recordOutcome_def Let_def)
qed

interpretation callback_once: idempotent_command
  "\<lambda>c clock st. committed (recordOutcome is_uuid clock c st)" "ea_good is_uuid sha256" "\<lambda>_ st. room st"
  "\<lambda>r r'. or_action r = or_action r'" for is_uuid sha256
proof (unfold_locales, goal_cases)
  case (1 st clock c r st1)
  have "ea_step is_uuid sha256 (\<lambda>_. []) (nullish_or (ro_occurredAt c) (clock 0)) None st st1"
    by (rule by_callback) (use 1 in simp_all)
  with 1(1) ea_step_effect show ?case by blast
next
  case (2 st clock c r st1 clock')
  then have r: "recordOutcome is_uuid clock c st = (Inr r, st1)" by simp
  have "ea_step is_uuid sha256 (\<lambda>_. []) (nullish_or (ro_occurredAt c) (clock 0)) None st st1"
    by (rule by_callback [OF r 2(2)])
  with 2(1) ea_step_effect ea_goodD(4) have "ea_inv is_uuid st1" by blast
  from outcome_again [OF this outcome_filed [OF 2(1,2) r], of clock'] show ?case by simp
qed

text \<open>A request whose action and dispatch event are on file.\<close>

definition request_known ::
  "(string \<Rightarrow> bool) \<Rightarrow> (string \<Rightarrow> string) \<Rightarrow> (number \<Rightarrow> string) \<Rightarrow> externalActionRequest \<Rightarrow>
   externalActionRecord \<Rightarrow> storedOutboxEvent \<Rightarrow> external_actions \<Rightarrow> bool" where
  "request_known is_uuid sha256 number_text q a e st \<longleftrightarrow>
     externalActionRequest_ok is_uuid q \<and> action_by_id st (ac_id a) = Some a \<and>
     ac_tenantId a = rq_tenantId q \<and> ac_actionId a = rq_actionId q \<and> ac_idempotencyKey a = rq_idempotencyKey q \<and>
     ac_requestDigest a = externalActionRequestDigest sha256 number_text q \<and>
     find_existing (ob_events (ea_outbox st)) (command_key (dispatch_command q)) = Some e"

lemma request_filed:
  assumes "ea_good is_uuid sha256 st" and "room st"
    and "enqueueRequested is_uuid sha256 number_text clock q st = (Inr r, st1)"
  shows "request_known is_uuid sha256 number_text q (er_action r) (er_event r) st1"
  using ea_goodD(4,1,2,3) [OF assms(1)] assms(2,3)
proof (cases rule: request_effect)
  case (failed e)
  then show ?thesis by simp
next
  case (replayed a e)
  define ob where "ob = ea_outbox st1"
  have "st1 = st\<lparr>ea_outbox := ob\<rparr>" using replayed(8) unfolding announced_def ob_def by blast
  with replayed show ?thesis by (simp add: request_known_def)
next
  case (fresh a e)
  then have "ea_actions st1 = insert_new (action_key a) (ac_id a) a (ea_actions st)" unfolding created_def by blast
  with fresh show ?thesis by (simp add: request_known_def requested_action_def)
qed

lemma existing_by_action:
  assumes "ea_inv is_uuid st" and "action_by_id st i = Some a" and "ac_tenantId a = rq_tenantId q"
    and "ac_actionId a = rq_actionId q"
  shows "existing_action_id st q = Some i"
  using store_okD(1,4) [OF ea_invD(1) [OF assms(1)] assms(2)] assms(3,4) by (simp add: existing_action_id_def)

lemma request_again:
  assumes "ea_inv is_uuid st" and "request_known is_uuid sha256 number_text q a e st"
  shows "enqueueRequested is_uuid sha256 number_text clock q st =
    (Inr \<lparr>er_action = a, er_event = e, er_isDuplicate = True\<rparr>, st)"
proof -
  note k = assms(2) [unfolded request_known_def]
  have "existing_action_id st q = Some (ac_id a)" using existing_by_action [OF assms(1)] k by blast
  moreover have "outbox_enqueue is_uuid (dispatch_command q) (clock 0) (ea_outbox st) = Inr (e, ea_outbox st)"
    using enqueue_on_valid [OF ea_invD(2) [OF assms(1)] dispatch_command_ok] k by simp
  then have "action_enqueue is_uuid (dispatch_command q) (clock 0) st = (Inr e, st)"
    by (simp add: action_enqueue_def)
  moreover have "externalActionRequestSchema_parse is_uuid q = Inr q"
    using k by (simp add: externalActionRequestSchema_parse_def)
  ultimately show ?thesis using k by (simp add: enqueueRequested_def then_do_Inr)
qed

interpretation request_once: idempotent_command
  "\<lambda>q clock st. committed (enqueueRequested is_uuid sha256 number_text clock q st)" "ea_good is_uuid sha256"
  "\<lambda>_ st. room st" "\<lambda>r r'. er_action r = er_action r' \<and> er_event r = er_event r'" for is_uuid sha256 number_text
proof (unfold_locales, goal_cases)
  case (1 st clock q r st1)
  have "ea_step is_uuid sha256 number_text (clock 0) None st st1"
    by (rule by_request) (use 1 in simp_all)
  with 1(1) ea_step_effect show ?case by blast
next
  case (2 st clock q r st1 clock')
  then have r: "enqueueRequested is_uuid sha256 number_text clock q st = (Inr r, st1)" by simp
  have "ea_step is_uuid sha256 number_text (clock 0) None st st1" by (rule by_request [OF r 2(2)])
  with 2(1) ea_step_effect ea_goodD(4) have "ea_inv is_uuid st1" by blast
  from request_again [OF this request_filed [OF 2(1,2) r], of clock'] show ?case by simp
qed

lemma request_conflict:
  assumes inv: "ea_inv is_uuid st" and uuid: "uuid_format is_uuid" and ok: "externalActionRequest_ok is_uuid q"
    and a: "action_by_id st i = Some a" "ac_tenantId a = rq_tenantId q"
    and shares: "ac_actionId a = rq_actionId q \<or> ac_idempotencyKey a = rq_idempotencyKey q"
    and differs: "\<not> (ac_actionId a = rq_actionId q \<and> ac_idempotencyKey a = rq_idempotencyKey q \<and>
        ac_requestDigest a = externalActionRequestDigest sha256 number_text q)"
  shows "enqueueRequested is_uuid sha256 number_text clock q st = (Inl (ExternalActionConflictError
    ''actionId or idempotencyKey was reused with a different external action request''), st)"
proof -
  have "existing_action_id st q \<noteq> None"
  proof
    assume n: "existing_action_id st q = None"
    from no_existing_action [OF inv n] existing_by_action [OF inv a(1,2)] n ea_inv_action(5) [OF inv a(1)] a(2) shares
    show False by auto
  qed
  then obtain j where j: "existing_action_id st q = Some j" by auto
  from existing_action [OF inv uuid ok j] obtain b where b: "action_by_id st j = Some b" "ac_tenantId b = rq_tenantId q"
    by blast
  have "\<not> (ac_actionId b = rq_actionId q \<and> ac_idempotencyKey b = rq_idempotencyKey q \<and>
      ac_requestDigest b = externalActionRequestDigest sha256 number_text q)"
  proof
    assume same: "ac_actionId b = rq_actionId q \<and> ac_idempotencyKey b = rq_idempotencyKey q \<and>
      ac_requestDigest b = externalActionRequestDigest sha256 number_text q"
    have "i = j"
    proof (cases "ac_actionId a = rq_actionId q")
      case True
      with existing_by_action [OF inv a True] j show ?thesis by simp
    next
      case False
      with shares have "replay_key a = replay_key b" using a(2) b(2) same by simp
      with ea_inv_action(5) [OF inv a(1)] ea_inv_action(5) [OF inv b(1)] show ?thesis by simp
    qed
    with a(1) b(1) same differs show False by simp
  qed
  moreover have "externalActionRequestSchema_parse is_uuid q = Inr q"
    using ok by (simp add: externalActionRequestSchema_parse_def)
  ultimately show ?thesis using j b(1) by (auto simp: enqueueRequested_def Let_def)
qed

section \<open>Digests\<close>

lemma canonical_request:
  "canonical (request_json q) =
     JObj [(''actionId'', JStr (rq_actionId q)), (''actionType'', JStr (rq_actionType q)),
           (''approvedBy'', JStr (rq_approvedBy q)), (''idempotencyKey'', JStr (rq_idempotencyKey q)),
           (''payload'', canonical (JObj (rq_requestPayload q)))]"
proof -
  have sorted: "sort_key fst [(''actionId'', a), (''actionType'', b), (''approvedBy'', c), (''idempotencyKey'', d),
      (''payload'', e)] = [(''actionId'', a), (''actionType'', b), (''approvedBy'', c), (''idempotencyKey'', d),
      (''payload'', e :: json)]" for a b c d e
  proof (rule sort_key_id_if_sorted)
    have "sorted [''actionId'', ''actionType'', ''approvedBy'', ''idempotencyKey'', ''payload'']" by code_simp
    then show "sorted (map fst [(''actionId'', a), (''actionType'', b), (''approvedBy'', c), (''idempotencyKey'', d),
      (''payload'', e)])" by simp
  qed
  show ?thesis
    unfolding request_json_def canonical.simps list.map prod.case sorted by simp
qed

definition rational_text :: "number \<Rightarrow> string" where
  "rational_text x = (case quotient_of x of (p, q) \<Rightarrow> show_int p @ ''.'' @ show_int q)"

lemma show_int_inject: "show_int i = show_int j \<longleftrightarrow> i = j"
proof -
  have "CHR ''-'' \<notin> set ''0123456789''" by simp
  then have "CHR ''-'' \<notin> set (show_nat n)" for n by (rule contra_subsetD [OF show_nat_digits])
  then have "show_nat n \<noteq> CHR ''-'' # s" for n s by (metis list.set_intros(1))
  then show ?thesis by (auto simp: show_int_def dest: sym)
qed

lemma rational_text_format: "number_format rational_text"
  unfolding number_format_def
proof (intro conjI allI)
  have digits: "list_all is_number_char (show_nat n)" "CHR ''.'' \<notin> set (show_nat n)" "hd (show_nat n) \<noteq> CHR ''e''" for n
  proof -
    have dots: "CHR ''.'' \<notin> set ''0123456789''" "CHR ''e'' \<notin> set ''0123456789''" by simp_all
    have "set ''0123456789'' \<subseteq> set ''0123456789+-.e''" by simp
    with show_nat_digits have "set (show_nat n) \<subseteq> set ''0123456789+-.e''" by (rule subset_trans)
    then show "list_all is_number_char (show_nat n)" unfolding is_number_char_def list_all_iff by blast
    show "CHR ''.'' \<notin> set (show_nat n)" by (rule contra_subsetD [OF show_nat_digits dots(1)])
    show "hd (show_nat n) \<noteq> CHR ''e''"
      using contra_subsetD [OF show_nat_digits dots(2)] hd_in_set [OF show_nat_nonempty] by metis
  qed
  have minus: "is_number_char CHR ''-''" "is_number_char CHR ''.''" by (simp_all add: is_number_char_def)
  have int: "list_all is_number_char (show_int i)" "CHR ''.'' \<notin> set (show_int i)" "hd (show_int i) \<noteq> CHR ''e''"
    "show_int i \<noteq> []" for i
    using digits minus by (simp_all add: show_int_def)
  show "rational_text x \<noteq> []" "list_all is_number_char (rational_text x)" "hd (rational_text x) \<noteq> CHR ''e''" for x
    using int minus by (simp_all add: rational_text_def case_prod_unfold hd_append)
  show "inj rational_text"
  proof (rule injI)
    fix x y assume eq: "rational_text x = rational_text y"
    have tw: "takeWhile (\<lambda>c. c \<noteq> CHR ''.'') (show_int p @ ''.'' @ s) = show_int p"
      "dropWhile (\<lambda>c. c \<noteq> CHR ''.'') (show_int p @ ''.'' @ s) = ''.'' @ s" for p s
      using int(2) [of p] by (auto simp: takeWhile_append dropWhile_append)
    obtain p q p' q' where pq: "quotient_of x = (p, q)" "quotient_of y = (p', q')" by (metis surj_pair)
    with eq have "show_int p @ ''.'' @ show_int q = show_int p' @ ''.'' @ show_int q'" by (simp add: rational_text_def)
    then have "show_int p = show_int p'" "show_int q = show_int q'" using tw by (metis append_Cons append_Nil list.inject)+
    then have "p = p'" "q = q'" by (simp_all add: show_int_inject)
    with pq show "x = y" by (metis quotient_of_inject)
  qed
qed

section \<open>An example\<close>

text \<open>A digest of the right length, not collision free; numbers as fractions; a clock that stands still.\<close>

definition example_sha :: "string \<Rightarrow> string" where
  "example_sha s = take 64 (s @ replicate 64 CHR ''0'')"

lemma digest_format_example: "digest_format example_sha"
  by (auto simp: digest_format_def example_sha_def min_def)

definition still :: "date \<Rightarrow> nat \<Rightarrow> date" where
  "still t i = t"

definition example_request :: externalActionRequest where
  "example_request =
     \<lparr>rq_tenantId = ''aa'', rq_actionId = ''x'', rq_actionType = ''m'', rq_approvedBy = ''f'',
      rq_idempotencyKey = ''k'', rq_requestPayload = [(''b'', JStr ''1''), (''a'', JNull)]\<rparr>"

definition example_dispatch_claim :: claimExternalActionDispatch where
  "example_dispatch_claim =
     \<lparr>di_tenantId = ''aa'', di_actionId = ''x'', di_idempotencyKey = ''k'', di_leaseOwner = ''w'', di_now = None,
      cd_leaseDurationMs = 1000\<rparr>"

definition example_failure :: failExternalActionDispatchInput where
  "example_failure =
     \<lparr>di_tenantId = ''aa'', di_actionId = ''x'', di_idempotencyKey = ''k'', di_leaseOwner = ''w'', di_now = None,
      fd_errorCode = None, fd_errorMessage = ''no''\<rparr>"

definition example_callback :: recordExternalActionOutcome where
  "example_callback =
     \<lparr>ro_tenantId = ''aa'', ro_actionId = ''x'', ro_idempotencyKey = ''k'', ro_callbackId = ''c'',
      ro_status = OutcomeCompleted, ro_workflowId = None, ro_executionId = None, ro_providerReference = None,
      ro_outcome = None, ro_errorCode = None, ro_errorMessage = None, ro_occurredAt = None\<rparr>"

definition example_ea1 :: external_actions where
  "example_ea1 = snd (enqueueRequested hex_id example_sha rational_text (still 5) example_request empty_external_actions)"

definition example_ea2 :: external_actions where
  "example_ea2 = snd (claimDispatch hex_id (still 6) example_dispatch_claim example_ea1)"

definition example_ea3 :: external_actions where
  "example_ea3 = snd (recordOutcome hex_id (still 7) example_callback example_ea2)"

lemma example_room: "room empty_external_actions" "room example_ea1" "room example_ea2" "room example_ea3"
proof -
  have "ea_sequence empty_external_actions < 9 \<and> ea_sequence example_ea1 < 9 \<and> ea_sequence example_ea2 < 9 \<and>
    ea_sequence example_ea3 < 9" by code_simp
  then show "room empty_external_actions" "room example_ea1" "room example_ea2" "room example_ea3"
    by (simp_all add: room_def)
qed

lemma example_action_steps:
  "ea_any hex_id example_sha rational_text empty_external_actions example_ea1"
  "ea_any hex_id example_sha rational_text example_ea1 example_ea2"
  "ea_any hex_id example_sha rational_text example_ea2 example_ea3"
  unfolding ea_any_def example_ea1_def example_ea2_def example_ea3_def
  by (metis by_request surjective_pairing example_room(1), metis by_claim surjective_pairing example_room(2) example_ea1_def,
      metis by_callback surjective_pairing example_room(3) example_ea2_def example_ea1_def)

lemma example_reachable_actions:
  "(ea_any hex_id example_sha rational_text)\<^sup>*\<^sup>* empty_external_actions example_ea1"
  "(ea_any hex_id example_sha rational_text)\<^sup>*\<^sup>* empty_external_actions example_ea2"
  "(ea_any hex_id example_sha rational_text)\<^sup>*\<^sup>* example_ea1 example_ea3"
  using example_action_steps by (meson rtranclp.rtrancl_into_rtrancl rtranclp.rtrancl_refl)+

section \<open>Histories\<close>

lemma reachable_ea_good:
  assumes "uuid_format is_uuid" and "sequence_uuids is_uuid" and "digest_format sha256"
    and "(ea_any is_uuid sha256 number_text)\<^sup>*\<^sup>* empty_external_actions st"
  shows "ea_good is_uuid sha256 st"
  using action_life.steps_inv [OF assms(4) ea_good_empty [OF assms(1-3)]] .

lemmas example_ea_good = reachable_ea_good [OF uuid_format_hex_id sequence_uuids_hex_id digest_format_example]

text \<open>
  C19. The life of an external action, over any history of requests, claims, dispatch reports and
  callbacks: the action stays on file with the identity, digest and payload it was requested with; its
  state moves only along the allowed transitions; its attempts never decrease; once it is completed or
  failed it never changes again. At every moment its lease, retry time and outcome agree with its
  state, and its ledger of events, to which history only appends, has distinct keys, the request,
  a start for every attempt, and a callback exactly when an outcome was received, at most one.
\<close>

theorem external_action_history:
  assumes "uuid_format is_uuid" and "sequence_uuids is_uuid" and "digest_format sha256"
    and "(ea_any is_uuid sha256 number_text)\<^sup>*\<^sup>* empty_external_actions st"
    and "(ea_any is_uuid sha256 number_text)\<^sup>*\<^sup>* st st'"
    and "action_by_id st i = Some a"
  shows "\<exists>a' es. action_by_id st' i = Some a' \<and> action_identity a' = action_identity a \<and>
    (\<lambda>s t. t \<in> set (action_transitions s))\<^sup>*\<^sup>* (ac_state a) (ac_state a') \<and>
    ac_dispatchAttempts a \<le> ac_dispatchAttempts a' \<and>
    (ac_state a \<in> {EaCompleted, EaFailed} \<longrightarrow> a' = a) \<and> action_consistent a' \<and>
    events_of st' i = events_of st i @ es \<and> ledger_ok a' (events_of st' i)"
proof -
  have good: "ea_good is_uuid sha256 st" by (rule reachable_ea_good [OF assms(1-4)])
  have good': "ea_good is_uuid sha256 st'" by (rule action_life.steps_inv [OF assms(5) good])
  from history_keeps [OF assms(5) good assms(6)] obtain a' es where
    a': "action_by_id st' i = Some a'" "events_of st' i = events_of st i @ es"
      "ac_dispatchAttempts a \<le> ac_dispatchAttempts a'" "ac_state a \<in> {EaCompleted, EaFailed} \<longrightarrow> a' = a" by blast
  have "action_state_at st i = Some (ac_state a)" using assms(6) by (simp add: action_state_at_def)
  from action_life.steps_status [OF assms(5) good this] a'(1)
  have "(\<lambda>s t. t \<in> set (action_transitions s))\<^sup>*\<^sup>* (ac_state a) (ac_state a')" by (simp add: action_state_at_def)
  moreover have "map_option action_identity (action_by_id st i) = Some (action_identity a)" using assms(6) by simp
  from action_request.ledger.steps_status [OF assms(5) good this] a'(1)
  have "action_identity a' = action_identity a" by (auto elim: rtranclp.cases)
  moreover have "action_consistent a'" "ledger_ok a' (events_of st' i)"
    using ea_inv_action(2,4) [OF ea_goodD(4) [OF good'] a'(1)] by (simp_all add: action_good_def)
  ultimately show ?thesis using a' by blast
qed

theorem external_action_history_witness:
  "\<exists>a'. action_by_id example_ea3 (action_newId 1) = Some a' \<and> 1 \<le> ac_dispatchAttempts a' \<and> action_consistent a'"
proof -
  have "map_option ac_dispatchAttempts (action_by_id example_ea2 (action_newId 1)) = Some 1" by code_simp
  then obtain a where a: "action_by_id example_ea2 (action_newId 1) = Some a" "ac_dispatchAttempts a = 1" by blast
  have "(ea_any hex_id example_sha rational_text)\<^sup>*\<^sup>* example_ea2 example_ea3" using example_action_steps(3) by blast
  from external_action_history [OF uuid_format_hex_id sequence_uuids_hex_id digest_format_example
      example_reachable_actions(2) this a(1)] a(2)
  show ?thesis by auto
qed

section \<open>Leases\<close>

text \<open>An input that names an action by its tenant, action id and idempotency key.\<close>

definition names_action :: "'a dispatchIdentity_scheme \<Rightarrow> externalActionRecord \<Rightarrow> bool" where
  "names_action input a \<longleftrightarrow>
     di_tenantId input = ac_tenantId a \<and> di_actionId input = ac_actionId a \<and>
     di_idempotencyKey input = ac_idempotencyKey a"

lemma named_action:
  assumes "ea_inv is_uuid st" and "action_by_id st i = Some a" and "names_action input a"
  shows "action_find (di_tenantId input) (di_actionId input) (Some (di_idempotencyKey input)) st = Inr a"
    "validateDispatchIdentity is_uuid input = Inr ()"
  using assms ea_inv_action(1,2) [OF assms(1,2)]
  by (simp_all add: action_find_Inr [OF assms(1)] names_action_def validateDispatchIdentity_Inr action_good_def
      externalActionRecord_ok_def)

lemma claim_refused:
  assumes "ea_inv is_uuid st" and "action_by_id st i = Some a" and "ac_state a = EaDispatching"
    and "ac_dispatchLeaseExpiresAt a = Some u" and "names_action c a" and "di_leaseOwner c \<noteq> []"
    and "0 < cd_leaseDurationMs c" and "nullish_or (di_now c) (clock 0) < u"
  shows "claimDispatch is_uuid clock c st = (Inr (InFlight a), st)"
  using named_action [OF assms(1,2,5)] assms(3,4,6-) by (simp add: claimDispatch_def isSettled_def later_than_def)

lemma claim_again:
  assumes "ea_inv is_uuid st" and "sequence_uuids is_uuid" and "room st" and "action_by_id st i = Some a"
    and "ac_state a = EaDispatching" and "ac_dispatchLeaseExpiresAt a = Some u" and "names_action c a"
    and "di_leaseOwner c \<noteq> []" and "0 < cd_leaseDurationMs c" and "u \<le> nullish_or (di_now c) (clock 0)"
  shows "\<exists>st'. claimDispatch is_uuid clock c st =
      (Inr (Claimed (claimed_action c (nullish_or (di_now c) (clock 0)) a)), st') \<and>
    action_by_id st' i = Some (claimed_action c (nullish_or (di_now c) (clock 0)) a)"
proof -
  define a' where "a' = claimed_action c (nullish_or (di_now c) (clock 0)) a"
  have i: "ac_id a = i" "ac_id a' = ac_id a" "ac_tenantId a' = ac_tenantId a"
    using ea_inv_action(1) [OF assms(1,4)] by (simp_all add: a'_def claimed_action_def)
  have "claimDispatch is_uuid clock c st =
      write_action is_uuid a' (''dispatch_started:'' @ show_integer (ac_dispatchAttempts a')) ''dispatch_started'' []
        (clock 1) (\<lambda>st'. (Inr (Claimed a'), st')) st"
    using named_action [OF assms(1,4,7)] assms(5,6,8-)
    by (simp add: claimDispatch_def isSettled_def later_than_def a'_def Let_def del: One_nat_def)
  moreover have "\<exists>st'. write_action is_uuid a' (''dispatch_started:'' @ show_integer (ac_dispatchAttempts a'))
        ''dispatch_started'' [] (clock 1) (\<lambda>st'. (Inr (Claimed a'), st')) st = (Inr (Claimed a'), st') \<and>
      changed is_uuid [] (''dispatch_started:'' @ show_integer (ac_dispatchAttempts a')) a' st st'"
    by (rule change_succeeds [OF ea_invD(2) [OF assms(1)] assms(2,3)])
      (use good_uuids [OF assms(1,4)] i in \<open>simp_all add: announces_return\<close>)
  ultimately show ?thesis using i unfolding a'_def [symmetric] changed_def by auto
qed

text \<open>What a step can do to an action that is dispatched under a lease that still runs.\<close>

lemma leased_step:
  assumes "evolves now actor st st'" and "action_by_id st i = Some a" and "ac_state a = EaDispatching"
    and "later_than (ac_dispatchLeaseExpiresAt a) now"
  shows "\<exists>a'. action_by_id st' i = Some a' \<and>
    (a' = a \<or> actor = None \<and> ac_state a' \<in> {EaCompleted, EaFailed} \<or>
     actor = ac_dispatchLeaseOwner a \<and> ac_state a' \<in> {EaDispatched, EaRetryScheduled, EaFailed})"
proof -
  from assms(1,2) obtain a' where a': "action_by_id st' i = Some a'"
      "a' = a \<or> (\<exists>key. action_change now actor key a a')" unfolding evolves_def by blast
  have "actor = None \<and> ac_state a' \<in> {EaCompleted, EaFailed} \<or>
      actor = ac_dispatchLeaseOwner a \<and> ac_state a' \<in> {EaDispatched, EaRetryScheduled, EaFailed}"
    if "action_change now actor key a a'" for key
    using that assms(3,4) by cases (auto simp: moved_defs)
  with a' show ?thesis by blast
qed

text \<open>
  C20. A dispatch lease is exclusive while it runs and can be taken over when it has run out. Of an
  action that is being dispatched under a lease until \<open>u\<close>: every valid claim before \<open>u\<close> is answered with
  in-flight and changes nothing; every step before \<open>u\<close> leaves the action alone, or is a callback that
  completes or fails it, or a report by the owner of the lease; a valid claim at \<open>u\<close> or later succeeds,
  gives the lease to the claimer and counts one more attempt.
\<close>

theorem dispatch_lease_exclusive:
  assumes "uuid_format is_uuid" and "sequence_uuids is_uuid" and "digest_format sha256"
    and "(ea_any is_uuid sha256 number_text)\<^sup>*\<^sup>* empty_external_actions st"
    and "action_by_id st i = Some a" and "ac_state a = EaDispatching" and "ac_dispatchLeaseExpiresAt a = Some u"
  shows "(\<forall>c clock. names_action c a \<and> di_leaseOwner c \<noteq> [] \<and> 0 < cd_leaseDurationMs c \<and>
       nullish_or (di_now c) (clock 0) < u \<longrightarrow> claimDispatch is_uuid clock c st = (Inr (InFlight a), st)) \<and>
    (\<forall>now actor st'. ea_step is_uuid sha256 number_text now actor st st' \<and> now < u \<longrightarrow>
       (\<exists>a'. action_by_id st' i = Some a' \<and>
          (a' = a \<or> actor = None \<and> ac_state a' \<in> {EaCompleted, EaFailed} \<or>
           actor = ac_dispatchLeaseOwner a \<and> ac_state a' \<in> {EaDispatched, EaRetryScheduled, EaFailed}))) \<and>
    (\<forall>c clock. room st \<and> names_action c a \<and> di_leaseOwner c \<noteq> [] \<and> 0 < cd_leaseDurationMs c \<and>
       u \<le> nullish_or (di_now c) (clock 0) \<longrightarrow>
       (\<exists>a' st'. claimDispatch is_uuid clock c st = (Inr (Claimed a'), st') \<and> action_by_id st' i = Some a' \<and>
          ac_dispatchLeaseOwner a' = Some (di_leaseOwner c) \<and>
          ac_dispatchAttempts a' = ac_dispatchAttempts a + 1))"
proof -
  have good: "ea_good is_uuid sha256 st" by (rule reachable_ea_good [OF assms(1-4)])
  note inv = ea_goodD(4) [OF good]
  have "\<exists>a' st'. claimDispatch is_uuid clock c st = (Inr (Claimed a'), st') \<and> action_by_id st' i = Some a' \<and>
      ac_dispatchLeaseOwner a' = Some (di_leaseOwner c) \<and> ac_dispatchAttempts a' = ac_dispatchAttempts a + 1"
    if "room st" "names_action c a" "di_leaseOwner c \<noteq> []" "0 < cd_leaseDurationMs c"
      "u \<le> nullish_or (di_now c) (clock 0)" for c clock
    using claim_again [of is_uuid st i a u c clock, OF inv assms(2) that(1) assms(5-7) that(2-)]
    by (force simp: claimed_action_def)
  moreover have "\<exists>a'. action_by_id st' i = Some a' \<and>
      (a' = a \<or> actor = None \<and> ac_state a' \<in> {EaCompleted, EaFailed} \<or>
       actor = ac_dispatchLeaseOwner a \<and> ac_state a' \<in> {EaDispatched, EaRetryScheduled, EaFailed})"
    if "ea_step is_uuid sha256 number_text now actor st st'" "now < u" for now actor st'
    by (rule leased_step [OF conjunct2 [OF ea_step_effect [OF that(1) good]] assms(5,6)])
      (simp add: assms(7) that(2) later_than_def)
  ultimately show ?thesis using claim_refused [OF inv assms(5-7)] by blast
qed

lemma example_leased:
  "\<exists>a. action_by_id example_ea2 (action_newId 1) = Some a \<and> ac_state a = EaDispatching \<and>
     ac_dispatchLeaseExpiresAt a = Some 1006 \<and> names_action example_dispatch_claim a \<and>
     ac_dispatchLeaseOwner a = Some ''w''"
proof -
  have "(case action_by_id example_ea2 (action_newId 1) of None \<Rightarrow> False
    | Some a \<Rightarrow> ac_state a = EaDispatching \<and> ac_dispatchLeaseExpiresAt a = Some 1006 \<and>
        names_action example_dispatch_claim a \<and> ac_dispatchLeaseOwner a = Some ''w'')" by code_simp
  then show ?thesis by (simp split: option.splits)
qed

theorem dispatch_lease_exclusive_witness:
  "\<exists>a. claimDispatch hex_id (still 500) (example_dispatch_claim\<lparr>di_leaseOwner := ''v''\<rparr>) example_ea2 =
       (Inr (InFlight a), example_ea2) \<and>
     (\<exists>a' st'. claimDispatch hex_id (still 1006) (example_dispatch_claim\<lparr>di_leaseOwner := ''v''\<rparr>) example_ea2 =
       (Inr (Claimed a'), st') \<and> ac_dispatchLeaseOwner a' = Some ''v'')"
proof -
  obtain a where a: "action_by_id example_ea2 (action_newId 1) = Some a" "ac_state a = EaDispatching"
      "ac_dispatchLeaseExpiresAt a = Some 1006" "names_action example_dispatch_claim a"
    using example_leased by blast
  define c where "c = example_dispatch_claim\<lparr>di_leaseOwner := ''v''\<rparr>"
  have c: "names_action c a" "di_leaseOwner c \<noteq> []" "0 < cd_leaseDurationMs c" "di_now c = None" "di_leaseOwner c = ''v''"
    using a(4) by (simp_all add: c_def example_dispatch_claim_def names_action_def)
  note ex = dispatch_lease_exclusive [OF uuid_format_hex_id sequence_uuids_hex_id digest_format_example
      example_reachable_actions(2) a(1-3)]
  have "claimDispatch hex_id (still 500) c example_ea2 = (Inr (InFlight a), example_ea2)"
    by (rule ex [THEN conjunct1, rule_format]) (use c in \<open>simp add: still_def\<close>)
  moreover have "\<exists>a' st'. claimDispatch hex_id (still 1006) c example_ea2 = (Inr (Claimed a'), st') \<and>
      action_by_id st' (action_newId 1) = Some a' \<and> ac_dispatchLeaseOwner a' = Some (di_leaseOwner c) \<and>
      ac_dispatchAttempts a' = ac_dispatchAttempts a + 1"
    by (rule ex [THEN conjunct2, THEN conjunct2, rule_format]) (use c example_room(3) in \<open>simp add: still_def\<close>)
  ultimately show ?thesis unfolding c_def [symmetric] c(5) by blast
qed

section \<open>Callbacks\<close>

lemma known_outcome_final:
  assumes "ea_inv is_uuid st" and "outcome_known is_uuid c a st"
  shows "ac_state a \<in> {EaCompleted, EaFailed}"
    "has_event st (ac_id a) (callback_key k) \<Longrightarrow> k = ro_callbackId c"
proof -
  have a: "action_by_id st (ac_id a) = Some a" "callback_key (ro_callbackId c) \<in> event_keys st (ac_id a)"
    using assms(2) by (auto simp: outcome_known_def has_event_keys)
  note l = ea_inv_action(2,4) [OF assms(1) a(1)]
  have "ac_outcomeReceivedAt a \<noteq> None" using l(2) a(2) unfolding ledger_ok_def event_keys_def by blast
  with l(1) show "ac_state a \<in> {EaCompleted, EaFailed}" unfolding action_good_def action_consistent_def by blast
  show "k = ro_callbackId c" if "has_event st (ac_id a) (callback_key k)"
    using that l(2) a(2) unfolding ledger_ok_def has_event_keys event_keys_def by blast
qed

lemma known_outcome_stays:
  assumes "(ea_any is_uuid sha256 number_text)\<^sup>*\<^sup>* st st'" and "ea_good is_uuid sha256 st"
    and "outcome_known is_uuid c a st"
  shows "outcome_known is_uuid c a st'"
proof -
  have a: "action_by_id st (ac_id a) = Some a" using assms(3) by (simp add: outcome_known_def)
  from history_keeps [OF assms(1,2) a] known_outcome_final(1) [OF ea_goodD(4) [OF assms(2)] assms(3)]
  obtain es where "action_by_id st' (ac_id a) = Some a" "events_of st' (ac_id a) = events_of st (ac_id a) @ es" by blast
  with assms(3) show ?thesis by (simp add: outcome_known_def has_event_def)
qed

lemma outcome_other_callback:
  assumes "ea_inv is_uuid st" and "outcome_known is_uuid c a st" and "recordExternalActionOutcome_ok is_uuid c'"
    and "ro_tenantId c' = ro_tenantId c" and "ro_actionId c' = ro_actionId c"
    and "ro_idempotencyKey c' = ro_idempotencyKey c" and "ro_callbackId c' \<noteq> ro_callbackId c"
  shows "recordOutcome is_uuid clock c' st = (Inl (ExternalActionStateError
    (''Cannot apply a new callback to terminal external action '' @ ac_actionId a)), st)"
proof -
  note k = assms(2) [unfolded outcome_known_def]
  have "action_find (ro_tenantId c') (ro_actionId c') (Some (ro_idempotencyKey c')) st = Inr a"
    using k assms(4-6) by (simp add: action_find_Inr [OF assms(1)])
  moreover have "recordExternalActionOutcomeSchema_parse is_uuid c' = Inr (with_default_outcome c')"
    using assms(3) by (simp add: outcome_parse_Inr)
  moreover have "\<not> has_event st (ac_id a) (callback_key (ro_callbackId c'))"
    using known_outcome_final(2) [OF assms(1,2)] assms(7) by blast
  ultimately show ?thesis
    using known_outcome_final(1) [OF assms(1,2)] by (auto simp: recordOutcome_def Let_def)
qed

text \<open>
  C21. A callback counts once and the first callback wins: after a callback has been recorded, whatever
  happens later, the action stays completed or failed as it was then; delivering the same callback
  again is answered as a duplicate with that action, and another callback for it is refused with the
  terminal-state error; neither changes anything.
\<close>

theorem callback_applies_once:
  assumes "uuid_format is_uuid" and "sequence_uuids is_uuid" and "digest_format sha256"
    and "(ea_any is_uuid sha256 number_text)\<^sup>*\<^sup>* empty_external_actions st" and "room st"
    and "recordOutcome is_uuid clock c st = (Inr r, st1)"
    and "(ea_any is_uuid sha256 number_text)\<^sup>*\<^sup>* st1 st2"
  shows "ac_state (or_action r) \<in> {EaCompleted, EaFailed} \<and>
    action_by_id st2 (ac_id (or_action r)) = Some (or_action r) \<and>
    (\<forall>clock'. recordOutcome is_uuid clock' c st2 =
       (Inr \<lparr>or_action = or_action r, or_isDuplicate = True\<rparr>, st2)) \<and>
    (\<forall>c' clock'. recordExternalActionOutcome_ok is_uuid c' \<and> ro_tenantId c' = ro_tenantId c \<and>
       ro_actionId c' = ro_actionId c \<and> ro_idempotencyKey c' = ro_idempotencyKey c \<and>
       ro_callbackId c' \<noteq> ro_callbackId c \<longrightarrow>
       recordOutcome is_uuid clock' c' st2 = (Inl (ExternalActionStateError
         (''Cannot apply a new callback to terminal external action '' @ ac_actionId (or_action r))), st2))"
proof -
  have good: "ea_good is_uuid sha256 st" by (rule reachable_ea_good [OF assms(1-4)])
  have good1: "ea_good is_uuid sha256 st1"
    using callback_once.run_inv [OF good, of clock c r st1] assms(5,6) by simp
  have good2: "ea_good is_uuid sha256 st2" by (rule action_life.steps_inv [OF assms(7) good1])
  have known: "outcome_known is_uuid c (or_action r) st2"
    by (rule known_outcome_stays [OF assms(7) good1 outcome_filed [OF good assms(5,6)]])
  note inv2 = ea_goodD(4) [OF good2]
  show ?thesis
    using known_outcome_final(1) [OF inv2 known] outcome_again [OF inv2 known] outcome_other_callback [OF inv2 known]
      known by (auto simp: outcome_known_def)
qed

theorem callback_applies_once_witness:
  "\<exists>a. ac_state a \<in> {EaCompleted, EaFailed} \<and>
     recordOutcome hex_id (still 9) example_callback example_ea3 =
       (Inr \<lparr>or_action = a, or_isDuplicate = True\<rparr>, example_ea3)"
proof -
  have "\<not> isl (fst (recordOutcome hex_id (still 7) example_callback example_ea2))" by code_simp
  then obtain r where r: "recordOutcome hex_id (still 7) example_callback example_ea2 = (Inr r, example_ea3)"
    unfolding example_ea3_def by (metis isl_def prod.collapse sum.exhaust sum.disc(1))
  from callback_applies_once [OF uuid_format_hex_id sequence_uuids_hex_id digest_format_example
      example_reachable_actions(2) example_room(3) this rtranclp.rtrancl_refl]
  show ?thesis by blast
qed

section \<open>Requests\<close>

text \<open>
  A request is applied once: after a request has succeeded, whatever happens later, repeating it is
  answered as a duplicate with the action in its present state and the dispatch event it got the first
  time (consumed or not), and a valid request of the same tenant that shares the action id or the idempotency key but
  differs in one of them or in the digest is refused as a conflict; neither changes anything.
\<close>

theorem request_replay_or_conflict:
  assumes "uuid_format is_uuid" and "sequence_uuids is_uuid" and "digest_format sha256"
    and "(ea_any is_uuid sha256 number_text)\<^sup>*\<^sup>* empty_external_actions st" and "room st"
    and "enqueueRequested is_uuid sha256 number_text clock q st = (Inr r, st1)"
    and "(ea_any is_uuid sha256 number_text)\<^sup>*\<^sup>* st1 st2"
  shows "\<exists>a e. action_by_id st2 (ac_id (er_action r)) = Some a \<and>
    action_identity a = action_identity (er_action r) \<and> same_event (er_event r) e \<and>
    (\<forall>clock'. enqueueRequested is_uuid sha256 number_text clock' q st2 =
       (Inr \<lparr>er_action = a, er_event = e, er_isDuplicate = True\<rparr>, st2)) \<and>
    (\<forall>q' clock'. externalActionRequest_ok is_uuid q' \<and> rq_tenantId q' = rq_tenantId q \<and>
       (rq_actionId q' = rq_actionId q \<or> rq_idempotencyKey q' = rq_idempotencyKey q) \<and>
       \<not> (rq_actionId q' = rq_actionId q \<and> rq_idempotencyKey q' = rq_idempotencyKey q \<and>
          externalActionRequestDigest sha256 number_text q' = externalActionRequestDigest sha256 number_text q) \<longrightarrow>
       enqueueRequested is_uuid sha256 number_text clock' q' st2 = (Inl (ExternalActionConflictError
         ''actionId or idempotencyKey was reused with a different external action request''), st2))"
proof -
  have good: "ea_good is_uuid sha256 st" by (rule reachable_ea_good [OF assms(1-4)])
  have good1: "ea_good is_uuid sha256 st1"
    by (rule request_once.run_inv [OF good assms(5)]) (use assms(6) in simp)
  have good2: "ea_good is_uuid sha256 st2" by (rule action_life.steps_inv [OF assms(7) good1])
  note k = request_filed [OF good assms(5,6), unfolded request_known_def]
  have a1: "action_by_id st1 (ac_id (er_action r)) = Some (er_action r)" using k by blast
  from history_keeps [OF assms(7) good1 a1] obtain a where a: "action_by_id st2 (ac_id (er_action r)) = Some a" by blast
  have "map_option action_identity (action_by_id st1 (ac_id (er_action r))) = Some (action_identity (er_action r))"
    using a1 by simp
  from action_request.ledger.steps_status [OF assms(7) good1 this] a
  have id: "action_identity a = action_identity (er_action r)" by (auto elim: rtranclp.cases)
  obtain e where e: "find_existing (ob_events (ea_outbox st2)) (command_key (dispatch_command q)) = Some e"
      "same_event (er_event r) e"
    using history_keeps_outbox [OF assms(7) good1] k by blast
  with k a id have known: "request_known is_uuid sha256 number_text q a e st2"
    by (auto simp: request_known_def action_identity_def)
  note inv2 = ea_goodD(4) [OF good2]
  note again = request_again [OF inv2 known]
  have "enqueueRequested is_uuid sha256 number_text clock' q' st2 = (Inl (ExternalActionConflictError
      ''actionId or idempotencyKey was reused with a different external action request''), st2)"
    if "externalActionRequest_ok is_uuid q'" "rq_tenantId q' = rq_tenantId q"
      "rq_actionId q' = rq_actionId q \<or> rq_idempotencyKey q' = rq_idempotencyKey q"
      "\<not> (rq_actionId q' = rq_actionId q \<and> rq_idempotencyKey q' = rq_idempotencyKey q \<and>
          externalActionRequestDigest sha256 number_text q' = externalActionRequestDigest sha256 number_text q)"
    for q' clock'
  proof (rule request_conflict [OF inv2 assms(1) that(1) a])
    have k2: "ac_tenantId a = rq_tenantId q" "ac_actionId a = rq_actionId q" "ac_idempotencyKey a = rq_idempotencyKey q"
      "ac_requestDigest a = externalActionRequestDigest sha256 number_text q"
      using known by (simp_all add: request_known_def)
    show "ac_tenantId a = rq_tenantId q'" using k2 that(2) by simp
    show "ac_actionId a = rq_actionId q' \<or> ac_idempotencyKey a = rq_idempotencyKey q'" using k2 that(3) by metis
    show "\<not> (ac_actionId a = rq_actionId q' \<and> ac_idempotencyKey a = rq_idempotencyKey q' \<and>
        ac_requestDigest a = externalActionRequestDigest sha256 number_text q')" using k2 that(4) by metis
  qed
  with a id e(2) again show ?thesis by blast
qed

theorem request_replay_or_conflict_witness:
  "enqueueRequested hex_id example_sha rational_text (still 9) (example_request\<lparr>rq_approvedBy := ''g''\<rparr>) example_ea3 =
     (Inl (ExternalActionConflictError
       ''actionId or idempotencyKey was reused with a different external action request''), example_ea3)"
proof -
  define q' where "q' = example_request\<lparr>rq_approvedBy := ''g''\<rparr>"
  have "\<not> isl (fst (enqueueRequested hex_id example_sha rational_text (still 5) example_request empty_external_actions))"
    by code_simp
  then obtain r where r: "enqueueRequested hex_id example_sha rational_text (still 5) example_request
      empty_external_actions = (Inr r, example_ea1)"
    unfolding example_ea1_def by (metis prod.collapse sum.exhaust sum.disc(1))
  have "externalActionRequest_ok hex_id q'"
    "externalActionRequestDigest example_sha rational_text q' \<noteq>
       externalActionRequestDigest example_sha rational_text example_request"
    unfolding q'_def by code_simp+
  moreover have "rq_tenantId q' = rq_tenantId example_request" "rq_actionId q' = rq_actionId example_request"
    by (simp_all add: q'_def)
  moreover from request_replay_or_conflict [OF uuid_format_hex_id sequence_uuids_hex_id digest_format_example
      rtranclp.rtrancl_refl example_room(1) r example_reachable_actions(3)]
  have "\<forall>q' clock'. externalActionRequest_ok hex_id q' \<and> rq_tenantId q' = rq_tenantId example_request \<and>
       (rq_actionId q' = rq_actionId example_request \<or> rq_idempotencyKey q' = rq_idempotencyKey example_request) \<and>
       \<not> (rq_actionId q' = rq_actionId example_request \<and> rq_idempotencyKey q' = rq_idempotencyKey example_request \<and>
          externalActionRequestDigest example_sha rational_text q' =
            externalActionRequestDigest example_sha rational_text example_request) \<longrightarrow>
       enqueueRequested hex_id example_sha rational_text clock' q' example_ea3 = (Inl (ExternalActionConflictError
         ''actionId or idempotencyKey was reused with a different external action request''), example_ea3)" by blast
  ultimately show ?thesis unfolding q'_def [symmetric] by blast
qed

section \<open>Failures\<close>

lemma failure_reported:
  assumes "ea_inv is_uuid st" and "sequence_uuids is_uuid" and "room st" and "action_by_id st i = Some a"
    and "ac_state a = EaDispatching" and "names_action input a"
    and "ac_dispatchLeaseOwner a = Some (di_leaseOwner input)"
    and "a' = failed_action (fd_errorCode input) (fd_errorMessage input) (nullish_or (di_now input) (clock 0)) a"
  shows "\<exists>st'. failDispatch is_uuid clock input st = (Inr a', st') \<and>
    changed is_uuid (failed_commands a') (''dispatch_failed:'' @ show_integer (ac_dispatchAttempts a)) a' st st'"
proof -
  have a': "ac_id a' = ac_id a" "ac_tenantId a' = ac_tenantId a" "ac_dispatchAttempts a' = ac_dispatchAttempts a"
    by (simp_all add: assms(8) failed_action_def)
  define rest where "rest = then_do (emitLifecycle is_uuid a' ''external_action.failed.v1''
      (''external-action:'' @ ac_id a' @ '':failed'')
      [(''phase'', JStr ''dispatch''), (''error_code'', json_opt (ac_lastErrorCode a'))] (clock 2)) (\<lambda>_.
      then_do (emitFailureIncident is_uuid a' DispatchPhase (clock 3)) (\<lambda>_ st'. (Inr a', st')))"
  have "announces is_uuid (failed_commands a') rest a'"
    unfolding failed_commands_def rest_def
    by (intro announces_lifecycle_then announces_incident_then announces_return)
      (use good_uuids [OF assms(1,4)] a' in simp_all)
  then have "\<exists>st'. write_action is_uuid a' (''dispatch_failed:'' @ show_integer (ac_dispatchAttempts a))
        ''dispatch_failed'' [(''error_code'', json_opt (ac_lastErrorCode a'))] (clock 1) rest st = (Inr a', st') \<and>
      changed is_uuid (failed_commands a') (''dispatch_failed:'' @ show_integer (ac_dispatchAttempts a)) a' st st'"
    by (intro change_succeeds [OF ea_invD(2) [OF assms(1)] assms(2,3)])
      (use good_uuids [OF assms(1,4)] a' in simp_all)
  moreover have "failDispatch is_uuid clock input st =
      write_action is_uuid a' (''dispatch_failed:'' @ show_integer (ac_dispatchAttempts a')) ''dispatch_failed''
        [(''error_code'', json_opt (ac_lastErrorCode a'))] (clock 1) rest st"
    using named_action [OF assms(1,4,6)] assms(5,7)
    unfolding failDispatch_def report_dispatch_def Let_def rest_def assms(8) by (simp add: isSettled_def)
  ultimately show ?thesis by (simp add: a'(3))
qed

text \<open>
  A dispatch failure reported by the owner of the lease is final and announced: the action is failed
  with the redacted error message, the ledger has the failure of this attempt, and the lifecycle event
  and the incident for the founder are on the outbox. Reported by anybody else it is refused and
  nothing changes.
\<close>

theorem failed_dispatch_is_reported:
  assumes "uuid_format is_uuid" and "sequence_uuids is_uuid" and "digest_format sha256"
    and "(ea_any is_uuid sha256 number_text)\<^sup>*\<^sup>* empty_external_actions st" and "room st"
    and "action_by_id st i = Some a" and "ac_state a = EaDispatching" and "names_action input a"
  shows "if ac_dispatchLeaseOwner a = Some (di_leaseOwner input)
    then \<exists>a' st'. failDispatch is_uuid clock input st = (Inr a', st') \<and> action_by_id st' i = Some a' \<and>
      ac_state a' = EaFailed \<and> ac_lastErrorMessage a' = Some (sanitizeErrorMessage (fd_errorMessage input)) \<and>
      has_event st' i (''dispatch_failed:'' @ show_integer (ac_dispatchAttempts a)) \<and>
      list_all (\<lambda>c. find_existing (ob_events (ea_outbox st')) (command_key c) \<noteq> None) (failed_commands a')
    else failDispatch is_uuid clock input st = (Inl (not_dispatching ''fail dispatch'' a), st)"
proof -
  note inv = ea_goodD(4) [OF reachable_ea_good [OF assms(1-4)]]
  show ?thesis
  proof (cases "ac_dispatchLeaseOwner a = Some (di_leaseOwner input)")
    case True
    define a' where "a' = failed_action (fd_errorCode input) (fd_errorMessage input) (nullish_or (di_now input) (clock 0)) a"
    from failure_reported [of is_uuid st i a input a' clock, OF inv assms(2,5-8) True a'_def] obtain st' where
      st': "failDispatch is_uuid clock input st = (Inr a', st')"
        "changed is_uuid (failed_commands a') (''dispatch_failed:'' @ show_integer (ac_dispatchAttempts a)) a' st st'" by blast
    have i: "ac_id a' = i" "ac_state a' = EaFailed"
      "ac_lastErrorMessage a' = Some (sanitizeErrorMessage (fd_errorMessage input))"
      using ea_inv_action(1) [OF inv assms(6)] by (simp_all add: a'_def failed_action_def)
    note ch = st'(2) [unfolded changed_def i(1)]
    have "has_event st' i (''dispatch_failed:'' @ show_integer (ac_dispatchAttempts a))"
      using ch by (auto simp: has_event_def split: if_splits)
    moreover have "action_by_id st' i = Some a'" using ch by simp
    ultimately show ?thesis using True st'(1) i(2,3) ch by auto
  next
    case False
    with named_action [OF inv assms(6,8)] assms(7) show ?thesis
      by (simp add: failDispatch_def report_dispatch_def isSettled_def)
  qed
qed

theorem failed_dispatch_is_reported_witness:
  "\<exists>a' st'. failDispatch hex_id (still 8) example_failure example_ea2 = (Inr a', st') \<and> ac_state a' = EaFailed"
proof -
  obtain a where a: "action_by_id example_ea2 (action_newId 1) = Some a" "ac_state a = EaDispatching"
      "names_action example_dispatch_claim a" "ac_dispatchLeaseOwner a = Some ''w''"
    using example_leased by blast
  have n: "names_action example_failure a" "di_leaseOwner example_failure = ''w''"
    using a(3) by (simp_all add: example_failure_def example_dispatch_claim_def names_action_def)
  from failed_dispatch_is_reported [OF uuid_format_hex_id sequence_uuids_hex_id digest_format_example
      example_reachable_actions(2) example_room(3) a(1,2) n(1), of "still 8"] a(4) n(2)
  show ?thesis by auto
qed

section \<open>What is hashed\<close>

text \<open>
  C22. The digest identifies a request: if SHA-256 does not collide on the canonical texts of two
  requests, their digests are equal exactly when action id, type, approver and idempotency key are
  equal and the payloads are the same JSON value up to the order of object members.
\<close>

theorem digest_identifies_request:
  assumes "number_format number_text"
    and "sha256 (stableJson number_text (request_json q)) = sha256 (stableJson number_text (request_json q')) \<Longrightarrow>
      stableJson number_text (request_json q) = stableJson number_text (request_json q')"
    and "keys_distinct (JObj (rq_requestPayload q))" and "keys_distinct (JObj (rq_requestPayload q'))"
  shows "externalActionRequestDigest sha256 number_text q = externalActionRequestDigest sha256 number_text q' \<longleftrightarrow>
    rq_actionId q = rq_actionId q' \<and> rq_actionType q = rq_actionType q' \<and> rq_approvedBy q = rq_approvedBy q' \<and>
    rq_idempotencyKey q = rq_idempotencyKey q' \<and>
    same_json (JObj (rq_requestPayload q)) (JObj (rq_requestPayload q'))"
proof -
  have "externalActionRequestDigest sha256 number_text q = externalActionRequestDigest sha256 number_text q' \<longleftrightarrow>
      canonical (request_json q) = canonical (request_json q')"
    using assms(2) stableJson_inject [OF assms(1), of "request_json q" "request_json q'"]
    by (auto simp: externalActionRequestDigest_def)
  moreover have "canonical (JObj (rq_requestPayload q)) = canonical (JObj (rq_requestPayload q')) \<longleftrightarrow>
      same_json (JObj (rq_requestPayload q)) (JObj (rq_requestPayload q'))"
    using stableJson_inject [OF assms(1)] stableJson_same [OF assms(1,3,4)] by blast
  ultimately show ?thesis by (auto simp: canonical_request simp del: canonical.simps)
qed

theorem digest_identifies_request_witness:
  "externalActionRequestDigest example_sha rational_text example_request =
     externalActionRequestDigest example_sha rational_text
       (example_request\<lparr>rq_requestPayload := rev (rq_requestPayload example_request)\<rparr>) \<and>
   same_json (JObj (rq_requestPayload example_request)) (JObj (rev (rq_requestPayload example_request)))"
proof -
  define q' where "q' = example_request\<lparr>rq_requestPayload := rev (rq_requestPayload example_request)\<rparr>"
  have "stableJson rational_text (request_json example_request) = stableJson rational_text (request_json q')"
    "keys_distinct (JObj (rq_requestPayload example_request))" "keys_distinct (JObj (rq_requestPayload q'))"
    unfolding q'_def by code_simp+
  moreover from this digest_identifies_request [OF rational_text_format, of example_sha example_request q']
  have "same_json (JObj (rq_requestPayload example_request)) (JObj (rq_requestPayload q'))"
    by (simp add: externalActionRequestDigest_def)
  ultimately show ?thesis unfolding externalActionRequestDigest_def q'_def by simp
qed

section \<open>Reads\<close>

text \<open>
  Reads are typed and scoped to a tenant: whatever a look-up by action id returns satisfies the
  record schema and is the asking tenant's action of that id, and the events listed for it are all
  that action's and that tenant's, in the order they were appended.
\<close>

theorem action_reads_are_scoped:
  assumes "uuid_format is_uuid" and "sequence_uuids is_uuid" and "digest_format sha256"
    and "(ea_any is_uuid sha256 number_text)\<^sup>*\<^sup>* empty_external_actions st"
    and "getByActionId is_uuid t k st = Inr (Some a)"
  shows "externalActionRecord_ok is_uuid a \<and> ac_tenantId a = t \<and> ac_actionId a = k \<and>
    listEvents t k st = Inr (events_of st (ac_id a)) \<and>
    (\<forall>e \<in> set (events_of st (ac_id a)). av_tenantId e = t \<and> av_externalActionId e = ac_id a)"
proof -
  note inv = ea_goodD(4) [OF reachable_ea_good [OF assms(1-4)]]
  from assms(5) have t: "is_uuid t" and f: "find_existing (ea_actions st) (colon_key t k) = Some a"
    by (simp_all add: getByActionId_def split: if_splits)
  from f have a: "action_by_id st (ac_id a) = Some a" "action_key a = colon_key t k"
    using find_existing_Some [OF ea_invD(1) [OF inv]] by blast+
  from a(2) have "ac_tenantId a = t \<and> ac_actionId a = k"
    using colon_key_inject [OF uuid_format_no_colon [OF assms(1) good_uuids(2) [OF inv a(1)]]
        uuid_format_no_colon [OF assms(1) t]] by blast
  moreover have "listEvents t k st = Inr (events_of st (ac_id a))"
    using f by (simp add: listEvents_def action_find_def)
  ultimately show ?thesis using ea_inv_action(2,4) [OF inv a(1)] by (auto simp: action_good_def ledger_ok_def)
qed

theorem action_reads_are_scoped_witness:
  "\<exists>a. getByActionId hex_id ''aa'' ''x'' example_ea2 = Inr (Some a) \<and> externalActionRecord_ok hex_id a"
proof -
  have "\<not> isl (getByActionId hex_id ''aa'' ''x'' example_ea2) \<and> projr (getByActionId hex_id ''aa'' ''x'' example_ea2) \<noteq> None"
    by code_simp
  then obtain a where a: "getByActionId hex_id ''aa'' ''x'' example_ea2 = Inr (Some a)"
    by (metis option.exhaust sum.collapse(2))
  from action_reads_are_scoped [OF uuid_format_hex_id sequence_uuids_hex_id digest_format_example
      example_reachable_actions(2) this] a
  show ?thesis by blast
qed

end
