(* ===== verification/Zod.thy ===== *)
theory Zod
  imports Prelude
begin

text \<open>
  The part of the Zod schema library that the schemas of JSON payloads use, as a language of schemas with
  an interpreter. Objects drop the members their schema does not name and render the others in the
  schema's order; a default stands in for an absent member and is parsed like a given one.

  The main fact is that parsing is idempotent: what a schema returns, it accepts and returns again.
\<close>

datatype presence = Required | Optional | Default json

datatype zod =
    ZString "string \<Rightarrow> string" "string \<Rightarrow> bool"
  | ZNumber "number \<Rightarrow> bool"
  | ZBoolean
  | ZEnum "string list"
  | ZUnknownRecord
  | ZRecord zod
  | ZArray nat zod
  | ZNullable zod
  | ZStringOrNumber "string \<Rightarrow> bool" "number \<Rightarrow> bool"
  | ZObject "(string \<times> presence \<times> zod) list"

text \<open>One member of an object: the members it contributes to the result.\<close>

definition zmember ::
  "string \<Rightarrow> presence \<Rightarrow> (json \<Rightarrow> json option) \<Rightarrow> json option \<Rightarrow> json_record option" where
  "zmember k pr parse v =
     (case v of
        Some x \<Rightarrow> map_option (\<lambda>y. [(k, y)]) (parse x)
      | None \<Rightarrow>
          (case pr of
             Required \<Rightarrow> None
           | Optional \<Rightarrow> Some []
           | Default d \<Rightarrow> map_option (\<lambda>y. [(k, y)]) (parse d)))"

fun zmembers :: "(string \<times> presence \<times> (json \<Rightarrow> json option)) list \<Rightarrow> json_record \<Rightarrow> json_record option" where
  "zmembers [] fs = Some []"
| "zmembers ((k, pr, parse) # ms) fs =
     (case zmember k pr parse (map_of fs k) of
        None \<Rightarrow> None
      | Some part \<Rightarrow> map_option ((@) part) (zmembers ms fs))"

fun zparse :: "zod \<Rightarrow> json \<Rightarrow> json option" where
  "zparse (ZString tr ok) (JStr s) = (if ok (tr s) then Some (JStr (tr s)) else None)"
| "zparse (ZNumber ok) (JNum n) = (if ok n then Some (JNum n) else None)"
| "zparse ZBoolean (JBool b) = Some (JBool b)"
| "zparse (ZEnum vs) (JStr s) = (if s \<in> set vs then Some (JStr s) else None)"
| "zparse ZUnknownRecord (JObj fs) = Some (JObj fs)"
| "zparse (ZRecord z) (JObj fs) =
     map_option (\<lambda>vs. JObj (zip (map fst fs) vs)) (those (map (\<lambda>(k, v). zparse z v) fs))"
| "zparse (ZArray n z) (JArr vs) = (if length vs < n then None else map_option JArr (those (map (zparse z) vs)))"
| "zparse (ZNullable z) v = (if v = JNull then Some JNull else zparse z v)"
| "zparse (ZStringOrNumber ok okn) (JStr s) = (if ok s then Some (JStr s) else None)"
| "zparse (ZStringOrNumber ok okn) (JNum n) = (if okn n then Some (JNum n) else None)"
| "zparse (ZObject ms) (JObj fs) =
     map_option JObj (zmembers (map (\<lambda>(k, pr, z). (k, pr, zparse z)) ms) fs)"
| "zparse _ _ = None"

text \<open>Reading members of a parsed object.\<close>

fun string_at :: "string \<Rightarrow> json_record \<Rightarrow> string" where
  "string_at k fs = (case map_of fs k of Some (JStr s) \<Rightarrow> s | _ \<Rightarrow> [])"

fun string_opt_at :: "string \<Rightarrow> json_record \<Rightarrow> string option" where
  "string_opt_at k fs = (case map_of fs k of Some (JStr s) \<Rightarrow> Some s | _ \<Rightarrow> None)"

fun record_at :: "string \<Rightarrow> json_record \<Rightarrow> json_record" where
  "record_at k fs = (case map_of fs k of Some (JObj r) \<Rightarrow> r | _ \<Rightarrow> [])"

definition object_of :: "json option \<Rightarrow> json_record result" where
  "object_of v = (case v of Some (JObj fs) \<Rightarrow> Inr fs | _ \<Rightarrow> Inl ZodError)"

section \<open>Parsing is idempotent\<close>

lemma zmember_Some:
  "zmember k pr p v = Some part \<longleftrightarrow>
     (\<exists>x y. (v = Some x \<or> v = None \<and> pr = Default x) \<and> p x = Some y \<and> part = [(k, y)]) \<or>
     v = None \<and> pr = Optional \<and> part = []"
  by (cases v; cases pr) (auto simp: zmember_def)

lemma zmembers_Cons:
  "zmembers ((k, pr, p) # ms) fs = Some out \<longleftrightarrow>
     (\<exists>part rest. zmember k pr p (map_of fs k) = Some part \<and> zmembers ms fs = Some rest \<and> out = part @ rest)"
  by (auto split: option.splits)

declare zmembers.simps(2) [simp del]

lemma zmembers_keys: "zmembers ms fs = Some out \<Longrightarrow> fst ` set out \<subseteq> fst ` set ms"
proof (induction ms arbitrary: out)
  case (Cons m ms)
  obtain k pr p where m: "m = (k, pr, p)" by (cases m)
  from Cons.prems obtain part rest where
    "zmember k pr p (map_of fs k) = Some part" "zmembers ms fs = Some rest" "out = part @ rest"
    unfolding m zmembers_Cons by blast
  note parts = this
  have "fst ` set part \<subseteq> {k}"
    using parts(1) unfolding zmember_Some by (elim disjE exE conjE) simp_all
  then show ?case using Cons.IH [OF parts(2)] by (auto simp: m parts(3))
qed simp

lemma zmembers_again:
  assumes "zmembers ms fs = Some out" and "distinct (map fst ms)"
    and "\<forall>(k, pr, p) \<in> set ms. \<forall>x y. p x = Some y \<longrightarrow> p y = Some y"
    and "\<forall>k \<in> fst ` set ms. map_of gs k = map_of out k"
  shows "zmembers ms gs = Some out"
  using assms
proof (induction ms arbitrary: out)
  case (Cons m ms)
  obtain k pr p where m: "m = (k, pr, p)" by (cases m)
  from Cons.prems(1) obtain part rest where
    out: "zmember k pr p (map_of fs k) = Some part" "zmembers ms fs = Some rest" "out = part @ rest"
    by (auto simp: m zmembers_Cons)
  have fresh: "map_of rest k = None"
    using zmembers_keys [OF out(2)] Cons.prems(2) by (auto simp: m map_of_eq_None_iff)
  have part: "map_of part k' = None" if "k' \<noteq> k" for k'
    using out(1) that by (auto simp: zmember_Some)
  have "zmembers ms gs = Some rest"
  proof (rule Cons.IH [OF out(2)])
    show "\<forall>k' \<in> fst ` set ms. map_of gs k' = map_of rest k'"
    proof
      fix k' assume k': "k' \<in> fst ` set ms"
      with Cons.prems(2) have "k' \<noteq> k" by (auto simp: m)
      with part have "map_of out k' = map_of rest k'" by (simp add: out(3) map_add_def)
      moreover have "map_of gs k' = map_of out k'" using Cons.prems(4) k' by (metis image_insert insert_iff list.simps(15))
      ultimately show "map_of gs k' = map_of rest k'" by simp
    qed
  qed (use Cons.prems in \<open>auto simp: m\<close>)
  moreover have "map_of gs k = map_of part k"
    using Cons.prems(4) fresh by (simp add: m out(3) map_add_def split: option.split)
  with out(1) have "zmember k pr p (map_of gs k) = Some part"
    using Cons.prems(3) by (auto simp: zmember_Some m)
  ultimately show ?case by (simp add: m zmembers_Cons out(3))
qed simp

lemma those_Some: "those xs = Some ys \<longleftrightarrow> list_all2 (\<lambda>x y. x = Some y) xs ys"
proof (induction xs arbitrary: ys)
  case Nil
  then show ?case by auto
next
  case (Cons x xs)
  then show ?case by (cases ys) (auto split: option.splits)
qed

lemma those_again:
  assumes "those (map f xs) = Some ys" and "\<And>x y. x \<in> set xs \<Longrightarrow> f x = Some y \<Longrightarrow> f' y = Some y"
  shows "those (map f' ys) = Some ys"
proof -
  from assms(1) have *: "length xs = length ys" "\<forall>i < length ys. f (xs ! i) = Some (ys ! i)"
    by (auto simp: those_Some list_all2_conv_all_nth)
  then have "f' (ys ! i) = Some (ys ! i)" if "i < length ys" for i
    using that assms(2) [of "xs ! i" "ys ! i"] nth_mem [of i xs] by simp
  with * show ?thesis by (simp add: those_Some list_all2_conv_all_nth)
qed

text \<open>Well-formed schemas: transformations are idempotent and members have different names.\<close>

fun zwf :: "zod \<Rightarrow> bool" where
  "zwf (ZString tr ok) \<longleftrightarrow> (\<forall>s. tr (tr s) = tr s)"
| "zwf (ZRecord z) \<longleftrightarrow> zwf z"
| "zwf (ZArray n z) \<longleftrightarrow> zwf z"
| "zwf (ZNullable z) \<longleftrightarrow> zwf z"
| "zwf (ZObject ms) \<longleftrightarrow> distinct (map fst ms) \<and> (\<forall>(k, pr, z) \<in> set ms. zwf z)"
| "zwf _ \<longleftrightarrow> True"

lemma zparse_again: "zwf z \<Longrightarrow> zparse z v = Some w \<Longrightarrow> zparse z w = Some w"
proof (induction z arbitrary: v w)
  case (ZString tr ok)
  then show ?case by (cases v) (auto split: if_splits)
next
  case (ZNumber ok)
  then show ?case by (cases v) (auto split: if_splits)
next
  case ZBoolean
  then show ?case by (cases v) auto
next
  case (ZEnum vs)
  then show ?case by (cases v) (auto split: if_splits)
next
  case ZUnknownRecord
  then show ?case by (cases v) auto
next
  case (ZRecord z)
  then obtain fs vs where v: "v = JObj fs" "those (map (\<lambda>(k, v). zparse z v) fs) = Some vs"
      "w = JObj (zip (map fst fs) vs)" by (cases v) auto
  then have len: "length vs = length fs" by (auto simp: those_Some dest: list_all2_lengthD)
  have "those (map (zparse z) vs) = Some vs"
    by (rule those_again [OF v(2)]) (use ZRecord in auto)
  moreover have "map (\<lambda>(k, v). zparse z v) (zip (map fst fs) vs) = map (zparse z) vs"
  proof -
    have "map (\<lambda>(k, v). zparse z v) (zip (map fst fs) vs) = map (zparse z) (map snd (zip (map fst fs) vs))"
      by (simp add: case_prod_unfold)
    also have "map snd (zip (map fst fs) vs) = vs" by (rule map_snd_zip) (simp add: len)
    finally show ?thesis .
  qed
  ultimately show ?case using len by (simp add: v(3))
next
  case (ZArray n z)
  then obtain vs ws where v: "v = JArr vs" "\<not> length vs < n" "those (map (zparse z) vs) = Some ws" "w = JArr ws"
    by (cases v) (auto split: if_splits)
  then have "length ws = length vs" by (auto simp: those_Some dest: list_all2_lengthD)
  moreover have "those (map (zparse z) ws) = Some ws" by (rule those_again [OF v(3)]) (use ZArray in auto)
  ultimately show ?case using v(2) by (simp add: v(4))
next
  case (ZNullable z)
  then show ?case by (cases "w = JNull") (auto split: if_splits)
next
  case (ZStringOrNumber ok okn)
  then show ?case by (cases v) (auto split: if_splits)
next
  case (ZObject ms)
  define ps where "ps = map (\<lambda>(k, pr, z). (k, pr, zparse z)) ms"
  from ZObject.prems obtain fs out where v: "zmembers ps fs = Some out" "w = JObj out"
    by (cases v) (auto simp: ps_def)
  have keys: "map fst ps = map fst ms" by (simp add: ps_def case_prod_unfold comp_def)
  have "zmembers ps out = Some out"
  proof (rule zmembers_again [OF v(1)])
    show "distinct (map fst ps)" using ZObject.prems(1) by (simp add: keys)
    show "\<forall>(k, pr, p) \<in> set ps. \<forall>x y. p x = Some y \<longrightarrow> p y = Some y"
      using ZObject by (fastforce simp: ps_def)
  qed simp
  then show ?case by (simp add: v(2) ps_def)
qed

end
