(* ===== verification/ChannelContracts.thy ===== *)
theory ChannelContracts
  imports Zod
begin

text \<open>
  The contracts between GrowthOS and n8n: the schemas of
  \<open>src/packages/n8n/src/channel-contracts.ts\<close>. The checks of URLs, e-mail addresses, UUIDs and
  timestamps are Zod's own and parameters here (\<open>is_url\<close>, \<open>is_email\<close>, \<open>is_uuid\<close>, \<open>is_datetime\<close>).

  The typed dispatch request is parsed by the outbox publisher when it reads the event and again by the
  n8n client when it sends it; \<open>typed_dispatch_request_again\<close> says that the second parse returns what
  the first one returned.
\<close>

section \<open>Building blocks\<close>

definition ztext :: "nat \<Rightarrow> nat \<Rightarrow> zod" where
  "ztext least most = ZString id (\<lambda>s. least \<le> length s \<and> length s \<le> most)"

definition zliteral :: "string \<Rightarrow> zod" where
  "zliteral s = ZEnum [s]"

text \<open>\<open>schema.extend(members)\<close>: a member given again replaces the old one.\<close>

definition zextend :: "(string \<times> presence \<times> zod) list \<Rightarrow> (string \<times> presence \<times> zod) list \<Rightarrow> zod" where
  "zextend base members = ZObject (foldl (\<lambda>ms (k, m). AList.update k m ms) base members)"

definition n8nCanonicalSignalTypeValues :: "string list" where
  "n8nCanonicalSignalTypeValues = [''competitive'', ''community'', ''icp'', ''product'', ''market'', ''internal'']"

definition growthosIntegrationChannelValues :: "string list" where
  "growthosIntegrationChannelValues =
     [''reddit'', ''linkedin'', ''email'', ''crm'', ''analytics'', ''cms'', ''search'', ''support'', ''community'',
      ''custom'']"

definition growthosIntegrationChannelSchema :: zod where
  "growthosIntegrationChannelSchema = ZEnum growthosIntegrationChannelValues"

definition n8nActionTypeValues :: "string list" where
  "n8nActionTypeValues =
     [''reddit.post.submit'', ''reddit.comment.submit'', ''linkedin.post.create'', ''linkedin.dm.send'',
      ''email.send'', ''crm.note.create'', ''cms.post.publish'', ''analytics.event.record'', ''custom.execute'']"

definition n8nDispatchCallbackSchema :: "(string \<Rightarrow> bool) \<Rightarrow> zod" where
  "n8nDispatchCallbackSchema is_url = ZObject [(''url'', Required, ZString id is_url)]"

definition n8nTraceContextSchema :: zod where
  "n8nTraceContextSchema =
     ZObject [(''runId'', Optional, ztext 1 255), (''issueId'', Optional, ztext 1 255),
              (''workflowId'', Optional, ztext 1 255), (''executionId'', Optional, ztext 1 255)]"

definition n8nEvidenceRefSchema :: zod where
  "n8nEvidenceRefSchema =
     ZObject [(''type'', Default (JStr ''url''),
                 ZEnum [''url'', ''object'', ''crm_record'', ''screenshot'', ''transcript'']),
              (''uri'', Required, ztext 1 2000), (''label'', Optional, ztext 1 255)]"

section \<open>Signals\<close>

definition n8nCanonicalSignalPayloadSchema :: "(string \<Rightarrow> bool) \<Rightarrow> zod" where
  "n8nCanonicalSignalPayloadSchema is_url =
     ZObject
       [(''channel'', Required, growthosIntegrationChannelSchema),
        (''sourceRecordId'', Required, ztext 1 255),
        (''sourceUrl'', Optional, ZString id is_url),
        (''actor'', Optional,
           ZObject [(''id'', Optional, ztext 1 255), (''name'', Optional, ztext 1 255),
                    (''handle'', Optional, ztext 1 255), (''company'', Optional, ztext 1 255)]),
        (''subject'', Optional, ztext 1 500),
        (''text'', Optional, ztext 0 10000),
        (''engagement'', Optional,
           ZObject [(''kind'', Required, ztext 1 100),
                    (''score'', Optional, ZNumber (\<lambda>x. 0 \<le> x \<and> x \<le> 1)),
                    (''counts'', Optional, ZRecord (ZNumber (\<lambda>x. 0 \<le> x)))]),
        (''evidence'', Default (JArr []), ZArray 0 n8nEvidenceRefSchema),
        (''trace'', Optional, n8nTraceContextSchema),
        (''metadata'', Default (JObj []), ZUnknownRecord)]"

text \<open>\<open>/^[a-zA-Z0-9._:-]+$/\<close>.\<close>

definition is_source_char :: "char \<Rightarrow> bool" where
  "is_source_char c \<longleftrightarrow>
     (let n = (of_char c :: nat)
      in 97 \<le> n \<and> n \<le> 122 \<or> 65 \<le> n \<and> n \<le> 90 \<or> 48 \<le> n \<and> n \<le> 57 \<or>
         c = CHR ''.'' \<or> c = CHR ''_'' \<or> c = CHR '':'' \<or> c = CHR ''-'')"

definition source_ok :: "string \<Rightarrow> bool" where
  "source_ok s \<longleftrightarrow> 1 \<le> length s \<and> length s \<le> 100 \<and> list_all is_source_char s"

definition n8nCanonicalSignalEnvelopeSchema :: "(string \<Rightarrow> bool) \<Rightarrow> (string \<Rightarrow> bool) \<Rightarrow> zod" where
  "n8nCanonicalSignalEnvelopeSchema is_datetime is_url =
     ZObject
       [(''eventId'', Required, ztext 1 255), (''source'', Required, ZString id source_ok),
        (''signalType'', Required, ZEnum n8nCanonicalSignalTypeValues),
        (''occurredAt'', Required, ZString id is_datetime), (''workflowId'', Optional, ztext 1 255),
        (''executionId'', Optional, ztext 1 255),
        (''payload'', Required, n8nCanonicalSignalPayloadSchema is_url)]"

text \<open>The input's payload is parsed on its own first; a missing payload fails there.\<close>

definition buildCanonicalN8nSignalEnvelope ::
  "(string \<Rightarrow> bool) \<Rightarrow> (string \<Rightarrow> bool) \<Rightarrow> json_record \<Rightarrow> json_record result" where
  "buildCanonicalN8nSignalEnvelope is_datetime is_url input =
     (case map_of input ''payload'' of
        None \<Rightarrow> Inl ZodError
      | Some p \<Rightarrow>
          and_then (object_of (zparse (n8nCanonicalSignalPayloadSchema is_url) p)) (\<lambda>payload.
            object_of (zparse (n8nCanonicalSignalEnvelopeSchema is_datetime is_url)
              (JObj (AList.update ''payload'' (JObj payload) input)))))"

section \<open>Actions\<close>

definition dispatchBasePayload :: "(string \<times> presence \<times> zod) list" where
  "dispatchBasePayload =
     [(''channel'', Required, growthosIntegrationChannelSchema), (''dryRun'', Default (JBool False), ZBoolean),
      (''trace'', Optional, n8nTraceContextSchema), (''metadata'', Default (JObj []), ZUnknownRecord)]"

definition redditPostSubmitPayloadSchema :: "(string \<Rightarrow> bool) \<Rightarrow> zod" where
  "redditPostSubmitPayloadSchema is_url = zextend dispatchBasePayload
     [(''channel'', Required, zliteral ''reddit''), (''subreddit'', Required, ztext 1 100),
      (''title'', Required, ztext 1 300), (''text'', Optional, ztext 0 10000),
      (''url'', Optional, ZString id is_url)]"

definition redditCommentSubmitPayloadSchema :: "(string \<Rightarrow> bool) \<Rightarrow> zod" where
  "redditCommentSubmitPayloadSchema is_url = zextend dispatchBasePayload
     [(''channel'', Required, zliteral ''reddit''), (''subreddit'', Optional, ztext 1 100),
      (''parentId'', Required, ztext 1 255), (''text'', Required, ztext 1 10000),
      (''sourceUrl'', Optional, ZString id is_url)]"

definition linkedinPostCreatePayloadSchema :: "(string \<Rightarrow> bool) \<Rightarrow> zod" where
  "linkedinPostCreatePayloadSchema is_url = zextend dispatchBasePayload
     [(''channel'', Required, zliteral ''linkedin''), (''postAs'', Required, ZEnum [''person'', ''organization'']),
      (''ownerId'', Required, ztext 1 255), (''text'', Required, ztext 1 3000),
      (''mediaUrls'', Default (JArr []), ZArray 0 (ZString id is_url))]"

definition linkedinDmSendPayloadSchema :: zod where
  "linkedinDmSendPayloadSchema = zextend dispatchBasePayload
     [(''channel'', Required, zliteral ''linkedin''), (''recipientId'', Required, ztext 1 255),
      (''text'', Required, ztext 1 3000)]"

definition emailSendPayloadSchema :: "(string \<Rightarrow> bool) \<Rightarrow> zod" where
  "emailSendPayloadSchema is_email = zextend dispatchBasePayload
     [(''channel'', Required, zliteral ''email''), (''to'', Required, ZArray 1 (ZString id is_email)),
      (''subject'', Required, ztext 1 300), (''text'', Required, ztext 1 20000),
      (''html'', Optional, ztext 0 50000)]"

text \<open>The discriminated union: the payload schema of each action type.\<close>

definition n8nDispatchActionSchema :: "(string \<Rightarrow> bool) \<Rightarrow> (string \<Rightarrow> bool) \<Rightarrow> (string \<times> zod) list" where
  "n8nDispatchActionSchema is_url is_email =
     [(''reddit.post.submit'', redditPostSubmitPayloadSchema is_url),
      (''reddit.comment.submit'', redditCommentSubmitPayloadSchema is_url),
      (''linkedin.post.create'', linkedinPostCreatePayloadSchema is_url),
      (''linkedin.dm.send'', linkedinDmSendPayloadSchema),
      (''email.send'', emailSendPayloadSchema is_email),
      (''crm.note.create'', zextend dispatchBasePayload
         [(''channel'', Required, zliteral ''crm''), (''recordId'', Required, ztext 1 255),
          (''note'', Required, ztext 1 20000)]),
      (''cms.post.publish'', zextend dispatchBasePayload
         [(''channel'', Required, zliteral ''cms''), (''title'', Required, ztext 1 300),
          (''bodyMarkdown'', Required, ZString id (\<lambda>s. s \<noteq> [])), (''slug'', Optional, ztext 1 255)]),
      (''analytics.event.record'', zextend dispatchBasePayload
         [(''channel'', Required, zliteral ''analytics''), (''eventName'', Required, ztext 1 255),
          (''properties'', Default (JObj []), ZUnknownRecord)]),
      (''custom.execute'', zextend dispatchBasePayload
         [(''channel'', Required, zliteral ''custom''), (''operation'', Required, ztext 1 255),
          (''input'', Default (JObj []), ZUnknownRecord)])]"

text \<open>\<open>n8nDispatchActionSchema\<close> applied to an action type and a payload.\<close>

definition action_payload_parse ::
  "(string \<Rightarrow> bool) \<Rightarrow> (string \<Rightarrow> bool) \<Rightarrow> string \<Rightarrow> json_record \<Rightarrow> json_record result" where
  "action_payload_parse is_url is_email actionType payload =
     (case map_of (n8nDispatchActionSchema is_url is_email) actionType of
        None \<Rightarrow> Inl ZodError
      | Some z \<Rightarrow> object_of (zparse z (JObj payload)))"

section \<open>The typed dispatch request\<close>

record n8nTypedDispatchRequest =
  nr_tenantId :: string
  nr_actionId :: string
  nr_actionType :: string
  nr_approvedBy :: string
  nr_idempotencyKey :: string
  nr_payload :: json_record
  nr_callback :: "string option"

definition typed_request_members ::
  "(string \<Rightarrow> bool) \<Rightarrow> (string \<Rightarrow> bool) \<Rightarrow> (string \<times> presence \<times> zod) list" where
  "typed_request_members is_uuid is_url =
     [(''tenantId'', Required, ZString id is_uuid), (''actionId'', Required, ztext 1 255),
      (''actionType'', Required, ztext 1 100), (''approvedBy'', Required, ztext 1 255),
      (''idempotencyKey'', Required, ztext 1 255), (''payload'', Default (JObj []), ZUnknownRecord),
      (''callback'', Optional, n8nDispatchCallbackSchema is_url)]"

definition typed_request_of :: "json_record \<Rightarrow> n8nTypedDispatchRequest" where
  "typed_request_of fs =
     \<lparr>nr_tenantId = string_at ''tenantId'' fs, nr_actionId = string_at ''actionId'' fs,
      nr_actionType = string_at ''actionType'' fs, nr_approvedBy = string_at ''approvedBy'' fs,
      nr_idempotencyKey = string_at ''idempotencyKey'' fs, nr_payload = record_at ''payload'' fs,
      nr_callback = string_opt_at ''url'' (record_at ''callback'' fs)\<rparr>"

text \<open>The request as the JSON object it is.\<close>

definition request_object :: "n8nTypedDispatchRequest \<Rightarrow> json_record" where
  "request_object r =
     [(''tenantId'', JStr (nr_tenantId r)), (''actionId'', JStr (nr_actionId r)),
      (''actionType'', JStr (nr_actionType r)), (''approvedBy'', JStr (nr_approvedBy r)),
      (''idempotencyKey'', JStr (nr_idempotencyKey r)), (''payload'', JObj (nr_payload r))] @
     (case nr_callback r of None \<Rightarrow> [] | Some u \<Rightarrow> [(''callback'', JObj [(''url'', JStr u)])])"

text \<open>The refinement reports an unsupported type or a bad payload; the transform then parses the payload.\<close>

definition n8nTypedDispatchRequestSchema_parse ::
  "(string \<Rightarrow> bool) \<Rightarrow> (string \<Rightarrow> bool) \<Rightarrow> (string \<Rightarrow> bool) \<Rightarrow> json_record \<Rightarrow> n8nTypedDispatchRequest result" where
  "n8nTypedDispatchRequestSchema_parse is_uuid is_url is_email input =
     and_then (object_of (zparse (ZObject (typed_request_members is_uuid is_url)) (JObj input))) (\<lambda>fs.
       (let request = typed_request_of fs
        in if nr_actionType request \<notin> set n8nActionTypeValues then Inl ZodError
           else and_then (action_payload_parse is_url is_email (nr_actionType request) (nr_payload request))
             (\<lambda>payload. Inr (request\<lparr>nr_payload := payload\<rparr>))))"

section \<open>The result callback\<close>

definition n8nDispatchResultCallbackSchema :: "(string \<Rightarrow> bool) \<Rightarrow> (string \<Rightarrow> bool) \<Rightarrow> zod" where
  "n8nDispatchResultCallbackSchema is_uuid is_datetime =
     ZObject
       [(''tenantId'', Required, ZString id is_uuid), (''actionId'', Required, ztext 1 255),
        (''idempotencyKey'', Required, ztext 1 255), (''callbackId'', Required, ztext 1 255),
        (''status'', Required, ZEnum [''completed'', ''failed'']), (''workflowId'', Optional, ztext 1 255),
        (''executionId'', Optional, ztext 1 255), (''providerReference'', Optional, ztext 1 255),
        (''outcome'', Default (JObj []), ZUnknownRecord), (''errorCode'', Optional, ztext 1 255),
        (''errorMessage'', Optional, ztext 1 2000), (''occurredAt'', Optional, ZString id is_datetime)]"

section \<open>The schemas are well-formed\<close>

lemmas block_defs = ztext_def zliteral_def zextend_def dispatchBasePayload_def growthosIntegrationChannelSchema_def
  n8nTraceContextSchema_def n8nEvidenceRefSchema_def n8nDispatchCallbackSchema_def

lemma signal_payload_wf: "zwf (n8nCanonicalSignalPayloadSchema is_url)"
  by (simp add: n8nCanonicalSignalPayloadSchema_def block_defs)

lemma action_schemas_wf:
  assumes "map_of (n8nDispatchActionSchema is_url is_email) ty = Some z"
  shows "zwf z"
proof -
  have "list_all (\<lambda>(ty, z). zwf z) (n8nDispatchActionSchema is_url is_email)"
    by (simp add: n8nDispatchActionSchema_def redditPostSubmitPayloadSchema_def redditCommentSubmitPayloadSchema_def
        linkedinPostCreatePayloadSchema_def linkedinDmSendPayloadSchema_def emailSendPayloadSchema_def block_defs)
  with map_of_SomeD [OF assms] show ?thesis by (auto simp: list_all_iff)
qed

lemma object_of_Inr [simp]: "object_of v = Inr fs \<longleftrightarrow> v = Some (JObj fs)"
  by (auto simp: object_of_def split: option.splits json.splits)

lemma action_payload_again:
  assumes "action_payload_parse is_url is_email ty p = Inr q"
  shows "action_payload_parse is_url is_email ty q = Inr q"
  using assms zparse_again [OF action_schemas_wf] by (auto simp: action_payload_parse_def split: option.splits)

section \<open>Parsing a request again\<close>

definition request_fields_ok :: "(string \<Rightarrow> bool) \<Rightarrow> (string \<Rightarrow> bool) \<Rightarrow> n8nTypedDispatchRequest \<Rightarrow> bool" where
  "request_fields_ok is_uuid is_url r \<longleftrightarrow>
     is_uuid (nr_tenantId r) \<and> nr_actionId r \<noteq> [] \<and> length (nr_actionId r) \<le> 255 \<and>
     nr_actionType r \<noteq> [] \<and> length (nr_actionType r) \<le> 100 \<and> nr_approvedBy r \<noteq> [] \<and>
     length (nr_approvedBy r) \<le> 255 \<and> nr_idempotencyKey r \<noteq> [] \<and> length (nr_idempotencyKey r) \<le> 255 \<and>
     pred_opt is_url (nr_callback r)"

lemma zparse_text: "zparse (ztext m n) v = Some w \<longleftrightarrow> (\<exists>s. v = JStr s \<and> w = JStr s \<and> m \<le> length s \<and> length s \<le> n)"
  by (cases v) (auto simp: ztext_def)

lemma zparse_check: "zparse (ZString id P) v = Some w \<longleftrightarrow> (\<exists>s. v = JStr s \<and> w = JStr s \<and> P s)"
  by (cases v) auto

lemma zparse_any_record: "zparse ZUnknownRecord v = Some w \<longleftrightarrow> (\<exists>fs. v = JObj fs \<and> w = JObj fs)"
  by (cases v) auto

lemma zparse_callback:
  "zparse (n8nDispatchCallbackSchema is_url) v = Some w \<longleftrightarrow>
     (\<exists>fs u. v = JObj fs \<and> map_of fs ''url'' = Some (JStr u) \<and> is_url u \<and> w = JObj [(''url'', JStr u)])"
  by (cases v) (auto simp: n8nDispatchCallbackSchema_def zmembers_Cons zmember_Some zparse_check)

lemma zparse_object:
  "zparse (ZObject ms) (JObj fs) = Some (JObj out) \<longleftrightarrow>
     zmembers (map (\<lambda>(k, pr, z). (k, pr, zparse z)) ms) fs = Some out"
  by auto

lemma request_members_parse:
  assumes "zparse (ZObject (typed_request_members is_uuid is_url)) (JObj fs) = Some (JObj out)"
  shows "out = request_object (typed_request_of out) \<and> request_fields_ok is_uuid is_url (typed_request_of out)"
  using assms unfolding zparse_object typed_request_members_def
  by (auto simp: zmembers_Cons zmember_Some zparse_text zparse_check zparse_any_record zparse_callback
      request_object_def typed_request_of_def request_fields_ok_def Suc_le_eq)

lemma request_object_parse:
  assumes "request_fields_ok is_uuid is_url r"
  shows "zparse (ZObject (typed_request_members is_uuid is_url)) (JObj (request_object r)) =
      Some (JObj (request_object r))" "typed_request_of (request_object r) = r"
proof -
  show "typed_request_of (request_object r) = r"
    by (cases "nr_callback r") (simp_all add: typed_request_of_def request_object_def)
  show "zparse (ZObject (typed_request_members is_uuid is_url)) (JObj (request_object r)) =
      Some (JObj (request_object r))"
    unfolding zparse_object typed_request_members_def
    by (cases "nr_callback r") (use assms in \<open>simp_all add: zmembers.simps(2) zmember_def ztext_def
        n8nDispatchCallbackSchema_def request_object_def request_fields_ok_def Suc_le_eq\<close>)
qed

text \<open>
  What the schema returns for an event's payload is accepted again when it is sent as JSON with any
  callback URL or none, and comes back with the same payload; its type is one of the supported ones.
\<close>

lemma typed_request_with_callback:
  assumes "n8nTypedDispatchRequestSchema_parse is_uuid is_url is_email input = Inr r" and "pred_opt is_url c"
  shows "n8nTypedDispatchRequestSchema_parse is_uuid is_url is_email (request_object (r\<lparr>nr_callback := c\<rparr>)) =
      Inr (r\<lparr>nr_callback := c\<rparr>)"
    and "pred_opt is_url (nr_callback r)" and "nr_actionType r \<in> set n8nActionTypeValues"
proof -
  from assms(1) obtain out payload where out:
      "zparse (ZObject (typed_request_members is_uuid is_url)) (JObj input) = Some (JObj out)"
      "nr_actionType (typed_request_of out) \<in> set n8nActionTypeValues"
      "action_payload_parse is_url is_email (nr_actionType (typed_request_of out)) (nr_payload (typed_request_of out)) =
         Inr payload"
      "r = (typed_request_of out)\<lparr>nr_payload := payload\<rparr>"
    by (auto simp: n8nTypedDispatchRequestSchema_parse_def Let_def split: if_splits)
  define q where "q = r\<lparr>nr_callback := c\<rparr>"
  have "request_fields_ok is_uuid is_url q"
    using request_members_parse [OF out(1)] assms(2) by (simp add: q_def out(4) request_fields_ok_def)
  note again = request_object_parse [OF this]
  have "nr_actionType q = nr_actionType (typed_request_of out)" "nr_payload q = payload"
    by (simp_all add: q_def out(4))
  with out(2) action_payload_again [OF out(3)] again
  show "n8nTypedDispatchRequestSchema_parse is_uuid is_url is_email (request_object (r\<lparr>nr_callback := c\<rparr>)) =
      Inr (r\<lparr>nr_callback := c\<rparr>)"
    by (simp add: n8nTypedDispatchRequestSchema_parse_def Let_def q_def [symmetric])
  show "pred_opt is_url (nr_callback r)"
    using request_members_parse [OF out(1)] by (simp add: out(4) request_fields_ok_def)
  show "nr_actionType r \<in> set n8nActionTypeValues" using out(2) by (simp add: out(4))
qed

lemma typed_dispatch_request_again:
  assumes "n8nTypedDispatchRequestSchema_parse is_uuid is_url is_email input = Inr r"
    and "pred_opt is_url callback"
  shows "n8nTypedDispatchRequestSchema_parse is_uuid is_url is_email
      (request_object (r\<lparr>nr_callback := nullish callback (nr_callback r)\<rparr>)) =
        Inr (r\<lparr>nr_callback := nullish callback (nr_callback r)\<rparr>) \<and>
    nr_actionType r \<in> set n8nActionTypeValues"
proof -
  have "pred_opt is_url (nullish callback (nr_callback r))"
    using assms(2) typed_request_with_callback(2) [OF assms] by (cases callback) simp_all
  from typed_request_with_callback(1,3) [OF assms(1) this] show ?thesis by blast
qed

definition example_dispatch :: json_record where
  "example_dispatch =
     [(''tenantId'', JStr ''aa''), (''actionId'', JStr ''x''), (''actionType'', JStr ''custom.execute''),
      (''approvedBy'', JStr ''f''), (''idempotencyKey'', JStr ''k''),
      (''payload'', JObj [(''channel'', JStr ''custom''), (''operation'', JStr ''op''), (''extra'', JNull)])]"

definition example_typed :: n8nTypedDispatchRequest where
  "example_typed =
     \<lparr>nr_tenantId = ''aa'', nr_actionId = ''x'', nr_actionType = ''custom.execute'', nr_approvedBy = ''f'',
      nr_idempotencyKey = ''k'',
      nr_payload = [(''channel'', JStr ''custom''), (''dryRun'', JBool False), (''metadata'', JObj []),
        (''operation'', JStr ''op''), (''input'', JObj [])], nr_callback = None\<rparr>"

lemma example_dispatch_parse:
  "n8nTypedDispatchRequestSchema_parse hex_id (\<lambda>u. u \<noteq> []) (\<lambda>_. True) example_dispatch = Inr example_typed"
proof -
  have "hex_id ''aa''" by code_simp
  then show ?thesis
    by (simp add: n8nTypedDispatchRequestSchema_parse_def example_dispatch_def typed_request_members_def ztext_def
        zmembers.simps(2) zmember_def object_of_def typed_request_of_def n8nActionTypeValues_def Let_def
        action_payload_parse_def n8nDispatchActionSchema_def zextend_def dispatchBasePayload_def zliteral_def
        example_typed_def)
qed

end
