(* ===== verification/N8nClient.thy ===== *)
theory N8nClient
  imports ChannelContracts CanonicalText Redaction
begin

text \<open>
  The n8n client of \<open>src/packages/n8n/src/index.ts\<close>: signing and verifying payloads, the metadata lifted
  from a receipt, and \<open>N8nDispatchClient\<close>. The HMAC-SHA-256 digest (\<open>hmac secret body\<close>, hexadecimal),
  the text of numbers and \<open>fetch\<close> are parameters; a reply is what \<open>fetch\<close> gave, with its body already
  decoded (\<open>parseResponseBody\<close>), or the error it threw, an abort by the timeout among them.
\<close>

section \<open>Contracts of the gateway\<close>

definition n8nSignalTypeValues :: "string list" where
  "n8nSignalTypeValues = [''competitive'', ''community'', ''icp'', ''product'', ''market'', ''internal'']"

definition n8nSignalEnvelopeSchema :: "(string \<Rightarrow> bool) \<Rightarrow> zod" where
  "n8nSignalEnvelopeSchema is_datetime =
     ZObject
       [(''eventId'', Required, ztext 1 255), (''source'', Required, ZString id source_ok),
        (''signalType'', Required, ZEnum n8nSignalTypeValues), (''occurredAt'', Required, ZString id is_datetime),
        (''workflowId'', Optional, ztext 1 255), (''executionId'', Optional, ztext 1 255),
        (''payload'', Default (JObj []), ZUnknownRecord)]"

datatype n8nDispatchResult =
    N8nDispatchSuccess number json
  | N8nDispatchFailure "number option" string bool "json option"

record n8nDispatchClientConfig =
  nc_webhookUrl :: string
  nc_timeoutMs :: "number option"
  nc_sharedSecret :: "string option"

section \<open>Signatures\<close>

definition normalizeSignature :: "string \<Rightarrow> string" where
  "normalizeSignature signature =
     (if take 7 (trim signature) = ''sha256='' then drop 7 (trim signature) else trim signature)"

definition is_hex_char :: "char \<Rightarrow> bool" where
  "is_hex_char c \<longleftrightarrow>
     (let n = (of_char c :: nat) in 48 \<le> n \<and> n \<le> 57 \<or> 65 \<le> n \<and> n \<le> 70 \<or> 97 \<le> n \<and> n \<le> 102)"

text \<open>\<open>Buffer.from(s, "hex")\<close> of hexadecimal digits.\<close>

definition hex_value :: "char \<Rightarrow> nat" where
  "hex_value c =
     (let n = of_char c in if n \<le> 57 then n - 48 else if n \<le> 70 then n - 55 else n - 87)"

fun hex_bytes :: "string \<Rightarrow> nat list" where
  "hex_bytes (a # b # r) = (16 * hex_value a + hex_value b) # hex_bytes r"
| "hex_bytes _ = []"

definition verifyN8nSignature ::
  "(string \<Rightarrow> string \<Rightarrow> string) \<Rightarrow> string \<Rightarrow> string option \<Rightarrow> string \<Rightarrow> bool" where
  "verifyN8nSignature hmac rawBody signature secret =
     (case signature of
        None \<Rightarrow> False
      | Some s \<Rightarrow>
          if s = [] \<or> secret = [] then False
          else
            (let normalized = normalizeSignature s
             in if \<not> (length normalized = 64 \<and> list_all is_hex_char normalized) then False
                else
                  (let expected = hex_bytes (hmac secret rawBody); actual = hex_bytes normalized
                   in if length actual \<noteq> length expected then False else actual = expected)))"

text \<open>What is relied on from the digest: 64 lower-case hexadecimal digits.\<close>

definition hmac_format :: "(string \<Rightarrow> string \<Rightarrow> string) \<Rightarrow> bool" where
  "hmac_format hmac \<longleftrightarrow>
     (\<forall>k s. length (hmac k s) = 64 \<and> list_all is_hex_char (hmac k s) \<and> map fold_case (hmac k s) = hmac k s)"

lemma hex_value_less: "is_hex_char c \<Longrightarrow> hex_value c < 16"
  by (auto simp: is_hex_char_def hex_value_def Let_def)

lemma fold_case_of_char:
  "of_char (fold_case c) = (let n = (of_char c :: nat) in if 65 \<le> n \<and> n \<le> 90 then n + 32 else n)"
  by (simp add: fold_case_def Let_def)

lemma hex_arith:
  fixes m n :: nat
  assumes "48 \<le> m \<and> m \<le> 57 \<or> 65 \<le> m \<and> m \<le> 70 \<or> 97 \<le> m \<and> m \<le> 102"
    and "48 \<le> n \<and> n \<le> 57 \<or> 65 \<le> n \<and> n \<le> 70 \<or> 97 \<le> n \<and> n \<le> 102"
  shows "(if m \<le> 57 then m - 48 else if m \<le> 70 then m - 55 else m - 87) =
      (if n \<le> 57 then n - 48 else if n \<le> 70 then n - 55 else n - 87) \<longleftrightarrow>
    (if 65 \<le> m \<and> m \<le> 90 then m + 32 else m) = (if 65 \<le> n \<and> n \<le> 90 then n + 32 else n)"
  using assms by (auto split: if_splits)

lemma hex_value_eq:
  assumes "is_hex_char c" and "is_hex_char d"
  shows "hex_value c = hex_value d \<longleftrightarrow> fold_case c = fold_case d"
proof -
  have "fold_case c = fold_case d \<longleftrightarrow> (of_char (fold_case c) :: nat) = of_char (fold_case d)"
    by (simp only: of_char_eq_iff)
  with hex_arith [of "of_char c" "of_char d"] assms show ?thesis
    unfolding fold_case_of_char is_hex_char_def hex_value_def Let_def by simp
qed

lemma hex_byte:
  fixes a b c d :: nat
  assumes "a < 16" and "b < 16" and "c < 16" and "d < 16"
  shows "16 * a + b = 16 * c + d \<longleftrightarrow> a = c \<and> b = d"
proof -
  have "(16 * x + y) div 16 = x" if "y < 16" for x y :: nat using that by simp
  with assms show ?thesis by (metis add_left_cancel)
qed

lemma hex_bytes_eq:
  assumes "list_all is_hex_char s" and "list_all is_hex_char t" and "even (length s)" and "length s = length t"
  shows "hex_bytes s = hex_bytes t \<longleftrightarrow> map fold_case s = map fold_case t"
  using assms
proof (induction s arbitrary: t rule: hex_bytes.induct)
  case (1 a b r)
  from 1(5) obtain c t1 where "t = c # t1" "length t1 = Suc (length r)" by (cases t) auto
  then obtain d u where t: "t = c # d # u" by (cases t1) auto
  have hex: "hex_value a < 16" "hex_value b < 16" "hex_value c < 16" "hex_value d < 16"
    using 1 by (simp_all add: t hex_value_less)
  then have "16 * hex_value a + hex_value b = 16 * hex_value c + hex_value d \<longleftrightarrow>
      hex_value a = hex_value c \<and> hex_value b = hex_value d" by (rule hex_byte)
  with 1 hex_value_eq [of a c] hex_value_eq [of b d] show ?case by (simp add: t)
qed auto

text \<open>
  A signature is accepted exactly when it is the HMAC of the raw body under the shared secret: up
  to surrounding white space, one \<open>sha256=\<close> prefix and the case of the hexadecimal digits. Without a
  secret or a signature nothing is accepted.
\<close>

lemma signature_accepted:
  assumes "hmac_format hmac"
  shows "verifyN8nSignature hmac rawBody signature secret \<longleftrightarrow>
    secret \<noteq> [] \<and> (\<exists>s. signature = Some s \<and> map fold_case (normalizeSignature s) = hmac secret rawBody)"
proof -
  have h: "length (hmac secret rawBody) = 64" "list_all is_hex_char (hmac secret rawBody)"
    "map fold_case (hmac secret rawBody) = hmac secret rawBody"
    using assms unfolding hmac_format_def by blast+
  have eq: "length n = 64 \<and> list_all is_hex_char n \<and> hex_bytes n = hex_bytes (hmac secret rawBody) \<longleftrightarrow>
      map fold_case n = hmac secret rawBody" for n
  proof
    assume *: "length n = 64 \<and> list_all is_hex_char n \<and> hex_bytes n = hex_bytes (hmac secret rawBody)"
    with hex_bytes_eq [of n "hmac secret rawBody"] h show "map fold_case n = hmac secret rawBody" by simp
  next
    assume *: "map fold_case n = hmac secret rawBody"
    then have len: "length n = 64" using h(1) by (metis length_map)
    have "is_hex_char c" if "c \<in> set n" for c
    proof -
      have "fold_case c \<in> set (hmac secret rawBody)" using that unfolding * [symmetric] by simp
      then have "is_hex_char (fold_case c)" using h(2) by (simp add: list_all_iff)
      then show ?thesis unfolding is_hex_char_def fold_case_of_char Let_def by (auto split: if_splits)
    qed
    then have "list_all is_hex_char n" by (simp add: list_all_iff)
    with * len hex_bytes_eq [of n "hmac secret rawBody"] h
    show "length n = 64 \<and> list_all is_hex_char n \<and> hex_bytes n = hex_bytes (hmac secret rawBody)" by simp
  qed
  have "normalizeSignature [] = []" by (simp add: normalizeSignature_def trim_def)
  with h(1) have nil: "map fold_case (normalizeSignature []) \<noteq> hmac secret rawBody" by force
  have "verifyN8nSignature hmac rawBody (Some s) secret \<longleftrightarrow>
      s \<noteq> [] \<and> secret \<noteq> [] \<and> length (normalizeSignature s) = 64 \<and> list_all is_hex_char (normalizeSignature s) \<and>
      hex_bytes (normalizeSignature s) = hex_bytes (hmac secret rawBody)" for s
    by (auto simp: verifyN8nSignature_def Let_def simp del: hex_bytes.simps)
  moreover have "\<not> verifyN8nSignature hmac rawBody None secret" by (simp add: verifyN8nSignature_def)
  ultimately show ?thesis using eq nil by (cases signature) (simp, metis option.inject)
qed

definition example_hmac :: "string \<Rightarrow> string \<Rightarrow> string" where
  "example_hmac secret body = replicate 62 CHR ''a'' @ ''0b''"

lemma hmac_format_example: "hmac_format example_hmac"
proof -
  have "is_hex_char CHR ''a'' \<and> is_hex_char CHR ''0'' \<and> is_hex_char CHR ''b''"
    "fold_case CHR ''a'' = CHR ''a'' \<and> fold_case CHR ''0'' = CHR ''0'' \<and> fold_case CHR ''b'' = CHR ''b''"
    by code_simp+
  then show ?thesis by (simp add: hmac_format_def example_hmac_def list_all_iff)
qed

lemma normalized_hmac:
  assumes "hmac_format hmac"
  shows "map fold_case (normalizeSignature (hmac secret body)) = hmac secret body"
proof -
  have h: "\<forall>c \<in> set (hmac secret body). is_hex_char c" "map fold_case (hmac secret body) = hmac secret body"
    using assms unfolding hmac_format_def list_all_iff by blast+
  have sp: "\<not> is_space c" if "is_hex_char c" for c
    using that by (auto simp: is_space_def is_hex_char_def Let_def)
  have keep: "dropWhile is_space s = s" if "\<forall>c \<in> set s. is_hex_char c" for s
    using that sp by (cases s) simp_all
  have "trim (hmac secret body) = hmac secret body"
    using keep [OF h(1)] keep [of "rev (hmac secret body)"] h(1) by (simp add: trim_def)
  note trimmed = this
  have "\<not> is_hex_char CHR ''=''" by code_simp
  moreover have "CHR ''='' \<in> set ''sha256=''" by simp
  ultimately have "take 7 (hmac secret body) \<noteq> ''sha256=''"
    using h(1) set_take_subset [of 7 "hmac secret body"] by (metis subsetD)
  with trimmed h(2) show ?thesis by (simp only: normalizeSignature_def if_False)
qed

section \<open>Receipts\<close>

text \<open>\<open>nonEmptyString(value)\<close>.\<close>

fun nonEmptyString :: "json option \<Rightarrow> string option" where
  "nonEmptyString (Some (JStr s)) = (if s = [] then None else Some s)"
| "nonEmptyString _ = None"

definition object_or_empty :: "json option \<Rightarrow> json_record" where
  "object_or_empty v = (case v of Some (JObj fs) \<Rightarrow> fs | _ \<Rightarrow> [])"

fun receipt_value :: "json_record \<Rightarrow> json_record \<Rightarrow> string list \<Rightarrow> string option" where
  "receipt_value body nested [] = None"
| "receipt_value body nested (key # keys) =
     (case nullish (nonEmptyString (map_of body key)) (nonEmptyString (map_of nested key)) of
        Some v \<Rightarrow> Some v
      | None \<Rightarrow> receipt_value body nested keys)"

record n8nDispatchReceiptMetadata =
  rm_workflowId :: "string option"
  rm_executionId :: "string option"
  rm_providerReference :: "string option"

definition extractN8nDispatchReceiptMetadata :: "json \<Rightarrow> n8nDispatchReceiptMetadata" where
  "extractN8nDispatchReceiptMetadata body =
     (let top = object_or_empty (Some body); nested = object_or_empty (map_of top ''data'')
      in \<lparr>rm_workflowId = receipt_value top nested [''workflowId'', ''workflow_id''],
          rm_executionId = receipt_value top nested [''executionId'', ''execution_id''],
          rm_providerReference = receipt_value top nested
            [''providerReference'', ''provider_reference'', ''messageId'', ''message_id'']\<rparr>)"

section \<open>The dispatch client\<close>

definition N8nDispatchClient_new :: "(string \<Rightarrow> bool) \<Rightarrow> n8nDispatchClientConfig \<Rightarrow> n8nDispatchClientConfig result" where
  "N8nDispatchClient_new is_url =
     zod_parse (\<lambda>c. c\<lparr>nc_timeoutMs := Some (nullish_or (nc_timeoutMs c) 10000)\<rparr>)
       (\<lambda>c. is_url (nc_webhookUrl c) \<and> pred_opt is_positive_int (nc_timeoutMs c) \<and>
          pred_opt (\<lambda>s. s \<noteq> []) (nc_sharedSecret c))"

record http_request =
  hr_url :: string
  hr_idempotencyKey :: string
  hr_signature :: "string option"
  hr_body :: string

datatype http_reply =
    HttpResponse number json
  | HttpThrew "string option" string

text \<open>The message contains "aborted".\<close>

fun mentions :: "string \<Rightarrow> string \<Rightarrow> bool" where
  "mentions p [] \<longleftrightarrow> p = []"
| "mentions p (c # s) \<longleftrightarrow> take (length p) (c # s) = p \<or> mentions p s"

definition response_ok :: "number \<Rightarrow> bool" where
  "response_ok status \<longleftrightarrow> 200 \<le> status \<and> status \<le> 299"

definition reply_result :: "http_reply \<Rightarrow> n8nDispatchResult" where
  "reply_result reply =
     (case reply of
        HttpResponse status body \<Rightarrow>
          if response_ok status then N8nDispatchSuccess status body
          else N8nDispatchFailure (Some status) (''n8n dispatch failed with HTTP '' @ show_integer status)
                 (status = 429 \<or> 500 \<le> status) (if body \<noteq> JNull then Some body else None)
      | HttpThrew name message \<Rightarrow>
          N8nDispatchFailure None message True
            (if name \<noteq> None \<and> (name = Some ''AbortError'' \<or> mentions ''aborted'' message)
             then Some (JObj [(''reason'', JStr ''timeout'')]) else None))"

definition dispatch_http_request ::
  "(string \<Rightarrow> string \<Rightarrow> string) \<Rightarrow> (number \<Rightarrow> string) \<Rightarrow> n8nDispatchClientConfig \<Rightarrow> n8nTypedDispatchRequest \<Rightarrow> http_request" where
  "dispatch_http_request hmac number_text config request =
     (let rawBody = plain number_text (JObj (request_object request))
      in \<lparr>hr_url = nc_webhookUrl config, hr_idempotencyKey = nr_idempotencyKey request,
          hr_signature = map_option (\<lambda>secret. hmac secret rawBody) (nc_sharedSecret config), hr_body = rawBody\<rparr>)"

definition N8nDispatchClient_dispatch ::
  "(string \<Rightarrow> bool) \<Rightarrow> (string \<Rightarrow> bool) \<Rightarrow> (string \<Rightarrow> bool) \<Rightarrow> (string \<Rightarrow> string \<Rightarrow> string) \<Rightarrow> (number \<Rightarrow> string) \<Rightarrow>
   n8nDispatchClientConfig \<Rightarrow> (http_request \<Rightarrow> http_reply) \<Rightarrow> n8nTypedDispatchRequest \<Rightarrow> n8nDispatchResult result" where
  "N8nDispatchClient_dispatch is_uuid is_url is_email hmac number_text config fetch input =
     and_then (n8nTypedDispatchRequestSchema_parse is_uuid is_url is_email (request_object input)) (\<lambda>request.
       Inr (reply_result (fetch (dispatch_http_request hmac number_text config request))))"

text \<open>
  C23. The client sends what the publisher read: dispatching a request that the schema returned, with a
  valid callback URL added, does not fail on parsing it again; the HTTP request carries that very
  request as JSON, its idempotency key, and with a shared secret a signature that verifies. A failure
  is retryable exactly when there was no response, or the response was 429 or 500 and above.
\<close>

theorem dispatch_sends_what_was_read:
  assumes "hmac_format hmac" and "N8nDispatchClient_new is_url given = Inr config"
    and "n8nTypedDispatchRequestSchema_parse is_uuid is_url is_email input = Inr r" and "pred_opt is_url callback"
  shows "\<exists>q h. q = r\<lparr>nr_callback := nullish callback (nr_callback r)\<rparr> \<and>
    h = dispatch_http_request hmac number_text config q \<and>
    N8nDispatchClient_dispatch is_uuid is_url is_email hmac number_text config fetch q = Inr (reply_result (fetch h)) \<and>
    hr_body h = plain number_text (JObj (request_object q)) \<and> hr_idempotencyKey h = nr_idempotencyKey r \<and>
    (case nc_sharedSecret config of
       None \<Rightarrow> hr_signature h = None
     | Some secret \<Rightarrow> verifyN8nSignature hmac (hr_body h) (hr_signature h) secret) \<and>
    (\<forall>status e b body. reply_result (fetch h) = N8nDispatchFailure status e b body \<longrightarrow>
       (b \<longleftrightarrow> status = None \<or> status = Some 429 \<or> (\<exists>s. status = Some s \<and> 500 \<le> s)))"
proof -
  define q where "q = r\<lparr>nr_callback := nullish callback (nr_callback r)\<rparr>"
  define h where "h = dispatch_http_request hmac number_text config q"
  have "n8nTypedDispatchRequestSchema_parse is_uuid is_url is_email (request_object q) = Inr q"
    using typed_dispatch_request_again [OF assms(3,4)] unfolding q_def by blast
  then have sent: "N8nDispatchClient_dispatch is_uuid is_url is_email hmac number_text config fetch q =
      Inr (reply_result (fetch h))" by (simp add: N8nDispatchClient_dispatch_def h_def)
  have body: "hr_body h = plain number_text (JObj (request_object q))" "hr_idempotencyKey h = nr_idempotencyKey r"
    unfolding h_def dispatch_http_request_def Let_def http_request.simps by (rule refl) (simp add: q_def)
  have sign: "hr_signature h = map_option (\<lambda>secret. hmac secret (hr_body h)) (nc_sharedSecret config)"
    by (simp only: h_def dispatch_http_request_def Let_def http_request.simps)
  have signed: "case nc_sharedSecret config of None \<Rightarrow> hr_signature h = None
     | Some secret \<Rightarrow> verifyN8nSignature hmac (hr_body h) (hr_signature h) secret"
  proof (cases "nc_sharedSecret config")
    case (Some secret)
    with assms(2) have "secret \<noteq> []" by (auto simp: N8nDispatchClient_new_def)
    with Some sign normalized_hmac [OF assms(1)] show ?thesis by (simp add: signature_accepted [OF assms(1)])
  qed (simp add: sign)
  have retry: "\<forall>status e b body. reply_result (fetch h) = N8nDispatchFailure status e b body \<longrightarrow>
       (b \<longleftrightarrow> status = None \<or> status = Some 429 \<or> (\<exists>s. status = Some s \<and> 500 \<le> s))"
    by (auto simp: reply_result_def split: http_reply.splits if_splits)
  show ?thesis
    by (rule exI [of _ q], rule exI [of _ h], intro conjI) (fact q_def h_def sent body signed retry)+
qed

definition example_client :: n8nDispatchClientConfig where
  "example_client = \<lparr>nc_webhookUrl = ''u'', nc_timeoutMs = Some 10000, nc_sharedSecret = Some ''s''\<rparr>"

theorem dispatch_sends_what_was_read_witness:
  "\<exists>h :: http_request. hr_idempotencyKey h = ''k'' \<and> verifyN8nSignature example_hmac (hr_body h) (hr_signature h) ''s''"
proof -
  have c: "N8nDispatchClient_new (\<lambda>u. u \<noteq> []) (example_client\<lparr>nc_timeoutMs := None\<rparr>) = Inr example_client"
    by (simp add: N8nDispatchClient_new_def example_client_def is_positive_int_def is_integer_def)
  have k: "nc_sharedSecret example_client = Some ''s''" "nr_idempotencyKey example_typed = ''k''"
    by (simp_all add: example_client_def example_typed_def)
  have "pred_opt (\<lambda>u. u \<noteq> []) (Some ''v'')" by simp
  from dispatch_sends_what_was_read [OF hmac_format_example c example_dispatch_parse this,
      of "\<lambda>_. ''0''" "\<lambda>_. HttpResponse 200 JNull", unfolded k option.case]
  show ?thesis by blast
qed

end
