(* ===== verification/Publisher.thy ===== *)
theory Publisher
  imports ActionHistory Incidents Health ChannelContracts N8nClient
begin

text \<open>
  The outbox publisher of \<open>src/apps/worker-outbox-publisher/src/outbox-publisher.ts\<close> with the in-memory
  repositories: it drains each tenant's outbox, puts incidents and health records on file, hands dispatch
  events to n8n under a lease and publishes every other event, and consumes an event only then.

  The event bus and the dispatch port are parameters: a \<open>turn\<close> says, for one event, what the bus
  answers (nothing, or the error it throws), what the port answers, which identifiers are generated and
  what the clock reads (\<open>tn_clock c i\<close> for the \<open>i\<close>-th reading of the call \<open>c\<close>). Telemetry is left out.
\<close>

section \<open>Payload schemas\<close>

definition N8N_DISPATCH_EVENT_TYPE :: string where
  "N8N_DISPATCH_EVENT_TYPE = ''n8n.dispatch.requested.v1''"

definition INCIDENT_OPENED_EVENT_TYPE :: string where
  "INCIDENT_OPENED_EVENT_TYPE = ''incident.opened.v1''"

definition WORKER_DEAD_LETTER_EVENT_TYPE :: string where
  "WORKER_DEAD_LETTER_EVENT_TYPE = ''worker.dead_lettered.v1''"

definition ztrimmed :: "nat \<Rightarrow> nat \<Rightarrow> zod" where
  "ztrimmed least most = ZString trim (\<lambda>s. least \<le> length s \<and> length s \<le> most)"

definition incident_severities :: "(string \<times> incidentSeverity) list" where
  "incident_severities = [(''low'', SevLow), (''medium'', SevMedium), (''high'', SevHigh), (''critical'', SevCritical)]"

definition healing_actions :: "(string \<times> healingAction) list" where
  "healing_actions =
     [(''none'', NoAction), (''resume'', Resume), (''retry_with_backoff'', RetryWithBackoff),
      (''use_fallback'', UseFallback), (''rollback'', Rollback), (''quarantine_and_escalate'', QuarantineAndEscalate)]"

definition incidentSeveritySchema :: zod where
  "incidentSeveritySchema = ZEnum (map fst incident_severities)"

definition healingActionSchema :: zod where
  "healingActionSchema = ZEnum (map fst healing_actions)"

definition incidentOpenedPayloadSchema :: zod where
  "incidentOpenedPayloadSchema =
     ZObject
       [(''incident_key'', Required, ztrimmed 1 255), (''component_id'', Required, ztrimmed 1 255),
        (''severity'', Required, incidentSeveritySchema), (''title'', Required, ztrimmed 1 500),
        (''summary'', Required, ztrimmed 1 2000), (''action'', Optional, healingActionSchema),
        (''rollback_version_ref'', Optional, ztrimmed 1 500),
        (''diagnostic_metadata'', Default (JObj []), ZUnknownRecord)]"

definition workerDeadLetterPayloadSchema :: zod where
  "workerDeadLetterPayloadSchema =
     ZObject
       [(''worker'', Required, ztrimmed 1 255), (''source_subject'', Required, ztrimmed 1 1000),
        (''stream_sequence'', Required, ZStringOrNumber (\<lambda>s. s \<noteq> []) is_nonnegative_int),
        (''redelivery_count'', Optional, ZNumber is_nonnegative_int), (''error'', Required, ztrimmed 1 10000),
        (''failed_payload'', Optional, ZUnknownRecord)]"

section \<open>Configuration\<close>

record publisher_config =
  pd_n8nConfigured :: bool
  pd_actionsConfigured :: bool
  pd_incidentsConfigured :: bool
  pd_healthConfigured :: bool
  pd_n8nRetryBackoffMs :: "number option"
  pd_n8nDispatchLeaseMs :: "number option"
  pd_n8nDispatchWorkerId :: "string option"
  pd_hostname :: "string option"
  pd_pid :: nat
  pd_n8nDispatchResultCallbackUrl :: "string option"
  pd_n8nRequireResultCallback :: bool

definition retryBackoffMs :: "publisher_config \<Rightarrow> number result" where
  "retryBackoffMs d =
     (let value = nullish_or (pd_n8nRetryBackoffMs d) 60000
      in if value \<le> 0 then Inl (JsError ''n8n retry backoff must be a positive number of milliseconds'')
         else Inr value)"

definition dispatchLeaseMs :: "publisher_config \<Rightarrow> number result" where
  "dispatchLeaseMs d =
     (let value = nullish_or (pd_n8nDispatchLeaseMs d) 120000
      in if value \<le> 0 then Inl (JsError ''n8n dispatch lease must be a positive number of milliseconds'')
         else Inr value)"

definition dispatchWorkerId :: "publisher_config \<Rightarrow> string" where
  "dispatchWorkerId d =
     nullish_or (pd_n8nDispatchWorkerId d)
       (''outbox-publisher:'' @ nullish_or (pd_hostname d) ''local'' @ '':'' @ show_nat (pd_pid d))"

text \<open>An empty callback URL counts as none.\<close>

definition callbackUrl :: "publisher_config \<Rightarrow> string option" where
  "callbackUrl d =
     (case pd_n8nDispatchResultCallbackUrl d of None \<Rightarrow> None | Some u \<Rightarrow> if u = [] then None else Some u)"

section \<open>The world of the publisher\<close>

record world =
  w_actions :: external_actions
  w_incidents :: incidents
  w_health :: healths
  w_published :: "(string \<times> json_record) list"
  w_dispatched :: "n8nTypedDispatchRequest list"

record turn =
  tn_clock :: "nat \<Rightarrow> nat \<Rightarrow> date"
  tn_incidentId :: string
  tn_healthId :: string
  tn_publish :: "js_error option"
  tn_dispatch :: "n8nTypedDispatchRequest \<Rightarrow> n8nDispatchResult result"

text \<open>The checks and codings that are parameters everywhere.\<close>

record checks =
  ck_uuid :: "string \<Rightarrow> bool"
  ck_url :: "string \<Rightarrow> bool"
  ck_email :: "string \<Rightarrow> bool"
  ck_sha256 :: "string \<Rightarrow> string"
  ck_number :: "number \<Rightarrow> string"

type_synonym 'a effect = "world \<Rightarrow> (js_error + 'a) \<times> world"

text \<open>Running an operation of a repository on its part of the world.\<close>

definition on_actions :: "(external_actions \<Rightarrow> 'a action_result) \<Rightarrow> 'a effect" where
  "on_actions m w = (case m (w_actions w) of (r, st) \<Rightarrow> (r, w\<lparr>w_actions := st\<rparr>))"

definition on_incidents :: "(incidents \<Rightarrow> js_error + 'a \<times> incidents) \<Rightarrow> 'a effect" where
  "on_incidents m w = or_throw (m (w_incidents w)) w (\<lambda>(r, st). (Inr r, w\<lparr>w_incidents := st\<rparr>))"

definition on_health :: "(healths \<Rightarrow> js_error + 'a \<times> healths) \<Rightarrow> 'a effect" where
  "on_health m w = or_throw (m (w_health w)) w (\<lambda>(r, st). (Inr r, w\<lparr>w_health := st\<rparr>))"

abbreviation w_outbox :: "world \<Rightarrow> outbox" where
  "w_outbox w \<equiv> ea_outbox (w_actions w)"

definition consume :: "checks \<Rightarrow> turn \<Rightarrow> storedOutboxEvent \<Rightarrow> unit effect" where
  "consume ck tn event w =
     or_throw (outbox_markConsumed (ck_uuid ck) (oe_tenantId event) (oe_id event) (tn_clock tn 4 0) (w_outbox w)) w
       (\<lambda>(_, ob). (Inr (), w\<lparr>w_actions := (w_actions w)\<lparr>ea_outbox := ob\<rparr>\<rparr>))"

definition publish :: "turn \<Rightarrow> string \<Rightarrow> json_record \<Rightarrow> unit effect" where
  "publish tn subject payload w =
     (case tn_publish tn of
        Some e \<Rightarrow> (Inl e, w)
      | None \<Rightarrow> (Inr (), w\<lparr>w_published := w_published w @ [(subject, payload)]\<rparr>))"

section \<open>Operational state\<close>

definition payloadDigest :: "checks \<Rightarrow> json_record option \<Rightarrow> string option" where
  "payloadDigest ck payload = map_option (\<lambda>p. ck_sha256 ck (plain (ck_number ck) (JObj p))) payload"

text \<open>\<open>`${payload.stream_sequence}`\<close>.\<close>

definition sequence_text :: "json_record \<Rightarrow> string" where
  "sequence_text payload =
     (case map_of payload ''stream_sequence'' of
        Some (JStr s) \<Rightarrow> s | Some (JNum n) \<Rightarrow> show_integer n | _ \<Rightarrow> [])"

definition incident_opened_params :: "json_record \<Rightarrow> createIncidentParams" where
  "incident_opened_params payload =
     \<lparr>ci_incidentKey = string_at ''incident_key'' payload, ci_componentId = string_at ''component_id'' payload,
      ci_severity = nullish_or (map_of incident_severities (string_at ''severity'' payload)) SevLow,
      ci_title = string_at ''title'' payload, ci_summary = string_at ''summary'' payload,
      ci_action = Option.bind (string_opt_at ''action'' payload) (map_of healing_actions),
      ci_rollbackVersionRef = string_opt_at ''rollback_version_ref'' payload,
      ci_diagnosticMetadata = Some (record_at ''diagnostic_metadata'' payload), ci_openedAt = None\<rparr>"

definition dead_letter_key :: "json_record \<Rightarrow> string" where
  "dead_letter_key payload =
     ''dead-letter:'' @ string_at ''worker'' payload @ '':'' @ string_at ''source_subject'' payload @ '':'' @
       sequence_text payload"

definition publisher_sanitizeError :: "string \<Rightarrow> string" where
  "publisher_sanitizeError = sanitize_error 1000"

definition dead_letter_incident :: "checks \<Rightarrow> json_record \<Rightarrow> createIncidentParams" where
  "dead_letter_incident ck payload =
     (let worker = string_at ''worker'' payload; subject = string_at ''source_subject'' payload
      in \<lparr>ci_incidentKey = dead_letter_key payload, ci_componentId = worker, ci_severity = SevHigh,
          ci_title = ''Worker dead-lettered '' @ worker @ '' event'',
          ci_summary = ''The '' @ worker @ '' worker exhausted delivery attempts for '' @ subject @ '': '' @
            publisher_sanitizeError (string_at ''error'' payload),
          ci_action = Some QuarantineAndEscalate, ci_rollbackVersionRef = None,
          ci_diagnosticMetadata = Some
            ([(''source_subject'', JStr subject),
              (''stream_sequence'', nullish_or (map_of payload ''stream_sequence'') JNull)] @
             (case map_of payload ''redelivery_count'' of None \<Rightarrow> [] | Some n \<Rightarrow> [(''redelivery_count'', n)]) @
             truthy_member ''failed_payload_sha256'' (payloadDigest ck
               (case map_of payload ''failed_payload'' of Some (JObj p) \<Rightarrow> Some p | _ \<Rightarrow> None))),
          ci_openedAt = None\<rparr>)"

definition dead_letter_health :: "json_record \<Rightarrow> recordComponentHealthParams" where
  "dead_letter_health payload =
     \<lparr>hp_componentId = string_at ''worker'' payload, hp_idempotencyKey = dead_letter_key payload,
      hp_state = Quarantined, hp_errorRate = 1,
      hp_consecutiveFailures = max 1 (case map_of payload ''redelivery_count'' of Some (JNum n) \<Rightarrow> n | _ \<Rightarrow> 1),
      hp_p95LatencyMs = 0, hp_stalenessSeconds = 0, hp_dependencyAvailable = False, hp_fallbackAvailable = False,
      hp_lastKnownGoodAvailable = False, hp_lastKnownGoodVersionRef = None, hp_recoveryAttempts = 0,
      hp_guardrailBreached = True, hp_action = QuarantineAndEscalate, hp_allowExternalActions = False,
      hp_retryAfterSeconds = None,
      hp_reasons =
        [''Dead-lettered '' @ string_at ''source_subject'' payload @ '' at stream sequence '' @
           sequence_text payload @ ''.'',
         publisher_sanitizeError (string_at ''error'' payload)],
      hp_observedAt = None\<rparr>"

definition persistOperationalState :: "checks \<Rightarrow> publisher_config \<Rightarrow> turn \<Rightarrow> storedOutboxEvent \<Rightarrow> unit effect" where
  "persistOperationalState ck d tn event w =
     (if oe_eventType event = INCIDENT_OPENED_EVENT_TYPE then
        (if \<not> pd_incidentsConfigured d then (Inr (), w)
         else or_throw (object_of (zparse incidentOpenedPayloadSchema (JObj (oe_payload event)))) w (\<lambda>payload.
           then_do (on_incidents (incident_create (ck_uuid ck) (oe_tenantId event) (incident_opened_params payload)
               (tn_incidentId tn) (tn_clock tn 0 0))) (\<lambda>_ w'. (Inr (), w')) w))
      else if oe_eventType event \<noteq> WORKER_DEAD_LETTER_EVENT_TYPE then (Inr (), w)
      else or_throw (object_of (zparse workerDeadLetterPayloadSchema (JObj (oe_payload event)))) w (\<lambda>payload.
        then_do
          (if pd_incidentsConfigured d
           then then_do (on_incidents (incident_create (ck_uuid ck) (oe_tenantId event)
                  (dead_letter_incident ck payload) (tn_incidentId tn) (tn_clock tn 0 0))) (\<lambda>_ w'. (Inr (), w'))
           else (\<lambda>w'. (Inr (), w')))
          (\<lambda>_. if pd_healthConfigured d
               then then_do (on_health (health_record (ck_uuid ck) (oe_tenantId event) (dead_letter_health payload)
                      (tn_healthId tn) (tn_clock tn 1 0))) (\<lambda>_ w'. (Inr (), w'))
               else (\<lambda>w'. (Inr (), w'))) w))"

section \<open>Dispatching to n8n\<close>

datatype dispatch_outcome = Consumed | Postponed

definition dispatch_errorCode :: "number option \<Rightarrow> string" where
  "dispatch_errorCode status =
     (case status of
        None \<Rightarrow> ''N8N_NETWORK_ERROR''
      | Some s \<Rightarrow> if s = 0 then ''N8N_NETWORK_ERROR'' else ''HTTP_'' @ show_integer s)"

definition dispatch_identity_of :: "publisher_config \<Rightarrow> n8nTypedDispatchRequest \<Rightarrow> dispatchIdentity" where
  "dispatch_identity_of d request =
     \<lparr>di_tenantId = nr_tenantId request, di_actionId = nr_actionId request,
      di_idempotencyKey = nr_idempotencyKey request, di_leaseOwner = dispatchWorkerId d, di_now = None\<rparr>"

text \<open>What is written about the port's answer.\<close>

definition report_result ::
  "checks \<Rightarrow> publisher_config \<Rightarrow> turn \<Rightarrow> n8nTypedDispatchRequest \<Rightarrow> n8nDispatchResult \<Rightarrow> dispatch_outcome effect" where
  "report_result ck d tn request result =
     (let identity = dispatch_identity_of d request
      in case result of
           N8nDispatchSuccess status body \<Rightarrow>
             (let m = extractN8nDispatchReceiptMetadata body
              in then_do (on_actions (recordDispatchAccepted (ck_uuid ck) (tn_clock tn 3)
                   (dispatchIdentity.extend identity
                     \<lparr>da_receipt = \<lparr>dr_httpStatus = status, dr_body = body, dr_workflowId = rm_workflowId m,
                        dr_executionId = rm_executionId m, dr_providerReference = rm_providerReference m\<rparr>\<rparr>)))
                   (\<lambda>_ w. (Inr Consumed, w)))
         | N8nDispatchFailure status error retryable body \<Rightarrow>
             if retryable
             then (\<lambda>w. or_throw (retryBackoffMs d) w (\<lambda>ms.
               then_do (on_actions (scheduleDispatchRetry (ck_uuid ck) (tn_clock tn 3)
                   (dispatchIdentity.extend identity
                     \<lparr>sr_retryAfterMs = ms, sr_errorCode = Some (dispatch_errorCode status), sr_errorMessage = error\<rparr>)))
                 (\<lambda>_ w. (Inr Postponed, w)) w))
             else then_do (on_actions (failDispatch (ck_uuid ck) (tn_clock tn 3)
                   (dispatchIdentity.extend identity
                     \<lparr>fd_errorCode = Some (dispatch_errorCode status), fd_errorMessage = error\<rparr>)))
                 (\<lambda>_ w. (Inr Consumed, w)))"

definition send_dispatch :: "turn \<Rightarrow> n8nTypedDispatchRequest \<Rightarrow> n8nDispatchResult effect" where
  "send_dispatch tn request w =
     (tn_dispatch tn request, w\<lparr>w_dispatched := w_dispatched w @ [request]\<rparr>)"

definition claim_input :: "publisher_config \<Rightarrow> n8nTypedDispatchRequest \<Rightarrow> number \<Rightarrow> claimExternalActionDispatch" where
  "claim_input d request ms =
     dispatchIdentity.extend (dispatch_identity_of d request) \<lparr>cd_leaseDurationMs = ms\<rparr>"

definition dispatchN8nAction :: "checks \<Rightarrow> publisher_config \<Rightarrow> turn \<Rightarrow> json_record \<Rightarrow> dispatch_outcome effect" where
  "dispatchN8nAction ck d tn payload w =
     (if \<not> pd_n8nConfigured d then (Inl (JsError ''n8n dispatch client is not configured''), w)
      else if \<not> pd_actionsConfigured d then (Inl (JsError
        ''external actions repository is not configured; refusing n8n dispatch without a durable lifecycle''), w)
      else if pd_n8nRequireResultCallback d \<and> callbackUrl d = None then (Inl (JsError
        ''n8n dispatch result callback URL is required in this environment''), w)
      else or_throw (n8nTypedDispatchRequestSchema_parse (ck_uuid ck) (ck_url ck) (ck_email ck) payload) w (\<lambda>request.
        or_throw (dispatchLeaseMs d) w (\<lambda>ms.
        then_do (on_actions (claimDispatch (ck_uuid ck) (tn_clock tn 2) (claim_input d request ms)))
          (\<lambda>claim. case claim of
             Deferred _ \<Rightarrow> (\<lambda>w. (Inr Postponed, w))
           | InFlight _ \<Rightarrow> (\<lambda>w. (Inr Postponed, w))
           | Settled _ \<Rightarrow> (\<lambda>w. (Inr Consumed, w))
           | Claimed _ \<Rightarrow>
               then_do (send_dispatch tn (request\<lparr>nr_callback := nullish (callbackUrl d) (nr_callback request)\<rparr>))
                 (report_result ck d tn request)) w)))"

section \<open>Draining\<close>

text \<open>One event: whether it was consumed.\<close>

definition handle_event :: "checks \<Rightarrow> publisher_config \<Rightarrow> turn \<Rightarrow> storedOutboxEvent \<Rightarrow> bool effect" where
  "handle_event ck d tn event =
     then_do (persistOperationalState ck d tn event) (\<lambda>_.
     then_do
       (if oe_eventType event = N8N_DISPATCH_EVENT_TYPE then dispatchN8nAction ck d tn (oe_payload event)
        else (\<lambda>w. or_throw (tenantScopedSubject (ck_uuid ck) (oe_tenantId event) (oe_eventType event)) w (\<lambda>subject.
          then_do (publish tn subject (oe_payload event)) (\<lambda>_ w. (Inr Consumed, w)) w)))
       (\<lambda>outcome. if outcome = Postponed then (\<lambda>w. (Inr False, w))
                  else then_do (consume ck tn event) (\<lambda>_ w. (Inr True, w))))"

fun drain_events :: "checks \<Rightarrow> publisher_config \<Rightarrow> (nat \<Rightarrow> turn) \<Rightarrow> storedOutboxEvent list \<Rightarrow> nat \<Rightarrow> nat \<Rightarrow> nat effect" where
  "drain_events ck d turns [] i n w = (Inr n, w)"
| "drain_events ck d turns (event # events) i n w =
     then_do (handle_event ck d (turns i) event)
       (\<lambda>done. drain_events ck d turns events (Suc i) (if done then Suc n else n)) w"

definition publishPendingForTenant ::
  "checks \<Rightarrow> publisher_config \<Rightarrow> (nat \<Rightarrow> turn) \<Rightarrow> string \<Rightarrow> int \<Rightarrow> nat effect" where
  "publishPendingForTenant ck d turns tenantId limit w =
     drain_events ck d turns (outbox_listUnconsumed tenantId limit (w_outbox w)) 0 0 w"

record publishCycleResult =
  pr_publishedCount :: nat
  pr_publishedByTenant :: "(string \<times> nat) list"

fun cycle_tenants ::
  "checks \<Rightarrow> publisher_config \<Rightarrow> (nat \<Rightarrow> nat \<Rightarrow> turn) \<Rightarrow> string list \<Rightarrow> int \<Rightarrow> nat \<Rightarrow> publishCycleResult \<Rightarrow>
   publishCycleResult effect" where
  "cycle_tenants ck d turns [] limit i acc w = (Inr acc, w)"
| "cycle_tenants ck d turns (t # ts) limit i acc w =
     then_do (publishPendingForTenant ck d (turns i) t limit)
       (\<lambda>n. cycle_tenants ck d turns ts limit (Suc i)
          \<lparr>pr_publishedCount = pr_publishedCount acc + n,
           pr_publishedByTenant = AList.update t n (pr_publishedByTenant acc)\<rparr>) w"

definition publishCycle ::
  "checks \<Rightarrow> publisher_config \<Rightarrow> (nat \<Rightarrow> nat \<Rightarrow> turn) \<Rightarrow> string list \<Rightarrow> int \<Rightarrow> publishCycleResult effect" where
  "publishCycle ck d turns tenantIds limit =
     cycle_tenants ck d turns tenantIds limit 0 \<lparr>pr_publishedCount = 0, pr_publishedByTenant = []\<rparr>"

end
