(* ===== verification/PublisherProperties.thy ===== *)
theory PublisherProperties
  imports Publisher
begin

text \<open>
  What the outbox publisher guarantees: an event leaves its queue only after its effect is on file or
  sent, whatever fails in between; and how it blocks: dispatches that have to wait at the head of a
  tenant's queue hold back everything behind them, and an event with a malformed payload stops the
  whole cycle.
\<close>

section \<open>Sequencing\<close>

lemma then_do_cases:
  assumes "then_do m f w = (r, w')"
  obtains (failed) e where "m w = (Inl e, w')" "r = Inl e"
  | (passed) x w1 where "m w = (Inr x, w1)" "f x w1 = (r, w')"
proof (cases "m w")
  case (Pair y w1)
  with assms failed passed show ?thesis by (cases y) (auto simp: then_do_def)
qed

lemma or_throw_cases:
  assumes "or_throw x w f = (r, w')"
  obtains (failed) e where "x = Inl e" "r = Inl e" "w' = w"
  | (passed) y where "x = Inr y" "f y = (r, w')"
  using assms by (cases x) auto

section \<open>Progress of the world\<close>

lemma pending_filed:
  assumes "outbox_inv is_uuid ob"
  shows "e \<in> set (outbox_pending t ob) \<longleftrightarrow>
    find_existing (ob_events ob) (event_key e) = Some e \<and> oe_tenantId e = t \<and> oe_consumedAt e = None"
  using set_store_values [OF outbox_inv_store [OF assms]] find_existing_Some [OF outbox_inv_store [OF assms]]
  by (auto simp: outbox_pending_def)

text \<open>
  \<open>advances is_uuid E n w w'\<close>: at most \<open>n\<close> identifiers are drawn; settled actions stay settled, what is
  published stays published, incidents and health records stay on file; pending events stay pending but for those with
  an id in \<open>E\<close>.
\<close>

definition advances :: "(string \<Rightarrow> bool) \<Rightarrow> string set \<Rightarrow> nat \<Rightarrow> world \<Rightarrow> world \<Rightarrow> bool" where
  "advances is_uuid E n w w' \<longleftrightarrow>
     ea_inv is_uuid (w_actions w') \<and> ea_sequence (w_actions w') \<le> ea_sequence (w_actions w) + n \<and>
     (\<forall>i a. action_by_id (w_actions w) i = Some a \<and> isSettled (ac_state a) \<longrightarrow>
        (\<exists>a'. action_by_id (w_actions w') i = Some a' \<and> isSettled (ac_state a') \<and> action_key a' = action_key a)) \<and>
     (\<forall>t e. e \<in> set (outbox_pending t (w_outbox w)) \<and> oe_id e \<notin> E \<longrightarrow> e \<in> set (outbox_pending t (w_outbox w'))) \<and>
     (\<exists>ps. w_published w' = w_published w @ ps) \<and>
     (\<forall>k. find_existing (w_incidents w) k \<noteq> None \<longrightarrow> find_existing (w_incidents w') k \<noteq> None) \<and>
     (\<forall>k. find_existing (w_health w) k \<noteq> None \<longrightarrow> find_existing (w_health w') k \<noteq> None)"

lemma advances_refl: "ea_inv is_uuid (w_actions w) \<Longrightarrow> advances is_uuid E n w w"
  by (simp add: advances_def)

lemma advancesD:
  assumes "advances is_uuid E n w w'"
  shows "ea_inv is_uuid (w_actions w')" "ea_sequence (w_actions w') \<le> ea_sequence (w_actions w) + n"
    "\<And>i a. action_by_id (w_actions w) i = Some a \<Longrightarrow> isSettled (ac_state a) \<Longrightarrow>
       \<exists>a'. action_by_id (w_actions w') i = Some a' \<and> isSettled (ac_state a') \<and> action_key a' = action_key a"
    "\<And>t e. e \<in> set (outbox_pending t (w_outbox w)) \<Longrightarrow> oe_id e \<notin> E \<Longrightarrow> e \<in> set (outbox_pending t (w_outbox w'))"
    "\<exists>ps. w_published w' = w_published w @ ps"
    "\<And>k. find_existing (w_incidents w) k \<noteq> None \<Longrightarrow> find_existing (w_incidents w') k \<noteq> None"
    "\<And>k. find_existing (w_health w) k \<noteq> None \<Longrightarrow> find_existing (w_health w') k \<noteq> None"
  using assms unfolding advances_def by blast+

lemma advances_trans:
  assumes "advances is_uuid E m w w1" and "advances is_uuid E' n w1 w2"
  shows "advances is_uuid (E \<union> E') (m + n) w w2"
  unfolding advances_def
proof (intro conjI allI impI; (elim conjE)?)
  note a = advancesD [OF assms(1)] and b = advancesD [OF assms(2)]
  show "ea_inv is_uuid (w_actions w2)" by (rule b(1))
  show "ea_sequence (w_actions w2) \<le> ea_sequence (w_actions w) + (m + n)" using a(2) b(2) by linarith
  show "\<exists>a'. action_by_id (w_actions w2) i = Some a' \<and> isSettled (ac_state a') \<and> action_key a' = action_key x"
    if x: "action_by_id (w_actions w) i = Some x" "isSettled (ac_state x)" for i x
  proof -
    from a(3) [OF x] obtain y where y: "action_by_id (w_actions w1) i = Some y" "isSettled (ac_state y)"
        "action_key y = action_key x" by blast
    from b(3) [OF y(1,2)] y(3) show ?thesis by simp
  qed
  show "e \<in> set (outbox_pending t (w_outbox w2))"
    if "e \<in> set (outbox_pending t (w_outbox w))" "oe_id e \<notin> E \<union> E'" for t e
    using that by (intro b(4) a(4)) simp_all
  show "\<exists>ps. w_published w2 = w_published w @ ps" using a(5) b(5) by (metis append.assoc)
  show "find_existing (w_incidents w2) k \<noteq> None" if "find_existing (w_incidents w) k \<noteq> None" for k
    by (rule b(6) [OF a(6) [OF that]])
  show "find_existing (w_health w2) k \<noteq> None" if "find_existing (w_health w) k \<noteq> None" for k
    by (rule b(7) [OF a(7) [OF that]])
qed

lemma advances_after: "advances is_uuid {} 0 w w1 \<Longrightarrow> advances is_uuid E n w1 w2 \<Longrightarrow> advances is_uuid E n w w2"
  using advances_trans [of is_uuid "{}" 0 w w1 E n w2] by (simp only: Un_empty_left add_0)

lemma advances_inv: "advances is_uuid E n w w' \<Longrightarrow> ea_inv is_uuid (w_actions w')"
  by (simp add: advances_def)

lemma advances_more: "advances is_uuid E m w w' \<Longrightarrow> m \<le> n \<Longrightarrow> advances is_uuid E n w w'"
  by (simp add: advances_def)

text \<open>Room for \<open>n\<close> more identifiers.\<close>

definition room_for :: "nat \<Rightarrow> world \<Rightarrow> bool" where
  "room_for n w \<longleftrightarrow> ea_sequence (w_actions w) + n + 2 < 1000000000000"

lemma room_for_room: "room_for n w \<Longrightarrow> room (w_actions w)"
  by (simp add: room_for_def room_def)

lemma room_for_later: "advances is_uuid E m w w' \<Longrightarrow> room_for (m + n) w \<Longrightarrow> room_for n w'"
  by (simp add: advances_def room_for_def)

section \<open>Operations on actions\<close>

lemma evolves_settled:
  assumes "evolves now actor st st'" and "action_by_id st i = Some a" and "isSettled (ac_state a)"
  shows "\<exists>a'. action_by_id st' i = Some a' \<and> isSettled (ac_state a') \<and> action_key a' = action_key a"
proof -
  from assms(1,2) obtain a' where a': "action_by_id st' i = Some a'" "a' = a \<or> (\<exists>key. action_change now actor key a a')"
    unfolding evolves_def by blast
  have "isSettled (ac_state a') \<and> action_key a' = action_key a" if "action_change now actor key a a'" for key
    using change_facts(3,7) [OF that] assms(3) by (auto simp: isSettled_def action_transitions_def)
  with a' assms(3) show ?thesis by blast
qed

lemma actions_advance:
  assumes "ea_inv is_uuid st'" and "evolves now actor (w_actions w) st'" and "outbox_inv is_uuid (w_outbox w)"
    and "ea_sequence st' \<le> Suc (ea_sequence (w_actions w))"
    and "\<And>k x. find_existing (ob_events (w_outbox w)) k = Some x \<Longrightarrow> find_existing (ob_events (ea_outbox st')) k = Some x"
  shows "advances is_uuid {} 1 w (w\<lparr>w_actions := st'\<rparr>)"
proof -
  have "e \<in> set (outbox_pending t (ea_outbox st'))" if "e \<in> set (outbox_pending t (w_outbox w))" for t e
    using that assms(5) unfolding pending_filed [OF assms(3)] pending_filed [OF ea_invD(2) [OF assms(1)]] by blast
  with assms(1,4) evolves_settled [OF assms(2)] show ?thesis by (simp add: advances_def)
qed

lemma changed_advances:
  assumes "ea_inv is_uuid (w_actions w)" and "action_by_id (w_actions w) (ac_id a) = Some a"
    and "action_change now actor key a a'" and "changed is_uuid cs key a' (w_actions w) st'"
  shows "advances is_uuid {} 1 w (w\<lparr>w_actions := st'\<rparr>)"
  by (rule actions_advance [OF changed_inv [OF assms] evolves_changed [OF assms(2-4)] ea_invD(2) [OF assms(1)]])
    (use assms(4) in \<open>simp_all add: changed_def\<close>)

definition settled_action :: "string \<Rightarrow> string \<Rightarrow> world \<Rightarrow> bool" where
  "settled_action t i w \<longleftrightarrow>
     (\<exists>a. action_by_id (w_actions w) (ac_id a) = Some a \<and> action_key a = colon_key t i \<and> isSettled (ac_state a))"

lemma settled_stays:
  assumes "advances is_uuid E n w w'" and "settled_action t i w"
  shows "settled_action t i w'"
proof -
  from assms(2) obtain a where a: "action_by_id (w_actions w) (ac_id a) = Some a" "action_key a = colon_key t i"
      "isSettled (ac_state a)" unfolding settled_action_def by blast
  from advancesD(3) [OF assms(1) a(1,3)] obtain a' where a': "action_by_id (w_actions w') (ac_id a) = Some a'"
      "isSettled (ac_state a')" "action_key a' = action_key a" by blast
  then have "ac_id a' = ac_id a" using ea_inv_action(1) [OF advances_inv [OF assms(1)]] by blast
  with a(2) a' have "action_by_id (w_actions w') (ac_id a') = Some a' \<and> action_key a' = colon_key t i \<and> isSettled (ac_state a')"
    by simp
  then show ?thesis unfolding settled_action_def by blast
qed

text \<open>A report of the publisher: the world advances, and a value it returns is the action on file.\<close>

lemma reported_advances:
  assumes "ea_inv is_uuid (w_actions w)" and "reported is_uuid now input move commands (w_actions w) x st'"
  shows "advances is_uuid {} 1 w (w\<lparr>w_actions := st'\<rparr>)"
    "x = Inr r \<Longrightarrow> (\<And>a. isSettled (ac_state (move a))) \<Longrightarrow>
       settled_action (di_tenantId input) (di_actionId input) (w\<lparr>w_actions := st'\<rparr>)"
proof -
  consider (same) "st' = w_actions w" "\<And>r. x = Inr r \<Longrightarrow> isSettled (ac_state r) \<and>
        action_by_id (w_actions w) (ac_id r) = Some r \<and> action_key r = colon_key (di_tenantId input) (di_actionId input)"
    | (moved) a key where "action_by_id (w_actions w) (ac_id a) = Some a"
        "action_key a = colon_key (di_tenantId input) (di_actionId input)"
        "action_change now (Some (di_leaseOwner input)) key a (move a)"
        "changed is_uuid (commands (move a)) key (move a) (w_actions w) st'"
    using assms(2) unfolding reported_def by blast
  then have "advances is_uuid {} 1 w (w\<lparr>w_actions := st'\<rparr>) \<and>
      (x = Inr r \<longrightarrow> (\<forall>a. isSettled (ac_state (move a))) \<longrightarrow>
         settled_action (di_tenantId input) (di_actionId input) (w\<lparr>w_actions := st'\<rparr>))"
  proof cases
    case same
    with assms(1) advances_refl [OF assms(1)] show ?thesis by (auto simp: settled_action_def)
  next
    case (moved a key)
    have "action_by_id st' (ac_id (move a)) = Some (move a)" using moved(4) by (simp add: changed_def)
    with moved change_facts(3) [OF moved(3)] changed_advances [OF assms(1) moved(1,3,4)]
    show ?thesis by (auto simp: settled_action_def)
  qed
  then show "advances is_uuid {} 1 w (w\<lparr>w_actions := st'\<rparr>)"
    "x = Inr r \<Longrightarrow> (\<And>a. isSettled (ac_state (move a))) \<Longrightarrow>
       settled_action (di_tenantId input) (di_actionId input) (w\<lparr>w_actions := st'\<rparr>)" by blast+
qed

section \<open>The effect of an event\<close>

lemma filed_stays:
  assumes "find_existing st k \<noteq> None" and "i \<noteq> []"
  shows "find_existing (insert_new key i r st) k \<noteq> None"
  using assms by (auto simp: find_existing_def insert_new_def update_conv split: option.splits if_splits)

lemma incident_filed:
  assumes "uuid_format is_uuid" and "incident_create is_uuid t p uuid now st = Inr (r, st')"
  shows "find_existing st' (incident_key t (trim (ci_incidentKey p))) \<noteq> None"
    "find_existing st k \<noteq> None \<Longrightarrow> find_existing st' k \<noteq> None"
proof -
  have "find_existing st' (incident_key t (trim (ci_incidentKey p))) \<noteq> None \<and>
      (find_existing st k \<noteq> None \<longrightarrow> find_existing st' k \<noteq> None)"
    using assms(2)
  proof (cases rule: incident_create_effect)
    case created
    then have "uuid \<noteq> []" using assms(1) by (auto simp: incident_good_def incident_ok_def dest: uuid_format_nonempty)
    with created show ?thesis by (auto simp: filed_stays)
  qed auto
  then show "find_existing st' (incident_key t (trim (ci_incidentKey p))) \<noteq> None"
    "find_existing st k \<noteq> None \<Longrightarrow> find_existing st' k \<noteq> None" by blast+
qed

lemma health_filed:
  assumes "uuid_format is_uuid" and "health_record is_uuid t p uuid now st = Inr (r, st')"
  shows "find_existing st' (health_key t (trim (hp_componentId p)) (trim (hp_idempotencyKey p))) \<noteq> None"
    "find_existing st k \<noteq> None \<Longrightarrow> find_existing st' k \<noteq> None"
proof -
  obtain h dup where r: "r = (h, dup)" by (cases r)
  have "find_existing st' (health_key t (trim (hp_componentId p)) (trim (hp_idempotencyKey p))) \<noteq> None \<and>
      (find_existing st k \<noteq> None \<longrightarrow> find_existing st' k \<noteq> None)"
    using assms(2) unfolding r
  proof (cases rule: health_effect)
    case created
    then have "uuid \<noteq> []" using assms(1) by (auto simp: componentHealthRecord_ok_def dest: uuid_format_nonempty)
    with created show ?thesis by (simp add: filed_stays)
  qed auto
  then show "find_existing st' (health_key t (trim (hp_componentId p)) (trim (hp_idempotencyKey p))) \<noteq> None"
    "find_existing st k \<noteq> None \<Longrightarrow> find_existing st' k \<noteq> None" by blast+
qed

text \<open>
  What has to have happened before an event may leave the queue: its incident and its health record are
  on file where those repositories are configured; a dispatch event's action is settled, any other event
  has been published, after the first \<open>n\<close> publications.
\<close>

definition operational_effect :: "publisher_config \<Rightarrow> storedOutboxEvent \<Rightarrow> world \<Rightarrow> bool" where
  "operational_effect d e w \<longleftrightarrow>
     (oe_eventType e = INCIDENT_OPENED_EVENT_TYPE \<and> pd_incidentsConfigured d \<longrightarrow>
        (\<exists>payload. object_of (zparse incidentOpenedPayloadSchema (JObj (oe_payload e))) = Inr payload \<and>
           find_existing (w_incidents w) (incident_key (oe_tenantId e) (trim (string_at ''incident_key'' payload))) \<noteq> None)) \<and>
     (oe_eventType e = WORKER_DEAD_LETTER_EVENT_TYPE \<longrightarrow>
        (\<exists>payload. object_of (zparse workerDeadLetterPayloadSchema (JObj (oe_payload e))) = Inr payload \<and>
           (pd_incidentsConfigured d \<longrightarrow>
              find_existing (w_incidents w) (incident_key (oe_tenantId e) (trim (dead_letter_key payload))) \<noteq> None) \<and>
           (pd_healthConfigured d \<longrightarrow>
              find_existing (w_health w) (health_key (oe_tenantId e) (trim (string_at ''worker'' payload))
                (trim (dead_letter_key payload))) \<noteq> None)))"

definition delivery_effect :: "checks \<Rightarrow> nat \<Rightarrow> storedOutboxEvent \<Rightarrow> world \<Rightarrow> bool" where
  "delivery_effect ck n e w \<longleftrightarrow>
     (if oe_eventType e = N8N_DISPATCH_EVENT_TYPE
      then (\<exists>request. n8nTypedDispatchRequestSchema_parse (ck_uuid ck) (ck_url ck) (ck_email ck) (oe_payload e) = Inr request \<and>
              settled_action (nr_tenantId request) (nr_actionId request) w)
      else (\<exists>subject. tenantScopedSubject (ck_uuid ck) (oe_tenantId e) (oe_eventType e) = Inr subject \<and>
              (subject, oe_payload e) \<in> set (drop n (w_published w))))"

lemma operational_stays: "advances is_uuid E m w w' \<Longrightarrow> operational_effect d e w \<Longrightarrow> operational_effect d e w'"
  using advancesD(6,7) [of is_uuid E m w w'] unfolding operational_effect_def by blast

lemma delivery_stays:
  assumes "advances is_uuid E m w w'" and "delivery_effect ck n e w"
  shows "delivery_effect ck n e w'"
proof (cases "oe_eventType e = N8N_DISPATCH_EVENT_TYPE")
  case True
  with assms(2) settled_stays [OF assms(1)] show ?thesis by (auto simp: delivery_effect_def)
next
  case False
  from advancesD(5) [OF assms(1)] obtain ps where "w_published w' = w_published w @ ps" by blast
  with assms(2) False show ?thesis by (auto simp: delivery_effect_def)
qed

section \<open>One event\<close>

lemma on_actions_result:
  assumes "on_actions m w = (x, w')"
  obtains st where "m (w_actions w) = (x, st)" "w' = w\<lparr>w_actions := st\<rparr>"
  using assms by (cases "m (w_actions w)") (auto simp: on_actions_def)

lemma claim_settled:
  assumes "ea_inv is_uuid st" and "claimDispatch is_uuid clock input st = (Inr (Settled a), st')"
  shows "action_by_id st (ac_id a) = Some a" "action_key a = colon_key (di_tenantId input) (di_actionId input)"
    "isSettled (ac_state a)"
proof -
  have never: "write_action is_uuid c key ty details now (\<lambda>st'. (Inr (Claimed c), st')) st \<noteq> (Inr (Settled a), st')"
    for c key ty details now
    by (auto simp: write_action_def then_do_def split: sum.splits prod.splits)
  from assms(2) obtain u where u: "validateDispatchIdentity is_uuid input = Inr u"
    by (cases "validateDispatchIdentity is_uuid input") (auto simp: claimDispatch_def)
  from assms(2) u obtain b where b: "action_find (di_tenantId input) (di_actionId input) (Some (di_idempotencyKey input)) st = Inr b"
    by (cases "action_find (di_tenantId input) (di_actionId input) (Some (di_idempotencyKey input)) st")
      (auto simp: claimDispatch_def split: if_splits)
  from assms(2) have "action_find (di_tenantId input) (di_actionId input) (Some (di_idempotencyKey input)) st = Inr a \<and>
      isSettled (ac_state a)"
    using never by (auto simp: claimDispatch_def u b Let_def split: if_splits)
  with action_find_Inr [OF assms(1)] show "action_by_id st (ac_id a) = Some a"
    "action_key a = colon_key (di_tenantId input) (di_actionId input)" "isSettled (ac_state a)" by blast+
qed

lemma claim_advances:
  assumes "ea_inv is_uuid (w_actions w)" and "sequence_uuids is_uuid" and "room_for n w"
    and "on_actions (claimDispatch is_uuid clock input) w = (x, w')"
  shows "advances is_uuid {} 1 w w'"
    "x = Inr (Settled a) \<Longrightarrow> settled_action (di_tenantId input) (di_actionId input) w'"
proof -
  from assms(4) obtain st where st: "claimDispatch is_uuid clock input (w_actions w) = (x, st)" "w' = w\<lparr>w_actions := st\<rparr>"
    by (rule on_actions_result)
  have "advances is_uuid {} 1 w w' \<and> (st = w_actions w \<or> (\<exists>c. x = Inr (Claimed c)))"
    using assms(1,2) room_for_room [OF assms(3)] st(1)
  proof (cases rule: dispatch_claim_effect)
    case same
    with st(2) advances_refl [OF assms(1)] show ?thesis by simp
  next
    case (moved b b' key)
    from changed_advances [OF assms(1) moved(1,5,6)] moved(4) st(2) show ?thesis by blast
  qed
  then show "advances is_uuid {} 1 w w'"
    "x = Inr (Settled a) \<Longrightarrow> settled_action (di_tenantId input) (di_actionId input) w'"
    using claim_settled [OF assms(1), of clock input a st] st by (auto simp: settled_action_def)
qed

lemma dispatched_advances: "advances is_uuid E n w w' \<Longrightarrow> advances is_uuid E n w (w'\<lparr>w_dispatched := ds\<rparr>)"
  by (simp add: advances_def)

lemma report_advances:
  assumes inv: "ea_inv (ck_uuid ck) (w_actions w)" and seq: "sequence_uuids (ck_uuid ck)" and room: "room_for n w"
    and run: "report_result ck d tn request result w = (r, w')"
  shows "advances (ck_uuid ck) {} 1 w w'"
    "r = Inr Consumed \<Longrightarrow> settled_action (nr_tenantId request) (nr_actionId request) w'"
proof -
  note rm = room_for_room [OF room]
  have "advances (ck_uuid ck) {} 1 w w' \<and>
    (r = Inr Consumed \<longrightarrow> settled_action (nr_tenantId request) (nr_actionId request) w')"
  proof (cases result)
    case (N8nDispatchSuccess status body)
    define input where "input = dispatchIdentity.extend (dispatch_identity_of d request)
      \<lparr>da_receipt = \<lparr>dr_httpStatus = status, dr_body = body, dr_workflowId = rm_workflowId (extractN8nDispatchReceiptMetadata body),
         dr_executionId = rm_executionId (extractN8nDispatchReceiptMetadata body),
         dr_providerReference = rm_providerReference (extractN8nDispatchReceiptMetadata body)\<rparr>\<rparr>"
    from run have "then_do (on_actions (recordDispatchAccepted (ck_uuid ck) (tn_clock tn 3) input))
        (\<lambda>_ w. (Inr Consumed, w)) w = (r, w')"
      by (simp add: report_result_def N8nDispatchSuccess input_def Let_def)
    then obtain x where x: "on_actions (recordDispatchAccepted (ck_uuid ck) (tn_clock tn 3) input) w = (x, w')"
        "r = Inr Consumed \<Longrightarrow> \<exists>y. x = Inr y" by (cases rule: then_do_cases) auto
    from x(1) obtain st where st: "recordDispatchAccepted (ck_uuid ck) (tn_clock tn 3) input (w_actions w) = (x, st)"
        "w' = w\<lparr>w_actions := st\<rparr>" by (rule on_actions_result)
    have who: "di_tenantId input = nr_tenantId request" "di_actionId input = nr_actionId request"
      by (simp_all add: input_def dispatch_identity_of_def dispatchIdentity.defs)
    from reported_advances [OF inv accepted_effect [OF inv seq rm st(1)]] x(2) show ?thesis
      by (auto simp: st(2) who accepted_action_def isSettled_def)
  next
    case (N8nDispatchFailure status error retryable body)
    show ?thesis
    proof (cases retryable)
      case True
      with run have "or_throw (retryBackoffMs d) w (\<lambda>ms.
          then_do (on_actions (scheduleDispatchRetry (ck_uuid ck) (tn_clock tn 3)
            (dispatchIdentity.extend (dispatch_identity_of d request)
              \<lparr>sr_retryAfterMs = ms, sr_errorCode = Some (dispatch_errorCode status), sr_errorMessage = error\<rparr>)))
            (\<lambda>_ w. (Inr Postponed, w)) w) = (r, w')"
        by (simp add: report_result_def N8nDispatchFailure Let_def)
      then show ?thesis
      proof (cases rule: or_throw_cases)
        case (failed e)
        with advances_refl [OF inv] show ?thesis by simp
      next
        case (passed ms)
        from passed(2) obtain x input where x: "on_actions (scheduleDispatchRetry (ck_uuid ck) (tn_clock tn 3) input) w = (x, w')"
            "r \<noteq> Inr Consumed" by (cases rule: then_do_cases) auto
        from x(1) obtain st where st: "scheduleDispatchRetry (ck_uuid ck) (tn_clock tn 3) input (w_actions w) = (x, st)"
            "w' = w\<lparr>w_actions := st\<rparr>" by (rule on_actions_result)
        from reported_advances(1) [OF inv retry_effect [OF inv seq rm st(1)]] x(2) st(2) show ?thesis by simp
      qed
    next
      case False
      define input where "input = dispatchIdentity.extend (dispatch_identity_of d request)
        \<lparr>fd_errorCode = Some (dispatch_errorCode status), fd_errorMessage = error\<rparr>"
      from run False have "then_do (on_actions (failDispatch (ck_uuid ck) (tn_clock tn 3) input))
          (\<lambda>_ w. (Inr Consumed, w)) w = (r, w')"
        by (simp add: report_result_def N8nDispatchFailure input_def Let_def)
      then obtain x where x: "on_actions (failDispatch (ck_uuid ck) (tn_clock tn 3) input) w = (x, w')"
          "r = Inr Consumed \<Longrightarrow> \<exists>y. x = Inr y" by (cases rule: then_do_cases) auto
      from x(1) obtain st where st: "failDispatch (ck_uuid ck) (tn_clock tn 3) input (w_actions w) = (x, st)"
          "w' = w\<lparr>w_actions := st\<rparr>" by (rule on_actions_result)
      have who: "di_tenantId input = nr_tenantId request" "di_actionId input = nr_actionId request"
        by (simp_all add: input_def dispatch_identity_of_def dispatchIdentity.defs)
      from reported_advances [OF inv failed_effect [OF inv seq rm st(1)]] x(2) show ?thesis
        by (auto simp: st(2) who failed_action_def isSettled_def)
    qed
  qed
  then show "advances (ck_uuid ck) {} 1 w w'"
    "r = Inr Consumed \<Longrightarrow> settled_action (nr_tenantId request) (nr_actionId request) w'" by blast+
qed

lemma incidents_advance:
  assumes "uuid_format is_uuid" and "ea_inv is_uuid (w_actions w)"
    and "then_do (on_incidents (incident_create is_uuid t p uuid now)) (\<lambda>_ w'. (Inr (), w')) w = (x, w')"
  shows "advances is_uuid {} 0 w w'"
    "x = Inr y \<Longrightarrow> find_existing (w_incidents w') (incident_key t (trim (ci_incidentKey p))) \<noteq> None"
proof -
  have "advances is_uuid {} 0 w w' \<and>
      (x = Inr y \<longrightarrow> find_existing (w_incidents w') (incident_key t (trim (ci_incidentKey p))) \<noteq> None)"
  proof (cases "incident_create is_uuid t p uuid now (w_incidents w)")
    case (Inl e)
    with assms(3) have "x = Inl e" "w' = w" by (simp_all add: on_incidents_def then_do_def)
    with advances_refl [OF assms(2)] show ?thesis by simp
  next
    case (Inr rs)
    obtain r st where rs: "rs = (r, st)" by (cases rs)
    from Inr assms(3) have w': "w' = w\<lparr>w_incidents := st\<rparr>" by (simp add: on_incidents_def then_do_def rs)
    from incident_filed [OF assms(1) Inr [unfolded rs]] assms(2) show ?thesis by (simp add: w' advances_def)
  qed
  then show "advances is_uuid {} 0 w w'"
    "x = Inr y \<Longrightarrow> find_existing (w_incidents w') (incident_key t (trim (ci_incidentKey p))) \<noteq> None" by blast+
qed

lemma health_advances:
  assumes "uuid_format is_uuid" and "ea_inv is_uuid (w_actions w)"
    and "then_do (on_health (health_record is_uuid t p uuid now)) (\<lambda>_ w'. (Inr (), w')) w = (x, w')"
  shows "advances is_uuid {} 0 w w'"
    "x = Inr y \<Longrightarrow>
       find_existing (w_health w') (health_key t (trim (hp_componentId p)) (trim (hp_idempotencyKey p))) \<noteq> None"
proof -
  have "advances is_uuid {} 0 w w' \<and> (x = Inr y \<longrightarrow>
      find_existing (w_health w') (health_key t (trim (hp_componentId p)) (trim (hp_idempotencyKey p))) \<noteq> None)"
  proof (cases "health_record is_uuid t p uuid now (w_health w)")
    case (Inl e)
    with assms(3) have "x = Inl e" "w' = w" by (simp_all add: on_health_def then_do_def)
    with advances_refl [OF assms(2)] show ?thesis by simp
  next
    case (Inr rs)
    obtain r st where rs: "rs = (r, st)" by (cases rs)
    from Inr assms(3) have w': "w' = w\<lparr>w_health := st\<rparr>" by (simp add: on_health_def then_do_def rs)
    from health_filed [OF assms(1) Inr [unfolded rs]] assms(2) show ?thesis by (simp add: w' advances_def)
  qed
  then show "advances is_uuid {} 0 w w'"
    "x = Inr y \<Longrightarrow>
       find_existing (w_health w') (health_key t (trim (hp_componentId p)) (trim (hp_idempotencyKey p))) \<noteq> None"
    by blast+
qed

lemma event_types_differ [simp]:
  "INCIDENT_OPENED_EVENT_TYPE \<noteq> WORKER_DEAD_LETTER_EVENT_TYPE" "WORKER_DEAD_LETTER_EVENT_TYPE \<noteq> INCIDENT_OPENED_EVENT_TYPE"
  "N8N_DISPATCH_EVENT_TYPE \<noteq> WORKER_DEAD_LETTER_EVENT_TYPE" "N8N_DISPATCH_EVENT_TYPE \<noteq> INCIDENT_OPENED_EVENT_TYPE"
  by (simp_all add: INCIDENT_OPENED_EVENT_TYPE_def WORKER_DEAD_LETTER_EVENT_TYPE_def N8N_DISPATCH_EVENT_TYPE_def)

lemma dead_letter_keys:
  "ci_incidentKey (dead_letter_incident ck payload) = dead_letter_key payload"
  "hp_componentId (dead_letter_health payload) = string_at ''worker'' payload"
  "hp_idempotencyKey (dead_letter_health payload) = dead_letter_key payload"
  by (simp_all only: dead_letter_incident_def dead_letter_health_def Let_def createIncidentParams.simps
      recordComponentHealthParams.simps)

text \<open>A step that is skipped when its repository is not configured.\<close>

lemma optional_step:
  assumes "(if c then m else (\<lambda>w. (Inr (), w))) w = (x, w')" and "ea_inv is_uuid (w_actions w)"
    and "m w = (x, w') \<Longrightarrow> advances is_uuid {} 0 w w' \<and> (x = Inr () \<longrightarrow> Q)"
  shows "advances is_uuid {} 0 w w' \<and> (x = Inr () \<longrightarrow> c \<longrightarrow> Q)"
proof (cases c)
  case True
  with assms(1,3) show ?thesis by simp
next
  case False
  with assms(1) have "w' = w" by simp
  with False advances_refl [OF assms(2)] show ?thesis by simp
qed

lemma dead_letter_effect:
  assumes "oe_eventType e = WORKER_DEAD_LETTER_EVENT_TYPE"
    and "object_of (zparse workerDeadLetterPayloadSchema (JObj (oe_payload e))) = Inr payload"
    and "pd_incidentsConfigured d \<Longrightarrow>
      find_existing (w_incidents w) (incident_key (oe_tenantId e) (trim (dead_letter_key payload))) \<noteq> None"
    and "pd_healthConfigured d \<Longrightarrow> find_existing (w_health w) (health_key (oe_tenantId e)
      (trim (string_at ''worker'' payload)) (trim (dead_letter_key payload))) \<noteq> None"
  shows "operational_effect d e w"
  unfolding operational_effect_def
proof (intro conjI impI)
  show "\<exists>payload. object_of (zparse incidentOpenedPayloadSchema (JObj (oe_payload e))) = Inr payload \<and>
      find_existing (w_incidents w) (incident_key (oe_tenantId e) (trim (string_at ''incident_key'' payload))) \<noteq> None"
    if "oe_eventType e = INCIDENT_OPENED_EVENT_TYPE \<and> pd_incidentsConfigured d"
    using that assms(1) event_types_differ(1) by argo
qed (use assms(2-4) in blast)

lemma dead_letter_filed:
  assumes uuid: "uuid_format (ck_uuid ck)" and inv: "ea_inv (ck_uuid ck) (w_actions w)"
    and ty: "oe_eventType e = WORKER_DEAD_LETTER_EVENT_TYPE"
    and run: "persistOperationalState ck d tn e w = (r, w')"
  shows "advances (ck_uuid ck) {} 0 w w' \<and> (r = Inr () \<longrightarrow> operational_effect d e w')"
proof -
  from run ty have "or_throw (object_of (zparse workerDeadLetterPayloadSchema (JObj (oe_payload e)))) w (\<lambda>payload.
      then_do
        (if pd_incidentsConfigured d
         then then_do (on_incidents (incident_create (ck_uuid ck) (oe_tenantId e)
                (dead_letter_incident ck payload) (tn_incidentId tn) (tn_clock tn 0 0))) (\<lambda>_ w'. (Inr (), w'))
         else (\<lambda>w'. (Inr (), w')))
        (\<lambda>_. if pd_healthConfigured d
             then then_do (on_health (health_record (ck_uuid ck) (oe_tenantId e) (dead_letter_health payload)
                    (tn_healthId tn) (tn_clock tn 1 0))) (\<lambda>_ w'. (Inr (), w'))
             else (\<lambda>w'. (Inr (), w'))) w) = (r, w')"
    by (simp add: persistOperationalState_def)
  then show ?thesis
  proof (cases rule: or_throw_cases)
    case (failed x)
    with advances_refl [OF inv] show ?thesis by simp
  next
    case (passed payload)
    note parsed = passed(1)
    have first: "advances (ck_uuid ck) {} 0 w w1 \<and> (x = Inr () \<longrightarrow> pd_incidentsConfigured d \<longrightarrow>
        find_existing (w_incidents w1) (incident_key (oe_tenantId e) (trim (dead_letter_key payload))) \<noteq> None)"
      if "(if pd_incidentsConfigured d
         then then_do (on_incidents (incident_create (ck_uuid ck) (oe_tenantId e)
                (dead_letter_incident ck payload) (tn_incidentId tn) (tn_clock tn 0 0))) (\<lambda>_ w'. (Inr (), w'))
         else (\<lambda>w'. (Inr (), w'))) w = (x, w1)" for x w1
    proof (rule optional_step [OF that inv])
      assume m: "then_do (on_incidents (incident_create (ck_uuid ck) (oe_tenantId e)
                (dead_letter_incident ck payload) (tn_incidentId tn) (tn_clock tn 0 0))) (\<lambda>_ w'. (Inr (), w')) w = (x, w1)"
      from incidents_advance [OF uuid inv m] show "advances (ck_uuid ck) {} 0 w w1 \<and> (x = Inr () \<longrightarrow>
          find_existing (w_incidents w1) (incident_key (oe_tenantId e) (trim (dead_letter_key payload))) \<noteq> None)"
        unfolding dead_letter_keys by blast
    qed
    have second: "advances (ck_uuid ck) {} 0 w1 w' \<and> (r = Inr () \<longrightarrow> pd_healthConfigured d \<longrightarrow>
        find_existing (w_health w') (health_key (oe_tenantId e) (trim (string_at ''worker'' payload))
          (trim (dead_letter_key payload))) \<noteq> None)"
      if "ea_inv (ck_uuid ck) (w_actions w1)" and "(if pd_healthConfigured d
             then then_do (on_health (health_record (ck_uuid ck) (oe_tenantId e) (dead_letter_health payload)
                    (tn_healthId tn) (tn_clock tn 1 0))) (\<lambda>_ w'. (Inr (), w'))
             else (\<lambda>w'. (Inr (), w'))) w1 = (r, w')" for w1
    proof (rule optional_step [OF that(2,1)])
      assume m: "then_do (on_health (health_record (ck_uuid ck) (oe_tenantId e) (dead_letter_health payload)
                    (tn_healthId tn) (tn_clock tn 1 0))) (\<lambda>_ w'. (Inr (), w')) w1 = (r, w')"
      from health_advances [OF uuid that(1) m] show "advances (ck_uuid ck) {} 0 w1 w' \<and> (r = Inr () \<longrightarrow>
          find_existing (w_health w') (health_key (oe_tenantId e) (trim (string_at ''worker'' payload))
            (trim (dead_letter_key payload))) \<noteq> None)"
        unfolding dead_letter_keys by blast
    qed
    from passed(2) show ?thesis
    proof (cases rule: then_do_cases)
      case (failed x)
      with first show ?thesis by blast
    next
      case (passed x w1)
      note f = first [OF passed(1)]
      then have s: "advances (ck_uuid ck) {} 0 w1 w' \<and> (r = Inr () \<longrightarrow> pd_healthConfigured d \<longrightarrow>
          find_existing (w_health w') (health_key (oe_tenantId e) (trim (string_at ''worker'' payload))
            (trim (dead_letter_key payload))) \<noteq> None)"
        using second [of w1] passed(2) advances_inv by blast
      have "advances (ck_uuid ck) {} 0 w w'"
        using advances_trans [OF conjunct1 [OF f] conjunct1 [OF s]] by simp
      moreover have "operational_effect d e w'" if "r = Inr ()"
      proof (rule dead_letter_effect [OF ty parsed])
        have "x = ()" by simp
        then show "find_existing (w_incidents w') (incident_key (oe_tenantId e) (trim (dead_letter_key payload))) \<noteq> None"
          if "pd_incidentsConfigured d" using f that advancesD(6) [OF conjunct1 [OF s]] by blast
        show "find_existing (w_health w') (health_key (oe_tenantId e) (trim (string_at ''worker'' payload))
            (trim (dead_letter_key payload))) \<noteq> None"
          if "pd_healthConfigured d" using s that \<open>r = Inr ()\<close> by blast
      qed
      ultimately show ?thesis by blast
    qed
  qed
qed

lemma operational_filed:
  assumes uuid: "uuid_format (ck_uuid ck)" and inv: "ea_inv (ck_uuid ck) (w_actions w)"
    and run: "persistOperationalState ck d tn e w = (r, w')"
  shows "advances (ck_uuid ck) {} 0 w w' \<and> (r = Inr () \<longrightarrow> operational_effect d e w')"
proof -
  note same = advances_refl [OF inv]
  consider (opened) "oe_eventType e = INCIDENT_OPENED_EVENT_TYPE" | (dead) "oe_eventType e = WORKER_DEAD_LETTER_EVENT_TYPE"
    | (other) "oe_eventType e \<noteq> INCIDENT_OPENED_EVENT_TYPE" "oe_eventType e \<noteq> WORKER_DEAD_LETTER_EVENT_TYPE" by blast
  then show ?thesis
  proof cases
    case opened
    then have nd: "oe_eventType e \<noteq> WORKER_DEAD_LETTER_EVENT_TYPE" by simp
    show ?thesis
    proof (cases "pd_incidentsConfigured d")
      case False
      with run opened have "w' = w" by (simp add: persistOperationalState_def)
      with same False nd show ?thesis by (simp add: operational_effect_def)
    next
      case True
      with run opened have "or_throw (object_of (zparse incidentOpenedPayloadSchema (JObj (oe_payload e)))) w (\<lambda>payload.
          then_do (on_incidents (incident_create (ck_uuid ck) (oe_tenantId e) (incident_opened_params payload)
               (tn_incidentId tn) (tn_clock tn 0 0))) (\<lambda>_ w'. (Inr (), w')) w) = (r, w')"
        by (simp add: persistOperationalState_def)
      then show ?thesis
      proof (cases rule: or_throw_cases)
        case (failed x)
        with same show ?thesis by simp
      next
        case (passed payload)
        have key: "ci_incidentKey (incident_opened_params payload) = string_at ''incident_key'' payload"
          by (simp only: incident_opened_params_def createIncidentParams.simps)
        from incidents_advance [OF uuid inv passed(2)] have *: "advances (ck_uuid ck) {} 0 w w'"
          "r = Inr () \<Longrightarrow> find_existing (w_incidents w')
             (incident_key (oe_tenantId e) (trim (string_at ''incident_key'' payload))) \<noteq> None"
          unfolding key by blast+
        with passed(1) nd show ?thesis unfolding operational_effect_def by blast
      qed
    qed
  next
    case dead
    from dead_letter_filed [OF uuid inv dead run] show ?thesis .
  next
    case other
    with run have "w' = w" by (simp add: persistOperationalState_def)
    with same other show ?thesis by (simp add: operational_effect_def)
  qed
qed

lemma dispatch_advances:
  assumes inv: "ea_inv (ck_uuid ck) (w_actions w)" and seq: "sequence_uuids (ck_uuid ck)" and room: "room_for 2 w"
    and run: "dispatchN8nAction ck d tn payload w = (r, w')"
  shows "advances (ck_uuid ck) {} 2 w w' \<and> (r = Inr Consumed \<longrightarrow>
    (\<exists>request. n8nTypedDispatchRequestSchema_parse (ck_uuid ck) (ck_url ck) (ck_email ck) payload = Inr request \<and>
       settled_action (nr_tenantId request) (nr_actionId request) w'))"
proof -
  note same = advances_refl [OF inv]
  consider (refused) err where "r = Inl err" "w' = w"
    | (parsed) request ms where
      "n8nTypedDispatchRequestSchema_parse (ck_uuid ck) (ck_url ck) (ck_email ck) payload = Inr request"
      "then_do (on_actions (claimDispatch (ck_uuid ck) (tn_clock tn 2) (claim_input d request ms)))
          (\<lambda>claim. case claim of
             Deferred _ \<Rightarrow> (\<lambda>w. (Inr Postponed, w))
           | InFlight _ \<Rightarrow> (\<lambda>w. (Inr Postponed, w))
           | Settled _ \<Rightarrow> (\<lambda>w. (Inr Consumed, w))
           | Claimed _ \<Rightarrow>
               then_do (send_dispatch tn (request\<lparr>nr_callback := nullish (callbackUrl d) (nr_callback request)\<rparr>))
                 (report_result ck d tn request)) w = (r, w')"
    using run unfolding dispatchN8nAction_def
    by (cases "n8nTypedDispatchRequestSchema_parse (ck_uuid ck) (ck_url ck) (ck_email ck) payload";
        cases "dispatchLeaseMs d") (auto split: if_splits)
  then show ?thesis
  proof cases
    case refused
    with same show ?thesis by simp
  next
    case (parsed request ms)
    have who: "di_tenantId (claim_input d request ms) = nr_tenantId request"
      "di_actionId (claim_input d request ms) = nr_actionId request"
      by (simp_all add: claim_input_def dispatch_identity_of_def dispatchIdentity.defs)
    from parsed(2) show ?thesis
    proof (cases rule: then_do_cases)
      case (failed x)
      from claim_advances(1) [OF inv seq room failed(1)] failed(2) advances_more show ?thesis by fastforce
    next
      case (passed claim w1)
      note adv = claim_advances [OF inv seq room passed(1), unfolded who]
      show ?thesis
      proof (cases claim)
        case (Claimed c)
        define w2 where "w2 = w1\<lparr>w_dispatched := w_dispatched w1 @
          [request\<lparr>nr_callback := nullish (callbackUrl d) (nr_callback request)\<rparr>]\<rparr>"
        have one: "advances (ck_uuid ck) {} 1 w w2" unfolding w2_def by (rule dispatched_advances [OF adv(1)])
        define sent where "sent = tn_dispatch tn (request\<lparr>nr_callback := nullish (callbackUrl d) (nr_callback request)\<rparr>)"
        from passed(2) Claimed have answer: "(case sent of Inl err \<Rightarrow> (Inl err, w2) | Inr result \<Rightarrow>
            report_result ck d tn request result w2) = (r, w')"
          by (simp add: send_dispatch_def then_do_def w2_def sent_def split: sum.splits)
        show ?thesis
        proof (cases sent)
          case (Inl err)
          with answer advances_more [OF one, of 2] show ?thesis by auto
        next
          case (Inr result)
          with answer have "report_result ck d tn request result w2 = (r, w')" by simp
          moreover have "room_for 1 w2" by (rule room_for_later [OF one]) (use room in \<open>simp add: numeral_2_eq_2\<close>)
          ultimately have two: "advances (ck_uuid ck) {} 1 w2 w'"
            "r = Inr Consumed \<Longrightarrow> settled_action (nr_tenantId request) (nr_actionId request) w'"
            using report_advances [OF advances_inv [OF one] seq] by blast+
          from advances_trans [OF one two(1)] have "advances (ck_uuid ck) {} 2 w w'" by (simp add: numeral_2_eq_2)
          with two(2) parsed(1) show ?thesis by blast
        qed
      next
        case (Settled c)
        with passed(2) have "w' = w1" by simp
        with adv(2) [of c] Settled passed parsed(1) advances_more [OF adv(1), of 2] show ?thesis by auto
      qed (use passed(2) advances_more [OF adv(1), of 2] in auto)
    qed
  qed
qed

lemma consume_advances:
  assumes "ea_inv (ck_uuid ck) (w_actions w)" and "consume ck tn e w = (x, w')"
  shows "advances (ck_uuid ck) (if isl x then {} else {oe_id e}) 0 w w'"
proof (cases "outbox_markConsumed (ck_uuid ck) (oe_tenantId e) (oe_id e) (tn_clock tn 4 0) (w_outbox w)")
  case (Inl err)
  with assms(2) have "w' = w" by (simp add: consume_def)
  with advances_refl [OF assms(1)] show ?thesis by simp
next
  case (Inr eo)
  obtain e' ob where eo: "eo = (e', ob)" by (cases eo)
  note m = Inr [unfolded eo]
  from m assms(2) have w': "w' = w\<lparr>w_actions := (w_actions w)\<lparr>ea_outbox := ob\<rparr>\<rparr>" "\<not> isl x"
    by (auto simp: consume_def)
  have "ea_inv (ck_uuid ck) ((w_actions w)\<lparr>ea_outbox := ob\<rparr>)" using consumption_step [OF assms(1) m] by blast
  then show ?thesis using pending_mark [OF ea_invD(2) [OF assms(1)] m] w'(2)
    by (auto simp: advances_def w')
qed

lemma published_advances:
  "ea_inv is_uuid (w_actions w) \<Longrightarrow> advances is_uuid {} 0 w (w\<lparr>w_published := w_published w @ ps\<rparr>)"
  by (simp add: advances_def)

text \<open>Delivering an event: to n8n, or to its subject.\<close>

definition deliver :: "checks \<Rightarrow> publisher_config \<Rightarrow> turn \<Rightarrow> storedOutboxEvent \<Rightarrow> dispatch_outcome effect" where
  "deliver ck d tn event =
     (if oe_eventType event = N8N_DISPATCH_EVENT_TYPE then dispatchN8nAction ck d tn (oe_payload event)
      else (\<lambda>w. or_throw (tenantScopedSubject (ck_uuid ck) (oe_tenantId event) (oe_eventType event)) w (\<lambda>subject.
        then_do (publish tn subject (oe_payload event)) (\<lambda>_ w. (Inr Consumed, w)) w)))"

lemma handle_event_deliver:
  "handle_event ck d tn e = then_do (persistOperationalState ck d tn e) (\<lambda>_. then_do (deliver ck d tn e)
     (\<lambda>outcome. if outcome = Postponed then (\<lambda>w. (Inr False, w)) else then_do (consume ck tn e) (\<lambda>_ w. (Inr True, w))))"
  by (simp add: handle_event_def deliver_def cong: if_cong)

lemma deliver_advances:
  assumes inv: "ea_inv (ck_uuid ck) (w_actions w)" and seq: "sequence_uuids (ck_uuid ck)" and room: "room_for 2 w"
    and n: "n \<le> length (w_published w)" and run: "deliver ck d tn e w = (r, w')"
  shows "advances (ck_uuid ck) {} 2 w w' \<and> (r = Inr Consumed \<longrightarrow> delivery_effect ck n e w')"
proof (cases "oe_eventType e = N8N_DISPATCH_EVENT_TYPE")
  case True
  with run have "dispatchN8nAction ck d tn (oe_payload e) w = (r, w')" by (simp add: deliver_def)
  from dispatch_advances [OF inv seq room this] True show ?thesis by (auto simp: delivery_effect_def)
next
  case False
  with run have "or_throw (tenantScopedSubject (ck_uuid ck) (oe_tenantId e) (oe_eventType e)) w (\<lambda>subject.
        then_do (publish tn subject (oe_payload e)) (\<lambda>_ w. (Inr Consumed, w)) w) = (r, w')"
    by (simp add: deliver_def)
  then show ?thesis
  proof (cases rule: or_throw_cases)
    case (failed x)
    with advances_refl [OF inv] show ?thesis by simp
  next
    case (passed subject)
    show ?thesis
    proof (cases "tn_publish tn")
      case None
      with passed(2) have w': "w' = w\<lparr>w_published := w_published w @ [(subject, oe_payload e)]\<rparr>" "r = Inr Consumed"
        by (auto simp: publish_def then_do_def)
      have "delivery_effect ck n e w'" using False passed(1) n by (simp add: delivery_effect_def w')
      with advances_more [OF published_advances [OF inv], of 2] show ?thesis unfolding w'(1) by blast
    next
      case (Some err)
      with passed(2) have "w' = w" "r = Inl err" by (auto simp: publish_def then_do_def)
      with advances_refl [OF inv] show ?thesis by simp
    qed
  qed
qed

lemma handle_advances:
  assumes uuid: "uuid_format (ck_uuid ck)" and inv: "ea_inv (ck_uuid ck) (w_actions w)"
    and seq: "sequence_uuids (ck_uuid ck)" and room: "room_for 2 w"
    and n: "n \<le> length (w_published w)" and run: "handle_event ck d tn e w = (r, w')"
  shows "\<exists>E. advances (ck_uuid ck) E 2 w w' \<and>
    (E = {} \<or> E = {oe_id e} \<and> operational_effect d e w' \<and> delivery_effect ck n e w')"
  using run unfolding handle_event_deliver
proof (cases rule: then_do_cases)
  case (failed x)
  from operational_filed [OF uuid inv failed(1)] advances_more [of _ _ 0 _ _ 2] show ?thesis by blast
next
  case (passed u w1)
  from operational_filed [OF uuid inv passed(1)] have a: "advances (ck_uuid ck) {} 0 w w1" and
    op: "operational_effect d e w1" by simp_all
  note inv1 = advances_inv [OF a]
  have room1: "room_for 2 w1" by (rule room_for_later [OF a]) (use room in \<open>simp add: room_for_def\<close>)
  from advancesD(5) [OF a] n have n1: "n \<le> length (w_published w1)" by auto
  from passed(2) show ?thesis
  proof (cases rule: then_do_cases)
    case (failed x)
    from deliver_advances [OF inv1 seq room1 n1 failed(1)] have b: "advances (ck_uuid ck) {} 2 w1 w'" by blast
    from advances_after [OF a b] show ?thesis by blast
  next
    case (passed outcome w2)
    from deliver_advances [OF inv1 seq room1 n1 passed(1)] have b: "advances (ck_uuid ck) {} 2 w1 w2" and
      del: "outcome = Consumed \<Longrightarrow> delivery_effect ck n e w2" by simp_all
    have ab: "advances (ck_uuid ck) {} 2 w w2" by (rule advances_after [OF a b])
    show ?thesis
    proof (cases "outcome = Postponed")
      case True
      with passed(2) ab show ?thesis by auto
    next
      case False
      with passed(2) have "then_do (consume ck tn e) (\<lambda>_ w. (Inr True, w)) w2 = (r, w')" by simp
      then obtain x where x: "consume ck tn e w2 = (x, w')" by (cases rule: then_do_cases) auto
      note c = consume_advances [OF advances_inv [OF ab] x]
      have all: "advances (ck_uuid ck) (if isl x then {} else {oe_id e}) 2 w w'" using advances_trans [OF ab c] by simp
      have "operational_effect d e w'" "delivery_effect ck n e w'"
        using operational_stays [OF c operational_stays [OF b op]] delivery_stays [OF c del] False
        by (cases outcome; simp)+
      with all show ?thesis by (cases "isl x") auto
    qed
  qed
qed

lemma drain_advances:
  assumes "uuid_format (ck_uuid ck)" and "ea_inv (ck_uuid ck) (w_actions w)" and "sequence_uuids (ck_uuid ck)"
    and "room_for (2 * length es) w" and "n \<le> length (w_published w)" and "drain_events ck d turns es i k w = (r, w')"
  shows "\<exists>E. advances (ck_uuid ck) E (2 * length es) w w' \<and>
    (\<forall>j \<in> E. \<exists>e \<in> set es. oe_id e = j \<and> operational_effect d e w' \<and> delivery_effect ck n e w')"
  using assms(2,4-6)
proof (induction es arbitrary: i k w)
  case Nil
  then show ?case using advances_refl [of "ck_uuid ck" w "{}" 0] by auto
next
  case (Cons e es)
  have room: "room_for 2 w" "room_for (2 + 2 * length es) w" using Cons.prems(2) by (simp_all add: room_for_def)
  from Cons.prems(4) have "then_do (handle_event ck d (turns i) e)
      (\<lambda>done. drain_events ck d turns es (Suc i) (if done then Suc k else k)) w = (r, w')" by simp
  then show ?case
  proof (cases rule: then_do_cases)
    case (failed x)
    from handle_advances [OF assms(1) Cons.prems(1) assms(3) room(1) Cons.prems(3) failed(1)] obtain E where
      E: "advances (ck_uuid ck) E 2 w w'" "E = {} \<or> E = {oe_id e} \<and> operational_effect d e w' \<and> delivery_effect ck n e w'"
      by blast
    from advances_more [OF E(1), of "2 * length (e # es)"] E(2) show ?thesis by auto
  next
    case (passed b w1)
    from handle_advances [OF assms(1) Cons.prems(1) assms(3) room(1) Cons.prems(3) passed(1)] obtain E where
      E: "advances (ck_uuid ck) E 2 w w1" "E = {} \<or> E = {oe_id e} \<and> operational_effect d e w1 \<and> delivery_effect ck n e w1"
      by blast
    have "n \<le> length (w_published w1)" using advancesD(5) [OF E(1)] Cons.prems(3) by auto
    from Cons.IH [OF advances_inv [OF E(1)] room_for_later [OF E(1) room(2)] this passed(2)] obtain F where
      F: "advances (ck_uuid ck) F (2 * length es) w1 w'"
        "\<forall>j \<in> F. \<exists>e \<in> set es. oe_id e = j \<and> operational_effect d e w' \<and> delivery_effect ck n e w'" by blast
    have "advances (ck_uuid ck) (E \<union> F) (2 * length (e # es)) w w'"
      using advances_trans [OF E(1) F(1)] by simp
    moreover have "\<forall>j \<in> E \<union> F. \<exists>e \<in> set (e # es). oe_id e = j \<and> operational_effect d e w' \<and> delivery_effect ck n e w'"
      using E(2) F(2) operational_stays [OF F(1)] delivery_stays [OF F(1)] by auto
    ultimately show ?thesis by blast
  qed
qed

section \<open>Guarantees\<close>

lemma listed_pending:
  assumes "outbox_inv is_uuid ob"
  shows "set (outbox_listUnconsumed t limit ob) \<subseteq> set (outbox_pending t ob)"
    "length (outbox_listUnconsumed t limit ob) \<le> length (outbox_pending t ob)"
  unfolding listUnconsumed_eq [OF assms] outbox_pending_def js_slice0_def by (auto dest: in_set_takeD)

text \<open>
  C24. An event leaves the queue only after its effect: whatever a drain of a tenant's queue meets (refused
  claims, failed dispatches, an unreachable bus, malformed payloads) and whether it returns or throws, an event
  that was pending before and is not pending after has its incident and health record on file where these
  are configured, and its n8n action is settled or its payload has been published to its subject during
  this very drain.
\<close>

theorem consumed_only_after_effect:
  assumes "uuid_format (ck_uuid ck)" and "sequence_uuids (ck_uuid ck)" and "ea_inv (ck_uuid ck) (w_actions w)"
    and "room_for (2 * length (outbox_pending t (w_outbox w))) w"
    and "publishPendingForTenant ck d turns t limit w = (r, w')"
    and "e \<in> set (outbox_pending t (w_outbox w))" and "e \<notin> set (outbox_pending t (w_outbox w'))"
  shows "operational_effect d e w' \<and> delivery_effect ck (length (w_published w)) e w'"
proof -
  define es where "es = outbox_listUnconsumed t limit (w_outbox w)"
  note inv = ea_invD(2) [OF assms(3)]
  note es = listed_pending [OF inv, of t limit, folded es_def]
  from assms(4) es(2) have "room_for (2 * length es) w" by (simp add: room_for_def)
  from drain_advances [OF assms(1,3,2) this order_refl assms(5) [unfolded publishPendingForTenant_def, folded es_def]]
  obtain E where E: "advances (ck_uuid ck) E (2 * length es) w w'" "\<And>j. j \<in> E \<Longrightarrow>
      \<exists>e \<in> set es. oe_id e = j \<and> operational_effect d e w' \<and> delivery_effect ck (length (w_published w)) e w'" by blast
  have "oe_id e \<in> E" using advancesD(4) [OF E(1) assms(6)] assms(7) by blast
  from E(2) [OF this] obtain x where x: "x \<in> set es" "oe_id x = oe_id e" "operational_effect d x w'"
      "delivery_effect ck (length (w_published w)) x w'" by blast
  from distinct_pending [OF inv] x(1,2) es(1) assms(6) have "x = e" by (auto simp: distinct_map inj_on_def)
  with x(3,4) show ?thesis by blast
qed

definition example_checks :: checks where
  "example_checks = \<lparr>ck_uuid = hex_id, ck_url = (\<lambda>u. u \<noteq> []), ck_email = (\<lambda>_. True), ck_sha256 = id, ck_number = show_integer\<rparr>"

definition example_config :: publisher_config where
  "example_config =
     \<lparr>pd_n8nConfigured = True, pd_actionsConfigured = True, pd_incidentsConfigured = True, pd_healthConfigured = True,
      pd_n8nRetryBackoffMs = None, pd_n8nDispatchLeaseMs = Some 1000, pd_n8nDispatchWorkerId = Some ''w'', pd_hostname = None,
      pd_pid = 1, pd_n8nDispatchResultCallbackUrl = None, pd_n8nRequireResultCallback = False\<rparr>"

definition example_turn :: turn where
  "example_turn =
     \<lparr>tn_clock = (\<lambda>_ _. 7), tn_incidentId = ''bb'', tn_healthId = ''cc'', tn_publish = None,
      tn_dispatch = (\<lambda>_. Inr (N8nDispatchSuccess 200 JNull))\<rparr>"

definition world_of :: "outbox \<Rightarrow> world" where
  "world_of ob =
     \<lparr>w_actions = empty_external_actions\<lparr>ea_outbox := ob\<rparr>, w_incidents = empty_store, w_health = empty_store,
      w_published = [], w_dispatched = []\<rparr>"

lemma world_of_inv: "outbox_inv is_uuid ob \<Longrightarrow> ea_inv is_uuid (w_actions (world_of ob))"
  using ea_inv_empty [of is_uuid] by (simp add: world_of_def ea_inv_def events_of_def)

lemma example_drained:
  "map_prod id (\<lambda>w. outbox_pending ''aa'' (w_outbox w)) (publishPendingForTenant example_checks example_config (\<lambda>_. example_turn) ''aa'' 10
     (world_of example_outbox)) = (Inr 1, [])"
  by code_simp

theorem consumed_only_after_effect_witness:
  "example_event \<in> set (outbox_pending ''aa'' (w_outbox (world_of example_outbox))) \<and>
   delivery_effect example_checks 0 example_event (snd (publishPendingForTenant example_checks example_config
     (\<lambda>_. example_turn) ''aa'' 10 (world_of example_outbox)))"
proof -
  define wr where "wr = publishPendingForTenant example_checks example_config (\<lambda>_. example_turn) ''aa'' 10 (world_of example_outbox)"
  have ck: "ck_uuid example_checks = hex_id" by (simp add: example_checks_def)
  have inv: "outbox_inv hex_id example_outbox" using outbox_enqueue_inv [OF outbox_inv_empty example_enqueue] by blast
  have p: "outbox_pending ''aa'' (w_outbox (world_of example_outbox)) = [example_event]" by code_simp
  have "outbox_pending ''aa'' (w_outbox (snd wr)) = []" using example_drained unfolding wr_def [symmetric] by (cases wr) simp
  with consumed_only_after_effect [of example_checks "world_of example_outbox" "''aa''" example_config "\<lambda>_. example_turn" 10
      "fst wr" "snd wr" example_event, unfolded ck p] world_of_inv [OF inv] uuid_format_hex_id sequence_uuids_hex_id
  have "delivery_effect example_checks (length (w_published (world_of example_outbox))) example_event (snd wr)"
    by (simp add: wr_def room_for_def world_of_def empty_external_actions_def)
  then show ?thesis unfolding p wr_def by (simp add: world_of_def)
qed

text \<open>Events that only have to be published.\<close>

definition ordinary :: "storedOutboxEvent \<Rightarrow> bool" where
  "ordinary e \<longleftrightarrow> oe_eventType e \<notin> {N8N_DISPATCH_EVENT_TYPE, INCIDENT_OPENED_EVENT_TYPE, WORKER_DEAD_LETTER_EVENT_TYPE}"

definition message :: "storedOutboxEvent \<Rightarrow> string \<times> json_record" where
  "message e = (''t.'' @ oe_tenantId e @ ''.'' @ oe_eventType e, oe_payload e)"

lemma stored_subject:
  assumes "storedOutboxEvent_ok is_uuid e"
  shows "tenantScopedSubject is_uuid (oe_tenantId e) (oe_eventType e) = Inr (fst (message e))"
proof -
  have "hd (oe_eventType e) \<noteq> CHR ''.''" "last (oe_eventType e) \<noteq> CHR ''.''" "oe_eventType e \<noteq> []"
    using assms outboxEventType_ends lower_no_dot not_digit(2) unfolding storedOutboxEvent_ok_def by metis+
  with assms show ?thesis by (simp add: tenantScopedSubject_def storedOutboxEvent_ok_def message_def)
qed

lemma handle_ordinary:
  assumes "ea_inv (ck_uuid ck) (w_actions w)" and "e \<in> set (outbox_pending t (w_outbox w))" and "ordinary e"
    and "tn_publish tn = None"
  shows "\<exists>w'. handle_event ck d tn e w = (Inr True, w') \<and> ea_inv (ck_uuid ck) (w_actions w') \<and>
    w_published w' = w_published w @ [message e] \<and>
    (\<forall>u. outbox_pending u (w_outbox w') = filter (\<lambda>x. oe_id x \<noteq> oe_id e) (outbox_pending u (w_outbox w)))"
proof -
  note inv = ea_invD(2) [OF assms(1)]
  from assms(2) have e: "storedOutboxEvent_ok (ck_uuid ck) e" "oe_tenantId e = t"
    using pending_filed [OF inv] find_existing_Some [OF outbox_inv_store [OF inv]] store_okD [OF outbox_inv_store [OF inv]]
    by blast+
  define w1 where "w1 = w\<lparr>w_published := w_published w @ [message e]\<rparr>"
  from mark_pending_succeeds [OF inv assms(2)] obtain e' ob where
    m: "outbox_markConsumed (ck_uuid ck) t (oe_id e) (tn_clock tn 4 0) (w_outbox w) = Inr (e', ob)" by blast
  define w2 where "w2 = w1\<lparr>w_actions := (w_actions w)\<lparr>ea_outbox := ob\<rparr>\<rparr>"
  have "handle_event ck d tn e w = (Inr True, w2)"
    using assms(3,4) stored_subject [OF e(1)] m e(2)
    by (simp add: handle_event_def ordinary_def persistOperationalState_def then_do_def publish_def consume_def
        w1_def w2_def message_def)
  moreover have "ea_inv (ck_uuid ck) (w_actions w2)" using consumption_step [OF assms(1) m] by (simp add: w2_def)
  moreover have "w_published w2 = w_published w @ [message e]" by (simp add: w2_def w1_def)
  ultimately show ?thesis using pending_mark [OF inv m] by (auto simp: w2_def)
qed

lemma filter_rest:
  assumes "distinct (map f (xs @ ys))"
  shows "filter (\<lambda>x. f x \<notin> f ` set xs) (xs @ ys) = ys"
proof -
  have "filter (\<lambda>x. f x \<notin> f ` set xs) xs = []" by (simp add: filter_empty_conv)
  moreover have "filter (\<lambda>x. f x \<notin> f ` set xs) ys = ys" using assms by (auto simp: filter_id_conv)
  ultimately show ?thesis by simp
qed

lemma drain_ordinary:
  assumes "ea_inv (ck_uuid ck) (w_actions w)" and "set es \<subseteq> set (outbox_pending t (w_outbox w))"
    and "distinct (map oe_id es)" and "\<forall>e \<in> set es. ordinary e" and "\<forall>j. tn_publish (turns j) = None"
  shows "\<exists>w'. drain_events ck d turns es i n w = (Inr (n + length es), w') \<and>
    w_published w' = w_published w @ map message es \<and>
    (\<forall>u. outbox_pending u (w_outbox w') = filter (\<lambda>x. oe_id x \<notin> oe_id ` set es) (outbox_pending u (w_outbox w)))"
  using assms(1-4)
proof (induction es arbitrary: i n w)
  case (Cons e es)
  from handle_ordinary [OF Cons.prems(1), of e t "turns i" d] Cons.prems(2,4) assms(5) obtain w1 where
    w1: "handle_event ck d (turns i) e w = (Inr True, w1)" "ea_inv (ck_uuid ck) (w_actions w1)"
      "w_published w1 = w_published w @ [message e]"
      "\<And>u. outbox_pending u (w_outbox w1) = filter (\<lambda>x. oe_id x \<noteq> oe_id e) (outbox_pending u (w_outbox w))" by auto
  have "set es \<subseteq> set (outbox_pending t (w_outbox w1))" using Cons.prems(2,3) unfolding w1(4)
    by (auto simp: image_iff)
  from Cons.IH [OF w1(2) this, of "Suc i" "Suc n"] Cons.prems(3,4) obtain w2 where
    w2: "drain_events ck d turns es (Suc i) (Suc n) w1 = (Inr (Suc n + length es), w2)"
      "w_published w2 = w_published w1 @ map message es"
      "\<And>u. outbox_pending u (w_outbox w2) = filter (\<lambda>x. oe_id x \<notin> oe_id ` set es) (outbox_pending u (w_outbox w1))" by auto
  have "drain_events ck d turns (e # es) i n w = (Inr (n + length (e # es)), w2)" using w1(1) w2(1) by (simp add: then_do_def)
  moreover have "outbox_pending u (w_outbox w2) = filter (\<lambda>x. oe_id x \<notin> oe_id ` set (e # es)) (outbox_pending u (w_outbox w))" for u
    unfolding w2(3) w1(4) filter_filter by (rule filter_cong) auto
  ultimately show ?case using w1(3) w2(2) by simp
qed simp

text \<open>
  C25. Delivery in order: when the events a drain lists are ordinary ones and the bus accepts them, the drain
  returns how many there are, has published exactly these, each once, under the tenant's subject and in
  the order they were enqueued, and has taken exactly these out of the queue; no other tenant's queue changes.
\<close>

theorem ordinary_events_are_delivered_in_order:
  assumes "ea_inv (ck_uuid ck) (w_actions w)" and "0 \<le> limit"
    and "\<forall>e \<in> set (take (nat limit) (outbox_pending t (w_outbox w))). ordinary e" and "\<forall>j. tn_publish (turns j) = None"
  shows "\<exists>w'. publishPendingForTenant ck d turns t limit w =
      (Inr (min (nat limit) (length (outbox_pending t (w_outbox w)))), w') \<and>
    w_published w' = w_published w @ map message (take (nat limit) (outbox_pending t (w_outbox w))) \<and>
    outbox_pending t (w_outbox w') = drop (nat limit) (outbox_pending t (w_outbox w)) \<and>
    (\<forall>u. u \<noteq> t \<longrightarrow> outbox_pending u (w_outbox w') = outbox_pending u (w_outbox w))"
proof -
  note inv = ea_invD(2) [OF assms(1)]
  define ps where "ps = outbox_pending t (w_outbox w)"
  have list: "outbox_listUnconsumed t limit (w_outbox w) = take (nat limit) ps"
    unfolding ps_def by (rule mem_outbox.listing_prefix [OF inv assms(2)])
  have dist: "distinct (map oe_id (take (nat limit) ps @ drop (nat limit) ps))"
    unfolding append_take_drop_id ps_def by (rule distinct_pending [OF inv])
  have "set (take (nat limit) ps) \<subseteq> set (outbox_pending t (w_outbox w))" by (auto simp: ps_def dest: in_set_takeD)
  moreover have "distinct (map oe_id (take (nat limit) ps))" using dist unfolding map_append distinct_append by blast
  ultimately obtain w' where
    w': "drain_events ck d turns (take (nat limit) ps) 0 0 w = (Inr (length (take (nat limit) ps)), w')"
      "w_published w' = w_published w @ map message (take (nat limit) ps)"
      "\<And>u. outbox_pending u (w_outbox w') =
         filter (\<lambda>x. oe_id x \<notin> oe_id ` set (take (nat limit) ps)) (outbox_pending u (w_outbox w))"
    using drain_ordinary [OF assms(1) _ _ assms(3,4), folded ps_def, where i = 0 and n = 0 and d = d] by force
  have "filter (\<lambda>x. oe_id x \<notin> oe_id ` set (take (nat limit) ps)) (take (nat limit) ps @ drop (nat limit) ps) =
      drop (nat limit) ps"
    by (rule filter_rest [OF dist])
  then have "outbox_pending t (w_outbox w') = drop (nat limit) ps" by (simp add: w'(3) ps_def)
  moreover have "outbox_pending u (w_outbox w') = outbox_pending u (w_outbox w)" if "u \<noteq> t" for u
    unfolding w'(3)
  proof (rule filter_True, rule ballI)
    fix x assume x: "x \<in> set (outbox_pending u (w_outbox w))"
    show "oe_id x \<notin> oe_id ` set (take (nat limit) ps)"
    proof
      assume "oe_id x \<in> oe_id ` set (take (nat limit) ps)"
      then obtain y where y: "y \<in> set (outbox_pending t (w_outbox w))" "oe_id y = oe_id x"
        unfolding ps_def by (auto dest: in_set_takeD)
      have "x = y" using x y unfolding outbox_pending_def
        by (simp add: set_store_values [OF outbox_inv_store [OF inv]])
      with x y that show False by (simp add: outbox_pending_def)
    qed
  qed
  ultimately show ?thesis using w'(1,2) by (auto simp: publishPendingForTenant_def list ps_def min.commute)
qed

theorem ordinary_events_are_delivered_in_order_witness:
  "\<exists>w'. publishPendingForTenant example_checks example_config (\<lambda>_. example_turn) ''aa'' 10 (world_of example_outbox) = (Inr 1, w') \<and>
     w_published w' = [(''t.aa.a.b.v1'', [])] \<and> outbox_pending ''aa'' (w_outbox w') = []"
proof -
  have inv: "outbox_inv hex_id example_outbox" using outbox_enqueue_inv [OF outbox_inv_empty example_enqueue] by blast
  have p: "outbox_pending ''aa'' (w_outbox (world_of example_outbox)) = [example_event]" by code_simp
  have "ordinary example_event" by (simp add: ordinary_def example_event_def N8N_DISPATCH_EVENT_TYPE_def
      INCIDENT_OPENED_EVENT_TYPE_def WORKER_DEAD_LETTER_EVENT_TYPE_def)
  then show ?thesis
    using ordinary_events_are_delivered_in_order [of example_checks "world_of example_outbox" 10 "''aa''" "\<lambda>_. example_turn"
        example_config, unfolded p] world_of_inv [OF inv]
    by (auto simp: example_checks_def example_turn_def message_def example_event_def world_of_def)
qed

section \<open>What holds the queue back\<close>

text \<open>A dispatch event whose claim the repository answers with deferred or in flight.\<close>

definition waiting :: "checks \<Rightarrow> publisher_config \<Rightarrow> turn \<Rightarrow> world \<Rightarrow> storedOutboxEvent \<Rightarrow> bool" where
  "waiting ck d tn w e \<longleftrightarrow>
     oe_eventType e = N8N_DISPATCH_EVENT_TYPE \<and> pd_n8nConfigured d \<and> pd_actionsConfigured d \<and>
     \<not> (pd_n8nRequireResultCallback d \<and> callbackUrl d = None) \<and>
     (case n8nTypedDispatchRequestSchema_parse (ck_uuid ck) (ck_url ck) (ck_email ck) (oe_payload e) of
        Inl _ \<Rightarrow> False
      | Inr request \<Rightarrow>
          (case dispatchLeaseMs d of
             Inl _ \<Rightarrow> False
           | Inr ms \<Rightarrow>
               (case fst (claimDispatch (ck_uuid ck) (tn_clock tn 2) (claim_input d request ms) (w_actions w)) of
                  Inr (Deferred _) \<Rightarrow> True | Inr (InFlight _) \<Rightarrow> True | _ \<Rightarrow> False)))"

lemma handle_waiting:
  assumes "sequence_uuids (ck_uuid ck)" and "ea_inv (ck_uuid ck) (w_actions w)" and "room_for n w" and "waiting ck d tn w e"
  shows "handle_event ck d tn e w = (Inr False, w)"
proof -
  from assms(4) obtain request where
    r1: "n8nTypedDispatchRequestSchema_parse (ck_uuid ck) (ck_url ck) (ck_email ck) (oe_payload e) = Inr request"
    by (cases "n8nTypedDispatchRequestSchema_parse (ck_uuid ck) (ck_url ck) (ck_email ck) (oe_payload e)")
      (simp_all add: waiting_def)
  from assms(4) obtain ms where r2: "dispatchLeaseMs d = Inr ms"
    by (cases "dispatchLeaseMs d") (simp_all add: waiting_def r1)
  obtain x st where r3: "claimDispatch (ck_uuid ck) (tn_clock tn 2) (claim_input d request ms) (w_actions w) = (x, st)"
    by (cases "claimDispatch (ck_uuid ck) (tn_clock tn 2) (claim_input d request ms) (w_actions w)")
  have r4: "case x of Inr (Deferred _) \<Rightarrow> True | Inr (InFlight _) \<Rightarrow> True | _ \<Rightarrow> False"
    using assms(4) by (simp add: waiting_def r1 r2 r3)
  note r = r1 r2 r3 r4
  from assms(2,1) room_for_room [OF assms(3)] r(3) have "st = w_actions w"
    by (cases rule: dispatch_claim_effect) (use r(4) in auto)
  with r(3) have "on_actions (claimDispatch (ck_uuid ck) (tn_clock tn 2) (claim_input d request ms)) w = (x, w)"
    by (simp add: on_actions_def)
  with r(1,2,4) assms(4) have "dispatchN8nAction ck d tn (oe_payload e) w = (Inr Postponed, w)"
    by (auto simp: dispatchN8nAction_def waiting_def then_do_def split: sum.splits externalActionDispatchClaim.splits)
  moreover have "persistOperationalState ck d tn e w = (Inr (), w)"
    using assms(4) by (simp add: persistOperationalState_def waiting_def)
  ultimately show ?thesis using assms(4) by (simp add: handle_event_def then_do_def waiting_def)
qed

text \<open>
  C26. Waiting dispatches block their tenant: when the oldest events of the queue, as many as a drain may list, are
  dispatch events whose actions are waiting for a retry or are leased to another worker, the drain consumes nothing,
  publishes nothing and changes nothing, whatever is queued behind them.
\<close>

theorem waiting_dispatches_block_the_queue:
  assumes "sequence_uuids (ck_uuid ck)" and "ea_inv (ck_uuid ck) (w_actions w)" and "room_for 0 w"
    and "outbox_pending t (w_outbox w) = front @ behind" and "length front = limit"
    and "\<forall>j. \<forall>e \<in> set front. waiting ck d (turns j) w e"
  shows "publishPendingForTenant ck d turns t (int limit) w = (Inr 0, w)"
proof -
  have "outbox_listUnconsumed t (int limit) (w_outbox w) = front"
    using mem_outbox.listing_prefix [OF ea_invD(2) [OF assms(2)], of "int limit" t] assms(4,5) by simp
  moreover have "drain_events ck d turns front i n w = (Inr n, w)" for i n
    using assms(6)
  proof (induction front arbitrary: i)
    case (Cons e es)
    then show ?case using handle_waiting [OF assms(1-3)] by (simp add: then_do_def)
  qed simp
  ultimately show ?thesis by (simp add: publishPendingForTenant_def)
qed

text \<open>An action that another worker has leased, its dispatch event at the head of the queue.\<close>

definition sample_digest :: "string \<Rightarrow> string" where
  "sample_digest s = replicate 64 CHR ''0''"

definition leased_request :: externalActionRequest where
  "leased_request =
     \<lparr>rq_tenantId = ''aa'', rq_actionId = ''x'', rq_actionType = ''custom.execute'', rq_approvedBy = ''f'',
      rq_idempotencyKey = ''k'',
      rq_requestPayload = [(''channel'', JStr ''custom''), (''operation'', JStr ''op''), (''extra'', JNull)]\<rparr>"

definition leased_claim :: claimExternalActionDispatch where
  "leased_claim =
     \<lparr>di_tenantId = ''aa'', di_actionId = ''x'', di_idempotencyKey = ''k'', di_leaseOwner = ''v'', di_now = None,
      cd_leaseDurationMs = 1000\<rparr>"

definition requested_actions :: external_actions where
  "requested_actions = snd (enqueueRequested hex_id sample_digest show_integer (\<lambda>_. 5) leased_request empty_external_actions)"

definition leased_actions :: external_actions where
  "leased_actions = snd (claimDispatch hex_id (\<lambda>_. 6) leased_claim requested_actions)"

definition leased_world :: world where
  "leased_world =
     \<lparr>w_actions = leased_actions, w_incidents = empty_store, w_health = empty_store, w_published = [], w_dispatched = []\<rparr>"

lemma leased_world_facts:
  "ea_sequence requested_actions < 9" "ea_sequence leased_actions < 9"
  "case outbox_pending ''aa'' (w_outbox leased_world) of [e] \<Rightarrow>
     oe_eventType e = N8N_DISPATCH_EVENT_TYPE \<and> oe_payload e = example_dispatch | _ \<Rightarrow> False"
  "case fst (claimDispatch hex_id (\<lambda>_. 7) (claim_input example_config example_typed 1000) leased_actions) of
     Inr (InFlight _) \<Rightarrow> True | _ \<Rightarrow> False"
  by code_simp+

lemma leased_world_waits:
  "\<exists>e. outbox_pending ''aa'' (w_outbox leased_world) = [e] \<and> waiting example_checks example_config example_turn leased_world e"
proof -
  from leased_world_facts(3) obtain e where e: "outbox_pending ''aa'' (w_outbox leased_world) = [e]"
      "oe_eventType e = N8N_DISPATCH_EVENT_TYPE" "oe_payload e = example_dispatch"
    by (auto split: list.splits)
  have "dispatchLeaseMs example_config = Inr 1000" by (simp add: dispatchLeaseMs_def example_config_def)
  with e leased_world_facts(4) example_dispatch_parse have "waiting example_checks example_config example_turn leased_world e"
    by (auto simp: waiting_def example_checks_def example_turn_def leased_world_def example_config_def
        split: sum.splits externalActionDispatchClaim.splits)
  with e(1) show ?thesis by blast
qed

lemma digest_format_sample: "digest_format sample_digest"
  by (simp add: digest_format_def sample_digest_def)

lemma leased_actions_inv: "ea_inv hex_id leased_actions"
proof -
  have "ea_step hex_id sample_digest show_integer 5 None empty_external_actions requested_actions"
    using by_request [of hex_id sample_digest show_integer "\<lambda>_. 5" leased_request empty_external_actions, OF surjective_pairing]
    by (simp add: requested_actions_def room_def empty_external_actions_def)
  then have good: "ea_good hex_id sample_digest requested_actions"
    using ea_step_effect ea_good_empty [OF uuid_format_hex_id sequence_uuids_hex_id digest_format_sample] by blast
  have "room requested_actions" using leased_world_facts(1) by (simp add: room_def)
  from by_claim [of hex_id "\<lambda>_. 6" leased_claim requested_actions, OF surjective_pairing this]
  have "ea_step hex_id sample_digest show_integer (nullish_or (di_now leased_claim) 6) (Some (di_leaseOwner leased_claim))
      requested_actions leased_actions"
    by (simp add: leased_actions_def)
  from ea_step_effect [OF this good] show ?thesis by (simp add: ea_good_def)
qed

theorem waiting_dispatches_block_the_queue_witness:
  "publishPendingForTenant example_checks example_config (\<lambda>_. example_turn) ''aa'' 1 leased_world = (Inr 0, leased_world)"
proof -
  have ck: "ck_uuid example_checks = hex_id" "w_actions leased_world = leased_actions"
    by (simp_all add: example_checks_def leased_world_def)
  obtain e where e: "outbox_pending ''aa'' (w_outbox leased_world) = [e] @ []"
      "\<forall>j. \<forall>x \<in> set [e]. waiting example_checks example_config ((\<lambda>_. example_turn) j) leased_world x"
    using leased_world_waits by auto
  have "room_for 0 leased_world" using leased_world_facts(2) by (simp add: room_for_def ck)
  with waiting_dispatches_block_the_queue [where ck = example_checks and w = leased_world and turns = "\<lambda>_. example_turn"
      and d = example_config and t = "''aa''" and front = "[e]" and behind = "[]" and limit = 1]
  show ?thesis using sequence_uuids_hex_id leased_actions_inv e by (simp add: ck)
qed

lemma blank_error_refused:
  assumes "map_of payload ''error'' = Some (JStr s)" and "trim s = []"
  shows "zparse workerDeadLetterPayloadSchema (JObj payload) = None"
proof -
  have "zmember ''error'' Required (zparse (ztrimmed 1 10000)) (Some (JStr s)) = None"
    by (simp add: zmember_def ztrimmed_def assms(2))
  then show ?thesis
    by (simp add: workerDeadLetterPayloadSchema_def zmembers.simps(2) assms(1) split: option.splits)
qed

lemma unreadable_dead_letter_throws:
  assumes "ea_inv (ck_uuid ck) (w_actions w)" and "outbox_pending t (w_outbox w) = e # behind" and "0 < limit"
    and "oe_eventType e = WORKER_DEAD_LETTER_EVENT_TYPE" and "zparse workerDeadLetterPayloadSchema (JObj (oe_payload e)) = None"
  shows "publishCycle ck d turns (t # tenants) limit w = (Inl ZodError, w)"
proof -
  from mem_outbox.fifo [OF ea_invD(2) [OF assms(1)] assms(2,3)] obtain rest where
    "outbox_listUnconsumed t limit (w_outbox w) = e # rest" by blast
  moreover have "persistOperationalState ck d (turns 0 0) e w = (Inl ZodError, w)"
    using assms(4,5) by (simp add: persistOperationalState_def object_of_def)
  ultimately show ?thesis
    by (simp add: publishCycle_def publishPendingForTenant_def handle_event_def then_do_def)
qed

text \<open>
  One dead letter without an error text stops the publisher: the workers file a dead letter with the message of
  the error they caught, which may be empty, and the publisher refuses to parse it. With such an event at the head of
  a tenant's queue the whole cycle throws, nothing of that tenant or of the tenants after it is published,
  and since nothing has changed the next cycle does the same.
\<close>

theorem blank_dead_letter_stops_the_cycle:
  assumes "ea_inv (ck_uuid ck) (w_actions w)" and "outbox_pending t (w_outbox w) = e # behind" and "0 < limit"
    and "oe_eventType e = WORKER_DEAD_LETTER_EVENT_TYPE"
    and "map_of (oe_payload e) ''error'' = Some (JStr s)" and "trim s = []"
  shows "publishCycle ck d turns (t # tenants) limit w = (Inl ZodError, w)"
  using unreadable_dead_letter_throws [OF assms(1-4) blank_error_refused [OF assms(5,6)]] .

definition blank_command :: enqueueOutboxEvent where
  "blank_command =
     \<lparr>oc_tenantId = ''aa'', oc_eventType = WORKER_DEAD_LETTER_EVENT_TYPE, oc_idempotencyKey = ''w:1'',
      oc_payload = [(''worker'', JStr ''w''), (''error'', JStr [])]\<rparr>"

theorem blank_dead_letter_stops_the_cycle_witness:
  "\<exists>ob e. outbox_enqueue hex_id blank_command 5 empty_outbox = Inr (e, ob) \<and>
     publishCycle example_checks example_config (\<lambda>_ _. example_turn) [''aa'', ''bb''] 10 (world_of ob) = (Inl ZodError, world_of ob)"
proof -
  have "case outbox_enqueue hex_id blank_command 5 empty_outbox of Inl _ \<Rightarrow> False
     | Inr (e, ob) \<Rightarrow> outbox_pending ''aa'' (w_outbox (world_of ob)) = [e] \<and>
         oe_eventType e = WORKER_DEAD_LETTER_EVENT_TYPE \<and> map_of (oe_payload e) ''error'' = Some (JStr [])"
    by code_simp
  then obtain e ob where ob: "outbox_enqueue hex_id blank_command 5 empty_outbox = Inr (e, ob)"
      "outbox_pending ''aa'' (w_outbox (world_of ob)) = [e]" "oe_eventType e = WORKER_DEAD_LETTER_EVENT_TYPE"
      "map_of (oe_payload e) ''error'' = Some (JStr [])"
    by (auto split: sum.splits prod.splits)
  have ck: "ck_uuid example_checks = hex_id" by (simp add: example_checks_def)
  have "ea_inv hex_id (w_actions (world_of ob))" using outbox_enqueue_inv [OF outbox_inv_empty ob(1)] world_of_inv by blast
  from blank_dead_letter_stops_the_cycle [of example_checks, unfolded ck, OF this ob(2) _ ob(3,4)]
  have "publishCycle example_checks example_config (\<lambda>_ _. example_turn) [''aa'', ''bb''] 10 (world_of ob) = (Inl ZodError, world_of ob)"
    by (simp add: trim_def)
  with ob(1) show ?thesis by blast
qed

end
