(* ===== verification/DurableConsumer.thy ===== *)
theory DurableConsumer
  imports Zod
begin

text \<open>
  The durable consumer that all workers share: packages/core/src/durable-jetstream-consumer.ts. A message of the
  stream is decoded and handed to the worker's handler; it is acknowledged when the handler returns, refused
  for a later delivery when it throws, and terminated after the last delivery once the failure has been filed. A handler
  may also hang, its process may crash, and it may answer only after the server's AckWait. The
  NATS server is not part of the repository: which deliveries it makes is a parameter, and the contract
  of its durable consumers (a message that was refused or not answered within AckWait comes again until the delivery limit, a settled
  one does not) a named hypothesis.
\<close>

section \<open>Configuration\<close>

definition is_name_char :: "char \<Rightarrow> bool" where
  "is_name_char c \<longleftrightarrow>
     c \<in> set ''ABCDEFGHIJKLMNOPQRSTUVWXYZabcdefghijklmnopqrstuvwxyz0123456789_-''"

text \<open>The two regular expressions, and that of subjects, whose class holds the dot its repetition adds.\<close>

definition durableName_ok :: "string \<Rightarrow> bool" where
  "durableName_ok s \<longleftrightarrow> s \<noteq> [] \<and> length s \<le> 128 \<and> list_all is_name_char s"

definition queueGroup_ok :: "string \<Rightarrow> bool" where
  "queueGroup_ok s \<longleftrightarrow> s \<noteq> [] \<and> length s \<le> 128 \<and> list_all (\<lambda>c. is_name_char c \<or> c = CHR ''.'') s"

definition deliverySubject_ok :: "string \<Rightarrow> bool" where
  "deliverySubject_ok s \<longleftrightarrow> s \<noteq> [] \<and> length s \<le> 255 \<and> list_all (\<lambda>c. is_name_char c \<or> c \<in> set ''.*>'') s"

definition int_within :: "number \<Rightarrow> number \<Rightarrow> number \<Rightarrow> bool" where
  "int_within least most x \<longleftrightarrow> is_integer x \<and> least \<le> x \<and> x \<le> most"

definition durableJetStreamConsumerConfigSchema :: zod where
  "durableJetStreamConsumerConfigSchema =
     ZObject
       [(''servers'', Default (JStr ''nats://localhost:4222''), ZString id (\<lambda>s. s \<noteq> [])),
        (''streamName'', Default (JStr ''GROWTHOS''), ZString id (\<lambda>s. s \<noteq> [])),
        (''subject'', Required, ZString id (\<lambda>s. s \<noteq> [])),
        (''durableName'', Required, ZString id durableName_ok), (''queueGroup'', Required, ZString id queueGroup_ok),
        (''ackWaitMs'', Default (JNum 60000), ZNumber (int_within 1 900000)),
        (''maxDeliver'', Default (JNum 5), ZNumber (int_within 1 100)),
        (''retryDelayMs'', Default (JNum 5000), ZNumber (int_within 1 900000)),
        (''maxAckPending'', Default (JNum 25), ZNumber (int_within 1 10000)),
        (''deliverySubject'', Optional, ZString id deliverySubject_ok),
        (''clientName'', Optional, ZString id (\<lambda>s. s \<noteq> [] \<and> length s \<le> 255))]"

record durableJetStreamConsumerConfig =
  dj_servers :: string
  dj_streamName :: string
  dj_subject :: string
  dj_durableName :: string
  dj_queueGroup :: string
  dj_ackWaitMs :: number
  dj_maxDeliver :: number
  dj_retryDelayMs :: number
  dj_maxAckPending :: number
  dj_deliverySubject :: "string option"
  dj_clientName :: "string option"

definition config_number :: "string \<Rightarrow> json_record \<Rightarrow> number" where
  "config_number k fs = (case map_of fs k of Some (JNum n) \<Rightarrow> n | _ \<Rightarrow> 0)"

definition consumer_config_of :: "json_record \<Rightarrow> durableJetStreamConsumerConfig" where
  "consumer_config_of fs =
     \<lparr>dj_servers = string_at ''servers'' fs, dj_streamName = string_at ''streamName'' fs, dj_subject = string_at ''subject'' fs,
      dj_durableName = string_at ''durableName'' fs, dj_queueGroup = string_at ''queueGroup'' fs,
      dj_ackWaitMs = config_number ''ackWaitMs'' fs, dj_maxDeliver = config_number ''maxDeliver'' fs,
      dj_retryDelayMs = config_number ''retryDelayMs'' fs, dj_maxAckPending = config_number ''maxAckPending'' fs,
      dj_deliverySubject = string_opt_at ''deliverySubject'' fs, dj_clientName = string_opt_at ''clientName'' fs\<rparr>"

definition durableJetStreamConsumerConfigSchema_parse :: "json \<Rightarrow> durableJetStreamConsumerConfig result" where
  "durableJetStreamConsumerConfigSchema_parse raw =
     and_then (object_of (zparse durableJetStreamConsumerConfigSchema raw)) (\<lambda>fs. Inr (consumer_config_of fs))"

text \<open>What the consumer asks the server for.\<close>

record consumerOptions =
  op_durable :: string
  op_deliverTo :: string
  op_deliverAll :: bool
  op_manualAck :: bool
  op_ackExplicit :: bool
  op_ackWait :: number
  op_maxDeliver :: number
  op_maxAckPending :: number
  op_filterSubject :: string
  op_queue :: string
  op_bindStream :: string

definition consumer_options :: "durableJetStreamConsumerConfig \<Rightarrow> consumerOptions" where
  "consumer_options config =
     \<lparr>op_durable = dj_durableName config,
      op_deliverTo = nullish_or (dj_deliverySubject config) (''_INBOX.growthos.'' @ dj_durableName config),
      op_deliverAll = True, op_manualAck = True, op_ackExplicit = True, op_ackWait = dj_ackWaitMs config,
      op_maxDeliver = dj_maxDeliver config, op_maxAckPending = dj_maxAckPending config,
      op_filterSubject = dj_subject config, op_queue = dj_queueGroup config, op_bindStream = dj_streamName config\<rparr>"

section \<open>One delivery\<close>

record durableMessageContext =
  mc_subject :: string
  mc_streamSequence :: nat
  mc_redeliveryCount :: nat

text \<open>The message of an error; that of a validation error is the text of its issues, a parameter.\<close>

fun error_message :: "string \<Rightarrow> js_error \<Rightarrow> string" where
  "error_message issues ZodError = issues"
| "error_message issues (JsError s) = s"
| "error_message issues (ExternalActionNotFoundError s) = s"
| "error_message issues (ExternalActionConflictError s) = s"
| "error_message issues (ExternalActionStateError s) = s"
| "error_message issues (ServiceUnavailableError s) = s"
| "error_message issues (UnauthorizedError s) = s"
| "error_message issues (ConflictError s) = s"
| "error_message issues (NotFoundError s) = s"

text \<open>The worker's part; \<open>onError\<close> only logs and is left out.\<close>

record 'w durableConsumer =
  dc_decode :: "string \<Rightarrow> json result"
  dc_handler :: "json \<Rightarrow> durableMessageContext \<Rightarrow> 'w \<Rightarrow> (js_error + unit) \<times> 'w"
  dc_onExhausted :: "(json option \<Rightarrow> durableMessageContext \<Rightarrow> js_error \<Rightarrow> 'w \<Rightarrow> (js_error + unit) \<times> 'w) option"
  dc_issues :: string

datatype disposition = Ack | Nak number | Term string

definition exhausted_reason :: "durableMessageContext \<Rightarrow> string \<Rightarrow> string" where
  "exhausted_reason context message =
     ''GrowthOS consumer exhausted after '' @ show_nat (mc_redeliveryCount context) @ '' deliveries: '' @ message"

definition file_failure ::
  "'w durableConsumer \<Rightarrow> json option \<Rightarrow> durableMessageContext \<Rightarrow> js_error \<Rightarrow> 'w \<Rightarrow> (js_error + unit) \<times> 'w" where
  "file_failure c payload context error w =
     (case dc_onExhausted c of None \<Rightarrow> (Inr (), w) | Some f \<Rightarrow> f payload context error w)"

definition delivery_failed ::
  "durableJetStreamConsumerConfig \<Rightarrow> 'w durableConsumer \<Rightarrow> json option \<Rightarrow> durableMessageContext \<Rightarrow> js_error \<Rightarrow> 'w \<Rightarrow>
   disposition \<times> 'w" where
  "delivery_failed config c payload context error w =
     (if of_nat (mc_redeliveryCount context) \<ge> dj_maxDeliver config
      then (case file_failure c payload context error w of
              (Inr _, w') \<Rightarrow> (Term (exhausted_reason context (error_message (dc_issues c) error)), w')
            | (Inl _, w') \<Rightarrow> (Nak (dj_retryDelayMs config), w'))
      else (Nak (dj_retryDelayMs config), w))"

definition handle_message ::
  "durableJetStreamConsumerConfig \<Rightarrow> 'w durableConsumer \<Rightarrow> string \<Rightarrow> durableMessageContext \<Rightarrow> 'w \<Rightarrow> disposition \<times> 'w" where
  "handle_message config c data context w =
     (case dc_decode c data of
        Inl e \<Rightarrow> delivery_failed config c None context e w
      | Inr payload \<Rightarrow>
          (case dc_handler c payload context w of
             (Inr _, w') \<Rightarrow> (Ack, w')
           | (Inl e, w') \<Rightarrow> delivery_failed config c (Some payload) context e w'))"

section \<open>The deliveries of a message\<close>

text \<open>
  What a delivery is to the server: an answer within its AckWait, one after it, or none, because the handler hangs or its process
  has crashed.
\<close>

datatype delivery_end = InTime disposition | Late disposition | Unanswered

text \<open>
  What the repository does not decide: whether the server delivers again, given how the deliveries so far
  ended; after how many milliseconds a delivery is answered, if ever; what a delivery that is never answered has done to the world before
  it hung or crashed; and what others do to the world before a delivery. A late handler is taken to end before the next delivery starts.
\<close>

record 'w network =
  nw_server :: "delivery_end list \<Rightarrow> bool"
  nw_answers :: "nat \<Rightarrow> number option"
  nw_cut :: "nat \<Rightarrow> 'w \<Rightarrow> 'w"
  nw_others :: "nat \<Rightarrow> 'w \<Rightarrow> 'w"

definition context_at :: "string \<Rightarrow> nat \<Rightarrow> nat \<Rightarrow> durableMessageContext" where
  "context_at subject sequence n = \<lparr>mc_subject = subject, mc_streamSequence = sequence, mc_redeliveryCount = n\<rparr>"

definition jetstream_delivery ::
  "'w network \<Rightarrow> durableJetStreamConsumerConfig \<Rightarrow> 'w durableConsumer \<Rightarrow> string \<Rightarrow> durableMessageContext \<Rightarrow> nat \<Rightarrow> 'w \<Rightarrow>
   delivery_end \<times> 'w" where
  "jetstream_delivery net config c data context k w =
     (case nw_answers net k of
        None \<Rightarrow> (Unanswered, nw_cut net k w)
      | Some ms \<Rightarrow>
          (case handle_message config c data context w of
             (x, w') \<Rightarrow> (if ms \<le> op_ackWait (consumer_options config) then InTime x else Late x, w')))"

text \<open>The number counts deliveries that may still come.\<close>

primrec message_life ::
  "nat \<Rightarrow> 'w network \<Rightarrow> durableJetStreamConsumerConfig \<Rightarrow> 'w durableConsumer \<Rightarrow> string \<Rightarrow> string \<Rightarrow> nat \<Rightarrow> delivery_end list \<Rightarrow>
   'w \<Rightarrow> delivery_end list \<times> 'w" where
  "message_life 0 net config c data subject sequence ds w = (ds, w)"
| "message_life (Suc n) net config c data subject sequence ds w =
     (if nw_server net ds
      then (case jetstream_delivery net config c data (context_at subject sequence (Suc (length ds))) (length ds) (nw_others net (length ds) w) of
              (x, w') \<Rightarrow> message_life n net config c data subject sequence (ds @ [x]) w')
      else (ds, w))"

fun is_nak :: "disposition \<Rightarrow> bool" where
  "is_nak (Nak _) = True"
| "is_nak _ = False"

fun settled_in_time :: "delivery_end \<Rightarrow> bool" where
  "settled_in_time (InTime x) = (\<not> is_nak x)"
| "settled_in_time _ = False"

fun settled_at_all :: "delivery_end \<Rightarrow> bool" where
  "settled_at_all (InTime x) = (\<not> is_nak x)"
| "settled_at_all (Late x) = (\<not> is_nak x)"
| "settled_at_all Unanswered = False"

text \<open>
  The documented contract of a durable consumer with explicit acknowledgement. A message is never delivered more often than
  MaxDeliver, and never again once it has been acknowledged or terminated within the AckWait. Below the limit it is delivered, first of
  all, and again as long as every delivery so far has been refused or has run out of its AckWait
  with no answer. When a delivery is acknowledged late, the server may have scheduled another one or not: either is allowed.
\<close>

definition jetstream_contract :: "consumerOptions \<Rightarrow> (delivery_end list \<Rightarrow> bool) \<Rightarrow> bool" where
  "jetstream_contract opts server \<longleftrightarrow>
     (\<forall>ds. (server ds \<longrightarrow> of_nat (length ds) < op_maxDeliver opts \<and> (\<forall>x \<in> set ds. \<not> settled_in_time x)) \<and>
        (of_nat (length ds) < op_maxDeliver opts \<longrightarrow> (\<forall>x \<in> set ds. \<not> settled_at_all x) \<longrightarrow> server ds))"

text \<open>A server that delivers again whenever it may.\<close>

definition redeliver_naks :: "nat \<Rightarrow> delivery_end list \<Rightarrow> bool" where
  "redeliver_naks most ds \<longleftrightarrow> length ds < most \<and> list_all (\<lambda>x. \<not> settled_in_time x) ds"

lemma redeliver_contract:
  assumes "op_maxDeliver opts = of_nat most"
  shows "jetstream_contract opts (redeliver_naks most)"
proof -
  have "settled_in_time x \<Longrightarrow> settled_at_all x" for x by (cases x) simp_all
  then show ?thesis
    unfolding jetstream_contract_def redeliver_naks_def assms of_nat_less_iff list_all_iff by blast
qed

section \<open>Every message settles\<close>

text \<open>A record of deliveries is one that the server, the handlers and the others produce together.\<close>

definition delivered ::
  "'w network \<Rightarrow> durableJetStreamConsumerConfig \<Rightarrow> 'w durableConsumer \<Rightarrow> string \<Rightarrow> string \<Rightarrow> nat \<Rightarrow> delivery_end list \<Rightarrow> 'w \<Rightarrow> bool" where
  "delivered net config c data subject sequence ds w \<longleftrightarrow>
     (\<forall>k < length ds. nw_server net (take k ds) \<and>
        (\<exists>w1 w2. jetstream_delivery net config c data (context_at subject sequence (Suc k)) k w1 = (ds ! k, w2) \<and>
           (Suc k = length ds \<longrightarrow> w2 = w)))"

lemma delivered_Nil: "delivered net config c data subject sequence [] w"
  by (simp add: delivered_def)

lemma delivered_snoc:
  assumes "delivered net config c data subject sequence ds w" and "nw_server net ds"
    and "jetstream_delivery net config c data (context_at subject sequence (Suc (length ds))) (length ds) w1 = (x, w2)"
  shows "delivered net config c data subject sequence (ds @ [x]) w2"
  unfolding delivered_def
proof (intro allI impI)
  fix k assume k: "k < length (ds @ [x])"
  show "nw_server net (take k (ds @ [x])) \<and>
    (\<exists>w1 w2'. jetstream_delivery net config c data (context_at subject sequence (Suc k)) k w1 = ((ds @ [x]) ! k, w2') \<and>
       (Suc k = length (ds @ [x]) \<longrightarrow> w2' = w2))"
  proof (cases "k = length ds")
    case True
    with assms(2,3) show ?thesis by auto
  next
    case False
    with k have "k < length ds" by simp
    with assms(1) have "nw_server net (take k ds)"
        "\<exists>w1 w2. jetstream_delivery net config c data (context_at subject sequence (Suc k)) k w1 = (ds ! k, w2)"
      unfolding delivered_def by blast+
    with \<open>k < length ds\<close> show ?thesis by (simp add: nth_append)
  qed
qed

lemma message_life_delivered:
  assumes max: "\<And>ds. nw_server net ds \<Longrightarrow> length ds < most" and "most - length ds \<le> n"
    and "delivered net config c data subject sequence ds w"
    and "message_life n net config c data subject sequence ds w = (ds', w')"
  shows "delivered net config c data subject sequence ds' w' \<and> \<not> nw_server net ds'"
  using assms(2-4)
proof (induction n arbitrary: ds w)
  case 0
  then show ?case using max [of ds] by auto
next
  case (Suc n)
  show ?case
  proof (cases "nw_server net ds")
    case True
    obtain x w1 where d: "jetstream_delivery net config c data (context_at subject sequence (Suc (length ds))) (length ds)
        (nw_others net (length ds) w) = (x, w1)" by (rule prod.exhaust)
    have "message_life n net config c data subject sequence (ds @ [x]) w1 = (ds', w')"
      using Suc.prems(3) True d by simp
    moreover have "most - length (ds @ [x]) \<le> n" using Suc.prems(1) by simp
    ultimately show ?thesis using Suc.IH delivered_snoc [OF Suc.prems(2) True d] by blast
  next
    case False
    with Suc.prems(2,3) show ?thesis by simp
  qed
qed

lemma message_life_more:
  assumes "message_life n net config c data subject sequence ds w = (ds', w')" and "\<not> nw_server net ds'"
  shows "message_life (n + k) net config c data subject sequence ds w = (ds', w')"
  using assms(1)
proof (induction n arbitrary: ds w)
  case 0
  with assms(2) show ?case by (cases k) simp_all
next
  case (Suc n)
  then show ?case by (cases "nw_server net ds") (auto split: prod.splits)
qed

text \<open>How one delivery ends.\<close>

definition handled ::
  "'w durableConsumer \<Rightarrow> string \<Rightarrow> durableMessageContext \<Rightarrow> 'w \<Rightarrow> bool" where
  "handled c data context w' \<longleftrightarrow>
     (\<exists>payload w. dc_decode c data = Inr payload \<and> dc_handler c payload context w = (Inr (), w'))"

definition given_up ::
  "durableJetStreamConsumerConfig \<Rightarrow> 'w durableConsumer \<Rightarrow> durableMessageContext \<Rightarrow> 'w \<Rightarrow> disposition \<Rightarrow> bool" where
  "given_up config c context w' x \<longleftrightarrow>
     (\<exists>payload e w. x = Term (exhausted_reason context (error_message (dc_issues c) e)) \<and>
        file_failure c payload context e w = (Inr (), w')) \<or>
     (\<exists>payload e w e'. x = Nak (dj_retryDelayMs config) \<and> file_failure c payload context e w = (Inl e', w'))"

lemma failed_outcome:
  assumes "delivery_failed config c payload context e w = (x, w')"
  shows "of_nat (mc_redeliveryCount context) < dj_maxDeliver config \<and> x = Nak (dj_retryDelayMs config) \<or>
    dj_maxDeliver config \<le> of_nat (mc_redeliveryCount context) \<and> given_up config c context w' x"
proof (cases "of_nat (mc_redeliveryCount context) \<ge> dj_maxDeliver config")
  case True
  obtain r w1 where f: "file_failure c payload context e w = (r, w1)" by (rule prod.exhaust)
  from assms True f have "r = Inr () \<and> x = Term (exhausted_reason context (error_message (dc_issues c) e)) \<and> w' = w1 \<or>
      (\<exists>e'. r = Inl e' \<and> x = Nak (dj_retryDelayMs config) \<and> w' = w1)"
    by (cases r) (simp_all add: delivery_failed_def)
  with True f show ?thesis unfolding given_up_def by blast
next
  case False
  with assms show ?thesis by (simp add: delivery_failed_def)
qed

lemma handle_outcome:
  assumes "handle_message config c data context w = (x, w')"
  obtains (done_with) "x = Ack" "handled c data context w'"
    | (refused) "x = Nak (dj_retryDelayMs config)" "of_nat (mc_redeliveryCount context) < dj_maxDeliver config"
    | (over) "given_up config c context w' x" "dj_maxDeliver config \<le> of_nat (mc_redeliveryCount context)"
proof (cases "dc_decode c data")
  case (Inl e)
  with assms have "delivery_failed config c None context e w = (x, w')" by (simp add: handle_message_def)
  from failed_outcome [OF this] refused over show thesis by blast
next
  case (Inr payload)
  obtain r w1 where h: "dc_handler c payload context w = (r, w1)" by (rule prod.exhaust)
  show ?thesis
  proof (cases r)
    case (Inl e)
    with assms Inr h have "delivery_failed config c (Some payload) context e w1 = (x, w')" by (simp add: handle_message_def)
    from failed_outcome [OF this] refused over show ?thesis by blast
  next
    case r: (Inr u)
    with assms Inr h have "x = Ack" "w' = w1" by (simp_all add: handle_message_def)
    with Inr h r done_with show ?thesis unfolding handled_def by auto
  qed
qed

lemma config_limits:
  assumes "durableJetStreamConsumerConfigSchema_parse raw = Inr config"
  shows "int_within 1 100 (dj_maxDeliver config)"
proof -
  from assms obtain out where out: "object_of (zparse durableJetStreamConsumerConfigSchema raw) = Inr out" "config = consumer_config_of out"
    by (auto simp: durableJetStreamConsumerConfigSchema_parse_def)
  then have p: "zparse durableJetStreamConsumerConfigSchema raw = Some (JObj out)"
    by (auto simp: object_of_def split: option.splits json.splits)
  then obtain fs where raw: "raw = JObj fs" by (cases raw) (simp_all add: durableJetStreamConsumerConfigSchema_def)
  have num: "zmember k (Default d) (zparse (ZNumber ok)) v = Some part \<Longrightarrow> \<exists>n. ok n \<and> part = [(k, JNum n)]" for k d ok v part
    unfolding zmember_Some by (auto elim!: zparse.elims split: if_splits)
  have str: "zmember k pr (zparse (ZString id ok)) v = Some part \<Longrightarrow> map_of part j = None" if "k \<noteq> j" for k pr ok v part j
    unfolding zmember_Some using that by auto
  from p raw obtain a b c' d e f g rest where parts: "out = a @ b @ c' @ d @ e @ f @ g @ rest"
    "zmember ''servers'' (Default (JStr ''nats://localhost:4222'')) (zparse (ZString id (\<lambda>s. s \<noteq> []))) (map_of fs ''servers'') = Some a"
    "zmember ''streamName'' (Default (JStr ''GROWTHOS'')) (zparse (ZString id (\<lambda>s. s \<noteq> []))) (map_of fs ''streamName'') = Some b"
    "zmember ''subject'' Required (zparse (ZString id (\<lambda>s. s \<noteq> []))) (map_of fs ''subject'') = Some c'"
    "zmember ''durableName'' Required (zparse (ZString id durableName_ok)) (map_of fs ''durableName'') = Some d"
    "zmember ''queueGroup'' Required (zparse (ZString id queueGroup_ok)) (map_of fs ''queueGroup'') = Some e"
    "zmember ''ackWaitMs'' (Default (JNum 60000)) (zparse (ZNumber (int_within 1 900000))) (map_of fs ''ackWaitMs'') = Some f"
    "zmember ''maxDeliver'' (Default (JNum 5)) (zparse (ZNumber (int_within 1 100))) (map_of fs ''maxDeliver'') = Some g"
    unfolding durableJetStreamConsumerConfigSchema_def by (auto simp: zmembers_Cons)
  from num [OF parts(7)] num [OF parts(8)] obtain n m where fg: "f = [(''ackWaitMs'', JNum n)]" "int_within 1 100 m" "g = [(''maxDeliver'', JNum m)]"
    by blast
  have "map_of out ''maxDeliver'' = Some (JNum m)"
    using str [OF _ parts(2), of "''maxDeliver''"] str [OF _ parts(3), of "''maxDeliver''"] str [OF _ parts(4), of "''maxDeliver''"]
      str [OF _ parts(5), of "''maxDeliver''"] str [OF _ parts(6), of "''maxDeliver''"]
    by (simp add: parts(1) fg map_add_def)
  with fg(2) show ?thesis by (simp add: out(2) consumer_config_of_def config_number_def)
qed

text \<open>
  How the deliveries of a message ended when the server makes no more: the handler returned on one of them, or the limit was reached
  and the last delivery filed the failure and terminated the message, or could not file it, or was never answered.
\<close>

definition message_closed ::
  "'w network \<Rightarrow> durableJetStreamConsumerConfig \<Rightarrow> 'w durableConsumer \<Rightarrow> string \<Rightarrow> string \<Rightarrow> nat \<Rightarrow> delivery_end list \<Rightarrow> 'w \<Rightarrow> bool" where
  "message_closed net config c data subject sequence ds w \<longleftrightarrow>
     (\<exists>k w2. k < length ds \<and> ds ! k \<in> {InTime Ack, Late Ack} \<and> handled c data (context_at subject sequence (Suc k)) w2 \<and>
        (Suc k = length ds \<longrightarrow> w2 = w)) \<or>
     of_nat (length ds) = dj_maxDeliver config \<and>
       (last ds = Unanswered \<or>
        (\<exists>x. last ds \<in> {InTime x, Late x} \<and> given_up config c (context_at subject sequence (length ds)) w x))"

text \<open>The ends of the deliveries follow the times of their answers.\<close>

definition ends_follow_answers :: "'w network \<Rightarrow> durableJetStreamConsumerConfig \<Rightarrow> delivery_end list \<Rightarrow> bool" where
  "ends_follow_answers net config ds \<longleftrightarrow>
     (\<forall>k < length ds.
        (case nw_answers net k of
           None \<Rightarrow> ds ! k = Unanswered
         | Some ms \<Rightarrow> \<exists>x. ds ! k = (if ms \<le> dj_ackWaitMs config then InTime x else Late x)))"

lemma delivered_ends: "delivered net config c data subject sequence ds w \<Longrightarrow> ends_follow_answers net config ds"
  unfolding ends_follow_answers_def
proof (intro allI impI)
  fix k assume "delivered net config c data subject sequence ds w" "k < length ds"
  then obtain w1 w2 where "jetstream_delivery net config c data (context_at subject sequence (Suc k)) k w1 = (ds ! k, w2)"
    unfolding delivered_def by blast
  moreover obtain x w3 where "handle_message config c data (context_at subject sequence (Suc k)) w1 = (x, w3)" by (rule prod.exhaust)
  ultimately show "case nw_answers net k of None \<Rightarrow> ds ! k = Unanswered
      | Some ms \<Rightarrow> \<exists>x. ds ! k = (if ms \<le> dj_ackWaitMs config then InTime x else Late x)"
    by (auto simp: jetstream_delivery_def consumer_options_def intro!: exI [of _ x] split: option.splits if_splits)
qed

lemma delivered_limits:
  assumes "jetstream_contract (consumer_options config) (nw_server net)" and "dj_maxDeliver config = of_nat most" and "0 < most"
    and "delivered net config c data subject sequence ds w" and "\<not> nw_server net ds"
  shows "ds \<noteq> [] \<and> length ds \<le> most \<and> (\<forall>x \<in> set (butlast ds). \<not> settled_in_time x)"
proof -
  have opts: "op_maxDeliver (consumer_options config) = of_nat most" by (simp add: consumer_options_def assms(2))
  note contract = assms(1) [unfolded jetstream_contract_def opts of_nat_less_iff]
  have "nw_server net []" using contract assms(3) by simp
  with assms(5) have ne: "ds \<noteq> []" by auto
  then have "length ds - 1 < length ds" by simp
  with assms(4) have "nw_server net (take (length ds - 1) ds)" unfolding delivered_def by blast
  then have server: "nw_server net (butlast ds)" by (simp add: butlast_conv_take)
  with contract have "length (butlast ds) < most" "\<forall>x \<in> set (butlast ds). \<not> settled_in_time x" by blast+
  with ne show ?thesis by simp
qed

lemma delivered_closed:
  assumes contract: "jetstream_contract (consumer_options config) (nw_server net)" and max: "dj_maxDeliver config = of_nat most" "0 < most"
    and d: "delivered net config c data subject sequence ds w" and stop: "\<not> nw_server net ds"
  shows "message_closed net config c data subject sequence ds w"
proof -
  have opts: "op_maxDeliver (consumer_options config) = of_nat most" by (simp add: consumer_options_def max)
  have limits: "ds \<noteq> []" "length ds \<le> most" using delivered_limits [OF contract max d stop] by blast+
  have one: "ds ! k = InTime Ack \<or> ds ! k = Late Ack \<or> ds ! k = Unanswered \<or>
      (\<exists>x w2. ds ! k \<in> {InTime x, Late x} \<and> (is_nak x \<and> Suc k < most \<or>
        most \<le> Suc k \<and> given_up config c (context_at subject sequence (Suc k)) w2 x \<and> (Suc k = length ds \<longrightarrow> w2 = w)))"
    "ds ! k \<in> {InTime Ack, Late Ack} \<Longrightarrow>
      \<exists>w2. handled c data (context_at subject sequence (Suc k)) w2 \<and> (Suc k = length ds \<longrightarrow> w2 = w)" if k: "k < length ds" for k
  proof -
    have n: "of_nat (mc_redeliveryCount (context_at subject sequence (Suc k))) = (of_nat (Suc k) :: number)" by (simp add: context_at_def)
    from d k obtain w1 w2 where run: "jetstream_delivery net config c data (context_at subject sequence (Suc k)) k w1 = (ds ! k, w2)"
      and w2: "Suc k = length ds \<longrightarrow> w2 = w" unfolding delivered_def by blast
    show "ds ! k = InTime Ack \<or> ds ! k = Late Ack \<or> ds ! k = Unanswered \<or>
      (\<exists>x w2. ds ! k \<in> {InTime x, Late x} \<and> (is_nak x \<and> Suc k < most \<or>
        most \<le> Suc k \<and> given_up config c (context_at subject sequence (Suc k)) w2 x \<and> (Suc k = length ds \<longrightarrow> w2 = w)))"
    proof (cases "nw_answers net k")
      case None
      with run show ?thesis by (simp add: jetstream_delivery_def)
    next
      case (Some ms)
      obtain x w3 where h: "handle_message config c data (context_at subject sequence (Suc k)) w1 = (x, w3)" by (rule prod.exhaust)
      with run Some have x: "ds ! k \<in> {InTime x, Late x}" "w3 = w2" by (auto simp: jetstream_delivery_def split: if_splits)
      from h show ?thesis
      proof (cases rule: handle_outcome)
        case done_with
        with x show ?thesis by auto
      next
        case refused
        then have "is_nak x" "Suc k < most" unfolding n max(1) of_nat_less_iff by simp_all
        with x show ?thesis by blast
      next
        case over
        then have "most \<le> Suc k" unfolding n max(1) of_nat_le_iff by simp
        with over(1) x w2 show ?thesis by blast
      qed
    qed
    show "\<exists>w2. handled c data (context_at subject sequence (Suc k)) w2 \<and> (Suc k = length ds \<longrightarrow> w2 = w)"
      if ack: "ds ! k \<in> {InTime Ack, Late Ack}"
    proof -
      from run ack have "handle_message config c data (context_at subject sequence (Suc k)) w1 = (Ack, w2)"
        by (auto simp: jetstream_delivery_def split: option.splits prod.splits if_splits)
      then show ?thesis
      proof (cases rule: handle_outcome)
        case done_with
        with w2 show ?thesis by blast
      qed (simp_all add: given_up_def)
    qed
  qed
  show ?thesis
  proof (cases "\<exists>k < length ds. ds ! k \<in> {InTime Ack, Late Ack}")
    case True
    with one(2) show ?thesis unfolding message_closed_def by blast
  next
    case False
    have "length ds = most"
    proof (rule ccontr)
      assume "length ds \<noteq> most"
      with limits have less: "length ds < most" by simp
      have "\<not> settled_at_all x" if "x \<in> set ds" for x
      proof -
        from that obtain k where k: "k < length ds" "x = ds ! k" by (auto simp: in_set_conv_nth)
        from one(1) [OF k(1)] False k less show ?thesis by auto
      qed
      with contract less stop show False unfolding jetstream_contract_def opts of_nat_less_iff by blast
    qed
    moreover have "Suc (length ds - 1) = length ds" "last ds = ds ! (length ds - 1)" using limits(1) by (simp_all add: last_conv_nth)
    ultimately have "last ds = Unanswered \<or>
        (\<exists>x. last ds \<in> {InTime x, Late x} \<and> given_up config c (context_at subject sequence (length ds)) w x)"
      using one(1) [of "length ds - 1"] False limits(1) by auto
    with \<open>length ds = most\<close> show ?thesis unfolding message_closed_def max(1) by blast
  qed
qed

text \<open>
  C30. What becomes of every message: with a configuration the schema accepts and a server that keeps its contract, a message is delivered
  at least once and at most as often as the limit, itself at most a hundred, whatever the handlers do (return, throw, hang,
  crash half way or answer after the AckWait) and whatever others do in between; no delivery but the last was settled
  within its AckWait. When the server is done with it, the handler has returned on one of the deliveries,
  or the limit is reached and the last delivery has filed the failure and terminated the message, or
  could not file it and refused the message once more, in vain, or was never answered. So the one way to lose a message without a trace is
  the last delivery: it hangs or crashes, or filing fails. Only a delivery that the handler never answers counts as not answered, and only
  one answered after the AckWait as late.
\<close>

theorem messages_settle:
  assumes "durableJetStreamConsumerConfigSchema_parse raw = Inr config"
    and "jetstream_contract (consumer_options config) (nw_server net)" and "dj_maxDeliver config \<le> of_nat n"
    and "message_life n net config c data subject sequence [] w = (ds, w')"
  shows "ds \<noteq> [] \<and> of_nat (length ds) \<le> dj_maxDeliver config \<and> length ds \<le> 100 \<and> \<not> nw_server net ds \<and>
    (\<forall>x \<in> set (butlast ds). \<not> settled_in_time x) \<and> ends_follow_answers net config ds \<and>
    message_closed net config c data subject sequence ds w' \<and>
    (\<forall>m \<ge> n. message_life m net config c data subject sequence [] w = (ds, w'))"
proof -
  from config_limits [OF assms(1)] obtain k where k: "dj_maxDeliver config = of_int k" "1 \<le> k" "k \<le> 100"
    by (auto simp: int_within_def is_integer_def)
  define most where "most = nat k"
  have max: "dj_maxDeliver config = of_nat most" "0 < most" "most \<le> 100" using k by (simp_all add: most_def)
  have opts: "op_maxDeliver (consumer_options config) = of_nat most" by (simp add: consumer_options_def max(1))
  have "nw_server net ds \<Longrightarrow> length ds < most" for ds
    using assms(2) unfolding jetstream_contract_def opts of_nat_less_iff by blast
  moreover have "most - length ([] :: delivery_end list) \<le> n" using assms(3) by (simp add: max(1))
  ultimately have run: "delivered net config c data subject sequence ds w'" "\<not> nw_server net ds"
    using message_life_delivered [OF _ _ delivered_Nil assms(4)] by blast+
  have limits: "ds \<noteq> []" "length ds \<le> most" "\<forall>x \<in> set (butlast ds). \<not> settled_in_time x"
    using delivered_limits [OF assms(2) max(1,2) run] by blast+
  have "message_life m net config c data subject sequence [] w = (ds, w')" if "n \<le> m" for m
    using message_life_more [OF assms(4) run(2), of "m - n"] that by simp
  moreover have "of_nat (length ds) \<le> dj_maxDeliver config" unfolding max(1) of_nat_le_iff by (rule limits(2))
  moreover have "length ds \<le> 100" using limits(2) max(3) by simp
  ultimately show ?thesis
    using limits(1,3) run(2) delivered_ends [OF run(1)] delivered_closed [OF assms(2) max(1,2) run] by blast
qed

definition example_consumer_config :: json where
  "example_consumer_config = JObj
     [(''subject'', JStr ''s''), (''durableName'', JStr ''d''), (''queueGroup'', JStr ''q''), (''maxDeliver'', JNum 3)]"

definition failing_consumer :: "nat durableConsumer" where
  "failing_consumer =
     \<lparr>dc_decode = (\<lambda>_. Inr JNull), dc_handler = (\<lambda>_ _ n. (Inl (JsError ''x''), n)),
      dc_onExhausted = Some (\<lambda>_ _ _ n. (Inr (), n + 1)), dc_issues = []\<rparr>"

text \<open>The first delivery crashes, the second one is late, the third one in time.\<close>

definition example_network :: "'w network" where
  "example_network =
     \<lparr>nw_server = redeliver_naks 3, nw_answers = (\<lambda>k. if k = 0 then None else if k = 1 then Some 70000 else Some 20),
      nw_cut = (\<lambda>_ w. w), nw_others = (\<lambda>_ w. w)\<rparr>"

definition example_reason :: string where
  "example_reason = exhausted_reason (context_at ''t'' 7 3) ''x''"

theorem messages_settle_witness:
  "\<exists>config. durableJetStreamConsumerConfigSchema_parse example_consumer_config = Inr config \<and>
     message_life 3 example_network config failing_consumer [] ''t'' 7 [] 0 =
       ([Unanswered, Late (Nak 5000), InTime (Term example_reason)], 1) \<and>
     message_closed example_network config failing_consumer [] ''t'' 7 [Unanswered, Late (Nak 5000), InTime (Term example_reason)] 1"
proof -
  have "(case durableJetStreamConsumerConfigSchema_parse example_consumer_config of Inl e \<Rightarrow> False
    | Inr config \<Rightarrow> dj_maxDeliver config = 3 \<and>
        message_life 3 example_network config failing_consumer [] ''t'' 7 [] 0 =
          ([Unanswered, Late (Nak 5000), InTime (Term example_reason)], 1))" by code_simp
  then obtain config where c: "durableJetStreamConsumerConfigSchema_parse example_consumer_config = Inr config"
      "dj_maxDeliver config = 3" "message_life 3 example_network config failing_consumer [] ''t'' 7 [] 0 =
        ([Unanswered, Late (Nak 5000), InTime (Term example_reason)], 1)"
    by (auto split: sum.splits)
  have contract: "jetstream_contract (consumer_options config) (nw_server (example_network :: nat network))"
    unfolding example_network_def network.simps by (rule redeliver_contract) (simp add: consumer_options_def c(2))
  have "dj_maxDeliver config \<le> of_nat 3" by (simp add: c(2))
  from messages_settle [OF c(1) contract this c(3)] c(1,3) show ?thesis by blast
qed

end
