(* ===== verification/Playbooks.thy ===== *)
theory Playbooks
  imports ControlPlane
begin

text \<open>
  Versioned playbooks: the in-memory repository of src/packages/db/src/playbook-versions-repository.ts. Each
  tenant has one sequence of versions per playbook type; the active version is the highest one that is
  not retired. Version numbers are naturals, since the code only ever adds one to them.
\<close>

section \<open>Records\<close>

datatype playbookType = ContentBrief | IntelBrief | BlogDraft | CustomPlaybook

definition playbookTypeValues :: "(string \<times> playbookType) list" where
  "playbookTypeValues =
     [(''content_brief'', ContentBrief), (''intel_brief'', IntelBrief), (''blog_draft'', BlogDraft),
      (''custom'', CustomPlaybook)]"

fun playbook_name :: "playbookType \<Rightarrow> string" where
  "playbook_name ContentBrief = ''content_brief''"
| "playbook_name IntelBrief = ''intel_brief''"
| "playbook_name BlogDraft = ''blog_draft''"
| "playbook_name CustomPlaybook = ''custom''"

lemma playbook_names: "map_of playbookTypeValues s = Some p \<longleftrightarrow> s = playbook_name p"
  by (cases p) (auto simp: playbookTypeValues_def)

lemma playbook_name_inject [simp]: "playbook_name p = playbook_name q \<longleftrightarrow> p = q"
  by (cases p; cases q) simp_all

record playbookVersionRecord =
  pv_id :: string
  pv_tenantId :: string
  pv_playbookType :: playbookType
  pv_version :: nat
  pv_name :: string
  pv_description :: "string option"
  pv_content :: json_record
  pv_effectiveAt :: date
  pv_retiredAt :: "date option"
  pv_createdBy :: string
  pv_createdAt :: date

definition playbookVersionRecord_ok :: "(string \<Rightarrow> bool) \<Rightarrow> playbookVersionRecord \<Rightarrow> bool" where
  "playbookVersionRecord_ok is_uuid r \<longleftrightarrow>
     is_uuid (pv_id r) \<and> is_uuid (pv_tenantId r) \<and> 0 < pv_version r \<and> pv_name r \<noteq> [] \<and> pv_createdBy r \<noteq> []"

definition playbookVersionRecordSchema_parse ::
  "(string \<Rightarrow> bool) \<Rightarrow> playbookVersionRecord \<Rightarrow> playbookVersionRecord result" where
  "playbookVersionRecordSchema_parse is_uuid = zod_parse id (playbookVersionRecord_ok is_uuid)"

record createPlaybookVersionParams =
  cv_playbookType :: playbookType
  cv_name :: string
  cv_description :: "string option"
  cv_content :: json_record
  cv_createdBy :: string
  cv_effectiveAt :: "date option"

section \<open>The in-memory repository\<close>

record playbooks =
  pb_records :: "(string \<times> playbookVersionRecord) list"
  pb_counters :: "(string \<times> nat) list"

definition empty_playbooks :: playbooks where
  "empty_playbooks = \<lparr>pb_records = [], pb_counters = []\<rparr>"

definition playbook_typeKey :: "string \<Rightarrow> playbookType \<Rightarrow> string" where
  "playbook_typeKey tenantId ty = colon_key tenantId (playbook_name ty)"

text \<open>The versions of a tenant and type, newest first: a stable sort on falling version numbers.\<close>

definition playbook_listAll :: "string \<Rightarrow> playbookType \<Rightarrow> playbooks \<Rightarrow> playbookVersionRecord list" where
  "playbook_listAll tenantId ty st =
     sort_key (\<lambda>r. - int (pv_version r))
       (filter (\<lambda>r. pv_tenantId r = tenantId \<and> pv_playbookType r = ty) (map snd (pb_records st)))"

definition playbook_getActive :: "string \<Rightarrow> playbookType \<Rightarrow> playbooks \<Rightarrow> playbookVersionRecord option" where
  "playbook_getActive tenantId ty st =
     (case sort_key (\<lambda>r. - int (pv_version r))
             (filter (\<lambda>r. pv_tenantId r = tenantId \<and> pv_playbookType r = ty \<and> pv_retiredAt r = None)
                (map snd (pb_records st))) of
        [] \<Rightarrow> None
      | r # _ \<Rightarrow> Some r)"

text \<open>The counter moves before the record is checked, so a refused record leaves a gap in the versions.\<close>

definition playbook_create ::
  "(string \<Rightarrow> bool) \<Rightarrow> string \<Rightarrow> createPlaybookVersionParams \<Rightarrow> string \<Rightarrow> date \<Rightarrow> date \<Rightarrow> playbooks \<Rightarrow>
   (js_error + playbookVersionRecord) \<times> playbooks" where
  "playbook_create is_uuid tenantId params uuid now now' st =
     or_throw (tenantIdSchema_parse is_uuid tenantId) st (\<lambda>_.
       (let key = playbook_typeKey tenantId (cv_playbookType params);
            nextVersion = nullish_or (map_of (pb_counters st) key) 0 + 1;
            st1 = st\<lparr>pb_counters := AList.update key nextVersion (pb_counters st)\<rparr>
        in or_throw (playbookVersionRecordSchema_parse is_uuid
             \<lparr>pv_id = uuid, pv_tenantId = tenantId, pv_playbookType = cv_playbookType params,
              pv_version = nextVersion, pv_name = cv_name params, pv_description = cv_description params,
              pv_content = cv_content params, pv_effectiveAt = nullish_or (cv_effectiveAt params) now,
              pv_retiredAt = None, pv_createdBy = cv_createdBy params, pv_createdAt = now'\<rparr>) st1
             (\<lambda>record. (Inr record, st1\<lparr>pb_records := AList.update (pv_id record) record (pb_records st1)\<rparr>))))"

definition playbook_retire :: "string \<Rightarrow> string \<Rightarrow> date \<Rightarrow> playbooks \<Rightarrow> playbooks" where
  "playbook_retire tenantId i now st =
     (case map_of (pb_records st) i of
        None \<Rightarrow> st
      | Some record \<Rightarrow>
          if pv_tenantId record \<noteq> tenantId then st
          else if pv_retiredAt record \<noteq> None then st
          else st\<lparr>pb_records := AList.update i (record\<lparr>pv_retiredAt := Some now\<rparr>) (pb_records st)\<rparr>)"

section \<open>Steps and invariant\<close>

inductive playbooks_step :: "(string \<Rightarrow> bool) \<Rightarrow> playbooks \<Rightarrow> playbooks \<Rightarrow> bool" for is_uuid where
  pb_create: "playbook_create is_uuid t p uuid now now' st = (r, st') \<Longrightarrow> map_of (pb_records st) uuid = None \<Longrightarrow>
    playbooks_step is_uuid st st'"
| pb_retire: "playbooks_step is_uuid st (playbook_retire t i now st)"

text \<open>
  Ids are filed under themselves, every version lies between one and its sequence's counter, and no two
  records of a tenant and type share a version.
\<close>

abbreviation pv_key :: "playbookVersionRecord \<Rightarrow> string" where
  "pv_key r \<equiv> playbook_typeKey (pv_tenantId r) (pv_playbookType r)"

definition playbooks_inv :: "(string \<Rightarrow> bool) \<Rightarrow> playbooks \<Rightarrow> bool" where
  "playbooks_inv is_uuid st \<longleftrightarrow>
     distinct (map fst (pb_records st)) \<and>
     (\<forall>i r. map_of (pb_records st) i = Some r \<longrightarrow>
        pv_id r = i \<and> playbookVersionRecord_ok is_uuid r \<and>
        pv_version r \<le> nullish_or (map_of (pb_counters st) (pv_key r)) 0) \<and>
     (\<forall>i r j s. map_of (pb_records st) i = Some r \<and> map_of (pb_records st) j = Some s \<and> pv_key r = pv_key s \<and>
        pv_version r = pv_version s \<longrightarrow> i = j)"

lemma playbooks_inv_empty: "playbooks_inv is_uuid empty_playbooks"
  by (simp add: playbooks_inv_def empty_playbooks_def)

lemma playbook_create_cases:
  assumes "playbook_create is_uuid t p uuid now now' st = (x, st')"
  obtains (refused) e where "x = Inl e" "pb_records st' = pb_records st"
      "\<And>k. nullish_or (map_of (pb_counters st) k) 0 \<le> nullish_or (map_of (pb_counters st') k) 0"
  | (created) r where "x = Inr r" "playbookVersionRecord_ok is_uuid r" "pv_id r = uuid" "pv_tenantId r = t"
      "pv_playbookType r = cv_playbookType p" "pv_createdBy r = cv_createdBy p" "pv_content r = cv_content p"
      "pv_retiredAt r = None"
      "pv_version r = nullish_or (map_of (pb_counters st) (pv_key r)) 0 + 1"
      "pb_records st' = AList.update uuid r (pb_records st)"
      "pb_counters st' = AList.update (pv_key r) (pv_version r) (pb_counters st)"
proof (cases "is_uuid t")
  case False
  with assms refused show ?thesis
    by (auto simp: playbook_create_def tenantIdSchema_parse_def zod_parse_def)
next
  case True
  define key where "key = playbook_typeKey t (cv_playbookType p)"
  define n where "n = nullish_or (map_of (pb_counters st) key) 0 + 1"
  define r where "r = \<lparr>pv_id = uuid, pv_tenantId = t, pv_playbookType = cv_playbookType p,
              pv_version = n, pv_name = cv_name p, pv_description = cv_description p,
              pv_content = cv_content p, pv_effectiveAt = nullish_or (cv_effectiveAt p) now,
              pv_retiredAt = None, pv_createdBy = cv_createdBy p, pv_createdAt = now'\<rparr>"
  define st1 where "st1 = st\<lparr>pb_counters := AList.update key n (pb_counters st)\<rparr>"
  have run: "or_throw (playbookVersionRecordSchema_parse is_uuid r) st1
      (\<lambda>record. (Inr record, st1\<lparr>pb_records := AList.update (pv_id record) record (pb_records st1)\<rparr>)) = (x, st')"
    using assms tenantIdSchema_parse_valid [of is_uuid t, OF True] by (simp add: playbook_create_def r_def st1_def n_def key_def Let_def)
  show ?thesis
  proof (cases "playbookVersionRecord_ok is_uuid r")
    case True
    then have "x = Inr r" "st' = st1\<lparr>pb_records := AList.update uuid r (pb_records st1)\<rparr>"
      using run by (simp_all add: playbookVersionRecordSchema_parse_def zod_parse_def) (simp_all add: r_def)
    with True show ?thesis by (intro created [of r]) (simp_all add: r_def st1_def n_def key_def)
  next
    case False
    then have "x = Inl ZodError" "st' = st1"
      using run by (simp_all add: playbookVersionRecordSchema_parse_def zod_parse_def)
    then show ?thesis by (intro refused [of ZodError]) (auto simp: st1_def n_def update_conv)
  qed
qed

lemma playbooks_invD:
  assumes "playbooks_inv is_uuid st"
  shows "distinct (map fst (pb_records st))"
    "\<And>i r. map_of (pb_records st) i = Some r \<Longrightarrow> pv_id r = i \<and> playbookVersionRecord_ok is_uuid r \<and>
        pv_version r \<le> nullish_or (map_of (pb_counters st) (pv_key r)) 0"
    "\<And>i r j s. map_of (pb_records st) i = Some r \<Longrightarrow> map_of (pb_records st) j = Some s \<Longrightarrow> pv_key r = pv_key s \<Longrightarrow>
        pv_version r = pv_version s \<Longrightarrow> i = j"
  using assms unfolding playbooks_inv_def by blast+

lemma playbook_create_inv:
  assumes inv: "playbooks_inv is_uuid st" and run: "playbook_create is_uuid t p uuid now now' st = (x, st')"
    and fresh: "map_of (pb_records st) uuid = None"
  shows "playbooks_inv is_uuid st'"
  using run
proof (cases rule: playbook_create_cases)
  case (refused e)
  have "pv_version r \<le> nullish_or (map_of (pb_counters st') (pv_key r)) 0" if "map_of (pb_records st) i = Some r" for i r
    using playbooks_invD(2) [OF inv that] refused(3) [of "pv_key r"] by linarith
  with playbooks_invD [OF inv] show ?thesis unfolding playbooks_inv_def refused(2) by blast
next
  case (created r)
  have old: "pv_version s < pv_version r" if "map_of (pb_records st) i = Some s" "pv_key s = pv_key r" for i s
    using playbooks_invD(2) [OF inv that(1)] that(2) created(9) by simp
  have counter: "nullish_or (map_of (pb_counters st) k) 0 \<le> nullish_or (map_of (pb_counters st') k) 0" for k
    using created(9) by (simp add: created(11) update_conv)
  show ?thesis
    unfolding playbooks_inv_def
  proof (intro conjI allI impI; (elim conjE)?)
    show "distinct (map fst (pb_records st'))" using playbooks_invD(1) [OF inv] by (simp add: created(10) distinct_update)
    fix i s assume s: "map_of (pb_records st') i = Some s"
    then consider "i = uuid" "s = r" | "i \<noteq> uuid" "map_of (pb_records st) i = Some s"
      by (auto simp: created(10) update_conv split: if_splits)
    then have "pv_id s = i \<and> playbookVersionRecord_ok is_uuid s \<and> pv_version s \<le> nullish_or (map_of (pb_counters st') (pv_key s)) 0"
    proof cases
      case 1
      with created(2,3) show ?thesis by (simp add: created(11) update_conv)
    next
      case 2
      from playbooks_invD(2) [OF inv 2(2)] counter [of "pv_key s"] show ?thesis by linarith
    qed
    then show "pv_id s = i" "playbookVersionRecord_ok is_uuid s" "pv_version s \<le> nullish_or (map_of (pb_counters st') (pv_key s)) 0"
      by blast+
  next
    fix i s j u assume "map_of (pb_records st') i = Some s" "map_of (pb_records st') j = Some u"
      "pv_key s = pv_key u" "pv_version s = pv_version u"
    then show "i = j" using old [of i s] old [of j u] playbooks_invD(3) [OF inv, of i s j u]
      by (auto simp: created(10) update_conv split: if_splits)
  qed
qed

lemma playbook_retire_lookup:
  "map_of (pb_records (playbook_retire t i now st)) j =
     (case map_of (pb_records st) j of
        None \<Rightarrow> None
      | Some r \<Rightarrow> Some (if j = i \<and> pv_tenantId r = t \<and> pv_retiredAt r = None then r\<lparr>pv_retiredAt := Some now\<rparr> else r))"
  by (cases "map_of (pb_records st) i"; cases "map_of (pb_records st) j")
    (auto simp: playbook_retire_def update_conv)

lemma playbook_retire_frame [simp]:
  "pb_counters (playbook_retire t i now st) = pb_counters st"
  "map fst (pb_records (playbook_retire t i now st)) = map fst (pb_records st)"
  by (auto simp: playbook_retire_def update_keys dest: map_of_SomeD split: option.split)
    (metis map_of_eq_None_iff option.distinct(1))+

lemma playbook_retire_inv:
  assumes inv: "playbooks_inv is_uuid st"
  shows "playbooks_inv is_uuid (playbook_retire t i now st)"
proof -
  have old: "\<exists>r. map_of (pb_records st) j = Some r \<and> pv_id s = pv_id r \<and> pv_key s = pv_key r \<and> pv_version s = pv_version r \<and>
      (playbookVersionRecord_ok is_uuid r \<longrightarrow> playbookVersionRecord_ok is_uuid s)"
    if "map_of (pb_records (playbook_retire t i now st)) j = Some s" for j s
    using that unfolding playbook_retire_lookup
    by (auto simp: playbookVersionRecord_ok_def split: option.splits if_splits)
  show ?thesis
    unfolding playbooks_inv_def
  proof (intro conjI allI impI; (elim conjE)?)
    show "distinct (map fst (pb_records (playbook_retire t i now st)))" using playbooks_invD(1) [OF inv] by simp
    fix j s assume "map_of (pb_records (playbook_retire t i now st)) j = Some s"
    from old [OF this] playbooks_invD(2) [OF inv]
    show "pv_id s = j" "playbookVersionRecord_ok is_uuid s"
      "pv_version s \<le> nullish_or (map_of (pb_counters (playbook_retire t i now st)) (pv_key s)) 0" by fastforce+
  next
    fix j s k u assume "map_of (pb_records (playbook_retire t i now st)) j = Some s"
      "map_of (pb_records (playbook_retire t i now st)) k = Some u" "pv_key s = pv_key u" "pv_version s = pv_version u"
    with old [of j s] old [of k u] playbooks_invD(3) [OF inv] show "j = k" by metis
  qed
qed

lemma playbooks_step_inv: "playbooks_step is_uuid st st' \<Longrightarrow> playbooks_inv is_uuid st \<Longrightarrow> playbooks_inv is_uuid st'"
  by (induction rule: playbooks_step.induct) (blast intro: playbook_create_inv playbook_retire_inv)+

section \<open>The active version\<close>

lemma sort_key_Nil: "sort_key f xs = [] \<longleftrightarrow> xs = []"
  by (metis set_sort set_empty)

lemma hd_sort_key:
  assumes "xs \<noteq> []"
  shows "hd (sort_key f xs) \<in> set xs" "\<And>y. y \<in> set xs \<Longrightarrow> f (hd (sort_key f xs)) \<le> f y"
proof -
  have ne: "sort_key f xs \<noteq> []" using assms by (metis set_sort set_empty)
  then show "hd (sort_key f xs) \<in> set xs" using hd_in_set [OF ne] by simp
  then obtain z zs where z: "sort_key f xs = z # zs" by (meson ne list.exhaust)
  have "sorted (map f (z # zs))" using sorted_sort_key [of f xs] by (simp add: z)
  then show "f (hd (sort_key f xs)) \<le> f y" if "y \<in> set xs" for y
    using that unfolding set_sort [of f xs, symmetric] z by auto
qed

text \<open>The records of a tenant and type that are not retired.\<close>

definition is_active :: "string \<Rightarrow> playbookType \<Rightarrow> playbooks \<Rightarrow> playbookVersionRecord \<Rightarrow> bool" where
  "is_active t ty st r \<longleftrightarrow> map_of (pb_records st) (pv_id r) = Some r \<and> pv_tenantId r = t \<and> pv_playbookType r = ty \<and>
     pv_retiredAt r = None"

lemma records_filed:
  assumes "playbooks_inv is_uuid st"
  shows "r \<in> set (map snd (pb_records st)) \<longleftrightarrow> map_of (pb_records st) (pv_id r) = Some r"
proof -
  have *: "(i, r) \<in> set (pb_records st) \<longleftrightarrow> map_of (pb_records st) i = Some r" for i
    using map_of_eq_Some_iff [OF playbooks_invD(1) [OF assms]] by blast
  show ?thesis
  proof
    assume "r \<in> set (map snd (pb_records st))"
    then obtain i where "(i, r) \<in> set (pb_records st)" by auto
    with * playbooks_invD(2) [OF assms] show "map_of (pb_records st) (pv_id r) = Some r" by metis
  next
    assume "map_of (pb_records st) (pv_id r) = Some r"
    with * have "(pv_id r, r) \<in> set (pb_records st)" by blast
    then show "r \<in> set (map snd (pb_records st))" by (metis image_eqI image_set snd_conv)
  qed
qed

lemma getActive_Some:
  assumes inv: "playbooks_inv is_uuid st"
  shows "playbook_getActive t ty st = Some r \<longleftrightarrow>
    is_active t ty st r \<and> (\<forall>s. is_active t ty st s \<longrightarrow> pv_version s \<le> pv_version r)"
proof -
  define xs where "xs = filter (\<lambda>r. pv_tenantId r = t \<and> pv_playbookType r = ty \<and> pv_retiredAt r = None) (map snd (pb_records st))"
  have xs: "s \<in> set xs \<longleftrightarrow> is_active t ty st s" for s
    using records_filed [OF inv] by (auto simp: xs_def is_active_def)
  have act: "playbook_getActive t ty st = (if xs = [] then None else Some (hd (sort_key (\<lambda>r. - int (pv_version r)) xs)))"
    unfolding playbook_getActive_def xs_def [symmetric]
    unfolding sort_key_Nil [of "\<lambda>r. - int (pv_version r)" xs, symmetric] by (simp split: list.split)
  have unique: "s = u" if "is_active t ty st s" "is_active t ty st u" "pv_version s = pv_version u" for s u
  proof -
    from that(1,2) have su: "map_of (pb_records st) (pv_id s) = Some s" "map_of (pb_records st) (pv_id u) = Some u"
      "pv_key s = pv_key u" unfolding is_active_def by auto
    from playbooks_invD(3) [OF inv su that(3)] have "pv_id s = pv_id u" .
    then show ?thesis using su(1,2) by (metis option.inject)
  qed
  show ?thesis
  proof (cases "xs = []")
    case True
    with xs act show ?thesis by fastforce
  next
    case False
    define h where "h = hd (sort_key (\<lambda>r. - int (pv_version r)) xs)"
    have h: "is_active t ty st h" "\<And>s. is_active t ty st s \<Longrightarrow> pv_version s \<le> pv_version h"
      using hd_sort_key [OF False, where f = "\<lambda>r. - int (pv_version r)"] unfolding xs h_def by force+
    have "playbook_getActive t ty st = Some h" using False by (simp add: act h_def)
    with h unique show ?thesis by (metis le_antisym option.inject)
  qed
qed

text \<open>What a version was created with; only its retirement is written later.\<close>

definition version_content :: "playbooks \<Rightarrow> string \<Rightarrow> playbookVersionRecord option" where
  "version_content st i = map_option (\<lambda>r. r\<lparr>pv_retiredAt := None\<rparr>) (map_of (pb_records st) i)"

lemma create_keeps:
  assumes "playbook_create is_uuid t p uuid now now' st = (x, st')" and "map_of (pb_records st) uuid = None"
    and "map_of (pb_records st) i = Some r"
  shows "map_of (pb_records st') i = Some r"
  using assms(1)
proof (cases rule: playbook_create_cases)
  case created
  have "i \<noteq> uuid" using assms(2,3) by auto
  with created assms(3) show ?thesis by (simp add: update_conv)
qed (simp add: assms(3))

interpretation version_ledger: append_only "playbooks_step is_uuid" "playbooks_inv is_uuid" version_content for is_uuid
proof (unfold_locales, goal_cases)
  case (1 s t)
  then show ?case by (rule playbooks_step_inv)
next
  case (2 s t i a)
  from 2(3) obtain r where r: "map_of (pb_records s) i = Some r" "a = r\<lparr>pv_retiredAt := None\<rparr>"
    by (auto simp: version_content_def)
  from 2(1) show ?case
  proof cases
    case (pb_create tt p uuid now now' x)
    from create_keeps [OF pb_create r(1)] r(2) show ?thesis by (simp add: version_content_def)
  next
    case (pb_retire tt j now)
    show ?thesis unfolding pb_retire version_content_def playbook_retire_lookup r(1) by (simp add: r(2))
  qed
qed

lemma create_activates:
  assumes inv: "playbooks_inv is_uuid st" and run: "playbook_create is_uuid t p uuid now now' st = (Inr r, st')"
    and fresh: "map_of (pb_records st) uuid = None"
  shows "playbook_getActive t (cv_playbookType p) st' = Some r"
  using run
proof (cases rule: playbook_create_cases)
  case (created q)
  note inv' = playbook_create_inv [OF inv run fresh]
  have "is_active t (cv_playbookType p) st' r" using created by (simp add: is_active_def update_conv)
  moreover have "pv_version s \<le> pv_version r" if "is_active t (cv_playbookType p) st' s" for s
  proof -
    from that have s: "map_of (pb_records st') (pv_id s) = Some s" "pv_key s = pv_key r"
      using created by (simp_all add: is_active_def)
    from playbooks_invD(2) [OF inv' s(1)] s(2) created show ?thesis by (simp add: update_conv)
  qed
  ultimately show ?thesis by (simp add: getActive_Some [OF inv'])
qed auto

text \<open>
  The active playbook is the newest one in force: in every state reached by creating and retiring versions, the
  look-up returns a version of the tenant and type exactly when it is on file, not retired, and no such version has a
  higher number; a version that is created becomes the active one; and whatever happens later, its
  content, author and number stay what they were.
\<close>

theorem active_playbook_is_newest:
  assumes "(playbooks_step is_uuid)\<^sup>*\<^sup>* empty_playbooks st"
  shows "(playbook_getActive t ty st = Some r \<longleftrightarrow>
      is_active t ty st r \<and> (\<forall>s. is_active t ty st s \<longrightarrow> pv_version s \<le> pv_version r)) \<and>
    (\<forall>p uuid now now' q st' st''. map_of (pb_records st) uuid = None \<longrightarrow>
       playbook_create is_uuid t p uuid now now' st = (Inr q, st') \<longrightarrow>
       playbook_getActive t (cv_playbookType p) st' = Some q \<and>
       ((playbooks_step is_uuid)\<^sup>*\<^sup>* st' st'' \<longrightarrow> version_content st'' uuid = Some q))"
proof -
  have inv: "playbooks_inv is_uuid st" using version_ledger.ledger.steps_inv [OF assms playbooks_inv_empty] .
  have "playbook_getActive t (cv_playbookType p) st' = Some q \<and>
      ((playbooks_step is_uuid)\<^sup>*\<^sup>* st' st'' \<longrightarrow> version_content st'' uuid = Some q)"
    if c: "map_of (pb_records st) uuid = None" "playbook_create is_uuid t p uuid now now' st = (Inr q, st')"
    for p uuid now now' q st' st''
  proof -
    have "version_content st' uuid = Some q"
      using c(2) by (cases rule: playbook_create_cases) (auto simp: version_content_def update_conv)
    then show ?thesis
      using create_activates [OF inv c(2,1)] playbook_create_inv [OF inv c(2,1)]
        version_ledger.ledger.terminal_stays [of is_uuid st' st'' uuid q] by blast
  qed
  with getActive_Some [OF inv] show ?thesis by blast
qed

definition example_version_params :: createPlaybookVersionParams where
  "example_version_params =
     \<lparr>cv_playbookType = BlogDraft, cv_name = ''n'', cv_description = None, cv_content = [], cv_createdBy = ''f'',
      cv_effectiveAt = None\<rparr>"

definition example_playbooks :: playbooks where
  "example_playbooks = snd (playbook_create hex_id ''aa'' example_version_params ''b1'' 5 5 empty_playbooks)"

theorem active_playbook_is_newest_witness:
  "\<exists>q st'. playbook_create hex_id ''aa'' example_version_params ''b2'' 6 6 example_playbooks = (Inr q, st') \<and>
     playbook_getActive ''aa'' BlogDraft st' = Some q \<and> pv_version q = 2"
proof -
  have "playbooks_step hex_id empty_playbooks example_playbooks"
    unfolding example_playbooks_def
    by (rule pb_create [OF surjective_pairing]) (simp add: empty_playbooks_def)
  then have reach: "(playbooks_step hex_id)\<^sup>*\<^sup>* empty_playbooks example_playbooks" by blast
  have "map_of (pb_records example_playbooks) ''b2'' = None \<and>
    (case playbook_create hex_id ''aa'' example_version_params ''b2'' 6 6 example_playbooks of
       (Inl e, st') \<Rightarrow> False | (Inr q, st') \<Rightarrow> pv_version q = 2)" by code_simp
  then obtain q st' where q: "playbook_create hex_id ''aa'' example_version_params ''b2'' 6 6 example_playbooks = (Inr q, st')"
      "pv_version q = 2" "map_of (pb_records example_playbooks) ''b2'' = None"
    by (auto split: prod.splits sum.splits)
  moreover have "cv_playbookType example_version_params = BlogDraft" by (simp add: example_version_params_def)
  ultimately show ?thesis using active_playbook_is_newest [OF reach, of "''aa''"] by metis
qed

end
