(* ===== verification/Learning.thy ===== *)
theory Learning
  imports Zod Playbooks Proposals
begin

text \<open>
  The learning worker: apps/worker-learning/src/contracts.ts and learning-worker.ts. A founder's feedback
  becomes a learning candidate on the outbox; a critique becomes a change proposal, and only when the
  evidence for it passes the promotion gate a new playbook version, which is announced on the outbox.
  The evidence provider is a parameter; the clock, fresh identifiers and the repositories' contents are those
  of the record \<open>learning_world\<close> and the record \<open>learning_turn\<close>.
\<close>

section \<open>Contracts\<close>

definition znonempty :: zod where
  "znonempty = ZString id (\<lambda>s. s \<noteq> [])"

definition zunit :: zod where
  "zunit = ZNumber in_unit"

definition zchecked :: "(string \<Rightarrow> bool) \<Rightarrow> zod" where
  "zchecked ok = ZString id ok"

datatype critiqueVerdict = CritiqueApprove | CritiqueRevise | CritiqueReject

definition critiqueVerdictSchema :: zod where
  "critiqueVerdictSchema = ZEnum [''approve'', ''revise'', ''reject'']"

fun verdict_name :: "critiqueVerdict \<Rightarrow> string" where
  "verdict_name CritiqueApprove = ''approve''"
| "verdict_name CritiqueRevise = ''revise''"
| "verdict_name CritiqueReject = ''reject''"

definition verdict_values :: "(string \<times> critiqueVerdict) list" where
  "verdict_values = map (\<lambda>v. (verdict_name v, v)) [CritiqueApprove, CritiqueRevise, CritiqueReject]"

fun risk_name :: "changeRisk \<Rightarrow> string" where
  "risk_name RiskLow = ''low''"
| "risk_name RiskMedium = ''medium''"
| "risk_name RiskHigh = ''high''"
| "risk_name RiskCritical = ''critical''"

definition risk_values :: "(string \<times> changeRisk) list" where
  "risk_values = map (\<lambda>r. (risk_name r, r)) [RiskLow, RiskMedium, RiskHigh, RiskCritical]"

definition critiqueCompletedPayloadSchema :: "(string \<Rightarrow> bool) \<Rightarrow> (string \<Rightarrow> bool) \<Rightarrow> zod" where
  "critiqueCompletedPayloadSchema is_uuid is_datetime =
     ZObject
       [(''critique_id'', Required, znonempty), (''source'', Required, znonempty),
        (''artifact_kind'', Required, znonempty), (''artifact_id'', Required, znonempty),
        (''experiment_id'', Optional, zchecked is_uuid), (''change_risk'', Optional, ZEnum (map fst risk_values)),
        (''prompt_version'', Required, znonempty), (''verdict'', Required, critiqueVerdictSchema),
        (''confidence_score'', Required, zunit), (''reasons'', Required, ZArray 0 znonempty),
        (''critiqued_at'', Required, zchecked is_datetime)]"

record critiqueCompletedPayload =
  cr_critique_id :: string
  cr_source :: string
  cr_artifact_kind :: string
  cr_artifact_id :: string
  cr_experiment_id :: "string option"
  cr_change_risk :: "changeRisk option"
  cr_prompt_version :: string
  cr_verdict :: critiqueVerdict
  cr_confidence_score :: number
  cr_reasons :: "string list"
  cr_critiqued_at :: string

text \<open>Reading numbers and lists of texts of a parsed object.\<close>

definition number_at :: "string \<Rightarrow> json_record \<Rightarrow> number" where
  "number_at k fs = (case map_of fs k of Some (JNum n) \<Rightarrow> n | _ \<Rightarrow> 0)"

definition number_opt_at :: "string \<Rightarrow> json_record \<Rightarrow> number option" where
  "number_opt_at k fs = (case map_of fs k of Some (JNum n) \<Rightarrow> Some n | _ \<Rightarrow> None)"

fun text_of :: "json \<Rightarrow> string" where
  "text_of (JStr s) = s"
| "text_of _ = []"

definition texts_at :: "string \<Rightarrow> json_record \<Rightarrow> string list" where
  "texts_at k fs = (case map_of fs k of Some (JArr vs) \<Rightarrow> map text_of vs | _ \<Rightarrow> [])"

definition critique_of :: "json_record \<Rightarrow> critiqueCompletedPayload" where
  "critique_of fs =
     \<lparr>cr_critique_id = string_at ''critique_id'' fs, cr_source = string_at ''source'' fs,
      cr_artifact_kind = string_at ''artifact_kind'' fs, cr_artifact_id = string_at ''artifact_id'' fs,
      cr_experiment_id = string_opt_at ''experiment_id'' fs,
      cr_change_risk = Option.bind (string_opt_at ''change_risk'' fs) (map_of risk_values),
      cr_prompt_version = string_at ''prompt_version'' fs,
      cr_verdict = nullish_or (map_of verdict_values (string_at ''verdict'' fs)) CritiqueApprove,
      cr_confidence_score = number_at ''confidence_score'' fs, cr_reasons = texts_at ''reasons'' fs,
      cr_critiqued_at = string_at ''critiqued_at'' fs\<rparr>"

definition critiqueCompletedPayloadSchema_parse ::
  "(string \<Rightarrow> bool) \<Rightarrow> (string \<Rightarrow> bool) \<Rightarrow> json \<Rightarrow> critiqueCompletedPayload result" where
  "critiqueCompletedPayloadSchema_parse is_uuid is_datetime raw =
     and_then (object_of (zparse (critiqueCompletedPayloadSchema is_uuid is_datetime) raw)) (\<lambda>fs. Inr (critique_of fs))"

section \<open>Rubrics\<close>

definition learnerRubricCriterionSchema :: zod where
  "learnerRubricCriterionSchema =
     ZObject
       [(''id'', Required, znonempty), (''weight'', Required, zunit), (''description'', Required, znonempty),
        (''check'', Required, znonempty)]"

definition learnerRubricContentSchema :: zod where
  "learnerRubricContentSchema =
     ZObject
       [(''rubric'', Required, ZArray 1 learnerRubricCriterionSchema),
        (''min_word_count'', Optional, ZNumber is_positive_int),
        (''max_word_count'', Optional, ZNumber is_positive_int),
        (''forbidden_phrases'', Optional, ZArray 0 znonempty)]"

definition rubric_criterion :: "string \<Rightarrow> number \<Rightarrow> string \<Rightarrow> string \<Rightarrow> json" where
  "rubric_criterion i weight description check =
     JObj [(''id'', JStr i), (''weight'', JNum weight), (''description'', JStr description), (''check'', JStr check)]"

definition DEFAULT_RUBRIC_CONTENT :: json_record where
  "DEFAULT_RUBRIC_CONTENT =
     [(''rubric'', JArr
        [rubric_criterion ''default-has_cta'' (1/4) ''Content includes a clear call to action'' ''has_cta'',
         rubric_criterion ''default-has_evidence'' (1/4)
           ''Content includes quantitative evidence or statistics'' ''has_evidence'',
         rubric_criterion ''default-length_ok'' (1/4) ''Content meets expected word count range'' ''length_ok'',
         rubric_criterion ''default-has_headings'' (1/4)
           ''Content uses markdown headings for structure'' ''has_headings''])]"

text \<open>The criteria of a rubric, and the id of one.\<close>

definition rubric_of :: "json_record \<Rightarrow> json list" where
  "rubric_of fs = (case map_of fs ''rubric'' of Some (JArr vs) \<Rightarrow> vs | _ \<Rightarrow> [])"

definition criterion_id :: "json \<Rightarrow> string" where
  "criterion_id c = (case json_field ''id'' c of Some (JStr s) \<Rightarrow> s | _ \<Rightarrow> [])"

definition short_reason :: "string \<Rightarrow> string" where
  "short_reason reason = (if length reason > 120 then take 117 reason @ ''...'' else reason)"

definition corrective_criterion :: "date \<Rightarrow> nat \<Rightarrow> string \<Rightarrow> json" where
  "corrective_criterion timestamp i reason =
     rubric_criterion (''auto-'' @ show_int timestamp @ ''-'' @ show_nat i) (1/10) (short_reason reason) ''custom''"

text \<open>The members of \<open>content\<close> that are copied when they are there.\<close>

definition copied_member :: "string \<Rightarrow> json_record \<Rightarrow> json_record" where
  "copied_member k fs = (case map_of fs k of None \<Rightarrow> [] | Some v \<Rightarrow> [(k, v)])"

definition rubric_baseline :: "json_record option \<Rightarrow> json_record" where
  "rubric_baseline existingContent =
     (case existingContent of
        None \<Rightarrow> DEFAULT_RUBRIC_CONTENT
      | Some content \<Rightarrow>
          (case zparse learnerRubricContentSchema (JObj content) of
             Some (JObj fs) \<Rightarrow> fs | _ \<Rightarrow> DEFAULT_RUBRIC_CONTENT))"

definition buildUpdatedRubricContent :: "json_record option \<Rightarrow> string list \<Rightarrow> date \<Rightarrow> json_record \<times> json list" where
  "buildUpdatedRubricContent existingContent failureReasons timestamp =
     (let baseline = rubric_baseline existingContent;
          existingIds = map criterion_id (rubric_of baseline);
          newCriteria = filter (\<lambda>c. criterion_id c \<notin> set existingIds)
            (map (\<lambda>(i, reason). corrective_criterion timestamp i reason) (enumerate 0 failureReasons))
      in ([(''rubric'', JArr (rubric_of baseline @ newCriteria))] @ copied_member ''min_word_count'' baseline @
            copied_member ''max_word_count'' baseline @ copied_member ''forbidden_phrases'' baseline,
          newCriteria))"

section \<open>Feedback signals\<close>

datatype approvalFeedbackAction = FeedbackApproved | EditedThenApproved | FeedbackRejected | AutoApproved

fun feedback_name :: "approvalFeedbackAction \<Rightarrow> string" where
  "feedback_name FeedbackApproved = ''approved''"
| "feedback_name EditedThenApproved = ''edited_then_approved''"
| "feedback_name FeedbackRejected = ''rejected''"
| "feedback_name AutoApproved = ''auto_approved''"

definition feedback_values :: "(string \<times> approvalFeedbackAction) list" where
  "feedback_values =
     map (\<lambda>a. (feedback_name a, a)) [FeedbackApproved, EditedThenApproved, FeedbackRejected, AutoApproved]"

definition learningSignalSchema :: "(string \<Rightarrow> bool) \<Rightarrow> zod" where
  "learningSignalSchema is_uuid =
     ZObject
       [(''tenantId'', Required, zchecked is_uuid), (''learningId'', Required, znonempty),
        (''dedupeKey'', Required, znonempty), (''source'', Required, znonempty),
        (''issueId'', Required, zchecked is_uuid), (''outputType'', Required, znonempty),
        (''action'', Required, ZEnum (map fst feedback_values)), (''editDistance'', Optional, ZNullable zunit),
        (''rubricFailures'', Default (JArr []), ZArray 0 znonempty),
        (''reviewerNote'', Optional, ZString id (\<lambda>_. True)), (''learnOptIn'', Default (JBool True), ZBoolean)]"

record learningSignal =
  sg_tenantId :: string
  sg_learningId :: string
  sg_dedupeKey :: string
  sg_source :: string
  sg_issueId :: string
  sg_outputType :: string
  sg_action :: approvalFeedbackAction
  sg_editDistance :: "number option"
  sg_rubricFailures :: "string list"
  sg_reviewerNote :: "string option"
  sg_learnOptIn :: bool

definition signal_of :: "json_record \<Rightarrow> learningSignal" where
  "signal_of fs =
     \<lparr>sg_tenantId = string_at ''tenantId'' fs, sg_learningId = string_at ''learningId'' fs,
      sg_dedupeKey = string_at ''dedupeKey'' fs, sg_source = string_at ''source'' fs,
      sg_issueId = string_at ''issueId'' fs, sg_outputType = string_at ''outputType'' fs,
      sg_action = nullish_or (map_of feedback_values (string_at ''action'' fs)) FeedbackApproved,
      sg_editDistance = number_opt_at ''editDistance'' fs, sg_rubricFailures = texts_at ''rubricFailures'' fs,
      sg_reviewerNote = string_opt_at ''reviewerNote'' fs,
      sg_learnOptIn = (map_of fs ''learnOptIn'' = Some (JBool True))\<rparr>"

definition learningSignalSchema_parse :: "(string \<Rightarrow> bool) \<Rightarrow> json \<Rightarrow> learningSignal result" where
  "learningSignalSchema_parse is_uuid raw =
     and_then (object_of (zparse (learningSignalSchema is_uuid) raw)) (\<lambda>fs. Inr (signal_of fs))"

datatype learningDisposition = Candidate | Discarded

datatype learningPriority = PriorityHigh | PriorityMedium | PriorityLow

fun disposition_name :: "learningDisposition \<Rightarrow> string" where
  "disposition_name Candidate = ''candidate''"
| "disposition_name Discarded = ''discarded''"

fun priority_name :: "learningPriority \<Rightarrow> string" where
  "priority_name PriorityHigh = ''high''"
| "priority_name PriorityMedium = ''medium''"
| "priority_name PriorityLow = ''low''"

record synthesis =
  sy_disposition :: learningDisposition
  sy_priority :: learningPriority
  sy_confidenceScore :: number
  sy_reasons :: "string list"

definition synthesizeLearningCandidate :: "learningSignal \<Rightarrow> synthesis" where
  "synthesizeLearningCandidate input =
     (if \<not> sg_learnOptIn input then
        \<lparr>sy_disposition = Discarded, sy_priority = PriorityLow, sy_confidenceScore = 15/100,
         sy_reasons = [''Founder disabled learning capture for this approval decision.'']\<rparr>
      else if sg_action input = FeedbackRejected \<or> sg_rubricFailures input \<noteq> [] then
        \<lparr>sy_disposition = Candidate, sy_priority = PriorityHigh, sy_confidenceScore = 82/100,
         sy_reasons = [''Rejection/rubric failures provide direct corrective signal for playbook updates.'']\<rparr>
      else if sg_action input = EditedThenApproved \<and> nullish_or (sg_editDistance input) 0 \<ge> 15/100 then
        \<lparr>sy_disposition = Candidate, sy_priority = PriorityMedium, sy_confidenceScore = 69/100,
         sy_reasons = [''Significant founder edits indicate an improvable generation pattern.'']\<rparr>
      else if sg_action input = FeedbackApproved \<and> nullish_or (sg_editDistance input) 0 < 1/10 then
        \<lparr>sy_disposition = Candidate, sy_priority = PriorityLow, sy_confidenceScore = 56/100,
         sy_reasons = [''Low-edit approval confirms existing playbook behavior for this output type.'']\<rparr>
      else
        \<lparr>sy_disposition = Discarded, sy_priority = PriorityLow, sy_confidenceScore = 24/100,
         sy_reasons = [''Signal quality is below learning candidate thresholds.'']\<rparr>)"

text \<open>
  \<open>process\<close>: the candidate is parsed once more, which its parts always pass, and put on the outbox under the
  signal's deduplication key.
\<close>

definition candidate_ok :: "synthesis \<Rightarrow> bool" where
  "candidate_ok c \<longleftrightarrow> in_unit (sy_confidenceScore c) \<and> list_all (\<lambda>r. r \<noteq> []) (sy_reasons c)"

definition candidate_command :: "learningSignal \<Rightarrow> synthesis \<Rightarrow> date \<Rightarrow> enqueueOutboxEvent" where
  "candidate_command s c synthesizedAt =
     \<lparr>oc_tenantId = sg_tenantId s, oc_eventType = ''learning.candidate.synthesized.v1'',
      oc_idempotencyKey = sg_dedupeKey s,
      oc_payload =
        [(''learning_id'', JStr (sg_learningId s)), (''source'', JStr (sg_source s)),
         (''issue_id'', JStr (sg_issueId s)), (''output_type'', JStr (sg_outputType s)),
         (''action'', JStr (feedback_name (sg_action s))),
         (''disposition'', JStr (disposition_name (sy_disposition c))),
         (''priority'', JStr (priority_name (sy_priority c))),
         (''confidence_score'', JNum (sy_confidenceScore c)), (''reasons'', JArr (map JStr (sy_reasons c))),
         (''rubric_failures'', JArr (map JStr (sg_rubricFailures s))),
         (''edit_distance'', (case sg_editDistance s of None \<Rightarrow> JNull | Some n \<Rightarrow> JNum n)),
         (''learn_opt_in'', JBool (sg_learnOptIn s)), (''synthesized_at'', JStr (toISOString synthesizedAt))]\<rparr>"

definition learning_process ::
  "(string \<Rightarrow> bool) \<Rightarrow> json \<Rightarrow> date \<Rightarrow> date \<Rightarrow> outbox \<Rightarrow> js_error + (learningSignal \<times> synthesis) \<times> outbox" where
  "learning_process is_uuid raw now now' ob =
     and_then (learningSignalSchema_parse is_uuid raw) (\<lambda>signal.
     and_then (zod_parse id candidate_ok (synthesizeLearningCandidate signal)) (\<lambda>c.
     and_then (outbox_enqueue is_uuid (candidate_command signal c now) now' ob) (\<lambda>(_, ob').
       Inr ((signal, c), ob'))))"

section \<open>Rubric updates\<close>

lemma zparse_znonempty: "zparse znonempty v = Some w \<longleftrightarrow> (\<exists>s. v = JStr s \<and> w = JStr s \<and> s \<noteq> [])"
  by (cases v) (auto simp: znonempty_def)

lemma rubric_schema_wf: "zwf learnerRubricContentSchema"
  by (simp add: learnerRubricContentSchema_def learnerRubricCriterionSchema_def znonempty_def zunit_def)

lemma criterion_parse:
  assumes "i \<noteq> []" and "in_unit weight" and "description \<noteq> []" and "check \<noteq> []"
  shows "zparse learnerRubricCriterionSchema (rubric_criterion i weight description check) =
    Some (rubric_criterion i weight description check)"
  using assms by (simp add: learnerRubricCriterionSchema_def rubric_criterion_def zmembers.simps(2) zmember_def
      znonempty_def zunit_def)

lemma default_rubric_parse: "zparse learnerRubricContentSchema (JObj DEFAULT_RUBRIC_CONTENT) = Some (JObj DEFAULT_RUBRIC_CONTENT)"
  by (simp add: learnerRubricContentSchema_def DEFAULT_RUBRIC_CONTENT_def zmembers.simps(2) zmember_def
      criterion_parse in_unit_def)

text \<open>A parsed rubric: its criteria and the optional members it has, each of which parses to itself.\<close>

definition optional_member :: "string \<Rightarrow> json option \<Rightarrow> json_record" where
  "optional_member k v = (case v of None \<Rightarrow> [] | Some x \<Rightarrow> [(k, x)])"

definition rubric_object :: "json list \<Rightarrow> json option \<Rightarrow> json option \<Rightarrow> json option \<Rightarrow> json_record" where
  "rubric_object vs a b c = [(''rubric'', JArr vs)] @ optional_member ''min_word_count'' a @
     optional_member ''max_word_count'' b @ optional_member ''forbidden_phrases'' c"

definition parses :: "zod \<Rightarrow> json \<Rightarrow> bool" where
  "parses z v \<longleftrightarrow> zparse z v = Some v"

definition rubric_valid :: "json list \<Rightarrow> json option \<Rightarrow> json option \<Rightarrow> json option \<Rightarrow> bool" where
  "rubric_valid vs a b c \<longleftrightarrow> vs \<noteq> [] \<and> list_all (parses learnerRubricCriterionSchema) vs \<and>
     pred_opt (parses (ZNumber is_positive_int)) a \<and> pred_opt (parses (ZNumber is_positive_int)) b \<and>
     pred_opt (parses (ZArray 0 znonempty)) c"

lemma those_parses: "those (map (zparse z) vs) = Some vs \<longleftrightarrow> list_all (parses z) vs"
  by (auto simp: those_Some list_all2_conv_all_nth list_all_length parses_def)

lemma those_parsed:
  assumes "zwf z" and "those (map (zparse z) xs) = Some vs"
  shows "list_all (parses z) vs" "length vs = length xs"
proof -
  from assms(2) show "length vs = length xs" by (auto simp: those_Some dest: list_all2_lengthD)
  show "list_all (parses z) vs"
    unfolding those_parses [symmetric] by (rule those_again [OF assms(2)]) (use zparse_again [OF assms(1)] in blast)
qed

lemma optional_parsed:
  assumes "zmember k Optional (zparse z) v = Some part" and "zwf z"
  shows "\<exists>x. part = optional_member k x \<and> pred_opt (parses z) x"
proof (cases v)
  case None
  with assms(1) have "part = optional_member k None" by (simp add: zmember_def optional_member_def)
  then show ?thesis by (metis pred_opt.simps(1))
next
  case (Some x)
  with assms(1) obtain y where "zparse z x = Some y" "part = optional_member k (Some y)"
    by (auto simp: zmember_def optional_member_def)
  then show ?thesis using zparse_again [OF assms(2)] by (metis parses_def pred_opt.simps(2))
qed

lemma zparse_array: "zparse (ZArray n z) v = Some w \<longleftrightarrow>
    (\<exists>xs vs. v = JArr xs \<and> n \<le> length xs \<and> those (map (zparse z) xs) = Some vs \<and> w = JArr vs)"
  by (cases v) auto

lemma rubric_parsed:
  assumes "zparse learnerRubricContentSchema v = Some w"
  shows "\<exists>vs a b c. w = JObj (rubric_object vs a b c) \<and> rubric_valid vs a b c"
proof -
  have wf: "zwf learnerRubricCriterionSchema" "zwf (ZNumber is_positive_int)" "zwf (ZArray 0 znonempty)"
    by (simp_all add: learnerRubricCriterionSchema_def znonempty_def zunit_def)
  from assms obtain fs where v: "v = JObj fs" by (cases v) (simp_all add: learnerRubricContentSchema_def)
  with assms obtain r pa pb pc out where parts:
      "zmember ''rubric'' Required (zparse (ZArray 1 learnerRubricCriterionSchema)) (map_of fs ''rubric'') = Some r"
      "zmember ''min_word_count'' Optional (zparse (ZNumber is_positive_int)) (map_of fs ''min_word_count'') = Some pa"
      "zmember ''max_word_count'' Optional (zparse (ZNumber is_positive_int)) (map_of fs ''max_word_count'') = Some pb"
      "zmember ''forbidden_phrases'' Optional (zparse (ZArray 0 znonempty)) (map_of fs ''forbidden_phrases'') = Some pc"
      "w = JObj (r @ pa @ pb @ pc)"
    unfolding learnerRubricContentSchema_def by (auto simp: zmembers_Cons)
  from parts(1) obtain xs vs where r: "map_of fs ''rubric'' = Some (JArr xs)" "1 \<le> length xs"
      "those (map (zparse learnerRubricCriterionSchema) xs) = Some vs" "r = [(''rubric'', JArr vs)]"
    unfolding zmember_Some zparse_array by blast
  from those_parsed [OF wf(1) r(3)] r(2) have "list_all (parses learnerRubricCriterionSchema) vs" "vs \<noteq> []" by auto
  with optional_parsed [OF parts(2) wf(2)] optional_parsed [OF parts(3) wf(2)] optional_parsed [OF parts(4) wf(3)] parts(5) r(4)
  show ?thesis unfolding rubric_object_def rubric_valid_def by blast
qed

lemma rubric_object_lookup [simp]:
  "map_of (rubric_object vs a b c) ''rubric'' = Some (JArr vs)" "map_of (rubric_object vs a b c) ''min_word_count'' = a"
  "map_of (rubric_object vs a b c) ''max_word_count'' = b" "map_of (rubric_object vs a b c) ''forbidden_phrases'' = c"
  by (cases a; cases b; cases c; simp add: rubric_object_def optional_member_def)+

lemma optional_parse: "pred_opt (parses z) x \<Longrightarrow> zmember k Optional (zparse z) x = Some (optional_member k x)"
  by (cases x) (simp_all add: zmember_def optional_member_def parses_def)

lemma rubric_parse:
  assumes "rubric_valid vs a b c"
  shows "zparse learnerRubricContentSchema (JObj (rubric_object vs a b c)) = Some (JObj (rubric_object vs a b c))"
proof -
  have "zmember ''rubric'' Required (zparse (ZArray 1 learnerRubricCriterionSchema)) (Some (JArr vs)) = Some [(''rubric'', JArr vs)]"
    using assms those_parses [of learnerRubricCriterionSchema vs]
    by (auto simp: zmember_def rubric_valid_def Suc_le_eq not_less_eq_eq)
  with assms optional_parse have "zmembers [(''rubric'', Required, zparse (ZArray 1 learnerRubricCriterionSchema)),
      (''min_word_count'', Optional, zparse (ZNumber is_positive_int)),
      (''max_word_count'', Optional, zparse (ZNumber is_positive_int)),
      (''forbidden_phrases'', Optional, zparse (ZArray 0 znonempty))] (rubric_object vs a b c) = Some (rubric_object vs a b c)"
    unfolding zmembers_Cons rubric_object_lookup by (auto simp: rubric_valid_def rubric_object_def zmembers_Cons)
  then show ?thesis by (simp only: learnerRubricContentSchema_def zparse.simps list.map prod.case option.map)
qed

text \<open>
  Rubric updates add and never break a rubric: the updated content starts with the criteria of the active playbook (of the
  default rubric when the stored content is not a rubric), keeps its word counts and forbidden phrases, and appends one
  criterion per failure reason, less those whose id is taken; the new ids are distinct, a description has at most 120
  characters, and the updated content satisfies the rubric schema, so the next update builds on it.
\<close>

theorem rubric_updates_add:
  assumes "list_all (\<lambda>r. r \<noteq> []) reasons"
  shows "\<exists>content added. buildUpdatedRubricContent existing reasons timestamp = (content, added) \<and>
    rubric_of content = rubric_of (rubric_baseline existing) @ added \<and>
    (\<forall>k \<in> {''min_word_count'', ''max_word_count'', ''forbidden_phrases''}. map_of content k = map_of (rubric_baseline existing) k) \<and>
    length added \<le> length reasons \<and> distinct (map criterion_id added) \<and>
    (\<forall>c \<in> set added. criterion_id c \<notin> criterion_id ` set (rubric_of (rubric_baseline existing)) \<and>
       (\<exists>reason \<in> set reasons. json_field ''description'' c = Some (JStr (short_reason reason)) \<and>
          length (short_reason reason) \<le> 120)) \<and>
    zparse learnerRubricContentSchema (JObj content) = Some (JObj content)"
proof -
  define baseline where "baseline = rubric_baseline existing"
  have "\<exists>vs a b c. baseline = rubric_object vs a b c \<and> rubric_valid vs a b c"
  proof -
    have "\<exists>v. zparse learnerRubricContentSchema v = Some (JObj baseline)"
      using default_rubric_parse unfolding baseline_def rubric_baseline_def by (auto split: option.splits json.splits)
    then show ?thesis using rubric_parsed by fastforce
  qed
  then obtain vs a b c where base: "baseline = rubric_object vs a b c" "rubric_valid vs a b c" by blast
  define new where "new = filter (\<lambda>x. criterion_id x \<notin> set (map criterion_id vs))
    (map (\<lambda>(i, reason). corrective_criterion timestamp i reason) (enumerate 0 reasons))"
  have rubric: "rubric_of (rubric_object us a b c) = us" for us by (simp add: rubric_of_def)
  have copied: "copied_member k baseline = optional_member k (map_of baseline k)" for k
    by (simp add: copied_member_def optional_member_def)
  have run: "buildUpdatedRubricContent existing reasons timestamp = (rubric_object (vs @ new) a b c, new)"
    unfolding buildUpdatedRubricContent_def Let_def baseline_def [symmetric] copied
    by (simp add: base(1) rubric new_def) (simp add: rubric_object_def)
  have id: "criterion_id (corrective_criterion timestamp i r) = ''auto-'' @ show_int timestamp @ ''-'' @ show_nat i" for i r
    by (simp add: criterion_id_def corrective_criterion_def rubric_criterion_def)
  have "map criterion_id (map (\<lambda>(i, reason). corrective_criterion timestamp i reason) (enumerate 0 reasons)) =
      map ((\<lambda>i. ''auto-'' @ show_int timestamp @ ''-'' @ show_nat i) \<circ> fst) (enumerate 0 reasons)"
    unfolding map_map by (rule map_cong) (auto simp: id)
  also have "\<dots> = map (\<lambda>i. ''auto-'' @ show_int timestamp @ ''-'' @ show_nat i) [0..<length reasons]"
    unfolding map_map [symmetric] by simp
  finally have "distinct (map criterion_id (map (\<lambda>(i, reason). corrective_criterion timestamp i reason) (enumerate 0 reasons)))"
    by (simp only: distinct_map) (simp add: inj_on_def)
  then have distinct: "distinct (map criterion_id new)" unfolding new_def by (rule distinct_map_filter)
  have short: "length (short_reason r) \<le> 120" "r \<noteq> [] \<Longrightarrow> short_reason r \<noteq> []" for r by (auto simp: short_reason_def)
  have from_reason: "\<exists>i reason. reason \<in> set reasons \<and> x = corrective_criterion timestamp i reason" if "x \<in> set new" for x
    using that by (auto simp: new_def enumerate_eq_zip dest: set_zip_rightD)
  have "list_all (parses learnerRubricCriterionSchema) new"
    unfolding list_all_iff parses_def
  proof
    fix x assume "x \<in> set new"
    with from_reason obtain i reason where r: "reason \<in> set reasons" "x = corrective_criterion timestamp i reason" by blast
    then have "reason \<noteq> []" using assms(1) by (auto simp: list_all_iff)
    with r(2) short(2) show "zparse learnerRubricCriterionSchema x = Some x"
      by (simp add: corrective_criterion_def criterion_parse in_unit_def)
  qed
  with base(2) have "rubric_valid (vs @ new) a b c" by (simp add: rubric_valid_def)
  moreover have "length new \<le> length reasons"
    unfolding new_def by (rule order_trans [OF length_filter_le]) simp
  moreover have "\<exists>reason \<in> set reasons. json_field ''description'' x = Some (JStr (short_reason reason)) \<and>
      length (short_reason reason) \<le> 120" if "x \<in> set new" for x
    using from_reason [OF that] short(1) by (auto simp: corrective_criterion_def rubric_criterion_def)
  moreover have "criterion_id x \<notin> criterion_id ` set vs" if "x \<in> set new" for x using that by (simp add: new_def)
  ultimately show ?thesis using run distinct rubric_parse unfolding baseline_def [symmetric] base(1) by (auto simp: rubric)
qed

theorem rubric_updates_add_witness:
  "\<exists>content added. buildUpdatedRubricContent None [''too long''] 7 = (content, added) \<and> length added \<le> 1 \<and>
     rubric_of content = rubric_of DEFAULT_RUBRIC_CONTENT @ added"
  using rubric_updates_add [of "[''too long'']" None 7] by (auto simp: rubric_baseline_def)

end
