(* ===== verification/LearningWorker.thy ===== *)
theory LearningWorker
  imports Learning
begin

text \<open>
  The critique path of the learning worker (class \<open>LearningWorker\<close> of apps/worker-learning/src/learning-worker.ts):
  a critique becomes a proposal, the proposal is evaluated on the evidence there is, and one
  that may be promoted is claimed, turned into a playbook version, announced and marked as promoted. Calls that
  throw keep the effects of the calls before them, as in the code.
\<close>

section \<open>Proposed changes\<close>

record playbookChangeProposal =
  pp_tenantId :: string
  pp_proposalId :: string
  pp_artifactKind :: string
  pp_artifactId :: string
  pp_playbookType :: playbookType
  pp_verdict :: critiqueVerdict

text \<open>
  The own members of the object; an artifact kind that names a member of \<open>Object.prototype\<close> (\<open>constructor\<close>, \<open>toString\<close>),
  which the index also finds, is left out.
\<close>

definition ARTIFACT_KIND_TO_PLAYBOOK_TYPE :: "(string \<times> playbookType) list" where
  "ARTIFACT_KIND_TO_PLAYBOOK_TYPE =
     [(''blog_draft'', BlogDraft), (''blog_draft.v1'', BlogDraft), (''content_brief'', ContentBrief),
      (''content_brief.v1'', ContentBrief), (''intel_brief'', IntelBrief), (''intel_brief.v1'', IntelBrief),
      (''custom'', CustomPlaybook)]"

definition startsWith :: "string \<Rightarrow> string \<Rightarrow> bool" where
  "startsWith s p \<longleftrightarrow> take (length p) s = p"

definition resolvePlaybookType :: "string \<Rightarrow> playbookType option" where
  "resolvePlaybookType artifactKind =
     (case map_of ARTIFACT_KIND_TO_PLAYBOOK_TYPE artifactKind of
        Some ty \<Rightarrow> Some ty
      | None \<Rightarrow>
          if startsWith artifactKind ''blog_draft'' then Some BlogDraft
          else if startsWith artifactKind ''content_brief'' then Some ContentBrief
          else if startsWith artifactKind ''intel_brief'' then Some IntelBrief
          else if startsWith artifactKind ''custom'' then Some CustomPlaybook
          else None)"

definition critique_author :: "critiqueCompletedPayload \<Rightarrow> string" where
  "critique_author critique = ''critique:'' @ cr_critique_id critique"

definition proposed_payload ::
  "string \<Rightarrow> playbookChangeProposal \<Rightarrow> critiqueCompletedPayload \<Rightarrow> changeRisk \<Rightarrow> date \<Rightarrow> json_record" where
  "proposed_payload tenantId proposal critique risk now =
     [(''tenant_id'', JStr tenantId), (''proposal_id'', JStr (pp_proposalId proposal))] @
     (case cr_experiment_id critique of
        None \<Rightarrow> [] | Some e \<Rightarrow> if e = [] then [] else [(''experiment_id'', JStr e)]) @
     [(''change_risk'', JStr (risk_name risk)), (''playbook_type'', JStr (playbook_name (pp_playbookType proposal))),
      (''artifact_kind'', JStr (cr_artifact_kind critique)), (''artifact_id'', JStr (cr_artifact_id critique)),
      (''critique_id'', JStr (cr_critique_id critique)), (''source'', JStr (cr_source critique)),
      (''prompt_version'', JStr (cr_prompt_version critique)), (''verdict'', JStr (verdict_name (cr_verdict critique))),
      (''confidence_score'', JNum (cr_confidence_score critique)),
      (''failure_reasons'', JArr (map JStr (cr_reasons critique))), (''critiqued_at'', JStr (cr_critiqued_at critique)),
      (''status'', JStr ''awaiting_evidence''), (''proposed_at'', JStr (toISOString now))]"

definition persistedCritiqueProposalPayloadSchema :: "(string \<Rightarrow> bool) \<Rightarrow> (string \<Rightarrow> bool) \<Rightarrow> zod" where
  "persistedCritiqueProposalPayloadSchema is_uuid is_datetime =
     ZObject
       [(''tenant_id'', Required, zchecked is_uuid), (''proposal_id'', Required, znonempty),
        (''experiment_id'', Optional, zchecked is_uuid), (''change_risk'', Required, ZEnum (map fst risk_values)),
        (''playbook_type'', Required, ZEnum [''blog_draft'', ''content_brief'', ''intel_brief'', ''custom'']),
        (''artifact_kind'', Required, znonempty), (''artifact_id'', Required, znonempty),
        (''critique_id'', Required, znonempty), (''source'', Required, znonempty),
        (''prompt_version'', Required, znonempty), (''verdict'', Required, ZEnum [''revise'', ''reject'']),
        (''confidence_score'', Required, zunit), (''failure_reasons'', Required, ZArray 0 znonempty),
        (''critiqued_at'', Required, zchecked is_datetime), (''status'', Required, ZEnum [''awaiting_evidence'']),
        (''proposed_at'', Required, zchecked is_datetime)]"

text \<open>The critique that \<open>processApprovedProposal\<close> parses from the stored payload.\<close>

definition stored_critique :: "json_record \<Rightarrow> json_record" where
  "stored_critique stored =
     [(''critique_id'', JStr (string_at ''critique_id'' stored)), (''source'', JStr (string_at ''source'' stored)),
      (''artifact_kind'', JStr (string_at ''artifact_kind'' stored)),
      (''artifact_id'', JStr (string_at ''artifact_id'' stored))] @
     (case string_opt_at ''experiment_id'' stored of
        None \<Rightarrow> [] | Some e \<Rightarrow> if e = [] then [] else [(''experiment_id'', JStr e)]) @
     [(''change_risk'', JStr (string_at ''change_risk'' stored)),
      (''prompt_version'', JStr (string_at ''prompt_version'' stored)), (''verdict'', JStr (string_at ''verdict'' stored)),
      (''confidence_score'', JNum (number_at ''confidence_score'' stored)),
      (''reasons'', JArr (map JStr (texts_at ''failure_reasons'' stored))),
      (''critiqued_at'', JStr (string_at ''critiqued_at'' stored))]"

definition stored_proposal :: "string \<Rightarrow> json_record \<Rightarrow> playbookChangeProposal" where
  "stored_proposal tenantId stored =
     \<lparr>pp_tenantId = tenantId, pp_proposalId = string_at ''proposal_id'' stored,
      pp_artifactKind = string_at ''artifact_kind'' stored, pp_artifactId = string_at ''artifact_id'' stored,
      pp_playbookType = nullish_or (map_of playbookTypeValues (string_at ''playbook_type'' stored)) CustomPlaybook,
      pp_verdict = nullish_or (map_of verdict_values (string_at ''verdict'' stored)) CritiqueReject\<rparr>"

section \<open>The world of the worker\<close>

text \<open>The proposal repository holds the outbox, which the worker writes to as well.\<close>

record learning_world =
  lw_proposals :: proposals
  lw_playbooks :: playbooks

abbreviation lw_outbox :: "learning_world \<Rightarrow> outbox" where
  "lw_outbox w \<equiv> ps_outbox (lw_proposals w)"

text \<open>What a run meets: clock readings, fresh identifiers and the answer of the evidence provider.\<close>

record learning_turn =
  lt_clock :: "nat \<Rightarrow> date"
  lt_proposalId :: string
  lt_claimToken :: string
  lt_versionId :: string

type_synonym evidence_provider = "learning_world \<Rightarrow> playbookChangeProposal \<Rightarrow> learningProposalEvaluation option result"

record learning_config =
  lc_proposalsConfigured :: bool
  lc_playbooksConfigured :: bool
  lc_evidence :: "evidence_provider option"
  lc_policy :: rawLearningPolicy

record learning_checks =
  lk_uuid :: "string \<Rightarrow> bool"
  lk_datetime :: "string \<Rightarrow> bool"

type_synonym 'a learning_effect = "learning_world \<Rightarrow> (js_error + 'a) \<times> learning_world"

definition on_proposals :: "(proposals \<Rightarrow> js_error + 'a \<times> proposals) \<Rightarrow> 'a learning_effect" where
  "on_proposals m w = or_throw (m (lw_proposals w)) w (\<lambda>(r, st). (Inr r, w\<lparr>lw_proposals := st\<rparr>))"

definition on_playbooks :: "(playbooks \<Rightarrow> (js_error + 'a) \<times> playbooks) \<Rightarrow> 'a learning_effect" where
  "on_playbooks m w = (case m (lw_playbooks w) of (r, st) \<Rightarrow> (r, w\<lparr>lw_playbooks := st\<rparr>))"

definition learning_enqueue :: "(string \<Rightarrow> bool) \<Rightarrow> enqueueOutboxEvent \<Rightarrow> date \<Rightarrow> unit learning_effect" where
  "learning_enqueue is_uuid command now w =
     or_throw (outbox_enqueue is_uuid command now (lw_outbox w)) w
       (\<lambda>(_, ob). (Inr (), w\<lparr>lw_proposals := (lw_proposals w)\<lparr>ps_outbox := ob\<rparr>\<rparr>))"

section \<open>Steps of a run\<close>

text \<open>\<open>persistProposal\<close>\<close>

definition persist_params ::
  "playbookChangeProposal \<Rightarrow> critiqueCompletedPayload \<Rightarrow> changeRisk \<Rightarrow> json_record \<Rightarrow> createLearningProposalParams" where
  "persist_params proposal critique risk payload =
     \<lparr>cl_proposalKey = pp_proposalId proposal,
      cl_experimentId =
        (case cr_experiment_id critique of None \<Rightarrow> None | Some e \<Rightarrow> if e = [] then None else Some e),
      cl_targetType = playbook_name (pp_playbookType proposal), cl_targetId = pp_artifactId proposal, cl_risk = risk,
      cl_proposalPayload = payload, cl_baseVersionRef = None, cl_candidateVersionRef = None,
      cl_createdBy = critique_author critique\<rparr>"

definition persistProposal ::
  "learning_checks \<Rightarrow> learning_config \<Rightarrow> learning_turn \<Rightarrow> string \<Rightarrow> playbookChangeProposal \<Rightarrow> critiqueCompletedPayload \<Rightarrow>
   changeRisk \<Rightarrow> json_record \<Rightarrow> learningProposalRecord option learning_effect" where
  "persistProposal ck d tn tenantId proposal critique risk payload w =
     (if \<not> lc_proposalsConfigured d then (Inr None, w)
      else then_do (on_proposals (proposal_create (lk_uuid ck) tenantId (persist_params proposal critique risk payload)
             (lt_proposalId tn) (lt_clock tn 1))) (\<lambda>r w. (Inr (Some r), w)) w)"

definition learning_id_member :: "learningProposalRecord option \<Rightarrow> json_record" where
  "learning_id_member persisted =
     (case persisted of None \<Rightarrow> [] | Some p \<Rightarrow> [(''learning_proposal_id'', JStr (lp_id p))])"

definition proposed_command ::
  "string \<Rightarrow> critiqueCompletedPayload \<Rightarrow> json_record \<Rightarrow> learningProposalRecord option \<Rightarrow> enqueueOutboxEvent" where
  "proposed_command tenantId critique payload persisted =
     \<lparr>oc_tenantId = tenantId, oc_eventType = ''learning.playbook.change.proposed.v1'',
      oc_idempotencyKey = ''playbook-proposal:'' @ cr_critique_id critique,
      oc_payload = payload @ learning_id_member persisted\<rparr>"

fun direction_name :: "metricDirection \<Rightarrow> string" where
  "direction_name Increase = ''increase''"
| "direction_name Decrease = ''decrease''"

definition evaluation_params :: "learningProposalEvaluation \<Rightarrow> learningDecision \<Rightarrow> recordEvaluationParams" where
  "evaluation_params ev promotion =
     \<lparr>re_decision = ld_decision promotion,
      re_evidenceSnapshot =
        [(''evidence_count'', JNum (ev_evidenceCount ev)), (''unique_entities'', JNum (ev_uniqueEntities ev)),
         (''confidence'', JNum (ev_confidence ev)), (''baseline_metric'', JNum (ev_baselineMetric ev)),
         (''candidate_metric'', JNum (ev_candidateMetric ev)),
         (''worst_guardrail_regression'', JNum (ev_worstGuardrailRegression ev))],
      re_evaluationSnapshot =
        [(''proposal_id'', JStr (ev_proposalId ev)), (''risk'', JStr (risk_name (ev_risk ev))),
         (''evidence_count'', JNum (ev_evidenceCount ev)), (''unique_entities'', JNum (ev_uniqueEntities ev)),
         (''confidence'', JNum (ev_confidence ev)),
         (''metric_direction'', JStr (direction_name (ev_metricDirection ev))),
         (''baseline_metric'', JNum (ev_baselineMetric ev)), (''candidate_metric'', JNum (ev_candidateMetric ev)),
         (''worst_guardrail_regression'', JNum (ev_worstGuardrailRegression ev)),
         (''human_approved'', JBool (ev_humanApproved ev)), (''relative_lift'', JNum (ld_relativeLift promotion))],
      re_decisionReasons = ld_reasons promotion\<rparr>"

text \<open>Whether the proposal may go on to promotion.\<close>

definition recordPromotionDecision ::
  "learning_checks \<Rightarrow> learning_config \<Rightarrow> learning_turn \<Rightarrow> string \<Rightarrow> learningProposalRecord option \<Rightarrow>
   learningProposalEvaluation \<Rightarrow> learningDecision \<Rightarrow> bool learning_effect" where
  "recordPromotionDecision ck d tn tenantId persisted ev promotion w =
     (case persisted of
        None \<Rightarrow> (Inr True, w)
      | Some p \<Rightarrow>
          if \<not> lc_proposalsConfigured d then (Inr True, w)
          else then_do (on_proposals (proposal_recordEvaluation (lk_uuid ck) tenantId (lp_id p)
                 (evaluation_params ev promotion) (lt_clock tn 3)))
                 (\<lambda>recorded w. (Inr (map_option lp_status recorded = Some LpApproved), w)) w)"

definition updated_command ::
  "string \<Rightarrow> playbookChangeProposal \<Rightarrow> critiqueCompletedPayload \<Rightarrow> learningProposalRecord option \<Rightarrow> string \<Rightarrow> nat \<Rightarrow>
   number \<Rightarrow> date \<Rightarrow> enqueueOutboxEvent" where
  "updated_command tenantId proposal critique persisted versionId criteriaAdded relativeLift now =
     \<lparr>oc_tenantId = tenantId, oc_eventType = ''learning.playbook.updated.v1'',
      oc_idempotencyKey = ''playbook-update:'' @ cr_critique_id critique,
      oc_payload =
        [(''tenant_id'', JStr tenantId), (''playbook_version_id'', JStr versionId),
         (''playbook_type'', JStr (playbook_name (pp_playbookType proposal))),
         (''artifact_kind'', JStr (cr_artifact_kind critique)), (''artifact_id'', JStr (cr_artifact_id critique)),
         (''critique_id'', JStr (cr_critique_id critique)), (''verdict'', JStr (verdict_name (cr_verdict critique))),
         (''criteria_added'', JNum (of_nat criteriaAdded)), (''proposal_id'', JStr (pp_proposalId proposal))] @
        learning_id_member persisted @
        [(''relative_lift'', JNum relativeLift), (''updated_at'', JStr (toISOString now))]\<rparr>"

definition markProposalPromoted ::
  "learning_checks \<Rightarrow> learning_config \<Rightarrow> learning_turn \<Rightarrow> string \<Rightarrow> learningProposalRecord option \<Rightarrow> string \<Rightarrow>
   string option \<Rightarrow> unit learning_effect" where
  "markProposalPromoted ck d tn tenantId persisted versionId token w =
     (case persisted of
        None \<Rightarrow> (Inr (), w)
      | Some p \<Rightarrow>
          if \<not> lc_proposalsConfigured d then (Inr (), w)
          else case token of
            None \<Rightarrow> (Inl (JsError (''Missing promotion claim for learning proposal '' @ lp_id p @ ''.'')), w)
          | Some t \<Rightarrow>
              if t = []
              then (Inl (JsError (''Missing promotion claim for learning proposal '' @ lp_id p @ ''.'')), w)
              else then_do (on_proposals (proposal_markPromoted (lk_uuid ck) tenantId (lp_id p) versionId t (lt_clock tn 9)))
                (\<lambda>marked w. case marked of
                   Some _ \<Rightarrow> (Inr (), w)
                 | None \<Rightarrow> or_throw (proposal_getById (lk_uuid ck) tenantId (lp_id p) (lw_proposals w)) w (\<lambda>current.
                     case current of
                       None \<Rightarrow> (Inl (JsError (''Unable to mark learning proposal '' @ lp_id p @ '' as promoted.'')), w)
                     | Some c \<Rightarrow>
                         if lp_status c \<noteq> LpPromoted \<or> lp_promotedVersionRef c \<noteq> Some versionId
                         then (Inl (JsError (''Unable to mark learning proposal '' @ lp_id p @ '' as promoted.'')), w)
                         else (Inr (), w))) w)"

text \<open>The dash in a version's name is three bytes of UTF-8.\<close>

definition em_dash :: string where
  "em_dash = [char_of (226 :: nat), char_of (128 :: nat), char_of (148 :: nat)]"

definition version_params ::
  "playbookType \<Rightarrow> critiqueCompletedPayload \<Rightarrow> json_record \<Rightarrow> nat \<Rightarrow> date \<Rightarrow> createPlaybookVersionParams" where
  "version_params ty critique content added now =
     \<lparr>cv_playbookType = ty,
      cv_name = playbook_name ty @ '' rubric '' @ em_dash @ '' critique '' @ take 8 (cr_critique_id critique),
      cv_description = Some (''Auto-updated from critique verdict '' @ [CHR 34] @ verdict_name (cr_verdict critique) @ [CHR 34] @
        ''. Added '' @ show_nat added @ '' criterion(s) from '' @ show_nat (length (cr_reasons critique)) @
        '' failure reason(s).''),
      cv_content = content, cv_createdBy = critique_author critique, cv_effectiveAt = Some now\<rparr>"

text \<open>The announcement and the mark, which end both ways of promoting.\<close>

definition finish_promotion ::
  "learning_checks \<Rightarrow> learning_config \<Rightarrow> learning_turn \<Rightarrow> string \<Rightarrow> playbookChangeProposal \<Rightarrow> critiqueCompletedPayload \<Rightarrow>
   learningProposalRecord option \<Rightarrow> string option \<Rightarrow> number \<Rightarrow> nat \<Rightarrow> playbookVersionRecord \<Rightarrow>
   playbookVersionRecord option learning_effect" where
  "finish_promotion ck d tn tenantId proposal critique persisted token relativeLift added version =
     then_do (learning_enqueue (lk_uuid ck)
         (updated_command tenantId proposal critique persisted (pv_id version) added relativeLift (lt_clock tn 7)) (lt_clock tn 8))
       (\<lambda>_. then_do (markProposalPromoted ck d tn tenantId persisted (pv_id version) token)
         (\<lambda>_ w. (Inr (Some version), w)))"

definition promotePlaybookChange ::
  "learning_checks \<Rightarrow> learning_config \<Rightarrow> learning_turn \<Rightarrow> string \<Rightarrow> playbookChangeProposal \<Rightarrow> critiqueCompletedPayload \<Rightarrow>
   playbookType \<Rightarrow> learningProposalRecord option \<Rightarrow> number \<Rightarrow> playbookVersionRecord option learning_effect" where
  "promotePlaybookChange ck d tn tenantId proposal critique ty persisted relativeLift w =
     (if \<not> lc_playbooksConfigured d
      then (Inl (JsError ''Playbook repository is required to promote a proposal.''), w)
      else then_do
        (case persisted of
           None \<Rightarrow> (\<lambda>w. (Inr None, w))
         | Some p \<Rightarrow>
             if lc_proposalsConfigured d
             then on_proposals (proposal_claimPromotion (lk_uuid ck) tenantId (lp_id p)
                    \<lparr>co_leaseMs = None, co_now = None\<rparr> (lt_claimToken tn) (lt_clock tn 4))
             else (\<lambda>w. (Inr None, w)))
        (\<lambda>claim w.
          if persisted \<noteq> None \<and> claim = None then (Inr None, w)
          else
            (case find (\<lambda>v. pv_createdBy v = critique_author critique) (playbook_listAll tenantId ty (lw_playbooks w)) of
               Some existing \<Rightarrow>
                 finish_promotion ck d tn tenantId proposal critique persisted (map_option pc_token claim) relativeLift 0 existing w
             | None \<Rightarrow>
                 (let (content, added) = buildUpdatedRubricContent
                        (map_option pv_content (playbook_getActive tenantId ty (lw_playbooks w)))
                        (cr_reasons critique) (lt_clock tn 5)
                  in then_do (on_playbooks (playbook_create (lk_uuid ck) tenantId
                         (version_params ty critique content (length added) (lt_clock tn 6)) (lt_versionId tn)
                         (lt_clock tn 6) (lt_clock tn 6)))
                       (finish_promotion ck d tn tenantId proposal critique persisted (map_option pc_token claim)
                          relativeLift (length added)) w))) w)"

text \<open>Evidence, gate, record, promotion: the common end of both entry points.\<close>

definition evaluate_and_promote ::
  "learning_checks \<Rightarrow> learning_config \<Rightarrow> learning_turn \<Rightarrow> evidence_provider \<Rightarrow> string \<Rightarrow> playbookChangeProposal \<Rightarrow>
   critiqueCompletedPayload \<Rightarrow> playbookType \<Rightarrow> learningProposalRecord option \<Rightarrow> playbookVersionRecord option learning_effect" where
  "evaluate_and_promote ck d tn evidence tenantId proposal critique ty persisted w =
     or_throw (evidence w proposal) w (\<lambda>found.
       case found of
         None \<Rightarrow> (Inr None, w)
       | Some ev \<Rightarrow>
           or_throw (evaluateLearningProposal ev (lc_policy d)) w (\<lambda>promotion.
             then_do (recordPromotionDecision ck d tn tenantId persisted ev promotion)
               (\<lambda>eligible w.
                 if \<not> eligible then (Inr None, w)
                 else if ld_decision promotion \<noteq> Promote then (Inr None, w)
                 else promotePlaybookChange ck d tn tenantId proposal critique ty persisted (ld_relativeLift promotion) w) w))"

section \<open>The two entry points\<close>

definition change_of :: "string \<Rightarrow> playbookType \<Rightarrow> critiqueCompletedPayload \<Rightarrow> playbookChangeProposal" where
  "change_of tenantId ty critique =
     \<lparr>pp_tenantId = tenantId, pp_proposalId = critique_author critique, pp_artifactKind = cr_artifact_kind critique,
      pp_artifactId = cr_artifact_id critique, pp_playbookType = ty, pp_verdict = cr_verdict critique\<rparr>"

definition processFromCritique ::
  "learning_checks \<Rightarrow> learning_config \<Rightarrow> learning_turn \<Rightarrow> string \<Rightarrow> json \<Rightarrow> playbookVersionRecord option learning_effect" where
  "processFromCritique ck d tn tenantId rawPayload w =
     or_throw (critiqueCompletedPayloadSchema_parse (lk_uuid ck) (lk_datetime ck) rawPayload) w (\<lambda>critique.
       if cr_verdict critique = CritiqueApprove then (Inr None, w)
       else case resolvePlaybookType (cr_artifact_kind critique) of
         None \<Rightarrow> (Inr None, w)
       | Some ty \<Rightarrow>
           (let proposal = change_of tenantId ty critique;
                risk = nullish_or (cr_change_risk critique) RiskHigh;
                payload = proposed_payload tenantId proposal critique risk (lt_clock tn 0)
            in then_do (persistProposal ck d tn tenantId proposal critique risk payload)
                 (\<lambda>persisted. then_do (learning_enqueue (lk_uuid ck) (proposed_command tenantId critique payload persisted) (lt_clock tn 2))
                   (\<lambda>_ w. if \<not> lc_playbooksConfigured d then (Inr None, w)
                          else case lc_evidence d of
                            None \<Rightarrow> (Inr None, w)
                          | Some evidence \<Rightarrow>
                              evaluate_and_promote ck d tn evidence tenantId proposal critique ty persisted w)) w))"

definition processApprovedProposal ::
  "learning_checks \<Rightarrow> learning_config \<Rightarrow> learning_turn \<Rightarrow> string \<Rightarrow> string \<Rightarrow> playbookVersionRecord option learning_effect" where
  "processApprovedProposal ck d tn tenantId proposalId w =
     (case lc_evidence d of
        None \<Rightarrow> (Inr None, w)
      | Some evidence \<Rightarrow>
          if \<not> lc_proposalsConfigured d \<or> \<not> lc_playbooksConfigured d then (Inr None, w)
          else or_throw (proposal_getById (lk_uuid ck) tenantId proposalId (lw_proposals w)) w (\<lambda>found.
            case found of
              None \<Rightarrow> (Inr None, w)
            | Some persisted \<Rightarrow>
                if lp_status persisted \<noteq> LpApproved then (Inr None, w)
                else or_throw (object_of (zparse (persistedCritiqueProposalPayloadSchema (lk_uuid ck) (lk_datetime ck))
                       (JObj (lp_proposalPayload persisted)))) w (\<lambda>stored.
                  or_throw (critiqueCompletedPayloadSchema_parse (lk_uuid ck) (lk_datetime ck) (JObj (stored_critique stored))) w
                    (\<lambda>critique. evaluate_and_promote ck d tn evidence tenantId (stored_proposal tenantId stored) critique
                       (pp_playbookType (stored_proposal tenantId stored)) (Some persisted) w))))"

end
