(* ===== verification/LearningRuns.thy ===== *)
theory LearningRuns
  imports LearningProperties
begin

text \<open>
  What a run of the learning worker does to its stores: which steps leave the playbooks alone, when a version
  is created, and what must be on file by then. From it: one version per critique, no version without a passed
  gate, and the outcome of a run whose evidence passes or whose proposal is still claimed.
\<close>

section \<open>What steps leave alone\<close>

definition keeps :: "(learning_world \<Rightarrow> bool) \<Rightarrow> 'a learning_effect \<Rightarrow> bool" where
  "keeps P m \<longleftrightarrow> (\<forall>w r w'. P w \<longrightarrow> m w = (r, w') \<longrightarrow> P w')"

named_theorems keeps

lemma keepsD: "keeps P m \<Longrightarrow> m w = (r, w') \<Longrightarrow> P w \<Longrightarrow> P w'"
  by (simp add: keeps_def)

lemma keeps_return [keeps]: "keeps P (\<lambda>w. (x w, w))"
  by (simp add: keeps_def)

lemma keepsI: "(\<And>w r w'. P w \<Longrightarrow> m w = (r, w') \<Longrightarrow> P w') \<Longrightarrow> keeps P m"
  by (simp add: keeps_def)

lemma then_cases:
  "then_do m f w = (r, w') \<Longrightarrow> m w = (r1, w1) \<Longrightarrow>
     (\<exists>e. r1 = Inl e \<and> r = Inl e) \<and> w' = w1 \<or> (\<exists>a. r1 = Inr a \<and> f a w1 = (r, w'))"
  by (cases r1) (auto simp: then_do_def)

lemma keeps_then [keeps]:
  assumes "keeps P m" and "\<And>a. keeps P (f a)"
  shows "keeps P (then_do m f)"
proof (rule keepsI)
  fix w r w' assume w: "P w" "then_do m f w = (r, w')"
  obtain r1 w1 where m: "m w = (r1, w1)" by (rule prod.exhaust)
  with keepsD [OF assms(1)] w(1) have "P w1" by blast
  with then_cases [OF w(2) m] keepsD [OF assms(2)] show "P w'" by blast
qed

lemma keeps_throw [keeps]:
  assumes "\<And>a. keeps P (f a)"
  shows "keeps P (\<lambda>w. or_throw (x w) w (\<lambda>a. f a w))"
proof (rule keepsI)
  fix w r w' assume w: "P w" "or_throw (x w) w (\<lambda>a. f a w) = (r, w')"
  then have "w' = w \<or> (\<exists>a. f a w = (r, w'))" by (cases "x w") auto
  with keepsD [OF assms] w(1) show "P w'" by blast
qed

lemma keeps_if [keeps]:
  assumes "keeps P m" and "keeps P n"
  shows "keeps P (\<lambda>w. if b w then m w else n w)"
proof (rule keepsI)
  fix w r w' assume w: "P w" "(if b w then m w else n w) = (r, w')"
  then have "m w = (r, w') \<or> n w = (r, w')" by (cases "b w") auto
  with keepsD [OF assms(1)] keepsD [OF assms(2)] w(1) show "P w'" by blast
qed

lemma keeps_option [keeps]:
  assumes "keeps P m" and "\<And>a. keeps P (f a)"
  shows "keeps P (\<lambda>w. case x w of None \<Rightarrow> m w | Some a \<Rightarrow> f a w)"
proof (rule keepsI)
  fix w r w' assume w: "P w" "(case x w of None \<Rightarrow> m w | Some a \<Rightarrow> f a w) = (r, w')"
  then have "m w = (r, w') \<or> (\<exists>a. f a w = (r, w'))" by (cases "x w") auto
  with keepsD [OF assms(1)] keepsD [OF assms(2)] w(1) show "P w'" by blast
qed

lemma keeps_then_at [keeps]:
  assumes "\<And>x. keeps P (m x)" and "\<And>x a. keeps P (f x a)"
  shows "keeps P (\<lambda>w. then_do (m w) (f w) w)"
proof (rule keepsI)
  fix w r w' assume w: "P w" "then_do (m w) (f w) w = (r, w')"
  have "keeps P (then_do (m w) (f w))" by (rule keeps_then) (rule assms)+
  from keepsD [OF this w(2,1)] show "P w'" .
qed

abbreviation playbooks_are :: "playbooks \<Rightarrow> learning_world \<Rightarrow> bool" where
  "playbooks_are st w \<equiv> lw_playbooks w = st"

lemma playbooks_kept: "(\<And>st. keeps (playbooks_are st) m) \<Longrightarrow> m w = (r, w') \<Longrightarrow> lw_playbooks w' = lw_playbooks w"
  using keepsD [of "playbooks_are (lw_playbooks w)"] by blast

lemma keeps_proposals [keeps]: "keeps (playbooks_are st) (on_proposals m)"
  by (auto simp: keeps_def on_proposals_def elim!: or_throw.elims split: prod.splits)

lemma keeps_enqueue [keeps]: "keeps (playbooks_are st) (learning_enqueue is_uuid c now)"
  by (auto simp: keeps_def learning_enqueue_def elim!: or_throw.elims split: prod.splits)

lemma keeps_persist [keeps]: "keeps (playbooks_are st) (persistProposal ck d tn t p c r payload)"
  unfolding persistProposal_def [abs_def] by (intro keeps)

lemma keeps_record [keeps]: "keeps (playbooks_are st) (recordPromotionDecision ck d tn t p ev pr)"
  unfolding recordPromotionDecision_def [abs_def] by (intro keeps)

lemma keeps_mark [keeps]: "keeps (playbooks_are st) (markProposalPromoted ck d tn t p v token)"
  unfolding markProposalPromoted_def [abs_def] by (intro keeps)

lemma keeps_finish [keeps]: "keeps (playbooks_are st) (finish_promotion ck d tn t p c per token lift added v)"
  unfolding finish_promotion_def by (intro keeps)

definition claim_step ::
  "learning_checks \<Rightarrow> learning_config \<Rightarrow> learning_turn \<Rightarrow> string \<Rightarrow> learningProposalRecord option \<Rightarrow> promotionClaim option learning_effect" where
  "claim_step ck d tn t persisted =
     (case persisted of
        None \<Rightarrow> (\<lambda>w. (Inr None, w))
      | Some p \<Rightarrow>
          if lc_proposalsConfigured d
          then on_proposals (proposal_claimPromotion (lk_uuid ck) t (lp_id p)
                 \<lparr>co_leaseMs = None, co_now = None\<rparr> (lt_claimToken tn) (lt_clock tn 4))
          else (\<lambda>w. (Inr None, w)))"

lemma keeps_claim [keeps]: "keeps (playbooks_are st) (claim_step ck d tn t persisted)"
  unfolding claim_step_def by (auto intro: keeps split: option.split)

section \<open>When a version is created\<close>

text \<open>What a run that writes the playbooks has done to them: one version, by the critique's author, on top of the active one.\<close>

definition creates_version ::
  "(string \<Rightarrow> bool) \<Rightarrow> learning_turn \<Rightarrow> string \<Rightarrow> critiqueCompletedPayload \<Rightarrow> playbookType \<Rightarrow> playbooks \<Rightarrow> playbooks \<Rightarrow> bool" where
  "creates_version is_uuid tn t critique ty st st' \<longleftrightarrow>
     (\<forall>v \<in> set (playbook_listAll t ty st). pv_createdBy v \<noteq> critique_author critique) \<and>
     (\<exists>p x now. playbook_create is_uuid t p (lt_versionId tn) now now st = (x, st') \<and>
        cv_createdBy p = critique_author critique \<and> cv_playbookType p = ty \<and>
        cv_content p = fst (buildUpdatedRubricContent (map_option pv_content (playbook_getActive t ty st))
          (cr_reasons critique) (lt_clock tn 5)))"

lemma on_playbooks_run: "on_playbooks m w = (r, w') \<Longrightarrow> m (lw_playbooks w) = (r, lw_playbooks w') \<and> lw_proposals w' = lw_proposals w"
  by (auto simp: on_playbooks_def split: prod.splits)

lemma then_keeps:
  assumes "then_do m f w = (r, w')" and "\<And>a st. keeps (playbooks_are st) (f a)"
  obtains r1 w1 where "m w = (r1, w1)" "lw_playbooks w' = lw_playbooks w1"
proof (cases "m w")
  case (Pair r1 w1)
  with then_cases [OF assms(1) Pair] playbooks_kept [OF assms(2)] that [OF Pair] show thesis by metis
qed

lemma then_kept:
  assumes "then_do m f w = (r, w')" and "\<And>st. keeps (playbooks_are st) m" and "lw_playbooks w' \<noteq> lw_playbooks w"
  obtains a w1 where "m w = (Inr a, w1)" "f a w1 = (r, w')" "lw_playbooks w1 = lw_playbooks w"
proof (cases "m w")
  case (Pair r1 w1)
  with then_cases [OF assms(1) Pair] playbooks_kept [OF assms(2) Pair] assms(3) that show thesis by metis
qed

text \<open>The part of \<open>promotePlaybookChange\<close> after the claim.\<close>

definition promote_claimed ::
  "learning_checks \<Rightarrow> learning_config \<Rightarrow> learning_turn \<Rightarrow> string \<Rightarrow> playbookChangeProposal \<Rightarrow> critiqueCompletedPayload \<Rightarrow>
   playbookType \<Rightarrow> learningProposalRecord option \<Rightarrow> number \<Rightarrow> promotionClaim option \<Rightarrow>
   playbookVersionRecord option learning_effect" where
  "promote_claimed ck d tn t proposal critique ty persisted lift claim w =
     (if persisted \<noteq> None \<and> claim = None then (Inr None, w)
      else
        (case find (\<lambda>v. pv_createdBy v = critique_author critique) (playbook_listAll t ty (lw_playbooks w)) of
           Some existing \<Rightarrow>
             finish_promotion ck d tn t proposal critique persisted (map_option pc_token claim) lift 0 existing w
         | None \<Rightarrow>
             (let (content, added) = buildUpdatedRubricContent
                    (map_option pv_content (playbook_getActive t ty (lw_playbooks w))) (cr_reasons critique) (lt_clock tn 5)
              in then_do (on_playbooks (playbook_create (lk_uuid ck) t
                     (version_params ty critique content (length added) (lt_clock tn 6)) (lt_versionId tn)
                     (lt_clock tn 6) (lt_clock tn 6)))
                   (finish_promotion ck d tn t proposal critique persisted (map_option pc_token claim)
                      lift (length added)) w)))"

lemma promote_creates:
  assumes "promotePlaybookChange ck d tn t proposal critique ty persisted lift w = (r, w')"
    and "lw_playbooks w' \<noteq> lw_playbooks w"
  shows "creates_version (lk_uuid ck) tn t critique ty (lw_playbooks w) (lw_playbooks w')"
proof -
  from assms have "lc_playbooksConfigured d" by (auto simp: promotePlaybookChange_def split: if_splits)
  with assms(1) have run: "then_do (claim_step ck d tn t persisted)
        (\<lambda>claim. promote_claimed ck d tn t proposal critique ty persisted lift claim) w = (r, w')"
    unfolding promotePlaybookChange_def promote_claimed_def claim_step_def by simp
  from then_kept [OF run keeps_claim assms(2)] obtain claim w1 where
    w1: "promote_claimed ck d tn t proposal critique ty persisted lift claim w1 = (r, w')" "lw_playbooks w1 = lw_playbooks w" .
  show ?thesis
  proof (cases "find (\<lambda>v. pv_createdBy v = critique_author critique) (playbook_listAll t ty (lw_playbooks w))")
    case (Some v)
    with w1 assms(2) playbooks_kept [OF keeps_finish] show ?thesis
      by (fastforce simp: promote_claimed_def split: if_splits)
  next
    case None
    define content where "content = buildUpdatedRubricContent
      (map_option pv_content (playbook_getActive t ty (lw_playbooks w))) (cr_reasons critique) (lt_clock tn 5)"
    define params where "params = version_params ty critique (fst content) (length (snd content)) (lt_clock tn 6)"
    from None w1 assms(2) have "then_do (on_playbooks (playbook_create (lk_uuid ck) t params (lt_versionId tn)
        (lt_clock tn 6) (lt_clock tn 6))) (finish_promotion ck d tn t proposal critique persisted
          (map_option pc_token claim) lift (length (snd content))) w1 = (r, w')"
      by (auto simp: promote_claimed_def content_def params_def Let_def split: if_splits prod.splits)
    from then_keeps [OF this keeps_finish] obtain x w2 where "on_playbooks (playbook_create (lk_uuid ck) t params
        (lt_versionId tn) (lt_clock tn 6) (lt_clock tn 6)) w1 = (x, w2)" "lw_playbooks w' = lw_playbooks w2" .
    with on_playbooks_run w1(2) have "playbook_create (lk_uuid ck) t params (lt_versionId tn) (lt_clock tn 6)
        (lt_clock tn 6) (lw_playbooks w) = (x, lw_playbooks w')" by metis
    moreover have "cv_createdBy params = critique_author critique \<and> cv_playbookType params = ty \<and> cv_content params = fst content"
      by (simp add: params_def version_params_def)
    ultimately show ?thesis
      using None unfolding creates_version_def find_None_iff content_def by blast
  qed
qed

section \<open>The proposal behind a version\<close>

text \<open>
  A proposal is on file that the gate has let through: it belongs to the tenant and the key, its decision is to promote, and it is
  approved or already promoted.
\<close>

definition let_through ::
  "(string \<Rightarrow> bool) \<Rightarrow> string \<Rightarrow> learningProposalRecord \<Rightarrow> string \<Rightarrow> learning_world \<Rightarrow> bool" where
  "let_through is_uuid t k i w \<longleftrightarrow> proposals_good is_uuid (lw_proposals w) \<and>
     (\<exists>e. get_by_id (ps_records (lw_proposals w)) i = Some e \<and> lp_tenantId e = t \<and> proposal_identity e = proposal_identity k \<and>
        lp_status e \<in> {LpApproved, LpPromoted} \<and> lp_decision e = Some Promote)"

lemma on_proposals_run:
  assumes "on_proposals m w = (r, w')"
  obtains (failed) e where "r = Inl e" "w' = w"
    | (ran) a st where "m (lw_proposals w) = Inr (a, st)" "r = Inr a" "w' = w\<lparr>lw_proposals := st\<rparr>"
proof (cases "m (lw_proposals w)")
  case (Inl e)
  with assms have "r = Inl e" "w' = w" by (auto simp: on_proposals_def)
  then show thesis by (rule failed)
next
  case (Inr q)
  with assms ran show thesis by (cases q) (simp add: on_proposals_def)
qed

lemma learning_enqueue_run:
  assumes "learning_enqueue is_uuid c now w = (r, w')"
  obtains (failed) e where "r = Inl e" "w' = w"
    | (ran) e ob where "outbox_enqueue is_uuid c now (lw_outbox w) = Inr (e, ob)" "r = Inr ()"
        "w' = w\<lparr>lw_proposals := (lw_proposals w)\<lparr>ps_outbox := ob\<rparr>\<rparr>"
proof (cases "outbox_enqueue is_uuid c now (lw_outbox w)")
  case (Inl e)
  with assms have "r = Inl e" "w' = w" by (auto simp: learning_enqueue_def)
  then show thesis by (rule failed)
next
  case (Inr q)
  with assms ran show thesis by (cases q) (simp add: learning_enqueue_def)
qed

lemma enqueue_good:
  "proposals_good is_uuid st \<Longrightarrow> outbox_enqueue is_uuid c now (ps_outbox st) = Inr (e, ob) \<Longrightarrow>
     proposals_good is_uuid (st\<lparr>ps_outbox := ob\<rparr>)"
  using outbox_enqueue_inv by (auto simp: proposals_good_def)

lemma let_through_enqueue [keeps]: "keeps (let_through is_uuid t k i) (learning_enqueue is_uuid c now)"
proof (rule keepsI)
  fix w r w' assume w: "let_through is_uuid t k i w" and "learning_enqueue is_uuid c now w = (r, w')"
  from this(2) show "let_through is_uuid t k i w'"
    by (cases rule: learning_enqueue_run) (use w enqueue_good in \<open>auto simp: let_through_def\<close>)
qed

lemma let_through_save:
  assumes "let_through is_uuid t k i w" and "get_by_id (ps_records (lw_proposals w)) j = Some e"
    and "proposal_change now tok e e'" and "learningProposalRecord_ok is_uuid e'"
    and "j = i \<Longrightarrow> lp_status e' \<in> {LpApproved, LpPromoted} \<and> lp_decision e' = lp_decision e"
  shows "let_through is_uuid t k i (w\<lparr>lw_proposals := save_proposal j e' (lw_proposals w)\<rparr>)"
proof -
  have "lp_tenantId e' = lp_tenantId e \<and> proposal_identity e' = proposal_identity e"
    using proposal_change_identity [OF assms(3)] by (simp add: proposal_identity_def)
  moreover have "proposals_good is_uuid (lw_proposals w)" using assms(1) by (simp add: let_through_def)
  ultimately show ?thesis
    using assms(1,5) save_good [OF _ assms(2-4)] assms(2) by (cases "j = i") (auto simp: let_through_def)
qed

lemma let_through_claim [keeps]:
  "keeps (let_through is_uuid t k i) (on_proposals (proposal_claimPromotion is_uuid t' j opts tok clock))"
proof (rule keepsI)
  fix w r w' assume w: "let_through is_uuid t k i w" and "on_proposals (proposal_claimPromotion is_uuid t' j opts tok clock) w = (r, w')"
  from this(2) show "let_through is_uuid t k i w'"
  proof (cases rule: on_proposals_run)
    case (ran a st)
    have "proposals_good is_uuid (lw_proposals w)" using w by (simp add: let_through_def)
    from this ran(1) show ?thesis
    proof (cases rule: claim_effect)
      case (changed e e' expires)
      have "lp_status e' \<in> {LpApproved, LpPromoted} \<and> lp_decision e' = lp_decision e" by (simp add: changed(5,7))
      with let_through_save [OF w changed(1,3,4)] show ?thesis using ran(3) changed(11) by simp
    qed (use w ran in simp)
  qed (use w in simp)
qed

lemma let_through_promote [keeps]:
  "keeps (let_through is_uuid t k i) (on_proposals (proposal_markPromoted is_uuid t' j v tok now))"
proof (rule keepsI)
  fix w r w' assume w: "let_through is_uuid t k i w" and "on_proposals (proposal_markPromoted is_uuid t' j v tok now) w = (r, w')"
  from this(2) show "let_through is_uuid t k i w'"
  proof (cases rule: on_proposals_run)
    case (ran a st)
    have "proposals_good is_uuid (lw_proposals w)" using w by (simp add: let_through_def)
    from this ran(1) show ?thesis
    proof (cases rule: promote_effect)
      case (changed e e')
      have "lp_decision e' = lp_decision e" using changed(3) by cases auto
      with let_through_save [OF w changed(1,3,4)] changed(6) show ?thesis using ran(3) changed(8) by simp
    qed (use w ran in simp)
  qed (use w in simp)
qed

lemma let_through_playbooks [keeps]: "keeps (let_through is_uuid t k i) (on_playbooks m)"
proof (rule keepsI)
  fix w r w' assume "let_through is_uuid t k i w" "on_playbooks m w = (r, w')"
  then show "let_through is_uuid t k i w'" using on_playbooks_run [of m w r w'] by (simp add: let_through_def)
qed

lemma let_through_mark [keeps]: "keeps (let_through (lk_uuid ck) t k i) (markProposalPromoted ck d tn t' p v token)"
  unfolding markProposalPromoted_def [abs_def] by (intro keeps)

lemma let_through_finish [keeps]:
  "keeps (let_through (lk_uuid ck) t k i) (finish_promotion ck d tn t' p c per token lift added v)"
  unfolding finish_promotion_def by (intro keeps)

lemma let_through_claim_step [keeps]: "keeps (let_through (lk_uuid ck) t k i) (claim_step ck d tn t' persisted)"
  unfolding claim_step_def by (auto intro: keeps split: option.split)

lemma let_through_claimed [keeps]:
  "keeps (let_through (lk_uuid ck) t k i) (promote_claimed ck d tn t' proposal critique ty persisted lift claim)"
  unfolding promote_claimed_def [abs_def] Let_def split_beta by (intro keeps)

lemma promote_claims:
  "lc_playbooksConfigured d \<Longrightarrow> promotePlaybookChange ck d tn t proposal critique ty persisted lift =
     then_do (claim_step ck d tn t persisted) (promote_claimed ck d tn t proposal critique ty persisted lift)"
  by (simp add: fun_eq_iff promotePlaybookChange_def promote_claimed_def [abs_def] claim_step_def)

lemma let_through_promotion [keeps]:
  "keeps (let_through (lk_uuid ck) t k i) (promotePlaybookChange ck d tn t' proposal critique ty persisted lift)"
proof (cases "lc_playbooksConfigured d")
  case True
  show ?thesis unfolding promote_claims [OF True] by (intro keeps)
next
  case False
  then show ?thesis by (simp add: keeps_def promotePlaybookChange_def)
qed

lemma evaluation_decision:
  assumes "proposal_recordEvaluation is_uuid t i p now st = Inr (Some e, st')"
  shows "lp_decision e = Some (re_decision p)"
  using assms by (auto simp: proposal_recordEvaluation_def learningProposalRecordSchema_parse_def
      recordEvaluationParamsSchema_parse_def split: option.splits if_splits)

lemma decision_let_through:
  assumes good: "proposals_good (lk_uuid ck) (lw_proposals w)" and cfg: "lc_proposalsConfigured d"
    and p: "get_by_id (ps_records (lw_proposals w)) (lp_id p) = Some p"
    and run: "recordPromotionDecision ck d tn t (Some p) ev promotion w = (Inr True, w')"
  shows "let_through (lk_uuid ck) t p (lp_id p) w'"
proof -
  define m where "m = proposal_recordEvaluation (lk_uuid ck) t (lp_id p) (evaluation_params ev promotion) (lt_clock tn 3)"
  have run': "then_do (on_proposals m) (\<lambda>recorded w. (Inr (map_option lp_status recorded = Some LpApproved), w)) w = (Inr True, w')"
    using run cfg by (simp add: recordPromotionDecision_def m_def)
  obtain r1 w1 where m: "on_proposals m w = (r1, w1)" by (rule prod.exhaust)
  from then_cases [OF run' m] obtain x where x: "r1 = Inr x" "(Inr (map_option lp_status x = Some LpApproved), w1) = (Inr True, w')"
    by blast
  from x(2) obtain e where "x = Some e" "w1 = w'" "lp_status e = LpApproved" by (cases x) simp_all
  with x(1) have e: "r1 = Inr (Some e)" "w1 = w'" "lp_status e = LpApproved" by simp_all
  from m [unfolded e(1,2)] obtain st where st: "m (lw_proposals w) = Inr (Some e, st)" "w' = w\<lparr>lw_proposals := st\<rparr>"
    by (cases rule: on_proposals_run) simp_all
  from good st(1) [unfolded m_def] show ?thesis
  proof (cases rule: evaluate_effect)
    case (changed e0 e')
    have "e' = e" using changed(5) by simp
    have "lp_tenantId e = t \<and> proposal_identity e = proposal_identity p"
      using proposal_change_identity [OF changed(3)] changed(1,2) p \<open>e' = e\<close> by (simp add: proposal_identity_def)
    moreover have "lp_decision e = Some Promote"
      using evaluation_decision [OF st(1) [unfolded m_def]] changed(6) e(3) \<open>e' = e\<close> decision_status(1) by metis
    ultimately show ?thesis
      using save_good [OF good changed(1,3,4)] e(3) \<open>e' = e\<close> by (simp add: let_through_def st(2) changed(7))
  qed simp
qed

section \<open>Runs\<close>

text \<open>The two kinds of events that the worker's consumers hand to it.\<close>

datatype learning_job = CritiqueJob json | ApprovedJob string

definition learning_run ::
  "learning_checks \<Rightarrow> learning_config \<Rightarrow> learning_turn \<Rightarrow> string \<Rightarrow> learning_job \<Rightarrow> playbookVersionRecord option learning_effect" where
  "learning_run ck d tn t job =
     (case job of
        CritiqueJob raw \<Rightarrow> processFromCritique ck d tn t raw
      | ApprovedJob i \<Rightarrow> processApprovedProposal ck d tn t i)"

text \<open>
  What a job is about: the critique, the change it proposes and the record on file. For a critique
  event they come from the event: its body parses to the critique, which does not approve the artifact,
  the playbook type is the one of the artifact's kind, and the record is the one under the key
  \<open>critique:\<close> and the critique's id. For an approved proposal the record is the one that
  the event names, and critique and change are the ones stored in its payload.
\<close>

definition job_concerns ::
  "learning_checks \<Rightarrow> string \<Rightarrow> learning_job \<Rightarrow> critiqueCompletedPayload \<Rightarrow> playbookChangeProposal \<Rightarrow>
   learningProposalRecord \<Rightarrow> bool" where
  "job_concerns ck t job critique proposal e \<longleftrightarrow>
     pp_tenantId proposal = t \<and>
     (case job of
        CritiqueJob raw \<Rightarrow>
          critiqueCompletedPayloadSchema_parse (lk_uuid ck) (lk_datetime ck) raw = Inr critique \<and>
          cr_verdict critique \<noteq> CritiqueApprove \<and>
          resolvePlaybookType (cr_artifact_kind critique) = Some (pp_playbookType proposal) \<and>
          pp_proposalId proposal = ''critique:'' @ cr_critique_id critique \<and>
          pp_artifactKind proposal = cr_artifact_kind critique \<and> pp_artifactId proposal = cr_artifact_id critique \<and>
          pp_verdict proposal = cr_verdict critique \<and>
          lp_proposalKey e = trim (''critique:'' @ cr_critique_id critique)
      | ApprovedJob i \<Rightarrow>
          lp_id e = i \<and>
          (\<exists>stored. object_of (zparse (persistedCritiqueProposalPayloadSchema (lk_uuid ck) (lk_datetime ck))
               (JObj (lp_proposalPayload e))) = Inr stored \<and>
             critiqueCompletedPayloadSchema_parse (lk_uuid ck) (lk_datetime ck) (JObj (stored_critique stored)) = Inr critique \<and>
             proposal = stored_proposal t stored))"

lemma gated_promotion:
  assumes "evaluate_and_promote ck d tn provider t proposal critique ty persisted w = (r, w')"
    and "lw_playbooks w' \<noteq> lw_playbooks w"
  obtains ev promotion where "provider w proposal = Inr (Some ev)" "evaluateLearningProposal ev (lc_policy d) = Inr promotion"
    "ld_decision promotion = Promote" "creates_version (lk_uuid ck) tn t critique ty (lw_playbooks w) (lw_playbooks w')"
    "\<And>p. persisted = Some p \<Longrightarrow> lc_proposalsConfigured d \<Longrightarrow> proposals_good (lk_uuid ck) (lw_proposals w) \<Longrightarrow>
       get_by_id (ps_records (lw_proposals w)) (lp_id p) = Some p \<Longrightarrow>
       let_through (lk_uuid ck) t p (lp_id p) w'"
proof -
  from assms obtain ev where ev: "provider w proposal = Inr (Some ev)"
    by (cases "provider w proposal") (auto simp: evaluate_and_promote_def split: option.splits)
  from assms ev obtain promotion where pr: "evaluateLearningProposal ev (lc_policy d) = Inr promotion"
    by (cases "evaluateLearningProposal ev (lc_policy d)") (auto simp: evaluate_and_promote_def)
  from assms(1) ev pr have "then_do (recordPromotionDecision ck d tn t persisted ev promotion)
      (\<lambda>eligible w. if \<not> eligible then (Inr None, w)
         else if ld_decision promotion \<noteq> Promote then (Inr None, w)
         else promotePlaybookChange ck d tn t proposal critique ty persisted (ld_relativeLift promotion) w) w = (r, w')"
    by (simp add: evaluate_and_promote_def)
  from then_kept [OF this keeps_record assms(2)] obtain a w1 where
    w1: "recordPromotionDecision ck d tn t persisted ev promotion w = (Inr a, w1)" "lw_playbooks w1 = lw_playbooks w"
      "(if \<not> a then (Inr None, w1) else if ld_decision promotion \<noteq> Promote then (Inr None, w1)
        else promotePlaybookChange ck d tn t proposal critique ty persisted (ld_relativeLift promotion) w1) = (r, w')" .
  with assms(2) have a: "a" "ld_decision promotion = Promote"
      "promotePlaybookChange ck d tn t proposal critique ty persisted (ld_relativeLift promotion) w1 = (r, w')"
    by (auto split: if_splits)
  have "lw_playbooks w' \<noteq> lw_playbooks w1" using assms(2) w1(2) by simp
  from promote_creates [OF a(3) this] w1(2)
  have created: "creates_version (lk_uuid ck) tn t critique ty (lw_playbooks w) (lw_playbooks w')" by simp
  show thesis
  proof (rule that [OF ev pr a(2) created])
    fix p assume p: "persisted = Some p" "lc_proposalsConfigured d" "proposals_good (lk_uuid ck) (lw_proposals w)"
      "get_by_id (ps_records (lw_proposals w)) (lp_id p) = Some p"
    have "let_through (lk_uuid ck) t p (lp_id p) w1"
      using decision_let_through [OF p(3,2,4)] w1(1) a(1) p(1) by simp
    with keepsD [OF let_through_promotion a(3)] show "let_through (lk_uuid ck) t p (lp_id p) w'" by blast
  qed
qed

lemma critique_run:
  assumes "processFromCritique ck d tn t raw w = (r, w')" and "lw_playbooks w' \<noteq> lw_playbooks w"
  obtains critique ty provider persisted payload w1 wm where
    "critiqueCompletedPayloadSchema_parse (lk_uuid ck) (lk_datetime ck) raw = Inr critique"
    "cr_verdict critique \<noteq> CritiqueApprove"
    "resolvePlaybookType (cr_artifact_kind critique) = Some ty" "lc_evidence d = Some provider"
    "persistProposal ck d tn t (change_of t ty critique) critique (nullish_or (cr_change_risk critique) RiskHigh) payload w =
       (Inr persisted, w1)"
    "learning_enqueue (lk_uuid ck) (proposed_command t critique payload persisted) (lt_clock tn 2) w1 = (Inr (), wm)"
    "lw_playbooks wm = lw_playbooks w"
    "evaluate_and_promote ck d tn provider t (change_of t ty critique) critique ty persisted wm = (r, w')"
proof -
  from assms obtain critique where c: "critiqueCompletedPayloadSchema_parse (lk_uuid ck) (lk_datetime ck) raw = Inr critique"
    by (cases "critiqueCompletedPayloadSchema_parse (lk_uuid ck) (lk_datetime ck) raw") (auto simp: processFromCritique_def)
  from assms c obtain ty where ty: "cr_verdict critique \<noteq> CritiqueApprove" "resolvePlaybookType (cr_artifact_kind critique) = Some ty"
    by (auto simp: processFromCritique_def split: option.splits if_splits)
  define change where "change = change_of t ty critique"
  define risk where "risk = nullish_or (cr_change_risk critique) RiskHigh"
  define payload where "payload = proposed_payload t change critique risk (lt_clock tn 0)"
  from assms(1) c ty have run: "then_do (persistProposal ck d tn t change critique risk payload)
      (\<lambda>persisted. then_do (learning_enqueue (lk_uuid ck) (proposed_command t critique payload persisted) (lt_clock tn 2))
        (\<lambda>_ w. if \<not> lc_playbooksConfigured d then (Inr None, w)
               else case lc_evidence d of
                 None \<Rightarrow> (Inr None, w)
               | Some provider \<Rightarrow> evaluate_and_promote ck d tn provider t change critique ty persisted w)) w = (r, w')"
    unfolding change_def risk_def payload_def by (simp add: processFromCritique_def Let_def)
  from then_kept [OF run keeps_persist assms(2)] obtain persisted w1 where
    w1: "persistProposal ck d tn t change critique risk payload w = (Inr persisted, w1)" "lw_playbooks w1 = lw_playbooks w"
      "then_do (learning_enqueue (lk_uuid ck) (proposed_command t critique payload persisted) (lt_clock tn 2))
        (\<lambda>_ w. if \<not> lc_playbooksConfigured d then (Inr None, w)
               else case lc_evidence d of
                 None \<Rightarrow> (Inr None, w)
               | Some provider \<Rightarrow> evaluate_and_promote ck d tn provider t change critique ty persisted w) w1 = (r, w')" .
  have "lw_playbooks w' \<noteq> lw_playbooks w1" using assms(2) w1(2) by simp
  from then_kept [OF w1(3) keeps_enqueue this] obtain u wm where
    wm: "learning_enqueue (lk_uuid ck) (proposed_command t critique payload persisted) (lt_clock tn 2) w1 = (Inr u, wm)"
      "lw_playbooks wm = lw_playbooks w1"
      "(if \<not> lc_playbooksConfigured d then (Inr None, wm)
        else case lc_evidence d of
          None \<Rightarrow> (Inr None, wm)
        | Some provider \<Rightarrow> evaluate_and_promote ck d tn provider t change critique ty persisted wm) = (r, w')" .
  with assms(2) w1(2) obtain provider where e: "lc_evidence d = Some provider"
      "evaluate_and_promote ck d tn provider t change critique ty persisted wm = (r, w')"
    by (auto split: if_splits option.splits)
  show thesis
    using that [OF c ty e(1) w1(1) [unfolded risk_def change_def] _ _ e(2) [unfolded change_def]] wm(1,2) w1(2) by simp
qed

lemma persisted_on_file:
  assumes run: "persistProposal ck d tn t proposal critique risk payload w = (Inr persisted, w1)"
    and cfg: "lc_proposalsConfigured d" and good: "proposals_good (lk_uuid ck) (lw_proposals w)"
    and fresh: "get_by_id (ps_records (lw_proposals w)) (lt_proposalId tn) = None"
  shows "\<exists>p. persisted = Some p \<and> proposals_good (lk_uuid ck) (lw_proposals w1) \<and>
    get_by_id (ps_records (lw_proposals w1)) (lp_id p) = Some p \<and> lp_proposalKey p = trim (pp_proposalId proposal)"
proof -
  define m where "m = proposal_create (lk_uuid ck) t (persist_params proposal critique risk payload) (lt_proposalId tn) (lt_clock tn 1)"
  have run': "then_do (on_proposals m) (\<lambda>r w. (Inr (Some r), w)) w = (Inr persisted, w1)"
    using run cfg by (simp add: persistProposal_def m_def)
  obtain r1 w2 where m: "on_proposals m w = (r1, w2)" by (rule prod.exhaust)
  with then_cases [OF run' m] obtain p where p: "persisted = Some p" "on_proposals m w = (Inr p, w1)" by auto
  from p(2) obtain st where st: "m (lw_proposals w) = Inr (p, st)" "w1 = w\<lparr>lw_proposals := st\<rparr>"
    by (cases rule: on_proposals_run) simp_all
  have good': "proposals_good (lk_uuid ck) st"
    by (rule create_proposal_good [OF st(1) [unfolded m_def] fresh good])
  have "find_existing (ps_records st) (proposal_key t (trim (pp_proposalId proposal))) = Some p"
    using st(1) [unfolded m_def]
  proof (cases rule: create_proposal_effect)
    case created
    have "lt_proposalId tn \<noteq> []" using created(2,3) proposals_goodD(1) [OF good]
      by (auto simp: proposal_good_def learningProposalRecord_ok_def dest: uuid_format_nonempty)
    with created(4,6) show ?thesis by (simp add: persist_params_def)
  qed (simp add: persist_params_def)
  with find_existing_Some [OF proposals_goodD(2) [OF good']]
  have filed: "get_by_id (ps_records st) (lp_id p) = Some p" "lp_key p = proposal_key t (trim (pp_proposalId proposal))"
    by auto
  have "lk_uuid ck (lp_tenantId p)" using good_proposal(1) [OF good' filed(1)] by (simp add: learningProposalRecord_ok_def)
  moreover have "lk_uuid ck t"
    using st(1) by (cases "lk_uuid ck t") (simp_all add: m_def proposal_create_def tenantIdSchema_parse_def zod_parse_def)
  ultimately have "CHR '':'' \<notin> set (lp_tenantId p)" "CHR '':'' \<notin> set t"
    using uuid_format_no_colon [OF proposals_goodD(1) [OF good]] by blast+
  from colon_key_inject [OF this] filed(2) have "lp_proposalKey p = trim (pp_proposalId proposal)"
    unfolding proposal_key_def by blast
  with p(1) good' filed(1) st(2) show ?thesis by simp
qed

lemma throw_cases:
  "or_throw x w f = (r, w') \<Longrightarrow> (\<exists>e. r = Inl e) \<and> w' = w \<or> (\<exists>a. x = Inr a \<and> f a = (r, w'))"
  by (cases x) auto

text \<open>A run for an approved proposal ends early or evaluates the proposal on file.\<close>

lemma approved_run:
  assumes "processApprovedProposal ck d tn t i w = (r, w')"
  obtains (early) "r = Inr None \<or> (\<exists>e. r = Inl e)" "w' = w"
    | (evaluated) provider p proposal critique where "lc_evidence d = Some provider" "lc_proposalsConfigured d"
        "get_by_id (ps_records (lw_proposals w)) i = Some p"
        "evaluate_and_promote ck d tn provider t proposal critique (pp_playbookType proposal) (Some p) w = (r, w')"
        "\<exists>stored. object_of (zparse (persistedCritiqueProposalPayloadSchema (lk_uuid ck) (lk_datetime ck))
             (JObj (lp_proposalPayload p))) = Inr stored \<and>
           critiqueCompletedPayloadSchema_parse (lk_uuid ck) (lk_datetime ck) (JObj (stored_critique stored)) = Inr critique \<and>
           proposal = stored_proposal t stored"
proof (cases "\<exists>provider. lc_evidence d = Some provider \<and> lc_proposalsConfigured d \<and> lc_playbooksConfigured d")
  case True
  then obtain provider where e: "lc_evidence d = Some provider" "lc_proposalsConfigured d" "lc_playbooksConfigured d" by blast
  define stored where "stored p = object_of (zparse (persistedCritiqueProposalPayloadSchema (lk_uuid ck) (lk_datetime ck))
    (JObj (lp_proposalPayload p)))" for p :: learningProposalRecord
  define critique where "critique s = critiqueCompletedPayloadSchema_parse (lk_uuid ck) (lk_datetime ck) (JObj (stored_critique s))" for s
  have run: "or_throw (proposal_getById (lk_uuid ck) t i (lw_proposals w)) w (\<lambda>found.
      case found of None \<Rightarrow> (Inr None, w)
      | Some p \<Rightarrow> if lp_status p \<noteq> LpApproved then (Inr None, w)
          else or_throw (stored p) w (\<lambda>s. or_throw (critique s) w (\<lambda>c.
            evaluate_and_promote ck d tn provider t (stored_proposal t s) c (pp_playbookType (stored_proposal t s)) (Some p) w))) = (r, w')"
    using assms(1) e unfolding processApprovedProposal_def stored_def critique_def by simp
  from throw_cases [OF run] consider "\<exists>e. r = Inl e" "w' = w" | "r = Inr None" "w' = w"
    | p where "proposal_getById (lk_uuid ck) t i (lw_proposals w) = Inr (Some p)" "or_throw (stored p) w (\<lambda>s. or_throw (critique s) w (\<lambda>c.
            evaluate_and_promote ck d tn provider t (stored_proposal t s) c (pp_playbookType (stored_proposal t s)) (Some p) w)) = (r, w')"
    by (auto split: option.splits if_splits)
  then show thesis
  proof cases
    case (3 p)
    have filed: "get_by_id (ps_records (lw_proposals w)) i = Some p"
      using 3(1) by (cases "lk_uuid ck t")
        (auto simp: proposal_getById_def tenantIdSchema_parse_def zod_parse_def findScopedRecord_Some)
    from throw_cases [OF 3(2)] show thesis
    proof (elim disjE exE conjE)
      fix s assume s: "stored p = Inr s" and "or_throw (critique s) w (\<lambda>c. evaluate_and_promote ck d tn provider t (stored_proposal t s) c
        (pp_playbookType (stored_proposal t s)) (Some p) w) = (r, w')"
      from throw_cases [OF this(2)] show thesis
      proof (elim disjE exE conjE)
        fix c assume c: "critique s = Inr c" and run: "evaluate_and_promote ck d tn provider t (stored_proposal t s) c
          (pp_playbookType (stored_proposal t s)) (Some p) w = (r, w')"
        from s [unfolded stored_def] c [unfolded critique_def] show thesis
          by (intro evaluated [OF e(1,2) filed run] exI [of _ s] conjI refl)
      qed (use early in blast)
    qed (use early in blast)
  qed (use early in blast)+
next
  case False
  with assms early show thesis by (auto simp: processApprovedProposal_def split: option.splits if_splits)
qed

lemma versions_written:
  assumes "creates_version is_uuid tn t critique ty st st'" and "pb_records st' \<noteq> pb_records st"
  obtains v now where "pb_records st' = AList.update (pv_id v) v (pb_records st)" "pv_tenantId v = t" "pv_playbookType v = ty"
    "pv_createdBy v = critique_author critique" "pv_id v = lt_versionId tn" "pv_retiredAt v = None"
    "\<forall>u \<in> set (playbook_listAll t ty st). pv_createdBy u \<noteq> pv_createdBy v"
    "pv_content v = fst (buildUpdatedRubricContent (map_option pv_content (playbook_getActive t ty st)) (cr_reasons critique) now)"
proof -
  from assms(1) obtain p x now where c: "playbook_create is_uuid t p (lt_versionId tn) now now st = (x, st')"
      "cv_createdBy p = critique_author critique" "cv_playbookType p = ty"
      "cv_content p = fst (buildUpdatedRubricContent (map_option pv_content (playbook_getActive t ty st)) (cr_reasons critique) (lt_clock tn 5))"
      "\<forall>u \<in> set (playbook_listAll t ty st). pv_createdBy u \<noteq> critique_author critique"
    unfolding creates_version_def by blast
  from c(1) show thesis
  proof (cases rule: playbook_create_cases)
    case (created r)
    then show ?thesis using that [of r "lt_clock tn 5"] c(2-5) by simp
  qed (use assms(2) in simp)
qed

lemma job_run:
  assumes "proposals_good (lk_uuid ck) (lw_proposals w)" and "lc_proposalsConfigured d"
    and "get_by_id (ps_records (lw_proposals w)) (lt_proposalId tn) = None"
    and "learning_run ck d tn t job w = (r, w')" and changed: "lw_playbooks w' \<noteq> lw_playbooks w"
  shows "\<exists>provider wm proposal critique p. lc_evidence d = Some provider \<and> lw_playbooks wm = lw_playbooks w \<and>
      evaluate_and_promote ck d tn provider t proposal critique (pp_playbookType proposal) (Some p) wm = (r, w') \<and>
      proposals_good (lk_uuid ck) (lw_proposals wm) \<and> get_by_id (ps_records (lw_proposals wm)) (lp_id p) = Some p \<and>
      (\<forall>e. proposal_identity e = proposal_identity p \<longrightarrow> job_concerns ck t job critique proposal e)"
proof (cases job)
  case (CritiqueJob raw)
  with assms(4) have "processFromCritique ck d tn t raw w = (r, w')" by (simp add: learning_run_def)
  from this changed show ?thesis
  proof (cases rule: critique_run)
    case (1 critique ty provider persisted payload w1 wm)
    define change where "change = change_of t ty critique"
    from persisted_on_file [OF 1(5) assms(2,1,3)] obtain p where p: "persisted = Some p"
        "proposals_good (lk_uuid ck) (lw_proposals w1)" "get_by_id (ps_records (lw_proposals w1)) (lp_id p) = Some p"
        "lp_proposalKey p = trim (pp_proposalId change)" unfolding change_def by blast
    have "proposals_good (lk_uuid ck) (lw_proposals wm) \<and> ps_records (lw_proposals wm) = ps_records (lw_proposals w1)"
      using 1(6) by (cases rule: learning_enqueue_run) (use p(2) enqueue_good in auto)
    moreover have change: "pp_playbookType change = ty" "pp_tenantId change = t"
        "pp_proposalId change = ''critique:'' @ cr_critique_id critique" "pp_artifactKind change = cr_artifact_kind critique"
        "pp_artifactId change = cr_artifact_id critique" "pp_verdict change = cr_verdict critique"
      by (simp_all add: change_def change_of_def critique_author_def)
    moreover have "job_concerns ck t job critique change e" if "proposal_identity e = proposal_identity p" for e
    proof -
      from that have "lp_proposalKey e = lp_proposalKey p" by (simp add: proposal_identity_def)
      with p(4) change 1(1-3) show ?thesis by (simp add: job_concerns_def CritiqueJob)
    qed
    ultimately show ?thesis
      using 1(4,7) 1(8) [folded change_def] p(1,3)
      by (intro exI [of _ provider] exI [of _ wm] exI [of _ change] exI [of _ critique] exI [of _ p]) simp
  qed
next
  case (ApprovedJob i)
  with assms(4) have "processApprovedProposal ck d tn t i w = (r, w')" by (simp add: learning_run_def)
  then show ?thesis
  proof (cases rule: approved_run)
    case (evaluated provider p proposal critique)
    have i: "lp_id p = i" using good_proposal(3) [OF assms(1) evaluated(3)] .
    have "job_concerns ck t job critique proposal e" if "proposal_identity e = proposal_identity p" for e
    proof -
      from that i have same: "lp_id e = i" "lp_proposalPayload e = lp_proposalPayload p" by (simp_all add: proposal_identity_def)
      have "pp_tenantId proposal = t" using evaluated(5) by (auto simp: stored_proposal_def)
      with evaluated(5) show ?thesis by (simp add: job_concerns_def ApprovedJob same)
    qed
    with evaluated(1,3,4) assms(1) i show ?thesis
      by (intro exI [of _ provider] exI [of _ w] exI [of _ proposal] exI [of _ critique] exI [of _ p]) simp
  qed (use changed in simp)
qed

text \<open>
  C27. No playbook version without a passed gate: when a run of the worker, for a critique or for an approved proposal, writes the
  playbooks, the evidence provider, asked about the change the job is about, returned an evaluation that the gate decides to promote
  under the worker's policy, the proposal the job is about is on file for the tenant with that decision, approved or already
  promoted, and exactly one version has been added: the first by its author for its type, named after the critique, with the
  rubric of the active version extended by that critique's reasons. For a critique event that proposal is the one filed under
  \<open>critique:\<close> followed by the id of the critique in the event, so critiques whose ids differ (beyond surrounding blanks)
  are about different proposals; for an approved proposal it is the one the event names, and change and critique are those of its payload.
\<close>

theorem playbook_versions_are_gated:
  assumes "proposals_good (lk_uuid ck) (lw_proposals w)" and "lc_proposalsConfigured d"
    and "get_by_id (ps_records (lw_proposals w)) (lt_proposalId tn) = None"
    and "learning_run ck d tn t job w = (r, w')" and "pb_records (lw_playbooks w') \<noteq> pb_records (lw_playbooks w)"
  shows "\<exists>provider wm critique proposal ev promotion e v now.
    lc_evidence d = Some provider \<and> provider wm proposal = Inr (Some ev) \<and>
    evaluateLearningProposal ev (lc_policy d) = Inr promotion \<and> ld_decision promotion = Promote \<and>
    get_by_id (ps_records (lw_proposals w')) (lp_id e) = Some e \<and> lp_tenantId e = t \<and>
    job_concerns ck t job critique proposal e \<and>
    lp_status e \<in> {LpApproved, LpPromoted} \<and> lp_decision e = Some Promote \<and>
    pb_records (lw_playbooks w') = AList.update (pv_id v) v (pb_records (lw_playbooks w)) \<and>
    pv_tenantId v = t \<and> pv_playbookType v = pp_playbookType proposal \<and> pv_retiredAt v = None \<and>
    pv_createdBy v = ''critique:'' @ cr_critique_id critique \<and>
    (\<forall>u \<in> set (playbook_listAll t (pv_playbookType v) (lw_playbooks w)). pv_createdBy u \<noteq> pv_createdBy v) \<and>
    pv_content v = fst (buildUpdatedRubricContent
      (map_option pv_content (playbook_getActive t (pv_playbookType v) (lw_playbooks w))) (cr_reasons critique) now)"
proof -
  from assms(5) have changed: "lw_playbooks w' \<noteq> lw_playbooks w" by auto
  from job_run [OF assms(1-4) changed]
  obtain provider wm proposal critique p where run: "lc_evidence d = Some provider" "lw_playbooks wm = lw_playbooks w"
      "evaluate_and_promote ck d tn provider t proposal critique (pp_playbookType proposal) (Some p) wm = (r, w')"
      "proposals_good (lk_uuid ck) (lw_proposals wm)" "get_by_id (ps_records (lw_proposals wm)) (lp_id p) = Some p"
      "\<forall>e. proposal_identity e = proposal_identity p \<longrightarrow> job_concerns ck t job critique proposal e"
    by blast
  have "lw_playbooks w' \<noteq> lw_playbooks wm" using changed run(2) by simp
  from gated_promotion [OF run(3) this] obtain ev promotion where gate: "provider wm proposal = Inr (Some ev)"
      "evaluateLearningProposal ev (lc_policy d) = Inr promotion" "ld_decision promotion = Promote"
      "creates_version (lk_uuid ck) tn t critique (pp_playbookType proposal) (lw_playbooks w) (lw_playbooks w')"
      "let_through (lk_uuid ck) t p (lp_id p) w'"
    using assms(2) run(2,4,5) by auto
  from gate(5) obtain e where e: "get_by_id (ps_records (lw_proposals w')) (lp_id e) = Some e" "lp_tenantId e = t"
      "job_concerns ck t job critique proposal e" "lp_status e \<in> {LpApproved, LpPromoted}" "lp_decision e = Some Promote"
    using run(6) good_proposal(3) unfolding let_through_def by metis
  from gate(4) assms(5) show ?thesis
  proof (cases rule: versions_written)
    case (1 v now)
    have author: "pv_createdBy v = ''critique:'' @ cr_critique_id critique" using 1(4) by (simp add: critique_author_def)
    show ?thesis
      by (rule exI [of _ provider], rule exI [of _ wm], rule exI [of _ critique], rule exI [of _ proposal], rule exI [of _ ev],
          rule exI [of _ promotion], rule exI [of _ e], rule exI [of _ v], rule exI [of _ now])
        (unfold 1(3), intro conjI refl run(1) gate(1-3) e 1 author)
  qed
qed

definition example_critique :: json where
  "example_critique = JObj
     [(''critique_id'', JStr ''c''), (''source'', JStr ''s''), (''artifact_kind'', JStr ''custom''), (''artifact_id'', JStr ''a''),
      (''prompt_version'', JStr ''p''), (''verdict'', JStr ''revise''), (''confidence_score'', JNum 1),
      (''reasons'', JArr [JStr ''r'']), (''critiqued_at'', JStr ''d'')]"

definition learner_checks :: learning_checks where
  "learner_checks = \<lparr>lk_uuid = hex_id, lk_datetime = (\<lambda>_. True)\<rparr>"

definition example_learning :: learning_config where
  "example_learning =
     \<lparr>lc_proposalsConfigured = True, lc_playbooksConfigured = True, lc_evidence = Some (\<lambda>_ _. Inr (Some example_evaluation)),
      lc_policy = default_rawLearningPolicy\<rparr>"

definition learner_turn :: learning_turn where
  "learner_turn = \<lparr>lt_clock = (\<lambda>_. 5), lt_proposalId = ''1a'', lt_claimToken = ''c1'', lt_versionId = ''d1''\<rparr>"

definition empty_world :: learning_world where
  "empty_world = \<lparr>lw_proposals = empty_proposals, lw_playbooks = empty_playbooks\<rparr>"

definition example_run :: "(js_error + playbookVersionRecord option) \<times> learning_world" where
  "example_run = learning_run learner_checks example_learning learner_turn ''aa'' (CritiqueJob example_critique) empty_world"

lemma example_run_versions: "map fst (pb_records (lw_playbooks (snd example_run))) = [''d1'']"
  by code_simp

lemma example_run_result: "example_run = (fst example_run, snd example_run)"
  by simp

theorem playbook_versions_are_gated_witness:
  "\<exists>e v. get_by_id (ps_records (lw_proposals (snd example_run))) (lp_id e) = Some e \<and> lp_decision e = Some Promote \<and>
     pb_records (lw_playbooks (snd example_run)) = [(pv_id v, v)] \<and> pv_tenantId v = ''aa''"
proof -
  have good: "proposals_good (lk_uuid learner_checks) (lw_proposals empty_world)"
    using proposals_good_empty [OF uuid_format_hex_id] by (simp add: learner_checks_def empty_world_def)
  have cfg: "lc_proposalsConfigured example_learning" by (simp add: example_learning_def)
  have fresh: "get_by_id (ps_records (lw_proposals empty_world)) (lt_proposalId learner_turn) = None"
    by (simp add: empty_world_def empty_proposals_def empty_store_def)
  have none: "pb_records (lw_playbooks empty_world) = []" by (simp add: empty_world_def empty_playbooks_def)
  with example_run_versions have "pb_records (lw_playbooks (snd example_run)) \<noteq> pb_records (lw_playbooks empty_world)" by auto
  from playbook_versions_are_gated [OF good cfg fresh example_run_result [unfolded example_run_def] this [unfolded example_run_def],
      folded example_run_def, unfolded none]
  show ?thesis by auto
qed

section \<open>One version per critique\<close>

text \<open>
  Everything that happens to the stores the worker shares: its own runs, versions retired by a founder, and any work of others on the
  proposals.
\<close>

inductive learning_step :: "(string \<Rightarrow> bool) \<Rightarrow> learning_world \<Rightarrow> learning_world \<Rightarrow> bool" for is_uuid where
  lr_run: "learning_run ck d tn t job w = (r, w') \<Longrightarrow> lk_uuid ck = is_uuid \<Longrightarrow>
    map_of (pb_records (lw_playbooks w)) (lt_versionId tn) = None \<Longrightarrow> learning_step is_uuid w w'"
| lr_retire: "learning_step is_uuid w (w\<lparr>lw_playbooks := playbook_retire t i now (lw_playbooks w)\<rparr>)"
| lr_proposals: "learning_step is_uuid w (w\<lparr>lw_proposals := st\<rparr>)"

text \<open>No two versions of a tenant and type have the same author.\<close>

definition one_version :: "playbooks \<Rightarrow> bool" where
  "one_version st \<longleftrightarrow>
     (\<forall>i j r s. map_of (pb_records st) i = Some r \<and> map_of (pb_records st) j = Some s \<and> pv_tenantId r = pv_tenantId s \<and>
        pv_playbookType r = pv_playbookType s \<and> pv_createdBy r = pv_createdBy s \<longrightarrow> i = j)"

lemma one_versionD:
  "one_version st \<Longrightarrow> map_of (pb_records st) i = Some r \<Longrightarrow> map_of (pb_records st) j = Some s \<Longrightarrow>
     pv_tenantId r = pv_tenantId s \<Longrightarrow> pv_playbookType r = pv_playbookType s \<Longrightarrow> pv_createdBy r = pv_createdBy s \<Longrightarrow> i = j"
  unfolding one_version_def by blast

lemma one_versionI:
  "(\<And>i j r s. map_of (pb_records st) i = Some r \<Longrightarrow> map_of (pb_records st) j = Some s \<Longrightarrow>
     pv_tenantId r = pv_tenantId s \<Longrightarrow> pv_playbookType r = pv_playbookType s \<Longrightarrow> pv_createdBy r = pv_createdBy s \<Longrightarrow> i = j) \<Longrightarrow>
   one_version st"
  unfolding one_version_def by blast

lemma one_version_retire:
  assumes "one_version st"
  shows "one_version (playbook_retire t i now st)"
proof (rule one_versionI)
  fix a b r s assume ab: "map_of (pb_records (playbook_retire t i now st)) a = Some r"
    "map_of (pb_records (playbook_retire t i now st)) b = Some s" "pv_tenantId r = pv_tenantId s"
    "pv_playbookType r = pv_playbookType s" "pv_createdBy r = pv_createdBy s"
  have old: "\<exists>u'. map_of (pb_records st) c = Some u' \<and> pv_tenantId u = pv_tenantId u' \<and> pv_playbookType u = pv_playbookType u' \<and>
      pv_createdBy u = pv_createdBy u'" if "map_of (pb_records (playbook_retire t i now st)) c = Some u" for c u
    using that unfolding playbook_retire_lookup by (auto split: option.splits if_splits)
  from old [OF ab(1)] old [OF ab(2)] ab(3-5) obtain r' s' where "map_of (pb_records st) a = Some r'"
    "map_of (pb_records st) b = Some s'" "pv_tenantId r' = pv_tenantId s'" "pv_playbookType r' = pv_playbookType s'"
    "pv_createdBy r' = pv_createdBy s'" by auto
  from one_versionD [OF assms this] show "a = b" .
qed

lemma listed_versions:
  assumes "playbooks_inv is_uuid st" and "map_of (pb_records st) i = Some r"
  shows "r \<in> set (playbook_listAll (pv_tenantId r) (pv_playbookType r) st)"
proof -
  have "map_of (pb_records st) (pv_id r) = Some r" using playbooks_invD(2) [OF assms] assms(2) by simp
  with records_filed [OF assms(1)] show ?thesis by (auto simp: playbook_listAll_def)
qed

lemma job_creates:
  assumes "learning_run ck d tn t job w = (r, w')" and "lw_playbooks w' \<noteq> lw_playbooks w"
  obtains critique ty where "creates_version (lk_uuid ck) tn t critique ty (lw_playbooks w) (lw_playbooks w')"
proof (cases job)
  case (CritiqueJob raw)
  with assms(1) have "processFromCritique ck d tn t raw w = (r, w')" by (simp add: learning_run_def)
  from this assms(2) show thesis
  proof (cases rule: critique_run)
    case (1 critique ty provider persisted payload w1 wm)
    have "lw_playbooks w' \<noteq> lw_playbooks wm" using assms(2) 1(7) by simp
    from gated_promotion [OF 1(8) this] that 1(7) show thesis by metis
  qed
next
  case (ApprovedJob i)
  with assms(1) have "processApprovedProposal ck d tn t i w = (r, w')" by (simp add: learning_run_def)
  then show thesis
  proof (cases rule: approved_run)
    case (evaluated provider p proposal critique)
    from gated_promotion [OF evaluated(4) assms(2)] that show thesis by metis
  qed (use assms(2) in simp)
qed

lemma one_version_create:
  assumes inv: "playbooks_inv is_uuid st" and one: "one_version st" and created: "creates_version is_uuid tn t critique ty st st'"
    and fresh: "map_of (pb_records st) (lt_versionId tn) = None"
  shows "playbooks_inv is_uuid st' \<and> one_version st'"
proof (rule conjI)
  from created obtain p x now where c: "playbook_create is_uuid t p (lt_versionId tn) now now st = (x, st')"
    unfolding creates_version_def by blast
  from playbook_create_inv [OF inv c fresh] show "playbooks_inv is_uuid st'" .
  show "one_version st'"
  proof (cases "pb_records st' = pb_records st")
    case True
    show ?thesis using one unfolding one_version_def True .
  next
    case False
    from created this show ?thesis
    proof (cases rule: versions_written)
      case (1 v now)
      have other: "pv_createdBy r \<noteq> pv_createdBy v"
        if "map_of (pb_records st) i = Some r" "pv_tenantId r = pv_tenantId v" "pv_playbookType r = pv_playbookType v" for i r
        using listed_versions [OF inv that(1)] 1(7) unfolding that(2,3) 1(2,3) by blast
      show ?thesis
      proof (rule one_versionI)
        fix i j r s assume ij: "map_of (pb_records st') i = Some r" "map_of (pb_records st') j = Some s" "pv_tenantId r = pv_tenantId s"
          "pv_playbookType r = pv_playbookType s" "pv_createdBy r = pv_createdBy s"
        have filed: "c = pv_id v \<and> u = v \<or> c \<noteq> pv_id v \<and> map_of (pb_records st) c = Some u"
          if "map_of (pb_records st') c = Some u" for c u
          using that unfolding 1(1) update_conv by (auto split: if_splits)
        from filed [OF ij(1)] filed [OF ij(2)] show "i = j"
        proof (elim disjE conjE)
          assume "i = pv_id v" "r = v" "map_of (pb_records st) j = Some s"
          with other [of j s] ij(3-5) show ?thesis by simp
        next
          assume "j = pv_id v" "s = v" "map_of (pb_records st) i = Some r"
          with other [of i r] ij(3-5) show ?thesis by simp
        next
          assume "map_of (pb_records st) i = Some r" "map_of (pb_records st) j = Some s"
          from one_versionD [OF one this ij(3-5)] show ?thesis .
        qed simp
      qed
    qed
  qed
qed

text \<open>
  C28. A critique leads to at most one version: in every history of the stores, over any redeliveries of critiques and approvals whose runs do
  not overlap, retired versions and work of others on the proposals, no two playbook versions of a tenant and type have the
  same author, and the versions of every tenant and type stay well-formed and distinctly numbered.
\<close>

theorem one_version_per_critique:
  assumes "(learning_step is_uuid)\<^sup>*\<^sup>* (empty_world\<lparr>lw_proposals := st\<rparr>) w"
  shows "playbooks_inv is_uuid (lw_playbooks w) \<and> one_version (lw_playbooks w)"
  using assms
proof (induction rule: rtranclp_induct)
  case base
  show ?case using playbooks_inv_empty by (simp add: empty_world_def one_version_def empty_playbooks_def)
next
  case (step w w')
  from step(2) show ?case
  proof cases
    case (lr_run ck d tn t job r)
    show ?thesis
    proof (cases "lw_playbooks w' = lw_playbooks w")
      case False
      from job_creates [OF lr_run(1) this] obtain critique ty where
        "creates_version is_uuid tn t critique ty (lw_playbooks w) (lw_playbooks w')" using lr_run(2) by blast
      with one_version_create [OF _ _ this lr_run(3)] step(3) show ?thesis by blast
    qed (use step(3) in simp)
  next
    case (lr_retire t i now)
    with step(3) playbook_retire_inv one_version_retire show ?thesis by simp
  qed (use step(3) in simp)
qed

theorem one_version_per_critique_witness:
  "playbooks_inv hex_id (lw_playbooks (snd example_run)) \<and> one_version (lw_playbooks (snd example_run)) \<and>
     pb_records (lw_playbooks (snd example_run)) \<noteq> []"
proof -
  have "learning_step hex_id empty_world (snd example_run)"
    by (rule lr_run [OF example_run_result [unfolded example_run_def], folded example_run_def])
      (simp_all add: learner_checks_def empty_world_def empty_playbooks_def)
  then have "(learning_step hex_id)\<^sup>*\<^sup>* (empty_world\<lparr>lw_proposals := empty_proposals\<rparr>) (snd example_run)"
    by (simp add: empty_world_def)
  from one_version_per_critique [OF this] example_run_versions show ?thesis by auto
qed

section \<open>Stored proposals\<close>

text \<open>
  A stored proposal reads back as what was proposed: the payload that a critique asking for a change stores satisfies the schema that
  the approval path parses it with, and the critique and the proposal rebuilt from it are those the
  critique path worked on, with the risk that was declared or defaulted.
\<close>

theorem stored_proposal_reads_back:
  assumes "uuid_format is_uuid" and "is_uuid t" and "is_datetime (toISOString now)"
    and "critiqueCompletedPayloadSchema_parse is_uuid is_datetime raw = Inr critique" and "cr_verdict critique \<noteq> CritiqueApprove"
  shows "\<exists>stored. object_of (zparse (persistedCritiqueProposalPayloadSchema is_uuid is_datetime)
        (JObj (proposed_payload t (change_of t ty critique) critique risk now))) = Inr stored \<and>
    critiqueCompletedPayloadSchema_parse is_uuid is_datetime (JObj (stored_critique stored)) =
      Inr (critique\<lparr>cr_change_risk := Some risk\<rparr>) \<and>
    stored_proposal t stored = change_of t ty critique"
proof -
  note ok = critique_parsed [OF assms(4)]
  have "pp_proposalId (change_of t ty critique) \<noteq> []" by (simp add: change_of_def critique_author_def)
  from proposed_payload_parse [OF assms(1) ok assms(2) this assms(5,3)]
  have "object_of (zparse (persistedCritiqueProposalPayloadSchema is_uuid is_datetime)
      (JObj (proposed_payload t (change_of t ty critique) critique risk now))) =
    Inr (proposed_payload t (change_of t ty critique) critique risk now)" by (simp add: object_of_def)
  with critique_fields_parse [OF ok] stored_critique_fields [OF assms(1) ok] show ?thesis by (simp add: change_of_def)
qed

theorem stored_proposal_reads_back_witness:
  "\<exists>critique stored. critiqueCompletedPayloadSchema_parse hex_id (\<lambda>_. True) example_critique = Inr critique \<and>
     object_of (zparse (persistedCritiqueProposalPayloadSchema hex_id (\<lambda>_. True))
       (JObj (proposed_payload ''aa'' (change_of ''aa'' CustomPlaybook critique) critique RiskHigh 5))) = Inr stored \<and>
     stored_proposal ''aa'' stored = change_of ''aa'' CustomPlaybook critique"
proof -
  have "(case critiqueCompletedPayloadSchema_parse hex_id (\<lambda>_. True) example_critique of
      Inl e \<Rightarrow> False | Inr c \<Rightarrow> cr_verdict c = CritiqueRevise)" by code_simp
  then obtain c where c: "critiqueCompletedPayloadSchema_parse hex_id (\<lambda>_. True) example_critique = Inr c"
      "cr_verdict c \<noteq> CritiqueApprove" by (auto split: sum.splits)
  have "hex_id ''aa''" by code_simp
  from stored_proposal_reads_back [OF uuid_format_hex_id this _ c] c(1) show ?thesis by blast
qed

section \<open>Retries during a lease\<close>

lemma decision_refused:
  assumes "get_by_id (ps_records (lw_proposals w)) (lp_id p) = Some p" and "hasActivePromotionClaim p (lt_clock tn 3)"
    and "lc_proposalsConfigured d" and "recordPromotionDecision ck d tn t (Some p) ev promotion w = (r, w')"
  shows "(r = Inr False \<or> (\<exists>e. r = Inl e)) \<and> w' = w"
proof -
  define m where "m = proposal_recordEvaluation (lk_uuid ck) t (lp_id p) (evaluation_params ev promotion) (lt_clock tn 3)"
  have refuses: "m (lw_proposals w) = Inr (None, lw_proposals w) \<or> (\<exists>e. m (lw_proposals w) = Inl e)"
    using assms(1,2) unfolding m_def proposal_recordEvaluation_def
    by (cases "tenantIdSchema_parse (lk_uuid ck) t"; cases "recordEvaluationParamsSchema_parse (evaluation_params ev promotion)")
      (auto simp: findScopedRecord_def)
  have "then_do (on_proposals m) (\<lambda>recorded w. (Inr (map_option lp_status recorded = Some LpApproved), w)) w = (r, w')"
    using assms(3,4) by (simp add: recordPromotionDecision_def m_def)
  with refuses show ?thesis by (auto simp: then_do_def on_proposals_def)
qed

lemma evaluation_refused:
  assumes "get_by_id (ps_records (lw_proposals w)) (lp_id p) = Some p" and "hasActivePromotionClaim p (lt_clock tn 3)"
    and "lc_proposalsConfigured d" and "evaluate_and_promote ck d tn provider t proposal critique ty (Some p) w = (r, w')"
  shows "(r = Inr None \<or> (\<exists>e. r = Inl e)) \<and> w' = w"
proof (cases "\<exists>ev promotion. provider w proposal = Inr (Some ev) \<and> evaluateLearningProposal ev (lc_policy d) = Inr promotion")
  case True
  then obtain ev promotion where "provider w proposal = Inr (Some ev)" "evaluateLearningProposal ev (lc_policy d) = Inr promotion" by blast
  with assms(4) have run: "then_do (recordPromotionDecision ck d tn t (Some p) ev promotion)
      (\<lambda>eligible w. if \<not> eligible then (Inr None, w)
         else if ld_decision promotion \<noteq> Promote then (Inr None, w)
         else promotePlaybookChange ck d tn t proposal critique ty (Some p) (ld_relativeLift promotion) w) w = (r, w')"
    by (simp add: evaluate_and_promote_def)
  obtain r1 w1 where m: "recordPromotionDecision ck d tn t (Some p) ev promotion w = (r1, w1)" by (rule prod.exhaust)
  from decision_refused [OF assms(1-3) m] then_cases [OF run m] show ?thesis by auto
next
  case False
  with assms(4) show ?thesis
    by (cases "provider w proposal") (auto simp: evaluate_and_promote_def split: option.splits elim!: or_throw.elims)
qed

lemma persist_replayed:
  assumes "proposals_good (lk_uuid ck) (lw_proposals w)" and "get_by_id (ps_records (lw_proposals w)) (lp_id p) = Some p"
    and "lp_key p = proposal_key t (trim (pp_proposalId proposal))" and "lc_proposalsConfigured d"
    and "persistProposal ck d tn t proposal critique risk payload w = (r, w')"
  shows "(r = Inr (Some p) \<or> (\<exists>e. r = Inl e)) \<and> w' = w"
proof -
  define m where "m = proposal_create (lk_uuid ck) t (persist_params proposal critique risk payload) (lt_proposalId tn) (lt_clock tn 1)"
  have "find_existing (ps_records (lw_proposals w)) (proposal_key t (trim (pp_proposalId proposal))) = Some p"
    using find_existing_Some [OF proposals_goodD(2) [OF assms(1)]] assms(2,3) by blast
  then have "m (lw_proposals w) = Inr (p, lw_proposals w) \<or> (\<exists>e. m (lw_proposals w) = Inl e)"
    unfolding m_def proposal_create_def
    by (cases "tenantIdSchema_parse (lk_uuid ck) t";
        cases "createLearningProposalParamsSchema_parse (lk_uuid ck) (persist_params proposal critique risk payload)")
      (auto simp: createLearningProposalParamsSchema_parse_def tenantIdSchema_parse_def zod_parse_def persist_params_def Let_def
        split: if_splits)
  moreover have "then_do (on_proposals m) (\<lambda>r w. (Inr (Some r), w)) w = (r, w')"
    using assms(4,5) by (simp add: persistProposal_def m_def)
  ultimately show ?thesis by (auto simp: then_do_def on_proposals_def)
qed

text \<open>The job is about the proposal.\<close>

definition job_for :: "learning_checks \<Rightarrow> string \<Rightarrow> learning_job \<Rightarrow> learningProposalRecord \<Rightarrow> bool" where
  "job_for ck t job p =
     (case job of
        ApprovedJob i \<Rightarrow> i = lp_id p
      | CritiqueJob raw \<Rightarrow>
          (case critiqueCompletedPayloadSchema_parse (lk_uuid ck) (lk_datetime ck) raw of
             Inl e \<Rightarrow> False
           | Inr critique \<Rightarrow> lp_key p = proposal_key t (trim (critique_author critique))))"

lemma critique_refused:
  assumes good: "proposals_good (lk_uuid ck) (lw_proposals w)" and cfg: "lc_proposalsConfigured d"
    and p: "get_by_id (ps_records (lw_proposals w)) (lp_id p) = Some p" and claim: "hasActivePromotionClaim p (lt_clock tn 3)"
    and c: "critiqueCompletedPayloadSchema_parse (lk_uuid ck) (lk_datetime ck) raw = Inr critique"
    and key: "lp_key p = proposal_key t (trim (critique_author critique))"
    and run: "processFromCritique ck d tn t raw w = (r, w')"
  shows "(r = Inr None \<or> (\<exists>e. r = Inl e)) \<and> lw_playbooks w' = lw_playbooks w \<and>
    ps_records (lw_proposals w') = ps_records (lw_proposals w)"
proof (cases "\<exists>ty. cr_verdict critique \<noteq> CritiqueApprove \<and> resolvePlaybookType (cr_artifact_kind critique) = Some ty")
  case True
  then obtain ty where ty: "cr_verdict critique \<noteq> CritiqueApprove" "resolvePlaybookType (cr_artifact_kind critique) = Some ty" by blast
  define change where "change = change_of t ty critique"
  define risk where "risk = nullish_or (cr_change_risk critique) RiskHigh"
  define payload where "payload = proposed_payload t change critique risk (lt_clock tn 0)"
  define rest where "rest persisted = then_do (learning_enqueue (lk_uuid ck) (proposed_command t critique payload persisted) (lt_clock tn 2))
        (\<lambda>_ w. if \<not> lc_playbooksConfigured d then (Inr None, w)
               else case lc_evidence d of
                 None \<Rightarrow> (Inr None, w)
               | Some provider \<Rightarrow> evaluate_and_promote ck d tn provider t change critique ty persisted w)" for persisted
  from run c ty have run': "then_do (persistProposal ck d tn t change critique risk payload) rest w = (r, w')"
    unfolding rest_def [abs_def] change_def risk_def payload_def by (simp add: processFromCritique_def Let_def)
  obtain r1 w1 where m: "persistProposal ck d tn t change critique risk payload w = (r1, w1)" by (rule prod.exhaust)
  have key': "lp_key p = proposal_key t (trim (pp_proposalId change))" using key by (simp add: change_def change_of_def)
  from persist_replayed [OF good p key' cfg m] then_cases [OF run' m]
  consider "\<exists>e. r = Inl e" "w' = w" | "rest (Some p) w = (r, w')" by auto
  then show ?thesis
  proof cases
    case 2
    obtain r2 w2 where e: "learning_enqueue (lk_uuid ck) (proposed_command t critique payload (Some p)) (lt_clock tn 2) w = (r2, w2)"
      by (rule prod.exhaust)
    then have same: "lw_playbooks w2 = lw_playbooks w \<and> ps_records (lw_proposals w2) = ps_records (lw_proposals w)"
      by (cases rule: learning_enqueue_run) simp_all
    with p have p2: "get_by_id (ps_records (lw_proposals w2)) (lp_id p) = Some p" by simp
    from then_cases [OF 2 [unfolded rest_def] e]
    consider "\<exists>e. r = Inl e" "w' = w2" | "r = Inr None" "w' = w2"
      | provider where "evaluate_and_promote ck d tn provider t change critique ty (Some p) w2 = (r, w')"
      by (auto split: if_splits option.splits)
    then show ?thesis
    proof cases
      case (3 provider)
      with same evaluation_refused [OF p2 claim cfg 3] show ?thesis by simp
    qed (use same in simp_all)
  qed simp
next
  case False
  with run c show ?thesis by (auto simp: processFromCritique_def split: if_splits option.splits)
qed

text \<open>A run for a proposal that carries a running claim writes nothing but events.\<close>

lemma run_during_lease:
  assumes "proposals_good (lk_uuid ck) (lw_proposals w)" and "lc_proposalsConfigured d"
    and "get_by_id (ps_records (lw_proposals w)) (lp_id p) = Some p" and "hasActivePromotionClaim p (lt_clock tn 3)"
    and "job_for ck t job p" and "learning_run ck d tn t job w = (r, w')"
  shows "(r = Inr None \<or> (\<exists>e. r = Inl e)) \<and> lw_playbooks w' = lw_playbooks w \<and>
    ps_records (lw_proposals w') = ps_records (lw_proposals w)"
proof (cases job)
  case (CritiqueJob raw)
  with assms(5) obtain critique where "critiqueCompletedPayloadSchema_parse (lk_uuid ck) (lk_datetime ck) raw = Inr critique"
      "lp_key p = proposal_key t (trim (critique_author critique))"
    by (auto simp: job_for_def split: sum.splits)
  from critique_refused [OF assms(1-4) this] CritiqueJob assms(6) show ?thesis by (simp add: learning_run_def)
next
  case (ApprovedJob i)
  with assms(5,6) have run: "processApprovedProposal ck d tn t (lp_id p) w = (r, w')"
    by (simp add: job_for_def learning_run_def)
  then show ?thesis
  proof (cases rule: approved_run)
    case (evaluated provider q proposal critique)
    with assms(3) have "q = p" by simp
    with evaluation_refused [OF assms(3,4,2)] evaluated(4) show ?thesis by blast
  qed auto
qed

text \<open>A worker that claimed the promotion and then failed.\<close>

definition critique_ps1 :: proposals where
  "critique_ps1 = state_after (proposal_create hex_id ''aa'' (example_proposal_params\<lparr>cl_proposalKey := ''critique:c''\<rparr>) ''1a'' 5
     empty_proposals) empty_proposals"

definition critique_ps2 :: proposals where
  "critique_ps2 = state_after (proposal_recordEvaluation hex_id ''aa'' ''1a'' (example_verdict Promote) 6 critique_ps1) critique_ps1"

definition critique_ps3 :: proposals where
  "critique_ps3 = state_after (proposal_claimPromotion hex_id ''aa'' ''1a'' default_claim ''c1'' 7 critique_ps2) critique_ps2"

definition claimed_world :: learning_world where
  "claimed_world = \<lparr>lw_proposals = critique_ps3, lw_playbooks = empty_playbooks\<rparr>"

lemma critique_calls:
  "proposal_create hex_id ''aa'' (example_proposal_params\<lparr>cl_proposalKey := ''critique:c''\<rparr>) ''1a'' 5 empty_proposals =
     Inr (value_of (proposal_create hex_id ''aa'' (example_proposal_params\<lparr>cl_proposalKey := ''critique:c''\<rparr>) ''1a'' 5 empty_proposals),
       critique_ps1)"
  "proposal_recordEvaluation hex_id ''aa'' ''1a'' (example_verdict Promote) 6 critique_ps1 =
     Inr (value_of (proposal_recordEvaluation hex_id ''aa'' ''1a'' (example_verdict Promote) 6 critique_ps1), critique_ps2)"
  "proposal_claimPromotion hex_id ''aa'' ''1a'' default_claim ''c1'' 7 critique_ps2 =
     Inr (value_of (proposal_claimPromotion hex_id ''aa'' ''1a'' default_claim ''c1'' 7 critique_ps2), critique_ps3)"
  subgoal unfolding critique_ps1_def by (rule call_result) code_simp
  subgoal unfolding critique_ps2_def by (rule call_result) code_simp
  subgoal unfolding critique_ps3_def by (rule call_result) code_simp
  done

lemma critique_ps_good: "proposals_good hex_id critique_ps3"
proof -
  have "proposals_any hex_id empty_proposals critique_ps1" "proposals_any hex_id critique_ps1 critique_ps2"
      "proposals_any hex_id critique_ps2 critique_ps3"
    unfolding proposals_any_def
    using op_create [OF critique_calls(1)] op_evaluate [OF critique_calls(2)] op_claim [OF critique_calls(3)]
    by (auto simp: empty_proposals_def empty_store_def)
  with proposals_any_good proposals_good_empty [OF uuid_format_hex_id] show ?thesis by metis
qed

end
