(* ===== verification/LearningConsumers.thy ===== *)
theory LearningConsumers
  imports DurableConsumer LearningRuns PublisherProperties
begin

text \<open>
  The learning worker as a process: the three durable consumers of apps/worker-learning/src/index.ts, which hand messages to
  the worker and file the ones that fail for good as dead letters on the outbox, where the outbox publisher
  finds them. Reading the configuration from the environment is left out.
\<close>

section \<open>Subjects\<close>

fun split_dots :: "string \<Rightarrow> string list" where
  "split_dots [] = [[]]"
| "split_dots (c # s) =
     (if c = CHR ''.'' then [] # split_dots s
      else (case split_dots s of [] \<Rightarrow> [[c]] | p # ps \<Rightarrow> (c # p) # ps))"

definition tenantIdFromSubject :: "string \<Rightarrow> string result" where
  "tenantIdFromSubject subject =
     (case split_dots subject of
        p # t # _ \<Rightarrow>
          if p \<noteq> ''t'' \<or> t = [] then Inl (JsError (''Invalid tenant-scoped event subject: '' @ subject)) else Inr t
      | _ \<Rightarrow> Inl (JsError (''Invalid tenant-scoped event subject: '' @ subject)))"

section \<open>Dead letters\<close>

text \<open>The tenant of a failed message: what its body claims, or else the subject's.\<close>

definition dead_letter_tenant :: "json option \<Rightarrow> string \<Rightarrow> string result" where
  "dead_letter_tenant payload subject =
     (case Option.bind payload (json_field ''tenantId'') of
        Some (JStr t) \<Rightarrow> Inr t
      | _ \<Rightarrow>
          (case Option.bind payload (json_field ''tenant_id'') of
             Some (JStr t) \<Rightarrow> Inr t
           | _ \<Rightarrow> tenantIdFromSubject subject))"

definition failed_payload :: "json option \<Rightarrow> json" where
  "failed_payload payload = (case payload of None \<Rightarrow> JObj [] | Some JNull \<Rightarrow> JObj [] | Some v \<Rightarrow> v)"

definition learning_dead_letter ::
  "string \<Rightarrow> string \<Rightarrow> json option \<Rightarrow> durableMessageContext \<Rightarrow> string \<Rightarrow> date \<Rightarrow> enqueueOutboxEvent" where
  "learning_dead_letter tenantId worker payload context text now =
     \<lparr>oc_tenantId = tenantId, oc_eventType = ''worker.dead_lettered.v1'',
      oc_idempotencyKey = worker @ '':'' @ show_nat (mc_streamSequence context),
      oc_payload =
        [(''worker'', JStr worker), (''source_subject'', JStr (mc_subject context)),
         (''stream_sequence'', JNum (of_nat (mc_streamSequence context))),
         (''redelivery_count'', JNum (of_nat (mc_redeliveryCount context))), (''error'', JStr text),
         (''failed_payload'', failed_payload payload), (''occurred_at'', JStr (toISOString now))]\<rparr>"

definition enqueueDeadLetter ::
  "learning_checks \<Rightarrow> learning_turn \<Rightarrow> string \<Rightarrow> json option \<Rightarrow> durableMessageContext \<Rightarrow> string \<Rightarrow> unit learning_effect" where
  "enqueueDeadLetter ck tn worker payload context text w =
     or_throw (dead_letter_tenant payload (mc_subject context)) w (\<lambda>tenantId.
       learning_enqueue (lk_uuid ck) (learning_dead_letter tenantId worker payload context text (lt_clock tn 10)) (lt_clock tn 11) w)"

section \<open>The consumers\<close>

datatype learning_feed = SignalFeed | CritiqueFeed | ApprovalFeed

fun feed_worker :: "learning_feed \<Rightarrow> string" where
  "feed_worker SignalFeed = ''learning_signal''"
| "feed_worker CritiqueFeed = ''learning_critique''"
| "feed_worker ApprovalFeed = ''learning_proposal_approved''"

definition approvedLearningProposalPayloadSchema :: "(string \<Rightarrow> bool) \<Rightarrow> zod" where
  "approvedLearningProposalPayloadSchema is_uuid = ZObject [(''proposal_id'', Required, zchecked is_uuid)]"

definition handle_signal :: "learning_checks \<Rightarrow> learning_turn \<Rightarrow> json \<Rightarrow> durableMessageContext \<Rightarrow> unit learning_effect" where
  "handle_signal ck tn payload context w =
     or_throw (learning_process (lk_uuid ck) payload (lt_clock tn 0) (lt_clock tn 1) (lw_outbox w)) w
       (\<lambda>(_, ob). (Inr (), w\<lparr>lw_proposals := (lw_proposals w)\<lparr>ps_outbox := ob\<rparr>\<rparr>))"

definition handle_critique ::
  "learning_checks \<Rightarrow> learning_config \<Rightarrow> learning_turn \<Rightarrow> json \<Rightarrow> durableMessageContext \<Rightarrow> unit learning_effect" where
  "handle_critique ck d tn payload context w =
     or_throw (tenantIdFromSubject (mc_subject context)) w (\<lambda>t.
       then_do (processFromCritique ck d tn t payload) (\<lambda>_ w'. (Inr (), w')) w)"

definition handle_approval ::
  "learning_checks \<Rightarrow> learning_config \<Rightarrow> learning_turn \<Rightarrow> json \<Rightarrow> durableMessageContext \<Rightarrow> unit learning_effect" where
  "handle_approval ck d tn payload context w =
     or_throw (object_of (zparse (approvedLearningProposalPayloadSchema (lk_uuid ck)) payload)) w (\<lambda>parsed.
     or_throw (tenantIdFromSubject (mc_subject context)) w (\<lambda>t.
       then_do (processApprovedProposal ck d tn t (string_at ''proposal_id'' parsed)) (\<lambda>_ w'. (Inr (), w')) w))"

text \<open>The clock and the fresh identifiers differ from delivery to delivery.\<close>

definition learning_consumer ::
  "learning_checks \<Rightarrow> learning_config \<Rightarrow> (string \<Rightarrow> json result) \<Rightarrow> string \<Rightarrow> (nat \<Rightarrow> learning_turn) \<Rightarrow> learning_feed \<Rightarrow>
   learning_world durableConsumer" where
  "learning_consumer ck d decode issues turns feed =
     \<lparr>dc_decode = decode,
      dc_handler = (\<lambda>payload context.
        (case feed of
           SignalFeed \<Rightarrow> handle_signal ck (turns (mc_redeliveryCount context)) payload context
         | CritiqueFeed \<Rightarrow> handle_critique ck d (turns (mc_redeliveryCount context)) payload context
         | ApprovalFeed \<Rightarrow> handle_approval ck d (turns (mc_redeliveryCount context)) payload context)),
      dc_onExhausted = Some (\<lambda>payload context error.
        enqueueDeadLetter ck (turns (mc_redeliveryCount context)) (feed_worker feed) payload context (error_message issues error)),
      dc_issues = issues\<rparr>"

section \<open>Tenants and subjects\<close>

lemma split_dots_append: "CHR ''.'' \<notin> set a \<Longrightarrow> split_dots (a @ CHR ''.'' # b) = a # split_dots b"
  by (induction a) auto

lemma uuid_no_dot: "uuid_format is_uuid \<Longrightarrow> is_uuid s \<Longrightarrow> CHR ''.'' \<notin> set s"
proof -
  assume "uuid_format is_uuid" "is_uuid s"
  then have "set s \<subseteq> set ''0123456789abcdefABCDEF-''" unfolding uuid_format_def by blast
  moreover have "CHR ''.'' \<notin> set ''0123456789abcdefABCDEF-''" by simp
  ultimately show ?thesis by blast
qed

text \<open>The worker reads from a subject the tenant that the publisher wrote into it.\<close>

lemma tenant_of_subject:
  assumes "uuid_format is_uuid" and "tenantScopedSubject is_uuid t eventType = Inr subject"
  shows "tenantIdFromSubject subject = Inr t"
proof -
  from assms(2) have t: "is_uuid t" "subject = ''t'' @ CHR ''.'' # t @ CHR ''.'' # eventType"
    by (auto simp: tenantScopedSubject_def split: if_splits)
  have "split_dots subject = ''t'' # t # split_dots eventType"
    unfolding t(2) using split_dots_append [of "''t''"] split_dots_append [OF uuid_no_dot [OF assms(1) t(1)]] by simp
  with t(1) uuid_format_nonempty [OF assms(1), of t] show ?thesis by (auto simp: tenantIdFromSubject_def)
qed

section \<open>A message that arrives during a lease\<close>

text \<open>The run of the worker that a message of a feed asks for.\<close>

definition feed_job :: "(string \<Rightarrow> bool) \<Rightarrow> learning_feed \<Rightarrow> json \<Rightarrow> learning_job option" where
  "feed_job is_uuid feed payload =
     (case feed of
        SignalFeed \<Rightarrow> None
      | CritiqueFeed \<Rightarrow> Some (CritiqueJob payload)
      | ApprovalFeed \<Rightarrow>
          (case object_of (zparse (approvedLearningProposalPayloadSchema is_uuid) payload) of
             Inl e \<Rightarrow> None
           | Inr parsed \<Rightarrow> Some (ApprovedJob (string_at ''proposal_id'' parsed))))"

lemma handler_runs_job:
  assumes "feed_job (lk_uuid ck) feed payload = Some job" and "tenantIdFromSubject (mc_subject context) = Inr t"
  shows "dc_handler (learning_consumer ck d decode issues turns feed) payload context w =
    then_do (learning_run ck d (turns (mc_redeliveryCount context)) t job) (\<lambda>_ w'. (Inr (), w')) w"
  using assms
  by (cases feed) (auto simp: feed_job_def learning_consumer_def handle_critique_def handle_approval_def learning_run_def
      object_of_def split: sum.splits)

text \<open>
  C29. A retry during a lease is spent: while a proposal carries a running promotion claim, as it does for a minute after a worker
  has claimed it and then failed, consider a message about it, its critique again or its approval, that the server
  delivers and that is answered in time. Its handler writes no playbook version and changes no proposal. Unless it throws, it
  acknowledges the message, and a server that keeps its contract never delivers the message again, also when the claim has
  run out: the promotion that the failed worker left behind is not completed by this message. If it throws, the delivery ends as any failed one.
\<close>

theorem retry_during_lease_is_dropped:
  assumes "jetstream_contract (consumer_options config) (nw_server net)" and "nw_server net ds"
    and "nw_answers net (length ds) = Some ms" and "ms \<le> dj_ackWaitMs config"
    and "decode data = Inr v" and "feed_job (lk_uuid ck) feed v = Some job" and "tenantIdFromSubject subject = Inr t"
    and "nw_others net (length ds) w = w0" and "proposals_good (lk_uuid ck) (lw_proposals w0)" and "lc_proposalsConfigured d"
    and "get_by_id (ps_records (lw_proposals w0)) (lp_id p) = Some p"
    and "hasActivePromotionClaim p (lt_clock (turns (Suc (length ds))) 3)" and "job_for ck t job p"
  shows "\<exists>r w1. learning_run ck d (turns (Suc (length ds))) t job w0 = (r, w1) \<and>
    lw_playbooks w1 = lw_playbooks w0 \<and> ps_records (lw_proposals w1) = ps_records (lw_proposals w0) \<and>
    (r = Inr None \<and>
       (\<forall>n. message_life (Suc n) net config (learning_consumer ck d decode issues turns feed) data subject sequence ds w =
          (ds @ [InTime Ack], w1)) \<and>
       (\<forall>ends. \<not> nw_server net (ds @ InTime Ack # ends)) \<or>
     (\<exists>e x w2. r = Inl e \<and>
        delivery_failed config (learning_consumer ck d decode issues turns feed) (Some v)
          (context_at subject sequence (Suc (length ds))) e w1 = (x, w2) \<and>
        (\<forall>n. message_life (Suc n) net config (learning_consumer ck d decode issues turns feed) data subject sequence ds w =
           message_life n net config (learning_consumer ck d decode issues turns feed) data subject sequence
             (ds @ [InTime x]) w2)))"
proof -
  define c where "c = learning_consumer ck d decode issues turns feed"
  define cx where "cx = context_at subject sequence (Suc (length ds))"
  have cx: "mc_subject cx = subject" "mc_redeliveryCount cx = Suc (length ds)" by (simp_all add: cx_def context_at_def)
  obtain r w1 where run: "learning_run ck d (turns (Suc (length ds))) t job w0 = (r, w1)" by (rule prod.exhaust)
  from run_during_lease [OF assms(9-13) run]
  have kept: "r = Inr None \<or> (\<exists>e. r = Inl e)" "lw_playbooks w1 = lw_playbooks w0"
      "ps_records (lw_proposals w1) = ps_records (lw_proposals w0)" by blast+
  have decode: "dc_decode c data = Inr v" by (simp add: c_def learning_consumer_def assms(5))
  have handler: "dc_handler c v cx w0 = (case r of Inl e \<Rightarrow> (Inl e, w1) | Inr _ \<Rightarrow> (Inr (), w1))"
    using handler_runs_job [OF assms(6), of cx t d decode issues turns w0] assms(7) run
    unfolding cx c_def then_do_def by (simp split: sum.splits)
  have step: "message_life (Suc n) net config c data subject sequence ds w =
      message_life n net config c data subject sequence (ds @ [InTime x]) w2"
    if "handle_message config c data cx w0 = (x, w2)" for n x w2
    using that assms(2,3,4,8) by (simp add: jetstream_delivery_def consumer_options_def cx_def)
  from kept(1) show ?thesis
  proof
    assume r: "r = Inr None"
    with decode handler have "handle_message config c data cx w0 = (Ack, w1)" by (simp add: handle_message_def)
    from step [OF this] have life: "message_life (Suc n) net config c data subject sequence ds w =
        message_life n net config c data subject sequence (ds @ [InTime Ack]) w1" for n .
    have stop: "\<not> nw_server net (ds @ InTime Ack # ends)" for ends
    proof
      assume "nw_server net (ds @ InTime Ack # ends)"
      with assms(1) have "\<forall>x \<in> set (ds @ InTime Ack # ends). \<not> settled_in_time x" unfolding jetstream_contract_def by blast
      then have "\<not> settled_in_time (InTime Ack)" by simp
      then show False by simp
    qed
    have "message_life n net config c data subject sequence (ds @ [InTime Ack]) w1 = (ds @ [InTime Ack], w1)" for n
      using stop [of "[]"] by (cases n) simp_all
    with life have "message_life (Suc n) net config c data subject sequence ds w = (ds @ [InTime Ack], w1)" for n by simp
    with run kept(2,3) r stop show ?thesis unfolding c_def by blast
  next
    assume "\<exists>e. r = Inl e"
    then obtain e where r: "r = Inl e" by blast
    obtain x w2 where f: "delivery_failed config c (Some v) cx e w1 = (x, w2)" by (rule prod.exhaust)
    with decode handler r have "handle_message config c data cx w0 = (x, w2)" by (simp add: handle_message_def)
    from step [OF this] run kept(2,3) r f show ?thesis unfolding c_def cx_def by blast
  qed
qed

text \<open>The critique is delivered again, a millisecond after another worker's claim.\<close>

definition late_network :: "learning_world network" where
  "late_network =
     \<lparr>nw_server = redeliver_naks 3, nw_answers = (\<lambda>_. Some 20), nw_cut = (\<lambda>_ w. w), nw_others = (\<lambda>_ w. w)\<rparr>"

definition late_turns :: "nat \<Rightarrow> learning_turn" where
  "late_turns _ = learner_turn\<lparr>lt_clock := (\<lambda>_. 8)\<rparr>"

definition late_decode :: "string \<Rightarrow> json result" where
  "late_decode _ = Inr example_critique"

theorem retry_during_lease_is_dropped_witness:
  "\<exists>config w1. durableJetStreamConsumerConfigSchema_parse example_consumer_config = Inr config \<and>
     message_life 3 late_network config (learning_consumer learner_checks example_learning late_decode [] late_turns CritiqueFeed)
       [] ''t.aa.e'' 7 [] claimed_world = ([InTime Ack], w1) \<and>
     lw_playbooks w1 = empty_playbooks \<and> ps_records (lw_proposals w1) = ps_records critique_ps3 \<and> \<not> nw_server late_network [InTime Ack]"
proof -
  have "(case durableJetStreamConsumerConfigSchema_parse example_consumer_config of Inl e \<Rightarrow> False
    | Inr config \<Rightarrow> dj_maxDeliver config = 3 \<and> dj_ackWaitMs config = 60000)" by code_simp
  then obtain config where c: "durableJetStreamConsumerConfigSchema_parse example_consumer_config = Inr config"
      "dj_maxDeliver config = 3" "dj_ackWaitMs config = 60000" by (auto split: sum.splits)
  have contract: "jetstream_contract (consumer_options config) (nw_server late_network)"
    unfolding late_network_def network.simps by (rule redeliver_contract) (simp add: consumer_options_def c(2))
  have server: "nw_server late_network []" by (simp add: late_network_def redeliver_naks_def)
  have answers: "nw_answers late_network (length ([] :: delivery_end list)) = Some 20" "(20 :: number) \<le> dj_ackWaitMs config"
    by (simp_all add: late_network_def c(3))
  have job: "feed_job (lk_uuid learner_checks) CritiqueFeed example_critique = Some (CritiqueJob example_critique)"
    by (simp add: feed_job_def)
  have read: "late_decode [] = Inr example_critique" by (simp add: late_decode_def)
  have others: "nw_others late_network (length ([] :: delivery_end list)) claimed_world = claimed_world" by (simp add: late_network_def)
  have tenant: "tenantIdFromSubject ''t.aa.e'' = Inr ''aa''" by code_simp
  have "(case get_by_id (ps_records critique_ps3) ''1a'' of None \<Rightarrow> False
    | Some p \<Rightarrow> lp_id p = ''1a'' \<and> hasActivePromotionClaim p 8 \<and> job_for learner_checks ''aa'' (CritiqueJob example_critique) p)"
    by code_simp
  then obtain p where "get_by_id (ps_records critique_ps3) ''1a'' = Some p" "lp_id p = ''1a''" and p': "hasActivePromotionClaim p 8"
      "job_for learner_checks ''aa'' (CritiqueJob example_critique) p" by (auto split: option.splits)
  then have p: "get_by_id (ps_records (lw_proposals claimed_world)) (lp_id p) = Some p" by (simp add: claimed_world_def)
  have good: "proposals_good (lk_uuid learner_checks) (lw_proposals claimed_world)"
    using critique_ps_good by (simp add: learner_checks_def claimed_world_def)
  have cfg: "lc_proposalsConfigured example_learning" by (simp add: example_learning_def)
  have claim: "hasActivePromotionClaim p (lt_clock (late_turns (Suc (length ([] :: delivery_end list)))) 3)"
    using p'(1) by (simp add: late_turns_def)
  have "fst (learning_run learner_checks example_learning (late_turns 1) ''aa'' (CritiqueJob example_critique) claimed_world) = Inr None"
    by code_simp
  with retry_during_lease_is_dropped [where net = late_network and ds = "[]" and turns = late_turns and decode = late_decode and
        data = "[]" and issues = "[]" and sequence = 7 and w = claimed_world,
      OF contract server answers read job tenant others good cfg p claim p'(2)]
  have "\<exists>w1. lw_playbooks w1 = lw_playbooks claimed_world \<and>
      ps_records (lw_proposals w1) = ps_records (lw_proposals claimed_world) \<and>
      (\<forall>n. message_life (Suc n) late_network config (learning_consumer learner_checks example_learning late_decode [] late_turns CritiqueFeed)
         [] ''t.aa.e'' 7 [] claimed_world = ([] @ [InTime Ack], w1)) \<and> \<not> nw_server late_network ([] @ InTime Ack # [])"
    by (auto simp del: message_life.simps)
  then obtain w1 where w1: "lw_playbooks w1 = lw_playbooks claimed_world"
      "ps_records (lw_proposals w1) = ps_records (lw_proposals claimed_world)"
      "message_life (Suc 2) late_network config (learning_consumer learner_checks example_learning late_decode [] late_turns CritiqueFeed)
         [] ''t.aa.e'' 7 [] claimed_world = ([] @ [InTime Ack], w1)" "\<not> nw_server late_network ([] @ InTime Ack # [])"
    by blast
  moreover have "Suc 2 = (3 :: nat)" by simp
  ultimately show ?thesis using c(1) by (intro exI [of _ config] exI [of _ w1]) (simp add: claimed_world_def del: message_life.simps)
qed

section \<open>What the publisher can read\<close>

text \<open>The publisher's schema, and what the worker writes for it.\<close>

definition readable :: "json option \<Rightarrow> durableMessageContext \<Rightarrow> string \<Rightarrow> bool" where
  "readable payload context text \<longleftrightarrow>
     (\<forall>v. payload = Some v \<longrightarrow> v = JNull \<or> (\<exists>fs. v = JObj fs)) \<and>
     trim text \<noteq> [] \<and> length (trim text) \<le> 10000 \<and>
     trim (mc_subject context) \<noteq> [] \<and> length (trim (mc_subject context)) \<le> 1000"

lemma zparse_trimmed: "zparse (ztrimmed least most) v = Some w \<longleftrightarrow>
    (\<exists>s. v = JStr s \<and> w = JStr (trim s) \<and> least \<le> length (trim s) \<and> length (trim s) \<le> most)"
  by (cases v) (auto simp: ztrimmed_def)

lemma is_nonnegative_of_nat [simp]: "is_nonnegative_int (of_nat n)"
  by (simp add: is_nonnegative_int_def is_integer_def)

lemma feed_workers: "trim (feed_worker feed) = feed_worker feed \<and> feed_worker feed \<noteq> [] \<and> length (feed_worker feed) \<le> 255"
  by (cases feed) (simp_all only: feed_worker.simps, code_simp+)

lemma dead_letter_parse:
  "zparse workerDeadLetterPayloadSchema (JObj (oc_payload (learning_dead_letter t (feed_worker feed) payload context text now))) =
     (if readable payload context text
      then Some (JObj [(''worker'', JStr (feed_worker feed)), (''source_subject'', JStr (trim (mc_subject context))),
        (''stream_sequence'', JNum (of_nat (mc_streamSequence context))),
        (''redelivery_count'', JNum (of_nat (mc_redeliveryCount context))), (''error'', JStr (trim text)),
        (''failed_payload'', failed_payload payload)])
      else None)"
proof -
  have pos: "Suc 0 \<le> length s \<longleftrightarrow> s \<noteq> []" for s :: string by (cases s) simp_all
  have known: "zparse ZUnknownRecord (failed_payload payload) =
      (if \<forall>v. payload = Some v \<longrightarrow> v = JNull \<or> (\<exists>fs. v = JObj fs) then Some (failed_payload payload) else None)"
    by (cases payload; cases "the payload") (simp_all add: failed_payload_def)
  show ?thesis
    using feed_workers [of feed]
    unfolding workerDeadLetterPayloadSchema_def learning_dead_letter_def readable_def
    by (simp add: zmembers.simps(2) zmember_def ztrimmed_def known pos del: zparse.simps(5))
qed

text \<open>
  C31. What the worker files is what the publisher reads, with three exceptions: the publisher's schema accepts a dead letter of the
  learning worker exactly when the failed message was a JSON object (or null, or no JSON at all), the error has a message that is not
  blank and not longer than 10000 characters, and so is the subject up to 1000; it then reads back the
  worker, the subject, the position in the stream, the delivery count, the error and the failed payload.
\<close>

theorem dead_letter_contract:
  "object_of (zparse workerDeadLetterPayloadSchema
      (JObj (oc_payload (learning_dead_letter t (feed_worker feed) payload context text now)))) =
     (if readable payload context text
      then Inr [(''worker'', JStr (feed_worker feed)), (''source_subject'', JStr (trim (mc_subject context))),
        (''stream_sequence'', JNum (of_nat (mc_streamSequence context))),
        (''redelivery_count'', JNum (of_nat (mc_redeliveryCount context))), (''error'', JStr (trim text)),
        (''failed_payload'', failed_payload payload)]
      else Inl ZodError)"
  unfolding dead_letter_parse by (simp add: object_of_def)

section \<open>A message that never succeeds\<close>

text \<open>
  The handler fails on every delivery and leaves the world as it is, so a delivery that is never answered leaves it too; the
  last delivery that is allowed is answered in time.
\<close>

lemma poisoned_life:
  assumes contract: "jetstream_contract (consumer_options config) (nw_server net)" and max: "dj_maxDeliver config = of_nat most"
    and quiet: "\<And>k. nw_cut net k w = w" "\<And>k. nw_others net k w = w"
    and answered: "nw_answers net (most - 1) = Some ms" "ms \<le> dj_ackWaitMs config"
    and poison: "\<And>k. handle_message config c data (context_at subject sequence k) w =
      delivery_failed config c payload (context_at subject sequence k) (err k) w"
    and "most - length ds \<le> n" and "length ds < most" and "\<forall>x \<in> set ds. \<not> settled_at_all x"
    and "message_life n net config c data subject sequence ds w = (ds', w')"
  shows "length ds' = most \<and>
    (\<exists>x. last ds' = InTime x \<and> delivery_failed config c payload (context_at subject sequence most) (err most) w = (x, w'))"
  using assms(8-11)
proof (induction n arbitrary: ds)
  case 0
  then show ?case by simp
next
  case (Suc n)
  have opts: "op_maxDeliver (consumer_options config) = of_nat most" by (simp add: consumer_options_def max)
  note server = contract [unfolded jetstream_contract_def opts of_nat_less_iff]
  from server Suc.prems(2,3) have "nw_server net ds" by blast
  define k where "k = Suc (length ds)"
  obtain x w1 where d: "jetstream_delivery net config c data (context_at subject sequence k) (length ds) w = (x, w1)" by (rule prod.exhaust)
  with Suc.prems(4) \<open>nw_server net ds\<close>
  have rest: "message_life n net config c data subject sequence (ds @ [x]) w1 = (ds', w')" by (simp add: quiet k_def)
  have count: "mc_redeliveryCount (context_at subject sequence k) = k" by (simp add: context_at_def)
  show ?case
  proof (cases "k = most")
    case True
    then have "\<not> nw_server net (ds @ [x])" using server by (auto simp: k_def)
    then have "ds' = ds @ [x]" "w' = w1" using rest by (cases n; simp)+
    moreover from True answered(1) have "nw_answers net (length ds) = Some ms" by (auto simp: k_def)
    with d answered(2) have "\<exists>y. x = InTime y \<and> delivery_failed config c payload (context_at subject sequence k) (err k) w = (y, w1)"
      by (auto simp: jetstream_delivery_def poison consumer_options_def split: prod.splits)
    ultimately show ?thesis using True by (auto simp: k_def)
  next
    case False
    with Suc.prems(2) have "k < most" by (simp add: k_def)
    then have "\<not> of_nat (mc_redeliveryCount (context_at subject sequence k)) \<ge> dj_maxDeliver config"
      unfolding count max of_nat_le_iff by simp
    with d have x: "\<not> settled_at_all x" "w1 = w"
      by (auto simp: jetstream_delivery_def poison delivery_failed_def quiet split: option.splits if_splits)
    have "most - length (ds @ [x]) \<le> n" "length (ds @ [x]) < most" "\<forall>y \<in> set (ds @ [x]). \<not> settled_at_all y"
      using Suc.prems(1,3) \<open>k < most\<close> x by (auto simp: k_def)
    from Suc.IH [OF this] rest x(2) show ?thesis by simp
  qed
qed

text \<open>A body that is neither an object nor null fails in every consumer.\<close>

definition stray :: "json \<Rightarrow> bool" where
  "stray v \<longleftrightarrow> v \<noteq> JNull \<and> (\<forall>fs. v \<noteq> JObj fs)"

lemma stray_refused: "stray v \<Longrightarrow> zparse (ZObject ms) v = None"
  by (cases v) (simp_all add: stray_def)

lemma stray_handler:
  assumes "stray v"
  shows "\<exists>e. dc_handler (learning_consumer ck d decode issues turns feed) v context w = (Inl e, w)"
proof (cases feed)
  case SignalFeed
  then show ?thesis
    using stray_refused [OF assms] by (simp add: learning_consumer_def handle_signal_def learning_process_def
        learningSignalSchema_parse_def learningSignalSchema_def object_of_def)
next
  case CritiqueFeed
  then show ?thesis
    using stray_refused [OF assms] by (cases "tenantIdFromSubject (mc_subject context)")
      (simp_all add: learning_consumer_def handle_critique_def processFromCritique_def then_do_def
        critiqueCompletedPayloadSchema_parse_def critiqueCompletedPayloadSchema_def object_of_def)
next
  case ApprovalFeed
  then show ?thesis
    using stray_refused [OF assms] by (simp add: learning_consumer_def handle_approval_def
        approvedLearningProposalPayloadSchema_def object_of_def)
qed

lemma stray_tenant: "stray v \<Longrightarrow> dead_letter_tenant (Some v) subject = tenantIdFromSubject subject"
  by (cases v) (simp_all add: stray_def dead_letter_tenant_def)

lemma dead_letter_command_ok:
  assumes "is_uuid t"
  shows "enqueueOutboxEvent_ok is_uuid (learning_dead_letter t (feed_worker feed) payload context text now)"
proof -
  have "outboxEventType_ok ''worker.dead_lettered.v1''" by code_simp
  with assms feed_workers show ?thesis by (simp add: enqueueOutboxEvent_ok_def learning_dead_letter_def)
qed

text \<open>Filing the dead letter of a stray message puts an event on the outbox that the publisher cannot read.\<close>

lemma stray_filed:
  assumes "stray v" and "tenantIdFromSubject (mc_subject context) = Inr t" and "lk_uuid ck t" and inv: "outbox_inv (lk_uuid ck) (lw_outbox w)"
    and fresh: "find_existing (ob_events (lw_outbox w)) (outboxIdempotencyKey t ''worker.dead_lettered.v1''
      (feed_worker feed @ '':'' @ show_nat (mc_streamSequence context))) = None"
  shows "\<exists>w' event. enqueueDeadLetter ck tn (feed_worker feed) (Some v) context text w = (Inr (), w') \<and>
    find_existing (ob_events (lw_outbox w')) (outboxIdempotencyKey t ''worker.dead_lettered.v1''
      (feed_worker feed @ '':'' @ show_nat (mc_streamSequence context))) = Some event \<and>
    oe_tenantId event = t \<and> oe_eventType event = WORKER_DEAD_LETTER_EVENT_TYPE \<and> oe_consumedAt event = None \<and>
    zparse workerDeadLetterPayloadSchema (JObj (oe_payload event)) = None"
proof -
  define command where "command = learning_dead_letter t (feed_worker feed) (Some v) context text (lt_clock tn 10)"
  have key: "command_key command = outboxIdempotencyKey t ''worker.dead_lettered.v1''
      (feed_worker feed @ '':'' @ show_nat (mc_streamSequence context))"
    by (simp add: command_def learning_dead_letter_def)
  define event where "event = \<lparr>oe_id = show_nat (Suc (ob_sequence (lw_outbox w))), oe_tenantId = oc_tenantId command,
    oe_eventType = oc_eventType command, oe_idempotencyKey = oc_idempotencyKey command,
    oe_payload = oc_payload command, oe_createdAt = lt_clock tn 11, oe_consumedAt = None\<rparr>"
  have "enqueueOutboxEvent_ok (lk_uuid ck) command"
    unfolding command_def by (rule dead_letter_command_ok [where is_uuid = "lk_uuid ck", OF assms(3)])
  from enqueue_on_valid [OF inv this, of "lt_clock tn 11", unfolded key fresh]
  obtain ob where ob: "outbox_enqueue (lk_uuid ck) command (lt_clock tn 11) (lw_outbox w) = Inr (event, ob)"
    by (simp add: event_def Let_def)
  define w' where "w' = w\<lparr>lw_proposals := (lw_proposals w)\<lparr>ps_outbox := ob\<rparr>\<rparr>"
  have "enqueueDeadLetter ck tn (feed_worker feed) (Some v) context text w = (Inr (), w')"
    using ob by (simp add: enqueueDeadLetter_def stray_tenant [OF assms(1)] assms(2) learning_enqueue_def command_def w'_def)
  moreover have "find_existing (ob_events (lw_outbox w')) (command_key command) = Some event"
    using enqueue_files [OF inv ob] by (simp add: w'_def)
  moreover have "zparse workerDeadLetterPayloadSchema (JObj (oe_payload event)) = None"
  proof -
    have "\<not> readable (Some v) context text" using assms(1) by (auto simp: readable_def stray_def)
    with dead_letter_parse show ?thesis by (simp add: event_def command_def)
  qed
  moreover have "oe_tenantId event = t \<and> oe_eventType event = WORKER_DEAD_LETTER_EVENT_TYPE \<and> oe_consumedAt event = None"
    by (simp add: event_def command_def learning_dead_letter_def WORKER_DEAD_LETTER_EVENT_TYPE_def)
  ultimately show ?thesis unfolding key by blast
qed

text \<open>
  C32. One stray message stops the publisher: a message for any of the learning consumers whose body is JSON but neither an object nor
  null fails in every delivery that is answered, so whichever others are lost or late (leaving the stores as they were), if the last one allowed is answered in time
  it is terminated and filed as a dead letter for the tenant of its
  subject; and once that event is the oldest of the tenant's queue, every cycle of the publisher that starts with the tenant throws before
  it has published anything and leaves everything as it was.
\<close>

theorem stray_message_stops_the_publisher:
  assumes "durableJetStreamConsumerConfigSchema_parse raw = Inr config"
    and "jetstream_contract (consumer_options config) (nw_server net)" and "dj_maxDeliver config \<le> of_nat n"
    and "\<forall>k v. nw_cut net k v = v \<and> nw_others net k v = v"
    and "\<forall>k. of_nat (Suc k) = dj_maxDeliver config \<longrightarrow> (\<exists>ms. nw_answers net k = Some ms \<and> ms \<le> dj_ackWaitMs config)"
    and "decode data = Inr v" and "stray v" and "tenantIdFromSubject subject = Inr t" and "lk_uuid ck t"
    and "outbox_inv (lk_uuid ck) (lw_outbox w)"
    and "find_existing (ob_events (lw_outbox w)) (outboxIdempotencyKey t ''worker.dead_lettered.v1''
      (feed_worker feed @ '':'' @ show_nat sequence)) = None"
    and "message_life n net config (learning_consumer ck d decode issues turns feed) data subject sequence [] w = (ds, w')"
  shows "of_nat (length ds) = dj_maxDeliver config \<and> (\<exists>reason. last ds = InTime (Term reason)) \<and>
    (\<exists>event. find_existing (ob_events (lw_outbox w')) (outboxIdempotencyKey t ''worker.dead_lettered.v1''
        (feed_worker feed @ '':'' @ show_nat sequence)) = Some event \<and> oe_tenantId event = t \<and> oe_consumedAt event = None \<and>
      (\<forall>pck pd pturns pw behind tenants limit. ea_inv (ck_uuid pck) (w_actions pw) \<longrightarrow>
         outbox_pending t (w_outbox pw) = event # behind \<longrightarrow> 0 < limit \<longrightarrow>
         publishCycle pck pd pturns (t # tenants) limit pw = (Inl ZodError, pw)))"
proof -
  define c where "c = learning_consumer ck d decode issues turns feed"
  define err where "err k = (SOME e. dc_handler c v (context_at subject sequence k) w = (Inl e, w))" for k
  have fails: "dc_handler c v (context_at subject sequence k) w = (Inl (err k), w)" for k
    using someI_ex [OF stray_handler [OF assms(7)]] unfolding err_def c_def .
  have "dc_decode c data = Inr v" by (simp add: c_def learning_consumer_def assms(6))
  with fails have poison: "handle_message config c data (context_at subject sequence k) w =
      delivery_failed config c (Some v) (context_at subject sequence k) (err k) w" for k by (simp add: handle_message_def)
  from config_limits [OF assms(1)] obtain m where m: "dj_maxDeliver config = of_int m" "1 \<le> m"
    by (auto simp: int_within_def is_integer_def)
  define most where "most = nat m"
  have max: "dj_maxDeliver config = of_nat most" "0 < most" using m by (simp_all add: most_def)
  have fuel: "most - length ([] :: delivery_end list) \<le> n" "length ([] :: delivery_end list) < most"
      "\<forall>x \<in> set []. \<not> settled_at_all x"
    using assms(3) max by simp_all
  from assms(5) [rule_format, of "most - 1"] max obtain ms where ms: "nw_answers net (most - 1) = Some ms" "ms \<le> dj_ackWaitMs config" by auto
  have quiet: "nw_cut net k w = w" "nw_others net k w = w" for k using assms(4) by blast+
  from poisoned_life [OF assms(2) max(1) quiet ms poison fuel assms(12) [folded c_def]] obtain x
    where ds: "length ds = most" "last ds = InTime x"
      "delivery_failed config c (Some v) (context_at subject sequence most) (err most) w = (x, w')" by blast
  define cx where "cx = context_at subject sequence most"
  have cx: "mc_subject cx = subject" "mc_streamSequence cx = sequence" "mc_redeliveryCount cx = most"
    by (simp_all add: cx_def context_at_def)
  from stray_filed [OF assms(7), of cx t ck w feed "turns most" "error_message issues (err most)", unfolded cx, OF assms(8-11)]
  obtain w2 event where filed: "enqueueDeadLetter ck (turns most) (feed_worker feed) (Some v) cx (error_message issues (err most)) w = (Inr (), w2)"
      "find_existing (ob_events (lw_outbox w2)) (outboxIdempotencyKey t ''worker.dead_lettered.v1'' (feed_worker feed @ '':'' @ show_nat sequence)) = Some event"
      "oe_tenantId event = t" "oe_eventType event = WORKER_DEAD_LETTER_EVENT_TYPE" "oe_consumedAt event = None"
      "zparse workerDeadLetterPayloadSchema (JObj (oe_payload event)) = None" by blast
  have "file_failure c (Some v) cx (err most) w = (Inr (), w2)"
    using filed(1) by (simp add: file_failure_def c_def learning_consumer_def cx(3))
  with ds(2) ds(3) [folded cx_def] have settled: "last ds = InTime (Term (exhausted_reason cx (error_message (dc_issues c) (err most))))" "w' = w2"
    by (simp_all add: delivery_failed_def cx(3) max(1))
  have "publishCycle pck pd pturns (t # tenants) limit pw = (Inl ZodError, pw)"
    if "ea_inv (ck_uuid pck) (w_actions pw)" "outbox_pending t (w_outbox pw) = event # behind" "0 < limit"
    for pck pd pturns pw behind tenants limit
    using unreadable_dead_letter_throws [OF that filed(4,6)] .
  with filed(2,3,5) settled(2) have "\<exists>event. find_existing (ob_events (lw_outbox w')) (outboxIdempotencyKey t ''worker.dead_lettered.v1''
        (feed_worker feed @ '':'' @ show_nat sequence)) = Some event \<and> oe_tenantId event = t \<and> oe_consumedAt event = None \<and>
      (\<forall>pck pd pturns pw behind tenants limit. ea_inv (ck_uuid pck) (w_actions pw) \<longrightarrow>
         outbox_pending t (w_outbox pw) = event # behind \<longrightarrow> 0 < limit \<longrightarrow>
         publishCycle pck pd pturns (t # tenants) limit pw = (Inl ZodError, pw))" by blast
  moreover have "of_nat (length ds) = dj_maxDeliver config" by (simp only: ds(1) max(1))
  ultimately show ?thesis using settled(1) by blast
qed

definition stray_decode :: "string \<Rightarrow> json result" where
  "stray_decode _ = Inr (JStr ''x'')"

definition stray_consumer :: "learning_world durableConsumer" where
  "stray_consumer = learning_consumer learner_checks example_learning stray_decode [] (\<lambda>_. learner_turn) SignalFeed"

text \<open>What is left of the stray message: the world, and the events that wait for the publisher.\<close>

definition stray_outcome :: "durableJetStreamConsumerConfig \<Rightarrow> delivery_end list \<times> learning_world" where
  "stray_outcome config = message_life 3 example_network config stray_consumer [] ''t.aa.e'' 7 [] empty_world"

lemma stray_checks: "lk_uuid learner_checks = hex_id"
  by (simp add: learner_checks_def)

theorem stray_message_stops_the_publisher_witness:
  "\<exists>config ds w' reason event. durableJetStreamConsumerConfigSchema_parse example_consumer_config = Inr config \<and>
     stray_outcome config = (ds, w') \<and> length ds = 3 \<and> last ds = InTime (Term reason) \<and>
     find_existing (ob_events (lw_outbox w'))
       (outboxIdempotencyKey ''aa'' ''worker.dead_lettered.v1'' ''learning_signal:7'') = Some event \<and> oe_tenantId event = ''aa''"
proof -
  have "(case durableJetStreamConsumerConfigSchema_parse example_consumer_config of Inl e \<Rightarrow> False
    | Inr config \<Rightarrow> dj_maxDeliver config = 3 \<and> dj_ackWaitMs config = 60000)" by code_simp
  then obtain config where c: "durableJetStreamConsumerConfigSchema_parse example_consumer_config = Inr config"
      "dj_maxDeliver config = 3" "dj_ackWaitMs config = 60000" by (auto split: sum.splits)
  have contract: "jetstream_contract (consumer_options config) (nw_server (example_network :: learning_world network))"
    unfolding example_network_def network.simps by (rule redeliver_contract) (simp add: consumer_options_def c(2))
  have quiet: "\<forall>k (v :: learning_world). nw_cut example_network k v = v \<and> nw_others example_network k v = v"
    by (simp add: example_network_def)
  have answered: "\<forall>k. of_nat (Suc k) = dj_maxDeliver config \<longrightarrow>
      (\<exists>ms. nw_answers (example_network :: learning_world network) k = Some ms \<and> ms \<le> dj_ackWaitMs config)"
  proof (intro allI impI)
    fix k assume "of_nat (Suc k) = dj_maxDeliver config"
    then have "(of_nat (Suc k) :: number) = of_nat 3" unfolding c(2) by simp
    then have "k = 2" unfolding of_nat_eq_iff by simp
    then show "\<exists>ms. nw_answers (example_network :: learning_world network) k = Some ms \<and> ms \<le> dj_ackWaitMs config"
      by (simp add: example_network_def c(3))
  qed
  have facts: "tenantIdFromSubject ''t.aa.e'' = Inr ''aa''" "hex_id ''aa''" by code_simp+
  have inv: "outbox_inv hex_id (lw_outbox empty_world)"
    using outbox_inv_empty by (simp add: empty_world_def empty_proposals_def)
  have fresh: "find_existing (ob_events (lw_outbox empty_world)) (outboxIdempotencyKey ''aa'' ''worker.dead_lettered.v1''
      (feed_worker SignalFeed @ '':'' @ show_nat 7)) = None" by code_simp
  have key: "feed_worker SignalFeed @ '':'' @ show_nat 7 = ''learning_signal:7''" by code_simp
  obtain ds w' where run: "stray_outcome config = (ds, w')" by (rule prod.exhaust)
  have three: "dj_maxDeliver config \<le> of_nat 3" by (simp add: c(2))
  from stray_message_stops_the_publisher [OF c(1) contract three quiet answered _ _ facts(1) _ _ fresh
      run [unfolded stray_outcome_def stray_consumer_def], unfolded stray_checks, OF _ _ facts(2) inv]
  have out: "of_nat (length ds) = dj_maxDeliver config \<and> (\<exists>reason. last ds = InTime (Term reason)) \<and>
      (\<exists>event. find_existing (ob_events (lw_outbox w')) (outboxIdempotencyKey ''aa'' ''worker.dead_lettered.v1''
        (feed_worker SignalFeed @ '':'' @ show_nat 7)) = Some event \<and> oe_tenantId event = ''aa'')"
    by (auto simp: stray_decode_def stray_def)
  have "(of_nat (length ds) :: number) = of_nat 3" using out unfolding c(2) by simp
  then have "length ds = 3" unfolding of_nat_eq_iff .
  with out c(1) run show ?thesis unfolding key by blast
qed

end
