(* ===== verification/SignalEvents.thy ===== *)
theory SignalEvents
  imports Outbox
begin

text \<open>
  The inbox of signals: \<open>signalTypeValues\<close> of \<open>src/packages/db/src/schema.ts\<close> and the schemas and the in-memory
  repository of \<open>src/packages/db/src/signal-events-repository.ts\<close>. A signal is stored once per tenant, source and external
  id, claimed by a router under a lease, and marked as processed; a failed claim is released.

  The record field prefixes are \<open>se_\<close> (signal), \<open>ip_\<close> (ingest parameters), \<open>ir_\<close> (ingest result), \<open>sc_\<close>
  (claim) and \<open>sv_\<close> (the repository). Signals are numbered by a bigint, a natural number here.
\<close>

section \<open>Schemas\<close>

definition signalTypeValues :: "string list" where
  "signalTypeValues = [''competitive'', ''community'', ''icp'', ''product'', ''market'', ''internal'']"

record signalEventRecord =
  se_id :: nat
  se_tenantId :: string
  se_signalType :: string
  se_source :: string
  se_externalId :: "string option"
  se_payload :: json_record
  se_processedAt :: "date option"
  se_processingLeaseOwner :: "string option"
  se_processingLeaseExpiresAt :: "date option"
  se_processingAttempts :: nat
  se_createdAt :: date

definition signalEventRecord_ok :: "(string \<Rightarrow> bool) \<Rightarrow> signalEventRecord \<Rightarrow> bool" where
  "signalEventRecord_ok is_uuid r \<longleftrightarrow>
     is_uuid (se_tenantId r) \<and> se_signalType r \<in> set signalTypeValues \<and> se_source r \<noteq> []"

definition signalEventRecordSchema_parse ::
  "(string \<Rightarrow> bool) \<Rightarrow> signalEventRecord \<Rightarrow> signalEventRecord result" where
  "signalEventRecordSchema_parse is_uuid = zod_parse id (signalEventRecord_ok is_uuid)"

record ingestSignalParams =
  ip_tenantId :: string
  ip_signalType :: string
  ip_source :: string
  ip_externalId :: "string option"
  ip_payload :: json_record

record ingestSignalResult =
  ir_event :: signalEventRecord
  ir_isDuplicate :: bool

record signalProcessingClaim =
  sc_owner :: string
  sc_leaseMs :: number

definition signalProcessingClaim_ok :: "signalProcessingClaim \<Rightarrow> bool" where
  "signalProcessingClaim_ok c \<longleftrightarrow>
     sc_owner c \<noteq> [] \<and> length (sc_owner c) \<le> 255 \<and>
     is_integer (sc_leaseMs c) \<and> 1000 \<le> sc_leaseMs c \<and> sc_leaseMs c \<le> 15 * 60000"

definition signalProcessingClaimSchema_parse :: "signalProcessingClaim \<Rightarrow> signalProcessingClaim result" where
  "signalProcessingClaimSchema_parse = zod_parse id signalProcessingClaim_ok"

section \<open>The in-memory repository\<close>

record signalEvents =
  sv_records :: "signalEventRecord list"
  sv_sequence :: nat
  sv_externalIdIndex :: "string list"

definition empty_signals :: signalEvents where
  "empty_signals = \<lparr>sv_records = [], sv_sequence = 0, sv_externalIdIndex = []\<rparr>"

definition externalKey :: "string \<Rightarrow> string \<Rightarrow> string \<Rightarrow> string" where
  "externalKey tenantId source externalId = tenantId @ '':'' @ source @ '':'' @ externalId"

definition has_identity :: "string \<Rightarrow> string \<Rightarrow> string \<Rightarrow> signalEventRecord \<Rightarrow> bool" where
  "has_identity tenantId source externalId r \<longleftrightarrow>
     se_tenantId r = tenantId \<and> se_source r = source \<and> se_externalId r = Some externalId"

text \<open>The part of \<open>ingest\<close> behind the check for duplicates.\<close>

definition ingest_new ::
  "(string \<Rightarrow> bool) \<Rightarrow> date \<Rightarrow> ingestSignalParams \<Rightarrow> signalEvents \<Rightarrow> (js_error + ingestSignalResult) \<times> signalEvents" where
  "ingest_new is_uuid now params st =
     (let st1 = st\<lparr>sv_sequence := Suc (sv_sequence st)\<rparr>
      in or_throw (signalEventRecordSchema_parse is_uuid
           \<lparr>se_id = sv_sequence st1, se_tenantId = ip_tenantId params, se_signalType = ip_signalType params,
            se_source = ip_source params, se_externalId = ip_externalId params, se_payload = ip_payload params,
            se_processedAt = None, se_processingLeaseOwner = None, se_processingLeaseExpiresAt = None,
            se_processingAttempts = 0, se_createdAt = now\<rparr>) st1
         (\<lambda>r. (Inr \<lparr>ir_event = r, ir_isDuplicate = False\<rparr>, st1\<lparr>sv_records := sv_records st1 @ [r]\<rparr>)))"

text \<open>An empty external id counts as absent.\<close>

definition signal_ingest ::
  "(string \<Rightarrow> bool) \<Rightarrow> date \<Rightarrow> ingestSignalParams \<Rightarrow> signalEvents \<Rightarrow> (js_error + ingestSignalResult) \<times> signalEvents" where
  "signal_ingest is_uuid now params st =
     (if \<not> is_uuid (ip_tenantId params) then (Inl ZodError, st)
      else case ip_externalId params of
        None \<Rightarrow> ingest_new is_uuid now params st
      | Some externalId \<Rightarrow>
          if externalId = [] then ingest_new is_uuid now params st
          else
            (let key = externalKey (ip_tenantId params) (ip_source params) externalId;
                 st1 = st\<lparr>sv_externalIdIndex := List.insert key (sv_externalIdIndex st)\<rparr>
             in if key \<in> set (sv_externalIdIndex st)
                then (case find (has_identity (ip_tenantId params) (ip_source params) externalId) (sv_records st) of
                        Some existing \<Rightarrow> (Inr \<lparr>ir_event = existing, ir_isDuplicate = True\<rparr>, st)
                      | None \<Rightarrow> ingest_new is_uuid now params st1)
                else ingest_new is_uuid now params st1))"

definition unprocessed_of :: "string \<Rightarrow> string \<Rightarrow> signalEventRecord \<Rightarrow> bool" where
  "unprocessed_of tenantId signalType r \<longleftrightarrow>
     se_tenantId r = tenantId \<and> se_signalType r = signalType \<and> se_processedAt r = None"

definition signal_listUnprocessed :: "string \<Rightarrow> string \<Rightarrow> int \<Rightarrow> signalEvents \<Rightarrow> signalEventRecord list" where
  "signal_listUnprocessed tenantId signalType limit st =
     js_slice0 limit (sort_key se_id (filter (unprocessed_of tenantId signalType) (sv_records st)))"

definition lease_free :: "date \<Rightarrow> signalEventRecord \<Rightarrow> bool" where
  "lease_free now r \<longleftrightarrow> (case se_processingLeaseExpiresAt r of None \<Rightarrow> True | Some t \<Rightarrow> t \<le> now)"

text \<open>The signals \<open>claimUnprocessed\<close> chooses, and what it makes of each.\<close>

definition claimable :: "string \<Rightarrow> string \<Rightarrow> int \<Rightarrow> date \<Rightarrow> signalEvents \<Rightarrow> signalEventRecord list" where
  "claimable tenantId signalType limit now st =
     js_slice0 limit (sort_key se_id
       (filter (\<lambda>r. unprocessed_of tenantId signalType r \<and> lease_free now r) (sv_records st)))"

definition leased_signal :: "string \<Rightarrow> date \<Rightarrow> signalEventRecord \<Rightarrow> signalEventRecord" where
  "leased_signal owner expires r =
     r\<lparr>se_processingLeaseOwner := Some owner, se_processingLeaseExpiresAt := Some expires,
       se_processingAttempts := se_processingAttempts r + 1\<rparr>"

text \<open>\<open>this.records[index] = updated\<close> at the first record with that id, if there is one.\<close>

fun replace_signal :: "signalEventRecord \<Rightarrow> signalEventRecord list \<Rightarrow> signalEventRecord list" where
  "replace_signal u [] = []"
| "replace_signal u (r # rs) = (if se_id r = se_id u then u # rs else r # replace_signal u rs)"

fun store_leases ::
  "(string \<Rightarrow> bool) \<Rightarrow> string \<Rightarrow> date \<Rightarrow> signalEventRecord list \<Rightarrow> signalEventRecord list \<Rightarrow>
   (js_error + unit) \<times> signalEventRecord list" where
  "store_leases is_uuid owner expires [] rs = (Inr (), rs)"
| "store_leases is_uuid owner expires (c # cs) rs =
     (if se_id c \<notin> se_id ` set rs then store_leases is_uuid owner expires cs rs
      else or_throw (signalEventRecordSchema_parse is_uuid (leased_signal owner expires c)) rs
        (\<lambda>u. store_leases is_uuid owner expires cs (replace_signal u rs)))"

fun map_result :: "('a \<Rightarrow> 'b result) \<Rightarrow> 'a list \<Rightarrow> 'b list result" where
  "map_result f [] = Inr []"
| "map_result f (x # xs) = and_then (f x) (\<lambda>y. and_then (map_result f xs) (\<lambda>ys. Inr (y # ys)))"

definition signal_claimUnprocessed ::
  "(string \<Rightarrow> bool) \<Rightarrow> date \<Rightarrow> string \<Rightarrow> string \<Rightarrow> int \<Rightarrow> signalProcessingClaim \<Rightarrow> signalEvents \<Rightarrow>
   (js_error + signalEventRecord list) \<times> signalEvents" where
  "signal_claimUnprocessed is_uuid now tenantId signalType limit claimInput st =
     (if \<not> is_uuid tenantId then (Inl ZodError, st)
      else or_throw (signalProcessingClaimSchema_parse claimInput) st (\<lambda>claim.
        (let expires = now + \<lfloor>sc_leaseMs claim\<rfloor>;
             claimed = claimable tenantId signalType limit now st
         in case store_leases is_uuid (sc_owner claim) expires claimed (sv_records st) of
              (Inl e, rs) \<Rightarrow> (Inl e, st\<lparr>sv_records := rs\<rparr>)
            | (Inr _, rs) \<Rightarrow>
                (map_result (\<lambda>r. signalEventRecordSchema_parse is_uuid (leased_signal (sc_owner claim) expires r)) claimed,
                 st\<lparr>sv_records := rs\<rparr>))))"

definition signal_countSince :: "string \<Rightarrow> date \<Rightarrow> signalEvents \<Rightarrow> nat" where
  "signal_countSince tenantId since st =
     length (filter (\<lambda>r. se_tenantId r = tenantId \<and> since \<le> se_createdAt r) (sv_records st))"

definition processed_signal :: "date \<Rightarrow> signalEventRecord \<Rightarrow> signalEventRecord" where
  "processed_signal now r =
     r\<lparr>se_processedAt := Some now, se_processingLeaseOwner := None, se_processingLeaseExpiresAt := None\<rparr>"

definition signal_markProcessed :: "date \<Rightarrow> string \<Rightarrow> nat list \<Rightarrow> signalEvents \<Rightarrow> signalEvents" where
  "signal_markProcessed now tenantId ids st =
     st\<lparr>sv_records := map (\<lambda>r. if se_tenantId r = tenantId \<and> se_id r \<in> set ids \<and> se_processedAt r = None
                               then processed_signal now r else r) (sv_records st)\<rparr>"

definition released_signal :: "signalEventRecord \<Rightarrow> signalEventRecord" where
  "released_signal r = r\<lparr>se_processingLeaseOwner := None, se_processingLeaseExpiresAt := None\<rparr>"

definition signal_releaseClaims :: "string \<Rightarrow> nat list \<Rightarrow> string \<Rightarrow> signalEvents \<Rightarrow> signalEvents" where
  "signal_releaseClaims tenantId ids owner st =
     st\<lparr>sv_records := map (\<lambda>r. if se_tenantId r = tenantId \<and> se_id r \<in> set ids \<and> se_processedAt r = None \<and>
                                  se_processingLeaseOwner r = Some owner
                               then released_signal r else r) (sv_records st)\<rparr>"

section \<open>The invariant\<close>

definition signal_at :: "signalEvents \<Rightarrow> nat \<Rightarrow> signalEventRecord option" where
  "signal_at st i = find (\<lambda>r. se_id r = i) (sv_records st)"

definition signal_inv :: "(string \<Rightarrow> bool) \<Rightarrow> signalEventRecord \<Rightarrow> bool" where
  "signal_inv is_uuid r \<longleftrightarrow>
     signalEventRecord_ok is_uuid r \<and>
     (se_processingLeaseOwner r = None \<longleftrightarrow> se_processingLeaseExpiresAt r = None) \<and>
     (se_processedAt r \<noteq> None \<longrightarrow> se_processingLeaseOwner r = None)"

text \<open>What identifies a signal at its source, if it has an external id.\<close>

definition identity_of :: "signalEventRecord \<Rightarrow> (string \<times> string \<times> string) option" where
  "identity_of r =
     (case se_externalId r of None \<Rightarrow> None
      | Some x \<Rightarrow> if x = [] then None else Some (se_tenantId r, se_source r, x))"

definition signals_inv :: "(string \<Rightarrow> bool) \<Rightarrow> signalEvents \<Rightarrow> bool" where
  "signals_inv is_uuid st \<longleftrightarrow>
     sorted_wrt (<) (map se_id (sv_records st)) \<and>
     (\<forall>r \<in> set (sv_records st). signal_inv is_uuid r \<and> se_id r \<le> sv_sequence st) \<and>
     (\<forall>r \<in> set (sv_records st). \<forall>t s x. identity_of r = Some (t, s, x) \<longrightarrow>
        externalKey t s x \<in> set (sv_externalIdIndex st)) \<and>
     distinct (map identity_of (filter (\<lambda>r. identity_of r \<noteq> None) (sv_records st)))"

lemma signals_invD:
  assumes "signals_inv is_uuid st"
  shows "sorted_wrt (<) (map se_id (sv_records st))" "distinct (map se_id (sv_records st))"
    "r \<in> set (sv_records st) \<Longrightarrow> signal_inv is_uuid r"
    "r \<in> set (sv_records st) \<Longrightarrow> se_id r \<le> sv_sequence st"
    "r \<in> set (sv_records st) \<Longrightarrow> identity_of r = Some (t, s, x) \<Longrightarrow>
       externalKey t s x \<in> set (sv_externalIdIndex st)"
    "distinct (map identity_of (filter (\<lambda>r. identity_of r \<noteq> None) (sv_records st)))"
  using assms strict_sorted_iff [of "map se_id (sv_records st)"] unfolding signals_inv_def by blast+

lemma find_unique: "distinct (map f xs) \<Longrightarrow> find (\<lambda>x. f x = i) xs = Some r \<longleftrightarrow> r \<in> set xs \<and> f r = i"
  by (induction xs) auto

lemma signal_at_Some:
  "signals_inv is_uuid st \<Longrightarrow> signal_at st i = Some r \<longleftrightarrow> r \<in> set (sv_records st) \<and> se_id r = i"
  unfolding signal_at_def by (rule find_unique) (rule signals_invD(2))

text \<open>What \<open>claimUnprocessed\<close>, \<open>markProcessed\<close> and \<open>releaseClaims\<close> do to the records keeps the invariant.\<close>

lemma signals_inv_map:
  assumes "signals_inv is_uuid st"
    and "\<And>r. se_id (f r) = se_id r \<and> identity_of (f r) = identity_of r"
    and "\<And>r. r \<in> set (sv_records st) \<Longrightarrow> signal_inv is_uuid r \<Longrightarrow> signal_inv is_uuid (f r)"
  shows "signals_inv is_uuid (st\<lparr>sv_records := map f (sv_records st)\<rparr>)"
proof -
  have "map identity_of (filter (\<lambda>r. identity_of r \<noteq> None) (map f rs)) =
      map identity_of (filter (\<lambda>r. identity_of r \<noteq> None) rs)" for rs
    by (induction rs) (simp_all add: assms(2))
  with assms show ?thesis unfolding signals_inv_def by (simp add: comp_def)
qed

lemma replace_signal_map:
  "distinct (map se_id rs) \<Longrightarrow> replace_signal u rs = map (\<lambda>r. if se_id r = se_id u then u else r) rs"
proof (induction rs)
  case (Cons r rs)
  show ?case
  proof (cases "se_id r = se_id u")
    case True
    with Cons.prems have "\<forall>r' \<in> set rs. se_id r' \<noteq> se_id u" by (metis distinct.simps(2) image_eqI list.set_map list.simps(9))
    then have "map (\<lambda>r. if se_id r = se_id u then u else r) rs = rs" by (simp add: map_idI)
    with True show ?thesis by simp
  qed (use Cons in simp)
qed simp

text \<open>The loop of \<open>claimUnprocessed\<close> leases the chosen records and keeps the others.\<close>

definition leased_among :: "string \<Rightarrow> date \<Rightarrow> signalEventRecord list \<Rightarrow> signalEventRecord \<Rightarrow> signalEventRecord" where
  "leased_among owner expires cs r = (if r \<in> set cs then leased_signal owner expires r else r)"

lemma se_id_leased [simp]: "se_id (leased_signal owner expires r) = se_id r"
  by (simp add: leased_signal_def)

lemma store_leases_all:
  assumes "distinct (map se_id rs)" and "distinct (map se_id cs)" and "\<forall>c \<in> set cs. signalEventRecord_ok is_uuid c"
    and "set cs \<subseteq> set rs"
  shows "store_leases is_uuid owner expires cs rs = (Inr (), map (leased_among owner expires cs) rs)"
  using assms
proof (induction cs arbitrary: rs)
  case Nil
  show ?case by (simp add: leased_among_def)
next
  case (Cons c cs)
  let ?u = "leased_signal owner expires c"
  let ?rs = "map (\<lambda>r. if r = c then ?u else r) rs"
  have inj: "inj_on se_id (set rs)" and c: "c \<in> set rs" using Cons.prems by (simp_all add: distinct_map)
  have same: "r = c \<longleftrightarrow> se_id r = se_id c" if "r \<in> set rs" for r using that c inj by (auto dest: inj_onD)
  have "replace_signal ?u rs = ?rs"
    using replace_signal_map [OF Cons.prems(1), of ?u] same by (auto intro!: map_cong)
  moreover have "signalEventRecordSchema_parse is_uuid ?u = Inr ?u"
    using Cons.prems(3) by (simp add: signalEventRecordSchema_parse_def signalEventRecord_ok_def leased_signal_def)
  ultimately have step: "store_leases is_uuid owner expires (c # cs) rs = store_leases is_uuid owner expires cs ?rs"
    using c by simp
  have ids: "map se_id ?rs = map se_id rs" unfolding map_map by (rule map_cong) simp_all
  have sub: "set cs \<subseteq> set ?rs"
  proof
    fix x assume x: "x \<in> set cs"
    with Cons.prems(2) have "x \<noteq> c" by auto
    with x Cons.prems(4) show "x \<in> set ?rs" by (auto intro!: image_eqI [of x _ x])
  qed
  have "?u \<notin> set cs"
    using Cons.prems(2) by (metis distinct.simps(2) image_eqI list.set_map list.simps(9) se_id_leased)
  then have "map (leased_among owner expires cs) ?rs = map (leased_among owner expires (c # cs)) rs"
    using Cons.prems(2) by (auto simp: leased_among_def)
  moreover have "store_leases is_uuid owner expires cs ?rs = (Inr (), map (leased_among owner expires cs) ?rs)"
    by (rule Cons.IH) (use Cons.prems sub ids in \<open>simp_all only: list.simps distinct.simps, simp_all\<close>)
  ultimately show ?case unfolding step by (simp only:)
qed

lemma map_result_all: "(\<And>x. x \<in> set xs \<Longrightarrow> f x = Inr (g x)) \<Longrightarrow> map_result f xs = Inr (map g xs)"
  by (induction xs) simp_all

lemma set_slice0: "set (js_slice0 l xs) \<subseteq> set xs"
  by (auto simp: js_slice0_def dest: in_set_takeD)

lemma claimable_sub:
  "r \<in> set (claimable t ty limit now st) \<Longrightarrow> r \<in> set (sv_records st) \<and> unprocessed_of t ty r \<and> lease_free now r"
  using set_slice0 by (fastforce simp: claimable_def)

lemma claimable_distinct: "signals_inv is_uuid st \<Longrightarrow> distinct (map se_id (claimable t ty limit now st))"
proof -
  assume "signals_inv is_uuid st"
  then have "distinct (map se_id (sort_key se_id (filter (\<lambda>r. unprocessed_of t ty r \<and> lease_free now r) (sv_records st))))"
    using signals_invD(2) by (simp add: distinct_map distinct_map_filter) (metis distinct_map distinct_map_filter set_filter)
  then show ?thesis unfolding claimable_def js_slice0_def take_map [symmetric] by (rule distinct_take)
qed

lemma claim_valid:
  assumes "signals_inv is_uuid st" and "is_uuid t" and "signalProcessingClaim_ok c"
    and "cs = claimable t ty limit now st" and "expires = now + \<lfloor>sc_leaseMs c\<rfloor>"
  shows "signal_claimUnprocessed is_uuid now t ty limit c st =
    (Inr (map (leased_signal (sc_owner c) expires) cs),
     st\<lparr>sv_records := map (leased_among (sc_owner c) expires cs) (sv_records st)\<rparr>)"
proof -
  have ok: "\<forall>r \<in> set cs. signalEventRecord_ok is_uuid r"
    using claimable_sub signals_invD(3) [OF assms(1)] assms(4) by (auto simp: signal_inv_def)
  have "store_leases is_uuid (sc_owner c) expires cs (sv_records st) =
      (Inr (), map (leased_among (sc_owner c) expires cs) (sv_records st))"
    using claimable_sub claimable_distinct [OF assms(1)] signals_invD(2) [OF assms(1)] ok assms(4)
    by (intro store_leases_all) auto
  moreover have "map_result (\<lambda>r. signalEventRecordSchema_parse is_uuid (leased_signal (sc_owner c) expires r)) cs =
      Inr (map (leased_signal (sc_owner c) expires) cs)"
    using ok by (intro map_result_all)
      (simp add: signalEventRecordSchema_parse_def signalEventRecord_ok_def leased_signal_def)
  ultimately show ?thesis
    using assms(2-5) by (simp add: signal_claimUnprocessed_def signalProcessingClaimSchema_parse_def zod_parse_def Let_def)
qed

lemma identity_unchanged [simp]:
  "identity_of (leased_signal owner expires r) = identity_of r" "identity_of (processed_signal now r) = identity_of r"
  "identity_of (released_signal r) = identity_of r"
  by (simp_all add: identity_of_def leased_signal_def processed_signal_def released_signal_def split: option.split)

lemma claim_inv:
  assumes "signals_inv is_uuid st" and "signal_claimUnprocessed is_uuid now t ty limit c st = (res, st')"
  shows "signals_inv is_uuid st'"
proof (cases "is_uuid t \<and> signalProcessingClaim_ok c")
  case True
  let ?cs = "claimable t ty limit now st" and ?x = "now + \<lfloor>sc_leaseMs c\<rfloor>"
  have "st' = st\<lparr>sv_records := map (leased_among (sc_owner c) ?x ?cs) (sv_records st)\<rparr>"
    using claim_valid [where ty = ty and limit = limit, OF assms(1) _ _ refl refl] True assms(2) by simp
  moreover have "signals_inv is_uuid (st\<lparr>sv_records := map (leased_among (sc_owner c) ?x ?cs) (sv_records st)\<rparr>)"
  proof (rule signals_inv_map [OF assms(1)])
    fix r assume "signal_inv is_uuid r"
    then show "signal_inv is_uuid (leased_among (sc_owner c) ?x ?cs r)"
      using claimable_sub by (fastforce simp: leased_among_def signal_inv_def leased_signal_def
          signalEventRecord_ok_def unprocessed_of_def)
  qed (simp add: leased_among_def)
  ultimately show ?thesis by simp
next
  case False
  then have "st' = st" using assms(2)
    by (auto simp: signal_claimUnprocessed_def signalProcessingClaimSchema_parse_def zod_parse_def split: if_splits)
  with assms(1) show ?thesis by simp
qed

lemma mark_inv: "signals_inv is_uuid st \<Longrightarrow> signals_inv is_uuid (signal_markProcessed now t ids st)"
  unfolding signal_markProcessed_def
  by (rule signals_inv_map) (auto simp: signal_inv_def signalEventRecord_ok_def, auto simp: processed_signal_def)

lemma release_inv: "signals_inv is_uuid st \<Longrightarrow> signals_inv is_uuid (signal_releaseClaims t ids owner st)"
  unfolding signal_releaseClaims_def
  by (rule signals_inv_map) (auto simp: signal_inv_def signalEventRecord_ok_def, auto simp: released_signal_def)

section \<open>Ingesting\<close>

definition ingested :: "date \<Rightarrow> ingestSignalParams \<Rightarrow> nat \<Rightarrow> signalEventRecord" where
  "ingested now params i =
     \<lparr>se_id = i, se_tenantId = ip_tenantId params, se_signalType = ip_signalType params,
      se_source = ip_source params, se_externalId = ip_externalId params, se_payload = ip_payload params,
      se_processedAt = None, se_processingLeaseOwner = None, se_processingLeaseExpiresAt = None,
      se_processingAttempts = 0, se_createdAt = now\<rparr>"

definition ingest_ok :: "(string \<Rightarrow> bool) \<Rightarrow> ingestSignalParams \<Rightarrow> bool" where
  "ingest_ok is_uuid params \<longleftrightarrow>
     is_uuid (ip_tenantId params) \<and> ip_signalType params \<in> set signalTypeValues \<and> ip_source params \<noteq> []"

text \<open>The stored signal of the same tenant, source and external id.\<close>

definition stored_twin :: "ingestSignalParams \<Rightarrow> signalEvents \<Rightarrow> signalEventRecord option" where
  "stored_twin params st =
     (case ip_externalId params of None \<Rightarrow> None
      | Some x \<Rightarrow> if x = [] then None
          else find (has_identity (ip_tenantId params) (ip_source params) x) (sv_records st))"

lemma has_identity_iff: "x \<noteq> [] \<Longrightarrow> has_identity t s x r \<longleftrightarrow> identity_of r = Some (t, s, x)"
  by (auto simp: has_identity_def identity_of_def split: option.splits if_splits)

lemma twin_identity:
  assumes "stored_twin params st = Some r"
  shows "r \<in> set (sv_records st) \<and> ip_externalId params \<noteq> None \<and>
    identity_of r = Some (ip_tenantId params, ip_source params, the (ip_externalId params))"
  using assms has_identity_iff
  by (auto simp: stored_twin_def find_Some_iff split: option.splits if_splits)

lemma ingest_new_eq:
  "ingest_new is_uuid now params st =
     (if signalEventRecord_ok is_uuid (ingested now params (Suc (sv_sequence st)))
      then (Inr \<lparr>ir_event = ingested now params (Suc (sv_sequence st)), ir_isDuplicate = False\<rparr>,
            st\<lparr>sv_sequence := Suc (sv_sequence st),
               sv_records := sv_records st @ [ingested now params (Suc (sv_sequence st))]\<rparr>)
      else (Inl ZodError, st\<lparr>sv_sequence := Suc (sv_sequence st)\<rparr>))"
  by (simp add: ingest_new_def ingested_def signalEventRecordSchema_parse_def zod_parse_def)

lemma ingested_ok: "signalEventRecord_ok is_uuid (ingested now params i) \<longleftrightarrow> ingest_ok is_uuid params"
  by (simp add: signalEventRecord_ok_def ingested_def ingest_ok_def)

lemma identity_of_ingested:
  "identity_of (ingested now params i) =
     (case ip_externalId params of None \<Rightarrow> None
      | Some x \<Rightarrow> if x = [] then None else Some (ip_tenantId params, ip_source params, x))"
  by (simp add: identity_of_def ingested_def split: option.split)

text \<open>The three outcomes of \<open>ingest\<close>.\<close>

lemma ingest_duplicate:
  assumes "signals_inv is_uuid st" and "is_uuid (ip_tenantId params)" and "stored_twin params st = Some r"
  shows "signal_ingest is_uuid now params st = (Inr \<lparr>ir_event = r, ir_isDuplicate = True\<rparr>, st)"
proof -
  obtain x where x: "ip_externalId params = Some x" "x \<noteq> []"
      "find (has_identity (ip_tenantId params) (ip_source params) x) (sv_records st) = Some r"
    using assms(3) by (auto simp: stored_twin_def split: option.splits if_splits)
  from twin_identity [OF assms(3)] x(1)
  have "r \<in> set (sv_records st)" "identity_of r = Some (ip_tenantId params, ip_source params, x)" by simp_all
  then have "externalKey (ip_tenantId params) (ip_source params) x \<in> set (sv_externalIdIndex st)"
    by (rule signals_invD(5) [OF assms(1)])
  with assms(2) x show ?thesis by (simp add: signal_ingest_def Let_def)
qed

lemma ingest_first:
  assumes "is_uuid (ip_tenantId params)" and "stored_twin params st = None"
  obtains st1 where "signal_ingest is_uuid now params st = ingest_new is_uuid now params st1"
    "sv_records st1 = sv_records st" "sv_sequence st1 = sv_sequence st"
    "set (sv_externalIdIndex st) \<subseteq> set (sv_externalIdIndex st1)"
    "\<And>t s x. identity_of (ingested now params i) = Some (t, s, x) \<Longrightarrow> externalKey t s x \<in> set (sv_externalIdIndex st1)"
proof (cases "\<exists>x. ip_externalId params = Some x \<and> x \<noteq> []")
  case True
  then obtain x where x: "ip_externalId params = Some x" "x \<noteq> []" by blast
  define key where "key = externalKey (ip_tenantId params) (ip_source params) x"
  define st1 where "st1 = st\<lparr>sv_externalIdIndex := List.insert key (sv_externalIdIndex st)\<rparr>"
  have none: "find (has_identity (ip_tenantId params) (ip_source params) x) (sv_records st) = None"
    using assms(2) x by (simp add: stored_twin_def)
  show thesis
  proof (rule that [of st1])
    show "signal_ingest is_uuid now params st = ingest_new is_uuid now params st1"
      unfolding signal_ingest_def Let_def st1_def key_def using assms(1) x none by simp
    fix t s y assume "identity_of (ingested now params i) = Some (t, s, y)"
    then show "externalKey t s y \<in> set (sv_externalIdIndex st1)"
      using x by (simp add: identity_of_ingested st1_def key_def)
  qed (auto simp: st1_def)
next
  case False
  show thesis
  proof (rule that [of st])
    show "signal_ingest is_uuid now params st = ingest_new is_uuid now params st"
      using assms(1) False by (auto simp: signal_ingest_def split: option.split)
    fix t s y assume "identity_of (ingested now params i) = Some (t, s, y)"
    then show "externalKey t s y \<in> set (sv_externalIdIndex st)"
      using False by (auto simp: identity_of_ingested split: option.splits if_splits)
  qed auto
qed

lemma twin_none:
  assumes "stored_twin params st = None" and "r \<in> set (sv_records st)" and "identity_of r = identity_of (ingested now params i)"
  shows "identity_of r = None"
proof (rule ccontr)
  assume "identity_of r \<noteq> None"
  with assms(3) obtain x where x: "ip_externalId params = Some x" "x \<noteq> []"
      "identity_of r = Some (ip_tenantId params, ip_source params, x)"
    unfolding identity_of_ingested by (cases "ip_externalId params") (simp_all split: if_splits)
  with assms(1) have "\<not> has_identity (ip_tenantId params) (ip_source params) x r"
    using assms(2) by (simp add: stored_twin_def find_None_iff)
  with x show False by (simp add: has_identity_iff)
qed

lemma ingest_inv:
  assumes "signals_inv is_uuid st" and "signal_ingest is_uuid now params st = (res, st')"
  shows "signals_inv is_uuid st'"
proof (cases "is_uuid (ip_tenantId params)")
  case False
  with assms show ?thesis by (simp add: signal_ingest_def)
next
  case True
  show ?thesis
  proof (cases "stored_twin params st")
    case (Some r)
    with ingest_duplicate [OF assms(1) True Some, of now] assms show ?thesis by simp
  next
    case None
    let ?r = "ingested now params (Suc (sv_sequence st))"
    obtain st1 where st1: "signal_ingest is_uuid now params st = ingest_new is_uuid now params st1"
        "sv_records st1 = sv_records st" "sv_sequence st1 = sv_sequence st"
        "set (sv_externalIdIndex st) \<subseteq> set (sv_externalIdIndex st1)"
        "\<And>t s x. identity_of ?r = Some (t, s, x) \<Longrightarrow> externalKey t s x \<in> set (sv_externalIdIndex st1)"
      by (rule ingest_first [where i = "Suc (sv_sequence st)" and now = now, of is_uuid params st]) (use True None in blast)+
    have keys: "externalKey t s x \<in> set (sv_externalIdIndex st1)"
      if "r \<in> set (sv_records st)" "identity_of r = Some (t, s, x)" for r t s x
      using signals_invD(5) [OF assms(1) that] st1(4) by blast
    have ids: "se_id r \<le> sv_sequence st" if "r \<in> set (sv_records st)" for r
      using signals_invD(4) [OF assms(1) that] .
    have fresh: "sorted_wrt (<) (map se_id (sv_records st @ [?r]))"
      using signals_invD(1) [OF assms(1)] ids by (fastforce simp: sorted_wrt_append ingested_def)
    have unique: "distinct (map identity_of (filter (\<lambda>r. identity_of r \<noteq> None) (sv_records st @ [?r])))"
      using signals_invD(6) [OF assms(1)] twin_none [OF None, of _ now "Suc (sv_sequence st)"] by fastforce
    have good: "signalEventRecord_ok is_uuid ?r \<Longrightarrow> signal_inv is_uuid ?r" by (simp add: signal_inv_def ingested_def)
    have st': "st' = (if signalEventRecord_ok is_uuid ?r
        then st1\<lparr>sv_sequence := Suc (sv_sequence st), sv_records := sv_records st @ [?r]\<rparr>
        else st1\<lparr>sv_sequence := Suc (sv_sequence st)\<rparr>)"
      using assms(2) st1 by (auto simp: ingest_new_eq split: if_splits)
    have rid: "se_id ?r = Suc (sv_sequence st)" by (simp add: ingested_def)
    show ?thesis
    proof (cases "signalEventRecord_ok is_uuid ?r")
      case True
      have "signal_inv is_uuid r \<and> se_id r \<le> Suc (sv_sequence st)" if "r \<in> set (sv_records st @ [?r])" for r
        using that signals_invD(3) [OF assms(1), of r] ids [of r] good [OF True] rid by auto
      moreover have "externalKey t s x \<in> set (sv_externalIdIndex st1)"
        if "r \<in> set (sv_records st @ [?r])" "identity_of r = Some (t, s, x)" for r t s x
        using that keys st1(5) by auto
      ultimately show ?thesis using True fresh unique unfolding st' signals_inv_def by simp
    next
      case False
      then show ?thesis
        using assms(1) keys ids signals_invD [OF assms(1)] unfolding st' signals_inv_def by (fastforce simp: st1)
    qed
  qed
qed

lemma signals_inv_empty: "signals_inv is_uuid empty_signals"
  by (simp add: signals_inv_def empty_signals_def)

section \<open>Histories\<close>

datatype signal_op =
    Ingest date ingestSignalParams
  | Claim date string string int signalProcessingClaim
  | MarkProcessed date string "nat list"
  | ReleaseClaims string "nat list" string

primrec signal_apply :: "(string \<Rightarrow> bool) \<Rightarrow> signal_op \<Rightarrow> signalEvents \<Rightarrow> signalEvents" where
  "signal_apply is_uuid (Ingest now params) st = snd (signal_ingest is_uuid now params st)"
| "signal_apply is_uuid (Claim now t ty limit c) st = snd (signal_claimUnprocessed is_uuid now t ty limit c st)"
| "signal_apply is_uuid (MarkProcessed now t ids) st = signal_markProcessed now t ids st"
| "signal_apply is_uuid (ReleaseClaims t ids owner) st = signal_releaseClaims t ids owner st"

abbreviation signals_after :: "(string \<Rightarrow> bool) \<Rightarrow> signal_op list \<Rightarrow> signalEvents \<Rightarrow> signalEvents" where
  "signals_after is_uuid ops st \<equiv> fold (signal_apply is_uuid) ops st"

lemma apply_inv: "signals_inv is_uuid st \<Longrightarrow> signals_inv is_uuid (signal_apply is_uuid op st)"
  by (cases op) (auto intro: ingest_inv claim_inv mark_inv release_inv simp: prod_eq_iff)

lemma after_inv: "signals_inv is_uuid st \<Longrightarrow> signals_inv is_uuid (signals_after is_uuid ops st)"
  by (induction ops arbitrary: st) (simp_all add: apply_inv)

text \<open>What an operation makes of one stored signal.\<close>

primrec signal_effect :: "(string \<Rightarrow> bool) \<Rightarrow> signal_op \<Rightarrow> signalEvents \<Rightarrow> signalEventRecord \<Rightarrow> signalEventRecord" where
  "signal_effect is_uuid (Ingest now params) st r = r"
| "signal_effect is_uuid (Claim now t ty limit c) st r =
     (if is_uuid t \<and> signalProcessingClaim_ok c
      then leased_among (sc_owner c) (now + \<lfloor>sc_leaseMs c\<rfloor>) (claimable t ty limit now st) r else r)"
| "signal_effect is_uuid (MarkProcessed now t ids) st r =
     (if se_tenantId r = t \<and> se_id r \<in> set ids \<and> se_processedAt r = None then processed_signal now r else r)"
| "signal_effect is_uuid (ReleaseClaims t ids owner) st r =
     (if se_tenantId r = t \<and> se_id r \<in> set ids \<and> se_processedAt r = None \<and> se_processingLeaseOwner r = Some owner
      then released_signal r else r)"

lemma ingest_keeps: "r \<in> set (sv_records st) \<Longrightarrow> r \<in> set (sv_records (snd (signal_ingest is_uuid now params st)))"
  by (auto simp: signal_ingest_def ingest_new_eq Let_def split: option.split)

lemma signal_claim_refused:
  "\<not> (is_uuid t \<and> signalProcessingClaim_ok c) \<Longrightarrow>
     signal_claimUnprocessed is_uuid now t ty limit c st = (Inl ZodError, st)"
  by (auto simp: signal_claimUnprocessed_def signalProcessingClaimSchema_parse_def zod_parse_def)

lemma effect_stored:
  assumes "signals_inv is_uuid st" and "r \<in> set (sv_records st)"
  shows "signal_effect is_uuid op st r \<in> set (sv_records (signal_apply is_uuid op st))"
proof (cases op)
  case (Claim now t ty limit c)
  show ?thesis
  proof (cases "is_uuid t \<and> signalProcessingClaim_ok c")
    case True
    then show ?thesis
      using claim_valid [OF assms(1) _ _ refl refl] assms(2) by (simp add: Claim)
  next
    case False
    with assms(2) signal_claim_refused [where is_uuid = is_uuid and t = t, OF False] show ?thesis unfolding Claim signal_effect.simps if_not_P [OF False] by simp
  qed
qed (use assms(2) in \<open>auto simp: ingest_keeps signal_markProcessed_def signal_releaseClaims_def\<close>)

text \<open>Only the four fields of the processing state ever change.\<close>

definition same_signal :: "signalEventRecord \<Rightarrow> signalEventRecord \<Rightarrow> bool" where
  "same_signal r r' \<longleftrightarrow>
     r' = r\<lparr>se_processedAt := se_processedAt r', se_processingLeaseOwner := se_processingLeaseOwner r',
            se_processingLeaseExpiresAt := se_processingLeaseExpiresAt r',
            se_processingAttempts := se_processingAttempts r'\<rparr>"

lemma same_signal_trans: "same_signal r r' \<Longrightarrow> same_signal r' r'' \<Longrightarrow> same_signal r r''"
  by (cases r; cases r'; cases r'') (simp add: same_signal_def)

lemma same_signalD:
  "same_signal r r' \<Longrightarrow> se_id r' = se_id r \<and> identity_of r' = identity_of r \<and> se_tenantId r' = se_tenantId r \<and>
     se_signalType r' = se_signalType r \<and> se_source r' = se_source r \<and> se_payload r' = se_payload r \<and>
     se_createdAt r' = se_createdAt r \<and> se_externalId r' = se_externalId r"
  by (cases r; cases r') (auto simp: same_signal_def identity_of_def split: option.splits)

lemma effect_same: "same_signal r (signal_effect is_uuid op st r)"
  by (cases op)
    (simp_all add: same_signal_def leased_among_def leased_signal_def processed_signal_def released_signal_def)

lemma effect_processed: "se_processedAt r \<noteq> None \<Longrightarrow> signal_effect is_uuid op st r = r"
  by (cases op) (auto simp: leased_among_def unprocessed_of_def dest: claimable_sub)

lemma same_signal_refl [simp]: "same_signal r r"
  by (simp add: same_signal_def)

lemma same_id: "signals_inv is_uuid st \<Longrightarrow> r \<in> set (sv_records st) \<Longrightarrow> r' \<in> set (sv_records st) \<Longrightarrow> se_id r = se_id r' \<Longrightarrow> r = r'"
  using signals_invD(2) by (auto simp: distinct_map dest: inj_onD)

lemma after_same:
  assumes "signals_inv is_uuid st" and "r \<in> set (sv_records st)"
  shows "\<exists>r' \<in> set (sv_records (signals_after is_uuid ops st)). same_signal r r'"
  using assms
proof (induction ops arbitrary: st r)
  case Nil
  then show ?case using same_signal_refl by fastforce
next
  case (Cons op ops)
  from Cons.IH [OF apply_inv [OF Cons.prems(1)] effect_stored [OF Cons.prems]] show ?case
    using effect_same same_signal_trans by fastforce
qed

text \<open>The operations that leave a lease of \<open>owner\<close> until \<open>expires\<close> alone.\<close>

primrec respects_lease :: "string \<Rightarrow> date \<Rightarrow> signal_op \<Rightarrow> bool" where
  "respects_lease owner expires (Ingest now params) \<longleftrightarrow> True"
| "respects_lease owner expires (Claim now t ty limit c) \<longleftrightarrow> now < expires"
| "respects_lease owner expires (MarkProcessed now t ids) \<longleftrightarrow> True"
| "respects_lease owner expires (ReleaseClaims t ids owner') \<longleftrightarrow> owner' \<noteq> owner"

definition held :: "string \<Rightarrow> date \<Rightarrow> signalEventRecord \<Rightarrow> bool" where
  "held owner expires r \<longleftrightarrow>
     se_processedAt r \<noteq> None \<or>
     se_processingLeaseOwner r = Some owner \<and> se_processingLeaseExpiresAt r = Some expires"

lemma effect_held:
  assumes "respects_lease owner expires op" and "held owner expires r"
  shows "held owner expires (signal_effect is_uuid op st r)"
proof (cases op)
  case (Claim now t ty limit c)
  have "r \<notin> set (claimable t ty limit now st)"
    using assms claimable_sub [of r t ty limit now st]
    by (auto simp: Claim held_def lease_free_def unprocessed_of_def)
  with assms(2) show ?thesis by (simp add: Claim leased_among_def)
qed (use assms in \<open>auto simp: held_def processed_signal_def released_signal_def\<close>)

lemma after_held:
  assumes "signals_inv is_uuid st" and "r \<in> set (sv_records st)" and "held owner expires r"
    and "list_all (respects_lease owner expires) ops"
  shows "\<exists>r' \<in> set (sv_records (signals_after is_uuid ops st)). se_id r' = se_id r \<and> held owner expires r'"
  using assms
proof (induction ops arbitrary: st r)
  case (Cons op ops)
  let ?r = "signal_effect is_uuid op st r"
  have "held owner expires ?r" using effect_held Cons.prems(3,4) by simp
  from Cons.IH [OF apply_inv [OF Cons.prems(1)] effect_stored [OF Cons.prems(1,2)] this] Cons.prems(4)
  show ?case using same_signalD [OF effect_same] by fastforce
qed auto

lemma claim_ok:
  assumes "signal_claimUnprocessed is_uuid now t ty limit c st = (Inr claimed, st')"
  shows "is_uuid t \<and> signalProcessingClaim_ok c"
  using assms signal_claim_refused [of is_uuid t c now ty limit st] by (cases "is_uuid t \<and> signalProcessingClaim_ok c") auto

section \<open>Properties\<close>

text \<open>
  C34. A claimed signal is its claimant's alone until the lease ends: whatever is ingested, claimed by anyone before
  that time, marked or released by other owners, no claim made before the lease expires returns it again, not even one
  of the same owner.
\<close>

theorem signal_claims_are_exclusive:
  assumes "st = signals_after is_uuid ops empty_signals"
    and "signal_claimUnprocessed is_uuid now t ty limit c st = (Inr claimed, st1)" and "r \<in> set claimed"
    and "expires = now + \<lfloor>sc_leaseMs c\<rfloor>" and "list_all (respects_lease (sc_owner c) expires) ops'"
    and "signal_claimUnprocessed is_uuid now' t' ty' limit' c' (signals_after is_uuid ops' st1) = (Inr claimed', st2)"
    and "now' < expires"
  shows "se_id r \<notin> se_id ` set claimed'"
proof
  assume "se_id r \<in> se_id ` set claimed'"
  then obtain x where x: "x \<in> set claimed'" "se_id x = se_id r" by auto
  let ?st = "signals_after is_uuid ops' st1"
  have inv: "signals_inv is_uuid st" unfolding assms(1) by (rule after_inv [OF signals_inv_empty])
  note inv1 = claim_inv [OF inv assms(2)] and ok = claim_ok [OF assms(2)]
  note inv2 = after_inv [OF inv1, of ops']
  have c: "claimed = map (leased_signal (sc_owner c) expires) (claimable t ty limit now st)"
      "st1 = st\<lparr>sv_records := map (leased_among (sc_owner c) expires (claimable t ty limit now st)) (sv_records st)\<rparr>"
    using claim_valid [OF inv _ _ refl refl] ok assms(2,4) by simp_all
  from assms(3) obtain r0 where r0: "r0 \<in> set (claimable t ty limit now st)" "r = leased_signal (sc_owner c) expires r0"
    unfolding c(1) by auto
  have "r \<in> set (sv_records st1)"
    using r0 claimable_sub [OF r0(1)] unfolding c(2) by (auto simp: leased_among_def intro!: image_eqI [of _ _ r0])
  moreover have "held (sc_owner c) expires r" by (simp add: r0(2) held_def leased_signal_def)
  ultimately obtain r' where r': "r' \<in> set (sv_records ?st)" "se_id r' = se_id r" "held (sc_owner c) expires r'"
    using after_held [OF inv1 _ _ assms(5)] by blast
  have "claimed' = map (leased_signal (sc_owner c') (now' + \<lfloor>sc_leaseMs c'\<rfloor>)) (claimable t' ty' limit' now' ?st)"
    using claim_valid [OF inv2 _ _ refl refl] claim_ok [OF assms(6)] assms(6) by simp
  with x obtain x0 where x0: "x0 \<in> set (claimable t' ty' limit' now' ?st)" "se_id x0 = se_id r" by auto
  from claimable_sub [OF x0(1)] have "x0 = r'"
    using same_id [OF inv2 _ r'(1)] r'(2) x0(2) by simp
  with claimable_sub [OF x0(1)] r'(3) assms(7) show False
    by (auto simp: held_def unprocessed_of_def lease_free_def)
qed

definition example_signal :: ingestSignalParams where
  "example_signal =
     \<lparr>ip_tenantId = ''aa'', ip_signalType = ''market'', ip_source = ''n8n:w'', ip_externalId = Some ''e'', ip_payload = []\<rparr>"

definition example_claim :: "string \<Rightarrow> signalProcessingClaim" where
  "example_claim owner = \<lparr>sc_owner = owner, sc_leaseMs = 1000\<rparr>"

definition example_claimed :: signalEventRecord where
  "example_claimed = leased_signal ''p'' 1005 (ingested 1 example_signal 1)"

theorem signal_claims_are_exclusive_witness:
  "\<exists>st1 st2 claimed'.
     signal_claimUnprocessed hex_id 5 ''aa'' ''market'' 10 (example_claim ''p'')
       (signals_after hex_id [Ingest 1 example_signal] empty_signals) = (Inr [example_claimed], st1) \<and>
     signal_claimUnprocessed hex_id 900 ''aa'' ''market'' 10 (example_claim ''q'')
       (signals_after hex_id [ReleaseClaims ''aa'' [1] ''q''] st1) = (Inr claimed', st2) \<and>
     1 \<notin> se_id ` set claimed'"
proof -
  define st where "st = signals_after hex_id [Ingest 1 example_signal] empty_signals"
  define st1 where "st1 = snd (signal_claimUnprocessed hex_id 5 ''aa'' ''market'' 10 (example_claim ''p'') st)"
  have 1: "signal_claimUnprocessed hex_id 5 ''aa'' ''market'' 10 (example_claim ''p'') st = (Inr [example_claimed], st1)"
    unfolding st_def st1_def by code_simp
  have 2: "signal_claimUnprocessed hex_id 900 ''aa'' ''market'' 10 (example_claim ''q'')
      (signals_after hex_id [ReleaseClaims ''aa'' [1] ''q''] st1) = (Inr [], st1)"
    unfolding st_def st1_def by code_simp
  have "se_id example_claimed \<notin> se_id ` set []"
    using signal_claims_are_exclusive [OF st_def 1 _ refl _ 2] by (simp add: example_claim_def)
  moreover have "se_id example_claimed = 1" by (simp add: example_claimed_def ingested_def)
  ultimately show ?thesis using 1 2 unfolding st_def by metis
qed

text \<open>
  A signal is stored once: after a signal with an external id was accepted for a tenant and source, every later
  delivery of that id, whatever else it carries and whatever happened in between, reports a duplicate, names the signal
  stored first and changes nothing; the stored signal itself has changed in its processing state at most.
\<close>

lemma ingest_again:
  assumes "signals_inv is_uuid st"
    and "signal_ingest is_uuid now p st = (Inr res, st1)" and "ip_externalId p = Some x" and "x \<noteq> []"
    and "st2 = signals_after is_uuid ops' st1"
    and "ip_tenantId q = ip_tenantId p" and "ip_source q = ip_source p" and "ip_externalId q = Some x"
  shows "\<exists>e. signal_ingest is_uuid now' q st2 = (Inr \<lparr>ir_event = e, ir_isDuplicate = True\<rparr>, st2) \<and>
    same_signal (ir_event res) e"
proof -
  note inv = assms(1)
  have uuid: "is_uuid (ip_tenantId p)" using assms(2) by (auto simp: signal_ingest_def split: if_splits)
  have inv1: "signals_inv is_uuid st1" by (rule ingest_inv [OF inv assms(2)])
  have stored: "ir_event res \<in> set (sv_records st1) \<and> identity_of (ir_event res) = Some (ip_tenantId p, ip_source p, x)"
  proof (cases "stored_twin p st")
    case (Some r)
    with ingest_duplicate [OF inv uuid Some, of now] assms(2,3) twin_identity [OF Some] show ?thesis by auto
  next
    case None
    obtain st0 where "signal_ingest is_uuid now p st = ingest_new is_uuid now p st0"
      by (rule ingest_first [where i = 0 and now = now, of is_uuid p st]) (use uuid None in blast)+
    with assms(2-4) show ?thesis
      by (auto simp: ingest_new_eq identity_of_ingested split: if_splits)
  qed
  have inv2: "signals_inv is_uuid st2" unfolding assms(5) by (rule after_inv [OF inv1])
  from after_same [OF inv1 conjunct1 [OF stored]] obtain e where
      e: "e \<in> set (sv_records st2)" "same_signal (ir_event res) e" unfolding assms(5) by blast
  have id: "identity_of e = Some (ip_tenantId q, ip_source q, x)"
    using same_signalD [OF e(2)] stored assms(6,7) by simp
  obtain e' where e': "stored_twin q st2 = Some e'"
  proof (cases "stored_twin q st2")
    case None
    from twin_none [OF None e(1), of now 0] id assms(4,8) show thesis by (simp add: identity_of_ingested)
  qed
  have "e' = e"
  proof -
    have "e' \<in> set (filter (\<lambda>r. identity_of r \<noteq> None) (sv_records st2))"
        "e \<in> set (filter (\<lambda>r. identity_of r \<noteq> None) (sv_records st2))" "identity_of e' = identity_of e"
      using twin_identity [OF e'] e(1) id assms(8) by simp_all
    with signals_invD(6) [OF inv2] show ?thesis by (auto simp: distinct_map dest: inj_onD)
  qed
  with ingest_duplicate [OF inv2 _ e', of now'] uuid assms(6) e(2) show ?thesis by auto
qed

end
