(* ===== verification/SignalRouter.thy ===== *)
theory SignalRouter
  imports SignalEvents N8nClient
begin

text \<open>
  From the inbox of signals to the work they cause: \<open>src/packages/core/src/stable-id.ts\<close>,
  \<open>src/packages/llm-harness/src/signal-grade.ts\<close> and, of \<open>src/apps/worker-signal-router/src\<close>, \<open>contracts.ts\<close>,
  \<open>signal-quality-grader.ts\<close>, \<open>signal-router.ts\<close>, \<open>signal-ingestion-worker.ts\<close> and the polling of \<open>index.ts\<close>.
  The worker claims the signals of a tenant, routes each one through two commands to the outbox and marks it as processed; a signal whose
  routing fails is released.

  The outbox is reached through \<open>enqueue\<close>, a field of the dependencies as in the code, so that it may fail. SHA-256 (in hexadecimal),
  the language model, \<open>JSON.parse\<close> and \<open>Number\<close> are parameters; \<open>clock i k\<close> is the \<open>k\<close>-th reading of the clock while the signal \<open>i\<close> is
  processed. Prefixes: \<open>gr_\<close> (grade), \<open>ig_\<close> (incoming signal), \<open>rt_\<close> (routed signal), \<open>rd_\<close> and \<open>sw_\<close> (dependencies of the
  router and the worker), \<open>sp_\<close> (result of a pass), \<open>ib_\<close> (the two repositories).
\<close>

section \<open>Stable identifiers\<close>

unbundle bit_operations_syntax

definition slice :: "nat \<Rightarrow> nat \<Rightarrow> string \<Rightarrow> string" where
  "slice start stop s = drop start (take stop s)"

definition deterministicUuid :: "(string \<Rightarrow> string) \<Rightarrow> string \<Rightarrow> string" where
  "deterministicUuid sha256 namespace =
     (let hash = sha256 namespace;
          variant = ((hex_value (if 16 < length hash then hash ! 16 else CHR ''8'') AND 3) OR 8)
      in slice 0 8 hash @ ''-'' @ slice 8 12 hash @ ''-5'' @ slice 13 16 hash @ ''-'' @
         hex_digit variant # slice 17 20 hash @ ''-'' @ slice 20 32 hash)"

section \<open>Grading\<close>

record signalGrade =
  gr_relevance :: number
  gr_urgency :: string
  gr_topicCategory :: string
  gr_actionRecommendations :: "string list"

definition signalGrade_ok :: "signalGrade \<Rightarrow> bool" where
  "signalGrade_ok g \<longleftrightarrow>
     in_unit (gr_relevance g) \<and> gr_urgency g \<in> {''low'', ''medium'', ''high''} \<and> gr_topicCategory g \<noteq> []"

definition any_string :: zod where
  "any_string = ZString id (\<lambda>_. True)"

definition llmGradeResponseSchema :: zod where
  "llmGradeResponseSchema =
     ZObject
       [(''relevance'', Required, ZNumber in_unit), (''urgency'', Required, ZEnum [''low'', ''medium'', ''high'']),
        (''topic_category'', Optional, any_string), (''topicCategory'', Optional, any_string),
        (''action_recommendations'', Optional, ZArray 0 any_string),
        (''actionRecommendations'', Optional, ZArray 0 any_string)]"

fun strings_at :: "string \<Rightarrow> json_record \<Rightarrow> string list option" where
  "strings_at k fs =
     (case map_of fs k of Some (JArr vs) \<Rightarrow> Some (map (\<lambda>v. case v of JStr s \<Rightarrow> s | _ \<Rightarrow> []) vs) | _ \<Rightarrow> None)"

fun rational_at :: "string \<Rightarrow> json_record \<Rightarrow> number" where
  "rational_at k fs = (case map_of fs k of Some (JNum n) \<Rightarrow> n | _ \<Rightarrow> 0)"

text \<open>The schema's transform.\<close>

definition grade_of :: "json_record \<Rightarrow> signalGrade" where
  "grade_of v =
     \<lparr>gr_relevance = rational_at ''relevance'' v, gr_urgency = string_at ''urgency'' v,
      gr_topicCategory =
        nullish_or (nullish (string_opt_at ''topicCategory'' v) (string_opt_at ''topic_category'' v)) ''general'',
      gr_actionRecommendations =
        nullish_or (nullish (strings_at ''actionRecommendations'' v) (strings_at ''action_recommendations'' v)) []\<rparr>"

definition parseGrade :: "json \<Rightarrow> signalGrade option" where
  "parseGrade raw =
     (case zparse llmGradeResponseSchema raw of
        Some (JObj v) \<Rightarrow> if signalGrade_ok (grade_of v) then Some (grade_of v) else None
      | _ \<Rightarrow> None)"

text \<open>What the prompt is rendered from; the payload is printed into it as indented JSON.\<close>

record gradeVariables =
  gv_tenantId :: string
  gv_signalType :: string
  gv_source :: string
  gv_payload :: json_record
  gv_motionContext :: string

text \<open>\<open>content.match(/\{[\s\S]*\}/)\<close>: from the first opening to the last closing brace.\<close>

definition braced_part :: "string \<Rightarrow> string option" where
  "braced_part content =
     (let s = dropWhile (\<lambda>c. c \<noteq> CHR ''{'') content;
          t = rev (dropWhile (\<lambda>c. c \<noteq> CHR ''}'') (rev s))
      in if t = [] then None else Some t)"

text \<open>A call of the model gives its content, or throws.\<close>

type_synonym llmCallRunner = "gradeVariables \<Rightarrow> string option"

definition gradeSignalPayload ::
  "(string \<Rightarrow> json result) \<Rightarrow> llmCallRunner \<Rightarrow> gradeVariables \<Rightarrow> signalGrade option" where
  "gradeSignalPayload JSON_parse run input =
     (case run input of
        None \<Rightarrow> None
      | Some content \<Rightarrow>
          (case braced_part content of
             None \<Rightarrow> None
           | Some t \<Rightarrow> (case JSON_parse t of Inl _ \<Rightarrow> None | Inr v \<Rightarrow> parseGrade v)))"

section \<open>Contracts of the router\<close>

record incomingSignal =
  ig_tenantId :: string
  ig_signalId :: string
  ig_dedupeKey :: string
  ig_source :: string
  ig_kind :: string
  ig_payload :: json_record

definition incomingSignal_ok :: "(string \<Rightarrow> bool) \<Rightarrow> 'a incomingSignal_scheme \<Rightarrow> bool" where
  "incomingSignal_ok is_uuid s \<longleftrightarrow>
     is_uuid (ig_tenantId s) \<and> ig_signalId s \<noteq> [] \<and> ig_dedupeKey s \<noteq> [] \<and> ig_source s \<noteq> [] \<and> ig_kind s \<noteq> []"

definition incomingSignalSchema_parse :: "(string \<Rightarrow> bool) \<Rightarrow> incomingSignal \<Rightarrow> incomingSignal result" where
  "incomingSignalSchema_parse is_uuid = zod_parse id (incomingSignal_ok is_uuid)"

definition signalPriorityValues :: "string list" where
  "signalPriorityValues = [''P0'', ''P1'', ''P2'', ''P3'']"

record routedSignal = incomingSignal +
  rt_priority :: string
  rt_targetAgent :: string
  rt_halfLifeMinutes :: number
  rt_routedAt :: date
  rt_grade :: "signalGrade option"

definition routedSignal_ok :: "(string \<Rightarrow> bool) \<Rightarrow> routedSignal \<Rightarrow> bool" where
  "routedSignal_ok is_uuid s \<longleftrightarrow>
     incomingSignal_ok is_uuid s \<and> rt_priority s \<in> set signalPriorityValues \<and> rt_targetAgent s \<noteq> [] \<and>
     is_positive_int (rt_halfLifeMinutes s) \<and> pred_opt signalGrade_ok (rt_grade s)"

definition routedSignalSchema_parse :: "(string \<Rightarrow> bool) \<Rightarrow> routedSignal \<Rightarrow> routedSignal result" where
  "routedSignalSchema_parse is_uuid = zod_parse id (routedSignal_ok is_uuid)"

section \<open>The router\<close>

text \<open>\<open>classifySignal\<close>: priority, target agent and half-life in minutes.\<close>

definition classifySignal :: "string \<Rightarrow> string \<times> string \<times> number" where
  "classifySignal kind =
     (if kind = ''prospect.replied'' then (''P0'', ''warm_outbound_researcher'', 30)
      else if kind = ''competitor.pricing_change'' then (''P1'', ''intel_director'', 120)
      else if kind = ''approval.rejected'' then (''P2'', ''learning_director'', 1440)
      else (''P2'', ''intel_director'', 1440))"

type_synonym enqueue = "enqueueOutboxEvent \<Rightarrow> outbox \<Rightarrow> (js_error + storedOutboxEvent) \<times> outbox"

record signalRouterDeps =
  rd_enqueue :: enqueue
  rd_llmCallRunner :: "llmCallRunner option"
  rd_motionContext :: "string option"

definition gradeSignal ::
  "(string \<Rightarrow> json result) \<Rightarrow> llmCallRunner \<Rightarrow> string option \<Rightarrow> incomingSignal \<Rightarrow> signalGrade option" where
  "gradeSignal JSON_parse run motionContext signal =
     gradeSignalPayload JSON_parse run
       \<lparr>gv_tenantId = ig_tenantId signal, gv_signalType = ig_kind signal, gv_source = ig_source signal,
        gv_payload = ig_payload signal, gv_motionContext = nullish_or motionContext ''inbound_content, plg''\<rparr>"

definition grade_json :: "signalGrade \<Rightarrow> json" where
  "grade_json g =
     JObj [(''relevance'', JNum (gr_relevance g)), (''urgency'', JStr (gr_urgency g)),
           (''topic_category'', JStr (gr_topicCategory g)),
           (''action_recommendations'', JArr (map JStr (gr_actionRecommendations g)))]"

definition routed_command :: "routedSignal \<Rightarrow> enqueueOutboxEvent" where
  "routed_command routed =
     \<lparr>oc_tenantId = ig_tenantId routed, oc_eventType = ''signal.routed.v1'', oc_idempotencyKey = ig_dedupeKey routed,
      oc_payload =
        [(''signal_id'', JStr (ig_signalId routed)), (''source'', JStr (ig_source routed)),
         (''kind'', JStr (ig_kind routed)), (''priority'', JStr (rt_priority routed)),
         (''target_agent'', JStr (rt_targetAgent routed)), (''half_life_minutes'', JNum (rt_halfLifeMinutes routed)),
         (''payload'', JObj (ig_payload routed)), (''routed_at'', JStr (toISOString (rt_routedAt routed)))] @
        (case rt_grade routed of None \<Rightarrow> [] | Some g \<Rightarrow> [(''grade'', grade_json g)])\<rparr>"

definition route ::
  "(string \<Rightarrow> bool) \<Rightarrow> (string \<Rightarrow> json result) \<Rightarrow> signalRouterDeps \<Rightarrow> date \<Rightarrow> incomingSignal \<Rightarrow> outbox \<Rightarrow>
   (js_error + routedSignal) \<times> outbox" where
  "route is_uuid JSON_parse deps now input ob =
     or_throw (incomingSignalSchema_parse is_uuid input) ob (\<lambda>signal.
       (let grade = (case rd_llmCallRunner deps of
                       None \<Rightarrow> None
                     | Some run \<Rightarrow> gradeSignal JSON_parse run (rd_motionContext deps) signal)
        in case classifySignal (ig_kind signal) of (priority, targetAgent, halfLifeMinutes) \<Rightarrow>
             or_throw (routedSignalSchema_parse is_uuid
               (incomingSignal.extend signal (routedSignal.fields priority targetAgent halfLifeMinutes now grade))) ob
               (\<lambda>routed. then_do (rd_enqueue deps (routed_command routed)) (\<lambda>_ ob'. (Inr routed, ob')) ob)))"

section \<open>Requests for work\<close>

text \<open>\<open>asRecord\<close>, and \<open>??\<close> on the members of a parsed object: \<open>null\<close> counts as absent.\<close>

definition asRecord :: "json option \<Rightarrow> json_record" where
  "asRecord v = (case v of Some (JObj fs) \<Rightarrow> fs | _ \<Rightarrow> [])"

definition present :: "string \<Rightarrow> json_record \<Rightarrow> json option" where
  "present k fs = (case map_of fs k of Some v \<Rightarrow> if v = JNull then None else Some v | None \<Rightarrow> None)"

fun text_value :: "json option \<Rightarrow> string option" where
  "text_value (Some (JStr s)) = (if trim s = [] then None else Some (trim s))"
| "text_value _ = None"

definition resolveExperimentId :: "(string \<Rightarrow> bool) \<Rightarrow> signalEventRecord \<Rightarrow> string option" where
  "resolveExperimentId is_uuid signal =
     (let payload = se_payload signal; metadata = asRecord (map_of payload ''metadata'');
          candidate = nullish (present ''experiment_id'' payload) (nullish (present ''experimentId'' payload)
            (nullish (present ''experiment_id'' metadata) (present ''experimentId'' metadata)))
      in case candidate of Some (JStr s) \<Rightarrow> if is_uuid s then Some s else None | _ \<Rightarrow> None)"

definition resolveSignalKind :: "signalEventRecord \<Rightarrow> string" where
  "resolveSignalKind signal =
     (let payload = se_payload signal; metadata = asRecord (map_of payload ''metadata'')
      in nullish_or (nullish (text_value (map_of payload ''kind''))
           (nullish (text_value (map_of payload ''event_kind'')) (text_value (map_of metadata ''kind''))))
           (''signal.'' @ se_signalType signal))"

definition signal_number :: "signalEventRecord \<Rightarrow> string" where
  "signal_number signal = show_nat (se_id signal)"

definition asDateString :: "date \<Rightarrow> string" where
  "asDateString t = take 10 (toISOString t)"

definition createIntelBriefRequestFromSignal ::
  "(string \<Rightarrow> bool) \<Rightarrow> (string \<Rightarrow> string) \<Rightarrow> signalEventRecord \<Rightarrow> routedSignal \<Rightarrow> enqueueOutboxEvent" where
  "createIntelBriefRequestFromSignal is_uuid sha256 signal routed =
     \<lparr>oc_tenantId = se_tenantId signal, oc_eventType = ''intel_brief.requested.v1'',
      oc_idempotencyKey = ''intel-brief-request:'' @ signal_number signal,
      oc_payload =
        [(''schema_version'', JStr ''intel_brief_requested.v1''),
         (''request_id'', JStr (deterministicUuid sha256 (se_tenantId signal @ '':intel-brief:'' @ signal_number signal))),
         (''tenant_id'', JStr (se_tenantId signal))] @
        (case resolveExperimentId is_uuid signal of
           None \<Rightarrow> [] | Some x \<Rightarrow> if x = [] then [] else [(''experiment_id'', JStr x)]) @
        [(''period_from'', JStr (asDateString (se_createdAt signal))),
         (''period_to'', JStr (asDateString (se_createdAt signal))), (''requested_by'', JStr ''signal_router''),
         (''trigger'', JObj
            [(''signal_id'', JStr (signal_number signal)), (''signal_type'', JStr (se_signalType signal)),
             (''source'', JStr (se_source signal)), (''kind'', JStr (resolveSignalKind signal)),
             (''priority'', JStr (rt_priority routed)), (''payload'', JObj (se_payload signal)),
             (''occurred_at'', JStr (toISOString (se_createdAt signal)))])]\<rparr>"

definition createAgentWorkRequestFromSignal ::
  "(string \<Rightarrow> string) \<Rightarrow> date \<Rightarrow> signalEventRecord \<Rightarrow> routedSignal \<Rightarrow> enqueueOutboxEvent" where
  "createAgentWorkRequestFromSignal sha256 now signal routed =
     \<lparr>oc_tenantId = se_tenantId signal, oc_eventType = ''agent.work.requested.v1'',
      oc_idempotencyKey = ''agent-work:'' @ rt_targetAgent routed @ '':'' @ signal_number signal,
      oc_payload =
        [(''schema_version'', JStr ''agent_work_requested.v1''),
         (''request_id'', JStr (deterministicUuid sha256
            (se_tenantId signal @ '':'' @ rt_targetAgent routed @ '':'' @ signal_number signal))),
         (''tenant_id'', JStr (se_tenantId signal)), (''target_agent'', JStr (rt_targetAgent routed)),
         (''signal_id'', JStr (signal_number signal)), (''source'', JStr (se_source signal)),
         (''kind'', JStr (resolveSignalKind signal)), (''priority'', JStr (rt_priority routed)),
         (''half_life_minutes'', JNum (rt_halfLifeMinutes routed)), (''payload'', JObj (se_payload signal)),
         (''requested_at'', JStr (toISOString now))]\<rparr>"

section \<open>The worker\<close>

record inbox =
  ib_signals :: signalEvents
  ib_outbox :: outbox

record signalIngestionWorker =
  sw_enqueue :: enqueue
  sw_signalRouter :: signalRouterDeps
  sw_claimOwner :: string
  sw_claimLeaseMs :: number

text \<open>The constructor's defaults.\<close>

definition SignalIngestionWorker_new ::
  "string \<Rightarrow> enqueue \<Rightarrow> signalRouterDeps \<Rightarrow> string option \<Rightarrow> number option \<Rightarrow> signalIngestionWorker" where
  "SignalIngestionWorker_new uuid enqueue router claimOwner claimLeaseMs =
     \<lparr>sw_enqueue = enqueue, sw_signalRouter = router,
      sw_claimOwner = nullish_or claimOwner (''signal-router:'' @ uuid),
      sw_claimLeaseMs = nullish_or claimLeaseMs 60000\<rparr>"

definition incoming_of :: "signalEventRecord \<Rightarrow> incomingSignal" where
  "incoming_of signal =
     \<lparr>ig_tenantId = se_tenantId signal, ig_signalId = signal_number signal,
      ig_dedupeKey = ''signal:'' @ signal_number signal, ig_source = se_source signal,
      ig_kind = resolveSignalKind signal, ig_payload = se_payload signal\<rparr>"

definition downstream_command ::
  "(string \<Rightarrow> bool) \<Rightarrow> (string \<Rightarrow> string) \<Rightarrow> date \<Rightarrow> signalEventRecord \<Rightarrow> routedSignal \<Rightarrow> enqueueOutboxEvent" where
  "downstream_command is_uuid sha256 now signal routed =
     (if rt_targetAgent routed = ''intel_director'' then createIntelBriefRequestFromSignal is_uuid sha256 signal routed
      else createAgentWorkRequestFromSignal sha256 now signal routed)"

definition processSignal ::
  "(string \<Rightarrow> bool) \<Rightarrow> (string \<Rightarrow> json result) \<Rightarrow> (string \<Rightarrow> string) \<Rightarrow> signalIngestionWorker \<Rightarrow> (nat \<Rightarrow> nat \<Rightarrow> date) \<Rightarrow>
   signalEventRecord \<Rightarrow> inbox \<Rightarrow> (js_error + unit) \<times> inbox" where
  "processSignal is_uuid JSON_parse sha256 worker clock signal st =
     (case route is_uuid JSON_parse (sw_signalRouter worker) (clock (se_id signal) 0) (incoming_of signal) (ib_outbox st) of
        (Inl e, ob) \<Rightarrow> (Inl e, st\<lparr>ib_outbox := ob\<rparr>)
      | (Inr routed, ob) \<Rightarrow>
          (case sw_enqueue worker (downstream_command is_uuid sha256 (clock (se_id signal) 1) signal routed) ob of
             (Inl e, ob') \<Rightarrow> (Inl e, st\<lparr>ib_outbox := ob'\<rparr>)
           | (Inr _, ob') \<Rightarrow>
               (Inr (), st\<lparr>ib_outbox := ob',
                           ib_signals := signal_markProcessed (clock (se_id signal) 2) (se_tenantId signal)
                             [se_id signal] (ib_signals st)\<rparr>)))"

record signalProcessingResult =
  sp_processedSignalIds :: "string list"
  sp_failures :: "(string \<times> js_error) list"

text \<open>The inner loop: process each claimed signal, or release it and note the failure.\<close>

fun process_signals ::
  "(string \<Rightarrow> bool) \<Rightarrow> (string \<Rightarrow> json result) \<Rightarrow> (string \<Rightarrow> string) \<Rightarrow> signalIngestionWorker \<Rightarrow> (nat \<Rightarrow> nat \<Rightarrow> date) \<Rightarrow>
   signalEventRecord list \<Rightarrow> signalProcessingResult \<Rightarrow> inbox \<Rightarrow> signalProcessingResult \<times> inbox" where
  "process_signals is_uuid JSON_parse sha256 worker clock [] res st = (res, st)"
| "process_signals is_uuid JSON_parse sha256 worker clock (signal # signals) res st =
     (case processSignal is_uuid JSON_parse sha256 worker clock signal st of
        (Inr _, st') \<Rightarrow>
          process_signals is_uuid JSON_parse sha256 worker clock signals
            (res\<lparr>sp_processedSignalIds := sp_processedSignalIds res @ [signal_number signal]\<rparr>) st'
      | (Inl e, st') \<Rightarrow>
          process_signals is_uuid JSON_parse sha256 worker clock signals
            (res\<lparr>sp_failures := sp_failures res @ [(signal_number signal, e)]\<rparr>)
            (st'\<lparr>ib_signals := signal_releaseClaims (se_tenantId signal) [se_id signal] (sw_claimOwner worker)
                                (ib_signals st')\<rparr>))"

fun process_types ::
  "(string \<Rightarrow> bool) \<Rightarrow> (string \<Rightarrow> json result) \<Rightarrow> (string \<Rightarrow> string) \<Rightarrow> signalIngestionWorker \<Rightarrow> (nat \<Rightarrow> nat \<Rightarrow> date) \<Rightarrow>
   (string \<Rightarrow> date) \<Rightarrow> string \<Rightarrow> int \<Rightarrow> string list \<Rightarrow> signalProcessingResult \<Rightarrow> inbox \<Rightarrow>
   (js_error + signalProcessingResult) \<times> inbox" where
  "process_types is_uuid JSON_parse sha256 worker clock claimed_at tenantId batch [] res st = (Inr res, st)"
| "process_types is_uuid JSON_parse sha256 worker clock claimed_at tenantId batch (ty # tys) res st =
     (case signal_claimUnprocessed is_uuid (claimed_at ty) tenantId ty batch
             \<lparr>sc_owner = sw_claimOwner worker, sc_leaseMs = sw_claimLeaseMs worker\<rparr> (ib_signals st) of
        (Inl e, signals) \<Rightarrow> (Inl e, st\<lparr>ib_signals := signals\<rparr>)
      | (Inr claimed, signals) \<Rightarrow>
          (case process_signals is_uuid JSON_parse sha256 worker clock claimed res (st\<lparr>ib_signals := signals\<rparr>) of
             (res', st') \<Rightarrow>
               process_types is_uuid JSON_parse sha256 worker clock claimed_at tenantId batch tys res' st'))"

definition processTenant ::
  "(string \<Rightarrow> bool) \<Rightarrow> (string \<Rightarrow> json result) \<Rightarrow> (string \<Rightarrow> string) \<Rightarrow> signalIngestionWorker \<Rightarrow> (nat \<Rightarrow> nat \<Rightarrow> date) \<Rightarrow>
   (string \<Rightarrow> date) \<Rightarrow> string \<Rightarrow> int \<Rightarrow> inbox \<Rightarrow> (js_error + signalProcessingResult) \<times> inbox" where
  "processTenant is_uuid JSON_parse sha256 worker clock claimed_at tenantId batch =
     process_types is_uuid JSON_parse sha256 worker clock claimed_at tenantId batch signalTypeValues
       \<lparr>sp_processedSignalIds = [], sp_failures = []\<rparr>"

section \<open>The runtime\<close>

record signalRouterRuntimeConfig =
  rc_tenantIds :: "string list"
  rc_batchSizePerSignalType :: number
  rc_pollIntervalMs :: number
  rc_claimLeaseMs :: number

definition signalRouterRuntimeConfig_ok :: "(string \<Rightarrow> bool) \<Rightarrow> signalRouterRuntimeConfig \<Rightarrow> bool" where
  "signalRouterRuntimeConfig_ok is_uuid c \<longleftrightarrow>
     rc_tenantIds c \<noteq> [] \<and> list_all is_uuid (rc_tenantIds c) \<and>
     is_positive_int (rc_batchSizePerSignalType c) \<and> rc_batchSizePerSignalType c \<le> 500 \<and>
     is_positive_int (rc_pollIntervalMs c) \<and> rc_pollIntervalMs c \<le> 60000 \<and>
     is_integer (rc_claimLeaseMs c) \<and> 1000 \<le> rc_claimLeaseMs c \<and> rc_claimLeaseMs c \<le> 15 * 60000"

text \<open>\<open>value.split(",")\<close>.\<close>

fun split_commas :: "string \<Rightarrow> string list" where
  "split_commas [] = [[]]"
| "split_commas (c # s) =
     (if c = CHR '','' then [] # split_commas s
      else (case split_commas s of [] \<Rightarrow> [[c]] | w # ws \<Rightarrow> (c # w) # ws))"

text \<open>\<open>Number(s)\<close> is \<open>None\<close> for a text that is not a number; the schema refuses \<open>NaN\<close>.\<close>

definition signalRouterRuntimeConfigFromEnv ::
  "(string \<Rightarrow> bool) \<Rightarrow> (string \<Rightarrow> number option) \<Rightarrow> (string \<Rightarrow> string option) \<Rightarrow> signalRouterRuntimeConfig result" where
  "signalRouterRuntimeConfigFromEnv is_uuid number_of env =
     (let tenantIds = filter (\<lambda>v. 0 < length v) (map trim (split_commas
            (nullish_or (nullish (env ''SIGNAL_ROUTER_TENANT_IDS'') (env ''OUTBOX_TENANT_IDS'')) [])))
      in case (number_of (nullish_or (env ''SIGNAL_ROUTER_BATCH_SIZE_PER_SIGNAL_TYPE'') ''50''),
               number_of (nullish_or (env ''SIGNAL_ROUTER_POLL_INTERVAL_MS'') ''1000''),
               number_of (nullish_or (env ''SIGNAL_ROUTER_CLAIM_LEASE_MS'') ''60000'')) of
           (Some batch, Some poll, Some lease) \<Rightarrow>
             zod_parse id (signalRouterRuntimeConfig_ok is_uuid)
               \<lparr>rc_tenantIds = tenantIds, rc_batchSizePerSignalType = batch, rc_pollIntervalMs = poll,
                rc_claimLeaseMs = lease\<rparr>
         | _ \<Rightarrow> Inl ZodError)"

text \<open>
  One tick: a pass over every tenant in turn, unless one is running (\<open>ticking\<close>); the \<open>finally\<close> block ends it. The results, per
  tenant, are what the code logs.
\<close>

fun tick_tenants ::
  "(string \<Rightarrow> inbox \<Rightarrow> (js_error + signalProcessingResult) \<times> inbox) \<Rightarrow> string list \<Rightarrow> inbox \<Rightarrow>
   (js_error + (string \<times> signalProcessingResult) list) \<times> inbox" where
  "tick_tenants pass [] st = (Inr [], st)"
| "tick_tenants pass (t # ts) st =
     then_do (pass t) (\<lambda>res. then_do (tick_tenants pass ts) (\<lambda>log st'. (Inr ((t, res) # log), st'))) st"

definition router_tick ::
  "(string \<Rightarrow> inbox \<Rightarrow> (js_error + signalProcessingResult) \<times> inbox) \<Rightarrow> signalRouterRuntimeConfig \<Rightarrow> bool \<Rightarrow> inbox \<Rightarrow>
   (js_error + (string \<times> signalProcessingResult) list) \<times> inbox" where
  "router_tick pass config ticking st = (if ticking then (Inr [], st) else tick_tenants pass (rc_tenantIds config) st)"

end
