(* ===== verification/SignalDelivery.thy ===== *)
theory SignalDelivery
  imports SignalRouter
begin

text \<open>
  What the signal worker guarantees. The outbox may fail at any call (\<open>faithful_enqueue\<close>), several workers may work on the same inbox
  (\<open>inbox_step\<close>), and still a signal is marked as processed only when the commands it causes are filed; one pass settles every
  signal it claims.
\<close>

section \<open>What is relied on from the outbox\<close>

text \<open>
  A call of \<open>enqueue\<close> stores the command as the repository does, or leaves the outbox as it is and throws; it may throw after
  storing as well. It reports an event only if that event is stored.
\<close>

definition faithful_enqueue :: "(string \<Rightarrow> bool) \<Rightarrow> enqueue \<Rightarrow> bool" where
  "faithful_enqueue is_uuid enqueue \<longleftrightarrow>
     (\<forall>c ob r ob'. outbox_inv is_uuid ob \<longrightarrow> enqueue c ob = (r, ob') \<longrightarrow>
        (\<exists>now e. outbox_enqueue is_uuid c now ob = Inr (e, ob') \<and> (r = Inr e \<or> isl r)) \<or> ob' = ob \<and> isl r)"

definition working_enqueue :: "(string \<Rightarrow> bool) \<Rightarrow> enqueue \<Rightarrow> bool" where
  "working_enqueue is_uuid enqueue \<longleftrightarrow>
     (\<forall>c ob. outbox_inv is_uuid ob \<longrightarrow> enqueueOutboxEvent_ok is_uuid c \<longrightarrow> \<not> isl (fst (enqueue c ob)))"

definition faithful_worker :: "(string \<Rightarrow> bool) \<Rightarrow> signalIngestionWorker \<Rightarrow> bool" where
  "faithful_worker is_uuid worker \<longleftrightarrow>
     faithful_enqueue is_uuid (sw_enqueue worker) \<and> faithful_enqueue is_uuid (rd_enqueue (sw_signalRouter worker))"

text \<open>The in-memory repository, called at a fixed time, is such an outbox and always works.\<close>

definition memory_enqueue :: "(string \<Rightarrow> bool) \<Rightarrow> date \<Rightarrow> enqueue" where
  "memory_enqueue is_uuid now c ob =
     (case outbox_enqueue is_uuid c now ob of Inl e \<Rightarrow> (Inl e, ob) | Inr (e, ob') \<Rightarrow> (Inr e, ob'))"

lemma memory_enqueue_faithful: "faithful_enqueue is_uuid (memory_enqueue is_uuid now)"
  unfolding faithful_enqueue_def memory_enqueue_def by (fastforce split: sum.splits prod.splits)

lemma memory_enqueue_works: "working_enqueue is_uuid (memory_enqueue is_uuid now)"
  unfolding working_enqueue_def
proof (intro allI impI)
  fix c ob assume "outbox_inv is_uuid ob" "enqueueOutboxEvent_ok is_uuid c"
  from enqueue_valid_succeeds [OF this, of now] show "\<not> isl (fst (memory_enqueue is_uuid now c ob))"
    by (auto simp: memory_enqueue_def)
qed

definition has_key :: "string \<Rightarrow> outbox \<Rightarrow> bool" where
  "has_key k ob \<longleftrightarrow> find_existing (ob_events ob) k \<noteq> None"

text \<open>An outbox that holds at least what another one held.\<close>

definition extends :: "(string \<Rightarrow> bool) \<Rightarrow> outbox \<Rightarrow> outbox \<Rightarrow> bool" where
  "extends is_uuid ob ob' \<longleftrightarrow> outbox_inv is_uuid ob' \<and> (\<forall>k. has_key k ob \<longrightarrow> has_key k ob')"

lemma extends_refl: "outbox_inv is_uuid ob \<Longrightarrow> extends is_uuid ob ob"
  by (simp add: extends_def)

lemma extends_trans: "extends is_uuid ob ob' \<Longrightarrow> extends is_uuid ob' ob'' \<Longrightarrow> extends is_uuid ob ob''"
  by (simp add: extends_def)

lemma extends_enqueue:
  "outbox_inv is_uuid ob \<Longrightarrow> outbox_enqueue is_uuid c now ob = Inr (e, ob') \<Longrightarrow>
     extends is_uuid ob ob' \<and> has_key (command_key c) ob'"
  using outbox_enqueue_inv enqueue_keeps_filed enqueue_files by (fastforce simp: extends_def has_key_def)

lemma extends_step: "outbox_step is_uuid ob ob' \<Longrightarrow> outbox_inv is_uuid ob \<Longrightarrow> extends is_uuid ob ob'"
proof (induction rule: outbox_step.induct)
  case (step_enqueue c now ob e ob')
  then show ?case using extends_enqueue by blast
next
  case (step_consume t i tm ob e ob')
  then show ?case
    using mark_keeps_filed [OF step_consume.prems step_consume.hyps] outbox_markConsumed_inv [OF step_consume.prems step_consume.hyps]
    by (fastforce simp: extends_def has_key_def)
qed

lemma send:
  assumes "faithful_enqueue is_uuid enq" and "outbox_inv is_uuid ob" and "enq c ob = (r, ob')"
  shows "extends is_uuid ob ob' \<and> (\<not> isl r \<longrightarrow> has_key (command_key c) ob')"
  using assms extends_enqueue extends_refl unfolding faithful_enqueue_def by (metis sum.disc(2))

section \<open>Keys of a signal's commands\<close>

definition target_agent :: "signalEventRecord \<Rightarrow> string" where
  "target_agent r = fst (snd (classifySignal (resolveSignalKind r)))"

definition routed_key :: "signalEventRecord \<Rightarrow> string" where
  "routed_key r = outboxIdempotencyKey (se_tenantId r) ''signal.routed.v1'' (''signal:'' @ signal_number r)"

definition work_key :: "signalEventRecord \<Rightarrow> string" where
  "work_key r =
     (if target_agent r = ''intel_director''
      then outboxIdempotencyKey (se_tenantId r) ''intel_brief.requested.v1'' (''intel-brief-request:'' @ signal_number r)
      else outboxIdempotencyKey (se_tenantId r) ''agent.work.requested.v1''
             (''agent-work:'' @ target_agent r @ '':'' @ signal_number r))"

definition delivered :: "outbox \<Rightarrow> signalEventRecord \<Rightarrow> bool" where
  "delivered ob r \<longleftrightarrow> has_key (routed_key r) ob \<and> has_key (work_key r) ob"

lemma delivered_extends: "extends is_uuid ob ob' \<Longrightarrow> delivered ob r \<Longrightarrow> delivered ob' r"
  by (simp add: delivered_def extends_def)

lemma resolve_same: "same_signal r r' \<Longrightarrow> resolveSignalKind r' = resolveSignalKind r"
  using same_signalD by (simp add: resolveSignalKind_def)

lemma delivered_same: "same_signal r r' \<Longrightarrow> delivered ob r' \<longleftrightarrow> delivered ob r"
  using same_signalD [of r r'] resolve_same [of r r']
  by (simp add: delivered_def routed_key_def work_key_def target_agent_def signal_number_def)

section \<open>Routing one signal\<close>

lemma classify_ok:
  "classifySignal kind = (p, a, h) \<Longrightarrow> p \<in> set signalPriorityValues \<and> a \<noteq> [] \<and> is_positive_int h"
  by (auto simp: classifySignal_def signalPriorityValues_def is_positive_int_def split: if_splits)

lemma parsed_grade_ok: "gradeSignal JSON_parse run m s = Some g \<Longrightarrow> signalGrade_ok g"
  by (auto simp: gradeSignal_def gradeSignalPayload_def parseGrade_def split: option.splits sum.splits json.splits if_splits)

lemma kind_nonempty: "resolveSignalKind r \<noteq> []"
proof -
  have nonempty: "text_value v = Some s \<Longrightarrow> s \<noteq> []" for v s by (cases v rule: text_value.cases) (auto split: if_splits)
  have "nullish_or (nullish a (nullish b c)) d \<noteq> []"
    if "a \<noteq> Some []" "b \<noteq> Some []" "c \<noteq> Some []" "d \<noteq> []" for a b c and d :: string
    using that by (cases a; cases b; cases c) auto
  with nonempty show ?thesis unfolding resolveSignalKind_def Let_def by (metis append_is_Nil_conv list.distinct(1))
qed

lemma incoming_ok: "signalEventRecord_ok is_uuid r \<Longrightarrow> incomingSignal_ok is_uuid (incoming_of r)"
  by (simp add: signalEventRecord_ok_def incomingSignal_ok_def incoming_of_def signal_number_def kind_nonempty)

text \<open>What is routed: the incoming signal with its classification.\<close>

definition routed_from :: "signalEventRecord \<Rightarrow> routedSignal \<Rightarrow> bool" where
  "routed_from r routed \<longleftrightarrow>
     ig_tenantId routed = se_tenantId r \<and> ig_dedupeKey routed = ''signal:'' @ signal_number r \<and>
     rt_targetAgent routed = target_agent r"

lemma route_step:
  assumes "signalEventRecord_ok is_uuid r"
  obtains routed where "routed_from r routed"
    "route is_uuid JSON_parse deps now (incoming_of r) ob =
       then_do (rd_enqueue deps (routed_command routed)) (\<lambda>_ ob'. (Inr routed, ob')) ob"
proof -
  obtain p a h where c: "classifySignal (resolveSignalKind r) = (p, a, h)" by (cases "classifySignal (resolveSignalKind r)")
  define grade where "grade = (case rd_llmCallRunner deps of None \<Rightarrow> None
      | Some run \<Rightarrow> gradeSignal JSON_parse run (rd_motionContext deps) (incoming_of r))"
  define routed where "routed = incomingSignal.extend (incoming_of r) (routedSignal.fields p a h now grade)"
  have g: "pred_opt signalGrade_ok grade"
    unfolding pred_opt_iff grade_def using parsed_grade_ok by (auto split: option.splits)
  have "routedSignal_ok is_uuid routed"
    using classify_ok [OF c] incoming_ok [OF assms] g
    by (simp add: routedSignal_ok_def routed_def incomingSignal_ok_def incomingSignal.defs routedSignal.defs)
  then have "route is_uuid JSON_parse deps now (incoming_of r) ob =
       then_do (rd_enqueue deps (routed_command routed)) (\<lambda>_ ob'. (Inr routed, ob')) ob"
    using incoming_ok [OF assms] c
    by (simp add: route_def incomingSignalSchema_parse_def routedSignalSchema_parse_def zod_parse_def Let_def
        grade_def [symmetric] routed_def [symmetric] incoming_of_def [THEN arg_cong [of _ _ ig_kind]])
  moreover have "routed_from r routed"
    using c by (simp add: routed_from_def routed_def incomingSignal.defs routedSignal.defs incoming_of_def target_agent_def)
  ultimately show thesis by (rule that [rotated])
qed

text \<open>The two halves of \<open>processSignal\<close>.\<close>

lemma routed_command_key: "routed_from r routed \<Longrightarrow> command_key (routed_command routed) = routed_key r"
  by (simp add: routed_from_def routed_command_def routed_key_def)

lemma downstream_key: "routed_from r routed \<Longrightarrow> command_key (downstream_command is_uuid sha256 now r routed) = work_key r"
  by (simp add: routed_from_def downstream_command_def work_key_def createIntelBriefRequestFromSignal_def
      createAgentWorkRequestFromSignal_def)

lemma processSignal_cases:
  assumes "faithful_worker is_uuid w" and "outbox_inv is_uuid (ib_outbox st)" and "signalEventRecord_ok is_uuid r"
    and "processSignal is_uuid JSON_parse sha256 w clock r st = (res, st')"
  shows "extends is_uuid (ib_outbox st) (ib_outbox st') \<and>
    (if isl res then ib_signals st' = ib_signals st
     else delivered (ib_outbox st') r \<and>
       ib_signals st' = signal_markProcessed (clock (se_id r) 2) (se_tenantId r) [se_id r] (ib_signals st))"
proof -
  let ?enq1 = "rd_enqueue (sw_signalRouter w)" and ?enq2 = "sw_enqueue w"
  have f: "faithful_enqueue is_uuid ?enq1" "faithful_enqueue is_uuid ?enq2" using assms(1) by (simp_all add: faithful_worker_def)
  obtain routed where routed: "routed_from r routed"
      "route is_uuid JSON_parse (sw_signalRouter w) (clock (se_id r) 0) (incoming_of r) (ib_outbox st) =
         then_do (?enq1 (routed_command routed)) (\<lambda>_ ob'. (Inr routed, ob')) (ib_outbox st)"
    by (rule route_step [OF assms(3)])
  obtain r1 ob1 where 1: "?enq1 (routed_command routed) (ib_outbox st) = (r1, ob1)" by fastforce
  note s1 = send [OF f(1) assms(2) 1]
  show ?thesis
  proof (cases r1)
    case (Inl e)
    with routed(2) 1 assms(4) s1 show ?thesis by (auto simp: processSignal_def then_do_def)
  next
    case (Inr e)
    let ?c = "downstream_command is_uuid sha256 (clock (se_id r) 1) r routed"
    obtain r2 ob2 where 2: "?enq2 ?c ob1 = (r2, ob2)" by fastforce
    have ob1: "outbox_inv is_uuid ob1" using s1 by (simp add: extends_def)
    note s2 = send [OF f(2) ob1 2]
    have route: "route is_uuid JSON_parse (sw_signalRouter w) (clock (se_id r) 0) (incoming_of r) (ib_outbox st) = (Inr routed, ob1)"
      using routed(2) 1 Inr by (simp add: then_do_def)
    have ext: "extends is_uuid (ib_outbox st) ob2" using s1 s2 extends_trans by blast
    show ?thesis
    proof (cases r2)
      case (Inl e2)
      with route 2 assms(4) ext show ?thesis by (auto simp: processSignal_def)
    next
      case (Inr e2)
      have "has_key (routed_key r) ob1" using s1 \<open>r1 = Inr e\<close> routed_command_key [OF routed(1)] by simp
      then have "delivered ob2 r"
        using s2 Inr downstream_key [OF routed(1)] by (simp add: delivered_def extends_def)
      with Inr route 2 assms(4) ext show ?thesis by (auto simp: processSignal_def)
    qed
  qed
qed

text \<open>With an outbox that works nothing fails.\<close>

definition working_worker :: "(string \<Rightarrow> bool) \<Rightarrow> signalIngestionWorker \<Rightarrow> bool" where
  "working_worker is_uuid worker \<longleftrightarrow>
     working_enqueue is_uuid (sw_enqueue worker) \<and> working_enqueue is_uuid (rd_enqueue (sw_signalRouter worker))"

lemma signal_event_types:
  "outboxEventType_ok ''signal.routed.v1''" "outboxEventType_ok ''intel_brief.requested.v1''"
  "outboxEventType_ok ''agent.work.requested.v1''"
  by code_simp+

lemma commands_ok:
  assumes "signalEventRecord_ok is_uuid r" and "routed_from r routed"
  shows "enqueueOutboxEvent_ok is_uuid (routed_command routed)"
    "enqueueOutboxEvent_ok is_uuid (downstream_command is_uuid sha256 now r routed)"
  using assms signal_event_types
  by (simp_all add: enqueueOutboxEvent_ok_def routed_command_def routed_from_def signalEventRecord_ok_def
      downstream_command_def createIntelBriefRequestFromSignal_def createAgentWorkRequestFromSignal_def)

lemma processSignal_works:
  assumes "faithful_worker is_uuid w" and "working_worker is_uuid w" and "outbox_inv is_uuid (ib_outbox st)"
    and "signalEventRecord_ok is_uuid r"
    and "processSignal is_uuid JSON_parse sha256 w clock r st = (res, st')"
  shows "\<not> isl res"
proof -
  obtain routed where routed: "routed_from r routed"
      "route is_uuid JSON_parse (sw_signalRouter w) (clock (se_id r) 0) (incoming_of r) (ib_outbox st) =
         then_do (rd_enqueue (sw_signalRouter w) (routed_command routed)) (\<lambda>_ ob'. (Inr routed, ob')) (ib_outbox st)"
    by (rule route_step [OF assms(4)])
  obtain r1 ob1 where 1: "rd_enqueue (sw_signalRouter w) (routed_command routed) (ib_outbox st) = (r1, ob1)" by fastforce
  have "\<not> isl r1"
    using assms(2,3) commands_ok(1) [OF assms(4) routed(1)] 1 unfolding working_worker_def working_enqueue_def
    by (metis fst_conv)
  then obtain e where e: "r1 = Inr e" by (cases r1) auto
  have ob1: "outbox_inv is_uuid ob1"
    using send [where enq = "rd_enqueue (sw_signalRouter w)", OF _ assms(3) 1] assms(1)
    by (simp add: faithful_worker_def extends_def)
  obtain r2 ob2 where 2: "sw_enqueue w (downstream_command is_uuid sha256 (clock (se_id r) 1) r routed) ob1 = (r2, ob2)"
    by fastforce
  have "\<not> isl r2"
    using assms(2) ob1 commands_ok(2) [OF assms(4) routed(1)] 2 unfolding working_worker_def working_enqueue_def
    by (metis fst_conv)
  then obtain e2 where "r2 = Inr e2" by (cases r2) auto
  with assms(5) routed(2) 1 2 e show ?thesis by (auto simp: processSignal_def then_do_def)
qed

section \<open>Many workers on one inbox\<close>

text \<open>
  The steps of the inbox: signals arrive, a worker claims some, a worker that holds a snapshot of a signal processes it, a claim is released,
  and other parts of the system put events into the outbox or consume them. A worker that crashes simply makes no further step;
  two workers may process the same signal when a lease has run out.
\<close>

inductive inbox_step ::
  "(string \<Rightarrow> bool) \<Rightarrow> (string \<Rightarrow> json result) \<Rightarrow> (string \<Rightarrow> string) \<Rightarrow> inbox \<Rightarrow> inbox \<Rightarrow> bool"
  for is_uuid JSON_parse sha256 where
  arrive: "signal_ingest is_uuid now p (ib_signals st) = (res, s') \<Longrightarrow>
     inbox_step is_uuid JSON_parse sha256 st (st\<lparr>ib_signals := s'\<rparr>)"
| claim: "signal_claimUnprocessed is_uuid now t ty limit c (ib_signals st) = (res, s') \<Longrightarrow>
     inbox_step is_uuid JSON_parse sha256 st (st\<lparr>ib_signals := s'\<rparr>)"
| process: "faithful_worker is_uuid w \<Longrightarrow> r \<in> set (sv_records (ib_signals st)) \<Longrightarrow> same_signal r signal \<Longrightarrow>
     processSignal is_uuid JSON_parse sha256 w clock signal st = (res, st') \<Longrightarrow>
     inbox_step is_uuid JSON_parse sha256 st st'"
| release: "inbox_step is_uuid JSON_parse sha256 st
     (st\<lparr>ib_signals := signal_releaseClaims t ids owner (ib_signals st)\<rparr>)"
| outbox: "outbox_step is_uuid (ib_outbox st) ob' \<Longrightarrow> inbox_step is_uuid JSON_parse sha256 st (st\<lparr>ib_outbox := ob'\<rparr>)"

definition empty_inbox :: inbox where
  "empty_inbox = \<lparr>ib_signals = empty_signals, ib_outbox = empty_outbox\<rparr>"

definition inbox_inv :: "(string \<Rightarrow> bool) \<Rightarrow> inbox \<Rightarrow> bool" where
  "inbox_inv is_uuid st \<longleftrightarrow>
     signals_inv is_uuid (ib_signals st) \<and> outbox_inv is_uuid (ib_outbox st) \<and>
     (\<forall>r \<in> set (sv_records (ib_signals st)). se_processedAt r \<noteq> None \<longrightarrow> delivered (ib_outbox st) r)"

lemma inbox_inv_empty: "inbox_inv is_uuid empty_inbox"
  by (simp add: inbox_inv_def empty_inbox_def signals_inv_empty outbox_inv_empty) (simp add: empty_signals_def)

text \<open>Where a record comes from, backwards through an operation.\<close>

lemma effect_records:
  assumes "signals_inv is_uuid st" and "\<forall>now p. op \<noteq> Ingest now p"
  shows "sv_records (signal_apply is_uuid op st) = map (signal_effect is_uuid op st) (sv_records st)"
proof (cases op)
  case (Claim now t ty limit c)
  show ?thesis
  proof (cases "is_uuid t \<and> signalProcessingClaim_ok c")
    case True
    then show ?thesis using claim_valid [OF assms(1) _ _ refl refl] by (simp add: Claim)
  next
    case False
    show ?thesis
      unfolding Claim signal_effect.simps signal_apply.simps if_not_P [OF False]
        signal_claim_refused [where is_uuid = is_uuid and t = t, OF False] by simp
  qed
qed (use assms(2) in \<open>simp_all add: signal_markProcessed_def signal_releaseClaims_def\<close>)

lemma effect_origin:
  assumes "signals_inv is_uuid st" and "r \<in> set (sv_records (signal_apply is_uuid op st))"
  shows "(\<exists>r0 \<in> set (sv_records st). r = signal_effect is_uuid op st r0) \<or> se_processedAt r = None"
proof (cases "\<exists>now p. op = Ingest now p")
  case True
  then obtain now p where op: "op = Ingest now p" by blast
  have "r \<in> set (sv_records st) \<or> se_processedAt r = None"
    using assms(2) by (auto simp: op signal_ingest_def ingest_new_eq ingested_def Let_def split: option.splits if_splits)
  then show ?thesis by (auto simp: op)
next
  case False
  with assms(2) effect_records [OF assms(1), of op] show ?thesis by auto
qed

lemma inbox_inv_apply:
  assumes "inbox_inv is_uuid st"
    and "\<And>r. r \<in> set (sv_records (ib_signals st)) \<Longrightarrow> se_processedAt r = None \<Longrightarrow>
           se_processedAt (signal_effect is_uuid op (ib_signals st) r) \<noteq> None \<Longrightarrow> delivered (ib_outbox st) r"
  shows "inbox_inv is_uuid (st\<lparr>ib_signals := signal_apply is_uuid op (ib_signals st)\<rparr>)"
proof -
  have inv: "signals_inv is_uuid (ib_signals st)" using assms(1) by (simp add: inbox_inv_def)
  have "delivered (ib_outbox st) r"
    if "r \<in> set (sv_records (signal_apply is_uuid op (ib_signals st)))" "se_processedAt r \<noteq> None" for r
  proof -
    from effect_origin [OF inv that(1)] that(2) obtain r0 where
        r0: "r0 \<in> set (sv_records (ib_signals st))" "r = signal_effect is_uuid op (ib_signals st) r0" by blast
    have "delivered (ib_outbox st) r0"
    proof (cases "se_processedAt r0")
      case None
      with assms(2) [OF r0(1)] r0(2) that(2) show ?thesis by simp
    next
      case (Some t)
      with assms(1) r0(1) show ?thesis by (simp add: inbox_inv_def)
    qed
    with delivered_same [OF effect_same] show ?thesis unfolding r0(2) by blast
  qed
  with assms(1) apply_inv [OF inv] show ?thesis by (simp add: inbox_inv_def)
qed

lemma inbox_inv_outbox: "inbox_inv is_uuid st \<Longrightarrow> extends is_uuid (ib_outbox st) ob \<Longrightarrow> inbox_inv is_uuid (st\<lparr>ib_outbox := ob\<rparr>)"
  using delivered_extends by (auto simp: inbox_inv_def extends_def)

lemma same_signal_sym: "same_signal r r' \<Longrightarrow> same_signal r' r"
  by (cases r; cases r') (auto simp: same_signal_def)

lemma signal_ok_same: "same_signal r r' \<Longrightarrow> signalEventRecord_ok is_uuid r' \<longleftrightarrow> signalEventRecord_ok is_uuid r"
  using same_signalD by (simp add: signalEventRecord_ok_def)

lemma processSignal_inv:
  assumes "inbox_inv is_uuid st" and "faithful_worker is_uuid w" and "r \<in> set (sv_records (ib_signals st))"
    and "same_signal r signal" and "processSignal is_uuid JSON_parse sha256 w clock signal st = (res, st')"
  shows "inbox_inv is_uuid st'"
proof -
  have inv: "signals_inv is_uuid (ib_signals st)" "outbox_inv is_uuid (ib_outbox st)"
    using assms(1) by (simp_all add: inbox_inv_def)
  have "signalEventRecord_ok is_uuid signal"
    using signals_invD(3) [OF inv(1) assms(3)] signal_ok_same [OF assms(4)] by (simp add: signal_inv_def)
  from processSignal_cases [OF assms(2) inv(2) this assms(5)]
  have c: "extends is_uuid (ib_outbox st) (ib_outbox st')" "isl res \<Longrightarrow> ib_signals st' = ib_signals st"
    "\<not> isl res \<Longrightarrow> delivered (ib_outbox st') signal \<and>
       ib_signals st' = signal_apply is_uuid (MarkProcessed (clock (se_id signal) 2) (se_tenantId signal) [se_id signal]) (ib_signals st)"
    by (simp_all split: if_splits)
  let ?mid = "st\<lparr>ib_outbox := ib_outbox st'\<rparr>"
  have mid: "inbox_inv is_uuid ?mid" by (rule inbox_inv_outbox [OF assms(1) c(1)])
  show ?thesis
  proof (cases "isl res")
    case True
    then have "st' = ?mid" using c(2) by simp
    with mid show ?thesis by simp
  next
    case False
    let ?op = "MarkProcessed (clock (se_id signal) 2) (se_tenantId signal) [se_id signal]"
    have "inbox_inv is_uuid (?mid\<lparr>ib_signals := signal_apply is_uuid ?op (ib_signals ?mid)\<rparr>)"
    proof (rule inbox_inv_apply [OF mid])
      fix x assume x: "x \<in> set (sv_records (ib_signals ?mid))" "se_processedAt x = None"
        "se_processedAt (signal_effect is_uuid ?op (ib_signals ?mid) x) \<noteq> None"
      then have "se_id x = se_id signal" by (auto split: if_splits)
      then have "x = r" using same_id [OF inv(1) _ assms(3)] x(1) same_signalD [OF assms(4)] by simp
      with c(3) [OF False] delivered_same [OF assms(4)] show "delivered (ib_outbox ?mid) x" by simp
    qed
    moreover have "st' = ?mid\<lparr>ib_signals := signal_apply is_uuid ?op (ib_signals ?mid)\<rparr>" using c(3) [OF False] by simp
    ultimately show ?thesis by simp
  qed
qed

lemma inbox_step_inv:
  assumes "inbox_step is_uuid JSON_parse sha256 st st'" and "inbox_inv is_uuid st"
  shows "inbox_inv is_uuid st'"
  using assms
proof (induction rule: inbox_step.induct)
  case (arrive now p st res s')
  have "inbox_inv is_uuid (st\<lparr>ib_signals := signal_apply is_uuid (Ingest now p) (ib_signals st)\<rparr>)"
    by (rule inbox_inv_apply [OF arrive.prems]) simp
  with arrive.hyps show ?case by simp
next
  case (claim now t ty limit c st res s')
  have "inbox_inv is_uuid (st\<lparr>ib_signals := signal_apply is_uuid (Claim now t ty limit c) (ib_signals st)\<rparr>)"
    by (rule inbox_inv_apply [OF claim.prems]) (simp add: leased_among_def leased_signal_def split: if_splits)
  with claim.hyps show ?case by simp
next
  case (process w r st signal clock res st')
  then show ?case using processSignal_inv by blast
next
  case (release st t ids owner)
  have "inbox_inv is_uuid (st\<lparr>ib_signals := signal_apply is_uuid (ReleaseClaims t ids owner) (ib_signals st)\<rparr>)"
    by (rule inbox_inv_apply [OF release.prems]) (simp add: released_signal_def split: if_splits)
  then show ?case by simp
next
  case (outbox st ob')
  from outbox.prems have "outbox_inv is_uuid (ib_outbox st)" by (simp add: inbox_inv_def)
  from inbox_inv_outbox [OF outbox.prems extends_step [OF outbox.hyps this]] show ?case .
qed

lemma inbox_reachable_inv: "(inbox_step is_uuid JSON_parse sha256)\<^sup>*\<^sup>* empty_inbox st \<Longrightarrow> inbox_inv is_uuid st"
  by (induction rule: rtranclp_induct) (auto intro: inbox_inv_empty inbox_step_inv)

text \<open>
  C33. Across all interleavings of arriving signals, claims, crashes and retries of any number of workers, an outbox that may fail at
  every call, and other users of the outbox: a signal that is marked as processed has both its routing decision and the
  request to its target agent in the outbox, filed for its own tenant under keys only this signal has.
\<close>

theorem processed_signals_are_delivered:
  assumes "uuid_format is_uuid" and "(inbox_step is_uuid JSON_parse sha256)\<^sup>*\<^sup>* empty_inbox st"
    and "r \<in> set (sv_records (ib_signals st))" and "se_processedAt r \<noteq> None"
  shows "\<exists>e w. find_existing (ob_events (ib_outbox st)) (routed_key r) = Some e \<and>
    find_existing (ob_events (ib_outbox st)) (work_key r) = Some w \<and>
    oe_tenantId e = se_tenantId r \<and> oe_eventType e = ''signal.routed.v1'' \<and>
    oe_idempotencyKey e = ''signal:'' @ signal_number r \<and> oe_tenantId w = se_tenantId r \<and>
    oe_eventType w =
      (if target_agent r = ''intel_director'' then ''intel_brief.requested.v1'' else ''agent.work.requested.v1'')"
proof -
  have inv: "inbox_inv is_uuid st" by (rule inbox_reachable_inv [OF assms(2)])
  then have ob: "outbox_inv is_uuid (ib_outbox st)" by (simp add: inbox_inv_def)
  from inv assms(3,4) have "delivered (ib_outbox st) r" by (simp add: inbox_inv_def)
  then obtain e w where e: "find_existing (ob_events (ib_outbox st)) (routed_key r) = Some e"
      and w: "find_existing (ob_events (ib_outbox st)) (work_key r) = Some w"
    by (auto simp: delivered_def has_key_def)
  have ok: "is_uuid (se_tenantId r)"
    using inv assms(3) signals_invD(3) by (auto simp: inbox_inv_def signal_inv_def signalEventRecord_ok_def)
  define ce where "ce = \<lparr>oc_tenantId = se_tenantId r, oc_eventType = ''signal.routed.v1'',
      oc_idempotencyKey = ''signal:'' @ signal_number r, oc_payload = []\<rparr>"
  define cw where "cw = \<lparr>oc_tenantId = se_tenantId r,
      oc_eventType = (if target_agent r = ''intel_director'' then ''intel_brief.requested.v1'' else ''agent.work.requested.v1''),
      oc_idempotencyKey = (if target_agent r = ''intel_director'' then ''intel-brief-request:'' @ signal_number r
        else ''agent-work:'' @ target_agent r @ '':'' @ signal_number r), oc_payload = []\<rparr>"
  have "enqueueOutboxEvent_ok is_uuid ce" "enqueueOutboxEvent_ok is_uuid cw"
    using ok signal_event_types by (simp_all add: enqueueOutboxEvent_ok_def ce_def cw_def)
  note ok = this
  have "command_key ce = routed_key r" "command_key cw = work_key r"
    by (simp_all add: ce_def cw_def routed_key_def work_key_def)
  with e w have "find_existing (ob_events (ib_outbox st)) (command_key ce) = Some e"
      "find_existing (ob_events (ib_outbox st)) (command_key cw) = Some w" by simp_all
  from filed_event_type [OF assms(1) ob ok(1) this(1)] filed_event_type [OF assms(1) ob ok(2) this(2)]
  show ?thesis by (intro exI [of _ e] exI [of _ w]) (simp add: e w ce_def cw_def)
qed

section \<open>One pass over a tenant\<close>

text \<open>What becomes of a claimed record: \<open>ok\<close> says which signals are processed without an error.\<close>

definition settle :: "(signalEventRecord \<Rightarrow> bool) \<Rightarrow> (nat \<Rightarrow> nat \<Rightarrow> date) \<Rightarrow> signalEventRecord \<Rightarrow> signalEventRecord" where
  "settle ok clock r = (if ok r then processed_signal (clock (se_id r) 2) r else released_signal r)"

lemma mark_one:
  assumes "signals_inv is_uuid s" and "r \<in> set (sv_records s)" and "se_processedAt r = None"
  shows "sv_records (signal_markProcessed now (se_tenantId r) [se_id r] s) =
    map (\<lambda>x. if x = r then processed_signal now x else x) (sv_records s)"
  using same_id [OF assms(1) _ assms(2)] assms(3) by (auto simp: signal_markProcessed_def)

lemma release_one:
  assumes "signals_inv is_uuid s" and "r \<in> set (sv_records s)" and "se_processedAt r = None"
    and "se_processingLeaseOwner r = Some owner"
  shows "sv_records (signal_releaseClaims (se_tenantId r) [se_id r] owner s) =
    map (\<lambda>x. if x = r then released_signal x else x) (sv_records s)"
  using same_id [OF assms(1) _ assms(2)] assms(3,4) by (auto simp: signal_releaseClaims_def)

lemma process_signals_settle:
  assumes "faithful_worker is_uuid w" and "inbox_inv is_uuid st" and "distinct rs" and "set rs \<subseteq> set (sv_records (ib_signals st))"
    and "\<forall>r \<in> set rs. se_processedAt r = None \<and> se_processingLeaseOwner r = Some (sw_claimOwner w)"
    and "process_signals is_uuid JSON_parse sha256 w clock rs res st = (res', st')"
  shows "\<exists>ok. inbox_inv is_uuid st' \<and> extends is_uuid (ib_outbox st) (ib_outbox st') \<and>
    sp_processedSignalIds res' = sp_processedSignalIds res @ map signal_number (filter ok rs) \<and>
    map fst (sp_failures res') = map fst (sp_failures res) @ map signal_number (filter (\<lambda>r. \<not> ok r) rs) \<and>
    sv_records (ib_signals st') = map (\<lambda>r. if r \<in> set rs then settle ok clock r else r) (sv_records (ib_signals st)) \<and>
    (\<forall>r \<in> set rs. ok r \<longrightarrow> delivered (ib_outbox st') r) \<and>
    (working_worker is_uuid w \<longrightarrow> (\<forall>r \<in> set rs. ok r))"
  using assms(2-6)
proof (induction rs arbitrary: res st)
  case Nil
  then show ?case by (auto simp: inbox_inv_def intro: extends_refl)
next
  case (Cons r rs)
  obtain x mid where x: "processSignal is_uuid JSON_parse sha256 w clock r st = (x, mid)" by fastforce
  have inv: "signals_inv is_uuid (ib_signals st)" "outbox_inv is_uuid (ib_outbox st)"
    using Cons.prems(1) by (simp_all add: inbox_inv_def)
  have r: "r \<in> set (sv_records (ib_signals st))" "se_processedAt r = None" "se_processingLeaseOwner r = Some (sw_claimOwner w)"
    using Cons.prems(3,4) by simp_all
  have ok: "signalEventRecord_ok is_uuid r" using signals_invD(3) [OF inv(1) r(1)] by (simp add: signal_inv_def)
  have mid: "inbox_inv is_uuid mid" by (rule processSignal_inv [OF Cons.prems(1) assms(1) r(1) same_signal_refl x])
  note c = processSignal_cases [OF assms(1) inv(2) ok x]
  define f where "f = (\<lambda>y. if y = r then settle (\<lambda>_. \<not> isl x) clock y else y)"
  define st1 where "st1 = (if isl x then mid\<lparr>ib_signals := signal_releaseClaims (se_tenantId r) [se_id r]
      (sw_claimOwner w) (ib_signals mid)\<rparr> else mid)"
  define res1 where "res1 = (if isl x then res\<lparr>sp_failures := sp_failures res @ [(signal_number r, projl x)]\<rparr>
      else res\<lparr>sp_processedSignalIds := sp_processedSignalIds res @ [signal_number r]\<rparr>)"
  have run: "process_signals is_uuid JSON_parse sha256 w clock rs res1 st1 = (res', st')"
    using Cons.prems(5) x by (cases x) (simp_all add: st1_def res1_def)
  have recs: "sv_records (ib_signals st1) = map f (sv_records (ib_signals st))"
    using c mark_one [OF inv(1) r(1,2)] release_one [OF inv(1) r] by (auto simp: st1_def f_def settle_def)
  have inv1: "inbox_inv is_uuid st1"
  proof (cases "isl x")
    case True
    from inbox_step_inv [OF inbox_step.release mid] True show ?thesis by (simp add: st1_def)
  qed (simp add: st1_def mid)
  have ext1: "extends is_uuid (ib_outbox st) (ib_outbox st1)" using c by (simp add: st1_def)
  have sub: "set rs \<subseteq> set (sv_records (ib_signals st1))"
    unfolding recs using Cons.prems(2,3) by (auto simp: f_def intro!: image_eqI)
  from Cons.IH [OF inv1 _ sub _ run] Cons.prems(2,4) obtain ok' where o:
      "inbox_inv is_uuid st'" "extends is_uuid (ib_outbox st1) (ib_outbox st')"
      "sp_processedSignalIds res' = sp_processedSignalIds res1 @ map signal_number (filter ok' rs)"
      "map fst (sp_failures res') = map fst (sp_failures res1) @ map signal_number (filter (\<lambda>r. \<not> ok' r) rs)"
      "sv_records (ib_signals st') = map (\<lambda>r. if r \<in> set rs then settle ok' clock r else r) (sv_records (ib_signals st1))"
      "\<forall>r \<in> set rs. ok' r \<longrightarrow> delivered (ib_outbox st') r" "working_worker is_uuid w \<longrightarrow> (\<forall>r \<in> set rs. ok' r)"
    by auto
  define ok where "ok = (\<lambda>y. if y = r then \<not> isl x else ok' y)"
  have nr: "r \<notin> set rs" using Cons.prems(2) by simp
  then have same: "filter ok rs = filter ok' rs" "filter (\<lambda>y. \<not> ok y) rs = filter (\<lambda>y. \<not> ok' y) rs"
    by (auto simp: ok_def intro!: filter_cong)
  have fr: "f r \<notin> set rs"
  proof
    assume "f r \<in> set rs"
    with Cons.prems(4) have "se_processingLeaseOwner (f r) \<noteq> None" by auto
    then show False by (simp add: f_def settle_def processed_signal_def released_signal_def split: if_splits)
  qed
  have "sv_records (ib_signals st') =
      map (\<lambda>y. if y \<in> set (r # rs) then settle ok clock y else y) (sv_records (ib_signals st))"
    unfolding o(5) recs map_map using nr fr by (auto simp: f_def ok_def settle_def)
  moreover have "\<forall>y \<in> set (r # rs). ok y \<longrightarrow> delivered (ib_outbox st') y"
    using o(6) nr c delivered_extends [OF o(2)] by (auto simp: ok_def st1_def split: if_splits)
  moreover have "working_worker is_uuid w \<longrightarrow> (\<forall>y \<in> set (r # rs). ok y)"
    using o(7) processSignal_works [OF assms(1) _ inv(2) ok x] by (auto simp: ok_def)
  moreover have "sp_processedSignalIds res' = sp_processedSignalIds res @ map signal_number (filter ok (r # rs))"
      "map fst (sp_failures res') = map fst (sp_failures res) @ map signal_number (filter (\<lambda>y. \<not> ok y) (r # rs))"
    using o(3,4) same by (simp_all add: res1_def ok_def)
  ultimately show ?case using o(1) extends_trans [OF ext1 o(2)] by blast
qed

text \<open>Working on one type of signal leaves the claimable signals of the others alone.\<close>

lemma claimable_other:
  assumes "sv_records s' = map g (sv_records s)" and "\<And>r. se_signalType (g r) = se_signalType r"
    and "\<And>r. se_signalType r = ty \<Longrightarrow> g r = r"
  shows "claimable t ty limit now s' = claimable t ty limit now s"
proof -
  have "filter (\<lambda>r. unprocessed_of t ty r \<and> lease_free now r) (map g rs) =
      filter (\<lambda>r. unprocessed_of t ty r \<and> lease_free now r) rs" for rs
  proof (induction rs)
    case (Cons r rs)
    show ?case
    proof (cases "se_signalType r = ty")
      case True
      with Cons assms(3) [OF True] show ?thesis by simp
    next
      case False
      with Cons assms(2) [of r] show ?thesis by (simp add: unprocessed_of_def)
    qed
  qed simp
  then show ?thesis by (simp add: claimable_def assms(1))
qed

text \<open>The claim a worker makes, and what a pass makes of a record it claimed.\<close>

definition worker_claim :: "signalIngestionWorker \<Rightarrow> signalProcessingClaim" where
  "worker_claim w = \<lparr>sc_owner = sw_claimOwner w, sc_leaseMs = sw_claimLeaseMs w\<rparr>"

definition claimed_by :: "signalIngestionWorker \<Rightarrow> (string \<Rightarrow> date) \<Rightarrow> signalEventRecord \<Rightarrow> signalEventRecord" where
  "claimed_by w claimed_at r =
     leased_signal (sw_claimOwner w) (claimed_at (se_signalType r) + \<lfloor>sw_claimLeaseMs w\<rfloor>) r"

definition settled ::
  "signalIngestionWorker \<Rightarrow> (nat \<Rightarrow> nat \<Rightarrow> date) \<Rightarrow> (string \<Rightarrow> date) \<Rightarrow> bool \<Rightarrow> signalEventRecord \<Rightarrow> signalEventRecord" where
  "settled w clock claimed_at success r =
     (if success then processed_signal (clock (se_id r) 2) (claimed_by w claimed_at r)
      else released_signal (claimed_by w claimed_at r))"

lemma claimed_by_simps [simp]:
  "se_id (claimed_by w claimed_at r) = se_id r" "signal_number (claimed_by w claimed_at r) = signal_number r"
  "se_signalType (claimed_by w claimed_at r) = se_signalType r" "same_signal r (claimed_by w claimed_at r)"
  by (simp_all add: claimed_by_def leased_signal_def signal_number_def same_signal_def)

lemma settled_type [simp]: "se_signalType (settled w clock claimed_at b r) = se_signalType r"
  by (simp add: settled_def processed_signal_def released_signal_def)

text \<open>One type: claim and settle.\<close>

lemma process_one_type:
  assumes "faithful_worker is_uuid w" and "inbox_inv is_uuid st" and "is_uuid t" and "signalProcessingClaim_ok (worker_claim w)"
    and "cs = claimable t ty batch (claimed_at ty) (ib_signals st)"
    and "signal_claimUnprocessed is_uuid (claimed_at ty) t ty batch (worker_claim w) (ib_signals st) = (x, s')"
  shows "x = Inr (map (claimed_by w claimed_at) cs) \<and>
    (\<forall>res res' st'. process_signals is_uuid JSON_parse sha256 w clock (map (claimed_by w claimed_at) cs) res
         (st\<lparr>ib_signals := s'\<rparr>) = (res', st') \<longrightarrow>
       (\<exists>ok. inbox_inv is_uuid st' \<and> extends is_uuid (ib_outbox st) (ib_outbox st') \<and>
          sp_processedSignalIds res' = sp_processedSignalIds res @ map signal_number (filter ok cs) \<and>
          map fst (sp_failures res') = map fst (sp_failures res) @ map signal_number (filter (\<lambda>r. \<not> ok r) cs) \<and>
          sv_records (ib_signals st') =
            map (\<lambda>r. if r \<in> set cs then settled w clock claimed_at (ok r) r else r) (sv_records (ib_signals st)) \<and>
          (\<forall>r \<in> set cs. ok r \<longrightarrow> delivered (ib_outbox st') r) \<and>
          (working_worker is_uuid w \<longrightarrow> (\<forall>r \<in> set cs. ok r))))"
proof (intro conjI allI impI)
  let ?s = "ib_signals st"
  have inv: "signals_inv is_uuid ?s" using assms(2) by (simp add: inbox_inv_def)
  have cs: "r \<in> set (sv_records ?s) \<and> se_signalType r = ty \<and> se_processedAt r = None" if "r \<in> set cs" for r
    using claimable_sub that assms(5) by (fastforce simp: unprocessed_of_def)
  have leased: "leased_signal (sc_owner (worker_claim w)) (claimed_at ty + \<lfloor>sc_leaseMs (worker_claim w)\<rfloor>) r =
      claimed_by w claimed_at r" if "r \<in> set cs" for r
    using cs [OF that] by (simp add: claimed_by_def worker_claim_def)
  from claim_valid [OF inv assms(3,4,5) refl] assms(6) leased
  show x: "x = Inr (map (claimed_by w claimed_at) cs)" by auto
  have s': "sv_records s' = map (\<lambda>r. if r \<in> set cs then claimed_by w claimed_at r else r) (sv_records ?s)"
    using claim_valid [OF inv assms(3,4,5) refl] assms(6) leased by (auto simp: leased_among_def)
  fix res res' st'
  assume run: "process_signals is_uuid JSON_parse sha256 w clock (map (claimed_by w claimed_at) cs) res
      (st\<lparr>ib_signals := s'\<rparr>) = (res', st')"
  have mid: "inbox_inv is_uuid (st\<lparr>ib_signals := s'\<rparr>)"
    by (rule inbox_step_inv [OF inbox_step.claim [OF assms(6)] assms(2)])
  have ids: "distinct (map se_id cs)" using claimable_distinct [OF inv] assms(5) by simp
  have dist: "distinct (map (claimed_by w claimed_at) cs)"
  proof -
    have "map se_id (map (claimed_by w claimed_at) cs) = map se_id cs" by simp
    with ids show ?thesis by (metis distinct_map)
  qed
  have sub: "set (map (claimed_by w claimed_at) cs) \<subseteq> set (sv_records (ib_signals (st\<lparr>ib_signals := s'\<rparr>)))"
    using cs by (auto simp: s' intro!: image_eqI)
  have held: "\<forall>r \<in> set (map (claimed_by w claimed_at) cs).
      se_processedAt r = None \<and> se_processingLeaseOwner r = Some (sw_claimOwner w)"
    using cs by (auto simp: claimed_by_def leased_signal_def)
  from process_signals_settle [OF assms(1) mid dist sub held run] obtain ok where o:
      "inbox_inv is_uuid st'" "extends is_uuid (ib_outbox st) (ib_outbox st')"
      "sp_processedSignalIds res' = sp_processedSignalIds res @ map signal_number (filter ok (map (claimed_by w claimed_at) cs))"
      "map fst (sp_failures res') = map fst (sp_failures res) @
         map signal_number (filter (\<lambda>r. \<not> ok r) (map (claimed_by w claimed_at) cs))"
      "sv_records (ib_signals st') =
         map (\<lambda>r. if r \<in> set (map (claimed_by w claimed_at) cs) then settle ok clock r else r) (sv_records s')"
      "\<forall>r \<in> set (map (claimed_by w claimed_at) cs). ok r \<longrightarrow> delivered (ib_outbox st') r"
      "working_worker is_uuid w \<longrightarrow> (\<forall>r \<in> set (map (claimed_by w claimed_at) cs). ok r)"
    by auto
  have filt: "map signal_number (filter P (map (claimed_by w claimed_at) cs)) =
      map signal_number (filter (\<lambda>r. P (claimed_by w claimed_at r)) cs)" for P
    by (simp add: filter_map comp_def)
  have other: "r \<notin> set (map (claimed_by w claimed_at) cs)" if "r \<in> set (sv_records ?s)" "r \<notin> set cs" for r
  proof
    assume "r \<in> set (map (claimed_by w claimed_at) cs)"
    then obtain q where q: "q \<in> set cs" "r = claimed_by w claimed_at q" by auto
    with same_id [OF inv that(1), of q] cs [OF q(1)] that(2) show False by simp
  qed
  have "sv_records (ib_signals st') =
      map (\<lambda>r. if r \<in> set cs then settled w clock claimed_at (ok (claimed_by w claimed_at r)) r else r) (sv_records ?s)"
    unfolding o(5) s' map_map using other by (auto simp: settle_def settled_def)
  moreover have "\<forall>r \<in> set cs. ok (claimed_by w claimed_at r) \<longrightarrow> delivered (ib_outbox st') r"
    using o(6) delivered_same [OF claimed_by_simps(4)] by simp
  ultimately show "\<exists>ok. inbox_inv is_uuid st' \<and> extends is_uuid (ib_outbox st) (ib_outbox st') \<and>
          sp_processedSignalIds res' = sp_processedSignalIds res @ map signal_number (filter ok cs) \<and>
          map fst (sp_failures res') = map fst (sp_failures res) @ map signal_number (filter (\<lambda>r. \<not> ok r) cs) \<and>
          sv_records (ib_signals st') =
            map (\<lambda>r. if r \<in> set cs then settled w clock claimed_at (ok r) r else r) (sv_records ?s) \<and>
          (\<forall>r \<in> set cs. ok r \<longrightarrow> delivered (ib_outbox st') r) \<and>
          (working_worker is_uuid w \<longrightarrow> (\<forall>r \<in> set cs. ok r))"
    using o(1-4,7) unfolding filt by (intro exI [of _ "\<lambda>r. ok (claimed_by w claimed_at r)"]) simp
qed

lemma process_types_settle:
  assumes "faithful_worker is_uuid w" and "is_uuid t" and "signalProcessingClaim_ok (worker_claim w)"
    and "inbox_inv is_uuid st" and "distinct tys"
    and "process_types is_uuid JSON_parse sha256 w clock claimed_at t batch tys res st = (x, st')"
  shows "\<exists>ok res'. x = Inr res' \<and> inbox_inv is_uuid st' \<and> extends is_uuid (ib_outbox st) (ib_outbox st') \<and>
    sp_processedSignalIds res' = sp_processedSignalIds res @
      concat (map (\<lambda>ty. map signal_number (filter ok (claimable t ty batch (claimed_at ty) (ib_signals st)))) tys) \<and>
    map fst (sp_failures res') = map fst (sp_failures res) @
      concat (map (\<lambda>ty. map signal_number (filter (\<lambda>r. \<not> ok r) (claimable t ty batch (claimed_at ty) (ib_signals st)))) tys) \<and>
    sv_records (ib_signals st') =
      map (\<lambda>r. if \<exists>ty \<in> set tys. r \<in> set (claimable t ty batch (claimed_at ty) (ib_signals st))
               then settled w clock claimed_at (ok r) r else r) (sv_records (ib_signals st)) \<and>
    (\<forall>ty \<in> set tys. \<forall>r \<in> set (claimable t ty batch (claimed_at ty) (ib_signals st)). ok r \<longrightarrow> delivered (ib_outbox st') r) \<and>
    (working_worker is_uuid w \<longrightarrow> (\<forall>r. ok r))"
  using assms(4-6)
proof (induction tys arbitrary: res st)
  case Nil
  then show ?case by (intro exI [of _ "\<lambda>_. True"]) (auto simp: inbox_inv_def intro: extends_refl)
next
  case (Cons ty tys)
  define cs where "cs = claimable t ty batch (claimed_at ty) (ib_signals st)"
  obtain y s' where claim: "signal_claimUnprocessed is_uuid (claimed_at ty) t ty batch (worker_claim w) (ib_signals st) = (y, s')"
    by fastforce
  note one = process_one_type [where claimed_at = claimed_at, OF assms(1) Cons.prems(1) assms(2,3) cs_def claim]
  obtain res1 st1 where run1: "process_signals is_uuid JSON_parse sha256 w clock (map (claimed_by w claimed_at) cs) res
      (st\<lparr>ib_signals := s'\<rparr>) = (res1, st1)" by fastforce
  have rest: "process_types is_uuid JSON_parse sha256 w clock claimed_at t batch tys res1 st1 = (x, st')"
    using Cons.prems(3) claim one run1 by (simp add: worker_claim_def)
  from one run1 obtain ok1 where 1: "inbox_inv is_uuid st1" "extends is_uuid (ib_outbox st) (ib_outbox st1)"
      "sp_processedSignalIds res1 = sp_processedSignalIds res @ map signal_number (filter ok1 cs)"
      "map fst (sp_failures res1) = map fst (sp_failures res) @ map signal_number (filter (\<lambda>r. \<not> ok1 r) cs)"
      "sv_records (ib_signals st1) = map (\<lambda>r. if r \<in> set cs then settled w clock claimed_at (ok1 r) r else r)
         (sv_records (ib_signals st))"
      "\<forall>r \<in> set cs. ok1 r \<longrightarrow> delivered (ib_outbox st1) r" "working_worker is_uuid w \<longrightarrow> (\<forall>r \<in> set cs. ok1 r)"
    by blast
  have cs: "se_signalType r = ty" if "r \<in> set cs" for r
    using claimable_sub that by (fastforce simp: cs_def unprocessed_of_def)
  have others: "claimable t ty' batch (claimed_at ty') (ib_signals st1) = claimable t ty' batch (claimed_at ty') (ib_signals st)"
    if "ty' \<in> set tys" for ty'
  proof (rule claimable_other [OF 1(5)])
    fix r :: signalEventRecord assume "se_signalType r = ty'"
    with that Cons.prems(2) cs show "(if r \<in> set cs then settled w clock claimed_at (ok1 r) r else r) = r" by auto
  qed simp
  from Cons.IH [OF 1(1) _ rest] Cons.prems(2) obtain ok2 res' where 2: "x = Inr res'" "inbox_inv is_uuid st'"
      "extends is_uuid (ib_outbox st1) (ib_outbox st')"
      "sp_processedSignalIds res' = sp_processedSignalIds res1 @
        concat (map (\<lambda>ty. map signal_number (filter ok2 (claimable t ty batch (claimed_at ty) (ib_signals st1)))) tys)"
      "map fst (sp_failures res') = map fst (sp_failures res1) @
        concat (map (\<lambda>ty. map signal_number (filter (\<lambda>r. \<not> ok2 r) (claimable t ty batch (claimed_at ty) (ib_signals st1)))) tys)"
      "sv_records (ib_signals st') =
        map (\<lambda>r. if \<exists>ty \<in> set tys. r \<in> set (claimable t ty batch (claimed_at ty) (ib_signals st1))
               then settled w clock claimed_at (ok2 r) r else r) (sv_records (ib_signals st1))"
      "\<forall>ty \<in> set tys. \<forall>r \<in> set (claimable t ty batch (claimed_at ty) (ib_signals st1)). ok2 r \<longrightarrow> delivered (ib_outbox st') r"
      "working_worker is_uuid w \<longrightarrow> (\<forall>r. ok2 r)"
    by auto
  define ok where "ok = (\<lambda>r. if se_signalType r = ty then r \<in> set cs \<longrightarrow> ok1 r else ok2 r)"
  have first: "filter (\<lambda>r. P (ok r)) cs = filter (\<lambda>r. P (ok1 r)) cs" for P
    by (rule filter_cong) (simp_all add: ok_def cs)
  have type: "se_signalType r = ty'" if "r \<in> set (claimable t ty' batch (claimed_at ty') (ib_signals st))" for r ty'
    using claimable_sub [OF that] by (simp add: unprocessed_of_def)
  have later: "filter (\<lambda>r. P (ok2 r)) (claimable t ty' batch (claimed_at ty') (ib_signals st1)) =
      filter (\<lambda>r. P (ok r)) (claimable t ty' batch (claimed_at ty') (ib_signals st))" if "ty' \<in> set tys" for P ty'
    unfolding others [OF that] using type Cons.prems(2) that by (intro filter_cong) (auto simp: ok_def)
  have in_later: "(\<exists>ty \<in> set tys. r \<in> set (claimable t ty batch (claimed_at ty) (ib_signals st1))) \<longleftrightarrow>
      (\<exists>ty \<in> set tys. r \<in> set (claimable t ty batch (claimed_at ty) (ib_signals st)))" for r
    using others by simp
  have not_ty: "se_signalType r \<noteq> ty" if "\<exists>ty \<in> set tys. r \<in> set (claimable t ty batch (claimed_at ty) (ib_signals st))" for r
    using that type Cons.prems(2) by auto
  have recs: "sv_records (ib_signals st') =
      map (\<lambda>r. if \<exists>ty \<in> set (ty # tys). r \<in> set (claimable t ty batch (claimed_at ty) (ib_signals st))
               then settled w clock claimed_at (ok r) r else r) (sv_records (ib_signals st))"
    unfolding 2(6) 1(5) map_map in_later
  proof (rule map_cong [OF refl])
    fix r assume "r \<in> set (sv_records (ib_signals st))"
    show "((\<lambda>r. if \<exists>ty \<in> set tys. r \<in> set (claimable t ty batch (claimed_at ty) (ib_signals st))
               then settled w clock claimed_at (ok2 r) r else r) \<circ>
           (\<lambda>r. if r \<in> set cs then settled w clock claimed_at (ok1 r) r else r)) r =
        (if \<exists>ty \<in> set (ty # tys). r \<in> set (claimable t ty batch (claimed_at ty) (ib_signals st))
         then settled w clock claimed_at (ok r) r else r)"
    proof (cases "r \<in> set cs")
      case True
      have "\<not> (\<exists>ty \<in> set tys. settled w clock claimed_at (ok1 r) r \<in> set (claimable t ty batch (claimed_at ty) (ib_signals st)))"
        using not_ty [of "settled w clock claimed_at (ok1 r) r"] cs [OF True] by auto
      with True cs [OF True] show ?thesis by (simp add: ok_def cs_def [symmetric])
    next
      case False
      with not_ty [of r] show ?thesis by (auto simp: ok_def cs_def [symmetric])
    qed
  qed
  have "delivered (ib_outbox st') r"
    if ty': "ty' \<in> set (ty # tys)" and r: "r \<in> set (claimable t ty' batch (claimed_at ty') (ib_signals st))" and "ok r" for ty' r
  proof (cases "ty' = ty")
    case True
    with r have in_cs: "r \<in> set cs" by (simp add: cs_def)
    with \<open>ok r\<close> cs have "ok1 r" by (simp add: ok_def)
    with 1(6) in_cs delivered_extends [OF 2(3)] show ?thesis by blast
  next
    case False
    with ty' type [OF r] \<open>ok r\<close> have "ty' \<in> set tys" "ok2 r" by (auto simp: ok_def)
    with 2(7) others r show ?thesis by auto
  qed
  then have "\<forall>ty' \<in> set (ty # tys). \<forall>r \<in> set (claimable t ty' batch (claimed_at ty') (ib_signals st)).
      ok r \<longrightarrow> delivered (ib_outbox st') r" by blast
  moreover have "working_worker is_uuid w \<longrightarrow> (\<forall>r. ok r)" using 1(7) 2(8) by (simp add: ok_def)
  moreover have "sp_processedSignalIds res' = sp_processedSignalIds res @
      concat (map (\<lambda>ty. map signal_number (filter ok (claimable t ty batch (claimed_at ty) (ib_signals st)))) (ty # tys))"
    using 2(4) 1(3) first [of "\<lambda>b. b"] later [of _ "\<lambda>b. b"] by (simp add: cs_def [symmetric] cong: map_cong)
  moreover have "map fst (sp_failures res') = map fst (sp_failures res) @
      concat (map (\<lambda>ty. map signal_number (filter (\<lambda>r. \<not> ok r) (claimable t ty batch (claimed_at ty) (ib_signals st)))) (ty # tys))"
    using 2(5) 1(4) first [of Not] later [of _ Not] by (simp add: cs_def [symmetric] cong: map_cong)
  ultimately show ?case using recs 2(1,2) extends_trans [OF 1(2) 2(3)] by blast
qed

lemma types_distinct: "distinct signalTypeValues"
  by code_simp

text \<open>
  C35. A pass of a worker over a tenant settles every signal it claims, whatever the outbox does: per type, the oldest claimable signals up
  to the batch size each appear once in the result, in order, either among the processed or among the failures; a processed one is marked,
  with both commands filed; a failed one is back in the inbox, its lease released, its attempt counted; no other signal changes.
\<close>

theorem pass_settles_every_claim:
  assumes "(inbox_step is_uuid JSON_parse sha256)\<^sup>*\<^sup>* empty_inbox st" and "faithful_worker is_uuid w" and "is_uuid t"
    and "signalProcessingClaim_ok (worker_claim w)"
    and "due = (\<lambda>ty. claimable t ty batch (claimed_at ty) (ib_signals st))"
    and "processTenant is_uuid JSON_parse sha256 w clock claimed_at t batch st = (x, st')"
  shows "\<exists>ok res. x = Inr res \<and>
    sp_processedSignalIds res = concat (map (\<lambda>ty. map signal_number (filter ok (due ty))) signalTypeValues) \<and>
    map fst (sp_failures res) = concat (map (\<lambda>ty. map signal_number (filter (\<lambda>r. \<not> ok r) (due ty))) signalTypeValues) \<and>
    sv_records (ib_signals st') =
      map (\<lambda>r. if \<exists>ty \<in> set signalTypeValues. r \<in> set (due ty) then settled w clock claimed_at (ok r) r else r)
        (sv_records (ib_signals st)) \<and>
    (\<forall>ty \<in> set signalTypeValues. \<forall>r \<in> set (due ty). ok r \<longrightarrow> delivered (ib_outbox st') r)"
proof -
  have inv: "inbox_inv is_uuid st" by (rule inbox_reachable_inv [OF assms(1)])
  from process_types_settle [OF assms(2,3,4) inv types_distinct assms(6) [unfolded processTenant_def]]
  show ?thesis unfolding assms(5) by fastforce
qed

text \<open>
  C36. When the outbox works, no signal stays behind: a pass with a batch size of at least the number of stored signals has no
  failures, and afterwards every signal of the tenant that no other worker holds is processed, its commands filed.
\<close>

theorem unheld_signals_are_processed:
  assumes "(inbox_step is_uuid JSON_parse sha256)\<^sup>*\<^sup>* empty_inbox st" and "faithful_worker is_uuid w" and "working_worker is_uuid w"
    and "is_uuid t" and "signalProcessingClaim_ok (worker_claim w)" and "int (length (sv_records (ib_signals st))) \<le> batch"
    and "processTenant is_uuid JSON_parse sha256 w clock claimed_at t batch st = (x, st')"
  shows "\<exists>res. x = Inr res \<and> sp_failures res = [] \<and>
    (\<forall>r \<in> set (sv_records (ib_signals st)).
       se_tenantId r = t \<and> se_processedAt r = None \<and> lease_free (claimed_at (se_signalType r)) r \<longrightarrow>
       signal_number r \<in> set (sp_processedSignalIds res) \<and>
       (\<exists>r' \<in> set (sv_records (ib_signals st')).
          same_signal r r' \<and> se_processedAt r' = Some (clock (se_id r) 2) \<and> delivered (ib_outbox st') r'))"
proof -
  let ?due = "\<lambda>ty. claimable t ty batch (claimed_at ty) (ib_signals st)"
  have inv: "inbox_inv is_uuid st" by (rule inbox_reachable_inv [OF assms(1)])
  from process_types_settle [OF assms(2,4,5) inv types_distinct assms(7) [unfolded processTenant_def]] assms(3)
  obtain ok res where o: "x = Inr res" "\<forall>r. ok r"
      "sp_processedSignalIds res = concat (map (\<lambda>ty. map signal_number (filter ok (?due ty))) signalTypeValues)"
      "map fst (sp_failures res) = concat (map (\<lambda>ty. map signal_number (filter (\<lambda>r. \<not> ok r) (?due ty))) signalTypeValues)"
      "sv_records (ib_signals st') =
        map (\<lambda>r. if \<exists>ty \<in> set signalTypeValues. r \<in> set (?due ty) then settled w clock claimed_at (ok r) r else r)
          (sv_records (ib_signals st))"
      "\<forall>ty \<in> set signalTypeValues. \<forall>r \<in> set (?due ty). ok r \<longrightarrow> delivered (ib_outbox st') r"
    by fastforce
  have "map fst (sp_failures res) = []" using o(2,4) by simp
  then have none: "sp_failures res = []" by simp
  have "signal_number r \<in> set (sp_processedSignalIds res) \<and> (\<exists>r' \<in> set (sv_records (ib_signals st')).
          same_signal r r' \<and> se_processedAt r' = Some (clock (se_id r) 2) \<and> delivered (ib_outbox st') r')"
    if r: "r \<in> set (sv_records (ib_signals st))" "se_tenantId r = t" "se_processedAt r = None"
      "lease_free (claimed_at (se_signalType r)) r" for r
  proof -
    let ?ty = "se_signalType r" and ?r = "settled w clock claimed_at True r"
    have ty: "?ty \<in> set signalTypeValues"
      using inv signals_invD(3) r(1) by (auto simp: inbox_inv_def signal_inv_def signalEventRecord_ok_def)
    have "length (filter P (sv_records (ib_signals st))) \<le> nat batch" for P
      using assms(6) length_filter_le [of P "sv_records (ib_signals st)"] by linarith
    then have "r \<in> set (?due ?ty)"
      using r assms(6) by (simp add: claimable_def js_slice0_def unprocessed_of_def)
    with ty have d: "\<exists>ty \<in> set signalTypeValues. r \<in> set (?due ty)" by blast
    then have "delivered (ib_outbox st') r" using o(2,6) by blast
    moreover have "?r \<in> set (sv_records (ib_signals st'))"
      unfolding o(5) using r(1) d o(2) by (auto intro!: image_eqI [of _ _ r])
    moreover have "signal_number r \<in> set (sp_processedSignalIds res)"
      unfolding o(3) using d o(2) by auto
    moreover have "same_signal r ?r"
      by (simp add: settled_def claimed_by_def same_signal_def leased_signal_def processed_signal_def)
    moreover have "se_processedAt ?r = Some (clock (se_id r) 2)" by (simp add: settled_def processed_signal_def)
    ultimately show ?thesis using delivered_same by blast
  qed
  with o(1) none show ?thesis by blast
qed

section \<open>Examples\<close>

definition example_inbox :: inbox where
  "example_inbox = empty_inbox\<lparr>ib_signals := snd (signal_ingest hex_id 1 example_signal empty_signals)\<rparr>"

definition example_worker :: signalIngestionWorker where
  "example_worker =
     SignalIngestionWorker_new ''ab'' (memory_enqueue hex_id 7)
       \<lparr>rd_enqueue = memory_enqueue hex_id 7, rd_llmCallRunner = None, rd_motionContext = None\<rparr> None None"

text \<open>The same worker whose router meets an outbox that is not available.\<close>

definition broken_worker :: signalIngestionWorker where
  "broken_worker = example_worker\<lparr>sw_signalRouter := (sw_signalRouter example_worker)\<lparr>
     rd_enqueue := \<lambda>_ ob. (Inl (JsError ''unavailable''), ob)\<rparr>\<rparr>"

abbreviation example_pass :: "signalIngestionWorker \<Rightarrow> (js_error + signalProcessingResult) \<times> inbox" where
  "example_pass w \<equiv> processTenant hex_id (\<lambda>_. Inl ZodError) (\<lambda>_. replicate 64 CHR ''a'') w (\<lambda>_ _. 8) (\<lambda>_. 5) ''aa'' 10 example_inbox"

lemma example_inbox_reached: "(inbox_step hex_id (\<lambda>_. Inl ZodError) (\<lambda>_. replicate 64 CHR ''a''))\<^sup>*\<^sup>* empty_inbox example_inbox"
proof (rule r_into_rtranclp)
  have "signal_ingest hex_id 1 example_signal (ib_signals empty_inbox) =
      (fst (signal_ingest hex_id 1 example_signal empty_signals), snd (signal_ingest hex_id 1 example_signal empty_signals))"
    by (simp add: empty_inbox_def)
  from inbox_step.arrive [OF this] show "inbox_step hex_id (\<lambda>_. Inl ZodError) (\<lambda>_. replicate 64 CHR ''a'') empty_inbox example_inbox"
    unfolding example_inbox_def .
qed

lemma example_workers:
  "faithful_worker hex_id example_worker" "working_worker hex_id example_worker" "faithful_worker hex_id broken_worker"
  "signalProcessingClaim_ok (worker_claim example_worker)" "signalProcessingClaim_ok (worker_claim broken_worker)"
proof -
  have "faithful_enqueue hex_id (\<lambda>_ ob. (Inl (JsError ''unavailable''), ob))" by (simp add: faithful_enqueue_def)
  then show "faithful_worker hex_id example_worker" "working_worker hex_id example_worker" "faithful_worker hex_id broken_worker"
    by (simp_all add: faithful_worker_def working_worker_def example_worker_def broken_worker_def SignalIngestionWorker_new_def
        memory_enqueue_faithful memory_enqueue_works)
  show "signalProcessingClaim_ok (worker_claim example_worker)" "signalProcessingClaim_ok (worker_claim broken_worker)"
    by code_simp+
qed

theorem unheld_signals_are_processed_witness:
  "\<exists>res st'. example_pass example_worker = (Inr res, st') \<and> sp_failures res = [] \<and> ''1'' \<in> set (sp_processedSignalIds res)"
proof -
  have uuid: "hex_id ''aa''" by code_simp
  have recs: "sv_records (ib_signals example_inbox) = [ingested 1 example_signal 1]" by code_simp
  obtain x st' where run: "example_pass example_worker = (x, st')" by fastforce
  have "int (length (sv_records (ib_signals example_inbox))) \<le> 10" by (simp add: recs)
  from unheld_signals_are_processed [OF example_inbox_reached example_workers(1,2) uuid example_workers(4) this run]
  obtain res where "x = Inr res" "sp_failures res = []"
      "signal_number (ingested 1 example_signal 1) \<in> set (sp_processedSignalIds res)"
    unfolding recs by (auto simp: ingested_def example_signal_def lease_free_def)
  moreover have "signal_number (ingested 1 example_signal 1) = ''1''" by code_simp
  ultimately show ?thesis using run by auto
qed

theorem pass_settles_every_claim_witness:
  "\<exists>res st'. example_pass broken_worker = (Inr res, st') \<and>
     set (sp_processedSignalIds res) \<union> fst ` set (sp_failures res) = {''1''}"
proof -
  have uuid: "hex_id ''aa''" by code_simp
  obtain x st' where run: "example_pass broken_worker = (x, st')" by fastforce
  define due where "due = (\<lambda>ty. claimable ''aa'' ty 10 5 (ib_signals example_inbox))"
  from pass_settles_every_claim [OF example_inbox_reached example_workers(3) uuid example_workers(5) due_def run]
  obtain ok res where o: "x = Inr res"
      "sp_processedSignalIds res = concat (map (\<lambda>ty. map signal_number (filter ok (due ty))) signalTypeValues)"
      "map fst (sp_failures res) = concat (map (\<lambda>ty. map signal_number (filter (\<lambda>r. \<not> ok r) (due ty))) signalTypeValues)"
    by blast
  have "set (sp_processedSignalIds res) \<union> set (map fst (sp_failures res)) =
      signal_number ` (\<Union>ty \<in> set signalTypeValues. set (due ty))"
    unfolding o(2,3) by auto
  also have "\<dots> = set (map signal_number (concat (map due signalTypeValues)))" by simp
  also have "map signal_number (concat (map due signalTypeValues)) = [''1'']" unfolding due_def by code_simp
  finally show ?thesis using run o(1) by auto
qed

theorem processed_signals_are_delivered_witness:
  "\<exists>(st :: inbox) r e w. r \<in> set (sv_records (ib_signals st)) \<and> se_processedAt r \<noteq> None \<and>
     find_existing (ob_events (ib_outbox st)) (routed_key r) = Some e \<and> oe_tenantId e = ''aa'' \<and>
     find_existing (ob_events (ib_outbox st)) (work_key r) = Some w \<and> oe_eventType w = ''intel_brief.requested.v1''"
proof -
  define r where "r = ingested 1 example_signal 1"
  define st where "st = snd (processSignal hex_id (\<lambda>_. Inl ZodError) (\<lambda>_. replicate 64 CHR ''a'') example_worker (\<lambda>_ _. 8) r example_inbox)"
  define p where "p = processed_signal 8 r"
  have recs: "sv_records (ib_signals example_inbox) = [r]" "sv_records (ib_signals st) = [p]"
    unfolding r_def st_def p_def by code_simp+
  have "inbox_step hex_id (\<lambda>_. Inl ZodError) (\<lambda>_. replicate 64 CHR ''a'') example_inbox st"
    unfolding st_def by (rule inbox_step.process [OF example_workers(1) _ same_signal_refl prod.collapse [symmetric]]) (simp add: recs)
  with example_inbox_reached have "(inbox_step hex_id (\<lambda>_. Inl ZodError) (\<lambda>_. replicate 64 CHR ''a''))\<^sup>*\<^sup>* empty_inbox st" by simp
  note delivered = processed_signals_are_delivered [OF uuid_format_hex_id this, of p]
  have "se_tenantId p = ''aa''" "target_agent p = ''intel_director''" "se_processedAt p \<noteq> None"
    unfolding p_def r_def by code_simp+
  note p = this
  have in_st: "p \<in> set (sv_records (ib_signals st))" by (simp add: recs)
  from delivered [OF this p(3)] p(1,2) obtain e w where
      "find_existing (ob_events (ib_outbox st)) (routed_key p) = Some e" "oe_tenantId e = ''aa''"
      "find_existing (ob_events (ib_outbox st)) (work_key p) = Some w" "oe_eventType w = ''intel_brief.requested.v1''"
    by auto
  with in_st p(3) show ?thesis by blast
qed

end
