(* ===== verification/StableIds.thy ===== *)
theory StableIds
  imports SignalRouter
begin

text \<open>
  What \<open>deterministicUuid\<close> of \<open>src/packages/core/src/stable-id.ts\<close> makes of a SHA-256 digest in hexadecimal: the form of a version-5 UUID,
  and which bits of the digest it keeps.
\<close>

text \<open>What is relied on from the digest: 64 lower-case hexadecimal digits.\<close>

definition hex_digest :: "(string \<Rightarrow> string) \<Rightarrow> bool" where
  "hex_digest sha256 \<longleftrightarrow> (\<forall>s. length (sha256 s) = 64 \<and> set (sha256 s) \<subseteq> set ''0123456789abcdef'')"

definition variant_of :: "char \<Rightarrow> nat" where
  "variant_of c = ((hex_value c AND 3) OR 8)"

lemma variant_mod:
  assumes "c \<in> set ''0123456789abcdef''"
  shows "variant_of c = 8 + hex_value c mod 4"
proof -
  have "list_all (\<lambda>c. variant_of c = 8 + hex_value c mod 4) ''0123456789abcdef''" by code_simp
  with assms show ?thesis unfolding list_all_iff by blast
qed

lemma variant_digit: "hex_digit (8 + n mod 4) \<in> set ''89ab''" "hex_digit (8 + n mod 4) = hex_digit (8 + m mod 4) \<longleftrightarrow> n mod 4 = m mod 4"
proof -
  have small: "k mod 4 = 0 \<or> k mod 4 = 1 \<or> k mod 4 = 2 \<or> k mod 4 = 3" for k :: nat by linarith
  show "hex_digit (8 + n mod 4) \<in> set ''89ab''" using small [of n] by (elim disjE) (simp_all add: hex_digit_def)
  show "hex_digit (8 + n mod 4) = hex_digit (8 + m mod 4) \<longleftrightarrow> n mod 4 = m mod 4"
    using small [of n] small [of m] by (elim disjE) (simp_all add: hex_digit_def)
qed

lemma length_slice [simp]: "length (slice i j s) = min (length s) j - i"
  by (simp add: slice_def)

lemma set_slice: "set (slice i j s) \<subseteq> set s"
  by (auto simp: slice_def dest: in_set_takeD in_set_dropD)

lemma uuid_parts:
  assumes "length (sha256 s) = 64"
  shows "deterministicUuid sha256 s =
    slice 0 8 (sha256 s) @ ''-'' @ slice 8 12 (sha256 s) @ ''-5'' @ slice 13 16 (sha256 s) @ ''-'' @
    [hex_digit (variant_of (sha256 s ! 16))] @ slice 17 20 (sha256 s) @ ''-'' @ slice 20 32 (sha256 s)"
  using assms by (simp add: deterministicUuid_def variant_of_def Let_def)

text \<open>
  C40. A stable identifier has the form of a version-5 UUID, in lower case; and it depends on the digest's 122 bits it keeps and on
  nothing else: two names share an identifier exactly when their digests agree there, so a replayed event always gets the same one.
\<close>

theorem stable_id_is_uuid_v5:
  assumes "hex_digest sha256"
  shows "(\<exists>a b c v d e. deterministicUuid sha256 s = a @ ''-'' @ b @ ''-5'' @ c @ ''-'' @ [v] @ d @ ''-'' @ e \<and>
      map length [a, b, c, d, e] = [8, 4, 3, 3, 12] \<and> v \<in> set ''89ab'' \<and> set (a @ b @ c @ d @ e) \<subseteq> set ''0123456789abcdef'') \<and>
    (deterministicUuid sha256 s = deterministicUuid sha256 t \<longleftrightarrow>
      slice 0 12 (sha256 s) = slice 0 12 (sha256 t) \<and> slice 13 16 (sha256 s) = slice 13 16 (sha256 t) \<and>
      hex_value (sha256 s ! 16) mod 4 = hex_value (sha256 t ! 16) mod 4 \<and>
      slice 17 32 (sha256 s) = slice 17 32 (sha256 t))"
proof
  have f: "length (sha256 x) = 64" "set (sha256 x) \<subseteq> set ''0123456789abcdef''" for x
    using assms unfolding hex_digest_def by blast+
  have nth: "sha256 x ! 16 \<in> set ''0123456789abcdef''" for x
  proof -
    have "16 < length (sha256 x)" unfolding f(1) by simp
    then have "sha256 x ! 16 \<in> set (sha256 x)" by (rule nth_mem)
    with f(2) [of x] show ?thesis by (rule subsetD)
  qed
  note variant = variant_mod [OF nth] and parts = uuid_parts [of sha256, OF f(1)]
  show "\<exists>a b c v d e. deterministicUuid sha256 s = a @ ''-'' @ b @ ''-5'' @ c @ ''-'' @ [v] @ d @ ''-'' @ e \<and>
      map length [a, b, c, d, e] = [8, 4, 3, 3, 12] \<and> v \<in> set ''89ab'' \<and> set (a @ b @ c @ d @ e) \<subseteq> set ''0123456789abcdef''"
  proof (intro exI conjI)
    show "deterministicUuid sha256 s = slice 0 8 (sha256 s) @ ''-'' @ slice 8 12 (sha256 s) @ ''-5'' @
        slice 13 16 (sha256 s) @ ''-'' @ [hex_digit (variant_of (sha256 s ! 16))] @ slice 17 20 (sha256 s) @ ''-'' @ slice 20 32 (sha256 s)"
      by (rule parts)
    show "hex_digit (variant_of (sha256 s ! 16)) \<in> set ''89ab''" unfolding variant by (rule variant_digit)
    show "set (slice 0 8 (sha256 s) @ slice 8 12 (sha256 s) @ slice 13 16 (sha256 s) @ slice 17 20 (sha256 s) @ slice 20 32 (sha256 s)) \<subseteq>
        set ''0123456789abcdef''"
      unfolding set_append using set_slice f(2) [of s] by (intro Un_least) (meson subset_trans)+
  qed (simp add: f)
  have join: "slice i j x = slice i j y \<and> slice j k x = slice j k y \<longleftrightarrow> slice i k x = slice i k y"
    if "i \<le> j" "j \<le> k" "length x = 64" "length y = 64" "k \<le> 64" for i j k x y
  proof -
    have "slice i k z = slice i j z @ slice j k z" if "length z = 64" for z
    proof -
      have "take k z = take j z @ drop j (take k z)" using \<open>j \<le> k\<close> append_take_drop_id [of j "take k z"] by (simp add: min_absorb1)
      then have "drop i (take k z) = drop i (take j z @ drop j (take k z))" by simp
      also have "\<dots> = drop i (take j z) @ drop j (take k z)" using that \<open>i \<le> j\<close> \<open>j \<le> k\<close> \<open>k \<le> 64\<close> by simp
      finally show ?thesis by (simp add: slice_def)
    qed
    with that show ?thesis by simp
  qed
  have "deterministicUuid sha256 s = deterministicUuid sha256 t \<longleftrightarrow>
      (slice 0 8 (sha256 s) = slice 0 8 (sha256 t) \<and> slice 8 12 (sha256 s) = slice 8 12 (sha256 t)) \<and>
      slice 13 16 (sha256 s) = slice 13 16 (sha256 t) \<and>
      hex_digit (variant_of (sha256 s ! 16)) = hex_digit (variant_of (sha256 t ! 16)) \<and>
      (slice 17 20 (sha256 s) = slice 17 20 (sha256 t) \<and> slice 20 32 (sha256 s) = slice 20 32 (sha256 t))"
    unfolding parts by (subst append_eq_append_conv, simp add: f)+ (simp add: f)
  then show "deterministicUuid sha256 s = deterministicUuid sha256 t \<longleftrightarrow>
      slice 0 12 (sha256 s) = slice 0 12 (sha256 t) \<and> slice 13 16 (sha256 s) = slice 13 16 (sha256 t) \<and>
      hex_value (sha256 s ! 16) mod 4 = hex_value (sha256 t ! 16) mod 4 \<and>
      slice 17 32 (sha256 s) = slice 17 32 (sha256 t)"
    using join [of 0 8 12] join [of 17 20 32] variant_digit(2) unfolding variant by (simp add: f)
qed

theorem stable_id_is_uuid_v5_witness:
  "\<exists>a b c v d e. deterministicUuid (\<lambda>_. replicate 64 CHR ''a'') ''x'' = a @ ''-'' @ b @ ''-5'' @ c @ ''-'' @ [v] @ d @ ''-'' @ e \<and>
     v \<in> set ''89ab'' \<and> length e = 12"
proof -
  have "hex_digest (\<lambda>_. replicate 64 CHR ''a'')" by (simp add: hex_digest_def)
  from stable_id_is_uuid_v5 [OF this, of "''x''" "''x''"] show ?thesis by (elim conjE exE) (simp, blast)
qed

end
