(* ===== verification/N8nRoutes.thy ===== *)
theory N8nRoutes
  imports SignalRouter ExternalActions N8nClient
begin

text \<open>
  The HTTP surface of n8n and of signals: \<open>error-middleware.ts\<close>, \<open>auth-middleware.ts\<close>, \<open>routes/n8n.ts\<close> and
  \<open>routes/signals.ts\<close>, all under \<open>src/apps/api/src\<close>. A handler takes the request and the repositories and returns a response, or throws;
  \<open>respond\<close> is the application's \<open>onError\<close>. Headers are a function of their names; bodies of responses are JSON objects, without the
  \<open>details\<close> the schema library puts into some of the refusals. \<open>JSON.parse\<close>, HMAC, the clock, \<open>Date.parse\<close> and the string checks of the schema
  library are parameters. Spans and logs are left out.
\<close>

section \<open>Requests and responses\<close>

record apiRequest =
  rh_header :: "string \<Rightarrow> string option"
  rh_body :: string

datatype apiResponse = ApiResponse (response_status: number) (response_body: json_record)

definition refusal :: "string \<Rightarrow> number \<Rightarrow> apiResponse" where
  "refusal msg status = ApiResponse status [(''error'', JStr msg)]"

fun mapErrorToResponse :: "js_error \<Rightarrow> apiResponse" where
  "mapErrorToResponse ZodError = refusal ''Request validation failed'' 400"
| "mapErrorToResponse (ServiceUnavailableError m) = refusal m 503"
| "mapErrorToResponse (UnauthorizedError m) = refusal m 401"
| "mapErrorToResponse (ConflictError m) = refusal m 409"
| "mapErrorToResponse (NotFoundError m) = refusal m 404"
| "mapErrorToResponse _ = refusal ''Internal server error'' 500"

definition respond :: "(js_error + apiResponse) \<times> 's \<Rightarrow> apiResponse \<times> 's" where
  "respond p = (case p of (Inl e, s) \<Rightarrow> (mapErrorToResponse e, s) | (Inr r, s) \<Rightarrow> (r, s))"

text \<open>\<open>createApiTokenMiddleware\<close>: no token configured lets every request pass.\<close>

definition requireToken ::
  "string option \<Rightarrow> (apiRequest \<Rightarrow> 's \<Rightarrow> (js_error + apiResponse) \<times> 's) \<Rightarrow> apiRequest \<Rightarrow> 's \<Rightarrow>
   (js_error + apiResponse) \<times> 's" where
  "requireToken serviceToken handler request st =
     (case serviceToken of
        None \<Rightarrow> handler request st
      | Some token \<Rightarrow>
          if token = [] then handler request st
          else case rh_header request ''Authorization'' of
            None \<Rightarrow> (Inr (refusal ''Authorization required'' 401), st)
          | Some auth \<Rightarrow>
              if take 7 auth \<noteq> ''Bearer '' then (Inr (refusal ''Authorization required'' 401), st)
              else if drop 7 auth \<noteq> token then (Inr (refusal ''Invalid token'' 401), st)
              else handler request st)"

text \<open>A header or a setting that is absent or empty counts as false.\<close>

definition set_text :: "string option \<Rightarrow> string option" where
  "set_text s = (case s of None \<Rightarrow> None | Some x \<Rightarrow> if x = [] then None else Some x)"

definition falsy :: "json \<Rightarrow> bool" where
  "falsy v \<longleftrightarrow> v \<in> {JNull, JBool False, JNum 0, JStr []}"

text \<open>\<open>parseJsonBody\<close>, and the check of its result: a falsy value is refused like a malformed text.\<close>

definition json_body :: "(string \<Rightarrow> json result) \<Rightarrow> string \<Rightarrow> json option" where
  "json_body JSON_parse rawBody =
     (case JSON_parse rawBody of Inl _ \<Rightarrow> None | Inr v \<Rightarrow> if falsy v then None else Some v)"

section \<open>The routes of n8n\<close>

record n8nRouteDependencies =
  nd_signalEventsRepository :: "signalEvents option"
  nd_externalActionsRepository :: "external_actions option"
  nd_n8nSharedSecret :: "string option"
  nd_n8nDispatchClient :: "n8nDispatchClientConfig option"
  nd_n8nDispatchWebhookUrl :: "string option"
  nd_n8nDispatchResultCallbackUrl :: "string option"

definition isDispatchConfigured :: "n8nRouteDependencies \<Rightarrow> bool" where
  "isDispatchConfigured deps \<longleftrightarrow>
     nd_externalActionsRepository deps \<noteq> None \<and> set_text (nd_n8nSharedSecret deps) \<noteq> None \<and>
     set_text (nd_n8nDispatchResultCallbackUrl deps) \<noteq> None \<and>
     (nd_n8nDispatchClient deps \<noteq> None \<or> set_text (nd_n8nDispatchWebhookUrl deps) \<noteq> None)"

definition tenantIdHeader_ok :: "(string \<Rightarrow> bool) \<Rightarrow> string option \<Rightarrow> bool" where
  "tenantIdHeader_ok is_uuid h \<longleftrightarrow> (case h of None \<Rightarrow> False | Some t \<Rightarrow> is_uuid t)"

definition idempotencyKeyHeader_ok :: "string option \<Rightarrow> bool" where
  "idempotencyKeyHeader_ok h \<longleftrightarrow> (case h of None \<Rightarrow> False | Some k \<Rightarrow> k \<noteq> [] \<and> length k \<le> 255)"

text \<open>What a signed envelope is stored as.\<close>

definition envelope_params :: "string \<Rightarrow> string \<Rightarrow> json_record \<Rightarrow> ingestSignalParams" where
  "envelope_params tenantId idempotencyKey envelope =
     \<lparr>ip_tenantId = tenantId, ip_signalType = string_at ''signalType'' envelope,
      ip_source = ''n8n:'' @ string_at ''source'' envelope, ip_externalId = Some (string_at ''eventId'' envelope),
      ip_payload = AList.update ''n8n''
        (JObj ([(''eventId'', JStr (string_at ''eventId'' envelope)), (''source'', JStr (string_at ''source'' envelope)),
                (''occurredAt'', JStr (string_at ''occurredAt'' envelope)), (''idempotencyKey'', JStr idempotencyKey)] @
               truthy_member ''workflowId'' (string_opt_at ''workflowId'' envelope) @
               truthy_member ''executionId'' (string_opt_at ''executionId'' envelope)))
        (record_at ''payload'' envelope)\<rparr>"

definition post_n8n_signals ::
  "(string \<Rightarrow> bool) \<Rightarrow> (string \<Rightarrow> bool) \<Rightarrow> (string \<Rightarrow> bool) \<Rightarrow> (string \<Rightarrow> json result) \<Rightarrow> (string \<Rightarrow> string \<Rightarrow> string) \<Rightarrow>
   date \<Rightarrow> apiRequest \<Rightarrow> n8nRouteDependencies \<Rightarrow> (js_error + apiResponse) \<times> n8nRouteDependencies" where
  "post_n8n_signals is_uuid is_datetime is_url JSON_parse hmac now request deps =
     (case nd_signalEventsRepository deps of
        None \<Rightarrow> (Inl (ServiceUnavailableError ''Signal events repository is not configured. Set DATABASE_URL.''), deps)
      | Some signals \<Rightarrow>
     (case set_text (nd_n8nSharedSecret deps) of
        None \<Rightarrow> (Inl (ServiceUnavailableError ''N8N_SHARED_SECRET is required for n8n signal ingestion.''), deps)
      | Some secret \<Rightarrow>
          if \<not> tenantIdHeader_ok is_uuid (rh_header request ''X-Tenant-Id'')
          then (Inr (refusal ''X-Tenant-Id header is required'' 400), deps)
          else if \<not> idempotencyKeyHeader_ok (rh_header request ''Idempotency-Key'')
          then (Inr (refusal ''Idempotency-Key header is required'' 400), deps)
          else if \<not> verifyN8nSignature hmac (rh_body request) (rh_header request ''X-GrowthOS-Signature'') secret
          then (Inr (refusal ''Invalid n8n signature'' 401), deps)
          else (case json_body JSON_parse (rh_body request) of
            None \<Rightarrow> (Inr (refusal ''Request body must be valid JSON'' 400), deps)
          | Some v \<Rightarrow>
              (case object_of (zparse (n8nCanonicalSignalEnvelopeSchema is_datetime is_url) v) of
                 Inl _ \<Rightarrow> (Inr (refusal ''Invalid n8n signal envelope'' 422), deps)
               | Inr envelope \<Rightarrow>
                   (case signal_ingest is_uuid now (envelope_params (the (rh_header request ''X-Tenant-Id''))
                           (the (rh_header request ''Idempotency-Key'')) envelope) signals of
                      (Inl e, signals') \<Rightarrow> (Inl e, deps\<lparr>nd_signalEventsRepository := Some signals'\<rparr>)
                    | (Inr res, signals') \<Rightarrow>
                        (Inr (ApiResponse 202
                           [(''accepted'', JBool True), (''inserted'', JBool (\<not> ir_isDuplicate res)),
                            (''signalId'', JStr (show_nat (se_id (ir_event res))))]),
                         deps\<lparr>nd_signalEventsRepository := Some signals'\<rparr>))))))"

definition dispatch_request_of :: "string \<Rightarrow> n8nTypedDispatchRequest \<Rightarrow> externalActionRequest" where
  "dispatch_request_of tenantId request =
     \<lparr>rq_tenantId = tenantId, rq_actionId = nr_actionId request, rq_actionType = nr_actionType request,
      rq_approvedBy = nr_approvedBy request, rq_idempotencyKey = nr_idempotencyKey request,
      rq_requestPayload = nr_payload request\<rparr>"

definition dispatch_response :: "string \<Rightarrow> string \<Rightarrow> enqueueExternalActionResult \<Rightarrow> apiResponse" where
  "dispatch_response tenantId idempotencyKey result =
     ApiResponse 202
       [(''accepted'', JBool True), (''actionId'', JStr (ac_actionId (er_action result))),
        (''externalActionId'', JStr (ac_id (er_action result))),
        (''state'', JStr (external_state_name (ac_state (er_action result)))),
        (''duplicate'', JBool (er_isDuplicate result)), (''eventId'', JStr (oe_id (er_event result))),
        (''trackingId'', JStr (colon_key tenantId idempotencyKey)),
        (''eventType'', JStr (oe_eventType (er_event result)))]"

text \<open>A body that is not an object fails the schema.\<close>

definition typed_request_of_body ::
  "(string \<Rightarrow> bool) \<Rightarrow> (string \<Rightarrow> bool) \<Rightarrow> (string \<Rightarrow> bool) \<Rightarrow> json \<Rightarrow> n8nTypedDispatchRequest result" where
  "typed_request_of_body is_uuid is_url is_email v =
     (case v of JObj fs \<Rightarrow> n8nTypedDispatchRequestSchema_parse is_uuid is_url is_email fs | _ \<Rightarrow> Inl ZodError)"

definition post_n8n_dispatch ::
  "(string \<Rightarrow> bool) \<Rightarrow> (string \<Rightarrow> bool) \<Rightarrow> (string \<Rightarrow> bool) \<Rightarrow> (string \<Rightarrow> json result) \<Rightarrow> (string \<Rightarrow> string) \<Rightarrow> (number \<Rightarrow> string) \<Rightarrow>
   (nat \<Rightarrow> date) \<Rightarrow> apiRequest \<Rightarrow> n8nRouteDependencies \<Rightarrow> (js_error + apiResponse) \<times> n8nRouteDependencies" where
  "post_n8n_dispatch is_uuid is_url is_email JSON_parse sha256 number_text clock request deps =
     (case nd_externalActionsRepository deps of
        None \<Rightarrow> (Inl (ServiceUnavailableError ''External actions repository is not configured. Set DATABASE_URL.''), deps)
      | Some actions \<Rightarrow>
          if \<not> isDispatchConfigured deps
          then (Inl (ServiceUnavailableError
            ''n8n dispatch is not fully configured. Set N8N_DISPATCH_WEBHOOK_URL, N8N_DISPATCH_RESULT_CALLBACK_URL, and N8N_SHARED_SECRET.''),
            deps)
          else if \<not> tenantIdHeader_ok is_uuid (rh_header request ''X-Tenant-Id'')
          then (Inr (refusal ''X-Tenant-Id header is required'' 400), deps)
          else (case json_body JSON_parse (rh_body request) of
            None \<Rightarrow> (Inr (refusal ''Request body must be valid JSON'' 400), deps)
          | Some v \<Rightarrow>
              (case typed_request_of_body is_uuid is_url is_email v of
                 Inl _ \<Rightarrow> (Inr (refusal ''Invalid n8n dispatch request'' 422), deps)
               | Inr typed \<Rightarrow>
                   if Some (nr_tenantId typed) \<noteq> rh_header request ''X-Tenant-Id''
                   then (Inr (refusal ''tenantId must match the X-Tenant-Id header'' 403), deps)
                   else (case enqueueRequested is_uuid sha256 number_text clock
                           (dispatch_request_of (the (rh_header request ''X-Tenant-Id'')) typed) actions of
                      (Inl e, actions') \<Rightarrow> (Inl e, deps\<lparr>nd_externalActionsRepository := Some actions'\<rparr>)
                    | (Inr result, actions') \<Rightarrow>
                        (Inr (dispatch_response (the (rh_header request ''X-Tenant-Id'')) (nr_idempotencyKey typed) result),
                         deps\<lparr>nd_externalActionsRepository := Some actions'\<rparr>)))))"

text \<open>The callback as the repository takes it; an empty \<open>occurredAt\<close> would count as absent.\<close>

definition callback_outcome :: "(string \<Rightarrow> date) \<Rightarrow> json_record \<Rightarrow> recordExternalActionOutcome" where
  "callback_outcome date_of callback =
     \<lparr>ro_tenantId = string_at ''tenantId'' callback, ro_actionId = string_at ''actionId'' callback,
      ro_idempotencyKey = string_at ''idempotencyKey'' callback, ro_callbackId = string_at ''callbackId'' callback,
      ro_status = (if string_at ''status'' callback = ''completed'' then OutcomeCompleted else OutcomeFailed),
      ro_workflowId = string_opt_at ''workflowId'' callback, ro_executionId = string_opt_at ''executionId'' callback,
      ro_providerReference = string_opt_at ''providerReference'' callback,
      ro_outcome = Some (record_at ''outcome'' callback), ro_errorCode = string_opt_at ''errorCode'' callback,
      ro_errorMessage = string_opt_at ''errorMessage'' callback,
      ro_occurredAt = map_option date_of (set_text (string_opt_at ''occurredAt'' callback))\<rparr>"

definition outcome_response :: "recordExternalActionOutcomeResult \<Rightarrow> apiResponse" where
  "outcome_response result =
     ApiResponse 202
       [(''accepted'', JBool True), (''duplicate'', JBool (or_isDuplicate result)),
        (''actionId'', JStr (ac_actionId (or_action result))), (''externalActionId'', JStr (ac_id (or_action result))),
        (''state'', JStr (external_state_name (ac_state (or_action result))))]"

text \<open>The inner \<open>catch\<close>: three errors of the repository have a status of their own.\<close>

fun outcome_refusal :: "js_error \<Rightarrow> apiResponse result" where
  "outcome_refusal (ExternalActionNotFoundError actionId) = Inr (refusal (''External action not found: '' @ actionId) 404)"
| "outcome_refusal (ExternalActionConflictError m) = Inr (refusal m 409)"
| "outcome_refusal (ExternalActionStateError m) = Inr (refusal m 409)"
| "outcome_refusal e = Inl e"

definition post_n8n_dispatch_results ::
  "(string \<Rightarrow> bool) \<Rightarrow> (string \<Rightarrow> bool) \<Rightarrow> (string \<Rightarrow> date) \<Rightarrow> (string \<Rightarrow> json result) \<Rightarrow> (string \<Rightarrow> string \<Rightarrow> string) \<Rightarrow>
   (nat \<Rightarrow> date) \<Rightarrow> apiRequest \<Rightarrow> n8nRouteDependencies \<Rightarrow> (js_error + apiResponse) \<times> n8nRouteDependencies" where
  "post_n8n_dispatch_results is_uuid is_datetime date_of JSON_parse hmac clock request deps =
     (case nd_externalActionsRepository deps of
        None \<Rightarrow> (Inl (ServiceUnavailableError ''External actions repository is not configured. Set DATABASE_URL.''), deps)
      | Some actions \<Rightarrow>
     (case set_text (nd_n8nSharedSecret deps) of
        None \<Rightarrow> (Inl (ServiceUnavailableError ''N8N_SHARED_SECRET is required for n8n dispatch result callbacks.''), deps)
      | Some secret \<Rightarrow>
          if \<not> verifyN8nSignature hmac (rh_body request) (rh_header request ''X-GrowthOS-Signature'') secret
          then (Inl (UnauthorizedError ''Invalid n8n signature''), deps)
          else (case json_body JSON_parse (rh_body request) of
            None \<Rightarrow> (Inr (refusal ''Request body must be valid JSON'' 400), deps)
          | Some v \<Rightarrow>
              (case object_of (zparse (n8nDispatchResultCallbackSchema is_uuid is_datetime) v) of
                 Inl _ \<Rightarrow> (Inr (refusal ''Invalid n8n dispatch result callback'' 422), deps)
               | Inr callback \<Rightarrow>
                   (case recordOutcome is_uuid clock (callback_outcome date_of callback) actions of
                      (Inl e, actions') \<Rightarrow>
                        (outcome_refusal e, deps\<lparr>nd_externalActionsRepository := Some actions'\<rparr>)
                    | (Inr result, actions') \<Rightarrow>
                        (Inr (outcome_response result), deps\<lparr>nd_externalActionsRepository := Some actions'\<rparr>))))))"

section \<open>The routes of signals\<close>

definition ingestSignalRequestSchema :: "(string \<Rightarrow> bool) \<Rightarrow> zod" where
  "ingestSignalRequestSchema is_offset_datetime =
     ZObject
       [(''externalId'', Optional, ztext 1 255), (''signalType'', Required, ZEnum signalTypeValues),
        (''source'', Required, ztext 1 100), (''occurredAt'', Optional, ZString id is_offset_datetime),
        (''payload'', Optional, ZUnknownRecord)]"

definition json_of_opt :: "string option \<Rightarrow> json" where
  "json_of_opt s = (case s of None \<Rightarrow> JNull | Some x \<Rightarrow> JStr x)"

text \<open>Here a malformed body throws what \<open>c.req.json()\<close> throws, and a refused one throws a \<open>ZodError\<close>.\<close>

definition post_signals ::
  "(string \<Rightarrow> bool) \<Rightarrow> (string \<Rightarrow> bool) \<Rightarrow> (string \<Rightarrow> json result) \<Rightarrow> date \<Rightarrow> apiRequest \<Rightarrow> signalEvents option \<Rightarrow>
   (js_error + apiResponse) \<times> signalEvents option" where
  "post_signals is_uuid is_offset_datetime JSON_parse now request repository =
     (case repository of
        None \<Rightarrow> (Inl (ServiceUnavailableError ''Signal events repository is not configured. Set DATABASE_URL.''), repository)
      | Some signals \<Rightarrow>
     (case set_text (rh_header request ''X-Tenant-Id'') of
        None \<Rightarrow> (Inr (refusal ''X-Tenant-Id header is required'' 400), repository)
      | Some tenantId \<Rightarrow>
          or_throw (and_then (JSON_parse (rh_body request)) (\<lambda>v.
                      object_of (zparse (ingestSignalRequestSchema is_offset_datetime) v))) repository (\<lambda>body.
            (case signal_ingest is_uuid now
                    \<lparr>ip_tenantId = tenantId, ip_signalType = string_at ''signalType'' body,
                     ip_source = string_at ''source'' body, ip_externalId = string_opt_at ''externalId'' body,
                     ip_payload = record_at ''payload'' body\<rparr> signals of
               (Inl e, signals') \<Rightarrow> (Inl e, Some signals')
             | (Inr res, signals') \<Rightarrow>
                 (Inr (ApiResponse 202
                    [(''accepted'', JBool True), (''inserted'', JBool (\<not> ir_isDuplicate res)),
                     (''signalId'', JStr (show_nat (se_id (ir_event res)))),
                     (''externalId'', json_of_opt (se_externalId (ir_event res))),
                     (''tenantId'', JStr (se_tenantId (ir_event res)))]), Some signals')))))"

text \<open>A preview of a signal's grade; nothing is stored.\<close>

definition signalGradeRequestSchema :: zod where
  "signalGradeRequestSchema =
     ZObject
       [(''signalType'', Required, ztext 1 100), (''source'', Required, ztext 1 100), (''payload'', Optional, ZUnknownRecord),
        (''motionContext'', Optional, ztext 0 2000)]"

definition grade_answer :: "signalGrade option \<Rightarrow> json" where
  "grade_answer grade =
     (case grade of
        None \<Rightarrow> JNull
      | Some g \<Rightarrow> JObj [(''relevance'', JNum (gr_relevance g)), (''urgency'', JStr (gr_urgency g)),
                        (''topicCategory'', JStr (gr_topicCategory g)),
                        (''actionRecommendations'', JArr (map JStr (gr_actionRecommendations g)))])"

definition post_signals_grade ::
  "(string \<Rightarrow> json result) \<Rightarrow> apiRequest \<Rightarrow> llmCallRunner option \<Rightarrow> apiResponse result" where
  "post_signals_grade JSON_parse request llmCallRunner =
     (case llmCallRunner of
        None \<Rightarrow> Inl (ServiceUnavailableError ''LLM runner is not configured. Set OPENAI_API_KEY for OpenAI-backed grading.'')
      | Some run \<Rightarrow>
     (case set_text (rh_header request ''X-Tenant-Id'') of
        None \<Rightarrow> Inr (refusal ''X-Tenant-Id header is required'' 400)
      | Some tenantId \<Rightarrow>
     (case json_body JSON_parse (rh_body request) of
        None \<Rightarrow> Inr (refusal ''Request body must be valid JSON'' 400)
      | Some v \<Rightarrow>
     (case object_of (zparse signalGradeRequestSchema v) of
        Inl _ \<Rightarrow> Inr (refusal ''Invalid request'' 422)
      | Inr body \<Rightarrow>
          (let grade = gradeSignalPayload JSON_parse run
             \<lparr>gv_tenantId = tenantId, gv_signalType = string_at ''signalType'' body, gv_source = string_at ''source'' body,
              gv_payload = record_at ''payload'' body,
              gv_motionContext = nullish_or (string_opt_at ''motionContext'' body) ''inbound_content, plg''\<rparr>
           in Inr (ApiResponse 200 [(''graded'', JBool (grade \<noteq> None)), (''grade'', grade_answer grade)]))))))"

end
