(* ===== verification/RouteProperties.thy ===== *)
theory RouteProperties
  imports N8nRoutes ActionProperties Publisher
begin

text \<open>
  What the n8n routes guarantee over all requests: only signed requests change anything, a signal delivered again is reported as
  a duplicate, a result callback is applied once or refused with a status of its own, and an accepted dispatch request
  is the tenant's own and can be read by the publisher.
\<close>

section \<open>Bodies that pass their schemas\<close>

text \<open>A member of a parsed object has passed its own schema, unless it is optional and absent.\<close>

lemma zmembers_at:
  assumes "zmembers ms fs = Some out" and "distinct (map fst ms)" and "(k, pr, p) \<in> set ms"
  shows "(\<exists>v w. map_of out k = Some w \<and> p v = Some w) \<or> map_of out k = None \<and> pr = Optional"
  using assms
proof (induction ms arbitrary: out)
  case (Cons m ms)
  obtain k1 pr1 p1 where m: "m = (k1, pr1, p1)" by (cases m)
  from Cons.prems(1) obtain part rest where
    out: "zmember k1 pr1 p1 (map_of fs k1) = Some part" "zmembers ms fs = Some rest" "out = part @ rest"
    unfolding m zmembers_Cons by blast
  have fresh: "map_of rest k1 = None"
    using zmembers_keys [OF out(2)] Cons.prems(2) by (auto simp: m map_of_eq_None_iff)
  have part: "map_of part k' = None" if "k' \<noteq> k1" for k'
    using out(1) that by (auto simp: zmember_Some)
  show ?case
  proof (cases "k = k1")
    case True
    with Cons.prems(2,3) have "pr = pr1" "p = p1" by (force simp: m)+
    with True out(1) fresh show ?thesis by (auto simp: zmember_Some out(3))
  next
    case False
    with Cons.prems(2,3) have "(k, pr, p) \<in> set ms" by (simp add: m)
    moreover have "map_of out k = map_of rest k" using part [OF False] by (simp add: out(3) map_add_def)
    ultimately show ?thesis using Cons.IH [OF out(2)] Cons.prems(2) by (simp add: m)
  qed
qed simp

lemma object_member:
  assumes "zparse (ZObject ms) v = Some (JObj out)" and "distinct (map fst ms)" and "(k, pr, z) \<in> set ms"
  shows "(\<exists>x w. map_of out k = Some w \<and> zparse z x = Some w) \<or> map_of out k = None \<and> pr = Optional"
proof -
  obtain fs where "v = JObj fs" using assms(1) by (cases v) simp_all
  with assms(1) have p: "zmembers (map (\<lambda>(k, pr, z). (k, pr, zparse z)) ms) fs = Some out" by simp
  have "distinct (map fst (map (\<lambda>(k, pr, z). (k, pr, zparse z)) ms))"
    using assms(2) by (simp add: comp_def case_prod_unfold)
  moreover have "(k, pr, zparse z) \<in> set (map (\<lambda>(k, pr, z). (k, pr, zparse z)) ms)" using assms(3) by force
  ultimately show ?thesis by (rule zmembers_at [OF p])
qed

lemma zparse_string: "zparse (ZString id ok) x = Some w \<Longrightarrow> \<exists>s. w = JStr s \<and> ok s"
  by (cases x) (auto split: if_splits)

lemma zparse_one_of: "zparse (ZEnum vs) x = Some w \<Longrightarrow> \<exists>s. w = JStr s \<and> s \<in> set vs"
  by (cases x) (auto split: if_splits)

lemma text_member:
  assumes "zparse (ZObject ms) v = Some (JObj out)" and "distinct (map fst ms)"
  shows "(k, Required, ZString id ok) \<in> set ms \<Longrightarrow> ok (string_at k out)"
    and "(k, Optional, ZString id ok) \<in> set ms \<Longrightarrow> pred_opt ok (string_opt_at k out)"
    and "(k, Required, ZEnum vs) \<in> set ms \<Longrightarrow> string_at k out \<in> set vs"
  using object_member [OF assms, of k] by (force dest: zparse_string zparse_one_of)+

lemma ztext_short: "ztext 1 n = ZString id (short_text n)"
  by (auto simp: ztext_def short_text_def Suc_le_eq fun_eq_iff)

lemma callback_outcome_ok:
  assumes "zparse (n8nDispatchResultCallbackSchema is_uuid is_datetime) v = Some (JObj cb)"
  shows "recordExternalActionOutcome_ok is_uuid (callback_outcome date_of cb)"
proof -
  note member = text_member [OF assms [unfolded n8nDispatchResultCallbackSchema_def ztext_short]]
  have "is_uuid (string_at ''tenantId'' cb)" by (rule member(1)) simp_all
  moreover have "short_text 255 (string_at k cb)" if "k \<in> {''actionId'', ''idempotencyKey'', ''callbackId''}" for k
    by (rule member(1)) (use that in auto)
  moreover have "pred_opt (short_text 255) (string_opt_at k cb)"
    if "k \<in> {''workflowId'', ''executionId'', ''providerReference'', ''errorCode''}" for k
    by (rule member(2)) (use that in auto)
  moreover have "pred_opt (short_text 2000) (string_opt_at ''errorMessage'' cb)" by (rule member(2)) simp_all
  ultimately show ?thesis
    by (simp add: recordExternalActionOutcome_ok_def callback_outcome_def actionIdSchema_ok_def idempotencyKeySchema_ok_def
        del: string_at.simps string_opt_at.simps)
qed


lemma same_repository [simp]:
  "nd_externalActionsRepository deps = Some st \<Longrightarrow> deps\<lparr>nd_externalActionsRepository := Some st\<rparr> = deps"
  "nd_signalEventsRepository deps = Some sg \<Longrightarrow> deps\<lparr>nd_signalEventsRepository := Some sg\<rparr> = deps"
  by (cases deps, simp)+

lemma set_text_Some: "set_text x = Some s \<longleftrightarrow> x = Some s \<and> s \<noteq> []"
  by (auto simp: set_text_def split: option.splits)

section \<open>Result callbacks\<close>

abbreviation signed_by :: "(string \<Rightarrow> string \<Rightarrow> string) \<Rightarrow> string \<Rightarrow> apiRequest \<Rightarrow> bool" where
  "signed_by hmac secret request \<equiv>
     \<exists>s. rh_header request ''X-GrowthOS-Signature'' = Some s \<and>
       map fold_case (normalizeSignature s) = hmac secret (rh_body request)"

text \<open>The callback a body holds.\<close>

definition callback_of ::
  "(string \<Rightarrow> bool) \<Rightarrow> (string \<Rightarrow> bool) \<Rightarrow> (string \<Rightarrow> json result) \<Rightarrow> apiRequest \<Rightarrow> json_record option" where
  "callback_of is_uuid is_datetime JSON_parse request =
     (case json_body JSON_parse (rh_body request) of
        None \<Rightarrow> None
      | Some v \<Rightarrow> (case object_of (zparse (n8nDispatchResultCallbackSchema is_uuid is_datetime) v) of
                    Inl _ \<Rightarrow> None | Inr cb \<Rightarrow> Some cb))"

lemma callback_of_ok:
  assumes "callback_of is_uuid is_datetime JSON_parse request = Some cb"
  shows "recordExternalActionOutcome_ok is_uuid (callback_outcome date_of cb)"
proof -
  obtain v where "zparse (n8nDispatchResultCallbackSchema is_uuid is_datetime) v = Some (JObj cb)"
    using assms by (auto simp: callback_of_def object_of_Inr split: option.splits sum.splits)
  then show ?thesis by (rule callback_outcome_ok)
qed

lemma post_results_eq:
  assumes "nd_externalActionsRepository deps = Some st" and "nd_n8nSharedSecret deps = Some secret" and "secret \<noteq> []"
    and "hmac_format hmac"
  shows "\<not> signed_by hmac secret request \<Longrightarrow>
      respond (post_n8n_dispatch_results is_uuid is_datetime date_of JSON_parse hmac clock request deps) =
        (refusal ''Invalid n8n signature'' 401, deps)"
    and "signed_by hmac secret request \<Longrightarrow> callback_of is_uuid is_datetime JSON_parse request = None \<Longrightarrow>
      respond (post_n8n_dispatch_results is_uuid is_datetime date_of JSON_parse hmac clock request deps) =
        (if json_body JSON_parse (rh_body request) = None then refusal ''Request body must be valid JSON'' 400
         else refusal ''Invalid n8n dispatch result callback'' 422, deps)"
    and "signed_by hmac secret request \<Longrightarrow> callback_of is_uuid is_datetime JSON_parse request = Some cb \<Longrightarrow>
      respond (post_n8n_dispatch_results is_uuid is_datetime date_of JSON_parse hmac clock request deps) =
        respond (case recordOutcome is_uuid clock (callback_outcome date_of cb) st of
           (Inl e, st') \<Rightarrow> (outcome_refusal e, deps\<lparr>nd_externalActionsRepository := Some st'\<rparr>)
         | (Inr result, st') \<Rightarrow> (Inr (outcome_response result), deps\<lparr>nd_externalActionsRepository := Some st'\<rparr>))"
proof -
  have s: "set_text (nd_n8nSharedSecret deps) = Some secret" using assms(2,3) by (simp add: set_text_def)
  have v: "verifyN8nSignature hmac (rh_body request) (rh_header request ''X-GrowthOS-Signature'') secret \<longleftrightarrow>
      signed_by hmac secret request" using signature_accepted [OF assms(4)] assms(3) by simp
  note eq = post_n8n_dispatch_results_def [of is_uuid is_datetime date_of JSON_parse hmac clock request deps,
      unfolded assms(1) s option.case v]
  show "\<not> signed_by hmac secret request \<Longrightarrow>
      respond (post_n8n_dispatch_results is_uuid is_datetime date_of JSON_parse hmac clock request deps) =
        (refusal ''Invalid n8n signature'' 401, deps)"
    unfolding eq by (simp add: respond_def)
  show "signed_by hmac secret request \<Longrightarrow> callback_of is_uuid is_datetime JSON_parse request = None \<Longrightarrow>
      respond (post_n8n_dispatch_results is_uuid is_datetime date_of JSON_parse hmac clock request deps) =
        (if json_body JSON_parse (rh_body request) = None then refusal ''Request body must be valid JSON'' 400
         else refusal ''Invalid n8n dispatch result callback'' 422, deps)"
    unfolding eq callback_of_def by (auto simp: respond_def object_of_def split: option.splits sum.splits)
  show "signed_by hmac secret request \<Longrightarrow> callback_of is_uuid is_datetime JSON_parse request = Some cb \<Longrightarrow>
      respond (post_n8n_dispatch_results is_uuid is_datetime date_of JSON_parse hmac clock request deps) =
        respond (case recordOutcome is_uuid clock (callback_outcome date_of cb) st of
           (Inl e, st') \<Rightarrow> (outcome_refusal e, deps\<lparr>nd_externalActionsRepository := Some st'\<rparr>)
         | (Inr result, st') \<Rightarrow> (Inr (outcome_response result), deps\<lparr>nd_externalActionsRepository := Some st'\<rparr>))"
    unfolding eq callback_of_def by (auto simp: object_of_def split: option.splits sum.splits)
qed

text \<open>
  The action a callback is for, the one of its tenant under its action id and key, and the callback that comes after another has
  finished the action.
\<close>

definition callback_targets :: "json_record \<Rightarrow> externalActionRecord \<Rightarrow> external_actions \<Rightarrow> bool" where
  "callback_targets cb a st \<longleftrightarrow>
     action_by_id st (ac_id a) = Some a \<and> ac_tenantId a = string_at ''tenantId'' cb \<and>
     ac_actionId a = string_at ''actionId'' cb \<and> ac_idempotencyKey a = string_at ''idempotencyKey'' cb"

definition callback_too_late :: "json_record \<Rightarrow> externalActionRecord \<Rightarrow> external_actions \<Rightarrow> bool" where
  "callback_too_late cb a st \<longleftrightarrow>
     (ac_state a = EaCompleted \<or> ac_state a = EaFailed) \<and>
     \<not> has_event st (ac_id a) (callback_key (string_at ''callbackId'' cb))"

lemma callback_target_found:
  assumes "ea_good is_uuid sha256 st" and "recordExternalActionOutcome_ok is_uuid (callback_outcome date_of cb)"
  shows "callback_targets cb a st \<longleftrightarrow>
    action_find (string_at ''tenantId'' cb) (string_at ''actionId'' cb) (Some (string_at ''idempotencyKey'' cb)) st = Inr a"
proof -
  have t: "is_uuid (string_at ''tenantId'' cb)" and key: "string_at ''idempotencyKey'' cb \<noteq> []"
    using assms(2) by (simp_all add: recordExternalActionOutcome_ok_def callback_outcome_def idempotencyKeySchema_ok_def
        short_text_def del: string_at.simps)
  have same: "action_key a = colon_key (string_at ''tenantId'' cb) (string_at ''actionId'' cb) \<longleftrightarrow>
      ac_tenantId a = string_at ''tenantId'' cb \<and> ac_actionId a = string_at ''actionId'' cb"
    if "action_by_id st (ac_id a) = Some a"
    by (rule colon_key_inject [OF uuid_format_no_colon [OF ea_goodD(1) [OF assms(1)] good_uuids(2) [OF ea_goodD(4) [OF assms(1)] that]]
          uuid_format_no_colon [OF ea_goodD(1) [OF assms(1)] t]])
  show ?thesis
    unfolding action_find_Inr [OF ea_goodD(4) [OF assms(1)]] callback_targets_def using same key by metis
qed

text \<open>What recording an outcome returns, and that a refused one changes nothing.\<close>

lemma outcome_answer:
  assumes "ea_good is_uuid sha256 st" and "room st" and "recordExternalActionOutcome_ok is_uuid (callback_outcome date_of cb)"
    and "recordOutcome is_uuid clock (callback_outcome date_of cb) st = (x, st')"
  obtains (unknown) m where "\<nexists>a. callback_targets cb a st" "x = Inl (ExternalActionNotFoundError m)" "st' = st"
    | (late) a m where "callback_targets cb a st" "callback_too_late cb a st" "x = Inl (ExternalActionStateError m)" "st' = st"
    | (taken) a r where "callback_targets cb a st" "\<not> callback_too_late cb a st" "x = Inr r"
        "outcome_known is_uuid (callback_outcome date_of cb) (or_action r) st'"
proof -
  define c where "c = callback_outcome date_of cb"
  have c: "ro_tenantId c = string_at ''tenantId'' cb" "ro_actionId c = string_at ''actionId'' cb"
      "ro_idempotencyKey c = string_at ''idempotencyKey'' cb" "ro_callbackId c = string_at ''callbackId'' cb"
    by (simp_all add: c_def callback_outcome_def del: string_at.simps)
  note ok = assms(3) [folded c_def] and run = assms(4) [folded c_def]
  note found = callback_target_found [OF assms(1,3), folded c]
  have parse: "recordExternalActionOutcomeSchema_parse is_uuid c = Inr (with_default_outcome c)"
    using ok by (simp add: outcome_parse_Inr)
  from action_find_cases [of "ro_tenantId c" "ro_actionId c" "Some (ro_idempotencyKey c)" st]
  show thesis
  proof
    assume none: "action_find (ro_tenantId c) (ro_actionId c) (Some (ro_idempotencyKey c)) st =
        Inl (ExternalActionNotFoundError (ro_actionId c))"
    with run parse have "x = Inl (ExternalActionNotFoundError (ro_actionId c))" "st' = st" by (simp_all add: recordOutcome_def)
    moreover have "\<nexists>a. callback_targets cb a st" using none by (simp add: found)
    ultimately show thesis using unknown by blast
  next
    assume "\<exists>a. action_find (ro_tenantId c) (ro_actionId c) (Some (ro_idempotencyKey c)) st = Inr a"
    then obtain a where a: "action_find (ro_tenantId c) (ro_actionId c) (Some (ro_idempotencyKey c)) st = Inr a" by blast
    then have target: "callback_targets cb a st" by (simp add: found)
    note settled = outcome_settled [OF ok a, of clock]
    show thesis
    proof (cases "callback_too_late cb a st")
      case True
      then have "\<not> has_event st (ac_id a) (callback_key (ro_callbackId c))" "ac_state a = EaCompleted \<or> ac_state a = EaFailed"
        unfolding callback_too_late_def c(4) by blast+
      from settled(2) [OF this] run late [OF target True] show thesis by simp
    next
      case False
      have "\<exists>r st2. recordOutcome is_uuid clock c st = (Inr r, st2)"
      proof (cases "has_event st (ac_id a) (callback_key (ro_callbackId c))")
        case True
        from settled(1) [OF this] show ?thesis by blast
      next
        case no: False
        with False have "ac_state a \<noteq> EaCompleted" "ac_state a \<noteq> EaFailed" unfolding callback_too_late_def c(4) by blast+
        with outcome_moves [where clock = clock, OF ea_goodD(4,2) [OF assms(1)] assms(2) ok a no _ _ refl] show ?thesis by blast
      qed
      with run obtain r where r: "x = Inr r" by auto
      with outcome_filed [OF assms(1,2)] run have "outcome_known is_uuid c (or_action r) st'" by blast
      with taken target False r show thesis unfolding c_def by blast
    qed
  qed
qed

text \<open>
  C38. What a result callback does, in any good state: an unsigned one is answered 401; of the signed ones, one whose body is no JSON
  (or a falsy value) 400, one whose body is JSON but no callback 422, one for which the tenant has no action under its action id and
  key 404, one that comes after another callback has finished the action 409, and every other one 202; these are exactly the
  cases of the six answers. Only a 202 changes anything: it is recorded, and from then on, whatever happens to the actions, the same
  request is answered 202 with the same action as a duplicate, and changes nothing.
\<close>

theorem dispatch_result_outcome:
  assumes "nd_externalActionsRepository deps = Some st" and "ea_good is_uuid sha256 st" and "room st"
    and "nd_n8nSharedSecret deps = Some secret" and "secret \<noteq> []" and "hmac_format hmac"
    and "respond (post_n8n_dispatch_results is_uuid is_datetime date_of JSON_parse hmac clock request deps) = (r, deps1)"
  shows "response_status r \<in> {202, 400, 401, 404, 409, 422} \<and>
    (response_status r = 401 \<longleftrightarrow> \<not> signed_by hmac secret request) \<and>
    (response_status r = 400 \<longleftrightarrow> signed_by hmac secret request \<and> json_body JSON_parse (rh_body request) = None) \<and>
    (response_status r = 422 \<longleftrightarrow> signed_by hmac secret request \<and> json_body JSON_parse (rh_body request) \<noteq> None \<and>
       callback_of is_uuid is_datetime JSON_parse request = None) \<and>
    (response_status r = 404 \<longleftrightarrow> signed_by hmac secret request \<and>
       (\<exists>cb. callback_of is_uuid is_datetime JSON_parse request = Some cb \<and> (\<nexists>a. callback_targets cb a st))) \<and>
    (response_status r = 409 \<longleftrightarrow> signed_by hmac secret request \<and>
       (\<exists>cb a. callback_of is_uuid is_datetime JSON_parse request = Some cb \<and> callback_targets cb a st \<and>
          callback_too_late cb a st)) \<and>
    (response_status r = 202 \<longleftrightarrow> signed_by hmac secret request \<and>
       (\<exists>cb a. callback_of is_uuid is_datetime JSON_parse request = Some cb \<and> callback_targets cb a st \<and>
          \<not> callback_too_late cb a st)) \<and>
    (response_status r \<noteq> 202 \<longrightarrow> deps1 = deps) \<and>
    (response_status r = 202 \<longrightarrow> (\<exists>st1 cb a. nd_externalActionsRepository deps1 = Some st1 \<and>
      callback_of is_uuid is_datetime JSON_parse request = Some cb \<and>
      outcome_known is_uuid (callback_outcome date_of cb) a st1 \<and>
      (\<forall>number_text st2 clock'. (ea_any is_uuid sha256 number_text)\<^sup>*\<^sup>* st1 st2 \<longrightarrow>
         respond (post_n8n_dispatch_results is_uuid is_datetime date_of JSON_parse hmac clock' request
           (deps1\<lparr>nd_externalActionsRepository := Some st2\<rparr>)) =
         (outcome_response \<lparr>or_action = a, or_isDuplicate = True\<rparr>, deps1\<lparr>nd_externalActionsRepository := Some st2\<rparr>))))"
proof -
  note eqs = post_results_eq [OF assms(1,4-6), where request = request and is_uuid = is_uuid and is_datetime = is_datetime and
      date_of = date_of and JSON_parse = JSON_parse and clock = clock]
  consider (unsigned) "\<not> signed_by hmac secret request"
    | (unread) "signed_by hmac secret request" "callback_of is_uuid is_datetime JSON_parse request = None"
    | (read) cb where "signed_by hmac secret request" "callback_of is_uuid is_datetime JSON_parse request = Some cb"
    by blast
  then show ?thesis
  proof cases
    case unsigned
    with eqs(1) assms(7) have "r = refusal ''Invalid n8n signature'' 401" "deps1 = deps" by simp_all
    with unsigned show ?thesis by (simp add: refusal_def)
  next
    case unread
    show ?thesis
    proof (cases "json_body JSON_parse (rh_body request) = None")
      case True
      with eqs(2) [OF unread] assms(7) have "r = refusal ''Request body must be valid JSON'' 400" "deps1 = deps" by simp_all
      with unread True show ?thesis by (simp add: refusal_def)
    next
      case False
      with eqs(2) [OF unread] assms(7) have "r = refusal ''Invalid n8n dispatch result callback'' 422" "deps1 = deps" by simp_all
      with unread False show ?thesis by (simp add: refusal_def)
    qed
  next
    case read
    have body: "json_body JSON_parse (rh_body request) \<noteq> None" using read(2) by (auto simp: callback_of_def split: option.splits)
    have only: "callback_targets cb a st \<Longrightarrow> callback_targets cb b st \<Longrightarrow> a = b" for a b
      using callback_target_found [OF assms(2) callback_of_ok [OF read(2), of date_of]] by simp
    obtain x st1 where x: "recordOutcome is_uuid clock (callback_outcome date_of cb) st = (x, st1)" by force
    note r = assms(7) [unfolded eqs(3) [OF read] x prod.case]
    from assms(2,3) callback_of_ok [OF read(2), of date_of] x
    show ?thesis
    proof (cases rule: outcome_answer)
      case (taken a res)
      note res = taken(3,4)
      have r202: "r = outcome_response res" "deps1 = deps\<lparr>nd_externalActionsRepository := Some st1\<rparr>"
        using r by (simp_all add: res(1) respond_def)
      have good1: "ea_good is_uuid sha256 st1"
        using callback_once.run_inv [OF assms(2), of clock "callback_outcome date_of cb" res st1] assms(3) x res(1) by simp
      have again: "respond (post_n8n_dispatch_results is_uuid is_datetime date_of JSON_parse hmac clock' request
           (deps1\<lparr>nd_externalActionsRepository := Some st2\<rparr>)) =
         (outcome_response \<lparr>or_action = or_action res, or_isDuplicate = True\<rparr>, deps1\<lparr>nd_externalActionsRepository := Some st2\<rparr>)"
        if "(ea_any is_uuid sha256 number_text)\<^sup>*\<^sup>* st1 st2" for number_text st2 clock'
      proof -
        have good2: "ea_good is_uuid sha256 st2" by (rule action_life.steps_inv [OF that good1])
        have "recordOutcome is_uuid clock' (callback_outcome date_of cb) st2 =
            (Inr \<lparr>or_action = or_action res, or_isDuplicate = True\<rparr>, st2)"
          by (rule outcome_again [OF ea_goodD(4) [OF good2] known_outcome_stays [OF that good1 res(2)]])
        moreover have "nd_externalActionsRepository (deps1\<lparr>nd_externalActionsRepository := Some st2\<rparr>) = Some st2"
            "nd_n8nSharedSecret (deps1\<lparr>nd_externalActionsRepository := Some st2\<rparr>) = Some secret"
          using assms(4) by (simp_all add: r202(2))
        ultimately show ?thesis
          using post_results_eq(3) [OF _ _ assms(5,6) read, where clock = clock'] by (simp add: respond_def)
      qed
      have repository: "nd_externalActionsRepository deps1 = Some st1" by (simp add: r202(2))
      have status: "response_status r = 202" by (simp add: r202(1) outcome_response_def)
      have "\<not> callback_too_late cb b st" if "callback_targets cb b st" for b using only [OF that taken(1)] taken(2) by simp
      with again res(2) read r202(1) taken(1,2) body repository status show ?thesis by (auto simp del: string_at.simps)
    next
      case (unknown m)
      with r read assms(1) have "response_status r = 404" "deps1 = deps" by (auto simp: respond_def refusal_def)
      with read body unknown(1) show ?thesis by auto
    next
      case (late a m)
      with r read assms(1) have "response_status r = 409" "deps1 = deps" by (auto simp: respond_def refusal_def)
      moreover have "callback_too_late cb b st" if "callback_targets cb b st" for b using only [OF that late(1)] late(2) by simp
      ultimately show ?thesis using read body late(1,2) by auto
    qed
  qed
qed

section \<open>Signals\<close>

text \<open>The envelope a body holds.\<close>

definition envelope_of ::
  "(string \<Rightarrow> bool) \<Rightarrow> (string \<Rightarrow> bool) \<Rightarrow> (string \<Rightarrow> json result) \<Rightarrow> apiRequest \<Rightarrow> json_record option" where
  "envelope_of is_datetime is_url JSON_parse request =
     (case json_body JSON_parse (rh_body request) of
        None \<Rightarrow> None
      | Some v \<Rightarrow> (case object_of (zparse (n8nCanonicalSignalEnvelopeSchema is_datetime is_url) v) of
                    Inl _ \<Rightarrow> None | Inr env \<Rightarrow> Some env))"

lemma envelope_event:
  assumes "envelope_of is_datetime is_url JSON_parse request = Some env"
  shows "string_at ''eventId'' env \<noteq> []"
proof -
  obtain v where "zparse (n8nCanonicalSignalEnvelopeSchema is_datetime is_url) v = Some (JObj env)"
    using assms by (auto simp: envelope_of_def split: option.splits sum.splits)
  from text_member(1) [OF this [unfolded n8nCanonicalSignalEnvelopeSchema_def ztext_short], of "''eventId''" "short_text 255"]
  show ?thesis by (simp add: short_text_def del: string_at.simps)
qed

definition signal_acceptable ::
  "(string \<Rightarrow> bool) \<Rightarrow> (string \<Rightarrow> bool) \<Rightarrow> (string \<Rightarrow> bool) \<Rightarrow> (string \<Rightarrow> json result) \<Rightarrow> (string \<Rightarrow> string \<Rightarrow> string) \<Rightarrow>
   string \<Rightarrow> apiRequest \<Rightarrow> string \<Rightarrow> json_record \<Rightarrow> bool" where
  "signal_acceptable is_uuid is_datetime is_url JSON_parse hmac secret request t env \<longleftrightarrow>
     rh_header request ''X-Tenant-Id'' = Some t \<and> is_uuid t \<and>
     idempotencyKeyHeader_ok (rh_header request ''Idempotency-Key'') \<and> signed_by hmac secret request \<and>
     envelope_of is_datetime is_url JSON_parse request = Some env"

definition signal_accepted :: "ingestSignalResult \<Rightarrow> apiResponse" where
  "signal_accepted res =
     ApiResponse 202 [(''accepted'', JBool True), (''inserted'', JBool (\<not> ir_isDuplicate res)),
       (''signalId'', JStr (show_nat (se_id (ir_event res))))]"

lemma post_n8n_signals_eq:
  assumes "nd_signalEventsRepository deps = Some sg" and "nd_n8nSharedSecret deps = Some secret" and "secret \<noteq> []"
    and "hmac_format hmac"
  shows "signal_acceptable is_uuid is_datetime is_url JSON_parse hmac secret request t env \<Longrightarrow>
      respond (post_n8n_signals is_uuid is_datetime is_url JSON_parse hmac now request deps) =
        respond (case signal_ingest is_uuid now
            (envelope_params t (the (rh_header request ''Idempotency-Key'')) env) sg of
           (Inl e, sg') \<Rightarrow> (Inl e, deps\<lparr>nd_signalEventsRepository := Some sg'\<rparr>)
         | (Inr res, sg') \<Rightarrow> (Inr (signal_accepted res), deps\<lparr>nd_signalEventsRepository := Some sg'\<rparr>))"
    and "(\<nexists>t env. signal_acceptable is_uuid is_datetime is_url JSON_parse hmac secret request t env) \<Longrightarrow>
      \<exists>r. respond (post_n8n_signals is_uuid is_datetime is_url JSON_parse hmac now request deps) = (r, deps) \<and>
        response_status r \<in> {400, 401, 422} \<and> (\<not> signed_by hmac secret request \<longrightarrow> response_status r \<in> {400, 401})"
proof -
  have s: "set_text (nd_n8nSharedSecret deps) = Some secret" using assms(2,3) by (simp add: set_text_def)
  have v: "verifyN8nSignature hmac (rh_body request) (rh_header request ''X-GrowthOS-Signature'') secret \<longleftrightarrow>
      signed_by hmac secret request" using signature_accepted [OF assms(4)] assms(3) by simp
  note eq = post_n8n_signals_def [of is_uuid is_datetime is_url JSON_parse hmac now request deps,
      unfolded assms(1) s option.case v]
  show "signal_acceptable is_uuid is_datetime is_url JSON_parse hmac secret request t env \<Longrightarrow>
      respond (post_n8n_signals is_uuid is_datetime is_url JSON_parse hmac now request deps) =
        respond (case signal_ingest is_uuid now
            (envelope_params t (the (rh_header request ''Idempotency-Key'')) env) sg of
           (Inl e, sg') \<Rightarrow> (Inl e, deps\<lparr>nd_signalEventsRepository := Some sg'\<rparr>)
         | (Inr res, sg') \<Rightarrow> (Inr (signal_accepted res), deps\<lparr>nd_signalEventsRepository := Some sg'\<rparr>))"
    unfolding eq signal_acceptable_def envelope_of_def signal_accepted_def
    by (auto simp: tenantIdHeader_ok_def object_of_def split: option.splits sum.splits)
  show "(\<nexists>t env. signal_acceptable is_uuid is_datetime is_url JSON_parse hmac secret request t env) \<Longrightarrow>
      \<exists>r. respond (post_n8n_signals is_uuid is_datetime is_url JSON_parse hmac now request deps) = (r, deps) \<and>
        response_status r \<in> {400, 401, 422} \<and> (\<not> signed_by hmac secret request \<longrightarrow> response_status r \<in> {400, 401})"
    unfolding eq signal_acceptable_def envelope_of_def
    by (cases "rh_header request ''X-Tenant-Id''")
      (auto simp: tenantIdHeader_ok_def respond_def refusal_def object_of_def split: option.splits sum.splits)
qed

text \<open>
  C37. A signal from n8n is stored once, whoever delivers it how often. A request without a valid signature is refused with 400
  or 401 and changes nothing. An accepted one was signed, carried an
  envelope and named a tenant; and whatever the repository went through since, every later signed envelope of that tenant with
  the same event and source, whatever else it says, is answered 202 as not inserted, with the identifier given out first, and
  changes nothing.
\<close>

theorem n8n_signal_stored_once:
  assumes "nd_signalEventsRepository deps = Some sg" and "signals_inv is_uuid sg"
    and "nd_n8nSharedSecret deps = Some secret" and "secret \<noteq> []" and "hmac_format hmac"
    and "respond (post_n8n_signals is_uuid is_datetime is_url JSON_parse hmac now request deps) = (r, deps1)"
  shows "(\<not> signed_by hmac secret request \<longrightarrow> response_status r \<in> {400, 401} \<and> deps1 = deps) \<and>
    (response_status r = 202 \<longrightarrow> (\<exists>t env i sg1.
      signal_acceptable is_uuid is_datetime is_url JSON_parse hmac secret request t env \<and>
      map_of (response_body r) ''signalId'' = Some (JStr i) \<and> nd_signalEventsRepository deps1 = Some sg1 \<and>
      (\<forall>ops now' again env'. signal_acceptable is_uuid is_datetime is_url JSON_parse hmac secret again t env' \<and>
         string_at ''eventId'' env' = string_at ''eventId'' env \<and> string_at ''source'' env' = string_at ''source'' env \<longrightarrow>
         (let deps2 = deps1\<lparr>nd_signalEventsRepository := Some (signals_after is_uuid ops sg1)\<rparr>
          in respond (post_n8n_signals is_uuid is_datetime is_url JSON_parse hmac now' again deps2) =
            (ApiResponse 202 [(''accepted'', JBool True), (''inserted'', JBool False), (''signalId'', JStr i)], deps2)))))"
proof (cases "\<exists>t env. signal_acceptable is_uuid is_datetime is_url JSON_parse hmac secret request t env")
  case False
  with post_n8n_signals_eq(2) [OF assms(1,3-5) False, of now] assms(6) show ?thesis by auto
next
  case True
  then obtain t env where ok: "signal_acceptable is_uuid is_datetime is_url JSON_parse hmac secret request t env" by blast
  define p where "p = envelope_params t (the (rh_header request ''Idempotency-Key'')) env"
  have ev: "string_at ''eventId'' env \<noteq> []"
    using ok envelope_event by (auto simp: signal_acceptable_def simp del: string_at.simps)
  obtain x sg1 where x: "signal_ingest is_uuid now p sg = (x, sg1)" by force
  note r = assms(6) [unfolded post_n8n_signals_eq(1) [OF assms(1,3-5) ok] p_def [symmetric] x prod.case]
  show ?thesis
  proof (cases x)
    case (Inl e)
    have "response_status (mapErrorToResponse e) \<noteq> 202" by (cases e) (simp_all add: refusal_def)
    with r ok show ?thesis by (auto simp: Inl respond_def signal_acceptable_def)
  next
    case (Inr res)
    have r202: "r = signal_accepted res" "deps1 = deps\<lparr>nd_signalEventsRepository := Some sg1\<rparr>"
      using r by (simp_all add: Inr respond_def)
    have again: "respond (post_n8n_signals is_uuid is_datetime is_url JSON_parse hmac now' again deps2) =
        (ApiResponse 202 [(''accepted'', JBool True), (''inserted'', JBool False),
          (''signalId'', JStr (show_nat (se_id (ir_event res))))], deps2)"
      if ok': "signal_acceptable is_uuid is_datetime is_url JSON_parse hmac secret again t env'"
        and same: "string_at ''eventId'' env' = string_at ''eventId'' env" "string_at ''source'' env' = string_at ''source'' env"
        and deps2: "deps2 = deps1\<lparr>nd_signalEventsRepository := Some (signals_after is_uuid ops sg1)\<rparr>"
      for ops now' again env' deps2
    proof -
      define q where "q = envelope_params t (the (rh_header again ''Idempotency-Key'')) env'"
      have "ip_externalId p = Some (string_at ''eventId'' env)" "ip_tenantId q = ip_tenantId p" "ip_source q = ip_source p"
          "ip_externalId q = Some (string_at ''eventId'' env)"
        by (simp_all only: p_def q_def envelope_params_def ingestSignalParams.simps same)
      then obtain e where e: "signal_ingest is_uuid now' q (signals_after is_uuid ops sg1) =
          (Inr \<lparr>ir_event = e, ir_isDuplicate = True\<rparr>, signals_after is_uuid ops sg1)" "same_signal (ir_event res) e"
        using ingest_again [OF assms(2) x [unfolded Inr] _ ev refl, of q now' ops] by blast
      have d: "nd_signalEventsRepository deps2 = Some (signals_after is_uuid ops sg1)" "nd_n8nSharedSecret deps2 = Some secret"
        using assms(3) by (simp_all add: deps2 r202(2))
      have "se_id e = se_id (ir_event res)" using same_signalD [OF e(2)] by simp
      with post_n8n_signals_eq(1) [OF d assms(4,5) ok', of now', folded q_def] e(1) d(1)
      show ?thesis by (simp add: respond_def signal_accepted_def)
    qed
    have "map_of (response_body r) ''signalId'' = Some (JStr (show_nat (se_id (ir_event res))))"
      by (simp add: r202(1) signal_accepted_def)
    moreover have "nd_signalEventsRepository deps1 = Some sg1" by (simp add: r202(2))
    moreover have "signed_by hmac secret request" using ok by (simp add: signal_acceptable_def)
    ultimately show ?thesis using ok again unfolding Let_def by blast
  qed
qed

section \<open>Dispatch requests\<close>

lemma then_do_returns: "then_do m f s = (Inr b, t) \<longleftrightarrow> (\<exists>a u. m s = (Inr a, u) \<and> f a u = (Inr b, t))"
  by (auto simp: then_do_def split: prod.splits sum.splits)

lemma append_outbox:
  assumes "action_appendEvent is_uuid a key ty payload now st = (Inr x, st')"
  shows "ea_outbox st' = ea_outbox st"
  using assms unfolding action_appendEvent_def Let_def by (auto simp: or_throw_Inr split: if_splits)

lemma enqueued_event:
  assumes "outbox_inv is_uuid (ea_outbox st)" and "find_existing (ob_events (ea_outbox st)) (command_key c) = None"
    and "action_enqueue is_uuid c now st = (Inr e, st')"
  shows "oe_payload e = oc_payload c \<and> oe_tenantId e = oc_tenantId c \<and> oe_eventType e = oc_eventType c"
proof -
  obtain ob where ob: "outbox_enqueue is_uuid c now (ea_outbox st) = Inr (e, ob)"
    using assms(3) unfolding action_enqueue_def or_throw_Inr by auto
  from enqueue_on_valid [OF assms(1) enqueue_Inr_ok [OF ob], of now] ob assms(2) show ?thesis by (auto simp: Let_def)
qed

text \<open>Unless the outbox held an event under its key, a request is answered with an event that carries it.\<close>

lemma request_event:
  assumes "outbox_inv is_uuid (ea_outbox st)"
    and "find_existing (ob_events (ea_outbox st)) (command_key (dispatch_command q)) = None"
    and "enqueueRequested is_uuid sha256 number_text clock q st = (Inr r, st')"
  shows "oe_payload (er_event r) = oc_payload (dispatch_command q) \<and> oe_tenantId (er_event r) = rq_tenantId q \<and>
    oe_eventType (er_event r) = externalActionOutboxEventType"
proof -
  from assms(3) obtain p where "externalActionRequestSchema_parse is_uuid q = Inr p"
    unfolding enqueueRequested_def or_throw_Inr by blast
  then have parse: "externalActionRequestSchema_parse is_uuid q = Inr q"
    by (auto simp: externalActionRequestSchema_parse_def zod_parse_def split: if_splits)
  note run = assms(3) [unfolded enqueueRequested_def parse or_throw.simps Let_def]
  obtain s now s' where s: "ea_outbox s = ea_outbox st"
      "action_enqueue is_uuid (dispatch_command q) now s = (Inr (er_event r), s')"
  proof (cases "existing_action_id st q")
    case (Some i)
    from run obtain a where "action_by_id st i = Some a" by (cases "action_by_id st i") (simp_all add: Some)
    with run obtain e where "action_enqueue is_uuid (dispatch_command q) (clock 0) st = (Inr e, st')" "er_event r = e"
      by (auto simp: Some then_do_returns split: if_splits)
    with that [of st "clock 0" st'] show thesis by simp
  next
    case None
    from run obtain a u v where
        "action_appendEvent is_uuid a (''requested:'' @ rq_idempotencyKey q) ''requested'' (transitionEventPayload a ''requested'' [])
           (clock 1) u = (Inr (), v)" "ea_outbox u = ea_outbox st"
        "action_enqueue is_uuid (dispatch_command q) (clock 2) v = (Inr (er_event r), st')"
      by (force simp: None then_do_returns or_throw_Inr)
    with append_outbox that [of v "clock 2" st'] show thesis by simp
  qed
  from enqueued_event [of is_uuid s "dispatch_command q" now "er_event r" s'] assms(1,2) s
  show ?thesis by (simp add: dispatch_command_def)
qed

text \<open>The typed request a body holds.\<close>

definition dispatch_of ::
  "(string \<Rightarrow> bool) \<Rightarrow> (string \<Rightarrow> bool) \<Rightarrow> (string \<Rightarrow> bool) \<Rightarrow> (string \<Rightarrow> json result) \<Rightarrow> apiRequest \<Rightarrow> n8nTypedDispatchRequest option"
  where
  "dispatch_of is_uuid is_url is_email JSON_parse request =
     (case json_body JSON_parse (rh_body request) of
        None \<Rightarrow> None
      | Some v \<Rightarrow> (case typed_request_of_body is_uuid is_url is_email v of Inl _ \<Rightarrow> None | Inr typed \<Rightarrow> Some typed))"

lemma dispatch_of_parsed:
  assumes "dispatch_of is_uuid is_url is_email JSON_parse request = Some typed"
  obtains input where "n8nTypedDispatchRequestSchema_parse is_uuid is_url is_email input = Inr typed"
  using assms by (auto simp: dispatch_of_def typed_request_of_body_def split: option.splits sum.splits json.splits)

text \<open>The command's payload is the request without its callback, so the publisher reads the request from it.\<close>

lemma command_payload:
  "oc_payload (dispatch_command (dispatch_request_of (nr_tenantId typed) typed)) = request_object (typed\<lparr>nr_callback := None\<rparr>)"
  by (simp add: dispatch_command_def dispatch_request_of_def request_object_def)

lemma action_type_values: "ty \<in> set n8nActionTypeValues \<Longrightarrow> actionTypeSchema_ok ty"
proof -
  have "list_all actionTypeSchema_ok n8nActionTypeValues" by code_simp
  then show "ty \<in> set n8nActionTypeValues \<Longrightarrow> actionTypeSchema_ok ty" by (simp add: list_all_iff)
qed

lemma typed_request_ok:
  assumes "n8nTypedDispatchRequestSchema_parse is_uuid is_url is_email input = Inr typed"
  shows "externalActionRequest_ok is_uuid (dispatch_request_of (nr_tenantId typed) typed)"
proof -
  from assms obtain out payload where out:
      "zparse (ZObject (typed_request_members is_uuid is_url)) (JObj input) = Some (JObj out)"
      "typed = (typed_request_of out)\<lparr>nr_payload := payload\<rparr>"
    by (auto simp: n8nTypedDispatchRequestSchema_parse_def Let_def split: if_splits)
  have "request_fields_ok is_uuid is_url (typed_request_of out)" using request_members_parse [OF out(1)] by blast
  moreover have "actionTypeSchema_ok (nr_actionType typed)"
    by (rule action_type_values [OF typed_request_with_callback(3) [where c = None, OF assms]]) simp
  ultimately show ?thesis
    by (simp add: externalActionRequest_ok_def dispatch_request_of_def out(2) request_fields_ok_def actionIdSchema_ok_def
        idempotencyKeySchema_ok_def short_text_def)
qed

text \<open>The tenant the header names.\<close>

definition tenant_named :: "(string \<Rightarrow> bool) \<Rightarrow> apiRequest \<Rightarrow> string \<Rightarrow> bool" where
  "tenant_named is_uuid request t \<longleftrightarrow> rh_header request ''X-Tenant-Id'' = Some t \<and> is_uuid t"

lemma post_dispatch_eq:
  assumes "nd_externalActionsRepository deps = Some st" and "isDispatchConfigured deps"
  shows "dispatch_of is_uuid is_url is_email JSON_parse request = Some typed \<Longrightarrow>
      rh_header request ''X-Tenant-Id'' = Some (nr_tenantId typed) \<Longrightarrow> is_uuid (nr_tenantId typed) \<Longrightarrow>
      respond (post_n8n_dispatch is_uuid is_url is_email JSON_parse sha256 number_text clock request deps) =
        respond (case enqueueRequested is_uuid sha256 number_text clock (dispatch_request_of (nr_tenantId typed) typed) st of
           (Inl e, st') \<Rightarrow> (Inl e, deps\<lparr>nd_externalActionsRepository := Some st'\<rparr>)
         | (Inr result, st') \<Rightarrow>
             (Inr (dispatch_response (nr_tenantId typed) (nr_idempotencyKey typed) result),
              deps\<lparr>nd_externalActionsRepository := Some st'\<rparr>))"
    and "(\<nexists>typed. dispatch_of is_uuid is_url is_email JSON_parse request = Some typed \<and>
        tenant_named is_uuid request (nr_tenantId typed)) \<Longrightarrow>
      respond (post_n8n_dispatch is_uuid is_url is_email JSON_parse sha256 number_text clock request deps) =
        (if \<nexists>t. tenant_named is_uuid request t then refusal ''X-Tenant-Id header is required'' 400
         else if json_body JSON_parse (rh_body request) = None then refusal ''Request body must be valid JSON'' 400
         else if dispatch_of is_uuid is_url is_email JSON_parse request = None then refusal ''Invalid n8n dispatch request'' 422
         else refusal ''tenantId must match the X-Tenant-Id header'' 403, deps)"
proof -
  note eq = post_n8n_dispatch_def [of is_uuid is_url is_email JSON_parse sha256 number_text clock request deps,
      unfolded assms(1) option.case]
  show "respond (post_n8n_dispatch is_uuid is_url is_email JSON_parse sha256 number_text clock request deps) =
        respond (case enqueueRequested is_uuid sha256 number_text clock (dispatch_request_of (nr_tenantId typed) typed) st of
           (Inl e, st') \<Rightarrow> (Inl e, deps\<lparr>nd_externalActionsRepository := Some st'\<rparr>)
         | (Inr result, st') \<Rightarrow>
             (Inr (dispatch_response (nr_tenantId typed) (nr_idempotencyKey typed) result),
              deps\<lparr>nd_externalActionsRepository := Some st'\<rparr>))"
    if d: "dispatch_of is_uuid is_url is_email JSON_parse request = Some typed"
      and h: "rh_header request ''X-Tenant-Id'' = Some (nr_tenantId typed)" "is_uuid (nr_tenantId typed)"
  proof -
    from d obtain v where "json_body JSON_parse (rh_body request) = Some v" "typed_request_of_body is_uuid is_url is_email v = Inr typed"
      by (auto simp: dispatch_of_def split: option.splits sum.splits)
    with assms(2) h(2) show ?thesis unfolding eq h(1) option.sel by (simp add: tenantIdHeader_ok_def)
  qed
  assume none: "\<nexists>typed. dispatch_of is_uuid is_url is_email JSON_parse request = Some typed \<and>
      tenant_named is_uuid request (nr_tenantId typed)"
  show "respond (post_n8n_dispatch is_uuid is_url is_email JSON_parse sha256 number_text clock request deps) =
        (if \<nexists>t. tenant_named is_uuid request t then refusal ''X-Tenant-Id header is required'' 400
         else if json_body JSON_parse (rh_body request) = None then refusal ''Request body must be valid JSON'' 400
         else if dispatch_of is_uuid is_url is_email JSON_parse request = None then refusal ''Invalid n8n dispatch request'' 422
         else refusal ''tenantId must match the X-Tenant-Id header'' 403, deps)"
  proof (cases "tenantIdHeader_ok is_uuid (rh_header request ''X-Tenant-Id'')")
    case False
    then have "\<nexists>t. tenant_named is_uuid request t" by (auto simp: tenantIdHeader_ok_def tenant_named_def)
    with False assms(2) show ?thesis unfolding eq by (simp add: respond_def)
  next
    case True
    then obtain t where t: "rh_header request ''X-Tenant-Id'' = Some t" "is_uuid t"
      by (auto simp: tenantIdHeader_ok_def split: option.splits)
    then have named: "\<exists>t. tenant_named is_uuid request t" by (simp add: tenant_named_def)
    show ?thesis
    proof (cases "json_body JSON_parse (rh_body request)")
      case None
      with True named assms(2) show ?thesis unfolding eq by (simp add: respond_def)
    next
      case (Some v)
      show ?thesis
      proof (cases "typed_request_of_body is_uuid is_url is_email v")
        case (Inl e)
        with Some have "dispatch_of is_uuid is_url is_email JSON_parse request = None" by (simp add: dispatch_of_def)
        with True named assms(2) Some Inl show ?thesis unfolding eq by (simp add: respond_def)
      next
        case (Inr typed)
        with Some have d: "dispatch_of is_uuid is_url is_email JSON_parse request = Some typed" by (simp add: dispatch_of_def)
        with none t have "nr_tenantId typed \<noteq> t" unfolding tenant_named_def by blast
        with True named d assms(2) Some Inr t(1) show ?thesis unfolding eq by (simp add: respond_def)
      qed
    qed
  qed
qed


section \<open>Examples\<close>

definition example_headers :: "string \<Rightarrow> string option" where
  "example_headers name =
     (if name = ''X-GrowthOS-Signature'' then Some (example_hmac ''s'' ''b'')
      else if name = ''X-Tenant-Id'' then Some ''aa''
      else if name = ''Idempotency-Key'' then Some ''k'' else None)"

definition example_api_request :: apiRequest where
  "example_api_request = \<lparr>rh_header = example_headers, rh_body = ''b''\<rparr>"

definition example_deps :: n8nRouteDependencies where
  "example_deps =
     \<lparr>nd_signalEventsRepository = Some empty_signals, nd_externalActionsRepository = Some example_ea2,
      nd_n8nSharedSecret = Some ''s'', nd_n8nDispatchClient = None, nd_n8nDispatchWebhookUrl = Some ''u'',
      nd_n8nDispatchResultCallbackUrl = Some ''v''\<rparr>"

definition example_callback_body :: json where
  "example_callback_body =
     JObj [(''tenantId'', JStr ''aa''), (''actionId'', JStr ''x''), (''idempotencyKey'', JStr ''k''),
           (''callbackId'', JStr ''c''), (''status'', JStr ''failed'')]"

abbreviation example_results :: "date \<Rightarrow> n8nRouteDependencies \<Rightarrow> apiResponse \<times> n8nRouteDependencies" where
  "example_results t \<equiv> \<lambda>deps. respond (post_n8n_dispatch_results hex_id (\<lambda>_. True) (\<lambda>_. 0) (\<lambda>_. Inr example_callback_body)
     example_hmac (still t) example_api_request deps)"

theorem dispatch_result_outcome_witness:
  "\<exists>a. example_results 9 (snd (example_results 7 example_deps)) =
     (outcome_response \<lparr>or_action = a, or_isDuplicate = True\<rparr>, snd (example_results 7 example_deps))"
proof -
  have s: "response_status (fst (example_results 7 example_deps)) = 202" by code_simp
  have d: "nd_externalActionsRepository example_deps = Some example_ea2" "nd_n8nSharedSecret example_deps = Some ''s''" "''s'' \<noteq> []"
    by (simp_all add: example_deps_def)
  note result = dispatch_result_outcome [OF d(1) example_ea_good [OF example_reachable_actions(2)] example_room(3) d(2,3)
      hmac_format_example surjective_pairing]
  from result [where request = example_api_request and is_datetime = "\<lambda>_. True" and date_of = "\<lambda>_. 0" and
      JSON_parse = "\<lambda>_. Inr example_callback_body" and clock = "still 7"] s
  show ?thesis by (metis same_repository(1) rtranclp.rtrancl_refl)
qed

definition example_envelope :: json where
  "example_envelope =
     JObj [(''eventId'', JStr ''e''), (''source'', JStr ''reddit''), (''signalType'', JStr ''community''),
           (''occurredAt'', JStr ''d''), (''payload'', JObj [(''channel'', JStr ''reddit''), (''sourceRecordId'', JStr ''p'')])]"

abbreviation example_signals :: "date \<Rightarrow> n8nRouteDependencies \<Rightarrow> apiResponse \<times> n8nRouteDependencies" where
  "example_signals t \<equiv> \<lambda>deps. respond (post_n8n_signals hex_id (\<lambda>_. True) (\<lambda>_. True) (\<lambda>_. Inr example_envelope)
     example_hmac t example_api_request deps)"

theorem n8n_signal_stored_once_witness:
  "\<exists>i. example_signals 9 (snd (example_signals 7 example_deps)) =
     (ApiResponse 202 [(''accepted'', JBool True), (''inserted'', JBool False), (''signalId'', JStr i)],
      snd (example_signals 7 example_deps))"
proof -
  have s: "response_status (fst (example_signals 7 example_deps)) = 202" by code_simp
  have d: "nd_signalEventsRepository example_deps = Some empty_signals" "nd_n8nSharedSecret example_deps = Some ''s''" "''s'' \<noteq> []"
    by (simp_all add: example_deps_def)
  note stored = n8n_signal_stored_once [OF d(1) signals_inv_empty d(2,3) hmac_format_example surjective_pairing]
  from stored [where request = example_api_request and is_uuid = hex_id and is_datetime = "\<lambda>_. True" and is_url = "\<lambda>_. True" and
      JSON_parse = "\<lambda>_. Inr example_envelope" and now = 7] s
  obtain t env i sg1 where a: "signal_acceptable hex_id (\<lambda>_. True) (\<lambda>_. True) (\<lambda>_. Inr example_envelope) example_hmac ''s''
        example_api_request t env" "nd_signalEventsRepository (snd (example_signals 7 example_deps)) = Some sg1"
      "\<forall>ops. (let deps2 = (snd (example_signals 7 example_deps))\<lparr>nd_signalEventsRepository := Some (signals_after hex_id ops sg1)\<rparr>
        in example_signals 9 deps2 =
          (ApiResponse 202 [(''accepted'', JBool True), (''inserted'', JBool False), (''signalId'', JStr i)], deps2))"
    by blast
  from a(3) [rule_format, of "[]"] a(2) show ?thesis by (auto simp: Let_def)
qed

abbreviation example_dispatches :: "n8nRouteDependencies \<Rightarrow> apiResponse \<times> n8nRouteDependencies" where
  "example_dispatches \<equiv> \<lambda>deps. respond (post_n8n_dispatch hex_id (\<lambda>u. u \<noteq> []) (\<lambda>_. True) (\<lambda>_. Inr (JObj example_dispatch))
     example_sha rational_text (still 7) example_api_request deps)"


end
