(* ===== verification/Spec2Isabelle.thy ===== *)
theory Spec2Isabelle
  imports Prelude Harness Outbox WorkflowRuns Experiments Proposals Health Incidents Evidence ActionProperties PublisherProperties
    LearningConsumers SignalDelivery StableIds RouteProperties
begin

text \<open>
  Verification of the GrowthOS control plane.

  GrowthOS runs go-to-market work for tenants. Its HTTP routes and workers write rows through repositories
  of packages/db; every side effect is first a row of a transactional outbox; the outbox publisher moves
  those rows to NATS subjects and, for external actions, to an n8n webhook whose result comes back as
  a signed callback. Around this, an adaptive harness decides when a learned policy may be promoted and
  when a component may still act externally. The theories follow these parts.

  Parts, theories and code (all paths under src/):
  \<^item> Prelude: JavaScript values as the code meets them (strings, trimming, \<open>??\<close>, maps in insertion order, JSON
    values, dates as milliseconds), the sum of results and errors, keyed stores and their laws.
  \<^item> Harness: packages/core/src/adaptive-gtm-harness.ts, the promotion gate \<open>evaluateLearningProposal\<close> and
    the healing decision \<open>decideHealingAction\<close>.
  \<^item> Outbox: packages/db/src/contracts.ts, tenant-context.ts, outbox-repository.ts. The record \<open>outbox\<close> is the
    class \<open>InMemoryOutboxRepository\<close>; \<open>outbox_enqueue\<close>, \<open>outbox_listUnconsumed\<close> and \<open>outbox_markConsumed\<close> are its methods.
  \<^item> WorkflowRuns: packages/core/src/workflow-state.ts and workflows.ts, packages/db/src/workflow-run-repository.ts and
    the handlers of apps/api/src/routes/workflows.ts, as functions of the repositories' state.
  \<^item> ControlPlane, Experiments, Proposals, Health, Incidents, Evidence:
    packages/db/src/adaptive-control-plane-repository.ts, its in-memory classes one theory each, and the
    adapter that gives the promotion gate its evidence.
  \<^item> CanonicalText, Redaction, ExternalActions, ActionHistory, ActionProperties:
    packages/db/src/external-actions-repository.ts: the canonical text of a request and its digest, the
    masking of secrets in error messages, the repository, the invariant of its histories, its guarantees.
  \<^item> Zod, ChannelContracts, N8nClient: packages/n8n/src/channel-contracts.ts and index.ts, over a model of the
    validator objects they build (the zod package is third-party; only the combinators the file uses are
    given a meaning).
  \<^item> Publisher, PublisherProperties: apps/worker-outbox-publisher/src/outbox-publisher.ts, composed with the
    repositories above in the record \<open>world\<close>.
  \<^item> Playbooks, Learning, LearningWorker, LearningProperties, LearningRuns: packages/db/src/playbook-versions-repository.ts and
    apps/worker-learning/src/contracts.ts and learning-worker.ts: versioned playbooks, rubric updates, feedback to
    learning candidates, and critiques to playbook versions over the proposal, playbook and outbox repositories.
  \<^item> DurableConsumer, LearningConsumers: packages/core/src/durable-jetstream-consumer.ts and
    apps/worker-learning/src/index.ts: how a message is delivered, retried, acknowledged or filed as a dead letter when handlers
    return, throw, hang, crash or answer late, what a message that arrives during a promotion lease does, and what the publisher
    makes of a dead letter.
  \<^item> SignalEvents, SignalRouter, SignalDelivery, StableIds: packages/db/src/signal-events-repository.ts (the inbox of signals, with its leases),
    packages/core/src/stable-id.ts, packages/llm-harness/src/signal-grade.ts and apps/worker-signal-router/src: how a
    signal is claimed, graded, routed through the outbox and marked as processed, and what holds of it under crashes, retries and several
    workers (\<open>inbox_step\<close>).
  \<^item> N8nRoutes, RouteProperties: apps/api/src/routes/n8n.ts and signals.ts with error-middleware.ts and auth-middleware.ts: the
    handlers over the repositories of signals and external actions, and what a caller may rely on: which statuses there are,
    that only signed and accepted requests change anything, that repeated ones are recognised.

  How the theories are built. A class is a record of its fields; a method is a function from its arguments and
  the state to \<open>error + result\<close> and the new state; a thrown error is a value of \<open>js_error\<close>. The lemmas of a theory give first
  what each operation keeps of the theory's invariant, then what it returns on every branch, then an
  inductive step relation whose rules are the operations, and last the properties over all histories of it.
  Five locales of Prelude, Outbox and Evidence state what components promise each other: \<open>lifecycle\<close> (a row
  only moves along the edges of its state machine), \<open>append_only\<close> (a ledger whose entries are never changed),
  \<open>idempotent_command\<close> (a command repeated with its key returns the first row), \<open>outbox_queue\<close> and
  \<open>evidence_source\<close>; each is interpreted on the definitions of the repositories that provide it.

  Parameters. Checks the code delegates (\<open>is_uuid\<close>, \<open>is_url\<close>, \<open>is_email\<close>, \<open>is_datetime\<close>), SHA-256 and HMAC, the decimal
  text of a number, the clock and fresh identifiers, \<open>fetch\<close> and the NATS client are arguments of the definitions. Where a theorem needs
  more of them it is a named hypothesis: \<open>uuid_format\<close> (a UUID is made of hexadecimal digits and dashes), \<open>hmac_format\<close> (lower-case hexadecimal),
  \<open>hex_digest\<close> (SHA-256 gives 64 such digits), identifiers drawn are fresh, \<open>faithful_enqueue\<close> (an outbox that may fail at any call, but reports an
  event only when it stored it). Each such theorem has a witness with concrete functions. The NATS server is a function that says which deliveries it
  makes, under the documented contract of its durable consumers (\<open>jetstream_contract\<close>: again after a refusal or when the AckWait has run out,
  never above MaxDeliver or after a settlement within the AckWait); how long a delivery takes, whether it is answered at all and what it leaves
  behind otherwise are parameters too (\<open>network\<close>).

  Bounds. The in-memory repositories number their rows in twelve decimal digits, so the
  histories of external actions assume fewer than 10^12 identifiers (\<open>room\<close>); nothing else is bounded, and all functions
  are total.

  Concurrency. Each call of an operation is one step of the model, and calls from several workers are arbitrary sequences of steps. For most methods
  of the in-memory repositories that is exact: they run to the end before another starts. Where the code awaits in the
  middle, three places are split into steps of their own. \<open>incident_transition_begin\<close> and
  \<open>incident_transition_commit\<close> are the two halves of the incident transition, and \<open>overlapping_transitions_reopen\<close>
  shows what two interleaved calls do; the runtime callback of a workflow may be based on a run read earlier; and in \<open>inbox_step\<close> the claim, the
  processing of one signal and the release are separate, the processing works on a copy of the signal that may be stale and may stop at either
  call of the outbox, so that crashes and several workers are among its histories. The other asynchronous functions that make several awaited
  calls are modelled as one step each: a run of the learning worker (\<open>learning_run\<close>, with \<open>promotePlaybookChange\<close>, which awaits
  between listing and creating versions), a cycle of the publisher, a route, the promotion adapter. What the theories say of them holds of runs that
  do not overlap; of the learning worker, overlapping runs for one proposal are kept apart by the
  promotion claim, whose exclusion (\<open>promotion_claim_is_exclusive\<close>) is stated over all histories of the proposal repository.

  Not modelled: the Postgres repositories (their queries are computed by the database), the web application, HTTP clients of
  external services, prompts and calls to language models, telemetry, process start-up and timers, deployment.
\<close>

end
